(* ===== verification/Prelude.thy ===== *)
theory Prelude
  imports Main "HOL-Library.Char_ord" "HOL-Library.List_Lexorder"
begin

text \<open>
  Shared vocabulary of the development: the table operations that the SQL statements of the
  program are translated to (a table is the list of its rows), the lemma collections of the
  components, and the generic facts on lists and options that their proofs use.
\<close>

section \<open>Lemma collections\<close>

named_theorems store_defs \<open>unfoldings of the transaction bodies of the thread store\<close>
named_theorems row_simps \<open>how the table operations act on keys, lengths and lookups\<close>

section \<open>Tables as lists of rows\<close>

text \<open>\<open>UPDATE t SET f WHERE p\<close>: rewrite the rows that satisfy \<open>p\<close>, keep the order.\<close>

definition update_where :: "('r \<Rightarrow> bool) \<Rightarrow> ('r \<Rightarrow> 'r) \<Rightarrow> 'r list \<Rightarrow> 'r list" where
  "update_where p f rs = map (\<lambda>r. if p r then f r else r) rs"

text \<open>\<open>DELETE FROM t WHERE p\<close>.\<close>

definition delete_where :: "('r \<Rightarrow> bool) \<Rightarrow> 'r list \<Rightarrow> 'r list" where
  "delete_where p rs = filter (\<lambda>r. \<not> p r) rs"

text \<open>\<open>SELECT count(*) FROM t WHERE p\<close>, also the rows-affected tag of an UPDATE.\<close>

definition count_where :: "('r \<Rightarrow> bool) \<Rightarrow> 'r list \<Rightarrow> nat" where
  "count_where p rs = length (filter p rs)"

text \<open>\<open>SELECT ... WHERE p\<close> read as one row (\<open>QueryRow\<close>): the first match or no row.\<close>

definition select_one :: "('r \<Rightarrow> bool) \<Rightarrow> 'r list \<Rightarrow> 'r option" where
  "select_one p rs = find p rs"

text \<open>\<open>COALESCE(MAX(col), 0)\<close> over the selected rows.\<close>

definition max_or_zero :: "int list \<Rightarrow> int" where
  "max_or_zero xs = (case xs of [] \<Rightarrow> 0 | x # ys \<Rightarrow> foldl max x ys)"

lemma update_where_length [simp]: "length (update_where p f rs) = length rs"
  by (simp add: update_where_def)

lemma update_where_Nil [simp]: "update_where p f [] = []"
  by (simp add: update_where_def)

lemma update_where_Cons [row_simps]:
  "update_where p f (r # rs) = (if p r then f r else r) # update_where p f rs"
  by (simp add: update_where_def)

lemma update_where_keys:
  assumes "\<And>r. p r \<Longrightarrow> key (f r) = key r"
  shows "map key (update_where p f rs) = map key rs"
  using assms by (induction rs) (auto simp: row_simps)

lemma in_update_where:
  "r \<in> set (update_where p f rs) \<longleftrightarrow> (\<exists>s \<in> set rs. r = (if p s then f s else s))"
  by (auto simp: update_where_def)

lemma update_where_none: "(\<And>r. r \<in> set rs \<Longrightarrow> \<not> p r) \<Longrightarrow> update_where p f rs = rs"
  by (induction rs) (auto simp: row_simps)

lemma count_where_zero: "count_where p rs = 0 \<longleftrightarrow> (\<forall>r \<in> set rs. \<not> p r)"
  by (simp add: count_where_def filter_empty_conv)

lemma select_one_Some_in: "select_one p rs = Some r \<Longrightarrow> r \<in> set rs \<and> p r"
  by (auto simp: select_one_def find_Some_iff)

lemma select_one_None: "select_one p rs = None \<longleftrightarrow> (\<forall>r \<in> set rs. \<not> p r)"
  by (auto simp: select_one_def find_None_iff)

lemma select_one_Nil [simp]: "select_one p [] = None"
  by (simp add: select_one_def)

lemma select_one_Cons [row_simps]: "select_one p (r # rs) = (if p r then Some r else select_one p rs)"
  by (simp add: select_one_def)

text \<open>With a unique key the row found by its key is the only one.\<close>

lemma key_inj:
  assumes "distinct (map key rs)" "r \<in> set rs" "s \<in> set rs" "key r = key s"
  shows "r = s"
  using assms by (metis distinct_map inj_onD)

lemma select_one_unique:
  assumes "distinct (map key rs)" "r \<in> set rs" "p r" "\<And>s. p s \<Longrightarrow> key s = key r"
  shows "select_one p rs = Some r"
  using assms
proof (induction rs)
  case Nil
  then show ?case by simp
next
  case (Cons s rs)
  show ?case
  proof (cases "p s")
    case True
    with Cons.prems(4) have "key s = key r" by blast
    with Cons.prems(2) have "s = r" by (intro key_inj [OF Cons.prems(1)]) auto
    with True show ?thesis by (simp add: row_simps)
  next
    case False
    moreover from False Cons.prems(2,3) have "r \<in> set rs" by auto
    moreover from Cons.prems(1) have "distinct (map key rs)" by simp
    ultimately have "select_one p rs = Some r"
      using Cons.IH Cons.prems(3,4) by blast
    with False show ?thesis by (simp add: row_simps)
  qed
qed

text \<open>Looking a key up after an update that keeps the keys.\<close>

lemma select_one_update_where:
  assumes "\<And>r. q (f r) \<longleftrightarrow> q r"
  shows "select_one q (update_where p f rs)
    = map_option (\<lambda>r. if p r then f r else r) (select_one q rs)"
  using assms by (induction rs) (auto simp: row_simps)

lemma count_where_unique:
  assumes "distinct (map key rs)" "\<And>r. p r \<Longrightarrow> key r = k"
  shows "count_where p rs \<le> 1"
  using assms
proof (induction rs)
  case (Cons r rs)
  show ?case
  proof (cases "p r")
    case True
    with Cons.prems have "\<forall>s \<in> set rs. \<not> p s" by (auto simp: image_iff)
    then have "filter p rs = []" by (simp add: filter_empty_conv)
    with True show ?thesis by (simp add: count_where_def)
  next
    case False
    with Cons show ?thesis by (simp add: count_where_def)
  qed
qed (simp add: count_where_def)

lemma max_or_zero_ge: "x \<in> set xs \<Longrightarrow> x \<le> max_or_zero xs"
proof -
  have aux: "a \<le> foldl max a ys \<and> (\<forall>y \<in> set ys. y \<le> foldl max a ys)" for a :: int and ys
    by (induction ys arbitrary: a) (auto, (meson max.bounded_iff order_trans max.cobounded1 max.cobounded2)+)
  show "x \<in> set xs \<Longrightarrow> x \<le> max_or_zero xs"
    using aux by (cases xs) (auto simp: max_or_zero_def)
qed

lemma max_or_zero_in: "xs \<noteq> [] \<Longrightarrow> max_or_zero xs \<in> set xs"
proof -
  have aux: "foldl max a ys \<in> insert a (set ys)" for a :: int and ys
    by (induction ys arbitrary: a) (auto simp: max_def split: if_splits)
  show "xs \<noteq> [] \<Longrightarrow> max_or_zero xs \<in> set xs"
    using aux by (cases xs) (auto simp: max_or_zero_def)
qed

section \<open>Options and pointers\<close>

text \<open>A Go pointer that may be nil is an option; \<open>derefStr\<close> and friends read the empty string.\<close>

definition or_empty :: "string option \<Rightarrow> string" where
  "or_empty p = (case p of None \<Rightarrow> [] | Some s \<Rightarrow> s)"

lemma or_empty_simps [simp]: "or_empty None = []" "or_empty (Some s) = s"
  by (simp_all add: or_empty_def)

section \<open>Sorting rows\<close>

text \<open>\<open>ORDER BY key\<close> as a stable insertion sort.\<close>

definition order_by :: "('r \<Rightarrow> 'k::linorder) \<Rightarrow> 'r list \<Rightarrow> 'r list" where
  "order_by key rs = sort_key key rs"

lemma set_order_by [simp]: "set (order_by key rs) = set rs"
  by (simp add: order_by_def)

lemma sorted_order_by: "sorted (map key (order_by key rs))"
  by (simp add: order_by_def)

lemma order_by_sorted_id: "sorted (map key rs) \<Longrightarrow> order_by key rs = rs"
  unfolding order_by_def by (induction rs) (auto simp: insort_is_Cons)

lemma distinct_order_by: "distinct (map key rs) \<Longrightarrow> distinct (map key (order_by key rs))"
  by (metis distinct_map distinct_sort order_by_def set_sort)

end
