(* ===== verification/ApiError.thy ===== *)
theory ApiError
  imports Prelude
begin

text \<open>
  The error space of the platform (\<^verbatim>\<open>libs/apierror\<close>): the registered codes with
  their levels and HTTP statuses, Go error chains, and the one exit through which a handler's
  outcome becomes an HTTP response. The Chinese message templates of the registry are not
  modelled; a response carries the code whose template it shows.
\<close>

section \<open>Registered codes\<close>

datatype (plugins only: code) code =
    CodeValidationFailed
  | CodeCommonNotFound
  | CodeCommonConflict
  | CodeCommonNotImplemented
  | CodeAuthUnauthenticated
  | CodeAuthTokenExpired
  | CodeAuthForbidden
  | CodeTenantNotFound
  | CodeTenantSuspended
  | CodeTenantContextMissing
  | CodeInternalError
  | CodeUpstreamLlmTimeout
  | CodeUpstreamLlmFailed
  | CodeUpstreamLlmModelUnknown
  | CodeUpstreamConnectorOffline
  | CodeQuotaExceeded
  | CodeDatasourceNotFound
  | CodeDatasourceNameConflict
  | CodeDatasourceModeMismatch
  | CodeDatasourceInUse
  | CodeAgentNotFound
  | CodeAliasConflict
  | CodeIdempotencyReplay
  | CodeConnectorEnrollTokenInvalid
  | CodeConnectorAlreadyEnrolled
  | CodeConnectorRevoked
  | CodeConnectorOffline
  | CodeSvcUnauthenticated
  | CodeDatasourceConnectFailed
  | CodeDatasourceTestTimeout
  | CodeMetricsCollectFailed
  | CodeSnapshotCollectFailed
  | CodeCollectUnsupportedKind
  | CodeTimeseriesWriteFailed
  | CodeTimeseriesQueryFailed
  | CodeTimeseriesUndeclaredSeries
  | CodeCollectDatasourceMismatch
  | CodeAgentThreadNotFound
  | CodeAgentThreadInUse
  | CodeAgentEventUnknown
  | CodeAgentTurnRejected
  | CodeAgentActionNeedsApproval
  | Unregistered string

primrec code_str :: "code \<Rightarrow> string" where
  "code_str CodeValidationFailed = ''AR_VALIDATION_FAILED''"
| "code_str CodeCommonNotFound = ''AR_COMMON_NOT_FOUND''"
| "code_str CodeCommonConflict = ''AR_COMMON_CONFLICT''"
| "code_str CodeCommonNotImplemented = ''AR_COMMON_NOT_IMPLEMENTED''"
| "code_str CodeAuthUnauthenticated = ''AR_AUTH_UNAUTHENTICATED''"
| "code_str CodeAuthTokenExpired = ''AR_AUTH_TOKEN_EXPIRED''"
| "code_str CodeAuthForbidden = ''AR_AUTH_FORBIDDEN''"
| "code_str CodeTenantNotFound = ''AR_TENANT_NOT_FOUND''"
| "code_str CodeTenantSuspended = ''AR_TENANT_SUSPENDED''"
| "code_str CodeTenantContextMissing = ''AR_TENANT_CONTEXT_MISSING''"
| "code_str CodeInternalError = ''AR_INTERNAL_ERROR''"
| "code_str CodeUpstreamLlmTimeout = ''AR_UPSTREAM_LLM_TIMEOUT''"
| "code_str CodeUpstreamLlmFailed = ''AR_UPSTREAM_LLM_FAILED''"
| "code_str CodeUpstreamLlmModelUnknown = ''AR_UPSTREAM_LLM_MODEL_UNKNOWN''"
| "code_str CodeUpstreamConnectorOffline = ''AR_UPSTREAM_CONNECTOR_OFFLINE''"
| "code_str CodeQuotaExceeded = ''AR_QUOTA_EXCEEDED''"
| "code_str CodeDatasourceNotFound = ''AR_DATASOURCE_NOT_FOUND''"
| "code_str CodeDatasourceNameConflict = ''AR_DATASOURCE_NAME_CONFLICT''"
| "code_str CodeDatasourceModeMismatch = ''AR_DATASOURCE_MODE_MISMATCH''"
| "code_str CodeDatasourceInUse = ''AR_DATASOURCE_IN_USE''"
| "code_str CodeAgentNotFound = ''AR_AGENT_NOT_FOUND''"
| "code_str CodeAliasConflict = ''AR_ALIAS_CONFLICT''"
| "code_str CodeIdempotencyReplay = ''AR_IDEMPOTENCY_REPLAY''"
| "code_str CodeConnectorEnrollTokenInvalid = ''AR_CONNECTOR_ENROLL_TOKEN_INVALID''"
| "code_str CodeConnectorAlreadyEnrolled = ''AR_CONNECTOR_ALREADY_ENROLLED''"
| "code_str CodeConnectorRevoked = ''AR_CONNECTOR_REVOKED''"
| "code_str CodeConnectorOffline = ''AR_CONNECTOR_OFFLINE''"
| "code_str CodeSvcUnauthenticated = ''AR_SVC_UNAUTHENTICATED''"
| "code_str CodeDatasourceConnectFailed = ''AR_DATASOURCE_CONNECT_FAILED''"
| "code_str CodeDatasourceTestTimeout = ''AR_DATASOURCE_TEST_TIMEOUT''"
| "code_str CodeMetricsCollectFailed = ''AR_METRICS_COLLECT_FAILED''"
| "code_str CodeSnapshotCollectFailed = ''AR_SNAPSHOT_COLLECT_FAILED''"
| "code_str CodeCollectUnsupportedKind = ''AR_COLLECT_UNSUPPORTED_KIND''"
| "code_str CodeTimeseriesWriteFailed = ''AR_TIMESERIES_WRITE_FAILED''"
| "code_str CodeTimeseriesQueryFailed = ''AR_TIMESERIES_QUERY_FAILED''"
| "code_str CodeTimeseriesUndeclaredSeries = ''AR_TIMESERIES_UNDECLARED_SERIES''"
| "code_str CodeCollectDatasourceMismatch = ''AR_COLLECT_DATASOURCE_MISMATCH''"
| "code_str CodeAgentThreadNotFound = ''AR_AGENT_THREAD_NOT_FOUND''"
| "code_str CodeAgentThreadInUse = ''AR_AGENT_THREAD_IN_USE''"
| "code_str CodeAgentEventUnknown = ''AR_AGENT_EVENT_UNKNOWN''"
| "code_str CodeAgentTurnRejected = ''AR_AGENT_TURN_REJECTED''"
| "code_str CodeAgentActionNeedsApproval = ''AR_AGENT_ACTION_NEEDS_APPROVAL''"
| "code_str (Unregistered s) = s"

record meta_info =
  mi_level :: string
  mi_http :: nat
  mi_deprecated :: bool

text \<open>The table \<open>codeMeta\<close>; an unregistered code has no row.\<close>

primrec code_meta :: "code \<Rightarrow> meta_info option" where
  "code_meta CodeValidationFailed = Some \<lparr>mi_level = ''E1'', mi_http = 400, mi_deprecated = False\<rparr>"
| "code_meta CodeCommonNotFound = Some \<lparr>mi_level = ''E3'', mi_http = 404, mi_deprecated = False\<rparr>"
| "code_meta CodeCommonConflict = Some \<lparr>mi_level = ''E3'', mi_http = 409, mi_deprecated = False\<rparr>"
| "code_meta CodeCommonNotImplemented = Some \<lparr>mi_level = ''E4'', mi_http = 501, mi_deprecated = False\<rparr>"
| "code_meta CodeAuthUnauthenticated = Some \<lparr>mi_level = ''E2'', mi_http = 401, mi_deprecated = False\<rparr>"
| "code_meta CodeAuthTokenExpired = Some \<lparr>mi_level = ''E2'', mi_http = 401, mi_deprecated = False\<rparr>"
| "code_meta CodeAuthForbidden = Some \<lparr>mi_level = ''E2'', mi_http = 403, mi_deprecated = False\<rparr>"
| "code_meta CodeTenantNotFound = Some \<lparr>mi_level = ''E3'', mi_http = 404, mi_deprecated = False\<rparr>"
| "code_meta CodeTenantSuspended = Some \<lparr>mi_level = ''E2'', mi_http = 403, mi_deprecated = False\<rparr>"
| "code_meta CodeTenantContextMissing = Some \<lparr>mi_level = ''E4'', mi_http = 500, mi_deprecated = False\<rparr>"
| "code_meta CodeInternalError = Some \<lparr>mi_level = ''E4'', mi_http = 500, mi_deprecated = False\<rparr>"
| "code_meta CodeUpstreamLlmTimeout = Some \<lparr>mi_level = ''E5'', mi_http = 504, mi_deprecated = False\<rparr>"
| "code_meta CodeUpstreamLlmFailed = Some \<lparr>mi_level = ''E5'', mi_http = 502, mi_deprecated = False\<rparr>"
| "code_meta CodeUpstreamLlmModelUnknown = Some \<lparr>mi_level = ''E1'', mi_http = 400, mi_deprecated = False\<rparr>"
| "code_meta CodeUpstreamConnectorOffline = Some \<lparr>mi_level = ''E5'', mi_http = 503, mi_deprecated = False\<rparr>"
| "code_meta CodeQuotaExceeded = Some \<lparr>mi_level = ''E6'', mi_http = 429, mi_deprecated = False\<rparr>"
| "code_meta CodeDatasourceNotFound = Some \<lparr>mi_level = ''E3'', mi_http = 404, mi_deprecated = False\<rparr>"
| "code_meta CodeDatasourceNameConflict = Some \<lparr>mi_level = ''E3'', mi_http = 409, mi_deprecated = False\<rparr>"
| "code_meta CodeDatasourceModeMismatch = Some \<lparr>mi_level = ''E1'', mi_http = 400, mi_deprecated = False\<rparr>"
| "code_meta CodeDatasourceInUse = Some \<lparr>mi_level = ''E3'', mi_http = 409, mi_deprecated = False\<rparr>"
| "code_meta CodeAgentNotFound = Some \<lparr>mi_level = ''E3'', mi_http = 404, mi_deprecated = False\<rparr>"
| "code_meta CodeAliasConflict = Some \<lparr>mi_level = ''E3'', mi_http = 409, mi_deprecated = False\<rparr>"
| "code_meta CodeIdempotencyReplay = Some \<lparr>mi_level = ''E1'', mi_http = 409, mi_deprecated = False\<rparr>"
| "code_meta CodeConnectorEnrollTokenInvalid = Some \<lparr>mi_level = ''E2'', mi_http = 401, mi_deprecated = False\<rparr>"
| "code_meta CodeConnectorAlreadyEnrolled = Some \<lparr>mi_level = ''E3'', mi_http = 409, mi_deprecated = False\<rparr>"
| "code_meta CodeConnectorRevoked = Some \<lparr>mi_level = ''E2'', mi_http = 403, mi_deprecated = False\<rparr>"
| "code_meta CodeConnectorOffline = Some \<lparr>mi_level = ''E5'', mi_http = 503, mi_deprecated = False\<rparr>"
| "code_meta CodeSvcUnauthenticated = Some \<lparr>mi_level = ''E2'', mi_http = 401, mi_deprecated = False\<rparr>"
| "code_meta CodeDatasourceConnectFailed = Some \<lparr>mi_level = ''E5'', mi_http = 502, mi_deprecated = False\<rparr>"
| "code_meta CodeDatasourceTestTimeout = Some \<lparr>mi_level = ''E5'', mi_http = 504, mi_deprecated = False\<rparr>"
| "code_meta CodeMetricsCollectFailed = Some \<lparr>mi_level = ''E5'', mi_http = 502, mi_deprecated = False\<rparr>"
| "code_meta CodeSnapshotCollectFailed = Some \<lparr>mi_level = ''E5'', mi_http = 502, mi_deprecated = False\<rparr>"
| "code_meta CodeCollectUnsupportedKind = Some \<lparr>mi_level = ''E4'', mi_http = 400, mi_deprecated = False\<rparr>"
| "code_meta CodeTimeseriesWriteFailed = Some \<lparr>mi_level = ''E4'', mi_http = 500, mi_deprecated = False\<rparr>"
| "code_meta CodeTimeseriesQueryFailed = Some \<lparr>mi_level = ''E4'', mi_http = 500, mi_deprecated = False\<rparr>"
| "code_meta CodeTimeseriesUndeclaredSeries = Some \<lparr>mi_level = ''E4'', mi_http = 500, mi_deprecated = False\<rparr>"
| "code_meta CodeCollectDatasourceMismatch = Some \<lparr>mi_level = ''E2'', mi_http = 403, mi_deprecated = False\<rparr>"
| "code_meta CodeAgentThreadNotFound = Some \<lparr>mi_level = ''E3'', mi_http = 404, mi_deprecated = False\<rparr>"
| "code_meta CodeAgentThreadInUse = Some \<lparr>mi_level = ''E3'', mi_http = 409, mi_deprecated = False\<rparr>"
| "code_meta CodeAgentEventUnknown = Some \<lparr>mi_level = ''E4'', mi_http = 500, mi_deprecated = False\<rparr>"
| "code_meta CodeAgentTurnRejected = Some \<lparr>mi_level = ''E6'', mi_http = 429, mi_deprecated = False\<rparr>"
| "code_meta CodeAgentActionNeedsApproval = Some \<lparr>mi_level = ''E2'', mi_http = 403, mi_deprecated = False\<rparr>"
| "code_meta (Unregistered s) = None"

text \<open>\<open>MetaOf\<close>: an unregistered code falls back to the row of the internal error.\<close>

definition meta_of :: "code \<Rightarrow> meta_info" where
  "meta_of c = (case code_meta c of Some m \<Rightarrow> m | None \<Rightarrow> the (code_meta CodeInternalError))"

section \<open>Errors\<close>

text \<open>A field with the kind of constraint it broke (the \<open>Detail\<close> pairs of a 400).\<close>

type_synonym detail = "string \<times> string"

text \<open>
  A Go error value. \<open>ApiErr\<close> is \<open>*apierror.Error\<close> with its details and the error it
  wraps, \<open>StoreErr\<close> the \<open>*threadstore.Error\<close> of the thread store contract by its
  kind, \<open>NoRows\<close> is \<open>pgx.ErrNoRows\<close>, \<open>Plain\<close> a text error and \<open>Wrapf\<close>
  what \<open>fmt.Errorf\<close> builds with \<open>%w\<close>.
\<close>

datatype store_kind = SkThreadNotFound | SkInvalidRequest | SkUnsupported | SkInternal

datatype go_error =
    ApiErr code "detail list" "go_error option"
  | StoreErr store_kind
  | NoRows
  | Plain string
  | Wrapf string go_error

abbreviation api_err :: "code \<Rightarrow> go_error" where
  "api_err c \<equiv> ApiErr c [] None"

abbreviation api_err_details :: "code \<Rightarrow> detail list \<Rightarrow> go_error" where
  "api_err_details c ds \<equiv> ApiErr c ds None"

abbreviation api_wrap :: "code \<Rightarrow> go_error \<Rightarrow> go_error" where
  "api_wrap c e \<equiv> ApiErr c [] (Some e)"

text \<open>\<open>errors.As(err, *apierror.Error)\<close>: the outermost coded error of the chain.\<close>

fun find_api :: "go_error \<Rightarrow> (code \<times> detail list) option" where
  "find_api (ApiErr c ds _) = Some (c, ds)"
| "find_api (Wrapf _ e) = find_api e"
| "find_api _ = None"

text \<open>\<open>errors.As(err, *threadstore.Error)\<close>.\<close>

fun find_store :: "go_error \<Rightarrow> store_kind option" where
  "find_store (StoreErr k) = Some k"
| "find_store (ApiErr _ _ (Some e)) = find_store e"
| "find_store (Wrapf _ e) = find_store e"
| "find_store _ = None"

text \<open>\<open>errors.Is(err, pgx.ErrNoRows)\<close>.\<close>

fun is_no_rows :: "go_error \<Rightarrow> bool" where
  "is_no_rows NoRows = True"
| "is_no_rows (ApiErr _ _ (Some e)) = is_no_rows e"
| "is_no_rows (Wrapf _ e) = is_no_rows e"
| "is_no_rows _ = False"

text \<open>\<open>FromError\<close>: the coded error, or the internal code with registered = False.\<close>

definition from_error :: "go_error \<Rightarrow> (code \<times> detail list) \<times> bool" where
  "from_error e = (case find_api e of Some cd \<Rightarrow> (cd, True)
     | None \<Rightarrow> ((CodeInternalError, []), False))"

section \<open>The HTTP exit\<close>

record http_response =
  hr_status :: nat
  hr_code :: code
  hr_trace :: string
  hr_details :: "detail list"

definition write_response :: "string \<Rightarrow> code \<times> detail list \<Rightarrow> http_response" where
  "write_response tr cd = \<lparr>hr_status = mi_http (meta_of (fst cd)), hr_code = fst cd,
     hr_trace = tr, hr_details = snd cd\<rparr>"

definition write_error :: "string \<Rightarrow> go_error \<Rightarrow> http_response" where
  "write_error tr e = write_response tr (fst (from_error e))"

text \<open>
  The trace id of a response: the request's header, or \<open>tr_\<close> and the hex of eight random
  bytes (\<open>rnd\<close>).
\<close>

definition trace_id_from :: "string \<Rightarrow> string \<Rightarrow> string" where
  "trace_id_from hdr rnd = (if hdr \<noteq> [] then hdr else ''tr_'' @ rnd)"

text \<open>
  What a handler can do: write its own response (of type \<open>'w\<close>), return an error, or panic.
\<close>

datatype 'w handler_outcome = Wrote 'w | Failed go_error | Panicked string

datatype 'w exit = Passed 'w | ErrorResponse http_response

fun middleware :: "string \<Rightarrow> 'w handler_outcome \<Rightarrow> 'w exit" where
  "middleware tr (Wrote w) = Passed w"
| "middleware tr (Failed e) = ErrorResponse (write_response tr (fst (from_error e)))"
| "middleware tr (Panicked p) = ErrorResponse (write_response tr (CodeInternalError, []))"

section \<open>Properties\<close>

lemma meta_of_http: "400 \<le> mi_http (meta_of c) \<and> mi_http (meta_of c) \<le> 599"
  by (cases c) (simp_all add: meta_of_def)

lemma meta_of_registered: "code_meta c = Some m \<Longrightarrow> meta_of c = m"
  by (simp add: meta_of_def)

lemma find_api_wrap [simp]: "find_api (Wrapf s e) = find_api e"
  by simp

text \<open>The reason text of a 400 never depends on what an error wraps: only code and details leave.\<close>

lemma write_error_hides: "write_error tr (ApiErr c ds w) = write_error tr (ApiErr c ds w')"
  by (simp add: write_error_def from_error_def)

end
