(* ===== verification/StoreState.thy ===== *)
theory StoreState
  imports ApiError
begin

text \<open>
  The state behind \<^verbatim>\<open>agent-runtime/internal/pgstore\<close>: the rows of its tables, the
  database of all tenants, and the tenant transaction through which every statement runs
  (\<^verbatim>\<open>store.go\<close>, \<^verbatim>\<open>libs/tenancy\<close>). Row-level security makes a transaction
  see exactly the rows of its tenant, so a transaction body works on one tenant's tables.
\<close>

section \<open>Tenant context\<close>

text \<open>A context carries a tenant id or not; the empty string counts as missing.\<close>

definition tenant_from_context :: "string option \<Rightarrow> string option" where
  "tenant_from_context ctx = (case ctx of None \<Rightarrow> None | Some t \<Rightarrow> if t = [] then None else Some t)"

definition with_tenant :: "string option \<Rightarrow> string \<Rightarrow> string option" where
  "with_tenant ctx t = Some t"

section \<open>Rows\<close>

datatype tstatus = Idle | Running | Interrupted | Archived | Deleted

text \<open>
  \<open>threadMeta\<close>: the mutable metadata of a thread, one jsonb column. Values of types of the
  agent library (reasoning effort, session source, approval mode, ...) are opaque strings.
\<close>

type_synonym opaque = string

record git_info =
  gi_sha :: "string option"
  gi_branch :: "string option"
  gi_url :: "string option"

record thread_meta =
  m_forked_from :: "string option"
  m_preview :: string
  m_name :: "string option"
  m_provider :: string
  m_model :: "string option"
  m_effort :: "opaque option"
  m_recency :: "int option"
  m_cwd :: string
  m_cli_version :: string
  m_source :: "opaque option"
  m_history_mode :: opaque
  m_thread_source :: "opaque option"
  m_nickname :: "string option"
  m_role :: "string option"
  m_path :: "string option"
  m_git :: "git_info option"
  m_approval :: "opaque option"
  m_permission :: "opaque option"
  m_token_usage :: "opaque option"
  m_first_msg :: "string option"
  m_memory_mode :: "opaque option"
  m_originator :: string
  m_window :: string
  m_history_base :: "opaque option"
  m_tools :: "opaque list"
  m_base_instructions :: "opaque option"

text \<open>One row of \<open>agent_threads\<close>. Times are microseconds.\<close>

record thread_row =
  t_id :: string
  t_agent :: "string option"
  t_parent :: "string option"
  t_title :: string
  t_status :: tstatus
  t_model :: string
  t_pod :: "string option"
  t_heartbeat :: "int option"
  t_last_seq :: int
  t_meta :: thread_meta
  t_created :: int
  t_updated :: int
  t_archived_at :: "int option"

text \<open>One row of \<open>agent_rollout_events\<close>.\<close>

record event_row =
  e_thread :: string
  e_seq :: int
  e_turn :: "string option"
  e_type :: string
  e_payload :: string
  e_ref :: "string option"
  e_created :: int

datatype queue_kind = Steer | Queued

text \<open>One row of \<open>agent_thread_queue\<close>.\<close>

record queue_row =
  q_id :: string
  q_thread :: string
  q_kind :: queue_kind
  q_payload :: string
  q_admitted :: "string option"
  q_created :: int

datatype edge_status = EdgeOpen | EdgeClosed

text \<open>One row of \<open>agent_graph_edges\<close>.\<close>

record edge_row =
  g_parent :: string
  g_child :: string
  g_status :: edge_status

text \<open>The columns of \<open>agents\<close> the runtime reads (\<open>AgentProfile\<close> plus the nullable model).\<close>

record agent_row =
  a_id :: string
  a_name :: string
  a_kind :: string
  a_status :: string
  a_doc :: string
  a_model :: "string option"

text \<open>The tables of one tenant, and the database: the tenant list and every tenant's tables.\<close>

record tdb =
  threads :: "thread_row list"
  events :: "event_row list"
  queue :: "queue_row list"
  edges :: "edge_row list"
  agents :: "agent_row list"

record db =
  tenants :: "string list"
  slice :: "string \<Rightarrow> tdb"

definition empty_tdb :: tdb where
  "empty_tdb = \<lparr>threads = [], events = [], queue = [], edges = [], agents = []\<rparr>"

section \<open>Store options\<close>

record store_opts =
  so_default_model :: string
  so_inline_limit :: int

definition default_inline_payload_limit :: int where
  "default_inline_payload_limit = 32 * 1024"

text \<open>\<open>New\<close>: the empty model name and a limit that is not positive take the defaults.\<close>

definition store_new :: "store_opts \<Rightarrow> store_opts" where
  "store_new o1 = o1\<lparr>
     so_default_model := (if so_default_model o1 = [] then ''chat-default'' else so_default_model o1),
     so_inline_limit := (if so_inline_limit o1 \<le> 0 then default_inline_payload_limit
                         else so_inline_limit o1)\<rparr>"

section \<open>The tenant transaction\<close>

text \<open>
  A transaction body reads and rewrites the tenant's tables or returns an error. What the
  database can do to a transaction besides running it: fail to begin, to drop the role, to set
  the tenant variable, fail one of the body's statements, or fail to commit.
\<close>

type_synonym 'a tx = "tdb \<Rightarrow> go_error + 'a \<times> tdb"

datatype tx_fault = NoFault | FailBegin | FailRole | FailGuc | FailStmt | FailCommit

definition in_tenant_tx :: "tx_fault \<Rightarrow> string option \<Rightarrow> 'a tx \<Rightarrow> db \<Rightarrow> (go_error + 'a) \<times> db" where
  "in_tenant_tx flt ctx body d = (case tenant_from_context ctx of
     None \<Rightarrow> (Inl (api_err CodeTenantContextMissing), d)
   | Some t \<Rightarrow>
       if flt = FailBegin then (Inl (Wrapf ''pgstore: begin tenant tx'' (Plain ''db'')), d)
       else if flt = FailRole then (Inl (Wrapf ''pgstore: set role airush_app'' (Plain ''db'')), d)
       else if flt = FailGuc then (Inl (Wrapf ''pgstore: set tenant guc'' (Plain ''db'')), d)
       else if flt = FailStmt then (Inl (StoreErr SkInternal), d)
       else (case body (slice d t) of
           Inl e \<Rightarrow> (Inl e, d)
         | Inr (x, s) \<Rightarrow>
             if flt = FailCommit then (Inl (Wrapf ''pgstore: commit tenant tx'' (Plain ''db'')), d)
             else (Inr x, d\<lparr>slice := (slice d)(t := s)\<rparr>)))"

text \<open>
  \<open>storeErr\<close>: a store error and the missing-tenant error pass, anything else becomes an
  internal store error.
\<close>

definition store_err :: "go_error \<Rightarrow> go_error" where
  "store_err e = (if find_store e \<noteq> None then e
     else case find_api e of
         Some (CodeTenantContextMissing, _) \<Rightarrow> e
       | _ \<Rightarrow> StoreErr SkInternal)"

section \<open>Lemmas\<close>

lemma tenant_from_context_Some:
  "tenant_from_context ctx = Some t \<longleftrightarrow> ctx = Some t \<and> t \<noteq> []"
  by (auto simp: tenant_from_context_def split: option.splits)

lemma in_tenant_tx_no_tenant:
  "tenant_from_context ctx = None \<Longrightarrow>
     in_tenant_tx flt ctx body d = (Inl (api_err CodeTenantContextMissing), d)"
  by (simp add: in_tenant_tx_def)

lemma in_tenant_tx_ok:
  assumes "tenant_from_context ctx = Some t"
  shows "in_tenant_tx NoFault ctx body d = (case body (slice d t) of
      Inl e \<Rightarrow> (Inl e, d) | Inr (x, s) \<Rightarrow> (Inr x, d\<lparr>slice := (slice d)(t := s)\<rparr>))"
  using assms by (simp add: in_tenant_tx_def split: sum.splits prod.splits)

text \<open>An error of any kind leaves the whole database as it was.\<close>

lemma in_tenant_tx_error: "in_tenant_tx flt ctx body d = (Inl e, d') \<Longrightarrow> d' = d"
  by (auto simp: in_tenant_tx_def split: option.splits sum.splits if_splits)

text \<open>What a committed transaction changed is its own tenant's tables, to what the body computed.\<close>

lemma in_tenant_tx_Inr:
  assumes "in_tenant_tx flt ctx body d = (Inr x, d')"
  obtains t s where "ctx = Some t" "t \<noteq> []" "body (slice d t) = Inr (x, s)"
    "d' = d\<lparr>slice := (slice d)(t := s)\<rparr>"
  using assms
  by (auto simp: in_tenant_tx_def tenant_from_context_Some split: option.splits sum.splits if_splits)

lemma in_tenant_tx_other:
  assumes "in_tenant_tx flt ctx body d = (r, d')" "ctx \<noteq> Some u"
  shows "slice d' u = slice d u"
  using assms
  by (auto simp: in_tenant_tx_def tenant_from_context_Some split: option.splits sum.splits if_splits)

text \<open>
  An invariant of one tenant's tables that a body keeps is an invariant of the database.
\<close>

lemma in_tenant_tx_preserves:
  assumes body: "\<And>s x s'. P s \<Longrightarrow> body s = Inr (x, s') \<Longrightarrow> P s'"
    and all: "\<And>t. P (slice d t)" and tx: "in_tenant_tx flt ctx body d = (r, d')"
  shows "P (slice d' u)"
proof (cases r)
  case (Inl e)
  with tx have "d' = d" by (auto dest: in_tenant_tx_error)
  with all show ?thesis by simp
next
  case (Inr x)
  with tx obtain t s where "body (slice d t) = Inr (x, s)" "d' = d\<lparr>slice := (slice d)(t := s)\<rparr>"
    by (metis in_tenant_tx_Inr)
  with all body show ?thesis by auto
qed

end
