(* ===== verification/Json.thy ===== *)
theory Json
  imports GoText
begin

text \<open>
  What the program uses of Go's \<^verbatim>\<open>encoding/json\<close>: JSON values, the compact
  printer of \<open>Marshal\<close> (HTML escaping on), the parser of \<open>Unmarshal\<close>, and the
  decoding rules of struct fields. Texts are byte strings; UTF-8 sequences are copied as they
  are (the repair of invalid UTF-8, the escaping of U+2028 and U+2029 and the nesting limit
  of 10000 are not modelled). The main fact is the round trip \<open>json_parse_text\<close>.
\<close>

section \<open>Values\<close>

text \<open>Numbers keep their literal; objects keep their members in order, duplicates included.\<close>

datatype json = JNull | JBool bool | JNum string | JStr string | JArr "json list"
  | JObj "(string \<times> json) list"

section \<open>Printing\<close>

definition hex_digit :: "nat \<Rightarrow> char" where
  "hex_digit n = (if n < 10 then char_of (48 + n) else char_of (87 + n))"

definition esc_char :: "char \<Rightarrow> string" where
  "esc_char c = (if c = CHR 0x22 then [CHR 0x5C, CHR 0x22]
     else if c = CHR 0x5C then [CHR 0x5C, CHR 0x5C]
     else if c = CHR 0x0A then [CHR 0x5C, CHR ''n'']
     else if c = CHR 0x0D then [CHR 0x5C, CHR ''r'']
     else if c = CHR 0x09 then [CHR 0x5C, CHR ''t'']
     else if c = CHR 0x08 then [CHR 0x5C, CHR ''b'']
     else if c = CHR 0x0C then [CHR 0x5C, CHR ''f'']
     else if byte c < 32 \<or> c \<in> {CHR ''<'', CHR ''>'', CHR ''&''}
       then [CHR 0x5C, CHR ''u'', CHR ''0'', CHR ''0'', hex_digit (byte c div 16), hex_digit (byte c mod 16)]
     else [c])"

definition json_str :: "string \<Rightarrow> string" where
  "json_str s = CHR 0x22 # concat (map esc_char s) @ [CHR 0x22]"

fun json_text :: "json \<Rightarrow> string" where
  "json_text JNull = ''null''"
| "json_text (JBool b) = (if b then ''true'' else ''false'')"
| "json_text (JNum s) = s"
| "json_text (JStr s) = json_str s"
| "json_text (JArr xs) = CHR ''['' # join '','' (map json_text xs) @ '']''"
| "json_text (JObj kvs) =
     CHR ''{'' # join '','' (map (\<lambda>(k, v). json_str k @ CHR '':'' # json_text v) kvs) @ ''}''"

abbreviation JInt :: "int \<Rightarrow> json" where "JInt n \<equiv> JNum (int_str n)"

section \<open>Parsing\<close>

definition json_ws :: "char \<Rightarrow> bool" where
  "json_ws c \<longleftrightarrow> c \<in> {CHR '' '', CHR 0x09, CHR 0x0A, CHR 0x0D}"

definition skip_ws :: "string \<Rightarrow> string" where
  "skip_ws s = dropWhile json_ws s"

definition hex_val :: "char \<Rightarrow> nat option" where
  "hex_val c = (let n = byte c in if 48 \<le> n \<and> n \<le> 57 then Some (n - 48)
     else if 97 \<le> n \<and> n \<le> 102 then Some (n - 87) else if 65 \<le> n \<and> n \<le> 70 then Some (n - 55) else None)"

definition hex4 :: "char \<Rightarrow> char \<Rightarrow> char \<Rightarrow> char \<Rightarrow> nat option" where
  "hex4 a b c d = (case (hex_val a, hex_val b, hex_val c, hex_val d) of
     (Some w, Some x, Some y, Some z) \<Rightarrow> Some (((w * 16 + x) * 16 + y) * 16 + z) | _ \<Rightarrow> None)"

definition utf8 :: "nat \<Rightarrow> string" where
  "utf8 n = (if n < 128 then [char_of n]
     else if n < 2048 then [char_of (192 + n div 64), char_of (128 + n mod 64)]
     else if n < 65536 then [char_of (224 + n div 4096), char_of (128 + n div 64 mod 64), char_of (128 + n mod 64)]
     else [char_of (240 + n div 262144), char_of (128 + n div 4096 mod 64),
           char_of (128 + n div 64 mod 64), char_of (128 + n mod 64)])"

definition esc_simple :: "char \<Rightarrow> char option" where
  "esc_simple c = (if c \<in> {CHR 0x22, CHR 0x5C, CHR ''/''} then Some c
     else if c = CHR ''b'' then Some (CHR 0x08) else if c = CHR ''f'' then Some (CHR 0x0C)
     else if c = CHR ''n'' then Some (CHR 0x0A) else if c = CHR ''r'' then Some (CHR 0x0D)
     else if c = CHR ''t'' then Some (CHR 0x09) else None)"

text \<open>
  The body of a string after its opening quote. A \<open>\u\<close> escape that is one half of a
  surrogate pair without the other is read as U+FFFD.
\<close>

fun p_hex :: "string \<Rightarrow> (nat \<times> string) option" where
  "p_hex (a # b # c # d # r) = map_option (\<lambda>n. (n, r)) (hex4 a b c d)"
| "p_hex _ = None"

lemma p_hex_shorter: "p_hex s = Some (n, r) \<Longrightarrow> length r < length s"
  by (cases s rule: p_hex.cases) auto

definition p_low :: "string \<Rightarrow> (nat \<times> string) option" where
  "p_low s = (case s of x # y # r \<Rightarrow> if x = CHR 0x5C \<and> y = CHR ''u'' then
       (case p_hex r of Some (n, r') \<Rightarrow> if 56320 \<le> n \<and> n < 57344 then Some (n, r') else None | None \<Rightarrow> None)
     else None | _ \<Rightarrow> None)"

lemma p_low_shorter: "p_low s = Some (n, r) \<Longrightarrow> length r < length s"
  by (auto simp: p_low_def split: list.splits if_splits option.splits dest!: p_hex_shorter)

function p_str :: "string \<Rightarrow> (string \<times> string) option" where
  "p_str s = (case s of [] \<Rightarrow> None
   | c # r \<Rightarrow>
     if c = CHR 0x22 then Some ([], r)
     else if byte c < 32 then None
     else if c \<noteq> CHR 0x5C then map_option (\<lambda>(t, u). (c # t, u)) (p_str r)
     else (case r of [] \<Rightarrow> None
       | e # r1 \<Rightarrow>
         if e \<noteq> CHR ''u'' then (case esc_simple e of None \<Rightarrow> None
             | Some x \<Rightarrow> map_option (\<lambda>(t, u). (x # t, u)) (p_str r1))
         else (case p_hex r1 of None \<Rightarrow> None
           | Some (n, r2) \<Rightarrow>
             if 55296 \<le> n \<and> n < 56320 then
               (case p_low r2 of
                  Some (m, r3) \<Rightarrow> map_option (\<lambda>(t, u).
                    (utf8 (65536 + (n - 55296) * 1024 + (m - 56320)) @ t, u)) (p_str r3)
                | None \<Rightarrow> map_option (\<lambda>(t, u). (utf8 65533 @ t, u)) (p_str r2))
             else map_option (\<lambda>(t, u).
               (utf8 (if 56320 \<le> n \<and> n < 57344 then 65533 else n) @ t, u)) (p_str r2))))"
  by pat_completeness auto
termination
  by (relation "measure length") (auto dest!: p_hex_shorter p_low_shorter)

declare p_str.simps [simp del]

section \<open>Numbers\<close>

definition num_char :: "char \<Rightarrow> bool" where
  "num_char c \<longleftrightarrow> is_digit c \<or> c \<in> {CHR ''-'', CHR ''+'', CHR ''.'', CHR ''e'', CHR ''E''}"

definition digits1 :: "string \<Rightarrow> bool" where
  "digits1 s \<longleftrightarrow> s \<noteq> [] \<and> list_all is_digit s"

definition valid_int_part :: "string \<Rightarrow> bool" where
  "valid_int_part s \<longleftrightarrow> digits1 s \<and> (length s = 1 \<or> hd s \<noteq> CHR ''0'')"

definition valid_exp :: "string \<Rightarrow> bool" where
  "valid_exp s \<longleftrightarrow> (case s of [] \<Rightarrow> True
     | e # r \<Rightarrow> e \<in> {CHR ''e'', CHR ''E''} \<and>
         (case r of c # r' \<Rightarrow> if c \<in> {CHR ''+'', CHR ''-''} then digits1 r' else digits1 r | [] \<Rightarrow> False))"

definition valid_frac :: "string \<Rightarrow> bool" where
  "valid_frac s \<longleftrightarrow> (case s of c # r \<Rightarrow> if c = CHR ''.''
       then digits1 (takeWhile is_digit r) \<and> valid_exp (dropWhile is_digit r) else valid_exp s
     | [] \<Rightarrow> True)"

definition valid_num :: "string \<Rightarrow> bool" where
  "valid_num s \<longleftrightarrow> list_all num_char s \<and> (let u = trim_prefix s ''-'' in
     valid_int_part (takeWhile is_digit u) \<and> valid_frac (dropWhile is_digit u))"

text \<open>
  Values, array elements and object members. The first argument bounds the number of calls;
  \<open>json_parse\<close> gives the parser more than the text can use (\<open>p_fuel\<close> below).
\<close>

definition p_literal :: "string \<Rightarrow> (json \<times> string) option" where
  "p_literal s = (if has_prefix s ''null'' then Some (JNull, drop 4 s)
     else if has_prefix s ''true'' then Some (JBool True, drop 4 s)
     else if has_prefix s ''false'' then Some (JBool False, drop 5 s) else None)"

fun p_value :: "nat \<Rightarrow> string \<Rightarrow> (json \<times> string) option"
and p_elems :: "nat \<Rightarrow> string \<Rightarrow> (json list \<times> string) option"
and p_members :: "nat \<Rightarrow> string \<Rightarrow> ((string \<times> json) list \<times> string) option"
where
  "p_value 0 s = None"
| "p_value (Suc n) s = (case skip_ws s of [] \<Rightarrow> None
   | c # r \<Rightarrow>
     if c = CHR ''{'' then (if hd (skip_ws r @ ''x'') = CHR ''}'' then Some (JObj [], tl (skip_ws r))
         else map_option (\<lambda>(kvs, u). (JObj kvs, u)) (p_members n r))
     else if c = CHR ''['' then (if hd (skip_ws r @ ''x'') = CHR '']'' then Some (JArr [], tl (skip_ws r))
         else map_option (\<lambda>(xs, u). (JArr xs, u)) (p_elems n r))
     else if c = CHR 0x22 then map_option (\<lambda>(t, u). (JStr t, u)) (p_str r)
     else if num_char c then (if valid_num (takeWhile num_char (c # r))
         then Some (JNum (takeWhile num_char (c # r)), dropWhile num_char (c # r)) else None)
     else p_literal (c # r))"
| "p_elems 0 s = None"
| "p_elems (Suc n) s = (case p_value n s of None \<Rightarrow> None
   | Some (v, r) \<Rightarrow> (case skip_ws r of [] \<Rightarrow> None
     | c # r1 \<Rightarrow> if c = CHR '','' then map_option (\<lambda>(vs, u). (v # vs, u)) (p_elems n r1)
         else if c = CHR '']'' then Some ([v], r1) else None))"
| "p_members 0 s = None"
| "p_members (Suc n) s = (case skip_ws s of [] \<Rightarrow> None
   | q # r \<Rightarrow> if q \<noteq> CHR 0x22 then None else (case p_str r of None \<Rightarrow> None
     | Some (k, r1) \<Rightarrow> (case skip_ws r1 of [] \<Rightarrow> None
       | c # r2 \<Rightarrow> if c \<noteq> CHR '':'' then None else (case p_value n r2 of None \<Rightarrow> None
         | Some (v, r3) \<Rightarrow> (case skip_ws r3 of [] \<Rightarrow> None
           | d # r4 \<Rightarrow> if d = CHR '','' then map_option (\<lambda>(kvs, u). ((k, v) # kvs, u)) (p_members n r4)
               else if d = CHR ''}'' then Some ([(k, v)], r4) else None)))))"

definition p_fuel :: "string \<Rightarrow> nat" where
  "p_fuel s = 2 * length s + 2"

text \<open>\<open>json.Unmarshal\<close> into an untyped value: one value, then only white space.\<close>

definition json_parse :: "string \<Rightarrow> json option" where
  "json_parse s = (case p_value (p_fuel s) s of None \<Rightarrow> None
     | Some (v, r) \<Rightarrow> if skip_ws r = [] then Some v else None)"

section \<open>The round trip\<close>

fun wf_json :: "json \<Rightarrow> bool" where
  "wf_json (JNum s) = valid_num s"
| "wf_json (JArr xs) = (\<forall>x \<in> set xs. wf_json x)"
| "wf_json (JObj kvs) = (\<forall>p \<in> set kvs. wf_json (snd p))"
| "wf_json _ = True"

fun need :: "json \<Rightarrow> nat" where
  "need (JArr xs) = Suc (sum_list (map (\<lambda>x. Suc (need x)) xs))"
| "need (JObj kvs) = Suc (sum_list (map (\<lambda>p. Suc (need (snd p))) kvs))"
| "need _ = 1"

lemma hex_val_digit [simp]: "n < 16 \<Longrightarrow> hex_val (hex_digit n) = Some n"
  by (auto simp: hex_val_def hex_digit_def)

lemma p_hex_00: "n < 256 \<Longrightarrow>
    p_hex (CHR ''0'' # CHR ''0'' # hex_digit (n div 16) # hex_digit (n mod 16) # r) = Some (n, r)"
  by (simp add: hex4_def less_mult_imp_div_less) (simp add: hex_val_def)

lemma utf8_small: "n < 128 \<Longrightarrow> utf8 n = [char_of n]"
  by (simp add: utf8_def)

lemma p_str_simple:
  assumes "esc_simple e = Some x" "e \<noteq> CHR ''u''"
  shows "p_str (CHR 0x5C # e # r) = map_option (\<lambda>(t, u). (x # t, u)) (p_str r)"
  using assms by (subst p_str.simps) simp

lemma esc_short:
  "\<forall>c \<in> {CHR 0x22, CHR 0x5C, CHR 0x0A, CHR 0x0D, CHR 0x09, CHR 0x08, CHR 0x0C}.
     \<exists>e. esc_char c = [CHR 0x5C, e] \<and> esc_simple e = Some c \<and> e \<noteq> CHR ''u''"
  by (simp add: esc_char_def esc_simple_def)

lemma p_str_esc_char: "p_str (esc_char c @ r) = map_option (\<lambda>(t, u). (c # t, u)) (p_str r)"
proof -
  show ?thesis
  proof (cases "c \<in> {CHR 0x22, CHR 0x5C, CHR 0x0A, CHR 0x0D, CHR 0x09, CHR 0x08, CHR 0x0C}")
    case True
    with esc_short obtain e where "esc_char c = [CHR 0x5C, e]" "esc_simple e = Some c" "e \<noteq> CHR ''u''"
      by meson
    then show ?thesis by (simp add: p_str_simple)
  next
    case no: False
    show ?thesis
    proof (cases "byte c < 32 \<or> c \<in> {CHR ''<'', CHR ''>'', CHR ''&''}")
    case u: True
    then have small: "byte c < 128" by auto
    then have "byte c < 256" by simp
    from p_hex_00 [OF this, of r]
    have "p_hex (CHR ''0'' # CHR ''0'' # hex_digit (byte c div 16) # hex_digit (byte c mod 16) # r)
      = Some (byte c, r)" .
    moreover have "\<not> (55296 \<le> byte c)" "\<not> (56320 \<le> byte c)" using small by simp_all
    moreover have "esc_char c = [CHR 0x5C, CHR ''u'', CHR ''0'', CHR ''0'',
        hex_digit (byte c div 16), hex_digit (byte c mod 16)]"
      using u no by (simp add: esc_char_def)
    ultimately show ?thesis
      by (subst p_str.simps) (simp del: p_hex.simps add: utf8_small [OF small])
  next
    case False
    with no have "esc_char c = [c]" "c \<noteq> CHR 0x22" "c \<noteq> CHR 0x5C" "\<not> byte c < 32"
      by (simp_all add: esc_char_def)
    then show ?thesis by (subst p_str.simps) simp
    qed
  qed
qed

lemma p_str_body: "p_str (concat (map esc_char s) @ CHR 0x22 # r) = Some (s, r)"
proof (induction s)
  case Nil
  then show ?case by (subst p_str.simps) simp
next
  case (Cons c s)
  then show ?case by (simp add: p_str_esc_char)
qed

lemma p_str_json_str: "json_str s @ r = CHR 0x22 # b \<Longrightarrow> p_str b = Some (s, r)"
  using p_str_body [of s r] by (auto simp: json_str_def)

definition ends :: "string \<Rightarrow> bool" where
  "ends r \<longleftrightarrow> r = [] \<or> \<not> num_char (hd r)"

lemma skip_ws_Cons [simp]: "\<not> json_ws c \<Longrightarrow> skip_ws (c # r) = c # r"
  by (simp add: skip_ws_def)

lemma skip_ws_Nil [simp]: "skip_ws [] = []"
  by (simp add: skip_ws_def)

lemma valid_num_chars: "valid_num s \<Longrightarrow> list_all num_char s \<and> s \<noteq> []"
  by (auto simp: valid_num_def Let_def trim_prefix_def has_prefix_def valid_int_part_def digits1_def)

lemma num_char_not:
  "num_char c \<Longrightarrow> \<not> json_ws c \<and> c \<notin> {CHR ''{'', CHR ''}'', CHR ''['', CHR '']'', CHR 0x22}"
  by (auto simp: num_char_def is_digit_def json_ws_def)

lemma json_text_hd_ex:
  "wf_json v \<Longrightarrow> \<exists>c r. json_text v = c # r \<and> \<not> json_ws c \<and> c \<noteq> CHR ''}'' \<and> c \<noteq> CHR '']''"
proof (cases v)
  case (JNum s)
  moreover assume "wf_json v"
  ultimately obtain c r where "s = c # r" "num_char c"
    by (cases s) (auto dest: valid_num_chars)
  with JNum num_char_not [of c] show ?thesis by simp
qed (simp_all add: json_str_def json_ws_def)

lemma json_text_hd:
  assumes "wf_json v"
  obtains c r where "json_text v = c # r" "\<not> json_ws c" "c \<noteq> CHR ''}''" "c \<noteq> CHR '']''"
  using json_text_hd_ex [OF assms] by blast

lemma p_value_num:
  assumes "valid_num s" "ends r"
  shows "p_value (Suc n) (s @ r) = Some (JNum s, r)"
proof -
  from assms(1) have all: "list_all num_char s" and "s \<noteq> []" by (auto dest: valid_num_chars)
  then obtain c t where s: "s = c # t" by (cases s) auto
  with all have c: "num_char c" by simp
  have "takeWhile num_char (s @ r) = s" "dropWhile num_char (s @ r) = r"
    using all assms(2) by (simp_all add: list_all_iff takeWhile_append dropWhile_append)
      (cases r; simp add: ends_def)+
  with c num_char_not [OF c] assms(1) show ?thesis by (simp add: s)
qed

lemma p_elems_text:
  assumes "\<forall>x \<in> set xs. wf_json x \<and> (\<forall>n r. need x \<le> n \<longrightarrow> ends r \<longrightarrow>
      p_value n (json_text x @ r) = Some (x, r))"
    and "xs \<noteq> []" "sum_list (map (\<lambda>x. Suc (need x)) xs) \<le> n"
  shows "p_elems n (join '','' (map json_text xs) @ CHR '']'' # r) = Some (xs, r)"
  using assms
proof (induction xs arbitrary: n)
  case (Cons x xs)
  from Cons.prems obtain m where n: "n = Suc m" "need x \<le> m" "sum_list (map (\<lambda>x. Suc (need x)) xs) \<le> m"
    by (cases n) auto
  have e: "ends (CHR '','' # u)" "ends (CHR '']'' # u)" for u
    by (simp_all add: ends_def num_char_def is_digit_def)
  show ?case
  proof (cases xs)
    case Nil
    with Cons.prems n e show ?thesis by (simp add: json_ws_def)
  next
    case (Cons y ys)
    with Cons.prems n e have "p_value m (json_text x @ CHR '','' # join '','' (map json_text xs) @ CHR '']'' # r)
      = Some (x, CHR '','' # join '','' (map json_text xs) @ CHR '']'' # r)" by simp
    moreover have "p_elems m (join '','' (map json_text xs) @ CHR '']'' # r) = Some (xs, r)"
      using Cons.IH [of m] Cons.prems n Cons by simp
    ultimately show ?thesis using n Cons by (simp add: json_ws_def)
  qed
qed simp

lemma p_members_text:
  assumes "\<forall>p \<in> set kvs. wf_json (snd p) \<and> (\<forall>n r. need (snd p) \<le> n \<longrightarrow> ends r \<longrightarrow>
      p_value n (json_text (snd p) @ r) = Some (snd p, r))"
    and "kvs \<noteq> []" "sum_list (map (\<lambda>p. Suc (need (snd p))) kvs) \<le> n"
  shows "p_members n (join '','' (map (\<lambda>(k, v). json_str k @ CHR '':'' # json_text v) kvs) @ CHR ''}'' # r)
    = Some (kvs, r)"
  using assms
proof (induction kvs arbitrary: n)
  case (Cons p kvs)
  obtain k v where p: "p = (k, v)" by (cases p)
  from Cons.prems p obtain m where n: "n = Suc m" "need v \<le> m"
      "sum_list (map (\<lambda>p. Suc (need (snd p))) kvs) \<le> m"
    by (cases n) auto
  have e: "ends (CHR '','' # u)" "ends (CHR ''}'' # u)" for u
    by (simp_all add: ends_def num_char_def is_digit_def)
  have v: "p_value m (json_text v @ u) = Some (v, u)" if "ends u" for u
    using Cons.prems p n that by simp
  show ?case
  proof (cases kvs)
    case Nil
    with p n e v show ?thesis by (simp add: json_ws_def json_str_def p_str_body)
  next
    case (Cons y ys)
    moreover have "p_members m (join '','' (map (\<lambda>(k, v). json_str k @ CHR '':'' # json_text v) kvs)
        @ CHR ''}'' # r) = Some (kvs, r)"
      using Cons.IH [of m] Cons.prems n Cons by simp
    ultimately show ?thesis using p n e v by (simp add: json_ws_def json_str_def p_str_body)
  qed
qed simp

lemma p_value_text:
  assumes "wf_json v" "need v \<le> n" "ends r"
  shows "p_value n (json_text v @ r) = Some (v, r)"
  using assms
proof (induction v arbitrary: n r)
  case (JNum s)
  then show ?case by (cases n) (auto simp del: p_value.simps simp: p_value_num)
next
  case (JStr s)
  then show ?case by (cases n) (auto simp: json_str_def json_ws_def p_str_body)
next
  case (JArr xs)
  then obtain m where n: "n = Suc m" "sum_list (map (\<lambda>x. Suc (need x)) xs) \<le> m" by (cases n) auto
  show ?case
  proof (cases xs)
    case Nil
    with n show ?thesis by (simp add: json_ws_def)
  next
    case (Cons y ys)
    with JArr.prems obtain c t where ct: "json_text y = c # t" "\<not> json_ws c" "c \<noteq> CHR '']''"
      by (auto elim: json_text_hd)
    then obtain u where "join '','' (map json_text xs) @ CHR '']'' # r = c # u"
      using Cons by (cases ys) auto
    moreover have "p_elems m (join '','' (map json_text xs) @ CHR '']'' # r) = Some (xs, r)"
      using JArr Cons n by (intro p_elems_text) auto
    ultimately show ?thesis using n ct by (simp add: json_ws_def)
  qed
next
  case (JObj kvs)
  then obtain m where n: "n = Suc m" "sum_list (map (\<lambda>p. Suc (need (snd p))) kvs) \<le> m"
    by (cases n) auto
  show ?case
  proof (cases kvs)
    case Nil
    with n show ?thesis by (simp add: json_ws_def)
  next
    case (Cons y ys)
    then obtain u where "join '','' (map (\<lambda>(k, v). json_str k @ CHR '':'' # json_text v) kvs)
        @ CHR ''}'' # r = CHR 0x22 # u"
      by (cases ys; cases y) (auto simp: json_str_def)
    moreover have "p_members m (join '','' (map (\<lambda>(k, v). json_str k @ CHR '':'' # json_text v) kvs)
        @ CHR ''}'' # r) = Some (kvs, r)"
      using JObj.prems Cons n by (intro p_members_text) (auto intro: JObj.IH snds.intros)
    ultimately show ?thesis using n by (simp add: json_ws_def)
  qed
qed (auto simp: gr0_conv_Suc Suc_le_eq json_ws_def num_char_def is_digit_def p_literal_def has_prefix_def)

lemma length_join: "length (join '','' ws) = sum_list (map length ws) + (length ws - 1)"
  by (induction "'',''" ws rule: join.induct) auto

lemma need_text: "wf_json v \<Longrightarrow> Suc (need v) \<le> 2 * length (json_text v)"
proof (induction v)
  case (JNum s)
  then show ?case by (cases s) (auto dest: valid_num_chars)
next
  case (JArr xs)
  then have "sum_list (map (\<lambda>x. Suc (need x)) xs) \<le> sum_list (map (\<lambda>x. 2 * length (json_text x)) xs)"
    by (intro sum_list_mono) auto
  then show ?case by (simp add: length_join o_def sum_list_const_mult)
next
  case (JObj kvs)
  have "sum_list (map (\<lambda>p. Suc (need (snd p))) kvs)
      \<le> sum_list (map (\<lambda>p. 2 * length (json_str (fst p) @ CHR '':'' # json_text (snd p))) kvs)"
  proof (rule sum_list_mono)
    fix p
    assume "p \<in> set kvs"
    with JObj have "Suc (need (snd p)) \<le> 2 * length (json_text (snd p))"
      by (cases p) (auto intro: snds.intros)
    then show "Suc (need (snd p)) \<le> 2 * length (json_str (fst p) @ CHR '':'' # json_text (snd p))"
      by simp
  qed
  then show ?case by (simp add: length_join o_def sum_list_Suc sum_list_addf sum_list_const_mult case_prod_beta)
qed (auto simp: json_str_def)

theorem json_parse_text: "wf_json v \<Longrightarrow> json_parse (json_text v) = Some v"
proof -
  assume wf: "wf_json v"
  with need_text have "need v \<le> p_fuel (json_text v)" by (fastforce simp: p_fuel_def)
  from p_value_text [OF wf this, of "[]"] show ?thesis by (simp add: json_parse_def ends_def)
qed

text \<open>\<open>Decoder.Decode\<close> reads one value and does not look at what follows it.\<close>

definition json_first :: "string \<Rightarrow> json option" where
  "json_first s = map_option fst (p_value (p_fuel s) s)"

lemma json_first_text: "wf_json v \<Longrightarrow> json_first (json_text v) = Some v"
  using json_parse_text [of v] by (auto simp: json_parse_def json_first_def split: option.splits if_splits)

section \<open>Decoding into structs\<close>

text \<open>
  \<open>Unmarshal\<close> into a struct: an object's members are matched to the fields by name,
  exactly or by case folding, in order, so that the last one wins; \<open>null\<close> leaves a field
  alone; a value of the wrong type makes the whole call return an error. The outer option is
  that error, the inner one says whether the field was set. \<open>null\<close> at the top decodes to
  the zero struct.
\<close>

definition struct_members :: "json \<Rightarrow> (string \<times> json) list option" where
  "struct_members j = (case j of JObj kvs \<Rightarrow> Some kvs | JNull \<Rightarrow> Some [] | _ \<Rightarrow> None)"

definition field_values :: "string \<Rightarrow> (string \<times> json) list \<Rightarrow> json list" where
  "field_values name kvs = map snd (filter (\<lambda>p. to_lower (fst p) = to_lower name) kvs)"

definition dec_field :: "(json \<Rightarrow> 'a option) \<Rightarrow> string \<Rightarrow> (string \<times> json) list \<Rightarrow> 'a option option" where
  "dec_field f name kvs = (let vs = filter (\<lambda>v. v \<noteq> JNull) (field_values name kvs) in
     if list_all (\<lambda>v. f v \<noteq> None) vs then Some (if vs = [] then None else f (last vs)) else None)"

definition as_str :: "json \<Rightarrow> string option" where
  "as_str j = (case j of JStr s \<Rightarrow> Some s | _ \<Rightarrow> None)"

definition as_bool :: "json \<Rightarrow> bool option" where
  "as_bool j = (case j of JBool b \<Rightarrow> Some b | _ \<Rightarrow> None)"

definition as_int64 :: "json \<Rightarrow> int option" where
  "as_int64 j = (case j of JNum s \<Rightarrow> parse_int64 s | _ \<Rightarrow> None)"

definition as_struct :: "json \<Rightarrow> (string \<times> json) list option" where
  "as_struct j = (case j of JObj kvs \<Rightarrow> Some kvs | _ \<Rightarrow> None)"

definition as_arr :: "json \<Rightarrow> json list option" where
  "as_arr j = (case j of JArr xs \<Rightarrow> Some xs | _ \<Rightarrow> None)"

text \<open>A plain string or integer field: the zero value when it is not set.\<close>

definition str_field :: "string \<Rightarrow> (string \<times> json) list \<Rightarrow> string option" where
  "str_field name kvs = map_option or_empty (dec_field as_str name kvs)"

definition int_field :: "string \<Rightarrow> (string \<times> json) list \<Rightarrow> int option" where
  "int_field name kvs = map_option (\<lambda>v. case v of None \<Rightarrow> 0 | Some n \<Rightarrow> n) (dec_field as_int64 name kvs)"

text \<open>A \<open>RawMessage\<close> field takes any value, \<open>null\<close> included.\<close>

definition raw_field :: "string \<Rightarrow> (string \<times> json) list \<Rightarrow> json option" where
  "raw_field name kvs = (let vs = field_values name kvs in if vs = [] then None else Some (last vs))"

lemma digit_char_zero: "0 < d \<Longrightarrow> d < 10 \<Longrightarrow> digit_char d \<noteq> CHR ''0''"
proof
  assume "0 < d" "d < 10" "digit_char d = CHR ''0''"
  moreover then have "digit_val (digit_char d) = 0" by (simp add: digit_val_def)
  ultimately show False using digit_char_val [of d] by simp
qed

lemma nat_str_hd_nonzero: "0 < k \<Longrightarrow> hd (nat_str k) \<noteq> CHR ''0''"
proof (induction k rule: nat_str.induct)
  case (1 n)
  show ?case
  proof (cases "n < 10")
    case True
    with 1 show ?thesis by (subst nat_str.simps) (simp add: digit_char_zero)
  next
    case False
    with 1 show ?thesis by (subst nat_str.simps) simp
  qed
qed

lemma valid_num_int_str [simp]: "valid_num (int_str n)"
proof -
  have nat: "takeWhile is_digit (nat_str k) = nat_str k" "dropWhile is_digit (nat_str k) = []" for k
    using nat_str_digits [of k] by (simp_all add: list_all_iff)
  have zero: "length (nat_str k) = 1 \<or> hd (nat_str k) \<noteq> CHR ''0''" for k
    using nat_str_hd_nonzero [of k] by (cases "k = 0") (simp_all add: nat_str.simps [of 0])
  have nosign: "trim_prefix (nat_str k) ''-'' = nat_str k" for k
    using nat_str_no_sign [of k] by (cases "nat_str k") (auto simp: trim_prefix_def has_prefix_def)
  have "list_all num_char (int_str n)"
    using int_str_chars [of n] by (auto simp: list_all_iff num_char_def)
  moreover have "valid_int_part (takeWhile is_digit (trim_prefix (int_str n) ''-''))
      \<and> valid_frac (dropWhile is_digit (trim_prefix (int_str n) ''-''))"
  proof (cases "n < 0")
    case True
    then have "trim_prefix (int_str n) ''-'' = nat_str (nat (- n))"
      by (simp add: int_str_def trim_prefix_def has_prefix_def)
    then show ?thesis using nat_str_digits
      by (simp only: nat) (simp add: valid_int_part_def digits1_def valid_frac_def zero [simplified])
  next
    case False
    then have "trim_prefix (int_str n) ''-'' = nat_str (nat n)" by (simp add: int_str_def nosign)
    then show ?thesis using nat_str_digits
      by (simp only: nat) (simp add: valid_int_part_def digits1_def valid_frac_def zero [simplified])
  qed
  ultimately show ?thesis by (simp add: valid_num_def Let_def)
qed

lemma to_lower_idem [simp]: "to_lower (to_lower s) = to_lower s"
  by (auto simp: to_lower_def lower_char_def Let_def)

section \<open>What the parser returns is well formed\<close>

lemma p_literal_wf: "p_literal s = Some (v, r) \<Longrightarrow> wf_json v"
  by (auto simp: p_literal_def split: if_splits)

lemma p_value_wf:
  "p_value n s = Some (v, r) \<Longrightarrow> wf_json v"
  "p_elems n s = Some (vs, r) \<Longrightarrow> \<forall>x \<in> set vs. wf_json x"
  "p_members n s = Some (kvs, r) \<Longrightarrow> \<forall>p \<in> set kvs. wf_json (snd p)"
proof (induction n s and n s and n s arbitrary: v r and vs r and kvs r
    rule: p_value_p_elems_p_members.induct)
  case (2 n s)
  then show ?case by (auto split: list.splits if_splits dest: p_literal_wf)
next
  case (4 n s)
  then show ?case by (auto split: option.splits list.splits if_splits)
next
  case (6 n s)
  then show ?case by (auto split: option.splits list.splits if_splits; fastforce)
qed auto

lemma json_parse_wf: "json_parse s = Some v \<Longrightarrow> wf_json v"
  by (auto simp: json_parse_def dest: p_value_wf split: option.splits if_splits)

text \<open>Objects and arrays print as one block for the proofs that use the round trip.\<close>

lemma json_text_obj_nonempty [simp]: "json_text (JObj kvs) \<noteq> []"
  by simp

declare json_text.simps(5,6) [simp del]

end
