(* ===== verification/Codex.thy ===== *)
theory Codex
  imports StoreState Json
begin

text \<open>
  What the program uses of the agent library \<^verbatim>\<open>codexgo\<close> and of the database's
  jsonb type, neither of which is in the repository: the shapes of rollout items and metadata
  patches as the program takes them apart, and a record \<open>codex\<close> of the library operations it
  calls. Every definition that needs one takes the record as an argument; the few documented
  laws that a property relies on are hypotheses of that property.
\<close>

section \<open>Rollout items\<close>

text \<open>
  \<open>protocol.EventMsg\<close>: the variant name, the raw text that the library keeps for
  variants it does not know, and the rest of the event, which the program does not look at.
\<close>

record event_msg =
  em_type :: string
  em_raw :: string
  em_body :: opaque

text \<open>\<open>protocol.ResponseItem\<close>: the message form the program builds itself, or any other item.\<close>

datatype response_item = RespMessage string string | RespOther opaque

text \<open>\<open>rollout.RolloutItem\<close>, a tagged union by \<open>Kind\<close>; the event may be missing.\<close>

datatype rollout_item = SessionMetaItem opaque | TurnContextItem opaque
  | RespItem response_item | CompactedItem opaque
  | EventMsgItem "event_msg option" | UnknownItem string

section \<open>Metadata patches\<close>

text \<open>
  \<open>threadstore.ThreadMetadataPatch\<close>: a plain field is absent or set; a clearable field is
  absent (\<open>None\<close>), cleared (\<open>Some None\<close>) or set.
\<close>

record git_patch =
  gp_sha :: "string option option"
  gp_branch :: "string option option"
  gp_url :: "string option option"

record meta_patch =
  p_name :: "string option option"
  p_preview :: "string option"
  p_title :: "string option"
  p_provider :: "string option"
  p_model :: "string option"
  p_effort :: "opaque option option"
  p_advance_recency :: "int option"
  p_first_msg :: "string option"
  p_source :: "opaque option"
  p_thread_source :: "opaque option option"
  p_nickname :: "string option option"
  p_role :: "string option option"
  p_path :: "string option option"
  p_cwd :: "string option"
  p_cli_version :: "string option"
  p_approval :: "opaque option"
  p_permission :: "opaque option"
  p_token_usage :: "opaque option"
  p_git :: "git_patch option"
  p_memory_mode :: "opaque option"

section \<open>The library operations\<close>

text \<open>
  \<open>cx_jsonb\<close> is how the database renders a JSON text it has stored in a jsonb column
  (\<open>None\<close>: it refuses the text, for instance because of an escaped NUL).
\<close>

record codex =
  cx_marshal_item :: "rollout_item \<Rightarrow> string option"
  cx_unmarshal_item :: "string \<Rightarrow> rollout_item option"
  cx_kind :: "rollout_item \<Rightarrow> string"
  cx_marshal_msg :: "event_msg \<Rightarrow> string option"
  cx_unmarshal_msg :: "string \<Rightarrow> event_msg option"
  cx_uuid_ok :: "string \<Rightarrow> bool"
  cx_jsonb :: "string \<Rightarrow> string option"
  cx_patch_empty :: "meta_patch \<Rightarrow> bool"
  cx_default_source :: opaque
  cx_on_request :: opaque
  cx_read_only :: opaque
  cx_paginated :: opaque
  cx_nickname :: "opaque \<Rightarrow> string option"
  cx_agent_role :: "opaque \<Rightarrow> string option"
  cx_agent_path :: "opaque \<Rightarrow> string option"

text \<open>
  The documented laws of the codec: what was marshalled and stored decodes to itself, and a
  stored text is again a storable text.
\<close>

definition codec_law :: "codex \<Rightarrow> bool" where
  "codec_law cx \<longleftrightarrow> (\<forall>i p q. cx_marshal_item cx i = Some p \<longrightarrow> cx_jsonb cx p = Some q
     \<longrightarrow> cx_unmarshal_item cx q = Some i)"

end
