(* ===== verification/Approvals.thy ===== *)
theory Approvals
  imports Codex
begin

text \<open>
  The approval stage in front of every tool call: \<^verbatim>\<open>agent-runtime/internal/approvals\<close>
  and the gated MCP caller of \<^verbatim>\<open>agent-runtime/internal/runtime/mcp.go\<close>.
\<close>

section \<open>approvals.go\<close>

datatype tool_kind = KindRead | KindAction

definition kind_str :: "tool_kind \<Rightarrow> string" where
  "kind_str k = (case k of KindRead \<Rightarrow> ''read'' | KindAction \<Rightarrow> ''action'')"

record tool_call =
  tc_qualified :: string
  tc_server :: string
  tc_tool :: string
  tc_kind :: tool_kind
  tc_call_id :: string
  tc_turn_id :: string
  tc_arguments :: string

record decision =
  d_allowed :: bool
  d_reason :: string
  d_decided_by :: string

definition deny_reason :: string where
  "deny_reason = ''action tools require human approval, which is not available in this deployment stage; use read-only tools or ask the user to run the action''"

text \<open>\<open>DenyActions.Review\<close>: read tools pass, everything else is refused.\<close>

definition review :: "tool_call \<Rightarrow> decision" where
  "review c = (if tc_kind c = KindRead
     then \<lparr>d_allowed = True, d_reason = [], d_decided_by = ''read-only-passthrough''\<rparr>
     else \<lparr>d_allowed = False, d_reason = deny_reason, d_decided_by = ''stage1-deny''\<rparr>)"

text \<open>\<open>KindOf\<close>: only a well-formed annotation object with \<open>readOnlyHint: true\<close> is a read tool.\<close>

definition kind_of :: "string \<Rightarrow> tool_kind" where
  "kind_of ann = (if ann = [] then KindAction
     else case Option.bind (json_parse ann) struct_members of
         None \<Rightarrow> KindAction
       | Some kvs \<Rightarrow> (case dec_field as_bool ''readOnlyHint'' kvs of
             Some (Some True) \<Rightarrow> KindRead | _ \<Rightarrow> KindAction))"

section \<open>events.go\<close>

definition event_approval_requested :: string where
  "event_approval_requested = ''approval_requested''"

definition event_approval_denied :: string where
  "event_approval_denied = ''approval_denied''"

record approval_event =
  ae_type :: string
  ae_call_id :: string
  ae_turn_id :: string
  ae_server :: string
  ae_tool :: string
  ae_qualified :: string
  ae_kind :: tool_kind
  ae_arguments :: string
  ae_reason :: string
  ae_decided_by :: string
  ae_at_ms :: int

text \<open>
  \<open>json.Marshal\<close> of the event: fields in order, the \<open>omitempty\<close> ones only when set.
  The arguments are a raw message: text that is not JSON makes the whole call fail.
\<close>

definition omit_empty :: "string \<Rightarrow> string \<Rightarrow> (string \<times> json) list" where
  "omit_empty k v = (if v = [] then [] else [(k, JStr v)])"

definition approval_fields :: "approval_event \<Rightarrow> (string \<times> json) list \<Rightarrow> (string \<times> json) list" where
  "approval_fields ev args = [(''type'', JStr (ae_type ev))]
     @ omit_empty ''call_id'' (ae_call_id ev) @ omit_empty ''turn_id'' (ae_turn_id ev)
     @ [(''server'', JStr (ae_server ev)), (''tool'', JStr (ae_tool ev)),
        (''qualified_name'', JStr (ae_qualified ev)), (''kind'', JStr (kind_str (ae_kind ev)))]
     @ args @ omit_empty ''reason'' (ae_reason ev) @ omit_empty ''decided_by'' (ae_decided_by ev)
     @ [(''at_ms'', JInt (ae_at_ms ev))]"

definition marshal_approval :: "approval_event \<Rightarrow> string option" where
  "marshal_approval ev = (if ae_arguments ev = [] then Some (json_text (JObj (approval_fields ev [])))
     else map_option (\<lambda>a. json_text (JObj (approval_fields ev [(''arguments'', a)])))
       (json_parse (ae_arguments ev)))"

text \<open>\<open>eventItem\<close> drops the marshalling error: the raw text is then empty.\<close>

definition event_item :: "approval_event \<Rightarrow> rollout_item" where
  "event_item ev = EventMsgItem (Some \<lparr>em_type = ae_type ev,
     em_raw = or_empty (marshal_approval ev), em_body = []\<rparr>)"

text \<open>\<open>Events\<close>: the request always, the denial only when the call was refused.\<close>

definition approval_events :: "tool_call \<Rightarrow> decision \<Rightarrow> int \<Rightarrow> rollout_item list" where
  "approval_events c d now = (let base = \<lparr>ae_type = [], ae_call_id = tc_call_id c,
       ae_turn_id = tc_turn_id c, ae_server = tc_server c, ae_tool = tc_tool c,
       ae_qualified = tc_qualified c, ae_kind = tc_kind c, ae_arguments = tc_arguments c,
       ae_reason = [], ae_decided_by = [], ae_at_ms = now div 1000\<rparr>
     in event_item (base\<lparr>ae_type := event_approval_requested\<rparr>)
        # (if d_allowed d then [] else
           [event_item (base\<lparr>ae_type := event_approval_denied, ae_reason := d_reason d,
              ae_decided_by := d_decided_by d\<rparr>)]))"

definition is_runtime_event :: "string \<Rightarrow> bool" where
  "is_runtime_event t \<longleftrightarrow> t = event_approval_requested \<or> t = event_approval_denied"

section \<open>tenantctx.go\<close>

text \<open>The session attribution; a context may carry it, or only a tenant.\<close>

record session_info =
  si_tenant :: string
  si_agent :: string
  si_thread :: string
  si_trace :: string

record go_ctx =
  gc_tenant :: "string option"
  gc_info :: "session_info option"

text \<open>\<open>Session\<close> panics on an empty tenant (\<open>None\<close>).\<close>

definition session_ctx :: "session_info \<Rightarrow> go_ctx option" where
  "session_ctx info = (if si_tenant info = [] then None
     else Some \<lparr>gc_tenant = Some (si_tenant info), gc_info = Some info\<rparr>)"

definition info_from_context :: "go_ctx \<Rightarrow> session_info \<times> bool" where
  "info_from_context ctx = (case gc_info ctx of Some i \<Rightarrow> (i, True)
     | None \<Rightarrow> (case tenant_from_context (gc_tenant ctx) of
         Some t \<Rightarrow> (\<lparr>si_tenant = t, si_agent = [], si_thread = [], si_trace = []\<rparr>, False)
       | None \<Rightarrow> (\<lparr>si_tenant = [], si_agent = [], si_thread = [], si_trace = []\<rparr>, False)))"

definition log_attrs :: "session_info \<Rightarrow> (string \<times> string) list" where
  "log_attrs i = [(''tenant_id'', si_tenant i)]
     @ (if si_agent i = [] then [] else [(''agent_id'', si_agent i)])
     @ (if si_thread i = [] then [] else [(''thread_id'', si_thread i)])
     @ (if si_trace i = [] then [] else [(''trace_id'', si_trace i)])"

definition mcp_meta :: "go_ctx \<Rightarrow> string" where
  "mcp_meta ctx = (let i = fst (info_from_context ctx) in
     if si_tenant i = [] then []
     else json_text (JObj [(''airush'', JObj ([(''tenant_id'', JStr (si_tenant i))]
       @ omit_empty ''agent_id'' (si_agent i) @ omit_empty ''thread_id'' (si_thread i)
       @ omit_empty ''trace_id'' (si_trace i)))]))"

section \<open>runtime/mcp.go\<close>

text \<open>
  Go maps of raw messages: decoding an object keeps the last value of a key, \<open>null\<close> makes
  the map nil, anything else is an error that leaves the map as it was; encoding sorts the keys.
\<close>

definition map_put :: "('k \<times> 'v) list \<Rightarrow> 'k \<times> 'v \<Rightarrow> ('k \<times> 'v) list" where
  "map_put m p = filter (\<lambda>q. fst q \<noteq> fst p) m @ [p]"

definition obj_to_map :: "(string \<times> json) list \<Rightarrow> (string \<times> json) list" where
  "obj_to_map kvs = foldl map_put [] kvs"

definition marshal_map :: "(string \<times> json) list \<Rightarrow> string" where
  "marshal_map m = json_text (JObj (sort_key fst m))"

datatype merged = MergePanic | Merged string

text \<open>
  \<open>mergeMeta\<close>: the tenant's entries replace the caller's. The last case of the inner match is
  the assignment to a nil map after \<open>null\<close> was decoded into it: a Go panic.
\<close>

definition merge_meta :: "string \<Rightarrow> string \<Rightarrow> merged" where
  "merge_meta meta airush = (if airush = [] then Merged meta
     else let m0 = (if meta = [] then Some [] else case json_parse meta of
              Some (JObj kvs) \<Rightarrow> Some (obj_to_map kvs) | Some JNull \<Rightarrow> None | _ \<Rightarrow> Some [])
     in case json_parse airush of
         Some (JObj extra) \<Rightarrow> (case m0 of
             Some m \<Rightarrow> Merged (marshal_map (foldl map_put m (obj_to_map extra)))
           | None \<Rightarrow> if extra = [] then Merged ''null'' else MergePanic)
       | Some JNull \<Rightarrow> (case m0 of Some m \<Rightarrow> Merged (marshal_map m) | None \<Rightarrow> Merged ''null'')
       | _ \<Rightarrow> Merged meta)"

text \<open>
  The gated caller. What it needs of its surroundings: the library's name parser, the discovered
  tool catalogue, the running turn, the clock, whether the store takes the audit events, and the
  MCP manager. \<open>call_qualified_tool\<close> returns the answer and the effects in their order.
\<close>

record tool_info =
  ti_server :: string
  ti_name :: string
  ti_annotations :: "string option"

record 'r gate_env =
  ge_parse :: "string \<Rightarrow> (string \<times> string) option"
  ge_tools :: "tool_info list"
  ge_turn :: string
  ge_now :: int
  ge_append_ok :: "rollout_item list \<Rightarrow> bool"
  ge_mcp :: "string \<Rightarrow> string \<Rightarrow> string \<Rightarrow> 'r"

datatype 'r gate_result = BadToolName | DeniedResult string | McpAnswer 'r | GatePanic

datatype gate_effect = GateAppend "rollout_item list" | GateNotify | GateCall string string string

definition tool_kind_in :: "tool_info list \<Rightarrow> string \<Rightarrow> string \<Rightarrow> tool_kind" where
  "tool_kind_in tools server tool =
     (case find (\<lambda>i. ti_server i = server \<and> ti_name i = tool) tools of
        None \<Rightarrow> KindAction | Some i \<Rightarrow> kind_of (or_empty (ti_annotations i)))"

definition record_approval :: "'r gate_env \<Rightarrow> tool_call \<Rightarrow> decision \<Rightarrow> gate_effect list" where
  "record_approval ge c d = (let items = approval_events c d (ge_now ge) in
     if ge_append_ok ge items then [GateAppend items, GateNotify] else [GateAppend items])"

definition denied_result :: "decision \<Rightarrow> string" where
  "denied_result d = json_text (JObj [(''text'', JStr (''approval denied: '' @ d_reason d)), (''type'', JStr ''text'')])"

definition call_qualified_tool ::
  "'r gate_env \<Rightarrow> go_ctx \<Rightarrow> string \<Rightarrow> string \<Rightarrow> string \<Rightarrow> 'r gate_result \<times> gate_effect list" where
  "call_qualified_tool ge ctx name args meta = (case ge_parse ge name of
     None \<Rightarrow> (BadToolName, [])
   | Some (server, tool) \<Rightarrow>
     (let c = \<lparr>tc_qualified = name, tc_server = server, tc_tool = tool,
            tc_kind = tool_kind_in (ge_tools ge) server tool, tc_call_id = [],
            tc_turn_id = ge_turn ge, tc_arguments = args\<rparr>;
          d = review c;
          rec1 = record_approval ge c d
      in if \<not> d_allowed d then (DeniedResult (denied_result d), rec1)
         else (case merge_meta meta (mcp_meta ctx) of
             MergePanic \<Rightarrow> (GatePanic, rec1)
           | Merged m \<Rightarrow> (McpAnswer (ge_mcp ge name args m), rec1 @ [GateCall name args m]))))"

section \<open>Lemmas\<close>

lemma review_allowed [simp]: "d_allowed (review c) \<longleftrightarrow> tc_kind c = KindRead"
  by (simp add: review_def)

lemma map_put_of: "map_of (map_put m p) k = (if k = fst p then Some (snd p) else map_of m k)"
  by (induction m) (auto simp: map_put_def split: if_splits)

lemma map_put_distinct: "distinct (map fst m) \<Longrightarrow> distinct (map fst (map_put m p))"
  by (induction m) (auto simp: map_put_def)

lemma foldl_map_put:
  "distinct (map fst m) \<Longrightarrow> distinct (map fst (foldl map_put m kvs)) \<and>
     map_of (foldl map_put m kvs) k = (case map_of (rev kvs) k of Some v \<Rightarrow> Some v | None \<Rightarrow> map_of m k)"
  by (induction kvs arbitrary: m)
    (auto simp: map_put_distinct map_put_of map_add_def split: option.splits)

lemma map_of_sort_key:
  assumes "distinct (map fst m)"
  shows "map_of (sort_key fst m) k = map_of m k"
  by (metis assms distinct_map distinct_sort map_of_eqI map_of_inject_set set_sort)

text \<open>What the context contributes is an object with the one member \<open>airush\<close>.\<close>

definition info_json :: "session_info \<Rightarrow> json" where
  "info_json i = JObj ([(''tenant_id'', JStr (si_tenant i))]
     @ omit_empty ''agent_id'' (si_agent i) @ omit_empty ''thread_id'' (si_thread i)
     @ omit_empty ''trace_id'' (si_trace i))"

lemma mcp_meta_parse:
  assumes "session_ctx i = Some ctx"
  shows "mcp_meta ctx \<noteq> [] \<and> json_parse (mcp_meta ctx) = Some (JObj [(''airush'', info_json i)])"
proof -
  from assms have i: "si_tenant i \<noteq> []" "info_from_context ctx = (i, True)"
    by (auto simp: session_ctx_def info_from_context_def split: if_splits)
  then have m: "mcp_meta ctx = json_text (JObj [(''airush'', info_json i)])"
    by (simp add: mcp_meta_def info_json_def Let_def)
  have "wf_json (JObj [(''airush'', info_json i)])"
    by (auto simp: info_json_def omit_empty_def)
  with m show ?thesis by (simp add: json_parse_text)
qed

lemma foldl_map_put_set: "set (foldl map_put m kvs) \<subseteq> set m \<union> set kvs"
proof (induction kvs arbitrary: m)
  case (Cons p kvs)
  have "set (map_put m p) \<subseteq> set m \<union> {p}" by (auto simp: map_put_def)
  with Cons [of "map_put m p"] show ?case by auto
qed simp

lemma obj_to_map_wf: "\<forall>p \<in> set kvs. wf_json (snd p) \<Longrightarrow> \<forall>p \<in> set (obj_to_map kvs). wf_json (snd p)"
  using foldl_map_put_set [of "[]" kvs] by (auto simp: obj_to_map_def)

lemma obj_to_map_distinct: "distinct (map fst (obj_to_map kvs))"
  using foldl_map_put [of "[]" kvs] by (simp add: obj_to_map_def)

lemma merge_with_object:
  assumes "airush \<noteq> []" "json_parse airush = Some (JObj [(k, v)])" "merge_meta meta airush = Merged m"
  shows "\<exists>kvs. json_parse m = Some (JObj kvs) \<and> map_of kvs k = Some v"
proof -
  define m0 where "m0 = (if meta = [] then Some [] else case json_parse meta of
    Some (JObj kvs) \<Rightarrow> Some (obj_to_map kvs) | Some JNull \<Rightarrow> None | _ \<Rightarrow> Some [])"
  from assms obtain b where b: "m0 = Some b" and m: "m = marshal_map (map_put b (k, v))"
    by (auto simp: merge_meta_def m0_def obj_to_map_def map_put_def Let_def split: option.splits)
  from b have db: "distinct (map fst b)" and wb: "\<forall>p \<in> set b. wf_json (snd p)"
    by (auto simp: m0_def obj_to_map_distinct split: if_splits option.splits json.splits
        dest!: json_parse_wf dest: bspec [OF obj_to_map_wf]) (fastforce dest!: bspec [OF obj_to_map_wf])?
  from assms(2) have "wf_json v" by (auto dest: json_parse_wf)
  with wb have "wf_json (JObj (sort_key fst (map_put b (k, v))))"
    by (auto simp: map_put_def)
  then have "json_parse m = Some (JObj (sort_key fst (map_put b (k, v))))"
    by (simp add: m marshal_map_def json_parse_text)
  moreover have "map_of (sort_key fst (map_put b (k, v))) k = Some v"
    using map_of_sort_key [OF map_put_distinct [OF db]] by (simp add: map_put_of)
  ultimately show ?thesis by blast
qed

section \<open>Properties\<close>


definition read_catalogue :: "tool_info list" where
  "read_catalogue = [\<lparr>ti_server = ''db'', ti_name = ''explain'', ti_annotations = Some (json_text (JObj [(''readOnlyHint'', JBool True)]))\<rparr>]"

definition sample_gate :: "string gate_env" where
  "sample_gate = \<lparr>ge_parse = (\<lambda>n. if n = ''mcp__db__explain'' then Some (''db'', ''explain'') else None),
     ge_tools = read_catalogue, ge_turn = [], ge_now = 0, ge_append_ok = (\<lambda>_. True), ge_mcp = (\<lambda>_ _ _. ''ok'')\<rparr>"

definition sample_ctx :: go_ctx where
  "sample_ctx = \<lparr>gc_tenant = Some ''t1'', gc_info = Some \<lparr>si_tenant = ''t1'', si_agent = [], si_thread = ''th'', si_trace = []\<rparr>\<rparr>"

lemma sample_kind: "tool_kind_in read_catalogue ''db'' ''explain'' = KindRead"
  using json_parse_text [of "JObj [(''readOnlyHint'', JBool True)]"]
  by (simp add: tool_kind_in_def read_catalogue_def kind_of_def struct_members_def dec_field_def
      field_values_def as_bool_def Let_def ex_bool_eq)


text \<open>C4: the tenant identity an MCP server sees comes from the context only. Whatever metadata the
  caller passes in (its own \<open>airush\<close> member included), the metadata text that goes out parses to an
  object whose \<open>airush\<close> member is exactly the session's attribution, in which the tenant id is the
  session's tenant.\<close>

theorem mcp_meta_tenant_from_context:
  assumes "session_ctx i = Some ctx" "merge_meta meta (mcp_meta ctx) = Merged m"
  shows "\<exists>kvs info. json_parse m = Some (JObj kvs) \<and> map_of kvs ''airush'' = Some (JObj info)
    \<and> map_of info ''tenant_id'' = Some (JStr (si_tenant i)) \<and> si_tenant i \<noteq> []"
proof -
  from mcp_meta_parse [OF assms(1)] merge_with_object assms(2)
  have "\<exists>kvs. json_parse m = Some (JObj kvs) \<and> map_of kvs ''airush'' = Some (info_json i)" by blast
  then show ?thesis using assms(1) by (auto simp: info_json_def session_ctx_def split: if_splits)
qed

definition forged_meta :: string where
  "forged_meta = json_text (JObj [(''airush'', JStr ''forged''), (''p'', JNull)])"

lemma mcp_meta_tenant_from_context_witness:
  "\<exists>m kvs info. merge_meta forged_meta (mcp_meta sample_ctx) = Merged m \<and> json_parse m = Some (JObj kvs)
     \<and> map_of kvs ''airush'' = Some (JObj info) \<and> map_of info ''tenant_id'' = Some (JStr ''t1'')"
proof -
  have s: "session_ctx \<lparr>si_tenant = ''t1'', si_agent = [], si_thread = ''th'', si_trace = []\<rparr> = Some sample_ctx"
    by (simp add: session_ctx_def sample_ctx_def)
  have "json_parse forged_meta = Some (JObj [(''airush'', JStr ''forged''), (''p'', JNull)])" "forged_meta \<noteq> []"
    unfolding forged_meta_def by (rule json_parse_text, simp) simp
  with mcp_meta_parse [OF s] obtain m where "merge_meta forged_meta (mcp_meta sample_ctx) = Merged m"
    by (simp add: merge_meta_def Let_def)
  with mcp_meta_tenant_from_context [OF s this] show ?thesis by auto
qed

text \<open>A caller whose metadata is the JSON text \<open>null\<close> makes \<open>mergeMeta\<close> panic: decoding
  \<open>null\<close> sets the map to nil, and the tenant entry is then assigned into it. The comment promises
  that the tenant entry is merged in.\<close>

theorem merge_meta_null_panics: "merge_meta ''null'' (json_text (JObj [(''airush'', info_json i)])) = MergePanic"
proof -
  have "wf_json (JObj [(''airush'', info_json i)])" by (auto simp: info_json_def omit_empty_def)
  from json_parse_text [OF this] json_parse_text [of JNull] show ?thesis
    by (simp add: merge_meta_def obj_to_map_def map_put_def)
qed

end
