(* ===== verification/RolloutEvents.thy ===== *)
theory RolloutEvents
  imports Approvals
begin

text \<open>
  The event log of a thread: \<^verbatim>\<open>agent-runtime/internal/pgstore/events.go\<close> and the
  read and append entry points of \<^verbatim>\<open>runtime.go\<close>. Its invariant \<open>log_ok\<close> says that a
  thread's events carry the numbers 1 to \<open>last_seq\<close>, each once, in table order.
\<close>

section \<open>Encoding an item\<close>

definition event_type_session_meta :: string where "event_type_session_meta = ''session_meta''"
definition event_type_turn_context :: string where "event_type_turn_context = ''turn_context''"
definition event_type_response_item :: string where "event_type_response_item = ''response_item''"
definition event_type_compacted :: string where "event_type_compacted = ''compacted_item''"

text \<open>\<open>knownEventMsg\<close>: a round trip through the library; unknown variants keep their raw text.\<close>

definition known_event_msg :: "codex \<Rightarrow> event_msg \<Rightarrow> bool" where
  "known_event_msg cx ev = (case cx_marshal_msg cx ev of None \<Rightarrow> False
     | Some raw \<Rightarrow> (case cx_unmarshal_msg cx raw of None \<Rightarrow> False | Some back \<Rightarrow> em_raw back = []))"

text \<open>\<open>runtimeEvent\<close>: the two approval events, when the raw text carries the same type.\<close>

definition runtime_event :: "event_msg \<Rightarrow> bool" where
  "runtime_event ev = (if \<not> is_runtime_event (em_type ev) \<or> em_raw ev = [] then False
     else case Option.bind (json_parse (em_raw ev)) struct_members of None \<Rightarrow> False
       | Some kvs \<Rightarrow> str_field ''type'' kvs = Some (em_type ev))"

definition event_type_of :: "codex \<Rightarrow> rollout_item \<Rightarrow> go_error + string" where
  "event_type_of cx item = (case item of
     SessionMetaItem _ \<Rightarrow> Inr event_type_session_meta
   | TurnContextItem _ \<Rightarrow> Inr event_type_turn_context
   | RespItem _ \<Rightarrow> Inr event_type_response_item
   | CompactedItem _ \<Rightarrow> Inr event_type_compacted
   | EventMsgItem m \<Rightarrow> (case m of None \<Rightarrow> Inl (api_err CodeAgentEventUnknown)
       | Some ev \<Rightarrow> if em_type ev = [] then Inl (api_err CodeAgentEventUnknown)
           else if \<not> known_event_msg cx ev \<and> \<not> runtime_event ev then Inl (api_err CodeAgentEventUnknown)
           else Inr (em_type ev))
   | UnknownItem _ \<Rightarrow> Inl (api_err CodeAgentEventUnknown))"

definition turn_id_of :: "codex \<Rightarrow> rollout_item \<Rightarrow> string option" where
  "turn_id_of cx item = (case item of EventMsgItem (Some ev) \<Rightarrow>
       (case cx_marshal_msg cx ev of None \<Rightarrow> None
        | Some raw \<Rightarrow> (case Option.bind (json_parse raw) struct_members of None \<Rightarrow> None
            | Some kvs \<Rightarrow> (case str_field ''turn_id'' kvs of None \<Rightarrow> None
                | Some t \<Rightarrow> if t = [] then None else if cx_uuid_ok cx t then Some t else None)))
   | _ \<Rightarrow> None)"

record encoded_event =
  en_type :: string
  en_turn :: "string option"
  en_payload :: string
  en_ref :: "string option"

definition payload_ref :: "string \<Rightarrow> int \<Rightarrow> string" where
  "payload_ref tid seq = ''thread/'' @ tid @ ''/seq/'' @ int_str seq"

text \<open>The summary that replaces an oversized payload; a Go map is printed with sorted keys.\<close>

definition truncated_summary :: "string \<Rightarrow> nat \<Rightarrow> string \<Rightarrow> string \<Rightarrow> string" where
  "truncated_summary kind len ref etype = json_text (JObj
     [(''event_type'', JStr etype), (''original_bytes'', JInt (int len)), (''payload_ref'', JStr ref),
      (''truncated'', JBool True), (''type'', JStr kind)])"

definition encode_event :: "codex \<Rightarrow> store_opts \<Rightarrow> string \<Rightarrow> int \<Rightarrow> rollout_item \<Rightarrow> go_error + encoded_event" where
  "encode_event cx o1 tid seq item = (case event_type_of cx item of Inl e \<Rightarrow> Inl e
   | Inr etype \<Rightarrow> (case cx_marshal_item cx item of
       None \<Rightarrow> Inl (api_wrap CodeAgentEventUnknown (Plain ''marshal''))
     | Some payload \<Rightarrow>
        let ev = \<lparr>en_type = etype, en_turn = turn_id_of cx item, en_payload = payload, en_ref = None\<rparr>
        in if int (length payload) > so_inline_limit o1
           then let ref = payload_ref tid seq in
             Inr (ev\<lparr>en_payload := truncated_summary (cx_kind cx item) (length payload) ref etype,
                     en_ref := Some ref\<rparr>)
           else Inr ev))"

section \<open>Reading and appending\<close>

definition live_thread :: "string \<Rightarrow> thread_row \<Rightarrow> bool" where
  "live_thread tid r \<longleftrightarrow> t_id r = tid \<and> t_status r \<noteq> Deleted"

text \<open>\<open>currentSeq\<close>.\<close>

definition current_seq :: "string \<Rightarrow> int tx" where
  "current_seq tid s = (case select_one (live_thread tid) (threads s) of
     None \<Rightarrow> Inl (StoreErr SkThreadNotFound) | Some r \<Rightarrow> Inr (t_last_seq r, s))"

text \<open>
  The loop of \<open>appendEvents\<close>: the rows of the batch. The first item that does not encode fails
  the whole append; \<open>created_at\<close> is the transaction's time.
\<close>

fun encode_batch :: "codex \<Rightarrow> store_opts \<Rightarrow> int \<Rightarrow> string \<Rightarrow> int \<Rightarrow> rollout_item list \<Rightarrow> go_error + event_row list" where
  "encode_batch cx o1 now tid seq [] = Inr []"
| "encode_batch cx o1 now tid seq (i # is) = (case encode_event cx o1 tid (seq + 1) i of
     Inl e \<Rightarrow> Inl e
   | Inr ev \<Rightarrow> (case encode_batch cx o1 now tid (seq + 1) is of Inl e \<Rightarrow> Inl e
       | Inr rows \<Rightarrow> Inr (\<lparr>e_thread = tid, e_seq = seq + 1, e_turn = en_turn ev, e_type = en_type ev,
            e_payload = en_payload ev, e_ref = en_ref ev, e_created = now\<rparr> # rows)))"

text \<open>Sending the batch: each payload goes through the jsonb column.\<close>

fun insert_rows :: "codex \<Rightarrow> event_row list \<Rightarrow> event_row list option" where
  "insert_rows cx [] = Some []"
| "insert_rows cx (r # rs) = (case cx_jsonb cx (e_payload r) of None \<Rightarrow> None
     | Some p \<Rightarrow> map_option ((#) (r\<lparr>e_payload := p\<rparr>)) (insert_rows cx rs))"

definition append_events :: "codex \<Rightarrow> store_opts \<Rightarrow> int \<Rightarrow> string \<Rightarrow> rollout_item list \<Rightarrow> int tx" where
  "append_events cx o1 now tid items s = (if items = [] then current_seq tid s
   else case select_one (live_thread tid) (threads s) of
     None \<Rightarrow> Inl (StoreErr SkThreadNotFound)
   | Some r \<Rightarrow> (case encode_batch cx o1 now tid (t_last_seq r) items of
       Inl e \<Rightarrow> Inl e
     | Inr rows \<Rightarrow> (case insert_rows cx rows of
         None \<Rightarrow> Inl (StoreErr SkInternal)
       | Some rows' \<Rightarrow> let seq = t_last_seq r + int (length items) in
           Inr (seq, s\<lparr>events := events s @ rows',
             threads := update_where (\<lambda>t. t_id t = tid) (\<lambda>t. t\<lparr>t_last_seq := seq, t_updated := now\<rparr>)
               (threads s)\<rparr>))))"

record stored_event =
  se_seq :: int
  se_turn :: "string option"
  se_type :: string
  se_payload :: string
  se_ref :: "string option"

definition stored_of :: "event_row \<Rightarrow> stored_event" where
  "stored_of r = \<lparr>se_seq = e_seq r, se_turn = e_turn r, se_type = e_type r, se_payload = e_payload r,
     se_ref = e_ref r\<rparr>"

text \<open>\<open>loadEvents\<close>: the events from a number on, in order, a positive limit cuts.\<close>

definition load_events :: "string \<Rightarrow> int \<Rightarrow> int \<Rightarrow> tdb \<Rightarrow> stored_event list" where
  "load_events tid from lim s = (let es = order_by e_seq
       (filter (\<lambda>r. e_thread r = tid \<and> e_seq r \<ge> from) (events s))
     in map stored_of (if lim > 0 then take (nat lim) es else es))"

definition truncated_placeholder :: "string \<Rightarrow> response_item" where
  "truncated_placeholder ref = RespMessage ''developer''
     (''[tool output truncated: exceeded the inline limit; stored at '' @ ref @ '']'')"

fun decode_rollout_items :: "codex \<Rightarrow> stored_event list \<Rightarrow> rollout_item list" where
  "decode_rollout_items cx [] = []"
| "decode_rollout_items cx (ev # evs) = (case se_ref ev of
     Some ref \<Rightarrow> (if se_type ev = event_type_response_item
         then [RespItem (truncated_placeholder ref)] else []) @ decode_rollout_items cx evs
   | None \<Rightarrow> (case cx_unmarshal_item cx (se_payload ev) of
       None \<Rightarrow> decode_rollout_items cx evs
     | Some item \<Rightarrow> item # decode_rollout_items cx evs))"

text \<open>\<open>ReadEvents\<close> and \<open>AppendRolloutItems\<close> of \<^verbatim>\<open>runtime.go\<close>, as transaction bodies.\<close>

definition read_events_tx :: "string \<Rightarrow> int \<Rightarrow> int \<Rightarrow> stored_event list tx" where
  "read_events_tx tid from lim s = (case current_seq tid s of Inl e \<Rightarrow> Inl e
     | Inr _ \<Rightarrow> Inr (load_events tid from lim s, s))"

definition read_events :: "tx_fault \<Rightarrow> string option \<Rightarrow> string \<Rightarrow> int \<Rightarrow> int \<Rightarrow> db
    \<Rightarrow> (go_error + stored_event list) \<times> db" where
  "read_events flt ctx tid from lim = in_tenant_tx flt ctx (read_events_tx tid from lim)"

definition append_rollout_items :: "codex \<Rightarrow> store_opts \<Rightarrow> tx_fault \<Rightarrow> string option \<Rightarrow> int \<Rightarrow> string
    \<Rightarrow> rollout_item list \<Rightarrow> db \<Rightarrow> (go_error + int) \<times> db" where
  "append_rollout_items cx o1 flt ctx now tid items = in_tenant_tx flt ctx (append_events cx o1 now tid items)"

section \<open>The invariant of the log\<close>

definition thread_seqs :: "string \<Rightarrow> event_row list \<Rightarrow> int list" where
  "thread_seqs tid es = map e_seq (filter (\<lambda>r. e_thread r = tid) es)"

definition log_ok :: "tdb \<Rightarrow> bool" where
  "log_ok s \<longleftrightarrow> distinct (map t_id (threads s))
     \<and> (\<forall>r \<in> set (threads s). 0 \<le> t_last_seq r \<and> thread_seqs (t_id r) (events s) = [1..t_last_seq r])
     \<and> (\<forall>e \<in> set (events s). e_thread e \<in> t_id ` set (threads s))"

lemma log_ok_empty: "log_ok empty_tdb"
  by (simp add: log_ok_def empty_tdb_def)

text \<open>An operation that leaves the events alone and changes threads without touching ids and
  numbers keeps the log.\<close>

lemma log_ok_threads:
  assumes "log_ok s" "events s' = events s"
    "map (\<lambda>r. (t_id r, t_last_seq r)) (threads s') = map (\<lambda>r. (t_id r, t_last_seq r)) (threads s)"
  shows "log_ok s'"
proof -
  from assms(3) have ids: "map t_id (threads s') = map t_id (threads s)"
    by (metis (no_types, lifting) comp_apply fst_conv map_eq_conv map_map)
  have pairs: "(\<lambda>r. (t_id r, t_last_seq r)) ` set (threads s') = (\<lambda>r. (t_id r, t_last_seq r)) ` set (threads s)"
    by (metis assms(3) set_map)
  have "0 \<le> t_last_seq r \<and> thread_seqs (t_id r) (events s') = [1..t_last_seq r]" if "r \<in> set (threads s')" for r
  proof -
    from that pairs obtain q where "q \<in> set (threads s)" "t_id q = t_id r" "t_last_seq q = t_last_seq r"
      by (metis (mono_tags, lifting) Pair_inject image_iff)
    with assms(1,2) show ?thesis by (metis log_ok_def)
  qed
  moreover have "\<forall>e \<in> set (events s'). e_thread e \<in> t_id ` set (threads s')"
    using assms(1,2) ids by (metis log_ok_def set_map)
  ultimately show ?thesis using assms(1) ids by (simp add: log_ok_def)
qed

lemma upto_extend: "0 \<le> j \<Longrightarrow> j \<le> k \<Longrightarrow> [1..k] = [1..j] @ [j + 1..(k::int)]"
  by (cases "j = 0") (simp_all add: upto_split2)

lemma encode_batch_rows:
  "encode_batch cx o1 now tid seq items = Inr rows \<Longrightarrow>
     map e_seq rows = [seq + 1..seq + int (length items)] \<and> (\<forall>r \<in> set rows. e_thread r = tid)"
proof (induction items arbitrary: seq rows)
  case (Cons i items)
  then obtain row rows' where r: "encode_batch cx o1 now tid (seq + 1) items = Inr rows'"
    "rows = row # rows'" "e_seq row = seq + 1" "e_thread row = tid"
    by (auto split: sum.splits)
  from Cons.IH [OF r(1)] r(2-4) show ?case by (simp add: upto_rec1 algebra_simps)
qed simp

lemma insert_rows_keys:
  "insert_rows cx rows = Some rows' \<Longrightarrow> map e_seq rows' = map e_seq rows
     \<and> map e_thread rows' = map e_thread rows"
  by (induction rows arbitrary: rows') (auto split: option.splits)

lemma live_thread_unique:
  assumes "log_ok s" "select_one (live_thread tid) (threads s) = Some r"
  shows "r \<in> set (threads s)" "t_id r = tid" "t_status r \<noteq> Deleted"
    "\<And>q. q \<in> set (threads s) \<Longrightarrow> t_id q = tid \<Longrightarrow> q = r"
proof -
  from select_one_Some_in [OF assms(2)] show m: "r \<in> set (threads s)" "t_id r = tid" "t_status r \<noteq> Deleted"
    by (simp_all add: live_thread_def)
  from assms(1) have "distinct (map t_id (threads s))" by (simp add: log_ok_def)
  then show "q = r" if "q \<in> set (threads s)" "t_id q = tid" for q
    using that m by (auto intro: key_inj)
qed

text \<open>What a successful append of a non-empty batch does.\<close>

lemma append_events_Inr:
  assumes "append_events cx o1 now tid items s = Inr (n, s')" "items \<noteq> []"
  obtains r rows rows' where "select_one (live_thread tid) (threads s) = Some r"
    "encode_batch cx o1 now tid (t_last_seq r) items = Inr rows" "insert_rows cx rows = Some rows'"
    "n = t_last_seq r + int (length items)" "events s' = events s @ rows'"
    "threads s' = update_where (\<lambda>t. t_id t = tid) (\<lambda>t. t\<lparr>t_last_seq := n, t_updated := now\<rparr>) (threads s)"
    "queue s' = queue s" "edges s' = edges s" "agents s' = agents s"
  using assms by (auto simp: append_events_def Let_def split: option.splits sum.splits)

lemma current_seq_Inr: "current_seq tid s = Inr (n, s') \<Longrightarrow> s' = s"
  by (auto simp: current_seq_def split: option.splits)

lemma append_events_log_ok:
  assumes "log_ok s" "append_events cx o1 now tid items s = Inr (n, s')"
  shows "log_ok s'"
proof (cases "items = []")
  case True
  with assms show ?thesis by (auto simp: append_events_def dest: current_seq_Inr)
next
  case False
  from append_events_Inr [OF assms(2) False] obtain r rows rows' where
    r: "select_one (live_thread tid) (threads s) = Some r" and
    rows: "encode_batch cx o1 now tid (t_last_seq r) items = Inr rows" "insert_rows cx rows = Some rows'" and
    n: "n = t_last_seq r + int (length items)" and ev: "events s' = events s @ rows'" and
    th: "threads s' = update_where (\<lambda>t. t_id t = tid) (\<lambda>t. t\<lparr>t_last_seq := n, t_updated := now\<rparr>) (threads s)"
    by metis
  note lt = live_thread_unique [OF assms(1) r]
  have ids: "map t_id (threads s') = map t_id (threads s)" by (simp add: th update_where_keys)
  from encode_batch_rows [OF rows(1)] insert_rows_keys [OF rows(2)]
  have seqs: "map e_seq rows' = [t_last_seq r + 1..n]" and tids: "\<forall>e \<in> set rows'. e_thread e = tid"
    by (simp_all add: n) (metis (no_types, lifting) imageE image_eqI set_map)
  have fil: "thread_seqs t (events s') = thread_seqs t (events s) @ (if t = tid then [t_last_seq r + 1..n] else [])" for t
    using seqs tids by (auto simp: thread_seqs_def ev filter_empty_conv intro!: filter_True)
  have "0 \<le> t_last_seq q \<and> thread_seqs (t_id q) (events s') = [1..t_last_seq q]" if q: "q \<in> set (threads s')" for q
  proof -
    from q th obtain q0 where q0: "q0 \<in> set (threads s)"
      "q = (if t_id q0 = tid then q0\<lparr>t_last_seq := n, t_updated := now\<rparr> else q0)"
      by (auto simp: in_update_where)
    from assms(1) q0(1) have old: "0 \<le> t_last_seq q0" "thread_seqs (t_id q0) (events s) = [1..t_last_seq q0]"
      by (auto simp: log_ok_def)
    show ?thesis
    proof (cases "t_id q0 = tid")
      case True
      with lt(4) q0 have "q0 = r" by blast
      with True q0 old fil [of tid] upto_extend [of "t_last_seq r" n] show ?thesis by (simp add: n)
    next
      case False
      with q0 old fil show ?thesis by simp
    qed
  qed
  moreover have "\<forall>e \<in> set (events s'). e_thread e \<in> t_id ` set (threads s')"
  proof -
    have "t_id ` set (threads s') = t_id ` set (threads s)" using ids by (metis set_map)
    moreover have "tid \<in> t_id ` set (threads s)" using lt(1,2) by blast
    ultimately show ?thesis using assms(1) tids by (auto simp: log_ok_def ev)
  qed
  ultimately show ?thesis using assms(1) ids by (simp add: log_ok_def)
qed

section \<open>Reading the log\<close>

definition last_seq_of :: "string \<Rightarrow> tdb \<Rightarrow> int" where
  "last_seq_of tid s = (case select_one (\<lambda>r. t_id r = tid) (threads s) of None \<Rightarrow> 0 | Some r \<Rightarrow> t_last_seq r)"

definition has_thread :: "string \<Rightarrow> tdb \<Rightarrow> bool" where
  "has_thread tid s \<longleftrightarrow> tid \<in> t_id ` set (threads s)"

lemma last_seq_of_row:
  assumes "log_ok s" "r \<in> set (threads s)"
  shows "last_seq_of (t_id r) s = t_last_seq r"
  using assms select_one_unique [of t_id "threads s" r "\<lambda>q. t_id q = t_id r"]
  by (simp add: last_seq_of_def log_ok_def)

lemma log_seqs:
  assumes "log_ok s" "has_thread tid s"
  shows "thread_seqs tid (events s) = [1..last_seq_of tid s]" "0 \<le> last_seq_of tid s"
  using assms last_seq_of_row by (auto simp: log_ok_def has_thread_def)

lemma filter_upto: "filter (\<lambda>n. from \<le> n) [i..j] = [max i from..(j::int)]"
proof (induction i j rule: upto.induct)
  case (1 i j)
  show ?case
  proof (cases "i \<le> j")
    case True
    with 1 have "filter (\<lambda>n. from \<le> n) [i + 1..j] = [max (i + 1) from..j]" by simp
    with True show ?thesis by (cases "from \<le> i") (simp_all add: upto_rec1 max_def)
  qed simp
qed

lemma load_events_all:
  assumes "log_ok s" "has_thread tid s"
  shows "load_events tid from 0 s = map stored_of (filter (\<lambda>r. e_thread r = tid \<and> from \<le> e_seq r) (events s))"
    and "map e_seq (filter (\<lambda>r. e_thread r = tid \<and> from \<le> e_seq r) (events s)) = [max 1 from..last_seq_of tid s]"
proof -
  have "filter (\<lambda>r. e_thread r = tid \<and> from \<le> e_seq r) (events s)
      = filter (\<lambda>r. from \<le> e_seq r) (filter (\<lambda>r. e_thread r = tid) (events s))" by (simp add: conj_commute)
  then have "map e_seq (filter (\<lambda>r. e_thread r = tid \<and> from \<le> e_seq r) (events s))
      = filter (\<lambda>n. from \<le> n) (thread_seqs tid (events s))"
    by (simp add: thread_seqs_def filter_map comp_def)
  with log_seqs [OF assms] show s: "map e_seq (filter (\<lambda>r. e_thread r = tid \<and> from \<le> e_seq r) (events s))
      = [max 1 from..last_seq_of tid s]" by (simp add: filter_upto)
  then have "sorted (map e_seq (filter (\<lambda>r. e_thread r = tid \<and> from \<le> e_seq r) (events s)))" by simp
  then show "load_events tid from 0 s = map stored_of (filter (\<lambda>r. e_thread r = tid \<and> from \<le> e_seq r) (events s))"
    by (simp add: load_events_def Let_def order_by_sorted_id)
qed

lemma se_seq_stored [simp]: "se_seq (stored_of r) = e_seq r" "se_seq \<circ> stored_of = e_seq"
  by (auto simp: stored_of_def)

text \<open>
  The interface that readers of the log use: a numbered log without gaps, read from a number on,
  with an optional limit. \<open>load_chunk\<close> is what a tailing reader relies on: after a chunk it
  continues with the number after the last one it saw and misses nothing.
\<close>

lemma take_upto: "take m [i..j] = [i..min j (i + int m - 1)]"
proof (induction m arbitrary: i)
  case (Suc m)
  show ?case
  proof (cases "i \<le> j")
    case True
    then show ?thesis using Suc [of "i + 1"] by (simp add: upto_rec1 algebra_simps)
  qed simp
qed simp

lemma last_upto: "i \<le> j \<Longrightarrow> last [i..j] = (j::int)"
  by (simp add: upto_rec2)

locale event_log =
  fixes load :: "'s \<Rightarrow> int \<Rightarrow> int \<Rightarrow> 'e list" and num :: "'e \<Rightarrow> int"
    and last_num :: "'s \<Rightarrow> int" and good :: "'s \<Rightarrow> bool"
  assumes load_num: "good s \<Longrightarrow> map num (load s from 0) = [max 1 from..last_num s]"
    and load_take: "good s \<Longrightarrow> 0 < lim \<Longrightarrow> load s from lim = take (nat lim) (load s from 0)"
    and load_filter: "good s \<Longrightarrow> load s from 0 = filter (\<lambda>e. from \<le> num e) (load s 1 0)"
begin

lemma load_sorted: "good s \<Longrightarrow> sorted (map num (load s from 0)) \<and> distinct (map num (load s from 0))"
  by (simp add: load_num)

lemma load_from: "good s \<Longrightarrow> a \<le> b \<Longrightarrow> load s b 0 = filter (\<lambda>e. b \<le> num e) (load s a 0)"
  by (subst (1 2) load_filter) (auto intro: filter_cong)

lemma load_split:
  assumes "good s" "max 1 a \<le> k" "k \<le> last_num s"
  shows "load s a 0 = take (nat (k - max 1 a + 1)) (load s a 0) @ load s (k + 1) 0"
proof -
  let ?m = "nat (k - max 1 a + 1)"
  have n: "map num (load s a 0) = [max 1 a..k] @ [k + 1..last_num s]"
    using assms upto_split2 [of "max 1 a" k "last_num s"] by (simp only: load_num)
  have len: "length [max 1 a..k] = ?m" using assms by simp
  have "map num (take ?m (load s a 0)) = [max 1 a..k]" "map num (drop ?m (load s a 0)) = [k + 1..last_num s]"
    by (metis append_eq_conv_conj len n take_map, metis append_eq_conv_conj len n drop_map)
  then have st: "num ` set (take ?m (load s a 0)) = {max 1 a..k}" and sd: "num ` set (drop ?m (load s a 0)) = {k + 1..last_num s}"
    by (metis list.set_map set_upto)+
  have "\<not> k + 1 \<le> num e" if "e \<in> set (take ?m (load s a 0))" for e
  proof -
    from that have "num e \<in> {max 1 a..k}" unfolding st [symmetric] by (rule imageI)
    then show ?thesis by simp
  qed
  moreover have "k + 1 \<le> num e" if "e \<in> set (drop ?m (load s a 0))" for e
  proof -
    from that have "num e \<in> {k + 1..last_num s}" unfolding sd [symmetric] by (rule imageI)
    then show ?thesis by simp
  qed
  ultimately have "filter (\<lambda>e. k + 1 \<le> num e) (take ?m (load s a 0) @ drop ?m (load s a 0)) = drop ?m (load s a 0)"
    by (simp only: filter_append) (simp add: filter_empty_conv filter_True)
  moreover have "load s (k + 1) 0 = filter (\<lambda>e. k + 1 \<le> num e) (load s a 0)"
    using assms by (intro load_from) auto
  ultimately show ?thesis by (metis append_take_drop_id)
qed

text \<open>A reader that got a limited chunk continues after its last number.\<close>

lemma load_chunk:
  assumes "good s" "0 < lim" "load s a lim = c" "c \<noteq> []"
  shows "load s a 0 = c @ load s (num (last c) + 1) 0"
proof -
  from assms have c: "c = take (nat lim) (load s a 0)" by (simp add: load_take)
  let ?j = "min (last_num s) (max 1 a + int (nat lim) - 1)"
  have m: "map num c = [max 1 a..?j]"
    by (simp only: c take_map [symmetric] load_num [OF assms(1)] take_upto)
  with assms(4) have j: "max 1 a \<le> ?j" by (metis Nil_is_map_conv upto_Nil2 not_le)
  then have "num (last c) = ?j" using assms(4) m by (metis last_map last_upto)
  moreover have "c = take (nat (?j - max 1 a + 1)) (load s a 0)"
  proof -
    have "length (load s a 0) = nat (last_num s - max 1 a + 1)"
      using arg_cong [OF load_num [OF assms(1), of a], of length] by simp
    then show ?thesis using j assms(2) by (auto simp: c min_def intro!: take_all)
  qed
  ultimately show ?thesis using load_split [OF assms(1) j] by simp
qed

end

interpretation store_log: event_log "\<lambda>s from lim. load_events tid from lim s" se_seq "last_seq_of tid"
  "\<lambda>s. log_ok s \<and> has_thread tid s" for tid
proof unfold_locales
  fix s and frm lim :: int
  assume g: "log_ok s \<and> has_thread tid s"
  then show "map se_seq (load_events tid frm 0 s) = [max 1 frm..last_seq_of tid s]"
    by (simp add: load_events_all)
  show "load_events tid frm lim s = take (nat lim) (load_events tid frm 0 s)" if "0 < lim"
    using that by (simp add: load_events_def Let_def take_map)
  have "filter (\<lambda>r. e_thread r = tid \<and> frm \<le> e_seq r) (events s)
      = filter (\<lambda>r. frm \<le> e_seq r) (filter (\<lambda>r. e_thread r = tid \<and> 1 \<le> e_seq r) (events s))"
  proof -
    have "1 \<le> e_seq r" if "r \<in> set (events s)" "e_thread r = tid" for r
    proof -
      from that have "e_seq r \<in> set (thread_seqs tid (events s))" by (auto simp: thread_seqs_def)
      with g log_seqs show ?thesis by simp
    qed
    then show ?thesis by (auto intro!: filter_cong)
  qed
  with g show "load_events tid frm 0 s = filter (\<lambda>e. frm \<le> se_seq e) (load_events tid 1 0 s)"
    by (simp add: load_events_all filter_map comp_def)
qed

section \<open>Properties\<close>

text \<open>A whole append followed by a read.\<close>

lemma append_load:
  assumes "log_ok s" "append_events cx o1 now tid items s = Inr (n, s')" "items \<noteq> []"
  obtains rows rows' where "encode_batch cx o1 now tid (last_seq_of tid s) items = Inr rows"
    "insert_rows cx rows = Some rows'" "n = last_seq_of tid s + int (length items)"
    "load_events tid 1 0 s' = load_events tid 1 0 s @ map stored_of rows'"
    "map e_seq rows' = [last_seq_of tid s + 1..n]"
    "\<And>u frm lim. u \<noteq> tid \<Longrightarrow> load_events u frm lim s' = load_events u frm lim s"
    "last_seq_of tid s' = n" "has_thread tid s" "has_thread tid s'"
proof -
  from append_events_Inr [OF assms(2,3)] obtain r rows rows' where
    r: "select_one (live_thread tid) (threads s) = Some r" and
    rows: "encode_batch cx o1 now tid (t_last_seq r) items = Inr rows" "insert_rows cx rows = Some rows'" and
    n: "n = t_last_seq r + int (length items)" and ev: "events s' = events s @ rows'" and
    th: "threads s' = update_where (\<lambda>t. t_id t = tid) (\<lambda>t. t\<lparr>t_last_seq := n, t_updated := now\<rparr>) (threads s)"
    by metis
  note lt = live_thread_unique [OF assms(1) r]
  from last_seq_of_row [OF assms(1) lt(1)] lt(2) have l: "last_seq_of tid s = t_last_seq r" by simp
  have h: "has_thread tid s" using lt(1,2) by (auto simp: has_thread_def)
  have "map t_id (threads s') = map t_id (threads s)" by (simp add: th update_where_keys)
  with h have h': "has_thread tid s'" by (metis has_thread_def set_map)
  from append_events_log_ok [OF assms(1,2)] have ok': "log_ok s'" .
  from encode_batch_rows [OF rows(1)] insert_rows_keys [OF rows(2)]
  have seqs: "map e_seq rows' = [t_last_seq r + 1..n]" and tids: "\<forall>e \<in> set rows'. e_thread e = tid"
    by (simp_all add: n) (metis (no_types, lifting) imageE image_eqI set_map)
  have pos: "\<forall>e \<in> set rows'. 1 \<le> e_seq e"
  proof
    fix e
    assume "e \<in> set rows'"
    then have "e_seq e \<in> set (map e_seq rows')" by simp
    with seqs log_seqs(2) [OF assms(1) h] l show "1 \<le> e_seq e" by simp
  qed
  have "load_events tid 1 0 s' = load_events tid 1 0 s @ map stored_of rows'"
    using load_events_all(1) [OF ok' h'] load_events_all(1) [OF assms(1) h] ev tids pos
    by (simp add: filter_True)
  moreover have "load_events u frm lim s' = load_events u frm lim s" if "u \<noteq> tid" for u frm lim
    using that tids by (simp add: load_events_def ev filter_False)
  moreover have "last_seq_of tid s' = n"
  proof -
    have "select_one (\<lambda>q. t_id q = tid) (threads s) = Some r"
      using lt(1,2) assms(1) by (intro select_one_unique [of t_id]) (auto simp: log_ok_def)
    then show ?thesis by (simp add: last_seq_of_def th select_one_update_where lt(2))
  qed
  ultimately show thesis using that rows n l seqs h h' by simp
qed

text \<open>C1: the events of a thread are a gapless sequence and an append extends it at the end. After a
  successful append of a non-empty batch, the thread's log is the old log followed by exactly one
  event per item, numbered from the old last number on; the new last number is returned and stored,
  every other thread reads the same, and the invariant (each thread's numbers are 1 to its
  \<open>last_seq\<close>) holds again.\<close>

theorem append_extends_log:
  assumes "log_ok s" "append_events cx o1 now tid items s = Inr (n, s')" "items \<noteq> []"
  shows "n = last_seq_of tid s + int (length items) \<and> last_seq_of tid s' = n \<and> log_ok s'
    \<and> (\<exists>new. load_events tid 1 0 s' = load_events tid 1 0 s @ new \<and> length new = length items
         \<and> map se_seq new = [last_seq_of tid s + 1..n])
    \<and> map se_seq (load_events tid 1 0 s') = [1..n]
    \<and> (\<forall>u frm lim. u \<noteq> tid \<longrightarrow> load_events u frm lim s' = load_events u frm lim s)"
proof -
  have ok: "log_ok s'" by (rule append_events_log_ok [OF assms(1,2)])
  from append_load [OF assms] obtain rows' where
    a: "n = last_seq_of tid s + int (length items)" "load_events tid 1 0 s' = load_events tid 1 0 s @ map stored_of rows'"
      "map e_seq rows' = [last_seq_of tid s + 1..n]" "last_seq_of tid s' = n" "has_thread tid s'" and
    o1: "\<And>u frm lim. u \<noteq> tid \<Longrightarrow> load_events u frm lim s' = load_events u frm lim s" by metis
  have "length (map stored_of rows') = length items" using arg_cong [OF a(3), of length] a(1) by simp
  moreover have "map se_seq (map stored_of rows') = [last_seq_of tid s + 1..n]" using a(3) by simp
  moreover have "map se_seq (load_events tid 1 0 s') = [1..n]"
    using store_log.load_num [of s' tid 1] ok a(4,5) by simp
  ultimately show ?thesis using a(1,2,4) ok o1 by blast
qed

text \<open>A library that knows every event, keeps texts as they are, and prints items by their type.\<close>

definition sample_codex :: codex where
  "sample_codex = \<lparr>cx_marshal_item = (\<lambda>i. case i of RespItem (RespOther x) \<Rightarrow> Some x | _ \<Rightarrow> None),
     cx_unmarshal_item = (\<lambda>p. Some (RespItem (RespOther p))), cx_kind = (\<lambda>_. ''response_item''),
     cx_marshal_msg = (\<lambda>m. Some (em_body m)), cx_unmarshal_msg = (\<lambda>_. None), cx_uuid_ok = (\<lambda>_. True),
     cx_jsonb = Some, cx_patch_empty = (\<lambda>_. False), cx_default_source = [], cx_on_request = [],
     cx_read_only = [], cx_paginated = ''paginated'', cx_nickname = (\<lambda>_. None), cx_agent_role = (\<lambda>_. None),
     cx_agent_path = (\<lambda>_. None)\<rparr>"

definition blank_meta :: thread_meta where
  "blank_meta = \<lparr>m_forked_from = None, m_preview = [], m_name = None, m_provider = [], m_model = None,
     m_effort = None, m_recency = None, m_cwd = [], m_cli_version = [], m_source = None, m_history_mode = [],
     m_thread_source = None, m_nickname = None, m_role = None, m_path = None, m_git = None, m_approval = None,
     m_permission = None, m_token_usage = None, m_first_msg = None, m_memory_mode = None, m_originator = [],
     m_window = [], m_history_base = None, m_tools = [], m_base_instructions = None\<rparr>"

definition blank_thread :: "string \<Rightarrow> thread_row" where
  "blank_thread tid = \<lparr>t_id = tid, t_agent = None, t_parent = None, t_title = [], t_status = Idle,
     t_model = ''chat-default'', t_pod = None, t_heartbeat = None, t_last_seq = 0, t_meta = blank_meta,
     t_created = 0, t_updated = 0, t_archived_at = None\<rparr>"

definition one_thread :: tdb where
  "one_thread = empty_tdb\<lparr>threads := [blank_thread ''a'']\<rparr>"

definition sample_opts :: store_opts where
  "sample_opts = \<lparr>so_default_model = ''chat-default'', so_inline_limit = 3\<rparr>"

lemma one_thread_ok: "log_ok one_thread"
  by (simp add: log_ok_def one_thread_def empty_tdb_def blank_thread_def thread_seqs_def)

lemma append_extends_log_witness:
  "\<exists>n s'. append_events sample_codex sample_opts 7 ''a''
       [RespItem (RespOther ''x''), RespItem (RespOther ''y'')] one_thread = Inr (n, s')
     \<and> n = 2 \<and> map se_seq (load_events ''a'' 1 0 s') = [1..2]"
proof -
  obtain n s' where a: "append_events sample_codex sample_opts 7 ''a''
       [RespItem (RespOther ''x''), RespItem (RespOther ''y'')] one_thread = Inr (n, s')"
    by (auto simp: append_events_def one_thread_def empty_tdb_def blank_thread_def live_thread_def
        sample_codex_def sample_opts_def encode_event_def event_type_of_def row_simps Let_def)
  have "last_seq_of ''a'' one_thread = 0"
    by (simp add: last_seq_of_def one_thread_def empty_tdb_def blank_thread_def row_simps)
  with append_extends_log [OF one_thread_ok a] a show ?thesis by auto
qed

text \<open>A reader that fetches a thread's events in limited chunks and continues after the last number
  it received loses nothing and sees nothing twice: a non-empty chunk followed by everything after its
  last number is everything the thread has from the chunk's start.\<close>

theorem chunked_read_complete:
  assumes "log_ok s" "has_thread tid s" "0 < lim" "load_events tid frm lim s = c" "c \<noteq> []"
  shows "load_events tid frm 0 s = c @ load_events tid (se_seq (last c) + 1) 0 s
    \<and> distinct (map se_seq (load_events tid frm 0 s))"
  using assms store_log.load_chunk [of s tid lim frm c] store_log.load_sorted [of s tid frm] by simp

lemma chunked_read_complete_witness:
  "\<exists>s c. load_events ''a'' 0 1 s = c \<and> length c = 1 \<and> load_events ''a'' 0 0 s = c @ load_events ''a'' 2 0 s"
proof -
  obtain n s' where a: "append_events sample_codex sample_opts 7 ''a''
       [RespItem (RespOther ''x''), RespItem (RespOther ''y'')] one_thread = Inr (n, s')"
    by (auto simp: append_events_def one_thread_def empty_tdb_def blank_thread_def live_thread_def
        sample_codex_def sample_opts_def encode_event_def event_type_of_def row_simps Let_def)
  from append_events_log_ok [OF one_thread_ok a] have ok: "log_ok s'" .
  from append_load [OF one_thread_ok a] have h: "has_thread ''a'' s'" and n: "last_seq_of ''a'' s' = n" "n = 2"
    by (auto simp: last_seq_of_def one_thread_def empty_tdb_def blank_thread_def row_simps)
  define c where "c = load_events ''a'' 0 1 s'"
  have "map se_seq c = [1]"
    using store_log.load_take [of s' "''a''" 1 0] store_log.load_num [of s' "''a''" 0] ok h n
    by (simp add: c_def take_map [symmetric] upto_rec1)
  then have c: "c \<noteq> []" "se_seq (last c) = 1" "length c = 1"
    by (auto simp: map_eq_Cons_conv)
  from chunked_read_complete [OF ok h _ _ c(1), of 1 0] c show ?thesis by (auto simp: c_def)
qed

text \<open>An event never takes more than the inline limit plus a fixed summary. An encoded event either
  carries the whole item, which is then within the limit, or a payload reference that names thread and
  number together with a summary object that records the reference, the event type and the original
  size, which was above the limit.\<close>

theorem encode_event_inline_bound:
  assumes "encode_event cx o1 tid seq item = Inr ev"
  shows "(en_ref ev = None \<longrightarrow> int (length (en_payload ev)) \<le> so_inline_limit o1
            \<and> cx_marshal_item cx item = Some (en_payload ev))
    \<and> (en_ref ev \<noteq> None \<longrightarrow> en_ref ev = Some (payload_ref tid seq)
        \<and> (\<exists>p kvs. cx_marshal_item cx item = Some p \<and> int (length p) > so_inline_limit o1
             \<and> json_parse (en_payload ev) = Some (JObj kvs)
             \<and> map_of kvs ''payload_ref'' = Some (JStr (payload_ref tid seq))
             \<and> map_of kvs ''event_type'' = Some (JStr (en_type ev))
             \<and> map_of kvs ''original_bytes'' = Some (JInt (int (length p)))
             \<and> map_of kvs ''truncated'' = Some (JBool True)))"
proof -
  from assms obtain etype p where e: "event_type_of cx item = Inr etype" "cx_marshal_item cx item = Some p"
    by (auto simp: encode_event_def split: sum.splits option.splits)
  show ?thesis
  proof (cases "int (length p) > so_inline_limit o1")
    case True
    with assms e have ev: "en_ref ev = Some (payload_ref tid seq)" "en_type ev = etype"
      "en_payload ev = truncated_summary (cx_kind cx item) (length p) (payload_ref tid seq) etype"
      by (auto simp: encode_event_def Let_def)
    have "json_parse (en_payload ev) = Some (JObj
       [(''event_type'', JStr etype), (''original_bytes'', JInt (int (length p))),
        (''payload_ref'', JStr (payload_ref tid seq)), (''truncated'', JBool True),
        (''type'', JStr (cx_kind cx item))])"
      unfolding ev(3) truncated_summary_def by (rule json_parse_text) simp
    with ev True e(2) show ?thesis by simp
  next
    case False
    with assms e show ?thesis by (auto simp: encode_event_def Let_def)
  qed
qed

lemma encode_event_inline_bound_witness:
  "\<exists>ev. encode_event sample_codex sample_opts ''a'' 4 (RespItem (RespOther ''long'')) = Inr ev
     \<and> en_ref ev = Some (payload_ref ''a'' 4) \<and> (\<exists>kvs. json_parse (en_payload ev) = Some (JObj kvs))"
proof -
  obtain ev where e: "encode_event sample_codex sample_opts ''a'' 4 (RespItem (RespOther ''long'')) = Inr ev"
    and r: "en_ref ev \<noteq> None"
    by (simp add: encode_event_def event_type_of_def sample_codex_def sample_opts_def Let_def)
  from encode_event_inline_bound [OF e] r e show ?thesis by blast
qed

lemma str_field_type:
  assumes "\<forall>p \<in> set kvs. to_lower (fst p) \<noteq> ''type''"
  shows "str_field ''type'' ((''type'', JStr t) # kvs) = Some t"
proof -
  have "filter (\<lambda>p. to_lower (fst p) = ''type'') kvs = []" using assms by (simp add: filter_empty_conv)
  then show ?thesis
    by (simp add: str_field_def dec_field_def field_values_def as_str_def to_lower_def lower_char_def)
qed

lemma approval_fields_type:
  assumes "args = [] \<or> (\<exists>a. args = [(''arguments'', a)])"
  shows "str_field ''type'' (approval_fields ev args) = Some (ae_type ev)"
  unfolding approval_fields_def append_Cons append_Nil
  by (rule str_field_type) (use assms in \<open>auto simp: omit_empty_def to_lower_def lower_char_def\<close>)

lemma event_item_passes:
  assumes "is_runtime_event (ae_type ev)" "ae_arguments ev = [] \<or> json_parse (ae_arguments ev) = Some a"
  shows "event_type_of cx (event_item ev) = Inr (ae_type ev)"
proof -
  have "\<exists>args. marshal_approval ev = Some (json_text (JObj (approval_fields ev args)))
     \<and> (args = [] \<or> (\<exists>a. args = [(''arguments'', a)] \<and> wf_json a))"
    using assms(2) by (auto simp: marshal_approval_def dest: json_parse_wf)
  then obtain args where m: "marshal_approval ev = Some (json_text (JObj (approval_fields ev args)))"
    "args = [] \<or> (\<exists>a. args = [(''arguments'', a)] \<and> wf_json a)" by blast
  have "wf_json (JObj (approval_fields ev args))"
    using m(2) by (auto simp: approval_fields_def omit_empty_def)
  from json_parse_text [OF this] m approval_fields_type [of args ev]
  have "runtime_event \<lparr>em_type = ae_type ev, em_raw = or_empty (marshal_approval ev), em_body = []\<rparr>"
    using assms(1) by (auto simp: runtime_event_def struct_members_def)
  moreover have "ae_type ev \<noteq> []"
    using assms(1) by (auto simp: is_runtime_event_def event_approval_requested_def event_approval_denied_def)
  ultimately show ?thesis by (simp add: event_type_of_def event_item_def)
qed

text \<open>The approval events that the gate renders pass the event whitelist of the store whatever the
  agent library knows, as long as the tool's arguments are empty or JSON text: the request is typed
  \<open>approval_requested\<close>, and a refused call adds exactly one \<open>approval_denied\<close>.\<close>

theorem approval_events_whitelisted:
  assumes "tc_arguments c = [] \<or> json_parse (tc_arguments c) \<noteq> None"
  shows "map (event_type_of cx) (approval_events c (review c) now)
    = (if tc_kind c = KindRead then [Inr ''approval_requested'']
       else [Inr ''approval_requested'', Inr ''approval_denied''])"
proof -
  have "event_type_of cx (event_item ev) = Inr (ae_type ev)"
    if "ae_arguments ev = tc_arguments c" "is_runtime_event (ae_type ev)" for ev
    using assms that event_item_passes by fastforce
  then show ?thesis
    by (simp add: approval_events_def Let_def is_runtime_event_def
        event_approval_requested_def event_approval_denied_def)
qed

lemma approval_events_whitelisted_witness:
  "map (event_type_of sample_codex) (approval_events \<lparr>tc_qualified = ''q'', tc_server = ''s'', tc_tool = ''t'',
      tc_kind = KindAction, tc_call_id = [], tc_turn_id = [], tc_arguments = ''null''\<rparr>
      (review \<lparr>tc_qualified = ''q'', tc_server = ''s'', tc_tool = ''t'',
      tc_kind = KindAction, tc_call_id = [], tc_turn_id = [], tc_arguments = ''null''\<rparr>) 5)
    = [Inr ''approval_requested'', Inr ''approval_denied'']"
  using json_parse_text [of JNull] by (subst approval_events_whitelisted) simp_all

text \<open>What an appended item reads back as: itself, or, when its text was over the limit, a placeholder
  message if it was a response item and nothing otherwise.\<close>

definition kept_item :: "codex \<Rightarrow> store_opts \<Rightarrow> string \<Rightarrow> int \<Rightarrow> rollout_item \<Rightarrow> rollout_item list" where
  "kept_item cx o1 tid seq i = (case cx_marshal_item cx i of None \<Rightarrow> []
     | Some p \<Rightarrow> if int (length p) \<le> so_inline_limit o1 then [i]
         else if event_type_of cx i = Inr event_type_response_item
           then [RespItem (truncated_placeholder (payload_ref tid seq))] else [])"

lemma decode_append [simp]:
  "decode_rollout_items cx (a @ b) = decode_rollout_items cx a @ decode_rollout_items cx b"
  by (induction a) (auto split: option.splits)

lemma decode_batch:
  assumes "codec_law cx"
  shows "encode_batch cx o1 now tid seq items = Inr rows \<Longrightarrow> insert_rows cx rows = Some rows' \<Longrightarrow>
    decode_rollout_items cx (map stored_of rows')
      = concat (map2 (kept_item cx o1 tid) [seq + 1..seq + int (length items)] items)"
proof (induction items arbitrary: seq rows rows')
  case (Cons i items)
  then obtain ev rs q rs' where
    ev: "encode_event cx o1 tid (seq + 1) i = Inr ev" and
    rs: "encode_batch cx o1 now tid (seq + 1) items = Inr rs" "insert_rows cx rs = Some rs'" and
    q: "cx_jsonb cx (en_payload ev) = Some q" and
    rows': "map stored_of rows' = \<lparr>se_seq = seq + 1, se_turn = en_turn ev, se_type = en_type ev,
        se_payload = q, se_ref = en_ref ev\<rparr> # map stored_of rs'"
    by (auto simp: stored_of_def split: sum.splits option.splits)
  have one: "(case en_ref ev of Some ref \<Rightarrow> (if en_type ev = event_type_response_item
       then [RespItem (truncated_placeholder ref)] else [])
     | None \<Rightarrow> (case cx_unmarshal_item cx q of None \<Rightarrow> [] | Some item \<Rightarrow> [item]))
     = kept_item cx o1 tid (seq + 1) i"
    using ev q assms
    by (auto simp: encode_event_def kept_item_def codec_law_def Let_def split: sum.splits option.splits if_splits)
  have "decode_rollout_items cx (map stored_of rows')
      = kept_item cx o1 tid (seq + 1) i @ decode_rollout_items cx (map stored_of rs')"
    unfolding one [symmetric] rows' by (auto split: option.splits)
  with Cons.IH [OF rs] show ?case by (simp add: upto_rec1 algebra_simps)
qed simp



lemma encode_batch_error:
  "encode_batch cx o1 now tid seq items = Inl e \<Longrightarrow> map_option fst (find_api e) = Some CodeAgentEventUnknown"
  by (induction items arbitrary: seq)
     (auto simp: encode_event_def event_type_of_def Let_def
        split: sum.splits option.splits rollout_item.splits if_splits)

lemma encode_batch_refuses:
  "i \<in> set items \<Longrightarrow> event_type_of cx i = Inl e \<Longrightarrow> \<exists>e'. encode_batch cx o1 now tid seq items = Inl e'"
proof (induction items arbitrary: seq)
  case (Cons a items)
  show ?case
  proof (cases "i = a")
    case True
    with Cons.prems show ?thesis by (simp add: encode_event_def)
  next
    case False
    with Cons.prems Cons.IH [of "seq + 1"] obtain e' where
      "encode_batch cx o1 now tid (seq + 1) items = Inl e'" by auto
    then show ?thesis by (simp split: sum.split)
  qed
qed simp

text \<open>An append is all or nothing. Whatever goes wrong (no tenant, an unknown or unencodable item
  anywhere in the batch, a missing thread, a database fault at any point of the transaction), the
  call returns an error and the whole database is as before; and without a fault an item the
  whitelist refuses makes the call fail with the unknown-event code.\<close>

theorem append_all_or_nothing:
  "(\<forall>e d'. append_rollout_items cx o1 flt ctx now tid items d = (Inl e, d') \<longrightarrow> d' = d)
   \<and> (flt \<noteq> NoFault \<longrightarrow> (\<exists>e. fst (append_rollout_items cx o1 flt ctx now tid items d) = Inl e))
   \<and> (tenant_from_context ctx = Some t \<and> flt = NoFault \<and> i \<in> set items \<and> event_type_of cx i = Inl e0
        \<and> select_one (live_thread tid) (threads (slice d t)) \<noteq> None
      \<longrightarrow> (\<exists>e. append_rollout_items cx o1 flt ctx now tid items d = (Inl e, d)
            \<and> map_option fst (find_api e) = Some CodeAgentEventUnknown))"
proof (intro conjI)
  show "\<forall>e d'. append_rollout_items cx o1 flt ctx now tid items d = (Inl e, d') \<longrightarrow> d' = d"
    unfolding append_rollout_items_def by (auto dest: in_tenant_tx_error)
  show "flt \<noteq> NoFault \<longrightarrow> (\<exists>e. fst (append_rollout_items cx o1 flt ctx now tid items d) = Inl e)"
    unfolding append_rollout_items_def
    by (cases flt) (auto simp: in_tenant_tx_def split: option.splits sum.splits)
  show "tenant_from_context ctx = Some t \<and> flt = NoFault \<and> i \<in> set items \<and> event_type_of cx i = Inl e0
        \<and> select_one (live_thread tid) (threads (slice d t)) \<noteq> None
      \<longrightarrow> (\<exists>e. append_rollout_items cx o1 flt ctx now tid items d = (Inl e, d)
            \<and> map_option fst (find_api e) = Some CodeAgentEventUnknown)"
  proof (intro impI, elim conjE)
    assume a: "tenant_from_context ctx = Some t" "flt = NoFault" "i \<in> set items" "event_type_of cx i = Inl e0"
      "select_one (live_thread tid) (threads (slice d t)) \<noteq> None"
    then obtain r where r: "select_one (live_thread tid) (threads (slice d t)) = Some r" by blast
    from encode_batch_refuses [OF a(3,4)] obtain e where
      e: "encode_batch cx o1 now tid (t_last_seq r) items = Inl e" by blast
    moreover have "items \<noteq> []" using a(3) by auto
    ultimately show "\<exists>e. append_rollout_items cx o1 flt ctx now tid items d = (Inl e, d)
        \<and> map_option fst (find_api e) = Some CodeAgentEventUnknown"
      using a(1,2) r encode_batch_error [OF e]
      by (simp add: append_rollout_items_def in_tenant_tx_ok append_events_def)
  qed
qed

definition one_tenant :: db where
  "one_tenant = \<lparr>tenants = [''t''], slice = (\<lambda>_. one_thread)\<rparr>"

lemma append_all_or_nothing_witness:
  "\<exists>e. append_rollout_items sample_codex sample_opts NoFault (Some ''t'') 7 ''a''
       [RespItem (RespOther ''x''), UnknownItem []] one_tenant = (Inl e, one_tenant)
     \<and> map_option fst (find_api e) = Some CodeAgentEventUnknown"
  using append_all_or_nothing [where cx = sample_codex and ?o1.0 = sample_opts and flt = NoFault
      and ctx = "Some ''t''" and now = 7 and tid = "''a''" and items = "[RespItem (RespOther ''x''), UnknownItem []]"
      and d = one_tenant and t = "''t''" and i = "UnknownItem []" and ?e0.0 = "api_err CodeAgentEventUnknown"]
  by (simp add: tenant_from_context_def one_tenant_def one_thread_def empty_tdb_def blank_thread_def
      live_thread_def row_simps event_type_of_def)

end
