(* ===== verification/GoTime.thy ===== *)
theory GoTime
  imports GoText
begin

text \<open>
  What the program uses of Go's \<^verbatim>\<open>time\<close>: an instant is a number of microseconds
  since 1970 (the precision of the database; earlier instants are not modelled), printed in UTC in
  the layout \<open>RFC3339Nano\<close> and parsed from RFC 3339 with a zone. The main fact is
  \<open>parse_time_text\<close>. The calendar is walked year by year and month by month.
\<close>

section \<open>Digits of a fixed width\<close>

fun pad :: "nat \<Rightarrow> nat \<Rightarrow> string" where
  "pad 0 n = []"
| "pad (Suc w) n = pad w (n div 10) @ [digit_char (n mod 10)]"

definition num_at :: "nat \<Rightarrow> string \<Rightarrow> (nat \<times> string) option" where
  "num_at w s = (if w \<le> length s \<and> list_all is_digit (take w s)
     then Some (digits_val (take w s), drop w s) else None)"

definition lit :: "char \<Rightarrow> string \<Rightarrow> string option" where
  "lit c s = (case s of [] \<Rightarrow> None | d # r \<Rightarrow> if d = c then Some r else None)"

lemma pad_length [simp]: "length (pad w n) = w"
  by (induction w arbitrary: n) auto

lemma pad_digits: "list_all is_digit (pad w n)"
  by (induction w arbitrary: n) auto

lemma digits_val_pad: "n < 10 ^ w \<Longrightarrow> digits_val (pad w n) = n"
proof (induction w arbitrary: n)
  case (Suc w)
  then have "n div 10 < 10 ^ w" by (simp add: less_mult_imp_div_less mult.commute)
  with Suc.IH show ?case by (simp add: digits_val_snoc)
qed (simp add: digits_val_def)

lemma num_at_pad: "n < 10 ^ w \<Longrightarrow> num_at w (pad w n @ r) = Some (n, r)"
  by (simp add: num_at_def pad_digits digits_val_pad)

lemma lit_Cons [simp]: "lit c (c # r) = Some r"
  by (simp add: lit_def)

section \<open>The calendar\<close>

definition leap :: "nat \<Rightarrow> bool" where
  "leap y \<longleftrightarrow> y mod 4 = 0 \<and> (y mod 100 \<noteq> 0 \<or> y mod 400 = 0)"

definition year_len :: "nat \<Rightarrow> nat" where
  "year_len y = (if leap y then 366 else 365)"

definition month_lens :: "nat \<Rightarrow> nat list" where
  "month_lens y = [31, if leap y then 29 else 28, 31, 30, 31, 30, 31, 31, 30, 31, 30, 31]"

function year_walk :: "nat \<Rightarrow> nat \<Rightarrow> nat \<times> nat" where
  "year_walk y d = (if d < year_len y then (y, d) else year_walk (y + 1) (d - year_len y))"
  by pat_completeness auto
termination by (relation "measure snd") (auto simp: year_len_def)

declare year_walk.simps [simp del]

fun month_walk :: "nat list \<Rightarrow> nat \<Rightarrow> nat \<Rightarrow> nat \<times> nat" where
  "month_walk [] m d = (m, d)"
| "month_walk (l # ls) m d = (if d < l then (m, d) else month_walk ls (m + 1) (d - l))"

definition days_to_year :: "nat \<Rightarrow> nat" where
  "days_to_year y = sum_list (map year_len [1970..<y])"

lemma year_walk_days:
  "year_walk y d = (z, e) \<Longrightarrow> y \<le> z \<and> e < year_len z \<and> d = sum_list (map year_len [y..<z]) + e"
proof (induction y d rule: year_walk.induct)
  case (1 y d)
  show ?case
  proof (cases "d < year_len y")
    case True
    with "1.prems" show ?thesis by (subst (asm) year_walk.simps) auto
  next
    case False
    with 1 have ih: "y + 1 \<le> z \<and> e < year_len z \<and> d - year_len y = sum_list (map year_len [y + 1..<z]) + e"
      by (subst (asm) (2) year_walk.simps) auto
    then have "[y..<z] = y # [y + 1..<z]" by (simp add: upt_conv_Cons)
    with ih False show ?thesis by auto
  qed
qed

lemma month_walk_days:
  "month_walk ls m d = (n, e) \<Longrightarrow> d < sum_list ls \<Longrightarrow>
     m \<le> n \<and> n - m < length ls \<and> e < ls ! (n - m) \<and> d = sum_list (take (n - m) ls) + e"
proof (induction ls m d rule: month_walk.induct)
  case (2 l ls m d)
  show ?case
  proof (cases "d < l")
    case False
    with 2 have "m + 1 \<le> n \<and> n - (m + 1) < length ls \<and> e < ls ! (n - (m + 1))
        \<and> d - l = sum_list (take (n - (m + 1)) ls) + e" by auto
    then have "n - m = Suc (n - (m + 1))" "m \<le> n \<and> n - (m + 1) < length ls \<and> e < ls ! (n - (m + 1))
        \<and> d - l = sum_list (take (n - (m + 1)) ls) + e" by auto
    then show ?thesis using False by auto
  qed (use 2 in auto)
qed simp

lemma month_lens_sum: "sum_list (month_lens y) = year_len y"
  by (simp add: month_lens_def year_len_def)

section \<open>Printing and parsing\<close>

definition strip_zeros :: "string \<Rightarrow> string" where
  "strip_zeros s = rev (dropWhile (\<lambda>c. c = CHR ''0'') (rev s))"

definition frac_text :: "nat \<Rightarrow> string" where
  "frac_text us = (if us = 0 then [] else CHR ''.'' # strip_zeros (pad 6 us))"

definition time_text :: "int \<Rightarrow> string" where
  "time_text t = (let s = nat t div 1000000; us = nat t mod 1000000; sod = s mod 86400;
       (y, yd) = year_walk 1970 (s div 86400); (m, md) = month_walk (month_lens y) 1 yd
     in pad 4 y @ CHR ''-'' # pad 2 m @ CHR ''-'' # pad 2 (md + 1) @ CHR ''T'' # pad 2 (sod div 3600)
        @ CHR '':'' # pad 2 (sod div 60 mod 60) @ CHR '':'' # pad 2 (sod mod 60) @ frac_text us @ ''Z'')"

text \<open>The fraction: at least one digit, digits after the sixth are cut off.\<close>

definition parse_frac :: "string \<Rightarrow> (nat \<times> string) option" where
  "parse_frac s = (case s of c # r \<Rightarrow> if c = CHR ''.'' then
       (let ds = takeWhile is_digit r in if ds = [] then None
        else Some (digits_val (take 6 ds) * 10 ^ (6 - length (take 6 ds)), dropWhile is_digit r))
       else Some (0, s) | [] \<Rightarrow> Some (0, []))"

text \<open>The zone: \<open>Z\<close> or a signed offset, in seconds.\<close>

definition parse_zone :: "string \<Rightarrow> int option" where
  "parse_zone s = (if s = ''Z'' then Some 0
     else case s of [] \<Rightarrow> None
       | c # r \<Rightarrow> if c \<noteq> CHR ''+'' \<and> c \<noteq> CHR ''-'' then None
           else (case num_at 2 r of None \<Rightarrow> None
             | Some (h, r1) \<Rightarrow> (case Option.bind (lit (CHR '':'') r1) (num_at 2) of None \<Rightarrow> None
               | Some (mi, r2) \<Rightarrow> if r2 \<noteq> [] \<or> h > 24 \<or> mi \<ge> 60 then None
                   else Some ((if c = CHR ''-'' then -1 else 1) * int (h * 3600 + mi * 60)))))"

definition parse_date :: "string \<Rightarrow> (nat \<times> string) option" where
  "parse_date s0 = (case num_at 4 s0 of None \<Rightarrow> None | Some (y, s1) \<Rightarrow>
     (case Option.bind (lit (CHR ''-'') s1) (num_at 2) of None \<Rightarrow> None | Some (m, s2) \<Rightarrow>
     (case Option.bind (lit (CHR ''-'') s2) (num_at 2) of None \<Rightarrow> None | Some (d, s3) \<Rightarrow>
       if y < 1970 \<or> m = 0 \<or> 12 < m \<or> d = 0 \<or> month_lens y ! (m - 1) < d then None
       else Some (days_to_year y + sum_list (take (m - 1) (month_lens y)) + (d - 1), s3))))"

definition parse_clock :: "string \<Rightarrow> (nat \<times> string) option" where
  "parse_clock s0 = (case num_at 2 s0 of None \<Rightarrow> None | Some (h, s1) \<Rightarrow>
     (case Option.bind (lit (CHR '':'') s1) (num_at 2) of None \<Rightarrow> None | Some (mi, s2) \<Rightarrow>
     (case Option.bind (lit (CHR '':'') s2) (num_at 2) of None \<Rightarrow> None | Some (sec, s3) \<Rightarrow>
       if 24 \<le> h \<or> 60 \<le> mi \<or> 60 \<le> sec then None else Some (h * 3600 + mi * 60 + sec, s3))))"

definition parse_time :: "string \<Rightarrow> int option" where
  "parse_time s0 = (case parse_date s0 of None \<Rightarrow> None | Some (days, s1) \<Rightarrow>
     (case Option.bind (lit (CHR ''T'') s1) parse_clock of None \<Rightarrow> None | Some (sod, s2) \<Rightarrow>
     (case parse_frac s2 of None \<Rightarrow> None | Some (us, s3) \<Rightarrow>
     (case parse_zone s3 of None \<Rightarrow> None | Some off \<Rightarrow>
       Some ((int (days * 86400 + sod) - off) * 1000000 + int us)))))"

text \<open>The instants whose year has four digits.\<close>

definition time_ok :: "int \<Rightarrow> bool" where
  "time_ok t \<longleftrightarrow> 0 \<le> t \<and> fst (year_walk 1970 (nat t div 1000000 div 86400)) < 10000"

lemma digits_val_zeros: "digits_val (ds @ replicate k (CHR ''0'')) = digits_val ds * 10 ^ k"
proof (induction k)
  case (Suc k)
  have "digits_val ((ds @ replicate k (CHR ''0'')) @ [CHR ''0'']) = 10 * digits_val (ds @ replicate k (CHR ''0''))"
    by (simp only: digits_val_snoc) (simp add: digit_val_def)
  then show ?case using Suc by (simp add: replicate_append_same)
qed simp

lemma strip_zeros_split: "s = strip_zeros s @ replicate (length s - length (strip_zeros s)) (CHR ''0'')"
proof -
  let ?z = "\<lambda>c. c = CHR ''0''"
  let ?t = "rev (takeWhile ?z (rev s))"
  have t: "replicate (length ?t) (CHR ''0'') = ?t"
    by (rule replicate_length_same) (auto dest: set_takeWhileD)
  have st: "s = strip_zeros s @ ?t"
    unfolding strip_zeros_def by (simp only: rev_append [symmetric] takeWhile_dropWhile_id rev_rev_ident)
  then have "length s - length (strip_zeros s) = length ?t" by (metis add_diff_cancel_left' length_append)
  with st t show ?thesis by simp
qed

lemma parse_frac_text: "us < 1000000 \<Longrightarrow> parse_frac (frac_text us @ ''Z'') = Some (us, ''Z'')"
proof (cases "us = 0")
  case False
  assume us: "us < 1000000"
  let ?d = "strip_zeros (pad 6 us)"
  have sp: "pad 6 us = ?d @ replicate (6 - length ?d) (CHR ''0'')"
    using strip_zeros_split [of "pad 6 us"] by simp
  then have len: "length ?d \<le> 6" by (metis length_append le_add1 pad_length)
  have dig: "list_all is_digit ?d" using pad_digits [of 6 us] sp by (metis list_all_append)
  have val: "digits_val ?d * 10 ^ (6 - length ?d) = us"
  proof -
    have "digits_val (pad 6 us) = digits_val ?d * 10 ^ (6 - length ?d)"
      by (subst sp) (rule digits_val_zeros)
    with digits_val_pad [of us 6] us show ?thesis by simp
  qed
  with False have ne: "?d \<noteq> []" by (auto simp: digits_val_def)
  have "\<not> is_digit (CHR ''Z'')" by (simp add: is_digit_def)
  with dig have "takeWhile is_digit (?d @ ''Z'') = ?d" "dropWhile is_digit (?d @ ''Z'') = ''Z''"
    by (simp_all add: list_all_iff)
  with False ne len val show ?thesis by (simp add: frac_text_def parse_frac_def Let_def)
qed (simp add: frac_text_def parse_frac_def)

lemma parse_date_text:
  assumes "year_walk 1970 d = (y, yd)" "y < 10000" "month_walk (month_lens y) 1 yd = (m, md)"
  shows "parse_date (pad 4 y @ CHR ''-'' # pad 2 m @ CHR ''-'' # pad 2 (md + 1) @ r) = Some (d, r)"
proof -
  from year_walk_days [OF assms(1)] have y: "1970 \<le> y" "yd < year_len y" "d = days_to_year y + yd"
    by (simp_all add: days_to_year_def)
  with month_walk_days [OF assms(3)] have m: "1 \<le> m" "m - 1 < 12" "md < month_lens y ! (m - 1)"
    "yd = sum_list (take (m - 1) (month_lens y)) + md"
    by (simp_all add: month_lens_sum) (simp add: month_lens_def)
  have "\<forall>l \<in> set (month_lens y). l \<le> 31" by (simp add: month_lens_def)
  moreover have "m - 1 < length (month_lens y)" using m(2) by (simp add: month_lens_def)
  ultimately have "month_lens y ! (m - 1) \<le> 31" using nth_mem by blast
  with m have "md + 1 < 10 ^ 2" "m < 10 ^ 2" "y < 10 ^ 4" using assms(2) by simp_all
  note n = num_at_pad [OF this(1)] num_at_pad [OF this(2)] num_at_pad [OF this(3)]
  from m y show ?thesis by (simp add: parse_date_def n del: One_nat_def pad.simps)
qed

lemma parse_clock_text:
  assumes "sod < 86400"
  shows "parse_clock (pad 2 (sod div 3600) @ CHR '':'' # pad 2 (sod div 60 mod 60) @ CHR '':''
    # pad 2 (sod mod 60) @ r) = Some (sod, r)"
proof -
  have h: "sod div 3600 < 24" using assms by (simp add: less_mult_imp_div_less)
  then have "sod div 3600 < 10 ^ 2" "sod div 60 mod 60 < 10 ^ 2" "sod mod 60 < 10 ^ 2"
    by (simp_all add: order_less_trans [OF mod_less_divisor])
  note n = num_at_pad [OF this(1)] num_at_pad [OF this(2)] num_at_pad [OF this(3)]
  have "sod = sod div 3600 * 3600 + sod div 60 mod 60 * 60 + sod mod 60"
  proof -
    have "sod = (sod div 60) * 60 + sod mod 60" by simp
    moreover have "sod div 60 = sod div 3600 * 60 + sod div 60 mod 60"
      using div_mult_mod_eq [of "sod div 60" 60] by (simp add: div_mult2_eq [symmetric])
    ultimately show ?thesis by linarith
  qed
  moreover have "\<not> 60 \<le> sod div 60 mod 60" "\<not> 60 \<le> sod mod 60" by (simp_all add: not_le)
  ultimately show ?thesis using h by (simp add: parse_clock_def n del: pad.simps)
qed

theorem parse_time_text: "time_ok t \<Longrightarrow> parse_time (time_text t) = Some t"
proof -
  assume ok: "time_ok t"
  define s where "s = nat t div 1000000"
  define us where "us = nat t mod 1000000"
  obtain y yd where y: "year_walk 1970 (s div 86400) = (y, yd)" by (cases "year_walk 1970 (s div 86400)")
  obtain m md where m: "month_walk (month_lens y) 1 yd = (m, md)" by (cases "month_walk (month_lens y) 1 yd")
  have y4: "y < 10000" using ok y by (simp add: time_ok_def s_def)
  have tt: "time_text t = pad 4 y @ CHR ''-'' # pad 2 m @ CHR ''-'' # pad 2 (md + 1) @ CHR ''T''
      # pad 2 (s mod 86400 div 3600) @ CHR '':'' # pad 2 (s mod 86400 div 60 mod 60) @ CHR '':''
      # pad 2 (s mod 86400 mod 60) @ frac_text us @ ''Z''"
    using y m by (simp add: time_text_def s_def us_def Let_def del: pad.simps)
  have "us < 1000000" by (simp add: us_def)
  note f = parse_frac_text [OF this]
  have "int (s div 86400 * 86400 + s mod 86400) * 1000000 + int us = t"
  proof -
    have "(s div 86400 * 86400 + s mod 86400) * 1000000 + us = nat t" by (simp add: s_def us_def)
    moreover have "0 \<le> t" using ok by (simp add: time_ok_def)
    ultimately show ?thesis by (metis of_nat_add of_nat_mult of_nat_numeral int_nat_eq)
  qed
  then show ?thesis
    by (simp only: tt parse_time_def parse_date_text [OF y y4 m] option.case prod.case lit_Cons bind.bind_lunit
        parse_clock_text [of "s mod 86400", OF mod_less_divisor] f zero_less_numeral)
      (simp add: parse_zone_def)
qed

end
