(* ===== verification/Keyset.thy ===== *)
theory Keyset
  imports Prelude
begin

text \<open>
  Keyset pagination as the listings of the program do it: fetch one row more than the page size,
  return the page and, when the extra row is there, a cursor with the key of the page's last row;
  the next page is what lies strictly behind that key. The locale \<open>keyset\<close> is the contract of
  such a fetch; \<open>collect_all\<close> shows that following the cursors lists every row exactly once.
\<close>

definition page_of :: "nat \<Rightarrow> 'r list \<Rightarrow> 'r list \<times> 'r option" where
  "page_of n rs = (take n rs, if n < length rs then Some (last (take n rs)) else None)"

lemma page_of_next_in: "snd (page_of n rs) = Some r \<Longrightarrow> 0 < n \<Longrightarrow> r \<in> set rs"
proof -
  assume "snd (page_of n rs) = Some r" "0 < n"
  then have "take n rs \<noteq> []" "r = last (take n rs)" by (auto simp: page_of_def split: if_splits)
  then have "r \<in> set (take n rs)" by simp
  then show ?thesis by (rule in_set_takeD)
qed

text \<open>A client that follows the cursors, at most \<open>fuel\<close> pages.\<close>

fun collect :: "('k option \<Rightarrow> nat \<Rightarrow> 'r list) \<Rightarrow> ('r \<Rightarrow> 'k) \<Rightarrow> nat \<Rightarrow> nat \<Rightarrow> 'k option \<Rightarrow> 'r list" where
  "collect fetch key sz 0 c = []"
| "collect fetch key sz (Suc fuel) c = (case page_of sz (fetch c (sz + 1)) of
     (items, None) \<Rightarrow> items
   | (items, Some r) \<Rightarrow> items @ collect fetch key sz fuel (Some (key r)))"

locale keyset =
  fixes rows :: "'s \<Rightarrow> 'r list" and key :: "'r \<Rightarrow> 'k" and before :: "'k \<Rightarrow> 'k \<Rightarrow> bool"
    and fetch :: "'s \<Rightarrow> 'k option \<Rightarrow> nat \<Rightarrow> 'r list" and good :: "'s \<Rightarrow> bool"
  assumes before_trans: "before a b \<Longrightarrow> before b c \<Longrightarrow> before a c"
    and before_irrefl: "\<not> before a a"
    and rows_sorted: "good s \<Longrightarrow> sorted_wrt before (map key (rows s))"
    and fetch_first: "good s \<Longrightarrow> fetch s None n = take n (rows s)"
    and fetch_next: "good s \<Longrightarrow> fetch s (Some k) n = take n (filter (\<lambda>r. before k (key r)) (rows s))"
begin

lemma rest_after:
  assumes "good s" "rows s = xs @ y # zs"
  shows "filter (\<lambda>r. before (key y) (key r)) (rows s) = zs"
proof -
  from rows_sorted [OF assms(1)] assms(2)
  have "\<forall>x \<in> set xs. before (key x) (key y)" "\<forall>z \<in> set zs. before (key y) (key z)"
    by (auto simp: sorted_wrt_append)
  moreover then have "\<forall>x \<in> set xs. \<not> before (key y) (key x)"
    using before_trans before_irrefl by blast
  ultimately show ?thesis using assms(2) before_irrefl by (simp add: filter_empty_conv filter_True)
qed

lemma collect_suffix:
  assumes "good s" "0 < sz" "rows s = xs @ zs" "length zs \<le> fuel" "0 < fuel"
    "c = (if xs = [] then None else Some (key (last xs)))"
  shows "collect (fetch s) key sz fuel c = zs"
  using assms(3-)
proof (induction fuel arbitrary: xs zs c)
  case (Suc fuel)
  have f: "fetch s c (sz + 1) = take (sz + 1) zs"
  proof (cases "xs = []")
    case True
    with Suc.prems fetch_first [OF assms(1)] show ?thesis by simp
  next
    case False
    then have "rows s = butlast xs @ last xs # zs" using Suc.prems(1) by simp
    from rest_after [OF assms(1) this] False Suc.prems(4) show ?thesis
      by (simp only: fetch_next [OF assms(1)] if_False)
  qed
  show ?case
  proof (cases "length zs \<le> sz")
    case True
    with f show ?thesis by (simp add: page_of_def)
  next
    case False
    let ?t = "take sz zs"
    have ne: "?t \<noteq> []" using False assms(2) by auto
    have "collect (fetch s) key sz fuel (Some (key (last ?t))) = drop sz zs"
    proof (rule Suc.IH)
      show "rows s = (xs @ ?t) @ drop sz zs" using Suc.prems(1) by simp
      show "length (drop sz zs) \<le> fuel" "0 < fuel" using Suc.prems(2) False assms(2) by auto
      show "Some (key (last ?t)) = (if xs @ ?t = [] then None else Some (key (last (xs @ ?t))))"
        using ne by simp
    qed
    moreover have "page_of sz (fetch s c (sz + 1)) = (?t, Some (last ?t))"
      using False f by (simp add: page_of_def min_def)
    ultimately show ?thesis by simp
  qed
qed simp

lemma collect_all:
  assumes "good s" "0 < sz" "length (rows s) < fuel"
  shows "collect (fetch s) key sz fuel None = rows s"
  using collect_suffix [OF assms(1,2), of "[]" "rows s" fuel None] assms(3) by simp

end

text \<open>A fetch written as the queries are: filter, sort by the key, cut. Both directions of a
  unique linear key are keysets.\<close>

definition sort_dir :: "bool \<Rightarrow> ('r \<Rightarrow> 'k::linorder) \<Rightarrow> 'r list \<Rightarrow> 'r list" where
  "sort_dir asc key rs = (if asc then order_by key rs else rev (order_by key rs))"

definition before_dir :: "bool \<Rightarrow> 'k::linorder \<Rightarrow> 'k \<Rightarrow> bool" where
  "before_dir asc a b \<longleftrightarrow> (if asc then a < b else b < a)"

definition key_fetch :: "bool \<Rightarrow> ('r \<Rightarrow> 'k::linorder) \<Rightarrow> 'r list \<Rightarrow> 'k option \<Rightarrow> nat \<Rightarrow> 'r list" where
  "key_fetch asc key rs c n = take n (sort_dir asc key
     (filter (\<lambda>r. case c of None \<Rightarrow> True | Some k \<Rightarrow> before_dir asc k (key r)) rs))"

lemma sort_dir_set [simp]: "set (sort_dir asc key rs) = set rs"
  by (simp add: sort_dir_def)

lemma sort_dir_sorted:
  assumes "distinct (map key rs)"
  shows "sorted_wrt (before_dir asc) (map key (sort_dir asc key rs))"
proof -
  have "sorted_wrt (<) (map key (order_by key rs))"
    using assms distinct_order_by [OF assms] sorted_order_by [of key rs] by (simp add: strict_sorted_iff)
  then show ?thesis
    by (cases asc) (simp_all add: sort_dir_def before_dir_def [abs_def] rev_map [symmetric] sorted_wrt_rev)
qed

lemma sort_dir_filter: "sort_dir asc key (filter p rs) = filter p (sort_dir asc key rs)"
  by (simp add: sort_dir_def order_by_def filter_sort [symmetric] rev_filter [symmetric])

lemma key_fetch_keyset:
  "keyset (sort_dir asc key) key (before_dir asc) (key_fetch asc key) (\<lambda>rs. distinct (map key rs))"
proof unfold_locales
  show "sorted_wrt (before_dir asc) (map key (sort_dir asc key s))" if "distinct (map key s)" for s
    using that by (rule sort_dir_sorted)
  show "key_fetch asc key s None n = take n (sort_dir asc key s)" for s n
    by (simp add: key_fetch_def)
  show "key_fetch asc key s (Some k) n = take n (filter (\<lambda>r. before_dir asc k (key r)) (sort_dir asc key s))" for s k n
    by (simp add: key_fetch_def sort_dir_filter)
qed (auto simp: before_dir_def split: if_splits)

interpretation kf: keyset "sort_dir asc key" key "before_dir asc" "key_fetch asc key" "\<lambda>rs. distinct (map key rs)"
  for asc and key :: "'r \<Rightarrow> 'k::linorder"
  by (rule key_fetch_keyset)

end
