(* ===== verification/ThreadStore.thy ===== *)
theory ThreadStore
  imports RolloutEvents GoTime Keyset "HOL-Library.Product_Lexorder"
begin

text \<open>
  The thread store, \<^verbatim>\<open>agent-runtime/internal/pgstore/threads.go\<close> and
  \<^verbatim>\<open>thread_meta.go\<close>: creating, reading, listing, patching, archiving and deleting
  threads. The metadata column is kept decoded. Every operation is a transaction body; the
  methods of the store run it with \<open>in_tenant_tx\<close>.
\<close>

section \<open>thread_meta.go\<close>

record create_params =
  cp_id :: string
  cp_parent :: "string option"
  cp_forked_from :: "string option"
  cp_provider :: string
  cp_cwd :: "string option"
  cp_memory_mode :: opaque
  cp_history_mode :: opaque
  cp_originator :: string
  cp_window :: string
  cp_history_base :: "opaque option"
  cp_tools :: "opaque list"
  cp_source :: opaque
  cp_thread_source :: "opaque option"
  cp_base_instructions :: opaque

definition or_default :: "string \<Rightarrow> string \<Rightarrow> string" where
  "or_default v d = (if v = [] then d else v)"

definition meta_from_create :: "codex \<Rightarrow> create_params \<Rightarrow> string \<Rightarrow> thread_meta" where
  "meta_from_create cx p default_provider = blank_meta\<lparr>
     m_provider := or_default (cp_provider p) default_provider,
     m_history_mode := or_default (cp_history_mode p) (cx_paginated cx),
     m_originator := cp_originator p, m_window := cp_window p,
     m_history_base := cp_history_base p, m_tools := cp_tools p,
     m_forked_from := cp_forked_from p,
     m_cwd := or_empty (cp_cwd p),
     m_source := Some (cp_source p), m_thread_source := cp_thread_source p,
     m_nickname := cx_nickname cx (cp_source p), m_role := cx_agent_role cx (cp_source p),
     m_path := cx_agent_path cx (cp_source p),
     m_memory_mode := (if cp_memory_mode p = [] then None else Some (cp_memory_mode p)),
     m_base_instructions := Some (cp_base_instructions p)\<rparr>"

text \<open>A clearable field takes the patch when it has one; a plain one when it is set.\<close>

definition clearable :: "'a option option \<Rightarrow> 'a option \<Rightarrow> 'a option" where
  "clearable p cur = (case p of None \<Rightarrow> cur | Some v \<Rightarrow> v)"

definition set_opt :: "'a option \<Rightarrow> 'a option \<Rightarrow> 'a option" where
  "set_opt p cur = (case p of None \<Rightarrow> cur | Some v \<Rightarrow> Some v)"

definition set_val :: "'a option \<Rightarrow> 'a \<Rightarrow> 'a" where
  "set_val p cur = (case p of None \<Rightarrow> cur | Some v \<Rightarrow> v)"

text \<open>Recency only moves forward.\<close>

definition advance_recency :: "int option \<Rightarrow> int option \<Rightarrow> int option" where
  "advance_recency p cur = (case p of None \<Rightarrow> cur | Some t \<Rightarrow>
     (case cur of None \<Rightarrow> Some t | Some c \<Rightarrow> if t > c then Some t else cur))"

text \<open>A patch of the name is applied first, a patch of the title overrides it.\<close>

definition apply_identity :: "meta_patch \<Rightarrow> thread_meta \<Rightarrow> thread_meta" where
  "apply_identity p m = m\<lparr>
     m_name := set_opt (p_title p) (clearable (p_name p) (m_name m)),
     m_preview := set_val (p_preview p) (m_preview m),
     m_provider := set_val (p_provider p) (m_provider m),
     m_model := set_opt (p_model p) (m_model m),
     m_effort := clearable (p_effort p) (m_effort m),
     m_recency := advance_recency (p_advance_recency p) (m_recency m),
     m_first_msg := set_opt (p_first_msg p) (m_first_msg m)\<rparr>"

definition apply_agent_fields :: "meta_patch \<Rightarrow> thread_meta \<Rightarrow> thread_meta" where
  "apply_agent_fields p m = m\<lparr>
     m_source := set_opt (p_source p) (m_source m),
     m_thread_source := clearable (p_thread_source p) (m_thread_source m),
     m_nickname := clearable (p_nickname p) (m_nickname m),
     m_role := clearable (p_role p) (m_role m),
     m_path := clearable (p_path p) (m_path m)\<rparr>"

definition merge_git_info :: "git_info option \<Rightarrow> git_patch \<Rightarrow> git_info option" where
  "merge_git_info cur p = (let base = (case cur of None \<Rightarrow> \<lparr>gi_sha = None, gi_branch = None, gi_url = None\<rparr>
         | Some g \<Rightarrow> g);
       out = base\<lparr>gi_sha := clearable (gp_sha p) (gi_sha base),
                  gi_branch := clearable (gp_branch p) (gi_branch base),
                  gi_url := clearable (gp_url p) (gi_url base)\<rparr>
     in if gi_sha out = None \<and> gi_branch out = None \<and> gi_url out = None then None else Some out)"

definition apply_runtime_fields :: "meta_patch \<Rightarrow> thread_meta \<Rightarrow> thread_meta" where
  "apply_runtime_fields p m = m\<lparr>
     m_cwd := set_val (p_cwd p) (m_cwd m),
     m_cli_version := set_val (p_cli_version p) (m_cli_version m),
     m_approval := set_opt (p_approval p) (m_approval m),
     m_permission := set_opt (p_permission p) (m_permission m),
     m_token_usage := set_opt (p_token_usage p) (m_token_usage m),
     m_git := (case p_git p of None \<Rightarrow> m_git m | Some g \<Rightarrow> merge_git_info (m_git m) g),
     m_memory_mode := set_opt (p_memory_mode p) (m_memory_mode m)\<rparr>"

definition apply_patch :: "meta_patch \<Rightarrow> thread_meta \<Rightarrow> thread_meta" where
  "apply_patch p m = apply_runtime_fields p (apply_agent_fields p (apply_identity p m))"

text \<open>\<open>StoredThread\<close>, the projection that callers see.\<close>

record stored_thread =
  st_id :: string
  st_preview :: string
  st_name :: "string option"
  st_provider :: string
  st_model :: "string option"
  st_created :: int
  st_updated :: int
  st_recency :: int
  st_archived_at :: "int option"
  st_cwd :: string
  st_cli_version :: string
  st_history_mode :: opaque
  st_thread_source :: "opaque option"
  st_nickname :: "string option"
  st_role :: "string option"
  st_path :: "string option"
  st_git :: "git_info option"
  st_token_usage :: "opaque option"
  st_first_msg :: "string option"
  st_effort :: "opaque option"
  st_forked_from :: "string option"
  st_parent :: "string option"
  st_source :: opaque
  st_approval :: opaque
  st_permission :: opaque
  st_history :: "rollout_item list option"

definition fill_defaults :: "codex \<Rightarrow> thread_meta \<Rightarrow> stored_thread \<Rightarrow> stored_thread" where
  "fill_defaults cx m st = st\<lparr>
     st_source := set_val (m_source m) (cx_default_source cx),
     st_approval := set_val (m_approval m) (cx_on_request cx),
     st_permission := set_val (m_permission m) (cx_read_only cx),
     st_history_mode := or_default (st_history_mode st) (cx_paginated cx)\<rparr>"

definition some_nonempty :: "string \<Rightarrow> string option" where
  "some_nonempty s = (if s = [] then None else Some s)"

definition stored_thread_of :: "codex \<Rightarrow> thread_row \<Rightarrow> stored_thread" where
  "stored_thread_of cx r = (let m = t_meta r in fill_defaults cx m \<lparr>
     st_id = t_id r, st_preview = m_preview m,
     st_name = (if m_name m = None then some_nonempty (t_title r) else m_name m),
     st_provider = m_provider m,
     st_model = (if m_model m = None then some_nonempty (t_model r) else m_model m),
     st_created = t_created r, st_updated = t_updated r,
     st_recency = (case m_recency m of None \<Rightarrow> t_updated r | Some t \<Rightarrow> if t > t_updated r then t else t_updated r),
     st_archived_at = t_archived_at r, st_cwd = m_cwd m, st_cli_version = m_cli_version m,
     st_history_mode = m_history_mode m, st_thread_source = m_thread_source m,
     st_nickname = m_nickname m, st_role = m_role m, st_path = m_path m, st_git = m_git m,
     st_token_usage = m_token_usage m, st_first_msg = m_first_msg m, st_effort = m_effort m,
     st_forked_from = m_forked_from m, st_parent = t_parent r, st_source = [], st_approval = [],
     st_permission = [], st_history = None\<rparr>)"

section \<open>threads.go: creating and checking\<close>

text \<open>\<open>CreateThread\<close>: an existing id inserts nothing; an unknown parent violates the foreign key.\<close>

definition create_thread_tx :: "codex \<Rightarrow> store_opts \<Rightarrow> int \<Rightarrow> create_params \<Rightarrow> unit tx" where
  "create_thread_tx cx o1 now p s =
     (if cp_id p \<in> t_id ` set (threads s) then Inl (StoreErr SkInvalidRequest)
      else if (\<exists>q. cp_parent p = Some q \<and> q \<notin> t_id ` set (threads s)) then Inl (StoreErr SkInternal)
      else Inr ((), s\<lparr>threads := threads s @ [\<lparr>t_id = cp_id p, t_agent = None, t_parent = cp_parent p,
         t_title = [], t_status = Idle, t_model = so_default_model o1, t_pod = None, t_heartbeat = None,
         t_last_seq = 0, t_meta = meta_from_create cx p (so_default_model o1), t_created = now,
         t_updated = now, t_archived_at = None\<rparr>]\<rparr>))"

definition create_thread :: "codex \<Rightarrow> store_opts \<Rightarrow> tx_fault \<Rightarrow> string option \<Rightarrow> int \<Rightarrow> create_params \<Rightarrow> db
    \<Rightarrow> (go_error + unit) \<times> db" where
  "create_thread cx o1 flt ctx now p d = (if cp_id p = [] then (Inl (StoreErr SkInvalidRequest), d)
     else in_tenant_tx flt ctx (create_thread_tx cx o1 now p) d)"

text \<open>\<open>ResumeThread\<close>, \<open>PersistThread\<close>, \<open>FlushThread\<close>, \<open>ShutdownThread\<close> and \<open>DiscardThread\<close> all
  only check that the thread is there.\<close>

definition ensure_exists_tx :: "string \<Rightarrow> unit tx" where
  "ensure_exists_tx tid s = (case current_seq tid s of Inl e \<Rightarrow> Inl e | Inr _ \<Rightarrow> Inr ((), s))"

definition ensure_exists :: "tx_fault \<Rightarrow> string option \<Rightarrow> string \<Rightarrow> db \<Rightarrow> (go_error + unit) \<times> db" where
  "ensure_exists flt ctx tid = in_tenant_tx flt ctx (ensure_exists_tx tid)"

definition resume_thread :: "tx_fault \<Rightarrow> string option \<Rightarrow> string \<Rightarrow> db \<Rightarrow> (go_error + unit) \<times> db" where
  "resume_thread flt ctx tid = in_tenant_tx flt ctx (ensure_exists_tx tid)"

definition append_items :: "codex \<Rightarrow> store_opts \<Rightarrow> tx_fault \<Rightarrow> string option \<Rightarrow> int \<Rightarrow> string
    \<Rightarrow> rollout_item list \<Rightarrow> db \<Rightarrow> (go_error + unit) \<times> db" where
  "append_items cx o1 flt ctx now tid items d = (if items = [] then (Inr (), d)
     else in_tenant_tx flt ctx (\<lambda>s. case append_events cx o1 now tid items s of
        Inl e \<Rightarrow> Inl e | Inr (n, s') \<Rightarrow> Inr ((), s')) d)"

section \<open>threads.go: reading\<close>

text \<open>\<open>readRow\<close>: deleted rows are not there, archived ones only on request.\<close>

definition read_row :: "string \<Rightarrow> bool \<Rightarrow> tdb \<Rightarrow> go_error + thread_row" where
  "read_row tid include_archived s = (case select_one (live_thread tid) (threads s) of
     None \<Rightarrow> Inl (StoreErr SkThreadNotFound)
   | Some r \<Rightarrow> if t_status r = Archived \<and> \<not> include_archived then Inl (StoreErr SkThreadNotFound) else Inr r)"

definition load_history_tx :: "codex \<Rightarrow> string \<Rightarrow> bool \<Rightarrow> rollout_item list tx" where
  "load_history_tx cx tid include_archived s = (case read_row tid include_archived s of Inl e \<Rightarrow> Inl e
     | Inr _ \<Rightarrow> Inr (decode_rollout_items cx (load_events tid 0 0 s), s))"

text \<open>The number of the latest compaction, 0 when there is none.\<close>

definition latest_compaction :: "string \<Rightarrow> tdb \<Rightarrow> int" where
  "latest_compaction tid s = max_or_zero (map e_seq
     (filter (\<lambda>r. e_thread r = tid \<and> e_type r = event_type_compacted) (events s)))"

definition latest_model_context :: "codex \<Rightarrow> string \<Rightarrow> tdb \<Rightarrow> rollout_item list" where
  "latest_model_context cx tid s = decode_rollout_items cx (load_events tid (latest_compaction tid s) 0 s)"

definition load_latest_model_context_tx :: "codex \<Rightarrow> string \<Rightarrow> bool \<Rightarrow> rollout_item list tx" where
  "load_latest_model_context_tx cx tid include_archived s =
     (case read_row tid include_archived s of Inl e \<Rightarrow> Inl e
      | Inr _ \<Rightarrow> Inr (latest_model_context cx tid s, s))"

text \<open>
  \<open>PrepareFork\<close>: only the latest boundary; the fork ends before the number after the last one.
  \<open>seq_to_ordinal\<close> maps to the unsigned ordinals of the library.
\<close>

datatype fork_boundary = BoundaryDefault | BoundaryLatest | BoundaryOther

definition seq_to_ordinal :: "int \<Rightarrow> int" where
  "seq_to_ordinal seq = (if seq < 0 then 0 else seq)"

definition ordinal_to_seq :: "int \<Rightarrow> int" where
  "ordinal_to_seq ord = (if ord > 2 ^ 63 - 1 then 2 ^ 63 - 1 else ord)"

record prepared_fork =
  pf_source :: string
  pf_end_exclusive :: int
  pf_context :: "rollout_item list"

definition prepare_fork_tx :: "codex \<Rightarrow> string \<Rightarrow> prepared_fork tx" where
  "prepare_fork_tx cx tid s = (case read_row tid True s of Inl e \<Rightarrow> Inl e
     | Inr row \<Rightarrow> Inr (\<lparr>pf_source = tid, pf_end_exclusive = (seq_to_ordinal (t_last_seq row) + 1) mod 2 ^ 64,
         pf_context = latest_model_context cx tid s\<rparr>, s))"

definition prepare_fork :: "codex \<Rightarrow> tx_fault \<Rightarrow> string option \<Rightarrow> string \<Rightarrow> fork_boundary \<Rightarrow> db
    \<Rightarrow> (go_error + prepared_fork) \<times> db" where
  "prepare_fork cx flt ctx tid b d = (if b = BoundaryOther then (Inl (StoreErr SkUnsupported), d)
     else in_tenant_tx flt ctx (prepare_fork_tx cx tid) d)"

definition read_thread_tx :: "codex \<Rightarrow> string \<Rightarrow> bool \<Rightarrow> bool \<Rightarrow> stored_thread tx" where
  "read_thread_tx cx tid include_archived include_history s =
     (case read_row tid include_archived s of Inl e \<Rightarrow> Inl e
      | Inr row \<Rightarrow> Inr (if include_history
          then (stored_thread_of cx row)\<lparr>st_history := Some (decode_rollout_items cx (load_events tid 0 0 s))\<rparr>
          else stored_thread_of cx row, s))"

definition read_thread_by_rollout_path :: "go_error + stored_thread" where
  "read_thread_by_rollout_path = Inl (StoreErr SkUnsupported)"

section \<open>threads.go: listing\<close>

text \<open>The cursor: the instant and id of the last row of a page, as JSON in base64. A missing
  instant is Go's zero time.\<close>

definition zero_time :: int where
  "zero_time = - 62135596800 * 1000000"

definition encode_cursor :: "int \<times> string \<Rightarrow> string" where
  "encode_cursor c = b64_encode (json_text (JObj [(''u'', JStr (time_text (fst c))), (''i'', JStr (snd c))]))"

definition as_time :: "json \<Rightarrow> int option" where
  "as_time j = (case j of JStr s \<Rightarrow> parse_time s | _ \<Rightarrow> None)"

definition decode_cursor :: "string option \<Rightarrow> go_error + (int \<times> string) option" where
  "decode_cursor c = (if or_empty c = [] then Inr None
     else case Option.bind (Option.bind (b64_decode (or_empty c)) json_parse) struct_members of
         None \<Rightarrow> Inl (StoreErr SkInvalidRequest)
       | Some kvs \<Rightarrow> (case (dec_field as_time ''u'' kvs, str_field ''i'' kvs) of
           (Some u, Some i) \<Rightarrow> Inr (Some (set_val u zero_time, i))
         | _ \<Rightarrow> Inl (StoreErr SkInvalidRequest)))"

definition normalize_page_size :: "int \<Rightarrow> int" where
  "normalize_page_size n = (if n \<le> 0 then 25 else if n > 200 then 200 else n)"

text \<open>\<open>ILIKE\<close>: \<open>%\<close> any bytes, \<open>_\<close> one byte, a backslash takes the next byte literally.\<close>

function (sequential) like :: "string \<Rightarrow> string \<Rightarrow> bool" where
  "like s [] = (s = [])"
| "like s (c # p) =
     (if c = CHR ''%'' then like s p \<or> (case s of [] \<Rightarrow> False | x # s' \<Rightarrow> like s' (c # p))
      else if c = CHR ''_'' then (case s of [] \<Rightarrow> False | x # s' \<Rightarrow> like s' p)
      else if c = CHR 0x5C then (case p of [] \<Rightarrow> False
        | d # p' \<Rightarrow> (case s of [] \<Rightarrow> False | x # s' \<Rightarrow> x = d \<and> like s' p'))
      else (case s of [] \<Rightarrow> False | x # s' \<Rightarrow> x = c \<and> like s' p))"
  by pat_completeness auto
termination by (relation "measures [\<lambda>(s, p). length s + length p]") auto

definition ilike :: "string \<Rightarrow> string \<Rightarrow> bool" where
  "ilike s pat = like (to_lower s) (to_lower pat)"

record list_filter =
  lf_archived :: bool
  lf_term :: "string option"
  lf_providers :: "string list option"
  lf_asc :: bool

text \<open>The conditions of \<open>listQuery\<close> other than the cursor.\<close>

definition list_match :: "list_filter \<Rightarrow> thread_row \<Rightarrow> bool" where
  "list_match f r \<longleftrightarrow>
     (if lf_archived f then t_status r = Archived else t_status r \<noteq> Archived \<and> t_status r \<noteq> Deleted)
   \<and> (or_empty (lf_term f) = [] \<or> (let pat = ''%'' @ or_empty (lf_term f) @ ''%'' in
        ilike (t_title r) pat \<or> (m_preview (t_meta r) \<noteq> [] \<and> ilike (m_preview (t_meta r)) pat)
        \<or> (case m_name (t_meta r) of None \<Rightarrow> False | Some n \<Rightarrow> ilike n pat)))
   \<and> (case lf_providers f of None \<Rightarrow> True | Some ps \<Rightarrow> ps = []
        \<or> (m_provider (t_meta r) \<noteq> [] \<and> m_provider (t_meta r) \<in> set ps))"

definition thread_key :: "thread_row \<Rightarrow> int \<times> string" where
  "thread_key r = (t_updated r, t_id r)"

text \<open>The query: filter, keyset condition, order, limit.\<close>

definition list_query :: "list_filter \<Rightarrow> (int \<times> string) option \<Rightarrow> nat \<Rightarrow> tdb \<Rightarrow> thread_row list" where
  "list_query f anchor lim s = key_fetch (lf_asc f) thread_key (filter (list_match f) (threads s)) anchor lim"

text \<open>\<open>scanThreadPage\<close>: the row after the page only gives the cursor of the page's last row.\<close>

fun scan_thread_page :: "codex \<Rightarrow> nat \<Rightarrow> stored_thread list \<Rightarrow> thread_row option \<Rightarrow> thread_row list
    \<Rightarrow> stored_thread list \<times> string option" where
  "scan_thread_page cx sz out lst [] = (out, None)"
| "scan_thread_page cx sz out lst (r # rs) = (if length out = sz
     then (out, Some (encode_cursor (case lst of None \<Rightarrow> (zero_time, []) | Some l \<Rightarrow> thread_key l)))
     else scan_thread_page cx sz (out @ [stored_thread_of cx r]) (Some r) rs)"

definition list_threads :: "codex \<Rightarrow> tx_fault \<Rightarrow> string option \<Rightarrow> int \<Rightarrow> string option \<Rightarrow> list_filter \<Rightarrow> db
    \<Rightarrow> (go_error + stored_thread list \<times> string option) \<times> db" where
  "list_threads cx flt ctx page_size cursor f d = (let sz = nat (normalize_page_size page_size) in
     case decode_cursor cursor of Inl e \<Rightarrow> (Inl e, d)
     | Inr anchor \<Rightarrow> in_tenant_tx flt ctx
         (\<lambda>s. Inr (scan_thread_page cx sz [] None (list_query f anchor (sz + 1) s), s)) d)"

definition search_threads :: "codex \<Rightarrow> tx_fault \<Rightarrow> string option \<Rightarrow> int \<Rightarrow> string option \<Rightarrow> bool \<Rightarrow> string \<Rightarrow> bool
    \<Rightarrow> db \<Rightarrow> (go_error + (stored_thread \<times> string) list \<times> string option) \<times> db" where
  "search_threads cx flt ctx page_size cursor archived raw_term asc d = (let term = trim_space raw_term in
     if term = [] then (Inl (StoreErr SkInvalidRequest), d)
     else case list_threads cx flt ctx page_size cursor
        \<lparr>lf_archived = archived, lf_term = Some term, lf_providers = None, lf_asc = asc\<rparr> d of
       (Inl e, d') \<Rightarrow> (Inl e, d')
     | (Inr (items, next_cursor), d') \<Rightarrow> (Inr (map (\<lambda>th. (th, case st_name th of
           Some n \<Rightarrow> if contains_str (to_lower n) (to_lower term) then n else st_preview th
         | None \<Rightarrow> st_preview th)) items, next_cursor), d'))"

section \<open>threads.go: updating, archiving, deleting\<close>

definition write_meta :: "int \<Rightarrow> string \<Rightarrow> thread_meta \<Rightarrow> string \<Rightarrow> tdb \<Rightarrow> tdb" where
  "write_meta now tid m title s = s\<lparr>threads := update_where (\<lambda>r. t_id r = tid)
     (\<lambda>r. r\<lparr>t_meta := m, t_title := title, t_updated := now\<rparr>) (threads s)\<rparr>"

definition update_thread_metadata_tx :: "codex \<Rightarrow> int \<Rightarrow> string \<Rightarrow> bool \<Rightarrow> meta_patch \<Rightarrow> stored_thread tx" where
  "update_thread_metadata_tx cx now tid include_archived p s =
     (case read_row tid include_archived s of Inl e \<Rightarrow> Inl e
      | Inr row \<Rightarrow> if cx_patch_empty cx p then Inr (stored_thread_of cx row, s)
          else (let m = apply_patch p (t_meta row);
                    s' = write_meta now tid m (set_val (m_name m) (t_title row)) s
                in case read_row tid True s' of Inl e \<Rightarrow> Inl e
                   | Inr row' \<Rightarrow> Inr (stored_thread_of cx row', s')))"

definition archive_thread_tx :: "int \<Rightarrow> string \<Rightarrow> unit tx" where
  "archive_thread_tx now tid s = (case read_row tid True s of Inl e \<Rightarrow> Inl e
     | Inr _ \<Rightarrow> Inr ((), s\<lparr>threads := update_where (live_thread tid)
         (\<lambda>r. r\<lparr>t_status := Archived,
            t_archived_at := (case t_archived_at r of None \<Rightarrow> Some now | Some a \<Rightarrow> Some a),
            t_updated := now\<rparr>) (threads s)\<rparr>))"

definition unarchive_thread_tx :: "codex \<Rightarrow> int \<Rightarrow> string \<Rightarrow> stored_thread tx" where
  "unarchive_thread_tx cx now tid s = (case read_row tid True s of Inl e \<Rightarrow> Inl e
     | Inr _ \<Rightarrow> (let s' = s\<lparr>threads := update_where (\<lambda>r. t_id r = tid \<and> t_status r = Archived)
           (\<lambda>r. r\<lparr>t_status := Idle, t_archived_at := None, t_updated := now\<rparr>) (threads s)\<rparr>
         in case read_row tid True s' of Inl e \<Rightarrow> Inl e | Inr row \<Rightarrow> Inr (stored_thread_of cx row, s')))"

text \<open>\<open>DeleteThreads\<close>: one missing thread is an error, a thread that a live thread outside the set
  still names as its parent refuses the whole set.\<close>

definition delete_threads_tx :: "int \<Rightarrow> string list \<Rightarrow> unit tx" where
  "delete_threads_tx now ids s =
     (if count_where (\<lambda>r. t_id r \<in> set ids \<and> t_status r \<noteq> Deleted) (threads s) = 0 \<and> length ids = 1
      then Inl (StoreErr SkThreadNotFound)
      else if count_where (\<lambda>r. (\<exists>q \<in> set ids. t_parent r = Some q) \<and> t_id r \<notin> set ids
             \<and> t_status r \<noteq> Deleted) (threads s) > 0
      then Inl (api_err CodeAgentThreadInUse)
      else Inr ((), s\<lparr>queue := delete_where (\<lambda>q. q_thread q \<in> set ids) (queue s),
             threads := update_where (\<lambda>r. t_id r \<in> set ids)
               (\<lambda>r. r\<lparr>t_status := Deleted, t_updated := now\<rparr>) (threads s)\<rparr>))"

definition delete_threads :: "tx_fault \<Rightarrow> string option \<Rightarrow> int \<Rightarrow> string list \<Rightarrow> db \<Rightarrow> (go_error + unit) \<times> db" where
  "delete_threads flt ctx now ids d = (if ids = [] then (Inr (), d)
     else in_tenant_tx flt ctx (delete_threads_tx now ids) d)"

definition delete_thread :: "tx_fault \<Rightarrow> string option \<Rightarrow> int \<Rightarrow> string \<Rightarrow> db \<Rightarrow> (go_error + unit) \<times> db" where
  "delete_thread flt ctx now tid = delete_threads flt ctx now [tid]"

section \<open>Every operation keeps the log\<close>

lemma log_ok_update_where:
  assumes "log_ok s" "events s' = events s" "threads s' = update_where p f (threads s)"
    "\<And>r. p r \<Longrightarrow> t_id (f r) = t_id r \<and> t_last_seq (f r) = t_last_seq r"
  shows "log_ok s'"
proof (rule log_ok_threads [OF assms(1,2)])
  show "map (\<lambda>r. (t_id r, t_last_seq r)) (threads s') = map (\<lambda>r. (t_id r, t_last_seq r)) (threads s)"
    unfolding assms(3) by (rule update_where_keys) (simp add: assms(4))
qed

lemma log_ok_update [intro]:
  assumes "log_ok s" "\<And>r. p r \<Longrightarrow> t_id (f r) = t_id r \<and> t_last_seq (f r) = t_last_seq r"
  shows "log_ok (s\<lparr>threads := update_where p f (threads s)\<rparr>)"
    "log_ok (s\<lparr>threads := update_where p f (threads s), queue := q\<rparr>)"
    "log_ok (s\<lparr>queue := q, threads := update_where p f (threads s)\<rparr>)"
  using assms by (auto intro: log_ok_update_where [of s _ p f])

lemma create_thread_log_ok:
  assumes "log_ok s" "create_thread_tx cx o1 now p s = Inr (x, s')"
  shows "log_ok s'"
proof -
  from assms(2) have new: "cp_id p \<notin> t_id ` set (threads s)"
    and s': "s' = s\<lparr>threads := threads s @ [\<lparr>t_id = cp_id p, t_agent = None, t_parent = cp_parent p,
         t_title = [], t_status = Idle, t_model = so_default_model o1, t_pod = None, t_heartbeat = None,
         t_last_seq = 0, t_meta = meta_from_create cx p (so_default_model o1), t_created = now,
         t_updated = now, t_archived_at = None\<rparr>]\<rparr>"
    by (auto simp: create_thread_tx_def split: if_splits)
  have "thread_seqs (cp_id p) (events s) = []"
  proof -
    have "e_thread e \<noteq> cp_id p" if "e \<in> set (events s)" for e
    proof -
      have "e_thread e \<in> t_id ` set (threads s)" using assms(1) that by (simp add: log_ok_def)
      with new show ?thesis by auto
    qed
    then show ?thesis by (auto simp: thread_seqs_def filter_empty_conv)
  qed
  with assms(1) new show ?thesis by (auto simp: log_ok_def s')
qed

lemma read_row_Inr:
  "read_row tid a s = Inr r \<Longrightarrow> select_one (live_thread tid) (threads s) = Some r"
  by (auto simp: read_row_def split: option.splits if_splits)

lemma update_meta_log_ok:
  assumes "log_ok s" "update_thread_metadata_tx cx now tid a p s = Inr (x, s')"
  shows "log_ok s'"
proof -
  from assms(2) have "s' = s \<or> (\<exists>m title. s' = write_meta now tid m title s)"
    by (auto simp: update_thread_metadata_tx_def Let_def split: sum.splits if_splits)
  then show ?thesis
    using assms(1) by (auto simp: write_meta_def intro: log_ok_update_where)
qed

lemma archive_log_ok:
  "log_ok s \<Longrightarrow> archive_thread_tx now tid s = Inr (x, s') \<Longrightarrow> log_ok s'"
  by (auto simp: archive_thread_tx_def split: sum.splits)

lemma unarchive_log_ok:
  "log_ok s \<Longrightarrow> unarchive_thread_tx cx now tid s = Inr (x, s') \<Longrightarrow> log_ok s'"
  by (auto simp: unarchive_thread_tx_def Let_def split: sum.splits)

lemma delete_log_ok:
  "log_ok s \<Longrightarrow> delete_threads_tx now ids s = Inr (x, s') \<Longrightarrow> log_ok s'"
  by (auto simp: delete_threads_tx_def split: if_splits)

section \<open>Listing and the keyset contract\<close>

lemma thread_keys_distinct: "log_ok s \<Longrightarrow> distinct (map thread_key (filter p (threads s)))"
  unfolding log_ok_def thread_key_def
  by (auto simp: distinct_map inj_on_def)

text \<open>Scanning a query result gives the page and, when there was an extra row, its cursor.\<close>

lemma scan_thread_page_gen:
  "length out \<le> sz \<Longrightarrow> scan_thread_page cx sz out lst rs =
     (out @ map (stored_thread_of cx) (take (sz - length out) rs),
      if length rs \<le> sz - length out then None
      else Some (encode_cursor (case (if sz = length out then lst else Some (rs ! (sz - length out - 1))) of
          None \<Rightarrow> (zero_time, []) | Some l \<Rightarrow> thread_key l)))"
proof (induction rs arbitrary: out lst)
  case (Cons r rs)
  show ?case
  proof (cases "length out = sz")
    case False
    with Cons.prems have "length out < sz" by simp
    then obtain k where k: "sz - length out = Suc k" by (metis Suc_diff_Suc)
    then have "sz - Suc (length out) = k" by simp
    with Cons.IH [of "out @ [stored_thread_of cx r]" "Some r"] False \<open>length out < sz\<close> k show ?thesis
      by (cases k) (auto simp: Suc_le_eq)
  qed simp
qed simp

lemma scan_page:
  assumes "0 < sz"
  shows "scan_thread_page cx sz [] None rs = (map (stored_thread_of cx) (fst (page_of sz rs)),
    map_option (\<lambda>r. encode_cursor (thread_key r)) (snd (page_of sz rs)))"
proof (cases "length rs \<le> sz")
  case True
  then show ?thesis by (simp add: scan_thread_page_gen page_of_def)
next
  case False
  then have "last (take sz rs) = rs ! (sz - 1)"
    using assms by (subst last_conv_nth) (auto simp: min_def)
  with False assms show ?thesis by (simp add: scan_thread_page_gen page_of_def)
qed

lemma decode_encode_cursor:
  assumes "time_ok (fst c)"
  shows "decode_cursor (Some (encode_cursor c)) = Inr (Some c)"
proof -
  have "b64_encode (json_text (JObj kvs)) \<noteq> []" for kvs
    by (metis b64_decode_encode b64_decode_def b64_values.simps(1) bind.bind_lunit b64_bytes.simps(5)
        json_text_obj_nonempty option.inject)
  moreover have "json_parse (json_text (JObj [(''u'', JStr (time_text (fst c))), (''i'', JStr (snd c))]))
     = Some (JObj [(''u'', JStr (time_text (fst c))), (''i'', JStr (snd c))])"
    by (rule json_parse_text) simp
  moreover have "lower_char (CHR ''u'') \<noteq> lower_char (CHR ''i'')"
    by (simp add: lower_char_def Let_def)
  ultimately show ?thesis
    using assms by (cases c) (auto simp: decode_cursor_def encode_cursor_def struct_members_def dec_field_def
      field_values_def str_field_def to_lower_def as_time_def as_str_def parse_time_text set_val_def)
qed

section \<open>Properties\<close>

text \<open>A client of \<open>ListThreads\<close> that follows the cursors over an unchanged table.\<close>

fun walk_pages :: "codex \<Rightarrow> string option \<Rightarrow> int \<Rightarrow> list_filter \<Rightarrow> db \<Rightarrow> nat \<Rightarrow> string option
    \<Rightarrow> stored_thread list option" where
  "walk_pages cx ctx n f d 0 c = Some []"
| "walk_pages cx ctx n f d (Suc fuel) c = (case fst (list_threads cx NoFault ctx n c f d) of
     Inl e \<Rightarrow> None
   | Inr (items, None) \<Rightarrow> Some items
   | Inr (items, Some c') \<Rightarrow> map_option ((@) items) (walk_pages cx ctx n f d fuel (Some c')))"

definition listing :: "list_filter \<Rightarrow> tdb \<Rightarrow> thread_row list" where
  "listing f s = sort_dir (lf_asc f) thread_key (filter (list_match f) (threads s))"

lemma walk_pages_collect:
  assumes "tenant_from_context ctx = Some t" "\<And>r. r \<in> set (threads (slice d t)) \<Longrightarrow> time_ok (t_updated r)"
    "decode_cursor c = Inr anchor"
  shows "walk_pages cx ctx n f d fuel c = Some (map (stored_thread_of cx)
     (collect (key_fetch (lf_asc f) thread_key (filter (list_match f) (threads (slice d t)))) thread_key
        (nat (normalize_page_size n)) fuel anchor))"
  using assms(3)
proof (induction fuel arbitrary: c anchor)
  case (Suc fuel)
  let ?sz = "nat (normalize_page_size n)"
  let ?rs = "list_query f anchor (?sz + 1) (slice d t)"
  have sz: "0 < ?sz" by (simp add: normalize_page_size_def)
  have l: "fst (list_threads cx NoFault ctx n c f d) = Inr (map (stored_thread_of cx) (fst (page_of ?sz ?rs)),
      map_option (\<lambda>r. encode_cursor (thread_key r)) (snd (page_of ?sz ?rs)))"
    by (simp add: list_threads_def Let_def Suc.prems in_tenant_tx_ok [OF assms(1)] scan_page [OF sz])
  show ?case
  proof (cases "snd (page_of ?sz ?rs)")
    case None
    with l show ?thesis by (cases "page_of ?sz ?rs") (simp add: list_query_def)
  next
    case (Some r)
    then have "r \<in> set ?rs" using page_of_next_in sz by metis
    then have "r \<in> set (threads (slice d t))"
      by (auto simp: list_query_def key_fetch_def dest!: in_set_takeD)
    with assms(2) have "time_ok (fst (thread_key r))" by (simp add: thread_key_def)
    from Suc.IH [OF decode_encode_cursor [OF this]] l Some show ?thesis
      by (cases "page_of ?sz ?rs") (simp add: list_query_def)
  qed
qed simp

text \<open>C5: listing threads page by page lists every matching thread exactly once. A client that starts
  without a cursor and follows the returned cursors over an unchanged table, with any page size,
  filter and direction, obtains exactly the matching threads in the order of the listing; no request
  on the way fails.\<close>

theorem list_threads_complete:
  assumes "tenant_from_context ctx = Some t" "log_ok (slice d t)"
    "\<And>r. r \<in> set (threads (slice d t)) \<Longrightarrow> time_ok (t_updated r)" "length (threads (slice d t)) < fuel"
  shows "walk_pages cx ctx n f d fuel None = Some (map (stored_thread_of cx) (listing f (slice d t)))
    \<and> distinct (map t_id (listing f (slice d t)))
    \<and> set (listing f (slice d t)) = {r \<in> set (threads (slice d t)). list_match f r}"
proof (intro conjI)
  let ?rs = "filter (list_match f) (threads (slice d t))"
  have c: "decode_cursor None = Inr None" by (simp add: decode_cursor_def)
  have "length (sort_dir (lf_asc f) thread_key ?rs) < fuel"
    using le_less_trans [OF length_filter_le assms(4), of "list_match f"]
    by (simp add: sort_dir_def order_by_def)
  then have "collect (key_fetch (lf_asc f) thread_key ?rs) thread_key (nat (normalize_page_size n)) fuel None
      = sort_dir (lf_asc f) thread_key ?rs"
    by (intro kf.collect_all thread_keys_distinct assms(2)) (simp_all add: normalize_page_size_def)
  then show "walk_pages cx ctx n f d fuel None = Some (map (stored_thread_of cx) (listing f (slice d t)))"
    using walk_pages_collect [OF assms(1,3) c] by (simp add: listing_def)
  show "distinct (map t_id (listing f (slice d t)))"
    using assms(2) by (auto simp: listing_def sort_dir_def order_by_def log_ok_def distinct_map
        rev_map [symmetric] intro: inj_on_subset)
  show "set (listing f (slice d t)) = {r \<in> set (threads (slice d t)). list_match f r}"
    by (auto simp: listing_def)
qed

lemma list_threads_complete_witness:
  "walk_pages sample_codex (Some ''t'') 1 \<lparr>lf_archived = False, lf_term = None, lf_providers = None, lf_asc = False\<rparr>
     one_tenant 2 None = Some (map (stored_thread_of sample_codex)
       (listing \<lparr>lf_archived = False, lf_term = None, lf_providers = None, lf_asc = False\<rparr> one_thread))"
proof -
  have t: "tenant_from_context (Some ''t'') = Some ''t''" by (simp add: tenant_from_context_def)
  have s: "slice one_tenant ''t'' = one_thread" by (simp add: one_tenant_def)
  have "time_ok 0" by (simp add: time_ok_def year_walk.simps year_len_def leap_def)
  then have "time_ok (t_updated r)" if "r \<in> set (threads (slice one_tenant ''t''))" for r
    using that by (simp add: s one_thread_def empty_tdb_def blank_thread_def)
  moreover have "length (threads (slice one_tenant ''t'')) < 2"
    by (simp add: s one_thread_def empty_tdb_def)
  ultimately show ?thesis
    using list_threads_complete [OF t, of one_tenant 2] one_thread_ok by (simp add: s)
qed

lemma seq_of_event:
  assumes "log_ok s" "e \<in> set (events s)"
  shows "1 \<le> e_seq e" "has_thread (e_thread e) s"
proof -
  from assms show h: "has_thread (e_thread e) s" by (simp add: log_ok_def has_thread_def)
  have "e_seq e \<in> set (thread_seqs (e_thread e) (events s))" using assms(2) by (auto simp: thread_seqs_def)
  with log_seqs(1) [OF assms(1) h] show "1 \<le> e_seq e" by simp
qed

lemma sorted_split_at:
  "sorted (map f xs) \<Longrightarrow> xs = filter (\<lambda>x. f x < c) xs @ filter (\<lambda>x. \<not> f x < c) xs"
proof (induction xs)
  case (Cons x xs)
  show ?case
  proof (cases "f x < c")
    case False
    with Cons.prems have "\<forall>y \<in> set xs. \<not> f y < c" by auto
    with False show ?thesis by (simp add: filter_empty_conv filter_True)
  qed (use Cons in simp)
qed simp

lemma latest_compaction_cases:
  assumes "log_ok s"
  shows "latest_compaction tid s = 0 \<and> (\<forall>e \<in> set (events s). e_thread e = tid \<longrightarrow> e_type e \<noteq> event_type_compacted)
    \<or> (\<exists>e \<in> set (events s). e_thread e = tid \<and> e_type e = event_type_compacted \<and> e_seq e = latest_compaction tid s
        \<and> 1 \<le> e_seq e)"
proof (cases "filter (\<lambda>r. e_thread r = tid \<and> e_type r = event_type_compacted) (events s) = []")
  case True
  then show ?thesis by (auto simp: latest_compaction_def max_or_zero_def filter_empty_conv)
next
  case False
  then have "latest_compaction tid s \<in> set (map e_seq (filter (\<lambda>r. e_thread r = tid \<and> e_type r = event_type_compacted) (events s)))"
    unfolding latest_compaction_def by (intro max_or_zero_in) simp
  with seq_of_event(1) [OF assms] show ?thesis by force
qed

text \<open>Resuming reads exactly the model context that still counts. What \<open>LoadLatestModelContext\<close>
  decodes is a suffix of the thread's log: it contains no compaction other than its first event, and
  if the thread was ever compacted its first event is the latest compaction; otherwise it is the
  whole log.\<close>

theorem latest_model_context_suffix:
  assumes "log_ok s" "has_thread tid s"
  shows "\<exists>pre suf. load_events tid 1 0 s = pre @ suf
    \<and> latest_model_context cx tid s = decode_rollout_items cx suf
    \<and> (\<forall>ev \<in> set (tl suf). se_type ev \<noteq> event_type_compacted)
    \<and> (if \<exists>ev \<in> set (load_events tid 1 0 s). se_type ev = event_type_compacted
        then suf \<noteq> [] \<and> se_type (hd suf) = event_type_compacted else pre = [])"
proof -
  let ?c = "latest_compaction tid s"
  have types: "se_type ev \<noteq> event_type_compacted" if "ev \<in> set (load_events tid 1 0 s)" "?c < se_seq ev" for ev
  proof
    assume ty: "se_type ev = event_type_compacted"
    from that(1) load_events_all(1) [OF assms] obtain e where
      "e \<in> set (events s)" "e_thread e = tid" "ev = stored_of e" by auto
    with ty have "e_seq e \<le> ?c" unfolding latest_compaction_def
      by (intro max_or_zero_ge) (auto simp: stored_of_def)
    with that(2) \<open>ev = stored_of e\<close> show False by simp
  qed
  have num: "map se_seq (load_events tid ?c 0 s) = [max 1 ?c..last_seq_of tid s]"
    using store_log.load_num assms by blast
  from latest_compaction_cases [OF assms(1), of tid] show ?thesis
  proof (elim disjE bexE conjE)
    assume z: "?c = 0" and no: "\<forall>e \<in> set (events s). e_thread e = tid \<longrightarrow> e_type e \<noteq> event_type_compacted"
    have "load_events tid 0 0 s = load_events tid 1 0 s"
      using store_log.load_filter [of s tid 0] seq_of_event(1) [OF assms(1)] assms
      by (auto simp: load_events_all filter_empty_conv intro!: filter_cong)
    moreover have "\<forall>ev \<in> set (load_events tid 1 0 s). se_type ev \<noteq> event_type_compacted"
      using no by (auto simp: load_events_all [OF assms] stored_of_def)
    ultimately show ?thesis
      using z by - (rule exI [of _ "[]"], rule exI [of _ "load_events tid 1 0 s"],
        cases "load_events tid 1 0 s"; simp add: latest_model_context_def)
  next
    fix e
    assume e: "e \<in> set (events s)" "e_thread e = tid" "e_type e = event_type_compacted" "e_seq e = ?c" "1 \<le> e_seq e"
    let ?suf = "load_events tid ?c 0 s"
    have mem: "stored_of e \<in> set ?suf" "stored_of e \<in> set (load_events tid 1 0 s)"
      using e by (auto simp: load_events_all [OF assms])
    then obtain ev suf' where suf: "?suf = ev # suf'" by (cases ?suf) auto
    have c1: "max 1 ?c = ?c" using e(4,5) by simp
    have "?c \<le> last_seq_of tid s"
      using num suf by (metis c1 list.distinct(1) list.map_disc_iff not_le upto_empty)
    then have ns: "se_seq ev = ?c" "map se_seq suf' = [?c + 1..last_seq_of tid s]"
      using num suf c1 by (simp_all add: upto_rec1)
    have all: "?suf = filter (\<lambda>x. \<not> se_seq x < ?c) (load_events tid 1 0 s)"
      using store_log.load_filter [of s tid ?c] assms by (simp add: not_less)
    have "x \<in> set suf' \<Longrightarrow> ?c < se_seq x \<and> x \<in> set (load_events tid 1 0 s)" for x
    proof -
      assume x: "x \<in> set suf'"
      then have "se_seq x \<in> set (map se_seq suf')" by simp
      then show ?thesis using x all suf by (simp add: ns(2)) (metis filter_is_subset list.set_intros(2) subsetD)
    qed
    then have tl: "\<forall>x \<in> set (tl ?suf). se_type x \<noteq> event_type_compacted" using types suf by simp
    have "distinct (map se_seq ?suf)" unfolding num by simp
    then have "ev = stored_of e"
      by (rule key_inj) (use mem(1) suf ns(1) e(4) in auto)
    then have hd: "se_type (hd ?suf) = event_type_compacted" using suf e(3) by (simp add: stored_of_def)
    have "sorted (map se_seq (load_events tid 1 0 s))" using store_log.load_sorted assms by blast
    from sorted_split_at [OF this, of ?c] all
    have "load_events tid 1 0 s = filter (\<lambda>x. se_seq x < ?c) (load_events tid 1 0 s) @ ?suf" by simp
    moreover have "\<exists>x \<in> set (load_events tid 1 0 s). se_type x = event_type_compacted"
      using mem(2) e(3) by (auto simp: stored_of_def intro!: bexI [of _ "stored_of e"])
    moreover have "?suf \<noteq> []" using suf by simp
    ultimately show ?thesis using tl hd unfolding latest_model_context_def by metis
  qed
qed

lemma latest_model_context_suffix_witness:
  "\<exists>pre suf. load_events ''a'' 1 0 one_thread = pre @ suf
    \<and> latest_model_context sample_codex ''a'' one_thread = decode_rollout_items sample_codex suf"
proof -
  have "has_thread ''a'' one_thread"
    by (simp add: has_thread_def one_thread_def empty_tdb_def blank_thread_def)
  from latest_model_context_suffix [OF one_thread_ok this, of sample_codex] show ?thesis by blast
qed

text \<open>Deleting threads removes them for every reader and never leaves a live child behind. After a
  successful \<open>DeleteThreads\<close>, none of the named threads can be read (archived or not), their queued
  inputs are gone, no live thread outside the set has one of them as its parent, and every other
  thread is untouched.\<close>

theorem delete_threads_effect:
  assumes "delete_threads_tx now ids s = Inr (x, s')"
  shows "(\<forall>tid \<in> set ids. \<forall>a. read_row tid a s' = Inl (StoreErr SkThreadNotFound))
    \<and> (\<forall>q \<in> set (queue s'). q_thread q \<notin> set ids)
    \<and> (\<forall>r \<in> set (threads s'). t_status r \<noteq> Deleted \<longrightarrow> (\<forall>q. t_parent r = Some q \<longrightarrow> q \<notin> set ids))
    \<and> filter (\<lambda>r. t_id r \<notin> set ids) (threads s') = filter (\<lambda>r. t_id r \<notin> set ids) (threads s)
    \<and> events s' = events s"
proof -
  let ?f = "\<lambda>r. r\<lparr>t_status := Deleted, t_updated := now\<rparr>"
  from assms have th: "threads s' = update_where (\<lambda>r. t_id r \<in> set ids) ?f (threads s)"
    and rest: "queue s' = delete_where (\<lambda>q. q_thread q \<in> set ids) (queue s)" "events s' = events s"
    and free: "count_where (\<lambda>r. (\<exists>q \<in> set ids. t_parent r = Some q) \<and> t_id r \<notin> set ids \<and> t_status r \<noteq> Deleted) (threads s) = 0"
    by (auto simp: delete_threads_tx_def split: if_splits)
  have "select_one (live_thread tid) (threads s') = None" if "tid \<in> set ids" for tid
    using that by (auto simp: select_one_None live_thread_def th in_update_where)
  then have "\<forall>tid \<in> set ids. \<forall>a. read_row tid a s' = Inl (StoreErr SkThreadNotFound)"
    by (simp add: read_row_def)
  moreover have "\<forall>r \<in> set (threads s'). t_status r \<noteq> Deleted \<longrightarrow> (\<forall>q. t_parent r = Some q \<longrightarrow> q \<notin> set ids)"
  proof (intro ballI impI allI notI)
    fix r q
    assume r: "r \<in> set (threads s')" "t_status r \<noteq> Deleted" "t_parent r = Some q" "q \<in> set ids"
    then obtain r0 where r0: "r0 \<in> set (threads s)" "r = (if t_id r0 \<in> set ids then ?f r0 else r0)"
      by (auto simp: th in_update_where)
    with r(2) have eq: "r = r0" "t_id r0 \<notin> set ids" by (auto split: if_splits)
    from bspec [OF free [unfolded count_where_zero] r0(1)] r eq show False by blast
  qed
  moreover have "filter (\<lambda>r. t_id r \<notin> set ids) (threads s') = filter (\<lambda>r. t_id r \<notin> set ids) (threads s)"
    unfolding th by (induction "threads s") (auto simp: update_where_def filter_map comp_def intro!: filter_cong map_idI)
  ultimately show ?thesis using rest by (auto simp: delete_where_def)
qed

lemma delete_threads_effect_witness:
  "\<exists>s'. delete_threads_tx 9 [''a''] one_thread = Inr ((), s')
     \<and> (\<forall>a. read_row ''a'' a s' = Inl (StoreErr SkThreadNotFound))"
proof -
  obtain s' where d: "delete_threads_tx 9 [''a''] one_thread = Inr ((), s')"
    by (simp add: delete_threads_tx_def one_thread_def empty_tdb_def blank_thread_def count_where_def)
  from delete_threads_effect [OF d] d show ?thesis by simp
qed

text \<open>Clearing a thread's name does not clear it. When the name had been written to the title column
  (as every rename does), a patch that clears the name leaves the title, and the thread that
  \<open>UpdateThreadMetadata\<close> returns still carries the old name.\<close>

theorem clear_name_is_ignored:
  assumes "read_row tid a s = Inr row" "t_title row = n" "n \<noteq> []" "distinct (map t_id (threads s))"
    "p_name p = Some None" "p_title p = None" "\<not> cx_patch_empty cx p"
  shows "\<exists>st s'. update_thread_metadata_tx cx now tid a p s = Inr (st, s') \<and> st_name st = Some n"
proof -
  from read_row_Inr [OF assms(1)] have sel: "select_one (live_thread tid) (threads s) = Some row" .
  then have live: "live_thread tid row" by (rule select_one_Some_in [THEN conjunct2])
  let ?m = "apply_patch p (t_meta row)"
  let ?s = "write_meta now tid ?m n s"
  have nm: "m_name ?m = None"
    using assms(5,6) by (simp add: apply_patch_def apply_runtime_fields_def apply_agent_fields_def
        apply_identity_def set_opt_def clearable_def)
  have "select_one (live_thread tid) (threads ?s) = Some (row\<lparr>t_meta := ?m, t_title := n, t_updated := now\<rparr>)"
    using sel live by (simp add: write_meta_def select_one_update_where live_thread_def)
  then have "read_row tid True ?s = Inr (row\<lparr>t_meta := ?m, t_title := n, t_updated := now\<rparr>)"
    by (simp add: read_row_def)
  then show ?thesis using assms nm
    by (simp add: update_thread_metadata_tx_def Let_def set_val_def stored_thread_of_def fill_defaults_def
        some_nonempty_def)
qed

definition clear_name_patch :: meta_patch where
  "clear_name_patch = \<lparr>p_name = Some None, p_preview = None, p_title = None, p_provider = None, p_model = None,
     p_effort = None, p_advance_recency = None, p_first_msg = None, p_source = None, p_thread_source = None,
     p_nickname = None, p_role = None, p_path = None, p_cwd = None, p_cli_version = None, p_approval = None,
     p_permission = None, p_token_usage = None, p_git = None, p_memory_mode = None\<rparr>"

lemma clear_name_is_ignored_witness:
  "\<exists>st s'. update_thread_metadata_tx sample_codex 9 ''a'' False clear_name_patch
     (one_thread\<lparr>threads := [(blank_thread ''a'')\<lparr>t_title := ''old''\<rparr>]\<rparr>) = Inr (st, s') \<and> st_name st = Some ''old''"
  by (rule clear_name_is_ignored [where row = "(blank_thread ''a'')\<lparr>t_title := ''old''\<rparr>"])
     (simp_all add: read_row_def live_thread_def blank_thread_def row_simps clear_name_patch_def sample_codex_def)

end
