(* ===== verification/TurnLease.thy ===== *)
theory TurnLease
  imports ThreadStore
begin

text \<open>
  The runtime's view of the store: \<^verbatim>\<open>agent-runtime/internal/pgstore/runtime.go\<close> and
  \<^verbatim>\<open>agents.go\<close>. A turn runs under a lease on the thread row (status, pod, heartbeat);
  inputs wait in a queue until a turn admits them; a scan at start-up frees orphaned leases. At
  the end, all operations of the store are one step relation, whose reachable states keep the log.
\<close>

section \<open>Thread attributes and info\<close>

record thread_attributes =
  ta_agent :: "string option"
  ta_model :: string
  ta_title :: string

definition coalesce :: "'a option \<Rightarrow> 'a option \<Rightarrow> 'a option" where
  "coalesce a b = (case a of None \<Rightarrow> b | Some x \<Rightarrow> Some x)"

definition set_thread_attributes_tx :: "int \<Rightarrow> string \<Rightarrow> thread_attributes \<Rightarrow> unit tx" where
  "set_thread_attributes_tx now tid a s =
     (if count_where (live_thread tid) (threads s) = 0 then Inl (api_err CodeAgentThreadNotFound)
      else if (\<exists>g. ta_agent a = Some g \<and> g \<notin> a_id ` set (agents s)) then Inl (StoreErr SkInternal)
      else Inr ((), s\<lparr>threads := update_where (live_thread tid)
         (\<lambda>r. r\<lparr>t_agent := coalesce (ta_agent a) (t_agent r), t_model := or_default (ta_model a) (t_model r),
                t_title := or_default (ta_title a) (t_title r), t_updated := now\<rparr>) (threads s)\<rparr>))"

record thread_info =
  i_id :: string
  i_agent :: "string option"
  i_parent :: "string option"
  i_title :: string
  i_status :: tstatus
  i_model :: string
  i_pod :: "string option"
  i_heartbeat :: "int option"
  i_last_seq :: int
  i_created :: int
  i_updated :: int

definition info_of_row :: "thread_row \<Rightarrow> thread_info" where
  "info_of_row r = \<lparr>i_id = t_id r, i_agent = t_agent r, i_parent = t_parent r, i_title = t_title r,
     i_status = t_status r, i_model = t_model r, i_pod = t_pod r, i_heartbeat = t_heartbeat r,
     i_last_seq = t_last_seq r, i_created = t_created r, i_updated = t_updated r\<rparr>"

definition get_thread_info :: "tx_fault \<Rightarrow> string option \<Rightarrow> string \<Rightarrow> db \<Rightarrow> go_error + thread_info" where
  "get_thread_info flt ctx tid d = (case fst (in_tenant_tx flt ctx (\<lambda>s.
       case select_one (live_thread tid) (threads s) of None \<Rightarrow> Inl NoRows | Some r \<Rightarrow> Inr (info_of_row r, s)) d) of
     Inr i \<Rightarrow> Inr i
   | Inl e \<Rightarrow> if is_no_rows e then Inl (api_err CodeAgentThreadNotFound) else Inl (store_err e))"

section \<open>The lease\<close>

definition claimable :: "string \<Rightarrow> thread_row \<Rightarrow> bool" where
  "claimable tid r \<longleftrightarrow> t_id r = tid \<and> (t_status r = Idle \<or> t_status r = Interrupted)"

text \<open>\<open>ClaimTurn\<close>: an idle or interrupted thread becomes running for the pod; a thread that exists
  but cannot be claimed answers false.\<close>

definition claim_turn_tx :: "int \<Rightarrow> string \<Rightarrow> string \<Rightarrow> bool tx" where
  "claim_turn_tx now tid pod s =
     (let s' = s\<lparr>threads := update_where (claimable tid)
            (\<lambda>r. r\<lparr>t_status := Running, t_pod := Some pod, t_heartbeat := Some now, t_updated := now\<rparr>) (threads s)\<rparr>
      in if count_where (claimable tid) (threads s) = 1 then Inr (True, s')
         else if select_one (live_thread tid) (threads s') = None then Inl (api_err CodeAgentThreadNotFound)
         else Inr (False, s'))"

definition heartbeat_tx :: "int \<Rightarrow> string \<Rightarrow> string \<Rightarrow> unit tx" where
  "heartbeat_tx now tid pod s = Inr ((), s\<lparr>threads := update_where
     (\<lambda>r. t_id r = tid \<and> t_status r = Running \<and> t_pod r = Some pod) (\<lambda>r. r\<lparr>t_heartbeat := Some now\<rparr>) (threads s)\<rparr>)"

text \<open>\<open>ReleaseTurn\<close> looks at the status only, not at the pod.\<close>

definition release_turn_tx :: "int \<Rightarrow> string \<Rightarrow> tstatus \<Rightarrow> unit tx" where
  "release_turn_tx now tid to s = Inr ((), s\<lparr>threads := update_where (\<lambda>r. t_id r = tid \<and> t_status r = Running)
     (\<lambda>r. r\<lparr>t_status := to, t_pod := None, t_heartbeat := None, t_updated := now\<rparr>) (threads s)\<rparr>)"

definition release_turn :: "tx_fault \<Rightarrow> string option \<Rightarrow> int \<Rightarrow> string \<Rightarrow> tstatus \<Rightarrow> db \<Rightarrow> (go_error + unit) \<times> db" where
  "release_turn flt ctx now tid to d = (if to \<noteq> Idle \<and> to \<noteq> Interrupted then (Inl (api_err CodeValidationFailed), d)
     else in_tenant_tx flt ctx (release_turn_tx now tid to) d)"

definition claim_turn :: "tx_fault \<Rightarrow> string option \<Rightarrow> int \<Rightarrow> string \<Rightarrow> string \<Rightarrow> db \<Rightarrow> (go_error + bool) \<times> db" where
  "claim_turn flt ctx now tid pod = in_tenant_tx flt ctx (claim_turn_tx now tid pod)"

definition heartbeat :: "tx_fault \<Rightarrow> string option \<Rightarrow> int \<Rightarrow> string \<Rightarrow> string \<Rightarrow> db \<Rightarrow> (go_error + unit) \<times> db" where
  "heartbeat flt ctx now tid pod = in_tenant_tx flt ctx (heartbeat_tx now tid pod)"

definition mark_idle_tx :: "int \<Rightarrow> string \<Rightarrow> unit tx" where
  "mark_idle_tx now tid s = Inr ((), s\<lparr>threads := update_where (\<lambda>r. t_id r = tid \<and> t_status r = Interrupted)
     (\<lambda>r. r\<lparr>t_status := Idle, t_pod := None, t_heartbeat := None, t_updated := now\<rparr>) (threads s)\<rparr>)"

section \<open>Recovery\<close>

record stale_thread =
  sr_tenant :: string
  sr_thread :: string
  sr_pod :: "string option"

definition is_stale :: "int \<Rightarrow> int \<Rightarrow> thread_row \<Rightarrow> bool" where
  "is_stale now after r \<longleftrightarrow> t_status r = Running
     \<and> (case t_heartbeat r of None \<Rightarrow> True | Some h \<Rightarrow> h < now - after)"

definition mark_stale_tx :: "string \<Rightarrow> int \<Rightarrow> int \<Rightarrow> stale_thread list tx" where
  "mark_stale_tx tenant now after s = Inr (
     map (\<lambda>r. \<lparr>sr_tenant = tenant, sr_thread = t_id r, sr_pod = t_pod r\<rparr>) (filter (is_stale now after) (threads s)),
     s\<lparr>threads := update_where (is_stale now after)
       (\<lambda>r. r\<lparr>t_status := Interrupted, t_pod := None, t_heartbeat := None, t_updated := now\<rparr>) (threads s)\<rparr>)"

text \<open>\<open>listTenantIDs\<close> reads the system table in order; the flag says whether the query works.\<close>

definition list_tenant_ids :: "bool \<Rightarrow> db \<Rightarrow> go_error + string list" where
  "list_tenant_ids ok d = (if ok then Inr (order_by id (tenants d)) else Inl (StoreErr SkInternal))"

text \<open>Tenant by tenant, each in its own transaction; the first failure ends the scan with an error,
  the tenants before it stay recovered. The faults of the transactions are a list.\<close>

fun mark_stale_each :: "tx_fault list \<Rightarrow> int \<Rightarrow> int \<Rightarrow> string list \<Rightarrow> db \<Rightarrow> (go_error + stale_thread list) \<times> db" where
  "mark_stale_each flts now after [] d = (Inr [], d)"
| "mark_stale_each flts now after (t # ts) d =
     (case in_tenant_tx (case flts of [] \<Rightarrow> NoFault | f # _ \<Rightarrow> f) (with_tenant None t) (mark_stale_tx t now after) d of
        (Inl e, d1) \<Rightarrow> (Inl e, d1)
      | (Inr hits, d1) \<Rightarrow> (case mark_stale_each (tl flts) now after ts d1 of
            (Inl e, d2) \<Rightarrow> (Inl e, d2) | (Inr hits2, d2) \<Rightarrow> (Inr (hits @ hits2), d2)))"

definition mark_stale_running_interrupted :: "bool \<Rightarrow> tx_fault list \<Rightarrow> int \<Rightarrow> int \<Rightarrow> db
    \<Rightarrow> (go_error + stale_thread list) \<times> db" where
  "mark_stale_running_interrupted ok flts now after d = (case list_tenant_ids ok d of
     Inl e \<Rightarrow> (Inl e, d) | Inr ts \<Rightarrow> mark_stale_each flts now after ts d)"

text \<open>
  \<open>EnsureEventPartitions\<close>: the months to prepare, of the instant and of \<open>AddDate(0, 1, 0)\<close>, which
  keeps the day and lets a day that the next month does not have run over into the month after.
\<close>

definition date_of :: "int \<Rightarrow> nat \<times> nat \<times> nat" where
  "date_of t = (let (y, yd) = year_walk 1970 (nat t div 1000000 div 86400);
       (m, md) = month_walk (month_lens y) 1 yd in (y, m, md + 1))"

definition next_month :: "nat \<times> nat \<Rightarrow> nat \<times> nat" where
  "next_month ym = (if snd ym = 12 then (fst ym + 1, 1) else (fst ym, snd ym + 1))"

definition add_one_month :: "nat \<times> nat \<times> nat \<Rightarrow> nat \<times> nat" where
  "add_one_month ymd = (let (y, m, d) = ymd; nm = next_month (y, m)
     in if d \<le> month_lens (fst nm) ! (snd nm - 1) then nm else next_month nm)"

definition partition_months :: "int \<Rightarrow> (nat \<times> nat) list" where
  "partition_months t = (let (y, m, d) = date_of t in [(y, m), add_one_month (y, m, d)])"

section \<open>The input queue\<close>

definition enqueue_input_tx :: "codex \<Rightarrow> int \<Rightarrow> string \<Rightarrow> string \<Rightarrow> queue_kind \<Rightarrow> string \<Rightarrow> unit tx" where
  "enqueue_input_tx cx now tid qid kind payload s = (case current_seq tid s of Inl e \<Rightarrow> Inl e
     | Inr _ \<Rightarrow> (case cx_jsonb cx payload of None \<Rightarrow> Inl (StoreErr SkInternal)
         | Some p \<Rightarrow> if qid \<in> q_id ` set (queue s) then Inl (StoreErr SkInternal)
             else Inr ((), s\<lparr>queue := queue s @ [\<lparr>q_id = qid, q_thread = tid, q_kind = kind, q_payload = p,
                q_admitted = None, q_created = now\<rparr>]\<rparr>)))"

definition waiting :: "string \<Rightarrow> queue_row \<Rightarrow> bool" where
  "waiting tid q \<longleftrightarrow> q_thread q = tid \<and> q_admitted q = None"

definition queue_key :: "queue_row \<Rightarrow> int \<times> string" where
  "queue_key q = (q_created q, q_id q)"

definition pending_inputs :: "string \<Rightarrow> tdb \<Rightarrow> queue_row list" where
  "pending_inputs tid s = order_by queue_key (filter (waiting tid) (queue s))"

definition admit_input_tx :: "string \<Rightarrow> string \<Rightarrow> unit tx" where
  "admit_input_tx qid turn s = Inr ((), s\<lparr>queue := update_where (\<lambda>q. q_id q = qid \<and> q_admitted q = None)
     (\<lambda>q. q\<lparr>q_admitted := Some turn\<rparr>) (queue s)\<rparr>)"

definition delete_input_tx :: "string \<Rightarrow> unit tx" where
  "delete_input_tx qid s = Inr ((), s\<lparr>queue := delete_where (\<lambda>q. q_id q = qid) (queue s)\<rparr>)"

section \<open>Agents and pending threads\<close>

record agent_profile =
  ap_id :: string
  ap_name :: string
  ap_kind :: string
  ap_status :: string
  ap_doc :: string
  ap_model :: string

definition get_agent :: "tx_fault \<Rightarrow> string option \<Rightarrow> string \<Rightarrow> db \<Rightarrow> go_error + agent_profile" where
  "get_agent flt ctx aid d = (case fst (in_tenant_tx flt ctx (\<lambda>s.
       case select_one (\<lambda>a. a_id a = aid) (agents s) of None \<Rightarrow> Inl NoRows
       | Some a \<Rightarrow> Inr (\<lparr>ap_id = a_id a, ap_name = a_name a, ap_kind = a_kind a, ap_status = a_status a,
            ap_doc = a_doc a, ap_model = or_empty (a_model a)\<rparr>, s)) d) of
     Inr p \<Rightarrow> Inr p
   | Inl e \<Rightarrow> if is_no_rows e then Inl (api_err CodeAgentNotFound) else Inl (store_err e))"

definition pending_threads_tx :: "string \<Rightarrow> (string \<times> string) list tx" where
  "pending_threads_tx tenant s = Inr (map (Pair tenant) (order_by id (remdups
     (map q_thread (filter (\<lambda>q. q_admitted q = None
        \<and> (\<exists>r \<in> set (threads s). live_thread (q_thread q) r)) (queue s))))), s)"

fun pending_each :: "tx_fault list \<Rightarrow> string list \<Rightarrow> db \<Rightarrow> go_error + (string \<times> string) list" where
  "pending_each flts [] d = Inr []"
| "pending_each flts (t # ts) d =
     (case fst (in_tenant_tx (case flts of [] \<Rightarrow> NoFault | f # _ \<Rightarrow> f) (with_tenant None t) (pending_threads_tx t) d) of
        Inl e \<Rightarrow> Inl e
      | Inr hits \<Rightarrow> (case pending_each (tl flts) ts d of Inl e \<Rightarrow> Inl e | Inr hits2 \<Rightarrow> Inr (hits @ hits2)))"

definition threads_with_pending_inputs :: "bool \<Rightarrow> tx_fault list \<Rightarrow> db \<Rightarrow> go_error + (string \<times> string) list" where
  "threads_with_pending_inputs ok flts d = (case list_tenant_ids ok d of Inl e \<Rightarrow> Inl e
     | Inr ts \<Rightarrow> pending_each flts ts d)"

section \<open>All operations of the store as one step relation\<close>

text \<open>A step is labelled with what matters to a lease: a claim and its answer, and the three
  operations that can make a thread claimable again.\<close>

datatype store_act = AClaim string string bool | ARelease string | AStale "string list"
  | AUnarchive string | AOther

inductive store_step :: "codex \<Rightarrow> store_opts \<Rightarrow> tdb \<Rightarrow> store_act \<Rightarrow> tdb \<Rightarrow> bool" for cx o1 where
  StepClaim: "claim_turn_tx now tid pod s = Inr (b, s') \<Longrightarrow> store_step cx o1 s (AClaim tid pod b) s'"
| StepRelease: "to = Idle \<or> to = Interrupted \<Longrightarrow> release_turn_tx now tid to s = Inr ((), s') \<Longrightarrow>
    store_step cx o1 s (ARelease tid) s'"
| StepStale: "mark_stale_tx t now after s = Inr (hits, s') \<Longrightarrow> store_step cx o1 s (AStale (map sr_thread hits)) s'"
| StepUnarchive: "unarchive_thread_tx cx now tid s = Inr (st, s') \<Longrightarrow> store_step cx o1 s (AUnarchive tid) s'"
| StepCreate: "create_thread_tx cx o1 now p s = Inr ((), s') \<Longrightarrow> store_step cx o1 s AOther s'"
| StepAppend: "append_events cx o1 now tid items s = Inr (n, s') \<Longrightarrow> store_step cx o1 s AOther s'"
| StepUpdate: "update_thread_metadata_tx cx now tid a patch s = Inr (st, s') \<Longrightarrow> store_step cx o1 s AOther s'"
| StepArchive: "archive_thread_tx now tid s = Inr ((), s') \<Longrightarrow> store_step cx o1 s AOther s'"
| StepDelete: "delete_threads_tx now ids s = Inr ((), s') \<Longrightarrow> store_step cx o1 s AOther s'"
| StepAttrs: "set_thread_attributes_tx now tid at s = Inr ((), s') \<Longrightarrow> store_step cx o1 s AOther s'"
| StepHeartbeat: "heartbeat_tx now tid pod s = Inr ((), s') \<Longrightarrow> store_step cx o1 s AOther s'"
| StepMarkIdle: "mark_idle_tx now tid s = Inr ((), s') \<Longrightarrow> store_step cx o1 s AOther s'"
| StepEnqueue: "enqueue_input_tx cx now tid qid kind payload s = Inr ((), s') \<Longrightarrow> store_step cx o1 s AOther s'"
| StepAdmit: "admit_input_tx qid turn s = Inr ((), s') \<Longrightarrow> store_step cx o1 s AOther s'"
| StepDeleteInput: "delete_input_tx qid s = Inr ((), s') \<Longrightarrow> store_step cx o1 s AOther s'"

inductive_cases store_step_otherE: "store_step cx o1 s AOther s'"
inductive_cases store_step_claimE: "store_step cx o1 s (AClaim tid pod b) s'"
inductive_cases store_step_releaseE: "store_step cx o1 s (ARelease tid) s'"
inductive_cases store_step_staleE: "store_step cx o1 s (AStale ids) s'"
inductive_cases store_step_unarchiveE: "store_step cx o1 s (AUnarchive tid) s'"

text \<open>The invariant: the log, a pod and a heartbeat on every running thread, unique queue ids and no
  queued input without its thread.\<close>

definition lease_row :: "thread_row \<Rightarrow> bool" where
  "lease_row r \<longleftrightarrow> (t_status r = Running \<longrightarrow> t_pod r \<noteq> None \<and> t_heartbeat r \<noteq> None)"

definition store_ok :: "tdb \<Rightarrow> bool" where
  "store_ok s \<longleftrightarrow> log_ok s \<and> (\<forall>r \<in> set (threads s). lease_row r)
     \<and> distinct (map q_id (queue s)) \<and> (\<forall>q \<in> set (queue s). q_thread q \<in> t_id ` set (threads s))"

lemma store_ok_empty: "store_ok empty_tdb"
  by (simp add: store_ok_def log_ok_empty) (simp add: empty_tdb_def)

lemma update_where_ids:
  "(\<And>r. p r \<Longrightarrow> t_id (f r) = t_id r) \<Longrightarrow> t_id ` set (update_where p f rs) = t_id ` set rs"
  using update_where_keys [of p t_id f rs] by (metis set_map)

lemma store_ok_update:
  assumes "store_ok s" "\<And>r. p r \<Longrightarrow> t_id (f r) = t_id r \<and> t_last_seq (f r) = t_last_seq r"
    "\<And>r. p r \<Longrightarrow> lease_row r \<Longrightarrow> lease_row (f r)"
  shows "store_ok (s\<lparr>threads := update_where p f (threads s)\<rparr>)"
  using assms log_ok_update(1) [of s p f] update_where_ids [of p f "threads s"]
  by (auto simp: store_ok_def in_update_where)

lemma log_ok_queue [simp]: "log_ok (s\<lparr>queue := q\<rparr>) = log_ok s"
  by (simp add: log_ok_def)

lemma store_ok_queue:
  assumes "store_ok s" "distinct (map q_id q)" "\<forall>x \<in> set q. q_thread x \<in> t_id ` set (threads s)"
  shows "store_ok (s\<lparr>queue := q\<rparr>)"
  using assms by (auto simp: store_ok_def intro: log_ok_threads)

lemma distinct_delete_where: "distinct (map key rs) \<Longrightarrow> distinct (map key (delete_where p rs))"
  by (simp add: delete_where_def distinct_map_filter)

lemma in_delete_where [simp]: "x \<in> set (delete_where p rs) \<longleftrightarrow> x \<in> set rs \<and> \<not> p x"
  by (auto simp: delete_where_def)

lemma create_thread_store_ok:
  assumes "store_ok s" "create_thread_tx cx o1 now p s = Inr (x, s')"
  shows "store_ok s'"
  using assms create_thread_log_ok [of s cx o1 now p x s']
  by (auto simp: store_ok_def create_thread_tx_def lease_row_def split: if_splits)

lemma append_store_ok:
  assumes "store_ok s" "append_events cx o1 now tid items s = Inr (n, s')"
  shows "store_ok s'"
proof (cases "items = []")
  case True
  with assms show ?thesis by (auto simp: append_events_def dest: current_seq_Inr)
next
  case False
  from append_events_Inr [OF assms(2) False] have
    th: "threads s' = update_where (\<lambda>t. t_id t = tid) (\<lambda>t. t\<lparr>t_last_seq := n, t_updated := now\<rparr>) (threads s)"
    and q: "queue s' = queue s" by metis+
  have "t_id ` set (threads s') = t_id ` set (threads s)" unfolding th by (rule update_where_ids) simp
  moreover have "\<forall>r \<in> set (threads s'). lease_row r"
    using assms(1) by (auto simp: th in_update_where store_ok_def lease_row_def split: if_splits)
  ultimately show ?thesis
    using assms append_events_log_ok [of s] q by (auto simp: store_ok_def)
qed

lemma delete_threads_store_ok:
  assumes "store_ok s" "delete_threads_tx now ids s = Inr (x, s')"
  shows "store_ok s'"
proof -
  from assms(2) have s': "s' = (s\<lparr>queue := delete_where (\<lambda>q. q_thread q \<in> set ids) (queue s)\<rparr>)\<lparr>threads :=
      update_where (\<lambda>r. t_id r \<in> set ids) (\<lambda>r. r\<lparr>t_status := Deleted, t_updated := now\<rparr>)
        (threads (s\<lparr>queue := delete_where (\<lambda>q. q_thread q \<in> set ids) (queue s)\<rparr>))\<rparr>"
    by (auto simp: delete_threads_tx_def split: if_splits)
  have "store_ok (s\<lparr>queue := delete_where (\<lambda>q. q_thread q \<in> set ids) (queue s)\<rparr>)"
    using assms(1) by (intro store_ok_queue) (auto simp: store_ok_def distinct_delete_where)
  then show ?thesis unfolding s' by (rule store_ok_update) (auto simp: lease_row_def)
qed

lemma enqueue_store_ok:
  assumes "store_ok s" "enqueue_input_tx cx now tid qid kind payload s = Inr (x, s')"
  shows "store_ok s'"
proof -
  from assms(2) obtain p where p: "qid \<notin> q_id ` set (queue s)" "select_one (live_thread tid) (threads s) \<noteq> None"
    and s': "s' = s\<lparr>queue := queue s @ [\<lparr>q_id = qid, q_thread = tid, q_kind = kind, q_payload = p,
                q_admitted = None, q_created = now\<rparr>]\<rparr>"
    by (auto simp: enqueue_input_tx_def current_seq_def split: sum.splits option.splits if_splits)
  then obtain r where "select_one (live_thread tid) (threads s) = Some r" by blast
  then have "tid \<in> t_id ` set (threads s)" by (auto simp: live_thread_def dest!: select_one_Some_in)
  then show ?thesis unfolding s'
    using assms(1) p(1) by (intro store_ok_queue) (auto simp: store_ok_def)
qed

lemma store_step_ok:
  assumes "store_step cx o1 s a s'" "store_ok s"
  shows "store_ok s'"
  using assms
proof cases
  case (StepClaim now tid pod b)
  then show ?thesis using assms(2)
    by (auto simp: claim_turn_tx_def Let_def lease_row_def intro!: store_ok_update split: if_splits)
next
  case (StepRelease to now tid)
  then show ?thesis using assms(2)
    by (auto simp: release_turn_tx_def lease_row_def intro!: store_ok_update)
next
  case (StepStale t now after hits)
  then show ?thesis using assms(2)
    by (auto simp: mark_stale_tx_def lease_row_def intro!: store_ok_update)
next
  case (StepUnarchive now tid st)
  then show ?thesis using assms(2)
    by (auto simp: unarchive_thread_tx_def Let_def lease_row_def intro!: store_ok_update split: sum.splits)
next
  case (StepUpdate now tid a patch st)
  then show ?thesis using assms(2)
    by (auto simp: update_thread_metadata_tx_def write_meta_def Let_def lease_row_def
        intro!: store_ok_update split: sum.splits if_splits)
next
  case (StepArchive now tid)
  then show ?thesis using assms(2)
    by (auto simp: archive_thread_tx_def lease_row_def intro!: store_ok_update split: sum.splits)
next
  case (StepAttrs now tid at)
  then show ?thesis using assms(2)
    by (auto simp: set_thread_attributes_tx_def lease_row_def intro!: store_ok_update split: if_splits)
next
  case (StepHeartbeat now tid pod)
  then show ?thesis using assms(2)
    by (auto simp: heartbeat_tx_def lease_row_def intro!: store_ok_update)
next
  case (StepMarkIdle now tid)
  then show ?thesis using assms(2)
    by (auto simp: mark_idle_tx_def lease_row_def intro!: store_ok_update)
next
  case (StepAdmit qid turn)
  then show ?thesis using assms(2) update_where_keys [of "\<lambda>q. q_id q = qid \<and> q_admitted q = None" q_id
      "\<lambda>q. q\<lparr>q_admitted := Some turn\<rparr>" "queue s"]
    by (auto simp: admit_input_tx_def in_update_where store_ok_def intro!: store_ok_queue)
next
  case (StepDeleteInput qid)
  then show ?thesis using assms(2)
    by (auto simp: delete_input_tx_def distinct_delete_where store_ok_def intro!: store_ok_queue)
qed (blast intro: create_thread_store_ok append_store_ok delete_threads_store_ok enqueue_store_ok)+

section \<open>The lease contract\<close>

text \<open>
  What a scheduler relies on: a claim answers true exactly when nobody holds the resource, and
  afterwards it is held; between, only the named actions can free it. \<open>frees a\<close> says of an action
  that it may, \<open>wins a\<close> that it is a successful claim.
\<close>

inductive act_run :: "('s \<Rightarrow> 'a \<Rightarrow> 's \<Rightarrow> bool) \<Rightarrow> 's \<Rightarrow> 'a list \<Rightarrow> 's \<Rightarrow> bool" for step where
  ActNil: "act_run step s [] s"
| ActCons: "step s a s' \<Longrightarrow> act_run step s' acts s'' \<Longrightarrow> act_run step s (a # acts) s''"

inductive_simps act_run_Nil: "act_run step s [] s'"
inductive_simps act_run_Cons: "act_run step s (a # acts) s'"

lemma act_run_append:
  "act_run step s (a @ b) s'' \<longleftrightarrow> (\<exists>s'. act_run step s a s' \<and> act_run step s' b s'')"
  by (induction a arbitrary: s) (auto simp: act_run_Nil act_run_Cons)

locale lease =
  fixes step :: "'s \<Rightarrow> 'a \<Rightarrow> 's \<Rightarrow> bool" and held :: "'s \<Rightarrow> bool"
    and wins :: "'a \<Rightarrow> bool" and frees :: "'a \<Rightarrow> bool" and good :: "'s \<Rightarrow> bool"
  assumes step_good: "good s \<Longrightarrow> step s a s' \<Longrightarrow> good s'"
    and win_free: "good s \<Longrightarrow> step s a s' \<Longrightarrow> wins a \<Longrightarrow> \<not> held s \<and> held s'"
    and keep_held: "good s \<Longrightarrow> step s a s' \<Longrightarrow> held s \<Longrightarrow> \<not> frees a \<Longrightarrow> held s'"
begin

lemma run_held:
  "act_run step s acts s' \<Longrightarrow> good s \<Longrightarrow> held s \<Longrightarrow> \<forall>a \<in> set acts. \<not> frees a \<Longrightarrow> held s' \<and> good s'"
  by (induction rule: act_run.induct) (auto intro: step_good keep_held)

lemma run_good: "act_run step s acts s' \<Longrightarrow> good s \<Longrightarrow> good s'"
  by (induction rule: act_run.induct) (auto intro: step_good)

lemma exclusive:
  assumes "act_run step s acts s'" "good s" "acts = pre @ a # mid @ b # post" "wins a" "wins b"
  shows "\<exists>x \<in> set mid. frees x"
proof (rule ccontr)
  assume no: "\<not> ?thesis"
  from assms(1,3) obtain s1 s2 s3 s4 where r: "act_run step s pre s1" "step s1 a s2"
      "act_run step s2 mid s3" "step s3 b s4"
    by (auto simp: act_run_append act_run_Cons)
  from run_good [OF r(1) assms(2)] have g1: "good s1" .
  with r(2) assms(4) have "held s2" "good s2" by (auto dest: win_free step_good)
  with run_held [OF r(3)] no have "held s3" "good s3" by auto
  with r(4) assms(5) show False by (auto dest: win_free)
qed

end

definition thread_held :: "string \<Rightarrow> tdb \<Rightarrow> bool" where
  "thread_held tid s \<longleftrightarrow> has_thread tid s \<and> (\<forall>r \<in> set (threads s). \<not> claimable tid r)"

definition frees_thread :: "string \<Rightarrow> store_act \<Rightarrow> bool" where
  "frees_thread tid a = (case a of ARelease t \<Rightarrow> t = tid | AStale ids \<Rightarrow> tid \<in> set ids
     | AUnarchive t \<Rightarrow> t = tid | _ \<Rightarrow> False)"

definition wins_thread :: "string \<Rightarrow> store_act \<Rightarrow> bool" where
  "wins_thread tid a = (case a of AClaim t pod b \<Rightarrow> t = tid \<and> b | _ \<Rightarrow> False)"

lemma thread_held_update:
  assumes "thread_held tid s" "\<And>r. p r \<Longrightarrow> t_id (f r) = t_id r"
    "\<And>r. r \<in> set (threads s) \<Longrightarrow> p r \<Longrightarrow> claimable tid (f r) \<Longrightarrow> claimable tid r"
  shows "thread_held tid (s\<lparr>threads := update_where p f (threads s)\<rparr>)"
  using assms update_where_ids [of p f "threads s"]
  by (auto simp: thread_held_def has_thread_def in_update_where split: if_splits)

lemma thread_held_same: "threads s' = threads s \<Longrightarrow> thread_held tid s' = thread_held tid s"
  by (simp add: thread_held_def has_thread_def)

lemma claim_true:
  assumes "log_ok s" "claim_turn_tx now tid pod s = Inr (True, s')"
  shows "\<not> thread_held tid s" "thread_held tid s'"
proof -
  from assms(2) have c: "count_where (claimable tid) (threads s) = 1"
    and s': "s' = s\<lparr>threads := update_where (claimable tid)
       (\<lambda>r. r\<lparr>t_status := Running, t_pod := Some pod, t_heartbeat := Some now, t_updated := now\<rparr>) (threads s)\<rparr>"
    by (auto simp: claim_turn_tx_def Let_def split: if_splits)
  then obtain r where r: "r \<in> set (threads s)" "claimable tid r"
    using count_where_zero [of "claimable tid" "threads s"] by auto
  then show "\<not> thread_held tid s" by (auto simp: thread_held_def)
  let ?f = "\<lambda>r. r\<lparr>t_status := Running, t_pod := Some pod, t_heartbeat := Some now, t_updated := now\<rparr>"
  have "\<not> claimable tid q" if q: "q \<in> set (threads s')" for q
  proof -
    from q obtain r0 where "q = (if claimable tid r0 then ?f r0 else r0)" by (auto simp: s' in_update_where)
    then show ?thesis by (cases "claimable tid r0") (simp_all add: claimable_def)
  qed
  moreover have "has_thread tid s'"
    using r update_where_ids [of "claimable tid" ?f "threads s"]
    by (auto simp: has_thread_def s' claimable_def)
  ultimately show "thread_held tid s'" by (simp add: thread_held_def)
qed

lemma other_keeps_held:
  assumes "store_ok s" "store_step cx o1 s a s'" "thread_held tid s" "\<not> frees_thread tid a"
  shows "thread_held tid s'"
  using assms(2)
proof cases
  case (StepClaim now t pod b)
  then show ?thesis using assms(3)
    by (auto simp: claim_turn_tx_def Let_def claimable_def intro!: thread_held_update split: if_splits)
next
  case (StepRelease to now t)
  then show ?thesis using assms(3,4)
    by (auto simp: release_turn_tx_def frees_thread_def claimable_def intro!: thread_held_update)
next
  case (StepStale t now after hits)
  then show ?thesis using assms(3,4)
    by (auto simp: mark_stale_tx_def frees_thread_def claimable_def image_iff intro!: thread_held_update)
next
  case (StepUnarchive now t st)
  then show ?thesis using assms(3,4)
    by (auto simp: unarchive_thread_tx_def Let_def frees_thread_def claimable_def
        intro!: thread_held_update split: sum.splits)
next
  case (StepCreate now p)
  then show ?thesis using assms(3)
    by (auto simp: create_thread_tx_def thread_held_def has_thread_def claimable_def split: if_splits)
next
  case (StepAppend now t items n)
  show ?thesis
  proof (cases "items = []")
    case True
    with StepAppend assms(3) show ?thesis by (auto simp: append_events_def dest: current_seq_Inr)
  next
    case False
    from append_events_Inr [OF StepAppend(2) False] have
      "threads s' = update_where (\<lambda>r. t_id r = t) (\<lambda>r. r\<lparr>t_last_seq := n, t_updated := now\<rparr>) (threads s)" by metis
    then have "thread_held tid s' = thread_held tid (s\<lparr>threads :=
        update_where (\<lambda>r. t_id r = t) (\<lambda>r. r\<lparr>t_last_seq := n, t_updated := now\<rparr>) (threads s)\<rparr>)"
      by (simp add: thread_held_same)
    then show ?thesis using assms(3) by (auto simp: claimable_def intro!: thread_held_update)
  qed
next
  case (StepUpdate now t a patch st)
  then show ?thesis using assms(3)
    by (auto simp: update_thread_metadata_tx_def write_meta_def Let_def claimable_def
        intro!: thread_held_update split: sum.splits if_splits)
next
  case (StepArchive now t)
  then show ?thesis using assms(3)
    by (auto simp: archive_thread_tx_def claimable_def intro!: thread_held_update split: sum.splits)
next
  case (StepDelete now ids)
  then show ?thesis using assms(3) update_where_ids [of "\<lambda>r. t_id r \<in> set ids"
      "\<lambda>r. r\<lparr>t_status := Deleted, t_updated := now\<rparr>" "threads s"]
    by (auto simp: delete_threads_tx_def claimable_def thread_held_def has_thread_def in_update_where split: if_splits)
next
  case (StepAttrs now t at)
  then show ?thesis using assms(3)
    by (auto simp: set_thread_attributes_tx_def claimable_def intro!: thread_held_update split: if_splits)
next
  case (StepHeartbeat now t pod)
  then show ?thesis using assms(3)
    by (auto simp: heartbeat_tx_def claimable_def intro!: thread_held_update)
next
  case (StepMarkIdle now t)
  then show ?thesis using assms(3)
    by (auto simp: mark_idle_tx_def claimable_def intro!: thread_held_update)
next
  case (StepEnqueue now t qid kind payload)
  then show ?thesis using assms(3) thread_held_same [of s' s tid]
    by (auto simp: enqueue_input_tx_def split: sum.splits option.splits if_splits)
qed (use assms(3) thread_held_same [of s' s tid] in \<open>auto simp: admit_input_tx_def delete_input_tx_def\<close>)

interpretation turn_lease: lease "store_step cx o1" "thread_held tid" "wins_thread tid" "frees_thread tid" store_ok
  for cx o1 tid
proof unfold_locales
  show "store_ok s'" if "store_ok s" "store_step cx o1 s a s'" for s a s'
    using that by (blast intro: store_step_ok)
  show "\<not> thread_held tid s \<and> thread_held tid s'" if "store_ok s" "store_step cx o1 s a s'" "wins_thread tid a" for s a s'
    using that claim_true
    by (fastforce simp: wins_thread_def store_ok_def split: store_act.splits elim: store_step_claimE)
  show "thread_held tid s'" if "store_ok s" "store_step cx o1 s a s'" "thread_held tid s" "\<not> frees_thread tid a" for s a s'
    using that by (blast intro: other_keeps_held)
qed

text \<open>What a claim of a claimable thread does.\<close>

lemma count_claimable:
  assumes "log_ok s" "r \<in> set (threads s)" "claimable tid r"
  shows "count_where (claimable tid) (threads s) = 1"
proof -
  have "count_where (claimable tid) (threads s) \<le> 1"
    using assms(1) by (intro count_where_unique [of t_id _ _ tid]) (auto simp: log_ok_def claimable_def)
  moreover have "count_where (claimable tid) (threads s) \<noteq> 0" using assms by (auto simp: count_where_zero)
  ultimately show ?thesis by simp
qed

lemma claim_succeeds:
  assumes "log_ok s" "r \<in> set (threads s)" "claimable tid r"
  obtains s' r' where "claim_turn_tx now tid pod s = Inr (True, s')" "log_ok s'" "r' \<in> set (threads s')"
    "t_id r' = tid" "t_status r' = Running" "t_pod r' = Some pod" "t_heartbeat r' = Some now"
proof -
  let ?f = "\<lambda>r. r\<lparr>t_status := Running, t_pod := Some pod, t_heartbeat := Some now, t_updated := now\<rparr>"
  let ?s = "s\<lparr>threads := update_where (claimable tid) ?f (threads s)\<rparr>"
  have "claim_turn_tx now tid pod s = Inr (True, ?s)"
    using count_claimable [OF assms] by (simp add: claim_turn_tx_def Let_def)
  moreover have "?f r \<in> set (threads ?s)" using assms by (force simp: in_update_where)
  moreover have "log_ok ?s" using assms(1) by (intro log_ok_update(1)) auto
  ultimately show thesis using that assms(3) by (simp add: claimable_def)
qed

lemma stale_frees:
  assumes "log_ok s" "r \<in> set (threads s)" "is_stale now after r"
  obtains hits s' r' where "mark_stale_tx t now after s = Inr (hits, s')" "log_ok s'" "t_id r \<in> sr_thread ` set hits"
    "r' \<in> set (threads s')" "claimable (t_id r) r'"
proof -
  let ?f = "\<lambda>r. r\<lparr>t_status := Interrupted, t_pod := None, t_heartbeat := None, t_updated := now\<rparr>"
  let ?s = "s\<lparr>threads := update_where (is_stale now after) ?f (threads s)\<rparr>"
  have "?f r \<in> set (threads ?s)" using assms by (force simp: in_update_where)
  moreover have "log_ok ?s" using assms(1) by (intro log_ok_update(1)) auto
  ultimately show thesis using that [of _ ?s "?f r"] assms by (force simp: mark_stale_tx_def claimable_def)
qed

lemma release_frees:
  assumes "log_ok s" "r \<in> set (threads s)" "t_id r = tid" "t_status r = Running"
  obtains s' r' where "release_turn_tx now tid Idle s = Inr ((), s')" "log_ok s'"
    "r' \<in> set (threads s')" "claimable tid r'"
proof -
  let ?f = "\<lambda>r. r\<lparr>t_status := Idle, t_pod := None, t_heartbeat := None, t_updated := now\<rparr>"
  let ?s = "s\<lparr>threads := update_where (\<lambda>r. t_id r = tid \<and> t_status r = Running) ?f (threads s)\<rparr>"
  have "?f r \<in> set (threads ?s)" using assms by (force simp: in_update_where)
  moreover have "log_ok ?s" using assms(1) by (intro log_ok_update(1)) auto
  ultimately show thesis using that [of ?s "?f r"] assms by (simp add: release_turn_tx_def claimable_def)
qed

section \<open>Properties\<close>


definition sample_create :: "string \<Rightarrow> create_params" where
  "sample_create tid = \<lparr>cp_id = tid, cp_parent = None, cp_forked_from = None, cp_provider = [], cp_cwd = None,
     cp_memory_mode = [], cp_history_mode = [], cp_originator = [], cp_window = [], cp_history_base = None,
     cp_tools = [], cp_source = [], cp_thread_source = None, cp_base_instructions = []\<rparr>"


text \<open>C6: a turn has one holder at a time as far as the store decides. In any run of the store's
  operations, between two successful claims of a thread lies an operation that gave it back: a
  release, a recovery scan that reported it stale, or an unarchive. Appending, heartbeating,
  archiving, deleting, queueing and patching never make a claimed thread claimable.\<close>

theorem turn_lease_exclusive:
  assumes "act_run (store_step cx o1) empty_tdb (pre @ AClaim tid p True # mid @ AClaim tid q True # post) s"
  shows "\<exists>x \<in> set mid. frees_thread tid x"
  using turn_lease.exclusive [OF assms store_ok_empty refl, of tid] by (simp add: wins_thread_def)

text \<open>A release is not fenced by the pod. Whenever a thread is claimable: pod A claims it, its
  heartbeat grows old and the recovery scan gives the thread back, pod B claims it, and then A's late
  \<open>ReleaseTurn\<close> takes the thread away from B, so that a third claim succeeds while B is still running
  its turn.\<close>

theorem release_not_fenced:
  assumes "log_ok s" "r \<in> set (threads s)" "claimable tid r" "t1 < t2 - after"
  shows "\<exists>s1 hits s2 s3 s4 s5. claim_turn_tx t1 tid podA s = Inr (True, s1)
    \<and> mark_stale_tx tenant t2 after s1 = Inr (hits, s2) \<and> tid \<in> sr_thread ` set hits
    \<and> claim_turn_tx t3 tid podB s2 = Inr (True, s3)
    \<and> release_turn_tx t4 tid Idle s3 = Inr ((), s4)
    \<and> claim_turn_tx t5 tid podC s4 = Inr (True, s5)"
proof -
  from claim_succeeds [OF assms(1-3)] obtain s1 r1 where 1: "claim_turn_tx t1 tid podA s = Inr (True, s1)"
    "log_ok s1" "r1 \<in> set (threads s1)" "t_id r1 = tid" "t_status r1 = Running" "t_heartbeat r1 = Some t1" by metis
  have "is_stale t2 after r1" using 1(5,6) assms(4) by (simp add: is_stale_def)
  from stale_frees [OF 1(2,3) this, of tenant] 1(4) obtain hits s2 r2 where
    2: "mark_stale_tx tenant t2 after s1 = Inr (hits, s2)" "log_ok s2" "tid \<in> sr_thread ` set hits"
    "r2 \<in> set (threads s2)" "claimable tid r2" by metis
  from claim_succeeds [OF 2(2,4,5)] obtain s3 r3 where 3: "claim_turn_tx t3 tid podB s2 = Inr (True, s3)"
    "log_ok s3" "r3 \<in> set (threads s3)" "t_id r3 = tid" "t_status r3 = Running" by metis
  from release_frees [OF 3(2-5)] obtain s4 r4 where 4: "release_turn_tx t4 tid Idle s3 = Inr ((), s4)"
    "log_ok s4" "r4 \<in> set (threads s4)" "claimable tid r4" by metis
  from claim_succeeds [OF 4(2-4)] obtain s5 where "claim_turn_tx t5 tid podC s4 = Inr (True, s5)" by metis
  with 1 2 3 4 show ?thesis by blast
qed

lemma release_not_fenced_witness:
  "\<exists>s1 hits s2 s3 s4 s5. claim_turn_tx 0 ''a'' ''A'' one_thread = Inr (True, s1)
    \<and> mark_stale_tx ''t'' 100 50 s1 = Inr (hits, s2) \<and> ''a'' \<in> sr_thread ` set hits
    \<and> claim_turn_tx 101 ''a'' ''B'' s2 = Inr (True, s3)
    \<and> release_turn_tx 102 ''a'' Idle s3 = Inr ((), s4)
    \<and> claim_turn_tx 103 ''a'' ''C'' s4 = Inr (True, s5)"
  by (rule release_not_fenced [OF one_thread_ok, where r = "blank_thread ''a''"])
     (simp_all add: one_thread_def empty_tdb_def blank_thread_def claimable_def)

lemma turn_lease_exclusive_witness:
  "\<exists>s. act_run (store_step sample_codex sample_opts) empty_tdb
     ([AOther] @ AClaim ''a'' ''A'' True # [ARelease ''a''] @ AClaim ''a'' ''B'' True # []) s
     \<and> (\<exists>x \<in> set [ARelease ''a'']. frees_thread ''a'' x)"
proof -
  obtain s1 where c: "create_thread_tx sample_codex sample_opts 1 (sample_create ''a'') empty_tdb = Inr ((), s1)"
    and r: "\<exists>r \<in> set (threads s1). claimable ''a'' r"
    by (simp add: create_thread_tx_def empty_tdb_def sample_create_def claimable_def)
  from create_thread_log_ok [OF log_ok_empty c] r obtain s2 r2 where
    k: "claim_turn_tx 2 ''a'' ''A'' s1 = Inr (True, s2)" and
    2: "log_ok s2" "r2 \<in> set (threads s2)" "t_id r2 = ''a''" "t_status r2 = Running"
    by (metis claim_succeeds)
  from release_frees [OF 2] obtain s3 r3 where
    f: "release_turn_tx 3 ''a'' Idle s2 = Inr ((), s3)" and 3: "log_ok s3" "r3 \<in> set (threads s3)" "claimable ''a'' r3"
    by metis
  from claim_succeeds [OF 3] obtain s4 where g: "claim_turn_tx 4 ''a'' ''B'' s3 = Inr (True, s4)" by metis
  have "act_run (store_step sample_codex sample_opts) empty_tdb
     ([AOther] @ AClaim ''a'' ''A'' True # [ARelease ''a''] @ AClaim ''a'' ''B'' True # []) s4"
    using StepCreate [OF c] StepClaim [OF k] StepRelease [OF _ f] StepClaim [OF g]
    by (simp add: act_run_Cons act_run_Nil) blast
  with turn_lease_exclusive [OF this] show ?thesis by blast
qed

text \<open>The recovery scan takes exactly the orphans. It reports and interrupts the running threads whose
  heartbeat is missing or older than the limit, in table order with the pod that held them, and leaves
  every other thread (in particular a running one whose pod heartbeats in time) untouched.\<close>

theorem mark_stale_exact:
  "\<exists>s'. mark_stale_tx tenant now after s = Inr (map (\<lambda>r. \<lparr>sr_tenant = tenant, sr_thread = t_id r, sr_pod = t_pod r\<rparr>)
        (filter (is_stale now after) (threads s)), s')
    \<and> (\<forall>i < length (threads s). threads s' ! i = (if is_stale now after (threads s ! i)
          then (threads s ! i)\<lparr>t_status := Interrupted, t_pod := None, t_heartbeat := None, t_updated := now\<rparr>
          else threads s ! i))
    \<and> length (threads s') = length (threads s) \<and> (\<forall>r \<in> set (threads s'). \<not> is_stale now after r)
    \<and> events s' = events s \<and> queue s' = queue s"
  by (auto simp: mark_stale_tx_def update_where_def is_stale_def)

lemma mark_stale_exact_witness:
  "\<exists>s'. mark_stale_tx ''t'' 100 50 (one_thread\<lparr>threads := [(blank_thread ''a'')\<lparr>t_status := Running,
     t_pod := Some ''A'', t_heartbeat := Some 10\<rparr>]\<rparr>)
     = Inr ([\<lparr>sr_tenant = ''t'', sr_thread = ''a'', sr_pod = Some ''A''\<rparr>], s')"
  using mark_stale_exact [of "''t''" 100 50 "one_thread\<lparr>threads := [(blank_thread ''a'')\<lparr>t_status := Running,
     t_pod := Some ''A'', t_heartbeat := Some 10\<rparr>]\<rparr>"]
  by (auto simp: is_stale_def blank_thread_def)

lemma insort_snoc: "key y \<le> key x \<Longrightarrow> insort_key key y (zs @ [x]) = insort_key key y zs @ [x]"
  by (induction zs) auto

lemma order_by_snoc:
  "(\<And>y. y \<in> set xs \<Longrightarrow> key y \<le> key x) \<Longrightarrow> order_by key (xs @ [x]) = order_by key xs @ [x]"
  unfolding order_by_def by (induction xs) (simp_all add: insort_snoc)

lemma order_by_filter: "order_by key (filter p xs) = filter p (order_by key xs)"
  by (simp add: order_by_def filter_sort)

lemma waiting_admitted:
  "filter (waiting u) (update_where (\<lambda>q. q_id q = x \<and> q_admitted q = None) (\<lambda>q. q\<lparr>q_admitted := Some turn\<rparr>) rs)
   = filter (\<lambda>q. q_id q \<noteq> x) (filter (waiting u) rs)"
  by (induction rs) (auto simp: row_simps waiting_def)

text \<open>The input queue is first in, first out. An input enqueued for a live thread no earlier than the
  waiting ones (and with a greater id at the same instant) is listed last; admitting or deleting an
  input removes it, and it alone, from every thread's list.\<close>

theorem queue_fifo:
  assumes "enqueue_input_tx cx now tid qid kind payload s = Inr ((), s')"
    "\<And>q. q \<in> set (queue s) \<Longrightarrow> waiting tid q \<Longrightarrow> queue_key q \<le> (now, qid)"
  shows "(\<exists>q. q_id q = qid \<and> q_kind q = kind \<and> cx_jsonb cx payload = Some (q_payload q)
        \<and> pending_inputs tid s' = pending_inputs tid s @ [q])
    \<and> (\<forall>u. u \<noteq> tid \<longrightarrow> pending_inputs u s' = pending_inputs u s)
    \<and> (\<forall>x turn s2 u. admit_input_tx x turn s' = Inr ((), s2) \<longrightarrow>
        pending_inputs u s2 = filter (\<lambda>q. q_id q \<noteq> x) (pending_inputs u s'))
    \<and> (\<forall>x s2 u. delete_input_tx x s' = Inr ((), s2) \<longrightarrow>
        pending_inputs u s2 = filter (\<lambda>q. q_id q \<noteq> x) (pending_inputs u s'))"
proof (intro conjI allI impI)
  from assms(1) obtain p where p: "cx_jsonb cx payload = Some p"
    and s': "s' = s\<lparr>queue := queue s @ [\<lparr>q_id = qid, q_thread = tid, q_kind = kind, q_payload = p,
                q_admitted = None, q_created = now\<rparr>]\<rparr>"
    by (auto simp: enqueue_input_tx_def split: sum.splits option.splits if_splits)
  show "\<exists>q. q_id q = qid \<and> q_kind q = kind \<and> cx_jsonb cx payload = Some (q_payload q)
        \<and> pending_inputs tid s' = pending_inputs tid s @ [q]"
  proof -
    let ?q = "\<lparr>q_id = qid, q_thread = tid, q_kind = kind, q_payload = p, q_admitted = None, q_created = now\<rparr>"
    have "order_by queue_key (filter (waiting tid) (queue s) @ [?q])
        = order_by queue_key (filter (waiting tid) (queue s)) @ [?q]"
      using assms(2) by (intro order_by_snoc) (simp add: queue_key_def)
    then have "pending_inputs tid s' = pending_inputs tid s @ [?q]"
      by (simp add: s' pending_inputs_def waiting_def)
    with p show ?thesis by (intro exI [of _ ?q]) simp
  qed
  show "pending_inputs u s' = pending_inputs u s" if "u \<noteq> tid" for u
    using that by (simp add: s' pending_inputs_def waiting_def)
next
  fix x turn s2 u
  assume "admit_input_tx x turn s' = Inr ((), s2)"
  then have q: "queue s2 = update_where (\<lambda>q. q_id q = x \<and> q_admitted q = None) (\<lambda>q. q\<lparr>q_admitted := Some turn\<rparr>) (queue s')"
    by (auto simp: admit_input_tx_def)
  have "filter (waiting u) (queue s2) = filter (\<lambda>q. q_id q \<noteq> x) (filter (waiting u) (queue s'))"
    unfolding q by (rule waiting_admitted)
  then show "pending_inputs u s2 = filter (\<lambda>q. q_id q \<noteq> x) (pending_inputs u s')"
    by (simp only: pending_inputs_def order_by_filter)
next
  fix x s2 u
  assume "delete_input_tx x s' = Inr ((), s2)"
  then show "pending_inputs u s2 = filter (\<lambda>q. q_id q \<noteq> x) (pending_inputs u s')"
    by (auto simp: delete_input_tx_def delete_where_def pending_inputs_def order_by_filter conj_commute)
qed

lemma queue_fifo_witness:
  "\<exists>s' q. enqueue_input_tx sample_codex 5 ''a'' ''q1'' Steer ''x'' one_thread = Inr ((), s')
     \<and> pending_inputs ''a'' s' = pending_inputs ''a'' one_thread @ [q]"
proof -
  obtain s' where e: "enqueue_input_tx sample_codex 5 ''a'' ''q1'' Steer ''x'' one_thread = Inr ((), s')"
    by (auto simp: enqueue_input_tx_def current_seq_def one_thread_def empty_tdb_def blank_thread_def live_thread_def
        row_simps sample_codex_def)
  from queue_fifo [OF e] e show ?thesis by (auto simp: one_thread_def empty_tdb_def)
qed

text \<open>At the end of a long month the next month's event partition is not prepared. On 31 January 2026
  \<open>EnsureEventPartitions\<close> prepares January and March: adding one month to the date runs over
  February. The comment promises the current and the next month.\<close>

theorem partition_skips_month:
  "date_of (1769817600 * 1000000) = (2026, 1, 31)
   \<and> partition_months (1769817600 * 1000000) = [(2026, 1), (2026, 3)]"
proof -
  have "date_of (1769817600 * 1000000) = (2026, 1, 31)"
    by (simp add: date_of_def year_walk.simps year_len_def month_lens_def leap_def)
  then show ?thesis by (simp add: partition_months_def add_one_month_def next_month_def month_lens_def leap_def)
qed

end
