(* ===== verification/Scheduler.thy ===== *)
theory Scheduler
  imports TurnLease
begin

text \<open>
  The session scheduler, \<^verbatim>\<open>agent-runtime/internal/scheduler/scheduler.go\<close>: the
  bound on the turns a tenant runs at the same time, and the sweep that dispatches the threads with
  waiting inputs. The mutex of the limiter makes each of its operations one step.
\<close>

section \<open>The tenant limiter\<close>

text \<open>\<open>cur\<close> is the Go map of counts: a tenant without an entry counts zero.\<close>

record tenant_limiter =
  tl_max :: int
  tl_cur :: "string \<rightharpoonup> int"

definition new_tenant_limiter :: "int \<Rightarrow> tenant_limiter" where
  "new_tenant_limiter m = \<lparr>tl_max = m, tl_cur = Map.empty\<rparr>"

definition in_flight :: "string \<Rightarrow> tenant_limiter \<Rightarrow> int" where
  "in_flight t l = (case tl_cur l t of None \<Rightarrow> 0 | Some n \<Rightarrow> n)"

definition try_acquire :: "string \<Rightarrow> tenant_limiter \<Rightarrow> bool \<times> tenant_limiter" where
  "try_acquire t l = (if tl_max l \<le> 0 then (True, l)
     else if tl_max l \<le> in_flight t l then (False, l)
     else (True, l\<lparr>tl_cur := (tl_cur l)(t \<mapsto> in_flight t l + 1)\<rparr>))"

definition release_slot :: "string \<Rightarrow> tenant_limiter \<Rightarrow> tenant_limiter" where
  "release_slot t l = (if tl_max l \<le> 0 then l
     else let l1 = (if 0 < in_flight t l then l\<lparr>tl_cur := (tl_cur l)(t \<mapsto> in_flight t l - 1)\<rparr> else l)
       in if in_flight t l1 = 0 then l1\<lparr>tl_cur := (tl_cur l1)(t := None)\<rparr> else l1)"

text \<open>The counts are between one and the bound: an entry that drops to zero is deleted.\<close>

definition limiter_ok :: "tenant_limiter \<Rightarrow> bool" where
  "limiter_ok l \<longleftrightarrow> (\<forall>t n. tl_cur l t = Some n \<longrightarrow> 1 \<le> n \<and> n \<le> tl_max l)"

lemma new_limiter_ok [simp]: "limiter_ok (new_tenant_limiter m)"
  by (simp add: limiter_ok_def new_tenant_limiter_def)

lemma in_flight_bounds: "limiter_ok l \<Longrightarrow> 0 \<le> in_flight t l \<and> (0 < tl_max l \<longrightarrow> in_flight t l \<le> tl_max l)"
  by (force simp: limiter_ok_def in_flight_def split: option.splits)

lemma tl_max_ops [simp]: "tl_max (snd (try_acquire t l)) = tl_max l" "tl_max (release_slot t l) = tl_max l"
  by (auto simp: try_acquire_def release_slot_def Let_def)

lemma in_flight_upd [simp]:
  "in_flight u (l\<lparr>tl_cur := (tl_cur l)(t \<mapsto> n)\<rparr>) = (if u = t then n else in_flight u l)"
  "in_flight u (l\<lparr>tl_cur := (tl_cur l)(t := None)\<rparr>) = (if u = t then 0 else in_flight u l)"
  by (auto simp: in_flight_def)

lemma try_acquire_ok [simp]: "limiter_ok l \<Longrightarrow> limiter_ok (snd (try_acquire t l))"
  using in_flight_bounds [of l t] by (auto simp: try_acquire_def limiter_ok_def)

lemma release_slot_ok [simp]: "limiter_ok l \<Longrightarrow> limiter_ok (release_slot t l)"
  using in_flight_bounds [of l t] by (auto simp: release_slot_def Let_def limiter_ok_def)

lemma in_flight_release:
  "limiter_ok l \<Longrightarrow> 0 < tl_max l \<Longrightarrow>
     in_flight u (release_slot t l) = (if u = t then max 0 (in_flight t l - 1) else in_flight u l)"
  using in_flight_bounds [of l t] by (auto simp: release_slot_def Let_def)

section \<open>The contract of a slot limiter\<close>

text \<open>
  What a client that holds slots relies on: a grant needs room and takes one slot, a refusal changes
  nothing and happens only when the tenant is full, and giving back a held slot frees it.
\<close>

lemma count_list_pos: "x \<in> set xs \<Longrightarrow> 0 < count_list xs x"
  by (induction xs) auto

lemma count_list_remove1:
  "count_list (remove1 x xs) y = (if y = x then count_list xs x - 1 else count_list xs y)"
  by (induction xs) (auto dest: count_list_pos)

datatype slot_op = Take string | Give string

locale slot_limiter =
  fixes good :: "'s \<Rightarrow> bool" and take_slot :: "string \<Rightarrow> 's \<Rightarrow> bool \<times> 's"
    and give_slot :: "string \<Rightarrow> 's \<Rightarrow> 's" and held :: "string \<Rightarrow> 's \<Rightarrow> int" and cap :: int
  assumes held_bounds: "good s \<Longrightarrow> 0 \<le> held t s \<and> held t s \<le> cap"
    and take_granted: "good s \<Longrightarrow> take_slot t s = (True, s') \<Longrightarrow>
      good s' \<and> held t s < cap \<and> held u s' = held u s + (if u = t then 1 else 0)"
    and take_refused: "good s \<Longrightarrow> take_slot t s = (False, s') \<Longrightarrow> s' = s \<and> held t s = cap"
    and give_frees: "good s \<Longrightarrow>
      good (give_slot t s) \<and> held u (give_slot t s) = (if u = t then max 0 (held t s - 1) else held u s)"
begin

text \<open>Running operations, with the tenants of the slots taken and not yet given back; a client
  gives back only what it holds.\<close>

fun slots_run :: "slot_op list \<Rightarrow> string list \<Rightarrow> 's \<Rightarrow> string list \<times> 's" where
  "slots_run [] out s = (out, s)"
| "slots_run (Take t # ops) out s = (case take_slot t s of
     (True, s') \<Rightarrow> slots_run ops (t # out) s' | (False, s') \<Rightarrow> slots_run ops out s')"
| "slots_run (Give t # ops) out s = (if t \<in> set out
     then slots_run ops (remove1 t out) (give_slot t s) else slots_run ops out s)"

definition accounts :: "string list \<Rightarrow> 's \<Rightarrow> bool" where
  "accounts out s \<longleftrightarrow> good s \<and> (\<forall>t. held t s = int (count_list out t))"

lemma accounts_take: "accounts out s \<Longrightarrow> take_slot t s = (True, s') \<Longrightarrow> accounts (t # out) s'"
  using take_granted by (auto simp: accounts_def)

lemma accounts_give:
  assumes "accounts out s" "t \<in> set out"
  shows "accounts (remove1 t out) (give_slot t s)"
proof -
  have "count_list (remove1 t out) u = (if u = t then count_list out t - 1 else count_list out u)" for u
    by (rule count_list_remove1)
  with assms count_list_pos [OF assms(2)] give_frees [of s t] show ?thesis by (auto simp: accounts_def)
qed

lemma slots_run_accounts: "accounts out s \<Longrightarrow> slots_run ops out s = (out', s') \<Longrightarrow> accounts out' s'"
proof (induction ops out s rule: slots_run.induct)
  case (2 t ops out s)
  then show ?case using take_refused
    by (auto simp: accounts_take split: prod.splits bool.splits) (metis accounts_def)
qed (auto simp: accounts_give split: if_splits)

lemma slots_run_bound:
  assumes "accounts out s" "slots_run ops out s = (out', s')"
  shows "int (count_list out' t) \<le> cap"
  using slots_run_accounts [OF assms] held_bounds [of s' t] by (auto simp: accounts_def)

lemma slot_free_again:
  assumes "accounts out s" "t \<in> set out"
  shows "fst (take_slot t (give_slot t s))"
proof (rule ccontr)
  assume "\<not> ?thesis"
  then obtain s' where "take_slot t (give_slot t s) = (False, s')"
    by (metis (full_types) prod.exhaust_sel)
  moreover have a: "accounts (remove1 t out) (give_slot t s)" by (rule accounts_give [OF assms])
  ultimately have "held t (give_slot t s) = cap" using take_refused unfolding accounts_def by blast
  moreover have "held t s \<le> cap" "0 < held t s"
    using assms held_bounds [of s t] count_list_pos [OF assms(2)] by (auto simp: accounts_def)
  ultimately show False using assms give_frees [of s t t] by (auto simp: accounts_def)
qed

end

interpretation tenant_slots: slot_limiter "\<lambda>l. limiter_ok l \<and> tl_max l = int (Suc m)" try_acquire release_slot in_flight
    "int (Suc m)" for m
proof unfold_locales
  fix l t assume "limiter_ok l \<and> tl_max l = int (Suc m)"
  then show "0 \<le> in_flight t l \<and> in_flight t l \<le> int (Suc m)" using in_flight_bounds [of l t] by auto
next
  fix l t l' u assume a: "limiter_ok l \<and> tl_max l = int (Suc m)" "try_acquire t l = (True, l')"
  then have "limiter_ok l' \<and> tl_max l' = int (Suc m)" by (metis snd_conv tl_max_ops(1) try_acquire_ok)
  with a show "(limiter_ok l' \<and> tl_max l' = int (Suc m)) \<and> in_flight t l < int (Suc m)
      \<and> in_flight u l' = in_flight u l + (if u = t then 1 else 0)"
    by (auto simp: try_acquire_def split: if_splits)
next
  fix l t l' assume a: "limiter_ok l \<and> tl_max l = int (Suc m)" "try_acquire t l = (False, l')"
  then show "l' = l \<and> in_flight t l = int (Suc m)" using in_flight_bounds [of l t]
    by (auto simp: try_acquire_def split: if_splits)
next
  fix l t u assume "limiter_ok l \<and> tl_max l = int (Suc m)"
  then show "(limiter_ok (release_slot t l) \<and> tl_max (release_slot t l) = int (Suc m))
      \<and> in_flight u (release_slot t l) = (if u = t then max 0 (in_flight t l - 1) else in_flight u l)"
    by (auto simp: in_flight_release)
qed

section \<open>The sweep\<close>

text \<open>
  \<open>Sweep\<close> asks the store for the threads with waiting inputs and dispatches each under its own
  tenant; the dispatcher is the engine, a parameter here. What is logged is the result.
\<close>

datatype sweep_log = ListFailed go_error | DispatchFailed string string go_error

fun sweep_each :: "(string option \<Rightarrow> string \<Rightarrow> 'e \<Rightarrow> (go_error + unit) \<times> 'e) \<Rightarrow> (string \<times> string) list \<Rightarrow> 'e
    \<Rightarrow> sweep_log list \<times> 'e" where
  "sweep_each dispatch [] e = ([], e)"
| "sweep_each dispatch ((tenant, tid) # ps) e = (case dispatch (with_tenant None tenant) tid e of
     (r, e1) \<Rightarrow> (case sweep_each dispatch ps e1 of (logs, e2) \<Rightarrow>
       ((case r of Inl er \<Rightarrow> DispatchFailed tenant tid er # logs | Inr _ \<Rightarrow> logs), e2)))"

definition sweep :: "('e \<Rightarrow> bool) \<Rightarrow> ('e \<Rightarrow> go_error + (string \<times> string) list)
    \<Rightarrow> (string option \<Rightarrow> string \<Rightarrow> 'e \<Rightarrow> (go_error + unit) \<times> 'e) \<Rightarrow> 'e \<Rightarrow> sweep_log list \<times> 'e" where
  "sweep draining pending dispatch e = (if draining e then ([], e)
     else case pending e of Inl er \<Rightarrow> ([ListFailed er], e) | Inr ps \<Rightarrow> sweep_each dispatch ps e)"

text \<open>\<open>NewSweeper\<close>: an interval that is not positive becomes two seconds (in microseconds).\<close>

definition sweep_interval :: "int \<Rightarrow> int" where
  "sweep_interval i = (if i \<le> 0 then 2000000 else i)"

lemma sweep_each_invariant:
  assumes "\<And>ctx tid e r e'. I e \<Longrightarrow> dispatch ctx tid e = (r, e') \<Longrightarrow> I e'" "I e"
    "sweep_each dispatch ps e = (logs, e')"
  shows "I e'"
  using assms(2,3)
proof (induction ps arbitrary: e logs)
  case (Cons p ps)
  obtain tenant tid where p: "p = (tenant, tid)" by fastforce
  obtain x e1 where d: "dispatch (with_tenant None tenant) tid e = (x, e1)" by fastforce
  obtain logs1 e2 where "sweep_each dispatch ps e1 = (logs1, e2)" by fastforce
  with Cons.IH [OF assms(1) [OF Cons.prems(1) d]] Cons.prems(2) p d show ?case by simp
qed simp

text \<open>The limiter bounds every tenant. Starting empty with a positive bound, run any sequence of
  attempts to take a slot and of returns of held slots: the counter of a tenant is always the number
  of slots it holds, and never above the bound.\<close>

theorem limiter_bounds_tenants:
  assumes "tenant_slots.slots_run ops [] (new_tenant_limiter (int (Suc m))) = (out, l)"
  shows "in_flight t l = int (count_list out t) \<and> count_list out t \<le> Suc m"
proof -
  have "tenant_slots.accounts m [] (new_tenant_limiter (int (Suc m)))"
    unfolding tenant_slots.accounts_def by (simp add: new_tenant_limiter_def in_flight_def limiter_ok_def)
  from tenant_slots.slots_run_accounts [OF this assms] tenant_slots.slots_run_bound [OF this assms, of t]
  show ?thesis unfolding tenant_slots.accounts_def by auto
qed

lemma limiter_bounds_tenants_witness:
  "\<exists>out l. tenant_slots.slots_run [Take ''t'', Take ''t'', Give ''t'', Take ''t''] []
       (new_tenant_limiter (int (Suc 0))) = (out, l)
     \<and> in_flight ''t'' l = int (count_list out ''t'') \<and> count_list out ''t'' \<le> Suc 0"
  by (metis limiter_bounds_tenants prod.exhaust)

end
