(* ===== verification/AgentGraph.thy ===== *)
theory AgentGraph
  imports StoreState
begin

text \<open>
  The topology of sub-agents, \<^verbatim>\<open>agent-runtime/internal/pgstore/graph.go\<close>: a child has
  one parent, edges are open or closed, and the descendants of a thread are computed by a recursive
  query. The recursion is a partial function: on a cyclic graph it has no value, which is how a query
  that never returns is modelled.
\<close>

section \<open>Edges\<close>

text \<open>A status outside the two known values (\<open>IsValid\<close> is false) is \<open>None\<close> here.\<close>

definition upsert_edge_tx :: "string \<Rightarrow> string \<Rightarrow> edge_status \<Rightarrow> unit tx" where
  "upsert_edge_tx parent child st s = (let
       kept = delete_where (\<lambda>e. g_child e = child \<and> g_parent e \<noteq> parent) (edges s);
       same = (\<lambda>e. g_parent e = parent \<and> g_child e = child)
     in Inr ((), s\<lparr>edges := (if count_where same kept = 0
         then kept @ [\<lparr>g_parent = parent, g_child = child, g_status = st\<rparr>]
         else update_where same (\<lambda>e. e\<lparr>g_status := st\<rparr>) kept)\<rparr>))"

definition upsert_thread_spawn_edge :: "tx_fault \<Rightarrow> string option \<Rightarrow> string \<Rightarrow> string \<Rightarrow> edge_status option \<Rightarrow> db
    \<Rightarrow> (go_error + unit) \<times> db" where
  "upsert_thread_spawn_edge flt ctx parent child st d = (case st of
     None \<Rightarrow> (Inl (StoreErr SkInvalidRequest), d)
   | Some v \<Rightarrow> in_tenant_tx flt ctx (upsert_edge_tx parent child v) d)"

definition set_edge_status_tx :: "string \<Rightarrow> edge_status \<Rightarrow> unit tx" where
  "set_edge_status_tx child st s = Inr ((), s\<lparr>edges := update_where (\<lambda>e. g_child e = child)
     (\<lambda>e. e\<lparr>g_status := st\<rparr>) (edges s)\<rparr>)"

definition set_thread_spawn_edge_status :: "tx_fault \<Rightarrow> string option \<Rightarrow> string \<Rightarrow> edge_status option \<Rightarrow> db
    \<Rightarrow> (go_error + unit) \<times> db" where
  "set_thread_spawn_edge_status flt ctx child st d = (case st of
     None \<Rightarrow> (Inl (StoreErr SkInvalidRequest), d)
   | Some v \<Rightarrow> in_tenant_tx flt ctx (set_edge_status_tx child v) d)"

section \<open>Children and descendants\<close>

definition edge_match :: "edge_status option \<Rightarrow> edge_row \<Rightarrow> bool" where
  "edge_match st e \<longleftrightarrow> (case st of None \<Rightarrow> True | Some v \<Rightarrow> g_status e = v)"

definition children_of :: "edge_row list \<Rightarrow> edge_status option \<Rightarrow> string \<Rightarrow> string list" where
  "children_of es st parent = map g_child (filter (\<lambda>e. g_parent e = parent \<and> edge_match st e) es)"

definition list_spawn_children :: "string \<Rightarrow> edge_status option \<Rightarrow> tdb \<Rightarrow> string list" where
  "list_spawn_children parent st s = order_by id (children_of (edges s) st parent)"

text \<open>The recursive term: from the rows of one depth to those of the next, a union that keeps
  duplicates; each depth is ordered by child id.\<close>

definition next_level :: "edge_row list \<Rightarrow> edge_status option \<Rightarrow> string list \<Rightarrow> string list" where
  "next_level es st level = order_by id (concat (map (children_of es st) level))"

partial_function (option) descend :: "edge_row list \<Rightarrow> edge_status option \<Rightarrow> string list \<Rightarrow> string list option" where
  "descend es st level = (if level = [] then Some []
     else Option.bind (descend es st (next_level es st level)) (\<lambda>deeper. Some (level @ deeper)))"

definition list_spawn_descendants :: "string \<Rightarrow> edge_status option \<Rightarrow> tdb \<Rightarrow> string list option" where
  "list_spawn_descendants root st s = descend (edges s) st (list_spawn_children root st s)"

section \<open>Lemmas\<close>

definition edge_rel :: "edge_row list \<Rightarrow> edge_status option \<Rightarrow> (string \<times> string) set" where
  "edge_rel es st = {(g_parent e, g_child e) | e. e \<in> set es \<and> edge_match st e}"

lemma children_of_set: "set (children_of es st p) = edge_rel es st `` {p}"
  by (auto simp: children_of_def edge_rel_def)

lemma next_level_set: "set (next_level es st level) = edge_rel es st `` set level"
  by (auto simp: next_level_def children_of_set)

text \<open>A rank that falls along every edge bounds the depth.\<close>

lemma descend_total:
  assumes "\<forall>(p, c) \<in> edge_rel es st. rank c < (rank p :: nat)" "\<forall>x \<in> set level. rank x < n"
  shows "\<exists>out. descend es st level = Some out \<and> set out = (edge_rel es st)\<^sup>* `` set level"
  using assms(2)
proof (induction n arbitrary: level)
  case 0
  then have "level = []" by (cases level) auto
  then show ?case by (subst descend.simps) simp
next
  case (Suc n)
  show ?case
  proof (cases "level = []")
    case False
    have "\<forall>x \<in> set (next_level es st level). rank x < n"
      using Suc.prems assms(1) by (fastforce simp: next_level_set)
    from Suc.IH [OF this] obtain out where
      o1: "descend es st (next_level es st level) = Some out" "set out = (edge_rel es st)\<^sup>* `` set (next_level es st level)"
      by blast
    have "set level \<union> (edge_rel es st)\<^sup>* `` (edge_rel es st `` set level) = (edge_rel es st)\<^sup>* `` set level"
      by (auto intro: converse_rtrancl_into_rtrancl elim: converse_rtranclE)
    then have "set (level @ out) = (edge_rel es st)\<^sup>* `` set level" using o1(2) by (simp add: next_level_set)
    moreover have "descend es st level = Some (level @ out)"
      using False o1(1) by (subst descend.simps) simp
    ultimately show ?thesis by blast
  qed (subst descend.simps, simp)
qed

lemma upsert_edges:
  "upsert_edge_tx p c st s = Inr (x, s') \<Longrightarrow> distinct (map g_child (edges s)) \<Longrightarrow> distinct (map g_child (edges s'))"
proof -
  assume u: "upsert_edge_tx p c st s = Inr (x, s')" and d: "distinct (map g_child (edges s))"
  let ?k = "delete_where (\<lambda>e. g_child e = c \<and> g_parent e \<noteq> p) (edges s)"
  have dk: "distinct (map g_child ?k)" using d by (simp add: delete_where_def distinct_map_filter)
  from u have e: "edges s' = (if count_where (\<lambda>e. g_parent e = p \<and> g_child e = c) ?k = 0
      then ?k @ [\<lparr>g_parent = p, g_child = c, g_status = st\<rparr>]
      else update_where (\<lambda>e. g_parent e = p \<and> g_child e = c) (\<lambda>e. e\<lparr>g_status := st\<rparr>) ?k)"
    by (auto simp: upsert_edge_tx_def Let_def)
  show ?thesis
  proof (cases "count_where (\<lambda>e. g_parent e = p \<and> g_child e = c) ?k = 0")
    case True
    then have "c \<notin> g_child ` set ?k" by (auto simp: count_where_zero delete_where_def)
    with True dk e show ?thesis by simp
  next
    case False
    with dk e show ?thesis by (simp add: update_where_keys)
  qed
qed

lemma filter_other_delete:
  "filter (\<lambda>e. g_child e \<noteq> c) (delete_where (\<lambda>e. g_child e = c \<and> q e) es) = filter (\<lambda>e. g_child e \<noteq> c) es"
  by (simp add: delete_where_def) (auto intro: filter_cong)

lemma filter_other_update:
  "filter (\<lambda>e. g_child e \<noteq> c) (update_where (\<lambda>e. q e \<and> g_child e = c) (\<lambda>e. e\<lparr>g_status := st\<rparr>) es)
   = filter (\<lambda>e. g_child e \<noteq> c) es"
  by (induction es) (auto simp: row_simps)

section \<open>Properties\<close>

text \<open>A child has one parent. After \<open>UpsertThreadSpawnEdge\<close> exactly one edge leads to the child, from
  the given parent with the given status; the edges to other children are unchanged, and if every
  child had at most one parent before, so it has after.\<close>

theorem upsert_edge_single_parent:
  assumes "upsert_edge_tx p c st s = Inr ((), s')" "distinct (map g_child (edges s))"
  shows "filter (\<lambda>e. g_child e = c) (edges s') = [\<lparr>g_parent = p, g_child = c, g_status = st\<rparr>]
    \<and> filter (\<lambda>e. g_child e \<noteq> c) (edges s') = filter (\<lambda>e. g_child e \<noteq> c) (edges s)
    \<and> distinct (map g_child (edges s'))"
proof (intro conjI)
  show d: "distinct (map g_child (edges s'))" by (rule upsert_edges [OF assms])
  let ?k = "delete_where (\<lambda>e. g_child e = c \<and> g_parent e \<noteq> p) (edges s)"
  let ?f = "\<lambda>e. e\<lparr>g_status := st\<rparr> :: edge_row"
  let ?same = "\<lambda>e. g_parent e = p \<and> g_child e = c"
  from assms(1) have e: "edges s' = (if count_where ?same ?k = 0
      then ?k @ [\<lparr>g_parent = p, g_child = c, g_status = st\<rparr>] else update_where ?same ?f ?k)"
    by (auto simp: upsert_edge_tx_def Let_def)
  show "filter (\<lambda>e. g_child e \<noteq> c) (edges s') = filter (\<lambda>e. g_child e \<noteq> c) (edges s)"
    by (simp add: e filter_other_delete filter_other_update)
  have "\<exists>x. x \<in> set (edges s') \<and> x = \<lparr>g_parent = p, g_child = c, g_status = st\<rparr>"
  proof (cases "count_where ?same ?k = 0")
    case False
    then obtain y where y: "y \<in> set ?k" "?same y" by (auto simp: count_where_zero)
    then have "?f y \<in> set (edges s')" using False by (auto simp: e in_update_where intro!: bexI [of _ y])
    moreover have "?f y = \<lparr>g_parent = p, g_child = c, g_status = st\<rparr>" using y(2) by (cases y) simp
    ultimately show ?thesis by metis
  qed (simp add: e)
  then obtain xs ys where sp: "edges s' = xs @ \<lparr>g_parent = p, g_child = c, g_status = st\<rparr> # ys"
    by (metis split_list)
  with d have "\<forall>e \<in> set xs. g_child e \<noteq> c" "\<forall>e \<in> set ys. g_child e \<noteq> c" by (auto simp: image_iff)
  with sp show "filter (\<lambda>e. g_child e = c) (edges s') = [\<lparr>g_parent = p, g_child = c, g_status = st\<rparr>]"
    by (simp add: filter_empty_conv)
qed

lemma upsert_edge_single_parent_witness:
  "\<exists>s'. upsert_edge_tx ''p2'' ''c'' EdgeOpen (empty_tdb\<lparr>edges := [\<lparr>g_parent = ''p1'', g_child = ''c'', g_status = EdgeClosed\<rparr>]\<rparr>) = Inr ((), s')
     \<and> filter (\<lambda>e. g_child e = ''c'') (edges s') = [\<lparr>g_parent = ''p2'', g_child = ''c'', g_status = EdgeOpen\<rparr>]"
proof -
  obtain s' where u: "upsert_edge_tx ''p2'' ''c'' EdgeOpen
     (empty_tdb\<lparr>edges := [\<lparr>g_parent = ''p1'', g_child = ''c'', g_status = EdgeClosed\<rparr>]\<rparr>) = Inr ((), s')"
    by (simp add: upsert_edge_tx_def Let_def)
  from upsert_edge_single_parent [OF u] u show ?thesis by simp
qed

text \<open>On an acyclic graph the descendants query returns and lists exactly the threads reachable from
  the root along edges of the requested status (all edges when no status is given).\<close>

theorem descendants_reachable:
  assumes "\<forall>(p, c) \<in> edge_rel (edges s) st. rank c < (rank p :: nat)"
  shows "\<exists>out. list_spawn_descendants root st s = Some out
    \<and> set out = {c. (root, c) \<in> (edge_rel (edges s) st)\<^sup>+}"
proof -
  let ?l = "list_spawn_children root st s"
  have l: "set ?l = edge_rel (edges s) st `` {root}"
    by (simp add: list_spawn_children_def children_of_set)
  then have "\<forall>x \<in> set ?l. rank x < rank root" using assms by fastforce
  from descend_total [OF assms this] obtain out where
    "descend (edges s) st ?l = Some out" "set out = (edge_rel (edges s) st)\<^sup>* `` (edge_rel (edges s) st `` {root})"
    unfolding l by blast
  moreover have "(edge_rel (edges s) st)\<^sup>* `` (edge_rel (edges s) st `` {root}) = {c. (root, c) \<in> (edge_rel (edges s) st)\<^sup>+}"
    by (auto dest: rtrancl_into_trancl2 tranclD)
  ultimately show ?thesis by (simp add: list_spawn_descendants_def)
qed

definition chain_db :: tdb where
  "chain_db = empty_tdb\<lparr>edges := [\<lparr>g_parent = ''a'', g_child = ''bb'', g_status = EdgeOpen\<rparr>,
     \<lparr>g_parent = ''bb'', g_child = ''ccc'', g_status = EdgeOpen\<rparr>]\<rparr>"

lemma descendants_reachable_witness:
  "\<exists>out. list_spawn_descendants ''a'' None chain_db = Some out
     \<and> set out = {c. (''a'', c) \<in> (edge_rel (edges chain_db) None)\<^sup>+}"
  by (rule descendants_reachable [where rank = "\<lambda>x. 9 - length x"])
     (auto simp: edge_rel_def chain_db_def)

definition keeps_level :: "edge_row list \<Rightarrow> edge_status option \<Rightarrow> string set \<Rightarrow> bool" where
  "keeps_level es st X \<longleftrightarrow> (\<forall>x \<in> X. children_of es st x \<noteq> [] \<and> set (children_of es st x) \<subseteq> X)"

lemma descend_diverges:
  "descend es st level = Some out \<Longrightarrow> keeps_level es st X \<Longrightarrow> level \<noteq> [] \<Longrightarrow> set level \<subseteq> X \<Longrightarrow> False"
proof (induction es st level out rule: descend.raw_induct [rotated, consumes 1, case_names step])
  case (step d es st level out)
  have prems: "keeps_level es st X" "level \<noteq> []" "set level \<subseteq> X" by (use step in blast)+
  from step(2-) prems(2) obtain deeper where
    d: "d es st (next_level es st level) = Some deeper" by (auto split: if_splits bind_splits)
  have "next_level es st level \<noteq> []"
  proof -
    obtain x where "x \<in> set level" using prems(2) by (cases level) auto
    then have "children_of es st x \<noteq> []" using prems(1,3) by (auto simp: keeps_level_def)
    then obtain y where "y \<in> set (children_of es st x)" by (cases "children_of es st x") auto
    with \<open>x \<in> set level\<close> have "y \<in> set (next_level es st level)" by (auto simp: next_level_def)
    then show ?thesis by auto
  qed
  moreover have "set (next_level es st level) \<subseteq> X"
    using prems(1,3) by (auto simp: next_level_def keeps_level_def)
  ultimately show False using step(1) [OF d] prems(1) by blast
qed



end
