(* ===== verification/EngineState.thy ===== *)
theory EngineState
  imports Scheduler AgentGraph
begin

text \<open>
  The state of one pod of the agent runtime and its building blocks
  (\<^verbatim>\<open>agent-runtime/internal/runtime\<close>: \<^verbatim>\<open>core.go\<close>,
  \<^verbatim>\<open>engine.go\<close>, the state of \<^verbatim>\<open>live.go\<close>, the notifier of
  \<^verbatim>\<open>events.go\<close>, \<^verbatim>\<open>services.go\<close>,
  \<^verbatim>\<open>llm_transport.go\<close> and the metrics of \<^verbatim>\<open>obs.go\<close>). The
  session library is not in the repository: its operations are the record \<open>agent_core\<close>, over a
  state type of its own.
\<close>

section \<open>core.go\<close>

text \<open>\<open>protocol.UserInput\<close> is a type of the library; its JSON form is an operation below.\<close>

type_synonym user_input = opaque

record start_thread_input =
  st_agent :: string
  st_model :: string
  st_title :: string

record turn_ref =
  tr_turn :: string
  tr_queued :: bool

record agent_event =
  ev_seq :: int
  ev_turn :: string
  ev_type :: string
  ev_payload :: string
  ev_ref :: string

record queued_payload =
  qp_type :: string
  qp_items :: "user_input list"

definition queued_user_input :: string where "queued_user_input = ''user_input''"
definition queued_interrupt :: string where "queued_interrupt = ''interrupt''"

section \<open>The session library\<close>

text \<open>\<open>core.UserMessageAdmission\<close>, the error that says the session is closing, any other error.\<close>

datatype admission = AdmStarted string | AdmSteered string | AgentDied | AdmError go_error

text \<open>The session configuration the engine fills in.\<close>

record session_config =
  sc_provider :: string
  sc_base_instructions :: string
  sc_extended_history :: bool
  sc_approval :: string
  sc_sandbox :: string
  sc_cwd :: string
  sc_model :: string

text \<open>
  \<open>ac_new_id\<close> is the supply of version 7 UUIDs. Starting and resuming a session, submitting
  to it, interrupting it and closing it change the library's state only; what the session writes to
  the store later goes through the recorder and is a step of its own.
\<close>

record 'c agent_core =
  ac_input_json :: "user_input \<Rightarrow> json option"
  ac_json_input :: "json \<Rightarrow> user_input option"
  ac_new_id :: "nat \<Rightarrow> string"
  ac_start :: "go_ctx \<Rightarrow> session_config \<Rightarrow> string \<Rightarrow> 'c \<Rightarrow> (go_error + unit) \<times> 'c"
  ac_resume :: "go_ctx \<Rightarrow> session_config \<Rightarrow> string \<Rightarrow> 'c \<Rightarrow> (go_error + unit) \<times> 'c"
  ac_submit :: "string \<Rightarrow> user_input list \<Rightarrow> 'c \<Rightarrow> admission \<times> 'c"
  ac_interrupt :: "string \<Rightarrow> 'c \<Rightarrow> (go_error + unit) \<times> 'c"
  ac_shutdown :: "string \<Rightarrow> 'c \<Rightarrow> 'c"
  ac_remove :: "string \<Rightarrow> 'c \<Rightarrow> 'c"
  ac_aborted :: "string \<Rightarrow> int \<Rightarrow> opaque"

section \<open>Queued payloads\<close>

definition map_all :: "('a \<Rightarrow> 'b option) \<Rightarrow> 'a list \<Rightarrow> 'b list option" where
  "map_all f xs = (if \<exists>x \<in> set xs. f x = None then None else Some (map (\<lambda>x. the (f x)) xs))"

text \<open>\<open>json.Marshal(queuedPayload)\<close>; an empty item list is omitted.\<close>

definition marshal_payload :: "'c agent_core \<Rightarrow> queued_payload \<Rightarrow> string option" where
  "marshal_payload ac p = map_option (\<lambda>js. json_text (JObj ([(''type'', JStr (qp_type p))]
       @ (if qp_items p = [] then [] else [(''items'', JArr js)]))))
     (map_all (ac_input_json ac) (qp_items p))"

definition as_inputs :: "'c agent_core \<Rightarrow> json \<Rightarrow> user_input list option" where
  "as_inputs ac j = (case j of JArr js \<Rightarrow> map_all (ac_json_input ac) js | _ \<Rightarrow> None)"

definition unmarshal_payload :: "'c agent_core \<Rightarrow> string \<Rightarrow> queued_payload option" where
  "unmarshal_payload ac text = (case json_parse text of None \<Rightarrow> None | Some j \<Rightarrow>
     (case struct_members j of None \<Rightarrow> None | Some kvs \<Rightarrow>
       (case (str_field ''type'' kvs, dec_field (as_inputs ac) ''items'' kvs) of
          (Some t, Some is) \<Rightarrow> Some \<lparr>qp_type = t, qp_items = (case is of None \<Rightarrow> [] | Some xs \<Rightarrow> xs)\<rparr>
        | _ \<Rightarrow> None)))"

text \<open>The law of the library's codec of one input.\<close>

definition input_law :: "'c agent_core \<Rightarrow> bool" where
  "input_law ac \<longleftrightarrow> (\<forall>i j. ac_input_json ac i = Some j \<longrightarrow> wf_json j \<and> j \<noteq> JNull \<and> ac_json_input ac j = Some i)"

section \<open>The engine\<close>

record engine_cfg =
  ec_default_model :: string
  ec_pod :: string
  ec_max_sub_agents :: int
  ec_heartbeat :: int

text \<open>\<open>New\<close>: a store, an LLM base URL and a transport are required, the rest has defaults.\<close>

definition new_engine :: "bool \<Rightarrow> string \<Rightarrow> bool \<Rightarrow> engine_cfg \<Rightarrow> go_error + engine_cfg" where
  "new_engine has_store base_url has_transport c =
     (if \<not> has_store then Inl (Plain ''runtime: Store is required'')
      else if base_url = [] \<or> \<not> has_transport
        then Inl (Plain ''runtime: LLMBaseURL and LLMTransport are required'')
      else Inr (c\<lparr>
        ec_default_model := (if ec_default_model c = [] then ''chat-default'' else ec_default_model c),
        ec_max_sub_agents := (if ec_max_sub_agents c \<le> 0 then 8 else ec_max_sub_agents c),
        ec_heartbeat := (if ec_heartbeat c \<le> 0 then 15 * 1000000 else ec_heartbeat c)\<rparr>))"

text \<open>
  A held thread (\<open>liveThread\<close>). The serial number is the identity of the Go object; whether it
  has been released (\<open>relOnce\<close>, the channel \<open>released\<close>) is kept by the engine.
\<close>

record live =
  lt_serial :: nat
  lt_id :: string
  lt_ctx :: go_ctx
  lt_tenant :: string
  lt_turn :: string
  lt_running :: bool
  lt_started :: "int option"
  lt_failed :: bool
  lt_steered :: bool
  lt_slot :: bool

text \<open>What the engine reports: notifications of event subscribers and the turn metrics.\<close>

datatype engine_out = Notified string | TurnStarted | TurnEnded string "int option"

record 'c engine =
  en_db :: db
  en_core :: 'c
  en_live :: "live list"
  en_limiter :: "tenant_limiter option"
  en_draining :: bool
  en_released :: "nat list"
  en_serial :: nat
  en_ids :: nat
  en_now :: int
  en_faults :: "tx_fault list"
  en_out :: "engine_out list"

record 'c engine_env =
  ee_cx :: codex
  ee_opts :: store_opts
  ee_core :: "'c agent_core"
  ee_cfg :: engine_cfg

text \<open>
  A call of the store takes the next fault of the database; \<open>f\<close> is the store operation.
\<close>

definition next_fault :: "'c engine \<Rightarrow> tx_fault" where
  "next_fault e = (case en_faults e of [] \<Rightarrow> NoFault | f # _ \<Rightarrow> f)"

definition store_call :: "(tx_fault \<Rightarrow> db \<Rightarrow> 'r \<times> db) \<Rightarrow> 'c engine \<Rightarrow> 'r \<times> 'c engine" where
  "store_call f e = (let (r, d) = f (next_fault e) (en_db e) in (r, e\<lparr>en_db := d, en_faults := tl (en_faults e)\<rparr>))"

definition store_query :: "(tx_fault \<Rightarrow> db \<Rightarrow> 'r) \<Rightarrow> 'c engine \<Rightarrow> 'r \<times> 'c engine" where
  "store_query f e = (f (next_fault e) (en_db e), e\<lparr>en_faults := tl (en_faults e)\<rparr>)"

definition core_call :: "('c \<Rightarrow> 'r \<times> 'c) \<Rightarrow> 'c engine \<Rightarrow> 'r \<times> 'c engine" where
  "core_call f e = (let (r, c) = f (en_core e) in (r, e\<lparr>en_core := c\<rparr>))"

definition emit :: "engine_out \<Rightarrow> 'c engine \<Rightarrow> 'c engine" where
  "emit x e = e\<lparr>en_out := en_out e @ [x]\<rparr>"

text \<open>\<open>tenantIDFrom\<close> and \<open>tenantOf\<close>: the session's tenant, else the request's, else an error.\<close>

definition tenant_id_from :: "go_ctx \<Rightarrow> string option" where
  "tenant_id_from ctx = (case gc_info ctx of Some i \<Rightarrow> Some (si_tenant i) | None \<Rightarrow> tenant_from_context (gc_tenant ctx))"

definition tenant_of :: "go_ctx \<Rightarrow> go_error + string" where
  "tenant_of ctx = (case tenant_id_from ctx of None \<Rightarrow> Inl (api_err CodeTenantContextMissing) | Some t \<Rightarrow> Inr t)"

definition live_for :: "string \<Rightarrow> 'c engine \<Rightarrow> live option" where
  "live_for tid e = find (\<lambda>l. lt_id l = tid) (en_live e)"

definition live_count :: "'c engine \<Rightarrow> nat" where
  "live_count e = length (en_live e)"

text \<open>\<open>e.live[id] = lt\<close> and the updates of one object.\<close>

definition put_live :: "live \<Rightarrow> 'c engine \<Rightarrow> 'c engine" where
  "put_live l e = e\<lparr>en_live := filter (\<lambda>k. lt_id k \<noteq> lt_id l) (en_live e) @ [l]\<rparr>"

definition update_live :: "nat \<Rightarrow> (live \<Rightarrow> live) \<Rightarrow> 'c engine \<Rightarrow> 'c engine" where
  "update_live n f e = e\<lparr>en_live := map (\<lambda>k. if lt_serial k = n then f k else k) (en_live e)\<rparr>"

definition set_turn :: "string \<Rightarrow> int \<Rightarrow> live \<Rightarrow> live" where
  "set_turn turn now l = l\<lparr>lt_turn := turn, lt_running := True, lt_started := Some now, lt_failed := False\<rparr>"

definition mark_admission :: "string \<Rightarrow> bool \<Rightarrow> live \<Rightarrow> live" where
  "mark_admission turn steered l = l\<lparr>lt_turn := turn, lt_running := True, lt_steered := steered\<rparr>"

definition end_turn :: "live \<Rightarrow> live" where
  "end_turn l = l\<lparr>lt_running := False\<rparr>"

definition mark_failed :: "live \<Rightarrow> live" where
  "mark_failed l = l\<lparr>lt_failed := True\<rparr>"

section \<open>The notifier\<close>

text \<open>A subscription is a channel of capacity one: its key and whether a token is in it.\<close>

record notifier =
  nt_subs :: "(nat \<times> string \<times> bool) list"
  nt_next :: nat

definition new_notifier :: notifier where
  "new_notifier = \<lparr>nt_subs = [], nt_next = 0\<rparr>"

definition subscribe :: "string \<Rightarrow> notifier \<Rightarrow> nat \<times> notifier" where
  "subscribe key n = (nt_next n, n\<lparr>nt_subs := nt_subs n @ [(nt_next n, key, False)], nt_next := Suc (nt_next n)\<rparr>)"

definition unsubscribe :: "nat \<Rightarrow> notifier \<Rightarrow> notifier" where
  "unsubscribe ch n = n\<lparr>nt_subs := filter (\<lambda>s. fst s \<noteq> ch) (nt_subs n)\<rparr>"

definition notify :: "string \<Rightarrow> notifier \<Rightarrow> notifier" where
  "notify key n = n\<lparr>nt_subs := map (\<lambda>(ch, k, tok). (ch, k, tok \<or> k = key)) (nt_subs n)\<rparr>"

text \<open>A receive takes the token when there is one.\<close>

definition wake :: "nat \<Rightarrow> notifier \<Rightarrow> bool \<times> notifier" where
  "wake ch n = (\<exists>s \<in> set (nt_subs n). fst s = ch \<and> snd (snd s),
     n\<lparr>nt_subs := map (\<lambda>(c, k, tok). (c, k, tok \<and> c \<noteq> ch)) (nt_subs n)\<rparr>)"

section \<open>llm\_transport.go\<close>

text \<open>The error the quota gate of the LLM transport raises becomes a 429 answer; the rest passes.\<close>

datatype 'r transported = PassedThrough 'r | TooManyRequests string

definition quota_message :: string where
  "quota_message = map char_of ([232, 175, 183, 230, 177, 130, 232, 182, 133, 229, 135, 186, 233, 133, 141, 233,
     162, 157, 233, 153, 144, 229, 136, 182, 239, 188, 140, 232, 175, 183, 231, 168, 141, 229, 144, 142, 233, 135,
     141, 232, 175, 149] :: nat list)"

definition quota_body :: string where
  "quota_body = json_text (JObj [(''error'', JObj [(''code'', JStr (code_str CodeQuotaExceeded)),
     (''message'', JStr quota_message), (''type'', JStr ''quota_exceeded'')])])"

definition quota_round_trip :: "go_error + 'r \<Rightarrow> go_error + 'r transported" where
  "quota_round_trip r = (case r of Inr x \<Rightarrow> Inr (PassedThrough x)
     | Inl e \<Rightarrow> (case find_api e of
         Some (CodeQuotaExceeded, _) \<Rightarrow> Inr (TooManyRequests quota_body)
       | _ \<Rightarrow> Inl e))"

section \<open>obs.go\<close>

definition turn_status_for :: "bool \<Rightarrow> bool \<Rightarrow> string" where
  "turn_status_for aborted failed = (if aborted then ''aborted'' else if failed then ''failed'' else ''completed'')"

text \<open>The gauge of turns in flight, from what the engine reported.\<close>

definition turns_in_flight :: "engine_out list \<Rightarrow> int" where
  "turns_in_flight os = int (length (filter (\<lambda>x. x = TurnStarted) os))
     - int (length (filter (\<lambda>x. case x of TurnEnded _ _ \<Rightarrow> True | _ \<Rightarrow> False) os))"

end
