(* ===== verification/Engine.thy ===== *)
theory Engine
  imports EngineState
begin

text \<open>
  The turn operations of the engine, \<^verbatim>\<open>agent-runtime/internal/runtime/turns.go\<close>, with the
  session start and release of \<^verbatim>\<open>live.go\<close> and the thread set-up of
  \<^verbatim>\<open>services.go\<close>. An operation runs to its end before the next one starts: the store
  arbitrates what pods do at the same time, and this pod's table is behind a mutex.
\<close>

section \<open>Starting a thread\<close>

definition airush_source :: opaque where "airush_source = ''airush''"
definition provider_name :: string where "provider_name = ''airush-llm''"

definition engine_create_params :: "'c engine_env \<Rightarrow> string \<Rightarrow> string option \<Rightarrow> opaque \<Rightarrow> create_params" where
  "engine_create_params env tid parent source = \<lparr>cp_id = tid, cp_parent = parent, cp_forked_from = None,
     cp_provider = provider_name, cp_cwd = None, cp_memory_mode = [], cp_history_mode = cx_paginated (ee_cx env),
     cp_originator = [], cp_window = [], cp_history_base = None, cp_tools = [], cp_source = source,
     cp_thread_source = None, cp_base_instructions = []\<rparr>"

text \<open>The part of \<open>StartThread\<close> after the model is known: a fresh id, the row, its attributes.\<close>

definition start_thread_row :: "'c engine_env \<Rightarrow> go_ctx \<Rightarrow> string option \<Rightarrow> string \<Rightarrow> string \<Rightarrow> 'c engine
    \<Rightarrow> (go_error + string) \<times> 'c engine" where
  "start_thread_row env ctx agent model title e =
     (let tid = ac_new_id (ee_core env) (en_ids e); e1 = e\<lparr>en_ids := Suc (en_ids e)\<rparr>;
          m = or_default model (ec_default_model (ee_cfg env))
      in case store_call (\<lambda>flt. create_thread (ee_cx env) (ee_opts env) flt (gc_tenant ctx) (en_now e)
             (engine_create_params env tid None airush_source)) e1 of
         (Inl er, e2) \<Rightarrow> (Inl er, e2)
       | (Inr _, e2) \<Rightarrow> (case store_call (\<lambda>flt. in_tenant_tx flt (gc_tenant ctx) (set_thread_attributes_tx (en_now e)
             tid \<lparr>ta_agent = agent, ta_model = m, ta_title = title\<rparr>)) e2 of
           (Inl er, e3) \<Rightarrow> (Inl er, e3) | (Inr _, e3) \<Rightarrow> (Inr tid, e3)))"

definition start_thread :: "'c engine_env \<Rightarrow> go_ctx \<Rightarrow> start_thread_input \<Rightarrow> 'c engine \<Rightarrow> (go_error + string) \<times> 'c engine" where
  "start_thread env ctx i e = (case tenant_of ctx of Inl er \<Rightarrow> (Inl er, e) | Inr _ \<Rightarrow>
     if st_agent i = [] then start_thread_row env ctx None (st_model i) (st_title i) e
     else (case store_query (\<lambda>flt. get_agent flt (gc_tenant ctx) (st_agent i)) e of
         (Inl er, e1) \<Rightarrow> (Inl er, e1)
       | (Inr a, e1) \<Rightarrow> start_thread_row env ctx (Some (ap_id a))
            (or_default (st_model i) (ap_model a)) (st_title i) e1))"

text \<open>\<open>ensureThreadRow\<close>: the row of a thread that the library spawns itself; one that exists
  (an invalid request) is fine.\<close>

definition ensure_thread_row :: "'c engine_env \<Rightarrow> go_ctx \<Rightarrow> string \<Rightarrow> string option \<Rightarrow> opaque \<Rightarrow> string \<Rightarrow> 'c engine
    \<Rightarrow> (go_error + unit) \<times> 'c engine" where
  "ensure_thread_row env ctx tid parent source model e =
     (case store_call (\<lambda>flt. create_thread (ee_cx env) (ee_opts env) flt (gc_tenant ctx) (en_now e)
         (engine_create_params env tid parent source)) e of
       (Inl er, e1) \<Rightarrow> (if find_store er = Some SkInvalidRequest then (Inr (), e1) else (Inl er, e1))
     | (Inr _, e1) \<Rightarrow> store_call (\<lambda>flt. in_tenant_tx flt (gc_tenant ctx) (set_thread_attributes_tx (en_now e)
         tid \<lparr>ta_agent = None, ta_model = model, ta_title = []\<rparr>)) e1)"

text \<open>\<open>pgRecorder.Record\<close>: what a session records is appended, then the subscribers are told.\<close>

definition recorder_record :: "'c engine_env \<Rightarrow> go_ctx \<Rightarrow> string \<Rightarrow> rollout_item list \<Rightarrow> 'c engine
    \<Rightarrow> (go_error + unit) \<times> 'c engine" where
  "recorder_record env ctx tid items e =
     (case store_call (\<lambda>flt. append_items (ee_cx env) (ee_opts env) flt (gc_tenant ctx) (en_now e) tid items) e of
       (Inl er, e1) \<Rightarrow> (Inl er, e1) | (Inr _, e1) \<Rightarrow> (Inr (), emit (Notified tid) e1))"

section \<open>Starting and releasing a session\<close>

definition base_instructions :: string where
  "base_instructions = join [CHR 0x0A] [
     ''You are AIRush, a database operations assistant running inside a multi-tenant platform.'',
     ''You help operators understand and diagnose their database instances using the tools provided.'',
     ''You have no local shell or file system; every capability is a tool. Read-only tools run directly;'',
     ''tools that change customer systems require human approval, which is not available in this stage ''
       @ map char_of [226, 128, 148 :: nat],
     ''when such an action is needed, explain exactly what should be done and why instead of attempting it.'',
     ''Answer in the user'' @ [CHR 0x27] @ ''s language, be precise, and cite the data you used.'']"

definition session_config_of :: "engine_cfg \<Rightarrow> thread_info \<Rightarrow> agent_profile option \<Rightarrow> session_config" where
  "session_config_of c i agent = \<lparr>sc_provider = provider_name,
     sc_base_instructions = (case agent of None \<Rightarrow> base_instructions
       | Some a \<Rightarrow> if trim_space (ap_doc a) = [] then base_instructions
           else base_instructions @ [CHR 0x0A, CHR 0x0A] @ ''# Agent instructions'' @ [CHR 0x0A, CHR 0x0A]
                  @ trim_space (ap_doc a)),
     sc_extended_history = True, sc_approval = ''never'', sc_sandbox = ''read-only'', sc_cwd = ''/'',
     sc_model = or_default (i_model i) (ec_default_model c)\<rparr>"

definition start_live :: "'c engine_env \<Rightarrow> go_ctx \<Rightarrow> thread_info \<Rightarrow> agent_profile option \<Rightarrow> bool \<Rightarrow> 'c engine
    \<Rightarrow> (go_error + live) \<times> 'c engine" where
  "start_live env ctx i agent slot e = (case tenant_of ctx of Inl er \<Rightarrow> (Inl er, e) | Inr tenant \<Rightarrow>
     (let info = \<lparr>si_tenant = tenant, si_agent = or_empty (i_agent i), si_thread = i_id i, si_trace = i_id i\<rparr>;
          sctx = \<lparr>gc_tenant = Some tenant, gc_info = Some info\<rparr>;
          cfg = session_config_of (ee_cfg env) i agent
      in case core_call ((if i_last_seq i = 0 then ac_start (ee_core env) else ac_resume (ee_core env)) sctx cfg (i_id i)) e of
         (Inl er, e1) \<Rightarrow> (Inl er, e1)
       | (Inr _, e1) \<Rightarrow> (let l = \<lparr>lt_serial = en_serial e, lt_id = i_id i, lt_ctx = sctx, lt_tenant = tenant,
               lt_turn = [], lt_running = False, lt_started = None, lt_failed = False, lt_steered = False, lt_slot = slot\<rparr>
           in (Inr l, put_live l (e1\<lparr>en_serial := Suc (en_serial e)\<rparr>)))))"

text \<open>
  \<open>releaseChildren\<close> closes the sessions of the descendants that are still there. A descendants
  query that does not return is ended by the database with an error, which skips the loop.
\<close>

definition release_children :: "'c engine_env \<Rightarrow> go_ctx \<Rightarrow> string \<Rightarrow> 'c engine \<Rightarrow> 'c engine" where
  "release_children env ctx tid e =
     (case store_query (\<lambda>flt d. fst (in_tenant_tx flt (gc_tenant ctx) (\<lambda>s. case list_spawn_descendants tid None s of
           None \<Rightarrow> Inl (StoreErr SkInternal) | Some ids \<Rightarrow> Inr (ids, s)) d)) e of
       (Inl _, e1) \<Rightarrow> e1
     | (Inr ids, e1) \<Rightarrow> e1\<lparr>en_core := foldl (\<lambda>c i. ac_remove (ee_core env) i c) (en_core e1) ids\<rparr>)"

definition release_limiter :: "live \<Rightarrow> 'c engine \<Rightarrow> 'c engine" where
  "release_limiter l e = (if lt_slot l
     then e\<lparr>en_limiter := map_option (release_slot (lt_tenant l)) (en_limiter e)\<rparr> else e)"

definition drop_live :: "live \<Rightarrow> 'c engine \<Rightarrow> 'c engine" where
  "drop_live l e = e\<lparr>en_live := filter (\<lambda>k. lt_serial k \<noteq> lt_serial l) (en_live e)\<rparr>"

text \<open>\<open>release\<close>, once per object: off the table, children, lease, slot, session, subscribers.\<close>

definition release_live :: "'c engine_env \<Rightarrow> live \<Rightarrow> tstatus \<Rightarrow> 'c engine \<Rightarrow> 'c engine" where
  "release_live env l to e = (if lt_serial l \<in> set (en_released e) then e else
     (let e1 = release_children env (lt_ctx l) (lt_id l) (drop_live l e);
          e2 = snd (store_call (\<lambda>flt. release_turn flt (gc_tenant (lt_ctx l)) (en_now e) (lt_id l) to) e1);
          e3 = release_limiter l e2
      in emit (Notified (lt_id l)) (e3\<lparr>en_core := ac_shutdown (ee_core env) (lt_id l) (en_core e3),
           en_released := lt_serial l # en_released e3\<rparr>)))"

section \<open>Feeding and dispatching\<close>

definition delete_input :: "live \<Rightarrow> string \<Rightarrow> 'c engine \<Rightarrow> 'c engine" where
  "delete_input l qid e = snd (store_call (\<lambda>flt. in_tenant_tx flt (gc_tenant (lt_ctx l)) (delete_input_tx qid)) e)"

definition admit_input :: "live \<Rightarrow> string \<Rightarrow> string \<Rightarrow> 'c engine \<Rightarrow> 'c engine" where
  "admit_input l qid turn e = snd (store_call (\<lambda>flt. in_tenant_tx flt (gc_tenant (lt_ctx l)) (admit_input_tx qid turn)) e)"

text \<open>
  The loop of \<open>feed\<close>: a payload that does not decode is deleted, an interrupt is delivered and
  deleted, an input is submitted; a session that is closing ends the loop and leaves the rest queued.
\<close>

fun feed_each :: "'c engine_env \<Rightarrow> live \<Rightarrow> queue_row list \<Rightarrow> string \<Rightarrow> bool \<Rightarrow> 'c engine \<Rightarrow> (string \<times> bool) \<times> 'c engine" where
  "feed_each env l [] turn adm e = ((turn, adm), e)"
| "feed_each env l (q # qs) turn adm e = (case unmarshal_payload (ee_core env) (q_payload q) of
     None \<Rightarrow> feed_each env l qs turn adm (delete_input l (q_id q) e)
   | Some p \<Rightarrow> if qp_type p = queued_interrupt
       then feed_each env l qs turn adm
              (delete_input l (q_id q) (snd (core_call (ac_interrupt (ee_core env) (lt_id l)) e)))
       else (case core_call (ac_submit (ee_core env) (lt_id l) (qp_items p)) e of
           (AgentDied, e1) \<Rightarrow> ((turn, adm), e1)
         | (AdmError _, e1) \<Rightarrow> feed_each env l qs turn adm e1
         | (AdmStarted t, e1) \<Rightarrow> feed_each env l qs t True
              (admit_input l (q_id q) t (update_live (lt_serial l) (mark_admission t False) e1))
         | (AdmSteered t, e1) \<Rightarrow> feed_each env l qs t True
              (admit_input l (q_id q) t (update_live (lt_serial l) (mark_admission t True) e1))))"

definition feed :: "'c engine_env \<Rightarrow> live \<Rightarrow> 'c engine \<Rightarrow> (go_error + string \<times> bool) \<times> 'c engine" where
  "feed env l e = (case store_query (\<lambda>flt d. fst (in_tenant_tx flt (gc_tenant (lt_ctx l))
       (\<lambda>s. Inr (pending_inputs (lt_id l) s, s)) d)) e of
     (Inl er, e1) \<Rightarrow> (Inl er, e1)
   | (Inr qs, e1) \<Rightarrow> (case feed_each env l qs [] False e1 of (r, e2) \<Rightarrow> (Inr r, e2)))"

definition acquire_slot :: "string \<Rightarrow> 'c engine \<Rightarrow> bool \<times> 'c engine" where
  "acquire_slot t e = (case en_limiter e of None \<Rightarrow> (True, e)
     | Some l \<Rightarrow> (case try_acquire t l of (b, l') \<Rightarrow> (b, e\<lparr>en_limiter := Some l'\<rparr>)))"

definition unclaim :: "'c engine_env \<Rightarrow> go_ctx \<Rightarrow> string \<Rightarrow> 'c engine \<Rightarrow> 'c engine" where
  "unclaim env ctx tid e = snd (store_call (\<lambda>flt. release_turn flt (gc_tenant ctx) (en_now e) tid Idle) e)"

text \<open>The claimed part of \<open>dispatch\<close>: slot, agent, session, feed.\<close>

definition run_claimed :: "'c engine_env \<Rightarrow> go_ctx \<Rightarrow> thread_info \<Rightarrow> 'c engine \<Rightarrow> (go_error + string \<times> bool) \<times> 'c engine" where
  "run_claimed env ctx i e = (let tenant = (case tenant_of ctx of Inl _ \<Rightarrow> [] | Inr t \<Rightarrow> t) in
     case acquire_slot tenant e of
       (False, e1) \<Rightarrow> (Inr ([], False), unclaim env ctx (i_id i) e1)
     | (True, e1) \<Rightarrow>
        (let (agent, e2) = (case i_agent i of None \<Rightarrow> (None, e1)
              | Some a \<Rightarrow> (case store_query (\<lambda>flt. get_agent flt (gc_tenant ctx) a) e1 of
                   (Inl _, e2) \<Rightarrow> (None, e2) | (Inr p, e2) \<Rightarrow> (Some p, e2)))
         in case start_live env ctx i agent (en_limiter e2 \<noteq> None) e2 of
              (Inr l, e3) \<Rightarrow> feed env l e3
            | (Inl er, e3) \<Rightarrow> (Inl (Wrapf (''start thread session '' @ i_id i) er),
                unclaim env ctx (i_id i) (e3\<lparr>en_limiter := map_option (release_slot tenant) (en_limiter e3)\<rparr>))))"

definition dispatch :: "'c engine_env \<Rightarrow> go_ctx \<Rightarrow> thread_info \<Rightarrow> 'c engine \<Rightarrow> (go_error + string \<times> bool) \<times> 'c engine" where
  "dispatch env ctx i e = (case live_for (i_id i) e of
     Some l \<Rightarrow> feed env l e
   | None \<Rightarrow> if en_draining e then (Inr ([], False), e)
       else (case store_call (\<lambda>flt. claim_turn flt (gc_tenant ctx) (en_now e) (i_id i) (ec_pod (ee_cfg env))) e of
           (Inl er, e1) \<Rightarrow> (Inl er, e1)
         | (Inr False, e1) \<Rightarrow> (Inr ([], False), e1)
         | (Inr True, e1) \<Rightarrow> run_claimed env ctx i e1))"

section \<open>The operations of AgentCore\<close>

definition kind_for :: "string \<Rightarrow> 'c engine \<Rightarrow> queue_kind" where
  "kind_for tid e = (case live_for tid e of Some l \<Rightarrow> if lt_running l then Steer else Queued | None \<Rightarrow> Queued)"

definition is_steer :: "string \<Rightarrow> string \<Rightarrow> 'c engine \<Rightarrow> bool" where
  "is_steer tid turn e = (case live_for tid e of Some l \<Rightarrow> lt_turn l = turn \<and> lt_steered l | None \<Rightarrow> False)"

definition engine_enqueue :: "'c engine_env \<Rightarrow> go_ctx \<Rightarrow> string \<Rightarrow> queued_payload \<Rightarrow> queue_kind \<Rightarrow> 'c engine
    \<Rightarrow> (go_error + string) \<times> 'c engine" where
  "engine_enqueue env ctx tid p kind e = (case marshal_payload (ee_core env) p of
     None \<Rightarrow> (Inl (api_wrap CodeValidationFailed (Plain ''json'')), e)
   | Some raw \<Rightarrow> (let qid = ac_new_id (ee_core env) (en_ids e); e1 = e\<lparr>en_ids := Suc (en_ids e)\<rparr>
       in case store_call (\<lambda>flt. in_tenant_tx flt (gc_tenant ctx)
            (enqueue_input_tx (ee_cx env) (en_now e) tid qid kind raw)) e1 of
          (Inl er, e2) \<Rightarrow> (Inl er, e2) | (Inr _, e2) \<Rightarrow> (Inr qid, e2)))"

definition submit_turn :: "'c engine_env \<Rightarrow> go_ctx \<Rightarrow> string \<Rightarrow> user_input list \<Rightarrow> 'c engine \<Rightarrow> (go_error + turn_ref) \<times> 'c engine" where
  "submit_turn env ctx tid items e = (if items = [] then (Inl (api_err CodeValidationFailed), e)
     else case store_query (\<lambda>flt. get_thread_info flt (gc_tenant ctx) tid) e of
         (Inl er, e1) \<Rightarrow> (Inl er, e1)
       | (Inr i, e1) \<Rightarrow> if i_status i = Archived then (Inl (api_err CodeAgentThreadNotFound), e1)
           else (case engine_enqueue env ctx tid \<lparr>qp_type = queued_user_input, qp_items = items\<rparr> (kind_for tid e1) e1 of
               (Inl er, e2) \<Rightarrow> (Inl er, e2)
             | (Inr _, e2) \<Rightarrow> (case dispatch env ctx i e2 of
                   (Inl er, e3) \<Rightarrow> (Inl er, e3)
                 | (Inr (turn, adm), e3) \<Rightarrow> (Inr (if adm then \<lparr>tr_turn = turn, tr_queued = is_steer tid turn e3\<rparr>
                      else \<lparr>tr_turn = [], tr_queued = True\<rparr>), e3))))"

definition interrupt :: "'c engine_env \<Rightarrow> go_ctx \<Rightarrow> string \<Rightarrow> 'c engine \<Rightarrow> (go_error + unit) \<times> 'c engine" where
  "interrupt env ctx tid e = (case store_query (\<lambda>flt. get_thread_info flt (gc_tenant ctx) tid) e of
     (Inl er, e1) \<Rightarrow> (Inl er, e1)
   | (Inr i, e1) \<Rightarrow> (case live_for tid e1 of
         Some l \<Rightarrow> core_call (ac_interrupt (ee_core env) (lt_id l)) e1
       | None \<Rightarrow> if i_status i \<noteq> Running then (Inr (), e1)
           else (case engine_enqueue env ctx tid \<lparr>qp_type = queued_interrupt, qp_items = []\<rparr> Steer e1 of
               (Inl er, e2) \<Rightarrow> (Inl er, e2) | (Inr _, e2) \<Rightarrow> (Inr (), e2))))"

definition forget_result :: "(go_error + 'r) \<times> 'c engine \<Rightarrow> (go_error + unit) \<times> 'c engine" where
  "forget_result r = (case r of (Inl er, e) \<Rightarrow> (Inl er, e) | (Inr _, e) \<Rightarrow> (Inr (), e))"

definition engine_resume :: "'c engine_env \<Rightarrow> go_ctx \<Rightarrow> string \<Rightarrow> 'c engine \<Rightarrow> (go_error + unit) \<times> 'c engine" where
  "engine_resume env ctx tid e = (case store_query (\<lambda>flt. get_thread_info flt (gc_tenant ctx) tid) e of
     (Inl er, e1) \<Rightarrow> (Inl er, e1)
   | (Inr i, e1) \<Rightarrow> if i_status i = Interrupted
       then (case store_call (\<lambda>flt. in_tenant_tx flt (gc_tenant ctx) (mark_idle_tx (en_now e) tid)) e1 of
           (Inl er, e2) \<Rightarrow> (Inl er, e2)
         | (Inr _, e2) \<Rightarrow> forget_result (dispatch env ctx (i\<lparr>i_status := Idle\<rparr>) e2))
       else forget_result (dispatch env ctx i e1))"

definition engine_dispatch :: "'c engine_env \<Rightarrow> go_ctx \<Rightarrow> string \<Rightarrow> 'c engine \<Rightarrow> (go_error + unit) \<times> 'c engine" where
  "engine_dispatch env ctx tid e = (case store_query (\<lambda>flt. get_thread_info flt (gc_tenant ctx) tid) e of
     (Inl er, e1) \<Rightarrow> (Inl er, e1) | (Inr i, e1) \<Rightarrow> forget_result (dispatch env ctx i e1))"

end
