(* ===== verification/EngineLoop.thy ===== *)
theory EngineLoop
  imports Engine
begin

text \<open>
  The background work of the engine: the event pump and the heartbeat of
  \<^verbatim>\<open>agent-runtime/internal/runtime/live.go\<close>, draining, recovery and maintenance of
  \<^verbatim>\<open>drain.go\<close>, and the event tail of \<^verbatim>\<open>events.go\<close>. A goroutine is
  the list of steps it makes; what others do while it waits is an argument.
\<close>

section \<open>The pump\<close>

text \<open>The session events the pump reacts to; \<open>CoreClosed\<close> is an error of \<open>NextEvent\<close>.\<close>

datatype core_event = CoreTurnStarted "string option" | CoreTurnComplete | CoreTurnAborted
  | CoreError "string option" | CoreOther | CoreClosed

definition dispatch_pending :: "'c engine_env \<Rightarrow> live \<Rightarrow> 'c engine \<Rightarrow> bool \<times> 'c engine" where
  "dispatch_pending env l e = (if en_draining e then (False, e)
     else case feed env l e of (Inl _, e1) \<Rightarrow> (False, e1) | (Inr (_, adm), e1) \<Rightarrow> (adm, e1))"

text \<open>One round of the loop; the answer says whether the pump goes on. The object is read from the
  table where the code follows its pointer; a released one is no longer there.\<close>

definition live_object :: "live \<Rightarrow> 'c engine \<Rightarrow> live" where
  "live_object l e = (case find (\<lambda>k. lt_serial k = lt_serial l) (en_live e) of Some k \<Rightarrow> k | None \<Rightarrow> l)"

definition turn_ended :: "'c engine_env \<Rightarrow> live \<Rightarrow> bool \<Rightarrow> 'c engine \<Rightarrow> bool \<times> 'c engine" where
  "turn_ended env l aborted e = (let k = live_object l e;
       e1 = update_live (lt_serial l) end_turn e;
       e2 = emit (Notified (lt_id l)) (emit (TurnEnded (turn_status_for aborted (lt_failed k)) (lt_started k)) e1)
     in if aborted \<and> en_draining e2 then (False, release_live env l Interrupted e2)
        else (case dispatch_pending env l e2 of
            (True, e3) \<Rightarrow> (True, e3)
          | (False, e3) \<Rightarrow> (False, release_live env l Idle e3)))"

definition pump_step :: "'c engine_env \<Rightarrow> live \<Rightarrow> core_event \<Rightarrow> 'c engine \<Rightarrow> bool \<times> 'c engine" where
  "pump_step env l ev e = (case ev of
     CoreClosed \<Rightarrow> (False, release_live env l Idle e)
   | CoreTurnStarted t \<Rightarrow> (case t of None \<Rightarrow> (True, e)
       | Some turn \<Rightarrow> (True, emit TurnStarted (update_live (lt_serial l) (set_turn turn (en_now e)) e)))
   | CoreTurnComplete \<Rightarrow> turn_ended env l False e
   | CoreTurnAborted \<Rightarrow> turn_ended env l True e
   | CoreError _ \<Rightarrow> (True, update_live (lt_serial l) mark_failed e)
   | CoreOther \<Rightarrow> (True, e))"

fun pump :: "'c engine_env \<Rightarrow> live \<Rightarrow> core_event list \<Rightarrow> 'c engine \<Rightarrow> bool \<times> 'c engine" where
  "pump env l [] e = (True, e)"
| "pump env l (ev # evs) e = (case pump_step env l ev e of (True, e1) \<Rightarrow> pump env l evs e1 | (False, e1) \<Rightarrow> (False, e1))"

definition heartbeat_step :: "'c engine_env \<Rightarrow> live \<Rightarrow> 'c engine \<Rightarrow> 'c engine" where
  "heartbeat_step env l e = (if lt_serial l \<in> set (en_released e) then e
     else snd (store_call (\<lambda>flt. heartbeat flt (gc_tenant (lt_ctx l)) (en_now e) (lt_id l) (ec_pod (ee_cfg env))) e))"

text \<open>\<open>pumpChild\<close> polls for the session of a spawned thread, at most fifty times.\<close>

fun poll_child :: "nat \<Rightarrow> bool list \<Rightarrow> bool" where
  "poll_child 0 found = False"
| "poll_child (Suc n) [] = False"
| "poll_child (Suc n) (f # fs) = (f \<or> poll_child n fs)"

definition pump_child :: "bool list \<Rightarrow> bool list \<Rightarrow> nat" where
  "pump_child found reads = (if poll_child 50 found then length (takeWhile id reads) else 0)"

section \<open>Draining\<close>

text \<open>
  What ends a wait of \<open>Drain\<close>, and the world of a drain: what the rest of the process does
  until the wait for an object ends, and during the grace period.
\<close>

datatype drain_wait = WaitReleased | WaitDeadline | WaitCancelled

record 'c drain_world =
  dw_wait :: "live \<Rightarrow> 'c engine \<Rightarrow> drain_wait \<times> 'c engine"
  dw_grace :: "live \<Rightarrow> 'c engine \<Rightarrow> 'c engine"

definition released :: "live \<Rightarrow> 'c engine \<Rightarrow> bool" where
  "released l e \<longleftrightarrow> lt_serial l \<in> set (en_released e)"

definition aborted_item :: "'c agent_core \<Rightarrow> string \<Rightarrow> int \<Rightarrow> rollout_item" where
  "aborted_item ac turn now = EventMsgItem (Some \<lparr>em_type = ''turn_aborted'', em_raw = [],
     em_body = ac_aborted ac turn (now div 1000000)\<rparr>)"

definition interrupt_for_drain :: "'c engine_env \<Rightarrow> 'c drain_world \<Rightarrow> live \<Rightarrow> 'c engine \<Rightarrow> 'c engine" where
  "interrupt_for_drain env w l e = (let k = live_object l e; turn = lt_turn k in
     if lt_running k
     then (let e2 = dw_grace w l (snd (core_call (ac_interrupt (ee_core env) (lt_id l)) e)) in
       if released l e2 then e2
       else release_live env l Interrupted (snd (store_call (\<lambda>flt. append_rollout_items (ee_cx env) (ee_opts env)
          flt (gc_tenant (lt_ctx l)) (en_now e2) (lt_id l) [aborted_item (ee_core env) turn (en_now e2)]) e2)))
     else release_live env l Interrupted e)"

fun drain_rest :: "'c engine_env \<Rightarrow> 'c drain_world \<Rightarrow> live list \<Rightarrow> 'c engine \<Rightarrow> 'c engine" where
  "drain_rest env w [] e = e"
| "drain_rest env w (l # ls) e = drain_rest env w ls (if released l e then e else interrupt_for_drain env w l e)"

fun drain_each :: "'c engine_env \<Rightarrow> 'c drain_world \<Rightarrow> live list \<Rightarrow> live list \<Rightarrow> 'c engine \<Rightarrow> 'c engine" where
  "drain_each env w snapshot [] e = e"
| "drain_each env w snapshot (l # ls) e = (case dw_wait w l e of
     (WaitReleased, e1) \<Rightarrow> drain_each env w snapshot ls e1
   | (WaitDeadline, e1) \<Rightarrow> drain_rest env w snapshot (interrupt_for_drain env w l e1)
   | (WaitCancelled, e1) \<Rightarrow> e1)"

definition drain :: "'c engine_env \<Rightarrow> 'c drain_world \<Rightarrow> 'c engine \<Rightarrow> 'c engine" where
  "drain env w e = drain_each env w (en_live e) (en_live e) (e\<lparr>en_draining := True\<rparr>)"

section \<open>Recovery and maintenance\<close>

definition recover :: "'c engine_env \<Rightarrow> bool \<Rightarrow> tx_fault list \<Rightarrow> 'c engine \<Rightarrow> (go_error + nat) \<times> 'c engine" where
  "recover env ok flts e = (case mark_stale_running_interrupted ok flts (en_now e) (2 * ec_heartbeat (ee_cfg env)) (en_db e) of
     (Inl er, d) \<Rightarrow> (Inl er, e\<lparr>en_db := d\<rparr>) | (Inr hits, d) \<Rightarrow> (Inr (length hits), e\<lparr>en_db := d\<rparr>))"

definition maintain_retry :: int where "maintain_retry = 15 * 1000000"
definition maintain_interval :: int where "maintain_interval = 3600 * 1000000"

text \<open>
  One round of \<open>Maintain\<close>: whether the partitions could be prepared and how the recovery scan
  went are what the database does; the answer is the new flag and the wait before the next round.
\<close>

record maintain_io =
  mi_partitions_ok :: bool
  mi_tenants_ok :: bool
  mi_faults :: "tx_fault list"

definition maintain_round :: "'c engine_env \<Rightarrow> maintain_io \<Rightarrow> bool \<times> int \<Rightarrow> 'c engine \<Rightarrow> (bool \<times> int) \<times> 'c engine" where
  "maintain_round env io st e = (let
       (rec1, e1) = (if \<not> mi_partitions_ok io \<or> fst st then (fst st, e)
          else case recover env (mi_tenants_ok io) (mi_faults io) e of
              (Inl _, e1) \<Rightarrow> (False, e1) | (Inr _, e1) \<Rightarrow> (True, e1))
     in ((rec1, if rec1 then maintain_interval else snd st), e1))"

fun maintain :: "'c engine_env \<Rightarrow> maintain_io list \<Rightarrow> bool \<times> int \<Rightarrow> 'c engine \<Rightarrow> (bool \<times> int) \<times> 'c engine" where
  "maintain env [] st e = (st, e)"
| "maintain env (io # ios) st e = (case maintain_round env io st e of (st1, e1) \<Rightarrow> maintain env ios st1 e1)"

section \<open>The event tail\<close>

definition event_batch :: int where "event_batch = 200"

definition event_of :: "stored_event \<Rightarrow> agent_event" where
  "event_of r = \<lparr>ev_seq = se_seq r, ev_turn = or_empty (se_turn r), ev_type = se_type r,
     ev_payload = se_payload r, ev_ref = or_empty (se_ref r)\<rparr>"

text \<open>
  \<open>forward\<close> pushes a batch; the reader may go away after \<open>room\<close> of its events (\<open>None\<close>: it takes
  them all). The flag says that the tail goes on.
\<close>

definition forward :: "tx_fault \<Rightarrow> string option \<Rightarrow> string \<Rightarrow> int \<Rightarrow> nat option \<Rightarrow> db \<Rightarrow> agent_event list \<times> bool" where
  "forward flt ctx tid from room d = (case fst (read_events flt ctx tid from event_batch d) of
     Inl _ \<Rightarrow> ([], False)
   | Inr rows \<Rightarrow> (case room of None \<Rightarrow> (map event_of rows, True)
       | Some n \<Rightarrow> (map event_of (take n rows), length rows \<le> n)))"

text \<open>What a round of the tail meets: the database of that moment, a fault, the reader, and whether
  the context ends in the wait, which a full batch skips.\<close>

record tail_round =
  tr_db :: db
  tr_fault :: tx_fault
  tr_room :: "nat option"
  tr_stop :: bool

fun tail_events :: "string option \<Rightarrow> string \<Rightarrow> int \<Rightarrow> tail_round list \<Rightarrow> agent_event list" where
  "tail_events ctx tid next [] = []"
| "tail_events ctx tid next (r # rs) = (case forward (tr_fault r) ctx tid next (tr_room r) (tr_db r) of
     (evs, goes_on) \<Rightarrow> evs @ (if \<not> goes_on \<or> (int (length evs) \<noteq> event_batch \<and> tr_stop r) then []
        else tail_events ctx tid (next + int (length evs)) rs))"

definition engine_events :: "tx_fault \<Rightarrow> string option \<Rightarrow> string \<Rightarrow> int \<Rightarrow> db \<Rightarrow> tail_round list
    \<Rightarrow> go_error + agent_event list" where
  "engine_events flt ctx tid from d rounds = (case get_thread_info flt ctx tid d of
     Inl er \<Rightarrow> Inl er
   | Inr _ \<Rightarrow> Inr (tail_events ctx tid (if from < 1 then 1 else from) rounds))"

end
