(* ===== verification/EngineInv.thy ===== *)
theory EngineInv
  imports EngineLoop
begin

text \<open>
  What the engine keeps: the table of held threads agrees with the tenant limiter and with the set
  of released objects, whatever the store, the session library and the other pods do. From it: the
  bound on a tenant's sessions, and that a draining pod takes nothing on.
\<close>

section \<open>The table\<close>

text \<open>The part of the engine that the invariant is about; a held thread without its turn state.\<close>

record hold =
  h_serial :: nat
  h_id :: string
  h_ctx :: go_ctx
  h_tenant :: string
  h_slot :: bool

record table =
  tb_holds :: "hold list"
  tb_limiter :: "tenant_limiter option"
  tb_released :: "nat list"
  tb_serial :: nat
  tb_draining :: bool

definition hold_of :: "live \<Rightarrow> hold" where
  "hold_of l = \<lparr>h_serial = lt_serial l, h_id = lt_id l, h_ctx = lt_ctx l, h_tenant = lt_tenant l, h_slot = lt_slot l\<rparr>"

definition table_of :: "'c engine \<Rightarrow> table" where
  "table_of e = \<lparr>tb_holds = map hold_of (en_live e), tb_limiter = en_limiter e, tb_released = en_released e,
     tb_serial = en_serial e, tb_draining = en_draining e\<rparr>"

definition tenant_holds :: "string \<Rightarrow> hold list \<Rightarrow> nat" where
  "tenant_holds t hs = length (filter (\<lambda>h. h_tenant h = t) hs)"

definition hold_ok :: "table \<Rightarrow> hold \<Rightarrow> bool" where
  "hold_ok t h \<longleftrightarrow> h_serial h < tb_serial t \<and> h_serial h \<notin> set (tb_released t)
     \<and> gc_tenant (h_ctx h) = Some (h_tenant h) \<and> h_slot h = (tb_limiter t \<noteq> None)"

definition slots_agree :: "int option \<Rightarrow> hold list \<Rightarrow> tenant_limiter option \<Rightarrow> bool" where
  "slots_agree cap hs lim \<longleftrightarrow> map_option tl_max lim = cap \<and> (case lim of None \<Rightarrow> True | Some l \<Rightarrow> limiter_ok l
     \<and> (0 < tl_max l \<longrightarrow> (\<forall>t. in_flight t l = int (tenant_holds t hs))))"

definition table_ok :: "int option \<Rightarrow> table \<Rightarrow> bool" where
  "table_ok cap t \<longleftrightarrow> distinct (map h_serial (tb_holds t)) \<and> distinct (map h_id (tb_holds t))
     \<and> (\<forall>h \<in> set (tb_holds t). hold_ok t h) \<and> (\<forall>n \<in> set (tb_released t). n < tb_serial t)
     \<and> slots_agree cap (tb_holds t) (tb_limiter t)"

definition engine_ok :: "int option \<Rightarrow> 'c engine \<Rightarrow> bool" where
  "engine_ok cap e \<longleftrightarrow> table_ok cap (table_of e)"

lemma hold_of_fields [simp]: "h_serial (hold_of l) = lt_serial l" "h_id (hold_of l) = lt_id l"
  "h_ctx (hold_of l) = lt_ctx l" "h_tenant (hold_of l) = lt_tenant l" "h_slot (hold_of l) = lt_slot l"
  by (simp_all add: hold_of_def)

section \<open>Frames\<close>

named_theorems table_simps \<open>what the building blocks do to the table\<close>

lemma store_call_table: "store_call f e = (r, e') \<Longrightarrow> table_of e' = table_of e"
  by (auto simp: store_call_def table_of_def split: prod.splits)

lemma store_query_table: "store_query f e = (r, e') \<Longrightarrow> table_of e' = table_of e"
  by (auto simp: store_query_def table_of_def)

lemma core_call_table: "core_call f e = (r, e') \<Longrightarrow> table_of e' = table_of e"
  by (auto simp: core_call_def table_of_def split: prod.splits)

lemma snd_calls_table [table_simps]: "table_of (snd (store_call f e)) = table_of e"
  "table_of (snd (store_query f e)) = table_of e" "table_of (snd (core_call g e)) = table_of e"
  using store_call_table store_query_table core_call_table by (metis prod.collapse)+

lemma update_table [table_simps]:
  "table_of (emit x e) = table_of e" "table_of (e\<lparr>en_ids := n\<rparr>) = table_of e"
  "table_of (e\<lparr>en_core := c\<rparr>) = table_of e" "table_of (e\<lparr>en_db := d\<rparr>) = table_of e"
  "table_of (e\<lparr>en_limiter := lim\<rparr>) = (table_of e)\<lparr>tb_limiter := lim\<rparr>"
  "table_of (e\<lparr>en_draining := b\<rparr>) = (table_of e)\<lparr>tb_draining := b\<rparr>"
  "table_of (e\<lparr>en_released := ns\<rparr>) = (table_of e)\<lparr>tb_released := ns\<rparr>"
  by (simp_all add: table_of_def emit_def)

lemma update_live_table [table_simps]:
  "(\<And>k. hold_of (f k) = hold_of k) \<Longrightarrow> table_of (update_live n f e) = table_of e"
  by (simp add: table_of_def update_live_def)

lemma hold_of_updates [simp]: "hold_of (mark_admission t b k) = hold_of k" "hold_of (set_turn t n k) = hold_of k"
  "hold_of (end_turn k) = hold_of k" "hold_of (mark_failed k) = hold_of k"
  by (simp_all add: hold_of_def mark_admission_def set_turn_def end_turn_def mark_failed_def)

lemma inputs_table [table_simps]: "table_of (delete_input l q e) = table_of e"
  "table_of (admit_input l q t e) = table_of e" "table_of (unclaim env ctx tid e) = table_of e"
  by (simp_all add: delete_input_def admit_input_def unclaim_def table_simps)

lemmas call_tables = store_call_table store_query_table core_call_table

lemma feed_each_table: "feed_each env l qs turn adm e = (r, e') \<Longrightarrow> table_of e' = table_of e"
proof (induction qs arbitrary: turn adm e)
  case (Cons q qs)
  from Cons.prems show ?case
    by (auto simp: table_simps split: option.splits if_splits prod.splits admission.splits
        dest!: Cons.IH core_call_table)
qed simp

lemma feed_table: "feed env l e = (r, e') \<Longrightarrow> table_of e' = table_of e"
  by (auto simp: feed_def split: prod.splits sum.splits dest!: feed_each_table store_query_table)

section \<open>Releasing\<close>

definition release_hold :: "hold \<Rightarrow> table \<Rightarrow> table" where
  "release_hold h t = t\<lparr>tb_holds := filter (\<lambda>k. h_serial k \<noteq> h_serial h) (tb_holds t),
     tb_limiter := (if h_slot h then map_option (release_slot (h_tenant h)) (tb_limiter t) else tb_limiter t),
     tb_released := h_serial h # tb_released t\<rparr>"

lemma distinct_serial_filter:
  assumes "distinct (map h_serial hs)" "h \<in> set hs"
  shows "tenant_holds t (filter (\<lambda>k. h_serial k \<noteq> h_serial h) hs)
    = (if t = h_tenant h then tenant_holds t hs - 1 else tenant_holds t hs)"
    "h_tenant h = t \<Longrightarrow> 0 < tenant_holds t hs"
proof -
  have "filter (\<lambda>k. h_serial k \<noteq> h_serial h) hs = filter (\<lambda>k. h \<noteq> k) hs"
    by (rule filter_cong) (use assms in \<open>auto simp: distinct_map dest: inj_onD\<close>)
  also have "\<dots> = remove1 h hs"
    using assms(1) by (simp add: distinct_map distinct_remove1_removeAll removeAll_filter_not_eq)
  finally have "filter (\<lambda>k. h_serial k \<noteq> h_serial h) hs = remove1 h hs" .
  moreover have "tenant_holds t (remove1 h hs) = (if t = h_tenant h then tenant_holds t hs - 1 else tenant_holds t hs)"
    using assms(2) by (auto simp: tenant_holds_def filter_remove1 length_remove1)
  ultimately show "tenant_holds t (filter (\<lambda>k. h_serial k \<noteq> h_serial h) hs)
    = (if t = h_tenant h then tenant_holds t hs - 1 else tenant_holds t hs)" by simp
  show "h_tenant h = t \<Longrightarrow> 0 < tenant_holds t hs"
    using assms(2) by (auto simp: tenant_holds_def filter_empty_conv)
qed

lemma release_hold_ok:
  assumes "table_ok cap t" "h \<in> set (tb_holds t)"
  shows "table_ok cap (release_hold h t)"
proof -
  have d: "distinct (map h_serial (tb_holds t))" "distinct (map h_id (tb_holds t))"
    and h: "hold_ok t h" using assms by (simp_all add: table_ok_def)
  have "slots_agree cap (tb_holds (release_hold h t)) (tb_limiter (release_hold h t))"
  proof (cases "tb_limiter t")
    case (Some lim)
    with h have s: "h_slot h" by (simp add: hold_ok_def)
    have l: "limiter_ok lim" "Some (tl_max lim) = cap" "0 < tl_max lim \<Longrightarrow> in_flight u lim = int (tenant_holds u (tb_holds t))" for u
      using assms(1) Some by (simp_all add: table_ok_def slots_agree_def)
    with s Some distinct_serial_filter [OF d(1) assms(2)] show ?thesis
      by (auto simp: release_hold_def slots_agree_def in_flight_release)
  qed (use assms(1) in \<open>simp add: release_hold_def slots_agree_def table_ok_def\<close>)
  moreover have "\<forall>k \<in> set (tb_holds (release_hold h t)). hold_ok (release_hold h t) k"
    using assms(1) by (auto simp: table_ok_def release_hold_def hold_ok_def)
  ultimately show ?thesis using assms d h
    by (auto simp: table_ok_def release_hold_def hold_ok_def distinct_map_filter)
qed

lemma release_children_table [table_simps]: "table_of (release_children env ctx tid e) = table_of e"
  by (auto simp: release_children_def table_simps split: prod.splits sum.splits dest: store_query_table)

lemma release_live_table:
  "table_of (release_live env l to e) = (if lt_serial l \<in> set (en_released e) then table_of e
     else release_hold (hold_of l) (table_of e))"
proof -
  have 1: "table_of (drop_live l e) = (table_of e)\<lparr>tb_holds := filter (\<lambda>k. h_serial k \<noteq> lt_serial l) (tb_holds (table_of e))\<rparr>"
    for e :: "'a engine" by (simp add: table_of_def drop_live_def filter_map o_def hold_of_def)
  have 2: "table_of (release_limiter l e) = (table_of e)\<lparr>tb_limiter := (if lt_slot l
      then map_option (release_slot (lt_tenant l)) (tb_limiter (table_of e)) else tb_limiter (table_of e))\<rparr>"
    for e :: "'a engine" by (simp add: table_of_def release_limiter_def)
  have 3: "en_released e = tb_released (table_of e)" for e :: "'a engine" by (simp add: table_of_def)
  show ?thesis
    by (simp add: release_live_def Let_def table_simps 1 2 3 release_hold_def hold_of_def)
qed

lemma release_live_ok:
  assumes "engine_ok cap e" "l' \<in> set (en_live e)" "hold_of l' = hold_of l"
  shows "engine_ok cap (release_live env l to e)"
proof -
  have "hold_of l \<in> set (tb_holds (table_of e))"
    using imageI [OF assms(2), of hold_of] assms(3) by (simp add: table_of_def)
  with assms(1) show ?thesis by (simp add: engine_ok_def release_live_table release_hold_ok)
qed

section \<open>Dispatching\<close>

lemma find_live: "live_for tid e = Some l \<Longrightarrow> l \<in> set (en_live e) \<and> lt_id l = tid"
  by (auto simp: live_for_def find_Some_iff)

lemma find_live_None: "live_for tid e = None \<longleftrightarrow> tid \<notin> h_id ` set (tb_holds (table_of e))"
  by (auto simp: live_for_def find_None_iff table_of_def image_image)

definition add_hold :: "hold \<Rightarrow> table \<Rightarrow> table" where
  "add_hold h t = t\<lparr>tb_holds := tb_holds t @ [h], tb_serial := Suc (tb_serial t)\<rparr>"

lemma start_live_table:
  assumes "start_live env ctx i agent slot e = (r, e')" "live_for (i_id i) e = None"
  shows "case r of Inl _ \<Rightarrow> table_of e' = table_of e
    | Inr l \<Rightarrow> (\<exists>t. tenant_of ctx = Inr t \<and> table_of e' = add_hold (hold_of l) (table_of e)
        \<and> l \<in> set (en_live e') \<and> lt_serial l = en_serial e \<and> lt_id l = i_id i \<and> lt_tenant l = t
        \<and> gc_tenant (lt_ctx l) = Some t \<and> lt_slot l = slot)"
proof (cases "tenant_of ctx")
  case (Inl er)
  with assms(1) show ?thesis by (auto simp: start_live_def)
next
  case (Inr t)
  define f where "f = (if i_last_seq i = 0 then ac_start (ee_core env) else ac_resume (ee_core env))"
  obtain r1 e1 where c: "core_call (f \<lparr>gc_tenant = Some t, gc_info = Some \<lparr>si_tenant = t, si_agent = or_empty (i_agent i),
      si_thread = i_id i, si_trace = i_id i\<rparr>\<rparr> (session_config_of (ee_cfg env) i agent) (i_id i)) e = (r1, e1)"
    by fastforce
  have e1: "en_live e1 = en_live e" "en_limiter e1 = en_limiter e" "en_released e1 = en_released e"
    "en_draining e1 = en_draining e" "en_serial e1 = en_serial e"
    using c by (auto simp: core_call_def split: prod.splits)
  have no: "filter (\<lambda>k. lt_id k \<noteq> i_id i) (en_live e) = en_live e"
    using assms(2) by (auto simp: filter_id_conv live_for_def find_None_iff)
  show ?thesis
  proof (cases r1)
    case (Inl er)
    with assms(1) Inr c show ?thesis by (auto simp: start_live_def Let_def f_def [symmetric] core_call_table)
  next
    case (Inr u)
    with assms(1) \<open>tenant_of ctx = Inr t\<close> c no show ?thesis
      by (auto simp: start_live_def Let_def f_def [symmetric] put_live_def add_hold_def table_of_def hold_of_def e1)
  qed
qed

lemma in_flight_acquire:
  "try_acquire u l = (True, l') \<Longrightarrow> 0 < tl_max l \<Longrightarrow>
     tl_max l' = tl_max l \<and> in_flight t l' = in_flight t l + (if t = u then 1 else 0)"
  by (auto simp: try_acquire_def split: if_splits)

lemma slots_agree_acquired:
  assumes "slots_agree cap hs (Some l)" "try_acquire u l = (True, l')"
  shows "h_tenant h = u \<Longrightarrow> slots_agree cap (hs @ [h]) (Some l')" "slots_agree cap hs (Some (release_slot u l'))"
proof -
  have l: "limiter_ok l" "limiter_ok l'" "tl_max l' = tl_max l" "Some (tl_max l) = cap"
    using assms try_acquire_ok [of l u] tl_max_ops(1) [of u l] by (auto simp: slots_agree_def)
  have a: "0 < tl_max l \<Longrightarrow> in_flight t l' = int (tenant_holds t hs) + (if t = u then 1 else 0)" for t
    using assms in_flight_acquire [OF assms(2)] by (auto simp: slots_agree_def)
  show "h_tenant h = u \<Longrightarrow> slots_agree cap (hs @ [h]) (Some l')"
    using l a by (auto simp: slots_agree_def tenant_holds_def)
  show "slots_agree cap hs (Some (release_slot u l'))"
    using l a by (auto simp: slots_agree_def in_flight_release)
qed

lemma slots_agree_refused: "slots_agree cap hs (Some l) \<Longrightarrow> try_acquire u l = (False, l') \<Longrightarrow> l' = l"
  by (auto simp: try_acquire_def split: if_splits)

lemma table_ok_limiter:
  "table_ok cap t \<Longrightarrow> slots_agree cap (tb_holds t) lim \<Longrightarrow> (lim = None) = (tb_limiter t = None) \<Longrightarrow>
     table_ok cap (t\<lparr>tb_limiter := lim\<rparr>)"
  by (auto simp: table_ok_def hold_ok_def)

lemma add_hold_ok:
  assumes "table_ok cap t" "slots_agree cap (tb_holds t @ [h]) lim" "(lim = None) = (tb_limiter t = None)"
    "h_serial h = tb_serial t" "h_id h \<notin> h_id ` set (tb_holds t)" "gc_tenant (h_ctx h) = Some (h_tenant h)"
    "h_slot h = (lim \<noteq> None)"
  shows "table_ok cap (add_hold h (t\<lparr>tb_limiter := lim\<rparr>))"
  using assms by (auto simp: table_ok_def add_hold_def hold_ok_def)

lemma run_claimed_ok:
  assumes "engine_ok cap e" "live_for (i_id i) e = None" "run_claimed env ctx i e = (r, e')"
  shows "engine_ok cap e' \<and> en_draining e' = en_draining e"
proof -
  define u where "u = (case tenant_of ctx of Inl _ \<Rightarrow> [] | Inr t \<Rightarrow> t)"
  obtain b e1 where a: "acquire_slot u e = (b, e1)" by fastforce
  have t: "table_ok cap (table_of e)" "en_limiter e = tb_limiter (table_of e)" "en_draining e = tb_draining (table_of e)"
    using assms(1) by (simp_all add: engine_ok_def table_of_def)
  have agree: "slots_agree cap (tb_holds (table_of e)) (en_limiter e)" using t by (simp add: table_ok_def)
  have t1: "table_of e1 = (table_of e)\<lparr>tb_limiter := en_limiter e1\<rparr>"
    and same: "(en_limiter e1 = None) = (en_limiter e = None)"
    using a by (auto simp: acquire_slot_def table_of_def split: option.splits prod.splits)
  have result: "engine_ok cap e' \<and> en_draining e' = en_draining e" if "table_ok cap (table_of e')" "tb_draining (table_of e') = tb_draining (table_of e)"
    using that by (simp add: engine_ok_def table_of_def)
  show ?thesis
  proof (cases b)
    case False
    then obtain lim lim' where lim: "en_limiter e = Some lim" "try_acquire u lim = (False, lim')"
        "e1 = e\<lparr>en_limiter := Some lim'\<rparr>"
      using a by (auto simp: acquire_slot_def split: option.splits prod.splits)
    moreover have "lim' = lim" by (rule slots_agree_refused [OF _ lim(2)]) (use agree lim(1) in simp)
    ultimately have "table_of e1 = table_of e" by (simp add: table_of_def)
    with assms(3) a False t show ?thesis by (intro result) (auto simp: run_claimed_def u_def table_simps)
  next
    case True
    obtain agent e2 where g: "(case i_agent i of None \<Rightarrow> (None, e1)
        | Some a \<Rightarrow> (case store_query (\<lambda>flt. get_agent flt (gc_tenant ctx) a) e1 of
            (Inl _, e2) \<Rightarrow> (None, e2) | (Inr p, e2) \<Rightarrow> (Some p, e2))) = (agent, e2)" by fastforce
    then have t2: "table_of e2 = table_of e1"
      by (auto split: option.splits prod.splits sum.splits dest: store_query_table)
    then have lim2: "en_limiter e2 = en_limiter e1" by (simp add: table_of_def)
    have none: "live_for (i_id i) e2 = None" using assms(2) t1 t2 by (simp add: find_live_None)
    have acq: "slots_agree cap (tb_holds (table_of e)) (map_option (release_slot u) (en_limiter e1))"
      "h_tenant h = u \<Longrightarrow> slots_agree cap (tb_holds (table_of e) @ [h]) (en_limiter e1)" for h
      using a True agree by (auto simp: acquire_slot_def slots_agree_acquired split: option.splits prod.splits)
        (auto simp: slots_agree_def)
    obtain x e3 where s: "start_live env ctx i agent (en_limiter e2 \<noteq> None) e2 = (x, e3)" by fastforce
    from start_live_table [OF this none] show ?thesis
    proof (cases x)
      case (Inl er)
      with start_live_table [OF s none] t1 t2 have t3: "table_of e3 = (table_of e)\<lparr>tb_limiter := en_limiter e1\<rparr>" by simp
      then have "en_limiter e3 = en_limiter e1" by (simp add: table_of_def)
      with assms(3) a True g s Inl t3 t acq same show ?thesis
        by (intro result) (auto simp: run_claimed_def u_def [symmetric] table_simps intro!: table_ok_limiter)
    next
      case (Inr l)
      with start_live_table [OF s none] obtain tn where l: "tenant_of ctx = Inr tn"
        "table_of e3 = add_hold (hold_of l) (table_of e2)" "lt_serial l = en_serial e2" "lt_id l = i_id i"
        "lt_tenant l = tn" "gc_tenant (lt_ctx l) = Some tn" "lt_slot l = (en_limiter e2 \<noteq> None)" by auto
      have "u = tn" using l(1) by (simp add: u_def)
      moreover have "en_serial e2 = tb_serial (table_of e)"
        using t1 t2 by (metis table.select_convs(4) table.surjective table.update_convs(2) table_of_def)
      moreover have "i_id i \<notin> h_id ` set (tb_holds (table_of e))" using assms(2) by (simp add: find_live_None)
      ultimately have "table_ok cap (table_of e3)"
        using t same l acq(2) lim2 unfolding l(2) t2 t1 by (intro add_hold_ok) auto
      moreover have "table_of e' = table_of e3"
        using assms(3) a True g s Inr by (auto simp: run_claimed_def u_def [symmetric] dest: feed_table)
      ultimately show ?thesis using l(2) t1 t2 by (intro result) (auto simp: add_hold_def)
    qed
  qed
qed

text \<open>A dispatch keeps the invariant; a draining pod does not change its table.\<close>

definition kept :: "int option \<Rightarrow> 'c engine \<Rightarrow> 'c engine \<Rightarrow> bool" where
  "kept cap e e' \<longleftrightarrow> engine_ok cap e' \<and> en_draining e' = en_draining e \<and> (en_draining e \<longrightarrow> table_of e' = table_of e)"

lemma kept_table: "engine_ok cap e \<Longrightarrow> table_of e' = table_of e \<Longrightarrow> kept cap e e'"
  by (simp add: kept_def engine_ok_def table_of_def)

lemma kept_from: "table_of e1 = table_of e \<Longrightarrow> kept cap e1 e' \<Longrightarrow> kept cap e e'"
  by (simp add: kept_def table_of_def)

lemma ok_from: "engine_ok cap e \<Longrightarrow> table_of e1 = table_of e \<Longrightarrow> engine_ok cap e1"
  by (simp add: engine_ok_def)

lemma dispatch_kept:
  assumes "engine_ok cap e" "dispatch env ctx i e = (r, e')"
  shows "kept cap e e'"
proof (cases "live_for (i_id i) e")
  case (Some l)
  with assms show ?thesis by (auto simp: dispatch_def intro: kept_table dest: feed_table)
next
  case None
  obtain x e1 where c: "store_call (\<lambda>flt. claim_turn flt (gc_tenant ctx) (en_now e) (i_id i) (ec_pod (ee_cfg env))) e = (x, e1)"
    by fastforce
  note t = store_call_table [OF c]
  then have "live_for (i_id i) e1 = None" "engine_ok cap e1" "en_draining e1 = en_draining e"
    using None assms(1) by (simp_all add: find_live_None engine_ok_def) (simp add: table_of_def)
  from run_claimed_ok [OF this(2,1)] this(3) None c t assms show ?thesis
    by (auto simp: dispatch_def split: if_splits sum.splits bool.splits intro: kept_table) (auto simp: kept_def)
qed

lemma forget_kept: "forget_result (r, e1) = (x, e') \<Longrightarrow> e' = e1"
  by (auto simp: forget_result_def split: sum.splits)

lemma enqueue_table: "engine_enqueue env ctx tid p kind e = (r, e') \<Longrightarrow> table_of e' = table_of e"
  by (auto simp: engine_enqueue_def Let_def table_simps split: option.splits prod.splits sum.splits dest: store_call_table)

lemma dispatch_after:
  "engine_ok cap e \<Longrightarrow> table_of e1 = table_of e \<Longrightarrow> dispatch env ctx i e1 = (r, e') \<Longrightarrow> kept cap e e'"
  by (blast intro: kept_from dispatch_kept ok_from)

lemma submit_turn_kept:
  "engine_ok cap e \<Longrightarrow> submit_turn env ctx tid items e = (r, e') \<Longrightarrow> kept cap e e'"
  by (auto simp: submit_turn_def split: if_splits prod.splits sum.splits
      dest!: store_query_table enqueue_table intro: kept_table dispatch_after)

lemma dispatch_forget:
  assumes "engine_ok cap e" "table_of e1 = table_of e" "forget_result (dispatch env ctx i e1) = (r, e')"
  shows "kept cap e e'"
  using assms by (cases "dispatch env ctx i e1") (auto dest: forget_kept intro: dispatch_after)

lemma engine_resume_kept:
  "engine_ok cap e \<Longrightarrow> engine_resume env ctx tid e = (r, e') \<Longrightarrow> kept cap e e'"
  by (auto simp: engine_resume_def split: if_splits prod.splits sum.splits
      dest!: store_query_table store_call_table intro: kept_table dispatch_forget)

lemma engine_dispatch_kept:
  "engine_ok cap e \<Longrightarrow> engine_dispatch env ctx tid e = (r, e') \<Longrightarrow> kept cap e e'"
  by (auto simp: engine_dispatch_def split: prod.splits sum.splits
      dest!: store_query_table intro: kept_table dispatch_forget)

lemma interrupt_table: "interrupt env ctx tid e = (r, e') \<Longrightarrow> table_of e' = table_of e"
  by (auto simp: interrupt_def split: if_splits prod.splits sum.splits option.splits
      dest!: store_query_table enqueue_table core_call_table)

lemma start_row_table: "start_thread_row env ctx a m t e = (r, e') \<Longrightarrow> table_of e' = table_of e"
  by (auto simp: start_thread_row_def Let_def table_simps split: prod.splits sum.splits dest!: store_call_table)

lemma start_thread_table: "start_thread env ctx i e = (r, e') \<Longrightarrow> table_of e' = table_of e"
  by (auto simp: start_thread_def split: if_splits prod.splits sum.splits dest!: store_query_table start_row_table)

lemma ensure_row_table: "ensure_thread_row env ctx tid p src m e = (r, e') \<Longrightarrow> table_of e' = table_of e"
  by (auto simp: ensure_thread_row_def split: if_splits prod.splits sum.splits dest!: store_call_table)

lemma record_table: "recorder_record env ctx tid items e = (r, e') \<Longrightarrow> table_of e' = table_of e"
  by (auto simp: recorder_record_def table_simps split: prod.splits sum.splits dest!: store_call_table)

section \<open>The pump and the drain\<close>

lemma same_table_live:
  assumes "table_of e1 = table_of e" "l \<in> set (en_live e)"
  shows "\<exists>k \<in> set (en_live e1). hold_of k = hold_of l"
proof -
  have "hold_of l \<in> hold_of ` set (en_live e)" using assms(2) by (rule imageI)
  also have "hold_of ` set (en_live e) = hold_of ` set (en_live e1)"
    using assms(1) by (metis list.set_map table.select_convs(1) table_of_def)
  finally show ?thesis by force
qed

lemma release_after:
  assumes "engine_ok cap e" "l \<in> set (en_live e)" "table_of e1 = table_of e"
  shows "engine_ok cap (release_live env l to e1)"
proof -
  obtain k where "k \<in> set (en_live e1)" "hold_of k = hold_of l" using same_table_live [OF assms(3,2)] by blast
  then show ?thesis using assms by (intro release_live_ok ok_from [of cap e e1])
qed

lemma dispatch_pending_table: "dispatch_pending env l e = (b, e') \<Longrightarrow> table_of e' = table_of e"
  by (auto simp: dispatch_pending_def split: if_splits prod.splits sum.splits dest!: feed_table)

lemma release_draining: "en_draining (release_live env l to e) = en_draining e"
  using release_live_table [of env l to e] by (auto simp: release_hold_def table_of_def split: if_splits)

definition held_or_released :: "'c engine_env \<Rightarrow> live \<Rightarrow> 'c engine \<Rightarrow> 'c engine \<Rightarrow> bool" where
  "held_or_released env l e e' \<longleftrightarrow> table_of e' = table_of e
     \<or> (\<exists>to e1. table_of e1 = table_of e \<and> e' = release_live env l to e1)"

lemma turn_ended_cases: "turn_ended env l ab e = (b, e') \<Longrightarrow> held_or_released env l e e'"
proof -
  assume a: "turn_ended env l ab e = (b, e')"
  define k where "k = live_object l e"
  define e2 where "e2 = emit (Notified (lt_id l)) (emit (TurnEnded (turn_status_for ab (lt_failed k)) (lt_started k))
    (update_live (lt_serial l) end_turn e))"
  obtain c e3 where d: "dispatch_pending env l e2 = (c, e3)" by fastforce
  have 2: "table_of e2 = table_of e" by (simp add: e2_def table_simps)
  with dispatch_pending_table [OF d] have 3: "table_of e3 = table_of e" by simp
  have "turn_ended env l ab e = (if ab \<and> en_draining e2 then (False, release_live env l Interrupted e2)
      else if c then (True, e3) else (False, release_live env l Idle e3))"
    using d unfolding e2_def k_def turn_ended_def Let_def by (cases c; cases ab) simp_all
  with a have "e' = release_live env l Interrupted e2 \<or> e' = e3 \<or> e' = release_live env l Idle e3"
    by (simp split: if_splits)
  with 2 3 show ?thesis unfolding held_or_released_def by blast
qed

lemma pump_step_cases: "pump_step env l ev e = (b, e') \<Longrightarrow> held_or_released env l e e'"
  by (cases ev) (auto simp: pump_step_def table_simps held_or_released_def split: option.splits
      dest: turn_ended_cases [unfolded held_or_released_def])

lemma pump_step_ok:
  assumes "engine_ok cap e" "l \<in> set (en_live e)" "pump_step env l ev e = (b, e')"
  shows "engine_ok cap e' \<and> en_draining e' = en_draining e"
proof -
  have "table_of e' = table_of e \<or> (\<exists>to e1. table_of e1 = table_of e \<and> e' = release_live env l to e1)"
    using pump_step_cases [OF assms(3)] by (simp add: held_or_released_def)
  then show ?thesis
  proof
    assume "table_of e' = table_of e"
    with assms(1) show ?thesis by (simp add: engine_ok_def table_of_def)
  next
    assume "\<exists>to e1. table_of e1 = table_of e \<and> e' = release_live env l to e1"
    then obtain to e1 where t: "table_of e1 = table_of e" and e': "e' = release_live env l to e1" by blast
    from t have "en_draining e1 = en_draining e" by (simp add: table_of_def)
    with e' release_after [OF assms(1,2) t, of env to] show ?thesis by (simp add: release_draining)
  qed
qed

lemma interrupt_for_drain_ok:
  assumes "engine_ok cap e" "l \<in> set (en_live e)"
  shows "engine_ok cap (interrupt_for_drain env \<lparr>dw_wait = wt, dw_grace = \<lambda>l e. e\<rparr> l e)"
proof -
  have 1: "engine_ok cap (release_live env l Interrupted e1)" if "table_of e1 = table_of e" for e1
    using assms that by (rule release_after)
  have 2: "engine_ok cap (snd (core_call f e))" for f :: "'a \<Rightarrow> (go_error + unit) \<times> 'a"
    using assms(1) by (rule ok_from) (simp add: table_simps)
  show ?thesis by (simp add: interrupt_for_drain_def Let_def 1 2 table_simps)
qed

end
