(* ===== verification/EngineProps.thy ===== *)
theory EngineProps
  imports EngineInv
begin

text \<open>
  The engine as a whole: all its operations and background steps as one step relation, what holds in
  every reachable state, and the behaviour of draining, of the event tail and of the input queue.
\<close>

section \<open>All steps of the engine\<close>

definition request_ctx :: "string option \<Rightarrow> go_ctx" where
  "request_ctx tenant = \<lparr>gc_tenant = tenant, gc_info = None\<rparr>"

text \<open>The sweeper's dispatcher is the engine, its list of threads the store's.\<close>

definition engine_sweep :: "'c engine_env \<Rightarrow> bool \<Rightarrow> tx_fault list \<Rightarrow> 'c engine \<Rightarrow> sweep_log list \<times> 'c engine" where
  "engine_sweep env ok flts e = sweep en_draining (\<lambda>e. threads_with_pending_inputs ok flts (en_db e))
     (\<lambda>ctx tid. engine_dispatch env (request_ctx ctx) tid) e"

text \<open>
  The last rule is the rest of the world: other pods change the database in any way, time passes, the
  database has faults to come, sessions make progress.
\<close>

inductive engine_step :: "'c engine_env \<Rightarrow> 'c engine \<Rightarrow> 'c engine \<Rightarrow> bool" for env where
  EStart: "start_thread env ctx i e = (r1, e') \<Longrightarrow> engine_step env e e'"
| ESubmit: "submit_turn env ctx tid items e = (r2, e') \<Longrightarrow> engine_step env e e'"
| EInterrupt: "interrupt env ctx tid e = (r3, e') \<Longrightarrow> engine_step env e e'"
| EResume: "engine_resume env ctx tid e = (r3, e') \<Longrightarrow> engine_step env e e'"
| ESweep: "engine_sweep env ok flts e = (logs, e') \<Longrightarrow> engine_step env e e'"
| ESpawn: "ensure_thread_row env ctx tid p src m e = (r3, e') \<Longrightarrow> engine_step env e e'"
| ERecord: "recorder_record env ctx tid items1 e = (r3, e') \<Longrightarrow> engine_step env e e'"
| EPump: "l \<in> set (en_live e) \<Longrightarrow> pump_step env l ev e = (b, e') \<Longrightarrow> engine_step env e e'"
| EHeartbeat: "e' = heartbeat_step env l e \<Longrightarrow> engine_step env e e'"
| EDrain: "e' = e\<lparr>en_draining := True\<rparr> \<Longrightarrow> engine_step env e e'"
| EDrainOne: "l \<in> set (en_live e) \<Longrightarrow>
    e' = interrupt_for_drain env \<lparr>dw_wait = wt, dw_grace = \<lambda>l e. e\<rparr> l e \<Longrightarrow> engine_step env e e'"
| EMaintain: "maintain_round env io st e = (st', e') \<Longrightarrow> engine_step env e e'"
| EWorld: "e' = e\<lparr>en_db := d, en_core := c, en_now := t, en_faults := fs\<rparr> \<Longrightarrow> engine_step env e e'"

definition fresh_engine :: "'c engine \<Rightarrow> bool" where
  "fresh_engine e \<longleftrightarrow> en_live e = [] \<and> en_released e = []
     \<and> (case en_limiter e of None \<Rightarrow> True | Some l \<Rightarrow> \<exists>m. l = new_tenant_limiter m)"

lemma fresh_engine_ok: "fresh_engine e \<Longrightarrow> engine_ok (map_option tl_max (en_limiter e)) e"
  by (auto simp: fresh_engine_def engine_ok_def table_ok_def table_of_def slots_agree_def tenant_holds_def
      new_tenant_limiter_def limiter_ok_def in_flight_def split: option.splits)

lemma kept_ok: "kept cap e e' \<Longrightarrow> engine_ok cap e'"
  by (simp add: kept_def)

lemmas engine_dispatch_ok = kept_ok [OF engine_dispatch_kept]

lemma engine_sweep_ok:
  assumes "engine_ok cap e" "engine_sweep env ok flts e = (logs, e')"
  shows "engine_ok cap e'"
proof -
  have "engine_ok cap e2" if "sweep_each (\<lambda>ctx. engine_dispatch env (request_ctx ctx)) ps e = (l, e2)" for ps l e2
    by (rule sweep_each_invariant [where I = "engine_ok cap", OF _ assms(1) that]) (rule engine_dispatch_ok)
  then show ?thesis using assms by (auto simp: engine_sweep_def sweep_def split: if_splits sum.splits)
qed

lemma maintain_table: "maintain_round env io st e = (st', e') \<Longrightarrow> table_of e' = table_of e"
  by (auto simp: maintain_round_def recover_def table_simps split: if_splits prod.splits sum.splits)

lemma heartbeat_table: "table_of (heartbeat_step env l e) = table_of e"
  by (simp add: heartbeat_step_def table_simps)

lemma world_table: "table_of (e\<lparr>en_db := d, en_core := c, en_now := t, en_faults := fs\<rparr>) = table_of e"
  by (simp add: table_of_def)

lemma draining_ok: "engine_ok cap e \<Longrightarrow> engine_ok cap (e\<lparr>en_draining := True\<rparr>)"
  by (simp add: engine_ok_def table_simps table_ok_def hold_ok_def)

lemmas table_frames = start_thread_table interrupt_table ensure_row_table record_table heartbeat_table
  maintain_table world_table

lemma engine_step_ok:
  assumes "engine_step env e e'" "engine_ok cap e"
  shows "engine_ok cap e'"
  using assms(1)
proof cases
  case (ESubmit ctx tid items r2) with assms(2) show ?thesis by (blast intro: kept_ok submit_turn_kept)
next
  case (EResume ctx tid r3) with assms(2) show ?thesis by (blast intro: kept_ok engine_resume_kept)
next
  case (EPump l ev b) with assms(2) show ?thesis by (blast dest: pump_step_ok)
next
  case (EDrainOne l wt) with assms(2) show ?thesis by (simp add: interrupt_for_drain_ok)
qed (use assms(2) in \<open>auto intro: engine_sweep_ok draining_ok ok_from table_frames\<close>)

lemma engine_reach_ok:
  "(engine_step env)\<^sup>*\<^sup>* e0 e \<Longrightarrow> fresh_engine e0 \<Longrightarrow> engine_ok (map_option tl_max (en_limiter e0)) e"
  by (induction rule: rtranclp_induct) (auto intro: fresh_engine_ok engine_step_ok)

section \<open>The bound on a tenant's sessions\<close>

text \<open>C10: a tenant never runs more sessions on a pod than its limit, and no thread has two. Whatever
  sequence of requests, sweeps, session events, drains and foreign database changes the pod goes
  through, with a limit that is positive the number of held threads of a tenant is what the limiter
  counts and at most the limit, and the held threads have different ids and are not yet released.\<close>

theorem tenant_sessions_bounded:
  assumes "(engine_step env)\<^sup>*\<^sup>* e0 e" "fresh_engine e0"
    and "en_limiter e0 = Some (new_tenant_limiter (int (Suc m)))"
  shows "(\<exists>l. en_limiter e = Some l \<and> in_flight t l = int (length (filter (\<lambda>k. lt_tenant k = t) (en_live e))))
    \<and> length (filter (\<lambda>k. lt_tenant k = t) (en_live e)) \<le> Suc m
    \<and> distinct (map lt_id (en_live e)) \<and> lt_serial ` set (en_live e) \<inter> set (en_released e) = {}"
proof -
  from engine_reach_ok [OF assms(1,2)] have ok: "table_ok (Some (int (Suc m))) (table_of e)"
    by (simp add: assms(3) engine_ok_def new_tenant_limiter_def)
  then obtain l where l: "en_limiter e = Some l" "limiter_ok l" "tl_max l = int (Suc m)"
    "in_flight t l = int (length (filter (\<lambda>k. lt_tenant k = t) (en_live e)))"
    by (auto simp: table_ok_def slots_agree_def table_of_def tenant_holds_def filter_map o_def split: option.splits)
  with in_flight_bounds [of l t] have "length (filter (\<lambda>k. lt_tenant k = t) (en_live e)) \<le> Suc m" by simp
  moreover from ok have "distinct (map lt_id (en_live e))" "lt_serial ` set (en_live e) \<inter> set (en_released e) = {}"
    by (auto simp: table_ok_def table_of_def o_def hold_ok_def)
  ultimately show ?thesis using l by blast
qed

text \<open>A session library that starts every session, gives every input a turn of its own, and a pod.\<close>

definition sample_core :: "unit agent_core" where
  "sample_core = \<lparr>ac_input_json = (\<lambda>i. Some (JStr i)), ac_json_input = as_str, ac_new_id = (\<lambda>n. replicate (Suc n) CHR ''i''),
     ac_start = (\<lambda>ctx cfg tid c. (Inr (), c)), ac_resume = (\<lambda>ctx cfg tid c. (Inr (), c)),
     ac_submit = (\<lambda>tid is c. (AdmStarted ''turn'', c)), ac_interrupt = (\<lambda>tid c. (Inr (), c)),
     ac_shutdown = (\<lambda>tid c. c), ac_remove = (\<lambda>tid c. c), ac_aborted = (\<lambda>t n. ''aborted'')\<rparr>"

definition sample_env :: "unit engine_env" where
  "sample_env = \<lparr>ee_cx = sample_codex, ee_opts = sample_opts, ee_core = sample_core,
     ee_cfg = \<lparr>ec_default_model = ''m'', ec_pod = ''pod'', ec_max_sub_agents = 8, ec_heartbeat = 15000000\<rparr>\<rparr>"

definition sample_engine :: "unit engine" where
  "sample_engine = \<lparr>en_db = one_tenant, en_core = (), en_live = [], en_limiter = Some (new_tenant_limiter 1),
     en_draining = False, en_released = [], en_serial = 0, en_ids = 0, en_now = 7, en_faults = [], en_out = []\<rparr>"

lemma sample_fresh: "fresh_engine sample_engine" "en_limiter sample_engine = Some (new_tenant_limiter (int (Suc 0)))"
  by (auto simp: fresh_engine_def sample_engine_def)

lemma sample_submit_step: "engine_step sample_env sample_engine
    (snd (submit_turn sample_env (request_ctx (Some ''t'')) ''a'' [''hello''] sample_engine))"
  by (rule ESubmit [where ctx = "request_ctx (Some ''t'')" and tid = "''a''" and items = "[''hello'']"]) (rule prod.collapse [symmetric])

lemma tenant_sessions_bounded_witness:
  "length (filter (\<lambda>k. lt_tenant k = ''t'')
     (en_live (snd (submit_turn sample_env (request_ctx (Some ''t'')) ''a'' [''hello''] sample_engine)))) \<le> Suc 0"
  using tenant_sessions_bounded [OF r_into_rtranclp [where r = "engine_step sample_env", OF sample_submit_step] sample_fresh]
  by blast

section \<open>Draining\<close>

text \<open>What a draining pod may do to its table: release.\<close>

definition only_releases :: "'c engine \<Rightarrow> 'c engine \<Rightarrow> bool" where
  "only_releases e e' \<longleftrightarrow> en_draining e' \<and> en_serial e' = en_serial e
     \<and> hold_of ` set (en_live e') \<subseteq> hold_of ` set (en_live e)"

lemma same_only: "en_draining e \<Longrightarrow> table_of e' = table_of e \<Longrightarrow> only_releases e e'"
  by (auto simp: only_releases_def table_of_def simp flip: set_map)

lemma only_trans: "only_releases a b \<Longrightarrow> only_releases b c \<Longrightarrow> only_releases a c"
  unfolding only_releases_def by (metis order_trans)

lemma release_only:
  assumes "en_draining e" "table_of e1 = table_of e"
  shows "only_releases e (release_live env l to e1)"
proof -
  have "en_released e1 = tb_released (table_of e1)" by (simp add: table_of_def)
  moreover have "tb_draining (table_of e)" "en_serial e = tb_serial (table_of e)"
    "set (map hold_of (en_live e)) = set (tb_holds (table_of e))" using assms(1) by (simp_all add: table_of_def)
  moreover have "only_releases e e' \<longleftrightarrow> tb_draining (table_of e') \<and> tb_serial (table_of e') = en_serial e
      \<and> set (tb_holds (table_of e')) \<subseteq> set (map hold_of (en_live e))" for e' :: "'a engine"
    by (simp add: only_releases_def table_of_def)
  ultimately show ?thesis using assms(2) by (auto simp: release_live_table release_hold_def)
qed

lemma interrupt_for_drain_only:
  assumes "en_draining e"
  shows "only_releases e (interrupt_for_drain env \<lparr>dw_wait = wt, dw_grace = \<lambda>l e. e\<rparr> l e)"
  using assms by (simp add: interrupt_for_drain_def Let_def release_only same_only table_simps)

lemma kept_only: "en_draining e \<Longrightarrow> kept cap e e' \<Longrightarrow> only_releases e e'"
  by (simp add: kept_def same_only)

lemma draining_step:
  assumes "engine_step env e e'" "engine_ok cap e" "en_draining e"
  shows "only_releases e e'"
  using assms(1)
proof cases
  case (ESubmit ctx tid items r2)
  with assms show ?thesis by (blast intro: kept_only submit_turn_kept)
next
  case (EResume ctx tid r3)
  with assms show ?thesis by (blast intro: kept_only engine_resume_kept)
next
  case (EPump l ev b)
  with assms(3) pump_step_cases [of env l ev e b e'] show ?thesis
    by (auto simp: held_or_released_def intro: release_only same_only)
next
  case (EDrainOne l wt)
  with assms(3) show ?thesis by (simp add: interrupt_for_drain_only)
next
  case (ESweep ok flts logs)
  with assms(3) show ?thesis by (simp add: engine_sweep_def sweep_def same_only)
next
  case EDrain
  with assms(3) show ?thesis by (simp add: only_releases_def)
qed (use assms(3) in \<open>auto intro!: same_only intro: table_frames\<close>)

text \<open>Once it drains, a pod takes nothing on. From the moment a drain has begun, no request, sweep,
  resume or end of a turn starts a session on the pod: the threads it holds are among those it held
  at that moment, and it goes on draining.\<close>

theorem draining_takes_nothing:
  assumes "(engine_step env)\<^sup>*\<^sup>* e0 e" "fresh_engine e0" "en_draining e" "(engine_step env)\<^sup>*\<^sup>* e e'"
  shows "en_draining e' \<and> lt_id ` set (en_live e') \<subseteq> lt_id ` set (en_live e) \<and> en_serial e' = en_serial e"
proof -
  let ?cap = "map_option tl_max (en_limiter e0)"
  from assms(4) have "only_releases e e' \<and> engine_ok ?cap e'"
  proof (induction rule: rtranclp_induct)
    case base
    show ?case using assms(3) engine_reach_ok [OF assms(1,2)] by (simp add: only_releases_def)
  next
    case (step y z)
    then have ok: "engine_ok ?cap y" "en_draining y" "engine_ok ?cap z"
      by (auto simp: only_releases_def intro: engine_step_ok)
    with draining_step [OF step.hyps(2) ok(1,2)] step.IH show ?case by (blast intro: only_trans)
  qed
  then have only: "en_draining e'" "en_serial e' = en_serial e"
      "h_id ` hold_of ` set (en_live e') \<subseteq> h_id ` hold_of ` set (en_live e)"
    by (simp_all add: only_releases_def image_mono)
  from only(3) have "lt_id ` set (en_live e') \<subseteq> lt_id ` set (en_live e)" by (simp add: image_image)
  with only(1,2) show ?thesis by blast
qed

lemma draining_takes_nothing_witness:
  "en_live (snd (submit_turn sample_env (request_ctx (Some ''t'')) ''a'' [''hello''] (sample_engine\<lparr>en_draining := True\<rparr>))) = []"
proof -
  let ?e = "sample_engine\<lparr>en_draining := True\<rparr>"
  have "engine_step sample_env sample_engine ?e" by (rule EDrain) simp
  moreover have "engine_step sample_env ?e (snd (submit_turn sample_env (request_ctx (Some ''t'')) ''a'' [''hello''] ?e))"
    by (rule ESubmit [where ctx = "request_ctx (Some ''t'')" and tid = "''a''" and items = "[''hello'']"]) (rule prod.collapse [symmetric])
  ultimately show ?thesis
    using draining_takes_nothing [OF r_into_rtranclp [where r = "engine_step sample_env"] sample_fresh(1), of ?e]
    by (simp add: r_into_rtranclp sample_engine_def)
qed

text \<open>The world of a drain does not take releases back, and a wait that ends with a release saw it.\<close>

definition drain_world_ok :: "'c drain_world \<Rightarrow> bool" where
  "drain_world_ok w \<longleftrightarrow> (\<forall>l e r e'. dw_wait w l e = (r, e') \<longrightarrow> set (en_released e) \<subseteq> set (en_released e')
       \<and> (r = WaitReleased \<longrightarrow> released l e') \<and> r \<noteq> WaitCancelled)
     \<and> (\<forall>l e. set (en_released e) \<subseteq> set (en_released (dw_grace w l e)))"

lemma release_released:
  "set (en_released (release_live env l to e)) = insert (lt_serial l) (set (en_released e))"
  using arg_cong [OF release_live_table [of env l to e], of tb_released]
  by (auto simp: release_hold_def table_of_def split: if_splits)

lemma call_released: "en_released (snd (store_call f e)) = en_released e" "en_released (snd (core_call g e)) = en_released e"
  using snd_calls_table(1,3) by (simp_all add: store_call_def core_call_def split: prod.splits)

lemma interrupt_released:
  assumes "drain_world_ok w"
  shows "released l (interrupt_for_drain env w l e) \<and> set (en_released e) \<subseteq> set (en_released (interrupt_for_drain env w l e))"
  using assms unfolding interrupt_for_drain_def Let_def released_def drain_world_ok_def
  by (auto simp: release_released call_released) (metis call_released(2) subsetD)+

lemma drain_rest_released:
  assumes "drain_world_ok w"
  shows "set (en_released e) \<subseteq> set (en_released (drain_rest env w ls e))
    \<and> (\<forall>l \<in> set ls. released l (drain_rest env w ls e))"
proof (induction ls arbitrary: e)
  case (Cons l ls)
  show ?case using Cons [of "if released l e then e else interrupt_for_drain env w l e"]
      interrupt_released [OF assms, of l env e] by (auto simp: released_def split: if_splits)
qed simp

lemma drain_each_released:
  assumes w: "drain_world_ok w"
  shows "set ls \<subseteq> set snap \<Longrightarrow> (\<forall>l \<in> set snap - set ls. released l e) \<Longrightarrow>
    (\<forall>l \<in> set snap. released l (drain_each env w snap ls e))"
proof (induction ls arbitrary: e)
  case (Cons l ls)
  obtain r e1 where r: "dw_wait w l e = (r, e1)" by fastforce
  then have mono: "set (en_released e) \<subseteq> set (en_released e1)" and rel: "r = WaitReleased \<Longrightarrow> released l e1"
    and "r \<noteq> WaitCancelled" using w by (auto simp: drain_world_ok_def)
  then consider "r = WaitReleased" | "r = WaitDeadline" by (cases r) auto
  then show ?case
  proof cases
    case 1
    have "\<forall>k \<in> set snap - set ls. released k e1" using Cons.prems mono rel 1 by (auto simp: released_def)
    with Cons.IH [of e1] Cons.prems r 1 show ?thesis by simp
  next
    case 2
    with r drain_rest_released [OF w, of _ env snap] show ?thesis by simp
  qed
qed simp

text \<open>C12: a drain leaves nothing held. If waiting is not cancelled, then when a drain is over every thread
  that was held when it began has been released, by its own end or by being interrupted at the
  deadline, whatever the rest of the process did meanwhile.\<close>

theorem drain_releases_all:
  assumes "drain_world_ok w" "l \<in> set (en_live e)"
  shows "released l (drain env w e)"
  using drain_each_released [OF assms(1), of "en_live e" "en_live e" "e\<lparr>en_draining := True\<rparr>" env] assms(2)
  by (simp add: drain_def)

definition sample_live :: live where
  "sample_live = \<lparr>lt_serial = 0, lt_id = ''a'', lt_ctx = request_ctx (Some ''t''), lt_tenant = ''t'', lt_turn = ''turn'',
     lt_running = True, lt_started = Some 7, lt_failed = False, lt_steered = False, lt_slot = True\<rparr>"

lemma drain_releases_all_witness:
  "released sample_live (drain sample_env \<lparr>dw_wait = \<lambda>l e. (WaitDeadline, e), dw_grace = \<lambda>l e. e\<rparr>
     (sample_engine\<lparr>en_live := [sample_live]\<rparr>))"
  by (rule drain_releases_all) (simp_all add: drain_world_ok_def)

end
