(* ===== verification/EngineTail.thy ===== *)
theory EngineTail
  imports EngineProps
begin

text \<open>
  What a subscriber of \<^verbatim>\<open>agent-runtime/internal/runtime/events.go\<close> receives: the tail
  reads the log in batches while it grows, with the interface of a numbered log.
\<close>

section \<open>The event tail\<close>

text \<open>A reader of a numbered log that moves on by the length of a chunk drops what it has seen.\<close>

context event_log
begin

lemma load_drop:
  assumes "good s" "1 \<le> a" "m \<le> length (load s a 0)"
  shows "load s (a + int m) 0 = drop m (load s a 0)"
proof (cases m)
  case (Suc k)
  have len: "length (load s a 0) = nat (last_num s - a + 1)"
    using arg_cong [OF load_num [OF assms(1), of a], of length] assms(2) by simp
  then have "load s a 0 = take (nat (a + int k - max 1 a + 1)) (load s a 0) @ load s (a + int k + 1) 0"
    using assms Suc by (intro load_split) auto
  moreover have "nat (a + int k - max 1 a + 1) = m" "a + int k + 1 = a + int m" using assms(2) Suc by simp_all
  ultimately have "load s a 0 = take m (load s a 0) @ load s (a + int m) 0" by metis
  then show ?thesis using append_take_drop_id [of m "load s a 0"] by (metis same_append_eq)
qed simp

lemma load_grown:
  assumes "good s" "good s'" "load s' 1 0 = load s 1 0 @ es"
  shows "\<exists>fs. load s' a 0 = load s a 0 @ fs"
  using assms load_filter [of s a] load_filter [of s' a] by auto

end

text \<open>The rounds of a tail over a log that grows: well formed, and what is there stays. The first
  conjunct of the theorem holds with any faults and any reader; the second is about undisturbed rounds.\<close>

definition round_log :: "string \<Rightarrow> string \<Rightarrow> int \<Rightarrow> tail_round \<Rightarrow> stored_event list" where
  "round_log tenant tid from r = load_events tid from 0 (slice (tr_db r) tenant)"

fun log_grows :: "string \<Rightarrow> string \<Rightarrow> tail_round list \<Rightarrow> bool" where
  "log_grows tenant tid [] = True"
| "log_grows tenant tid (r # rs) = (log_ok (slice (tr_db r) tenant) \<and> has_thread tid (slice (tr_db r) tenant)
     \<and> (case rs of [] \<Rightarrow> True | q # _ \<Rightarrow>
          take (length (round_log tenant tid 1 r)) (round_log tenant tid 1 q) = round_log tenant tid 1 r)
     \<and> log_grows tenant tid rs)"

definition undisturbed :: "string \<Rightarrow> string \<Rightarrow> tail_round \<Rightarrow> bool" where
  "undisturbed tenant tid r \<longleftrightarrow> tr_fault r = NoFault \<and> tr_room r = None \<and> \<not> tr_stop r
     \<and> (\<exists>row \<in> set (threads (slice (tr_db r) tenant)). live_thread tid row)"

lemma forward_prefix:
  assumes "forward (tr_fault r) (Some t) tid frm (tr_room r) (tr_db r) = (evs, go)" "t \<noteq> []"
    "log_ok (slice (tr_db r) t)" "has_thread tid (slice (tr_db r) t)"
  shows "evs = map event_of (take (length evs) (round_log t tid frm r)) \<and> length evs \<le> length (round_log t tid frm r)"
    and "undisturbed t tid r \<Longrightarrow> go \<and> length evs = min 200 (length (round_log t tid frm r))"
proof -
  let ?s = "slice (tr_db r) t"
  have batch: "load_events tid frm event_batch ?s = take 200 (round_log t tid frm r)"
    using store_log.load_take [of ?s tid event_batch frm] assms(3,4) by (simp add: event_batch_def round_log_def)
  have tn: "tenant_from_context (Some t) = Some t" using assms(2) by (simp add: tenant_from_context_def)
  have "fst (read_events (tr_fault r) (Some t) tid frm event_batch (tr_db r)) = Inr rows \<Longrightarrow>
      rows = take 200 (round_log t tid frm r)" for rows
    by (auto simp: read_events_def in_tenant_tx_def tn read_events_tx_def batch split: if_splits sum.splits)
  then show "evs = map event_of (take (length evs) (round_log t tid frm r)) \<and> length evs \<le> length (round_log t tid frm r)"
    using assms(1) by (auto simp: forward_def min_def split: sum.splits option.splits)
  show "go \<and> length evs = min 200 (length (round_log t tid frm r))" if u: "undisturbed t tid r"
  proof -
    have "\<exists>n s'. current_seq tid ?s = Inr (n, s')"
      using u by (auto simp: undisturbed_def current_seq_def select_one_None split: option.splits)
    then have "fst (read_events (tr_fault r) (Some t) tid frm event_batch (tr_db r)) = Inr (take 200 (round_log t tid frm r))"
      using u by (auto simp: undisturbed_def read_events_def in_tenant_tx_ok [OF tn] read_events_tx_def batch)
    with u assms(1) show ?thesis by (auto simp: forward_def undisturbed_def min_def)
  qed
qed

lemma round_log_grown:
  assumes "log_grows t tid (r # q # rs)"
  shows "\<exists>fs. round_log t tid frm q = round_log t tid frm r @ fs"
proof -
  have "round_log t tid 1 q = round_log t tid 1 r @ drop (length (round_log t tid 1 r)) (round_log t tid 1 q)"
    by (subst append_take_drop_id [of "length (round_log t tid 1 r)", symmetric]) (use assms in simp)
  note eq = this [unfolded round_log_def]
  have "log_ok (slice (tr_db r) t) \<and> has_thread tid (slice (tr_db r) t)"
    "log_ok (slice (tr_db q) t) \<and> has_thread tid (slice (tr_db q) t)" using assms by auto
  from store_log.load_grown [OF this eq] show ?thesis unfolding round_log_def .
qed

lemma round_log_last:
  "log_grows t tid (r # rs) \<Longrightarrow> \<exists>fs. round_log t tid frm (last (r # rs)) = round_log t tid frm r @ fs"
proof (induction rs arbitrary: r)
  case (Cons q rs)
  then have "log_grows t tid (q # rs)" by simp
  from Cons.IH [OF this] round_log_grown [OF Cons.prems, of frm] show ?case by auto
qed simp

lemma tail_events_prefix:
  assumes "log_grows t tid (r # rs)" "t \<noteq> []" "1 \<le> nxt"
  shows "\<exists>k. tail_events (Some t) tid nxt (r # rs) = map event_of (take k (round_log t tid nxt (last (r # rs))))
      \<and> k \<le> length (round_log t tid nxt (last (r # rs)))
      \<and> ((\<forall>q \<in> set (r # rs). undisturbed t tid q) \<longrightarrow> min (200 * length (r # rs)) (length (round_log t tid nxt r)) \<le> k)"
  using assms(1,3)
proof (induction rs arbitrary: r nxt)
  case Nil
  obtain evs go where f: "forward (tr_fault r) (Some t) tid nxt (tr_room r) (tr_db r) = (evs, go)" by fastforce
  note p = forward_prefix [OF f assms(2)]
  show ?case using Nil p f by (intro exI [of _ "length evs"]) auto
next
  case (Cons q rs)
  obtain evs go where f: "forward (tr_fault r) (Some t) tid nxt (tr_room r) (tr_db r) = (evs, go)" by fastforce
  note p = forward_prefix [OF f assms(2)]
  have ok: "log_ok (slice (tr_db r) t)" "has_thread tid (slice (tr_db r) t)" "log_grows t tid (q # rs)"
    using Cons.prems by simp_all
  let ?m = "length evs"
  define z where "z = last (r # q # rs)"
  have zq: "last (q # rs) = z" by (simp add: z_def)
  obtain fs where fs: "round_log t tid nxt z = round_log t tid nxt r @ fs" using round_log_last [OF Cons.prems(1), folded z_def] by blast
  have evs: "evs = map event_of (take ?m (round_log t tid nxt z))" "?m \<le> length (round_log t tid nxt r)"
    using p(1) [OF ok(1,2)] by (simp_all add: fs)
  let ?stop = "\<not> go \<or> (int ?m \<noteq> event_batch \<and> tr_stop r)"
  have "\<exists>k. tail_events (Some t) tid nxt (r # q # rs) = map event_of (take k (round_log t tid nxt z))
      \<and> k \<le> length (round_log t tid nxt z)
      \<and> ((\<forall>q \<in> set (r # q # rs). undisturbed t tid q) \<longrightarrow> min (200 * length (r # q # rs)) (length (round_log t tid nxt r)) \<le> k)"
  proof (cases ?stop)
    case True
    have "\<not> undisturbed t tid r"
    proof
      assume u: "undisturbed t tid r"
      from p(2) [OF ok(1,2) u] True u show False by (simp add: undisturbed_def)
    qed
    with True show ?thesis using f evs fs by (intro exI [of _ ?m]) (auto simp: z_def [symmetric] simp del: last.simps)
  next
    case False
    have z: "log_ok (slice (tr_db z) t) \<and> has_thread tid (slice (tr_db z) t)"
    proof -
      have "log_grows t tid xs \<Longrightarrow> x \<in> set xs \<Longrightarrow> log_ok (slice (tr_db x) t) \<and> has_thread tid (slice (tr_db x) t)" for xs x
        by (induction xs) auto
      then show ?thesis using Cons.prems(1) last_in_set [of "r # q # rs", folded z_def] by blast
    qed
    have drop: "round_log t tid (nxt + int ?m) y = drop ?m (round_log t tid nxt y)"
      if "log_ok (slice (tr_db y) t)" "has_thread tid (slice (tr_db y) t)" "?m \<le> length (round_log t tid nxt y)" for y
      using that Cons.prems(2) unfolding round_log_def by (intro store_log.load_drop) auto
    obtain k where k: "tail_events (Some t) tid (nxt + int ?m) (q # rs)
          = map event_of (take k (round_log t tid (nxt + int ?m) z))"
        "k \<le> length (round_log t tid (nxt + int ?m) z)"
        "(\<forall>q \<in> set (q # rs). undisturbed t tid q) \<longrightarrow>
           min (200 * length (q # rs)) (length (round_log t tid (nxt + int ?m) q)) \<le> k"
      using Cons.IH [OF ok(3), of "nxt + int ?m", unfolded zq] Cons.prems(2) by auto
    have dz: "round_log t tid (nxt + int ?m) z = drop ?m (round_log t tid nxt z)"
      using drop [of z] z evs(2) fs by simp
    obtain gs where gs: "round_log t tid nxt q = round_log t tid nxt r @ gs"
      using round_log_grown [OF Cons.prems(1)] by blast
    have dq: "length (round_log t tid (nxt + int ?m) q) = length (round_log t tid nxt q) - ?m"
      using drop [of q] ok(3) evs(2) gs by simp
    have tail: "tail_events (Some t) tid nxt (r # q # rs) = evs @ tail_events (Some t) tid (nxt + int ?m) (q # rs)"
      using f False unfolding tail_events.simps(2) [of _ _ _ r] by simp argo
    show ?thesis
    proof (intro exI [of _ "?m + k"] conjI impI)
      show "tail_events (Some t) tid nxt (r # q # rs) = map event_of (take (?m + k) (round_log t tid nxt z))"
        using evs(1) k(1) dz by (simp only: tail) (metis map_append take_add)
      show "?m + k \<le> length (round_log t tid nxt z)" using k(2) dz evs(2) fs by simp
      assume u: "\<forall>q \<in> set (r # q # rs). undisturbed t tid q"
      then have "?m = min 200 (length (round_log t tid nxt r))" using p(2) [OF ok(1,2)] by simp
      then show "min (200 * length (r # q # rs)) (length (round_log t tid nxt r)) \<le> ?m + k"
        using k(3) u dq gs by (auto simp: min_def split: if_splits)
    qed
  qed
  then show ?case by (simp only: z_def)
qed

text \<open>C11: a subscriber sees the thread's events in order, each once, without a gap. Whatever the faults,
  the waits and the moment the reader goes away, and while the log grows, the events delivered are a
  prefix of the log from the requested number on (numbers below one mean the start); and every
  undisturbed round delivers up to two hundred of the events that were there when the tail began.\<close>

theorem tail_delivers_log:
  assumes "engine_events flt (Some t) tid frm d (r # rs) = Inr evs" "log_grows t tid (r # rs)"
  shows "\<exists>k. evs = map event_of (take k (round_log t tid (max 1 frm) (last (r # rs))))
      \<and> ((\<forall>q \<in> set (r # rs). undisturbed t tid q) \<longrightarrow>
           min (200 * length (r # rs)) (length (round_log t tid (max 1 frm) r)) \<le> length evs)"
proof -
  have "t \<noteq> []" using assms(1)
    by (auto simp: engine_events_def get_thread_info_def in_tenant_tx_def tenant_from_context_def is_no_rows.simps split: sum.splits if_splits)
  moreover have "evs = tail_events (Some t) tid (max 1 frm) (r # rs)"
    using assms(1) by (auto simp: engine_events_def max_def split: sum.splits if_splits simp del: tail_events.simps)
  ultimately show ?thesis using tail_events_prefix [OF assms(2), of "max 1 frm"] by auto
qed

lemma tail_delivers_log_witness:
  "let r = \<lparr>tr_db = one_tenant, tr_fault = NoFault, tr_room = None, tr_stop = False\<rparr>
   in \<exists>evs k. engine_events NoFault (Some ''t'') ''a'' 0 one_tenant [r] = Inr evs
      \<and> evs = map event_of (take k (round_log ''t'' ''a'' 1 r))"
proof -
  let ?r = "\<lparr>tr_db = one_tenant, tr_fault = NoFault, tr_room = None, tr_stop = False\<rparr>"
  have g: "log_grows ''t'' ''a'' [?r]"
    using one_thread_ok by (simp add: one_tenant_def has_thread_def) (simp add: one_thread_def blank_thread_def)
  obtain evs where e: "engine_events NoFault (Some ''t'') ''a'' 0 one_tenant [?r] = Inr evs"
    by (auto simp: engine_events_def get_thread_info_def in_tenant_tx_def tenant_from_context_def one_tenant_def
        one_thread_def blank_thread_def live_thread_def row_simps)
  from tail_delivers_log [OF e g] e show ?thesis by (auto simp: Let_def)
qed

end
