(* ===== verification/EngineQueue.thy ===== *)
theory EngineQueue
  imports EngineTail
begin

text \<open>
  The durable input queue between \<open>SubmitTurn\<close> and the session: payloads survive the round trip
  through the queue, feeding loses no input, a submitted input stays in the store until a turn has
  admitted it; and what a resume without inputs leaves behind.
\<close>

section \<open>Payloads\<close>

lemma map_all_inverse:
  assumes "\<And>x y. f x = Some y \<Longrightarrow> g y = Some x" "map_all f xs = Some ys"
  shows "map_all g ys = Some xs"
proof -
  have ex: "\<And>x. x \<in> set xs \<Longrightarrow> \<exists>y. f x = Some y" and ys: "ys = map (\<lambda>x. the (f x)) xs"
    using assms(2) by (auto simp: map_all_def split: if_splits)
  have "g (the (f x)) = Some x" if "x \<in> set xs" for x using ex [OF that] assms(1) by auto
  then show ?thesis by (auto simp: map_all_def ys o_def map_idI)
qed

lemma map_all_wf:
  "(\<And>x y. f x = Some y \<Longrightarrow> P y) \<Longrightarrow> map_all f xs = Some ys \<Longrightarrow> \<forall>y \<in> set ys. P y"
  by (fastforce simp: map_all_def split: if_splits)

lemma payload_roundtrip:
  assumes "input_law ac" "marshal_payload ac p = Some raw"
  shows "unmarshal_payload ac raw = Some p"
proof -
  obtain js where js: "map_all (ac_input_json ac) (qp_items p) = Some js"
    and raw: "raw = json_text (JObj ([(''type'', JStr (qp_type p))]
       @ (if qp_items p = [] then [] else [(''items'', JArr js)])))"
    using assms(2) by (auto simp: marshal_payload_def)
  have law: "\<And>i j. ac_input_json ac i = Some j \<Longrightarrow> wf_json j \<and> ac_json_input ac j = Some i"
    using assms(1) by (simp add: input_law_def)
  have wf: "\<forall>j \<in> set js. wf_json j" using map_all_wf [OF _ js, of wf_json] law by blast
  have inv: "map_all (ac_json_input ac) js = Some (qp_items p)" by (rule map_all_inverse [OF _ js]) (use law in blast)
  have "json_parse raw = Some (JObj ([(''type'', JStr (qp_type p))]
       @ (if qp_items p = [] then [] else [(''items'', JArr js)])))"
    unfolding raw using wf by (intro json_parse_text) (auto simp: list_all_iff)
  then show ?thesis using inv
    by (auto simp: unmarshal_payload_def struct_members_def str_field_def dec_field_def field_values_def as_str_def
        as_inputs_def Let_def to_lower_def lower_char_def)
qed

section \<open>Feeding loses no input\<close>

definition tenant_queue :: "string \<Rightarrow> 'c engine \<Rightarrow> queue_row list" where
  "tenant_queue u e = queue (slice (en_db e) u)"

text \<open>An input for a thread: it decodes, and it is not an interrupt. It is safe in a queue that has its row,
  waiting as it was or admitted to a turn that the session answered when it got these items.\<close>

definition input_items :: "'c agent_core \<Rightarrow> queue_row \<Rightarrow> user_input list option" where
  "input_items ac q = (case unmarshal_payload ac (q_payload q) of None \<Rightarrow> None
     | Some p \<Rightarrow> if qp_type p = queued_interrupt then None else Some (qp_items p))"

definition turn_answered :: "'c agent_core \<Rightarrow> user_input list \<Rightarrow> string \<Rightarrow> bool" where
  "turn_answered ac items turn \<longleftrightarrow> (\<exists>tid c. fst (ac_submit ac tid items c) \<in> {AdmStarted turn, AdmSteered turn})"

definition safe_input :: "'c agent_core \<Rightarrow> queue_row \<Rightarrow> queue_row list \<Rightarrow> bool" where
  "safe_input ac q0 qs \<longleftrightarrow> (\<exists>q \<in> set qs. q_id q = q_id q0 \<and> q_thread q = q_thread q0 \<and> q_payload q = q_payload q0
     \<and> (q_admitted q = q_admitted q0 \<or> (\<exists>items turn. input_items ac q0 = Some items \<and> q_admitted q = Some turn
          \<and> turn_answered ac items turn)))"

lemma safe_delete: "safe_input ac q0 qs \<Longrightarrow> x \<noteq> q_id q0 \<Longrightarrow> safe_input ac q0 (delete_where (\<lambda>q. q_id q = x) qs)"
  by (auto simp: safe_input_def delete_where_def)

lemma safe_admit:
  assumes "safe_input ac q0 qs" "x = q_id q0 \<Longrightarrow> \<exists>items. input_items ac q0 = Some items \<and> turn_answered ac items turn"
  shows "safe_input ac q0 (update_where (\<lambda>q. q_id q = x \<and> q_admitted q = None) (\<lambda>q. q\<lparr>q_admitted := Some turn\<rparr>) qs)"
proof -
  obtain q where q: "q \<in> set qs" "q_id q = q_id q0" "q_thread q = q_thread q0" "q_payload q = q_payload q0"
    "q_admitted q = q_admitted q0 \<or> (\<exists>items turn. input_items ac q0 = Some items \<and> q_admitted q = Some turn
          \<and> turn_answered ac items turn)" using assms(1) by (auto simp: safe_input_def)
  let ?q = "if q_id q = x \<and> q_admitted q = None then q\<lparr>q_admitted := Some turn\<rparr> else q"
  have "?q \<in> set (update_where (\<lambda>q. q_id q = x \<and> q_admitted q = None) (\<lambda>q. q\<lparr>q_admitted := Some turn\<rparr>) qs)"
    unfolding in_update_where using q(1) by (rule bexI [rotated]) simp
  then show ?thesis unfolding safe_input_def
    by (rule bexI [rotated]) (use q assms(2) in \<open>auto split: if_splits\<close>)
qed

lemma tx_queue:
  assumes "\<And>s x s'. body s = Inr (x, s') \<Longrightarrow> P (queue s) \<Longrightarrow> ctx = Some u \<Longrightarrow> P (queue s')" "P (tenant_queue u e)"
  shows "P (tenant_queue u (snd (store_call (\<lambda>flt. in_tenant_tx flt ctx body) e)))"
  using assms
  by (auto simp: store_call_def tenant_queue_def in_tenant_tx_def tenant_from_context_Some split: option.splits sum.splits prod.splits)

lemma queue_frames [simp]:
  "tenant_queue u (emit x e) = tenant_queue u e" "tenant_queue u (update_live n f e) = tenant_queue u e"
  "tenant_queue u (put_live l e) = tenant_queue u e" "tenant_queue u (e\<lparr>en_ids := i\<rparr>) = tenant_queue u e"
  "tenant_queue u (e\<lparr>en_serial := i\<rparr>) = tenant_queue u e" "tenant_queue u (e\<lparr>en_limiter := lim\<rparr>) = tenant_queue u e"
  by (simp_all add: tenant_queue_def emit_def update_live_def put_live_def)

lemma call_queue:
  "core_call f e = (r, e') \<Longrightarrow> tenant_queue u e' = tenant_queue u e"
  "store_query g e = (r2, e') \<Longrightarrow> tenant_queue u e' = tenant_queue u e"
  by (auto simp: core_call_def store_query_def tenant_queue_def split: prod.splits)

lemma snd_core_queue [simp]: "tenant_queue u (snd (core_call f e)) = tenant_queue u e"
  by (metis call_queue(1) prod.collapse)

lemma safe_delete_input:
  "safe_input ac q0 (tenant_queue u e) \<Longrightarrow> (gc_tenant (lt_ctx l) = Some u \<Longrightarrow> x \<noteq> q_id q0) \<Longrightarrow>
     safe_input ac q0 (tenant_queue u (delete_input l x e))"
  unfolding delete_input_def by (rule tx_queue) (auto simp: delete_input_tx_def safe_delete)

lemma safe_admit_input:
  "safe_input ac q0 (tenant_queue u e) \<Longrightarrow> (gc_tenant (lt_ctx l) = Some u \<Longrightarrow> x = q_id q0 \<Longrightarrow>
       \<exists>items. input_items ac q0 = Some items \<and> turn_answered ac items turn) \<Longrightarrow>
     safe_input ac q0 (tenant_queue u (admit_input l x turn e))"
  unfolding admit_input_def by (rule tx_queue) (auto simp: admit_input_tx_def intro!: safe_admit)

text \<open>The rows that the feed works on are the queue's rows.\<close>

definition fed_rows :: "string \<Rightarrow> live \<Rightarrow> queue_row list \<Rightarrow> queue_row \<Rightarrow> bool" where
  "fed_rows u l qs q0 \<longleftrightarrow> (gc_tenant (lt_ctx l) = Some u \<longrightarrow> (\<forall>q \<in> set qs. q_id q = q_id q0 \<longrightarrow> q_payload q = q_payload q0))"

lemma feed_each_safe:
  assumes "input_items (ee_core env) q0 = Some items"
  shows "feed_each env l qs turn adm e = (r, e') \<Longrightarrow> fed_rows u l qs q0 \<Longrightarrow>
    safe_input (ee_core env) q0 (tenant_queue u e) \<Longrightarrow> safe_input (ee_core env) q0 (tenant_queue u e')"
proof (induction qs arbitrary: turn adm e)
  case (Cons q qs)
  have rows: "fed_rows u l qs q0" using Cons.prems(2) by (simp add: fed_rows_def)
  have same: "gc_tenant (lt_ctx l) = Some u \<Longrightarrow> q_id q = q_id q0 \<Longrightarrow> q_payload q = q_payload q0"
    using Cons.prems(2) by (simp add: fed_rows_def)
  note IH = Cons.IH [OF _ rows]
  show ?case
  proof (cases "unmarshal_payload (ee_core env) (q_payload q)")
    case None
    have "gc_tenant (lt_ctx l) = Some u \<Longrightarrow> q_id q \<noteq> q_id q0" using same None assms by (auto simp: input_items_def)
    with None Cons.prems IH show ?thesis by (auto intro: safe_delete_input)
  next
    case (Some p)
    show ?thesis
    proof (cases "qp_type p = queued_interrupt")
      case True
      have "gc_tenant (lt_ctx l) = Some u \<Longrightarrow> q_id q \<noteq> q_id q0" using same Some True assms by (auto simp: input_items_def)
      then have "safe_input (ee_core env) q0 (tenant_queue u (delete_input l (q_id q)
          (snd (core_call (ac_interrupt (ee_core env) (lt_id l)) e))))"
        using Cons.prems(3) by (intro safe_delete_input) simp_all
      with IH Some True Cons.prems(1) show ?thesis by simp
    next
      case False
      obtain a e1 where a: "core_call (ac_submit (ee_core env) (lt_id l) (qp_items p)) e = (a, e1)" by fastforce
      note q1 = call_queue(1) [OF a, of u]
      have ans: "\<exists>items. input_items (ee_core env) q0 = Some items \<and> turn_answered (ee_core env) items t"
        if "gc_tenant (lt_ctx l) = Some u" "q_id q = q_id q0" "a = AdmStarted t \<or> a = AdmSteered t" for t
      proof -
        have "input_items (ee_core env) q0 = Some (qp_items p)" using same [OF that(1,2)] Some False by (simp add: input_items_def)
        moreover have "fst (ac_submit (ee_core env) (lt_id l) (qp_items p) (en_core e)) = a"
          using a by (auto simp: core_call_def split: prod.splits)
        ultimately show ?thesis using that(3) by (auto simp: turn_answered_def)
      qed
      have s1: "safe_input (ee_core env) q0 (tenant_queue u e1)" using Cons.prems(3) q1 by simp
      have s2: "safe_input (ee_core env) q0 (tenant_queue u (admit_input l (q_id q) t
          (update_live (lt_serial l) (mark_admission t st) e1)))" if "a = AdmStarted t \<or> a = AdmSteered t" for t st
        by (rule safe_admit_input) (use s1 ans that in auto)
      show ?thesis
      proof (cases a)
        case (AdmStarted t)
        with a Some False Cons.prems(1) IH [of t True] s2 [of t False] show ?thesis by simp
      next
        case (AdmSteered t)
        with a Some False Cons.prems(1) IH [of t True] s2 [of t True] show ?thesis by simp
      next
        case AgentDied
        with a Some False Cons.prems(1) s1 show ?thesis by simp
      next
        case (AdmError er)
        with a Some False Cons.prems(1) IH s1 show ?thesis by simp
      qed
    qed
  qed
qed simp

lemma feed_safe:
  assumes "feed env l e = (r, e')" "input_items (ee_core env) q0 = Some items"
    "safe_input (ee_core env) q0 (tenant_queue u e)" "distinct (map q_id (tenant_queue u e))"
  shows "safe_input (ee_core env) q0 (tenant_queue u e')"
proof -
  let ?ctx = "gc_tenant (lt_ctx l)"
  obtain x e1 where x: "store_query (\<lambda>flt d. fst (in_tenant_tx flt ?ctx (\<lambda>s. Inr (pending_inputs (lt_id l) s, s)) d)) e = (x, e1)"
    by fastforce
  note qu = call_queue(2) [OF x, of u]
  show ?thesis
  proof (cases x)
    case (Inl er)
    with assms x qu show ?thesis by (simp add: feed_def)
  next
    case (Inr qs)
    have "set qs \<subseteq> set (tenant_queue u e)" if "?ctx = Some u"
      using x Inr that by (auto simp: store_query_def in_tenant_tx_def tenant_from_context_Some pending_inputs_def
          tenant_queue_def split: option.splits if_splits)
    moreover obtain q1 where "q1 \<in> set (tenant_queue u e)" "q_id q1 = q_id q0" "q_payload q1 = q_payload q0"
      using assms(3) by (auto simp: safe_input_def)
    ultimately have rows: "fed_rows u l qs q0"
      using assms(4) unfolding fed_rows_def distinct_map by (metis inj_onD subsetD)
    obtain y e2 where f: "feed_each env l qs [] False e1 = (y, e2)" by fastforce
    have "e' = e2" using assms(1) x Inr f by (simp add: feed_def)
    with feed_each_safe [OF assms(2) f rows] assms(3) qu show ?thesis by simp
  qed
qed

lemma lease_queue [simp]: "tenant_queue u (unclaim env ctx tid e) = tenant_queue u e"
  by (auto simp: unclaim_def store_call_def tenant_queue_def release_turn_def in_tenant_tx_def release_turn_tx_def
      split: option.splits)

lemma claim_queue:
  "store_call (\<lambda>flt. claim_turn flt ctx now tid pod) e = (r, e') \<Longrightarrow> tenant_queue u e' = tenant_queue u e"
  by (auto simp: store_call_def tenant_queue_def claim_turn_def in_tenant_tx_def claim_turn_tx_def Let_def
      split: option.splits if_splits prod.splits sum.splits)

lemma acquire_queue: "acquire_slot t e = (b, e') \<Longrightarrow> tenant_queue u e' = tenant_queue u e"
  by (auto simp: acquire_slot_def split: option.splits prod.splits)

lemma start_live_queue: "start_live env ctx i agent slot e = (r, e') \<Longrightarrow> tenant_queue u e' = tenant_queue u e"
  by (auto simp: start_live_def Let_def split: sum.splits prod.splits dest!: call_queue(1))

lemma agent_queue:
  "(case i_agent i of None \<Rightarrow> (None, e) | Some a \<Rightarrow> (case store_query (\<lambda>flt. get_agent flt ctx a) e of
      (Inl _, e2) \<Rightarrow> (None, e2) | (Inr p, e2) \<Rightarrow> (Some p, e2))) = (agent, e2) \<Longrightarrow> tenant_queue u e2 = tenant_queue u e"
  by (auto split: option.splits prod.splits sum.splits dest!: call_queue(2))

lemma run_claimed_safe:
  assumes "run_claimed env ctx i e = (r, e')" "input_items (ee_core env) q0 = Some items"
    "safe_input (ee_core env) q0 (tenant_queue u e)" "distinct (map q_id (tenant_queue u e))"
  shows "safe_input (ee_core env) q0 (tenant_queue u e')"
proof -
  define t where "t = (case tenant_of ctx of Inl _ \<Rightarrow> [] | Inr t \<Rightarrow> t)"
  obtain b e1 where a: "acquire_slot t e = (b, e1)" by fastforce
  obtain agent e2 where g: "(case i_agent i of None \<Rightarrow> (None, e1)
      | Some a \<Rightarrow> (case store_query (\<lambda>flt. get_agent flt (gc_tenant ctx) a) e1 of
          (Inl _, e2) \<Rightarrow> (None, e2) | (Inr p, e2) \<Rightarrow> (Some p, e2))) = (agent, e2)" by fastforce
  obtain x e3 where s: "start_live env ctx i agent (en_limiter e2 \<noteq> None) e2 = (x, e3)" by fastforce
  have q: "tenant_queue u e1 = tenant_queue u e" "tenant_queue u e3 = tenant_queue u e"
    using acquire_queue [OF a, of u] agent_queue [OF g, of u] start_live_queue [OF s, of u] by simp_all
  show ?thesis
  proof (cases b)
    case False
    with assms(1,3) a q show ?thesis by (auto simp: run_claimed_def t_def [symmetric])
  next
    case True
    with assms(1) a g s have r: "(r, e') = (case x of Inr l \<Rightarrow> feed env l e3
        | Inl er \<Rightarrow> (Inl (Wrapf (''start thread session '' @ i_id i) er),
            unclaim env ctx (i_id i) (e3\<lparr>en_limiter := map_option (release_slot t) (en_limiter e3)\<rparr>)))"
      by (cases x) (simp_all add: run_claimed_def t_def [symmetric])
    show ?thesis
    proof (cases x)
      case (Inl er)
      with r assms(3) q show ?thesis by simp
    next
      case (Inr l)
      with r have "feed env l e3 = (r, e')" by simp
      from feed_safe [OF this assms(2), of u] assms(3,4) q show ?thesis by simp
    qed
  qed
qed

lemma dispatch_safe:
  assumes "dispatch env ctx i e = (r, e')" "input_items (ee_core env) q0 = Some items"
    "safe_input (ee_core env) q0 (tenant_queue u e)" "distinct (map q_id (tenant_queue u e))"
  shows "safe_input (ee_core env) q0 (tenant_queue u e')"
proof (cases "live_for (i_id i) e")
  case (Some l)
  with assms(1) have "feed env l e = (r, e')" by (simp add: dispatch_def)
  then show ?thesis by (rule feed_safe [OF _ assms(2-4)])
next
  case None
  show ?thesis
  proof (cases "en_draining e")
    case True
    with None assms show ?thesis by (simp add: dispatch_def)
  next
    case False
    obtain x e1 where c: "store_call (\<lambda>flt. claim_turn flt (gc_tenant ctx) (en_now e) (i_id i) (ec_pod (ee_cfg env))) e = (x, e1)"
      by fastforce
    note q = claim_queue [OF c, of u]
    show ?thesis
    proof (cases "x = Inr True")
      case True
      with assms(1) None False c have "run_claimed env ctx i e1 = (r, e')" by (simp add: dispatch_def)
      from run_claimed_safe [OF this assms(2), of u] assms(3,4) q show ?thesis by simp
    next
      case f: False
      have "dispatch env ctx i e = (case x of Inl er \<Rightarrow> (Inl er, e1) | Inr b \<Rightarrow>
          if b then run_claimed env ctx i e1 else (Inr ([], False), e1))"
        using None False c by (auto simp: dispatch_def split: sum.split bool.split)
      with assms(1) f have "e' = e1" by (simp split: sum.splits if_splits)
      with assms(3) q show ?thesis by simp
    qed
  qed
qed

section \<open>A submitted input is durable\<close>

text \<open>The documented behaviour of a jsonb column: the text it returns decodes like the one it was given.\<close>

definition jsonb_keeps :: "'c engine_env \<Rightarrow> bool" where
  "jsonb_keeps env \<longleftrightarrow> (\<forall>p raw stored. marshal_payload (ee_core env) p = Some raw \<longrightarrow>
     cx_jsonb (ee_cx env) raw = Some stored \<longrightarrow> unmarshal_payload (ee_core env) stored = unmarshal_payload (ee_core env) raw)"

lemma enqueue_row:
  assumes "engine_enqueue env (request_ctx (Some t)) tid p kind e = (Inr qid, e')" "input_law (ee_core env)" "jsonb_keeps env"
    "distinct (map q_id (tenant_queue t e))"
  shows "distinct (map q_id (tenant_queue t e')) \<and> (\<exists>q \<in> set (tenant_queue t e'). q_id q = qid \<and> q_thread q = tid
      \<and> unmarshal_payload (ee_core env) (q_payload q) = Some p \<and> q_admitted q = None)"
proof -
  obtain raw where raw: "marshal_payload (ee_core env) p = Some raw"
    using assms(1) by (auto simp: engine_enqueue_def split: option.splits)
  obtain s' where s': "enqueue_input_tx (ee_cx env) (en_now e) tid qid kind raw (slice (en_db e) t) = Inr ((), s')"
      "slice (en_db e') t = s'"
    using assms(1) raw
    by (auto simp: engine_enqueue_def Let_def store_call_def request_ctx_def in_tenant_tx_def tenant_from_context_Some
        split: prod.splits sum.splits option.splits if_splits)
  obtain stored where st: "cx_jsonb (ee_cx env) raw = Some stored" "qid \<notin> q_id ` set (queue (slice (en_db e) t))"
    "queue s' = queue (slice (en_db e) t) @ [\<lparr>q_id = qid, q_thread = tid, q_kind = kind, q_payload = stored,
       q_admitted = None, q_created = en_now e\<rparr>]"
    using s'(1) by (auto simp: enqueue_input_tx_def split: sum.splits option.splits if_splits)
  have "unmarshal_payload (ee_core env) stored = Some p"
    using assms(3) raw st(1) payload_roundtrip [OF assms(2) raw] by (simp add: jsonb_keeps_def)
  with st assms(4) show ?thesis by (simp add: tenant_queue_def s'(2))
qed

text \<open>A submitted input is durable. When \<open>SubmitTurn\<close> answers without an error, whatever the database
  did in between, whether a session could be started, a slot was free or the pod is draining: the
  tenant's queue holds a row of the thread that decodes to exactly the submitted items, and it is still
  waiting or admitted to a turn that the session answered for these items.\<close>

theorem submit_turn_durable:
  assumes "submit_turn env (request_ctx (Some t)) tid items e = (Inr ref, e')"
    and "input_law (ee_core env)" "jsonb_keeps env" "distinct (map q_id (queue (slice (en_db e) t)))"
  shows "\<exists>q \<in> set (queue (slice (en_db e') t)). q_thread q = tid
      \<and> unmarshal_payload (ee_core env) (q_payload q) = Some \<lparr>qp_type = queued_user_input, qp_items = items\<rparr>
      \<and> (case q_admitted q of None \<Rightarrow> True | Some turn \<Rightarrow> turn_answered (ee_core env) items turn)"
proof -
  let ?ctx = "request_ctx (Some t)" let ?p = "\<lparr>qp_type = queued_user_input, qp_items = items\<rparr>"
  obtain x e1 where i: "store_query (\<lambda>flt. get_thread_info flt (gc_tenant ?ctx) tid) e = (x, e1)" by fastforce
  obtain y e2 where en: "engine_enqueue env ?ctx tid ?p (kind_for tid e1) e1 = (y, e2)" by fastforce
  have q1: "tenant_queue t e1 = tenant_queue t e" by (rule call_queue(2) [OF i])
  from assms(1) i en obtain info qid z where d: "x = Inr info" "y = Inr qid" "dispatch env ?ctx info e2 = (z, e')"
    by (auto simp: submit_turn_def split: if_splits sum.splits prod.splits)
  with en have "engine_enqueue env ?ctx tid ?p (kind_for tid e1) e1 = (Inr qid, e2)" by simp
  from enqueue_row [OF this assms(2,3)] q1 assms(4) obtain q where dist: "distinct (map q_id (tenant_queue t e2))"
    and q: "q \<in> set (tenant_queue t e2)" "q_thread q = tid" "unmarshal_payload (ee_core env) (q_payload q) = Some ?p"
      "q_admitted q = None" by (auto simp: tenant_queue_def)
  have it: "input_items (ee_core env) q = Some items"
    using q(3) by (simp add: input_items_def queued_user_input_def queued_interrupt_def)
  moreover have "safe_input (ee_core env) q (tenant_queue t e2)" using q(1) by (auto simp: safe_input_def)
  ultimately have "safe_input (ee_core env) q (tenant_queue t e')" using dispatch_safe [OF d(3)] dist by blast
  with it q show ?thesis by (fastforce simp: safe_input_def tenant_queue_def)
qed

lemma sample_laws: "input_law (ee_core sample_env)" "jsonb_keeps sample_env"
  by (simp_all add: input_law_def jsonb_keeps_def sample_env_def sample_core_def sample_codex_def as_str_def)

lemma submit_turn_durable_witness:
  "\<exists>ref e'. submit_turn sample_env (request_ctx (Some ''t'')) ''a'' [''hello''] (sample_engine\<lparr>en_draining := True\<rparr>) = (Inr ref, e')
     \<and> (\<exists>q \<in> set (queue (slice (en_db e') ''t'')). q_thread q = ''a'')"
proof -
  have "\<exists>ref e'. submit_turn sample_env (request_ctx (Some ''t'')) ''a'' [''hello''] (sample_engine\<lparr>en_draining := True\<rparr>) = (Inr ref, e')"
    by (simp add: submit_turn_def store_query_def next_fault_def sample_engine_def request_ctx_def get_thread_info_def
        in_tenant_tx_def tenant_from_context_def one_tenant_def one_thread_def blank_thread_def live_thread_def row_simps
        info_of_row_def engine_enqueue_def sample_env_def sample_core_def marshal_payload_def map_all_def store_call_def
        enqueue_input_tx_def current_seq_def sample_codex_def empty_tdb_def Let_def dispatch_def live_for_def)
  then obtain ref e' where s: "submit_turn sample_env (request_ctx (Some ''t'')) ''a'' [''hello''] (sample_engine\<lparr>en_draining := True\<rparr>) = (Inr ref, e')"
    by blast
  from submit_turn_durable [OF s sample_laws] s show ?thesis
    by (fastforce simp: sample_engine_def one_tenant_def one_thread_def empty_tdb_def)
qed

section \<open>Resuming without inputs\<close>

text \<open>Resuming an idle thread that has no waiting input takes a session that has nothing to do. The
  call succeeds, the thread is claimed and its session started: the pod's table holds it with no turn
  running, it is running in the store, and with a limit of one the tenant's slot is taken, so that no
  other thread of the tenant gets one. Sessions are released at the end of a turn or of the session.\<close>

theorem resume_idle_holds_slot:
  assumes "gc_info ctx = None" "gc_tenant ctx = Some t" "t \<noteq> []" "en_faults e = []" "\<not> en_draining e"
    and "live_for tid e = None" "en_limiter e = Some (new_tenant_limiter 1)"
    and "threads (slice (en_db e) t) = [row]" "t_id row = tid" "t_status row = Idle" "t_agent row = None"
    and "queue (slice (en_db e) t) = []"
    and "\<And>c cfg sctx. fst (ac_start (ee_core env) sctx cfg tid c) = Inr () \<and> fst (ac_resume (ee_core env) sctx cfg tid c) = Inr ()"
  shows "\<exists>e' l lim. engine_resume env ctx tid e = (Inr (), e') \<and> live_for tid e' = Some l \<and> \<not> lt_running l
      \<and> t_status (hd (threads (slice (en_db e') t))) = Running
      \<and> en_limiter e' = Some lim \<and> \<not> fst (try_acquire t lim)"
proof -
  have tn: "tenant_from_context (Some t) = Some t" "tenant_of ctx = Inr t"
    using assms(1-3) by (simp_all add: tenant_from_context_def tenant_of_def tenant_id_from_def)
  have none: "find (\<lambda>l. lt_id l = tid) (en_live e) = None" using assms(6) by (simp add: live_for_def)
  have filt: "filter (\<lambda>k. lt_id k \<noteq> tid) (en_live e) = en_live e"
    using none by (auto simp: find_None_iff filter_id_conv)
  have add: "find (\<lambda>l. lt_id l = tid) (en_live e @ [l]) = Some l" if "lt_id l = tid" for l
    using none that by (auto simp: find_None_iff find_Some_iff nth_append less_Suc_eq_le intro!: exI [of _ "length (en_live e)"])
  have take: "try_acquire t (new_tenant_limiter 1) = (True, \<lparr>tl_max = 1, tl_cur = [t \<mapsto> 1]\<rparr>)"
    by (simp add: try_acquire_def new_tenant_limiter_def in_flight_def)
  have full: "\<not> fst (try_acquire t \<lparr>tl_max = 1, tl_cur = [t \<mapsto> 1]\<rparr>)" by (simp add: try_acquire_def in_flight_def)
  define row' where "row' = row\<lparr>t_status := Running, t_pod := Some (ec_pod (ee_cfg env)), t_heartbeat := Some (en_now e),
    t_updated := en_now e\<rparr>"
  have info: "get_thread_info NoFault (Some t) tid (en_db e) = Inr (info_of_row row)"
    using assms(8-10) by (simp add: get_thread_info_def in_tenant_tx_ok [OF tn(1)] live_thread_def row_simps)
  have claim: "claim_turn NoFault (Some t) (en_now e) tid (ec_pod (ee_cfg env)) (en_db e)
      = (Inr True, (en_db e)\<lparr>slice := (slice (en_db e))(t := (slice (en_db e) t)\<lparr>threads := [row']\<rparr>)\<rparr>)"
    using assms(8-10) by (simp add: claim_turn_def in_tenant_tx_ok [OF tn(1)] claim_turn_tx_def claimable_def row_simps
        count_where_def row'_def Let_def)
  define e1 where "e1 = e\<lparr>en_faults := []\<rparr>"
  define e2 where "e2 = e1\<lparr>en_db := (en_db e)\<lparr>slice := (slice (en_db e))(t := (slice (en_db e) t)\<lparr>threads := [row']\<rparr>)\<rparr>\<rparr>"
  define e3 where "e3 = e2\<lparr>en_limiter := Some \<lparr>tl_max = 1, tl_cur = [t \<mapsto> 1]\<rparr>\<rparr>"
  define sctx where "sctx = \<lparr>gc_tenant = Some t, gc_info = Some \<lparr>si_tenant = t, si_agent = [], si_thread = tid, si_trace = tid\<rparr>\<rparr>"
  define f where "f = (if t_last_seq row = 0 then ac_start (ee_core env) else ac_resume (ee_core env))
    sctx (session_config_of (ee_cfg env) (info_of_row row) None) tid"
  obtain c where c: "f (en_core e) = (Inr (), c)" using assms(13) by (cases "f (en_core e)") (auto simp: f_def split: if_splits, (metis fst_conv)+)
  define l where "l = \<lparr>lt_serial = en_serial e, lt_id = tid, lt_ctx = sctx, lt_tenant = t, lt_turn = [],
    lt_running = False, lt_started = None, lt_failed = False, lt_steered = False, lt_slot = True\<rparr>"
  define e4 where "e4 = put_live l (e3\<lparr>en_core := c, en_serial := Suc (en_serial e)\<rparr>)"
  have s1: "store_query (\<lambda>flt. get_thread_info flt (gc_tenant ctx) tid) e = (Inr (info_of_row row), e1)"
    using assms(2,4) info by (simp add: store_query_def next_fault_def e1_def)
  have s2: "store_call (\<lambda>flt. claim_turn flt (gc_tenant ctx) (en_now e1) tid (ec_pod (ee_cfg env))) e1 = (Inr True, e2)"
    using assms(2,4) claim by (simp add: store_call_def next_fault_def e1_def e2_def)
  have s3: "acquire_slot t e2 = (True, e3)" using assms(7) take by (simp add: acquire_slot_def e1_def e2_def e3_def)
  have s4: "start_live env ctx (info_of_row row) None True e3 = (Inr l, e4)"
    using c assms(9,11) tn(2) by (simp add: start_live_def Let_def info_of_row_def core_call_def e1_def e2_def e3_def e4_def l_def f_def sctx_def)
  have s5: "feed env l e4 = (Inr ([], False), e4\<lparr>en_faults := []\<rparr>)"
    using assms(12) tn(1) by (simp add: feed_def store_query_def next_fault_def in_tenant_tx_def pending_inputs_def order_by_def
        e4_def put_live_def e3_def e2_def e1_def l_def sctx_def)
  have "dispatch env ctx (info_of_row row) e1 = (Inr ([], False), e4\<lparr>en_faults := []\<rparr>)"
    using none assms(5,9,11) s2 s3 s4 s5 tn(2)
    by (simp add: dispatch_def live_for_def info_of_row_def e1_def run_claimed_def e3_def) 
  then have "engine_resume env ctx tid e = (Inr (), e4\<lparr>en_faults := []\<rparr>)"
    using s1 assms(10) by (simp add: engine_resume_def info_of_row_def forget_result_def)
  moreover have "live_for tid (e4\<lparr>en_faults := []\<rparr>) = Some l"
    using add [of l] filt by (simp add: live_for_def e4_def put_live_def e3_def e2_def e1_def l_def)
  moreover have "t_status (hd (threads (slice (en_db (e4\<lparr>en_faults := []\<rparr>)) t))) = Running"
    by (simp add: e4_def put_live_def e3_def e2_def row'_def)
  ultimately show ?thesis using full
    by (intro exI [of _ "e4\<lparr>en_faults := []\<rparr>"] exI [of _ l]) (simp add: e4_def put_live_def e3_def l_def)
qed

lemma resume_idle_holds_slot_witness:
  "\<exists>e' l lim. engine_resume sample_env (request_ctx (Some ''t'')) ''a'' sample_engine = (Inr (), e')
     \<and> live_for ''a'' e' = Some l \<and> \<not> lt_running l
     \<and> t_status (hd (threads (slice (en_db e') ''t''))) = Running
     \<and> en_limiter e' = Some lim \<and> \<not> fst (try_acquire ''t'' lim)"
  by (rule resume_idle_holds_slot [where row = "blank_thread ''a''"])
    (simp_all add: request_ctx_def sample_engine_def live_for_def one_tenant_def one_thread_def empty_tdb_def
      blank_thread_def sample_env_def sample_core_def)

end
