(* ===== verification/TurnPages.thy ===== *)
theory TurnPages
  imports ThreadStore
begin

text \<open>
  The paged views of a thread's log: items (\<^verbatim>\<open>agent-runtime/internal/pgstore/items.go\<close>)
  by event number, and turns (\<^verbatim>\<open>turns.go\<close>) folded from the boundary events.
\<close>

section \<open>items.go\<close>

record list_items_params =
  li_thread :: string
  li_archived :: bool
  li_page_size :: int
  li_cursor :: "string option"
  li_asc :: bool
  li_turn :: "string option"
  li_after :: "int option"

record stored_item =
  it_turn :: string
  it_id :: string
  it_ordinal :: int
  it_created_ms :: int
  it_json :: string

text \<open>\<open>seqCursor\<close>: no cursor, or a decimal number.\<close>

definition seq_cursor :: "string option \<Rightarrow> go_error + int option" where
  "seq_cursor c = (if or_empty c = [] then Inr None
     else case parse_int64 (or_empty c) of None \<Rightarrow> Inl (StoreErr SkInvalidRequest) | Some v \<Rightarrow> Inr (Some v))"

text \<open>The condition of \<open>itemsQuery\<close> without the cursor.\<close>

definition item_match :: "list_items_params \<Rightarrow> event_row \<Rightarrow> bool" where
  "item_match p r \<longleftrightarrow> e_thread r = li_thread p \<and> e_type r = event_type_response_item
     \<and> (case li_turn p of None \<Rightarrow> True | Some t \<Rightarrow> e_turn r = Some t)
     \<and> (case li_after p of None \<Rightarrow> True | Some a \<Rightarrow> e_seq r > ordinal_to_seq a)"

definition items_query :: "list_items_params \<Rightarrow> int option \<Rightarrow> nat \<Rightarrow> tdb \<Rightarrow> event_row list" where
  "items_query p frm lim s = key_fetch (li_asc p) e_seq (filter (item_match p) (events s)) frm lim"

definition item_of_row :: "event_row \<Rightarrow> stored_item" where
  "item_of_row r = \<lparr>it_turn = or_empty (e_turn r), it_id = int_str (e_seq r), it_ordinal = seq_to_ordinal (e_seq r),
     it_created_ms = e_created r div 1000, it_json = e_payload r\<rparr>"

fun scan_item_page :: "nat \<Rightarrow> stored_item list \<Rightarrow> int \<Rightarrow> event_row list \<Rightarrow> stored_item list \<times> string option" where
  "scan_item_page sz out lst [] = (out, None)"
| "scan_item_page sz out lst (r # rs) = (if length out = sz then (out, Some (int_str lst))
     else scan_item_page sz (out @ [item_of_row r]) (e_seq r) rs)"

definition list_items :: "tx_fault \<Rightarrow> string option \<Rightarrow> list_items_params \<Rightarrow> db
    \<Rightarrow> (go_error + stored_item list \<times> string option) \<times> db" where
  "list_items flt ctx p d = (let sz = nat (normalize_page_size (li_page_size p)) in
     case seq_cursor (li_cursor p) of Inl e \<Rightarrow> (Inl e, d)
     | Inr frm \<Rightarrow> in_tenant_tx flt ctx (\<lambda>s. case read_row (li_thread p) (li_archived p) s of
           Inl e \<Rightarrow> Inl e
         | Inr _ \<Rightarrow> Inr (scan_item_page sz [] 0 (items_query p frm (sz + 1) s), s)) d)"

section \<open>turns.go\<close>

datatype turn_status = TurnInProgress | TurnCompleted | TurnInterrupted | TurnFailed

record turn_agg =
  tg_id :: string
  tg_first :: int
  tg_status :: turn_status
  tg_error :: "string option"
  tg_started :: "int option"
  tg_completed :: "int option"

record list_turns_params =
  lt_thread :: string
  lt_archived :: bool
  lt_page_size :: int
  lt_cursor :: "string option"
  lt_asc :: bool
  lt_summary :: bool

definition turn_event :: "string \<Rightarrow> bool" where
  "turn_event ty \<longleftrightarrow> ty \<in> {''turn_started'', ''task_started'', ''turn_complete'', ''task_complete'',
     ''turn_aborted'', ''error''}"

definition turns_query :: "list_turns_params \<Rightarrow> int option \<Rightarrow> tdb \<Rightarrow> event_row list" where
  "turns_query p frm s = (let rs = filter (\<lambda>r. e_thread r = lt_thread p \<and> e_turn r \<noteq> None \<and> turn_event (e_type r)
         \<and> (case frm of None \<Rightarrow> True | Some k \<Rightarrow> before_dir (lt_asc p) k (e_seq r))) (events s)
     in sort_dir (lt_asc p) e_seq rs)"

text \<open>\<open>errorMessageOf\<close>: the message inside the payload member of an error event.\<close>

definition error_message_of :: "string \<Rightarrow> string" where
  "error_message_of payload = (case Option.bind (json_parse payload) struct_members of None \<Rightarrow> []
     | Some kvs \<Rightarrow> (case Option.bind (raw_field ''payload'' kvs) struct_members of None \<Rightarrow> []
         | Some inner \<Rightarrow> or_empty (str_field ''message'' inner)))"

definition fold_turn :: "string \<Rightarrow> string \<Rightarrow> int \<Rightarrow> turn_agg \<Rightarrow> turn_agg" where
  "fold_turn ty payload ts a =
     (if ty = ''turn_started'' \<or> ty = ''task_started'' then a\<lparr>tg_started := Some ts\<rparr>
      else if ty = ''turn_complete'' \<or> ty = ''task_complete''
        then a\<lparr>tg_completed := Some ts, tg_status := TurnCompleted\<rparr>
      else if ty = ''turn_aborted'' then a\<lparr>tg_completed := Some ts, tg_status := TurnInterrupted\<rparr>
      else if ty = ''error'' then a\<lparr>tg_status := TurnFailed,
          tg_error := (let m = error_message_of payload in if m = [] then tg_error a else Some m)\<rparr>
      else a)"

definition new_turn :: "string \<Rightarrow> int \<Rightarrow> turn_agg" where
  "new_turn tid seq = \<lparr>tg_id = tid, tg_first = seq, tg_status = TurnInProgress, tg_error = None,
     tg_started = None, tg_completed = None\<rparr>"

text \<open>One row: the turn's entry is created at its first row and updated in place.\<close>

definition add_turn_row :: "turn_agg list \<Rightarrow> event_row \<Rightarrow> turn_agg list" where
  "add_turn_row aggs r = (let tid = or_empty (e_turn r);
       f = fold_turn (e_type r) (e_payload r) (e_created r div 1000000)
     in if tid \<in> tg_id ` set aggs then map (\<lambda>a. if tg_id a = tid then f a else a) aggs
        else aggs @ [f (new_turn tid (e_seq r))])"

definition aggregate_turns :: "event_row list \<Rightarrow> turn_agg list" where
  "aggregate_turns rows = foldl add_turn_row [] rows"

record stored_turn =
  tn_id :: string
  tn_status :: turn_status
  tn_error :: "string option"
  tn_started :: "int option"
  tn_completed :: "int option"
  tn_duration_ms :: "int option"
  tn_summary :: bool

definition turn_of_agg :: "bool \<Rightarrow> turn_agg \<Rightarrow> stored_turn" where
  "turn_of_agg summary a = \<lparr>tn_id = tg_id a, tn_status = tg_status a, tn_error = tg_error a,
     tn_started = tg_started a, tn_completed = tg_completed a,
     tn_duration_ms = (case (tg_started a, tg_completed a) of (Some s, Some c) \<Rightarrow> Some ((c - s) * 1000) | _ \<Rightarrow> None),
     tn_summary = summary\<rparr>"

definition page_turns :: "turn_agg list \<Rightarrow> nat \<Rightarrow> bool \<Rightarrow> stored_turn list \<times> string option" where
  "page_turns aggs sz summary = (map (turn_of_agg summary) (fst (page_of sz aggs)),
     map_option (\<lambda>a. int_str (tg_first a)) (snd (page_of sz aggs)))"

definition list_turns :: "tx_fault \<Rightarrow> string option \<Rightarrow> list_turns_params \<Rightarrow> db
    \<Rightarrow> (go_error + stored_turn list \<times> string option) \<times> db" where
  "list_turns flt ctx p d = (let sz = nat (normalize_page_size (lt_page_size p)) in
     case seq_cursor (lt_cursor p) of Inl e \<Rightarrow> (Inl e, d)
     | Inr frm \<Rightarrow> in_tenant_tx flt ctx (\<lambda>s. case read_row (lt_thread p) (lt_archived p) s of
           Inl e \<Rightarrow> Inl e
         | Inr _ \<Rightarrow> Inr (page_turns (aggregate_turns (turns_query p frm s)) sz (lt_summary p), s)) d)"

section \<open>Lemmas\<close>

lemma aggregate_snoc: "aggregate_turns (rows @ [r]) = add_turn_row (aggregate_turns rows) r"
  by (simp add: aggregate_turns_def)

lemma fold_turn_keys [simp]: "tg_id (fold_turn ty p ts a) = tg_id a" "tg_first (fold_turn ty p ts a) = tg_first a"
  by (simp_all add: fold_turn_def Let_def)

lemma new_turn_keys [simp]: "tg_id (new_turn t n) = t" "tg_first (new_turn t n) = n"
  by (simp_all add: new_turn_def)

definition row_turn :: "event_row \<Rightarrow> string" where
  "row_turn r = or_empty (e_turn r)"

definition fold_row :: "turn_agg \<Rightarrow> event_row \<Rightarrow> turn_agg" where
  "fold_row a r = fold_turn (e_type r) (e_payload r) (e_created r div 1000000) a"

text \<open>The entry of one turn: its rows folded in order, from the number of the first.\<close>

definition turn_fold :: "string \<Rightarrow> event_row list \<Rightarrow> turn_agg" where
  "turn_fold t rows = (let own = filter (\<lambda>r. row_turn r = t) rows in
     foldl fold_row (new_turn t (case own of [] \<Rightarrow> 0 | r # _ \<Rightarrow> e_seq r)) own)"

lemma foldl_fold_row_id [simp]: "tg_id (foldl fold_row a rows) = tg_id a"
  by (induction rows arbitrary: a) (simp_all add: fold_row_def)

lemma turn_fold_id [simp]: "tg_id (turn_fold t rows) = t"
  by (simp add: turn_fold_def Let_def)

lemma turn_fold_snoc:
  "row_turn r = t \<Longrightarrow> (\<exists>q \<in> set rows. row_turn q = t) \<Longrightarrow> turn_fold t (rows @ [r]) = fold_row (turn_fold t rows) r"
  by (cases "filter (\<lambda>r. row_turn r = t) rows") (auto simp: turn_fold_def filter_empty_conv)

lemma turn_fold_other: "row_turn r \<noteq> t \<Longrightarrow> turn_fold t (rows @ [r]) = turn_fold t rows"
  by (simp add: turn_fold_def)

lemma turn_fold_first: "row_turn r = t \<Longrightarrow> \<forall>q \<in> set rows. row_turn q \<noteq> t \<Longrightarrow>
    turn_fold t (rows @ [r]) = fold_row (new_turn t (e_seq r)) r"
  by (simp add: turn_fold_def filter_False)

text \<open>The turn ids in the order of their first rows.\<close>

fun first_turns :: "event_row list \<Rightarrow> string list" where
  "first_turns [] = []"
| "first_turns (r # rs) = row_turn r # filter (\<lambda>t. t \<noteq> row_turn r) (first_turns rs)"

lemma first_turns_set [simp]: "set (first_turns rows) = row_turn ` set rows"
  by (induction rows) auto

lemma first_turns_snoc:
  "first_turns (rows @ [r]) = (if row_turn r \<in> row_turn ` set rows then first_turns rows
     else first_turns rows @ [row_turn r])"
  by (induction rows) auto

lemma first_turns_distinct: "distinct (first_turns rows)"
  by (induction rows) auto

lemma aggregate_turns_eq: "aggregate_turns rows = map (\<lambda>t. turn_fold t rows) (first_turns rows)"
proof (induction rows rule: rev_induct)
  case (snoc r rows)
  let ?old = "map (\<lambda>t. turn_fold t rows) (first_turns rows)"
  have ids: "tg_id ` set ?old = row_turn ` set rows" by (simp add: image_image)
  have agg: "aggregate_turns (rows @ [r]) = (if row_turn r \<in> row_turn ` set rows
      then map (\<lambda>a. if tg_id a = row_turn r then fold_row a r else a) ?old
      else ?old @ [fold_row (new_turn (row_turn r) (e_seq r)) r])"
    by (simp only: aggregate_snoc snoc add_turn_row_def Let_def ids row_turn_def [symmetric] fold_row_def)
  show ?case
  proof (cases "row_turn r \<in> row_turn ` set rows")
    case True
    then show ?thesis
      by (auto simp: agg first_turns_snoc turn_fold_snoc turn_fold_other intro!: map_cong)
  next
    case False
    moreover have "turn_fold t (rows @ [r]) = turn_fold t rows" if "t \<in> set (first_turns rows)" for t
      using that False by (intro turn_fold_other) auto
    moreover have "turn_fold (row_turn r) (rows @ [r]) = fold_row (new_turn (row_turn r) (e_seq r)) r"
      using False by (intro turn_fold_first) (auto simp: image_iff)
    ultimately show ?thesis by (simp add: agg first_turns_snoc)
  qed
qed (simp add: aggregate_turns_def)

lemma item_rows_distinct:
  assumes "log_ok s" "has_thread (li_thread p) s"
  shows "distinct (map e_seq (filter (item_match p) (events s)))"
proof -
  have "filter (item_match p) (events s) = filter (item_match p) (filter (\<lambda>r. e_thread r = li_thread p) (events s))"
    by (auto simp: item_match_def intro!: filter_cong)
  moreover have "distinct (map e_seq (filter (\<lambda>r. e_thread r = li_thread p) (events s)))"
    using log_seqs(1) [OF assms] by (simp add: thread_seqs_def)
  ultimately show ?thesis by (metis distinct_map_filter)
qed

lemma scan_item_page_gen:
  "length out \<le> sz \<Longrightarrow> scan_item_page sz out lst rs = (out @ map item_of_row (take (sz - length out) rs),
      if length rs \<le> sz - length out then None
      else Some (int_str (if sz = length out then lst else e_seq (rs ! (sz - length out - 1)))))"
proof (induction rs arbitrary: out lst)
  case (Cons r rs)
  show ?case
  proof (cases "length out = sz")
    case False
    with Cons.prems obtain k where k: "sz - length out = Suc k" by (metis Suc_diff_Suc le_neq_implies_less)
    then have "sz - Suc (length out) = k" by simp
    with Cons.IH [of "out @ [item_of_row r]" "e_seq r"] False Cons.prems k show ?thesis
      by (cases k) (auto simp: Suc_le_eq)
  qed simp
qed simp

lemma scan_item_page_of:
  assumes "0 < sz"
  shows "scan_item_page sz [] 0 rs = (map item_of_row (fst (page_of sz rs)),
    map_option (\<lambda>r. int_str (e_seq r)) (snd (page_of sz rs)))"
proof (cases "length rs \<le> sz")
  case True
  then show ?thesis by (simp add: scan_item_page_gen page_of_def)
next
  case False
  then have "last (take sz rs) = rs ! (sz - 1)"
    using assms by (subst last_conv_nth) (auto simp: min_def)
  with False assms show ?thesis by (simp add: scan_item_page_gen page_of_def)
qed

section \<open>Properties\<close>


text \<open>A client of \<open>ListItems\<close> that follows the cursors.\<close>

fun walk_items :: "string option \<Rightarrow> list_items_params \<Rightarrow> db \<Rightarrow> nat \<Rightarrow> string option \<Rightarrow> stored_item list option" where
  "walk_items ctx p d 0 c = Some []"
| "walk_items ctx p d (Suc fuel) c = (case fst (list_items NoFault ctx (p\<lparr>li_cursor := c\<rparr>) d) of
     Inl e \<Rightarrow> None
   | Inr (items, None) \<Rightarrow> Some items
   | Inr (items, Some c') \<Rightarrow> map_option ((@) items) (walk_items ctx p d fuel (Some c')))"

lemma walk_items_collect:
  assumes "tenant_from_context ctx = Some t" "read_row (li_thread p) (li_archived p) (slice d t) = Inr row"
    "\<And>r. r \<in> set (events (slice d t)) \<Longrightarrow> int64_range (e_seq r)" "seq_cursor c = Inr frm"
  shows "walk_items ctx p d fuel c = Some (map item_of_row
     (collect (key_fetch (li_asc p) e_seq (filter (item_match p) (events (slice d t)))) e_seq
        (nat (normalize_page_size (li_page_size p))) fuel frm))"
  using assms(4)
proof (induction fuel arbitrary: c frm)
  case (Suc fuel)
  let ?sz = "nat (normalize_page_size (li_page_size p))"
  let ?rs = "items_query p frm (?sz + 1) (slice d t)"
  have sz: "0 < ?sz" by (simp add: normalize_page_size_def)
  have q: "items_query (p\<lparr>li_cursor := c\<rparr>) frm (?sz + 1) (slice d t) = ?rs"
    by (simp add: items_query_def item_match_def [abs_def])
  have l: "fst (list_items NoFault ctx (p\<lparr>li_cursor := c\<rparr>) d) = Inr (map item_of_row (fst (page_of ?sz ?rs)),
      map_option (\<lambda>r. int_str (e_seq r)) (snd (page_of ?sz ?rs)))"
    using q by (simp add: list_items_def Let_def Suc.prems in_tenant_tx_ok [OF assms(1)] assms(2) scan_item_page_of [OF sz])
  show ?case
  proof (cases "snd (page_of ?sz ?rs)")
    case None
    with l show ?thesis by (cases "page_of ?sz ?rs") (simp add: items_query_def)
  next
    case (Some r)
    then have "r \<in> set ?rs" using page_of_next_in sz by metis
    then have "r \<in> set (events (slice d t))" by (auto simp: items_query_def key_fetch_def dest!: in_set_takeD)
    with assms(3) have "seq_cursor (Some (int_str (e_seq r))) = Inr (Some (e_seq r))"
      by (simp add: seq_cursor_def parse_int_str)
    from Suc.IH [OF this] l Some show ?thesis
      by (cases "page_of ?sz ?rs") (simp add: items_query_def)
  qed
qed simp

text \<open>Listing items page by page lists every matching item of the thread exactly once, in event order
  (or its reverse), whatever the page size and filters.\<close>

theorem list_items_complete:
  assumes "tenant_from_context ctx = Some t" "log_ok (slice d t)"
    "read_row (li_thread p) (li_archived p) (slice d t) = Inr row"
    "\<And>r. r \<in> set (events (slice d t)) \<Longrightarrow> int64_range (e_seq r)" "length (events (slice d t)) < fuel"
  shows "walk_items ctx p d fuel None
     = Some (map item_of_row (sort_dir (li_asc p) e_seq (filter (item_match p) (events (slice d t)))))
    \<and> distinct (map e_seq (filter (item_match p) (events (slice d t))))"
proof -
  let ?rs = "filter (item_match p) (events (slice d t))"
  from live_thread_unique(1,2) [OF assms(2) read_row_Inr [OF assms(3)]]
  have "has_thread (li_thread p) (slice d t)" by (metis has_thread_def imageI)
  from item_rows_distinct [OF assms(2) this] have dist: "distinct (map e_seq ?rs)" .
  have c: "seq_cursor None = Inr None" by (simp add: seq_cursor_def)
  have "length (sort_dir (li_asc p) e_seq ?rs) < fuel"
    using le_less_trans [OF length_filter_le assms(5), of "item_match p"]
    by (simp add: sort_dir_def order_by_def)
  then have "collect (key_fetch (li_asc p) e_seq ?rs) e_seq (nat (normalize_page_size (li_page_size p))) fuel None
      = sort_dir (li_asc p) e_seq ?rs"
    by (intro kf.collect_all dist) (simp_all add: normalize_page_size_def)
  then show ?thesis using walk_items_collect [OF assms(1,3,4) c] dist by simp
qed

definition sample_list_items :: list_items_params where
  "sample_list_items = \<lparr>li_thread = ''a'', li_archived = False, li_page_size = 1, li_cursor = None, li_asc = True,
     li_turn = None, li_after = None\<rparr>"

lemma list_items_complete_witness:
  "walk_items (Some ''t'') sample_list_items one_tenant 1 None = Some []"
proof -
  have t: "tenant_from_context (Some ''t'') = Some ''t''" by (simp add: tenant_from_context_def)
  have s: "slice one_tenant ''t'' = one_thread" "events one_thread = []"
    by (simp_all add: one_tenant_def one_thread_def empty_tdb_def)
  have r: "read_row (li_thread sample_list_items) (li_archived sample_list_items) (slice one_tenant ''t'') = Inr (blank_thread ''a'')"
    by (simp add: s read_row_def sample_list_items_def one_thread_def live_thread_def blank_thread_def row_simps)
  from list_items_complete [OF t _ r, of 1] one_thread_ok show ?thesis
    by (simp add: s sort_dir_def order_by_def)
qed

definition turn_row :: "int \<Rightarrow> string \<Rightarrow> string \<Rightarrow> event_row" where
  "turn_row seq turn ty = \<lparr>e_thread = ''a'', e_seq = seq, e_turn = Some turn, e_type = ty, e_payload = [],
     e_ref = None, e_created = seq * 1000000\<rparr>"

definition two_turns :: db where
  "two_turns = \<lparr>tenants = [''t''], slice = (\<lambda>_. one_thread\<lparr>
     threads := [(blank_thread ''a'')\<lparr>t_last_seq := 3\<rparr>],
     events := [turn_row 1 ''A'' ''turn_started'', turn_row 2 ''A'' ''turn_complete'', turn_row 3 ''B'' ''turn_started'']\<rparr>)\<rparr>"

definition turns_params :: "string option \<Rightarrow> list_turns_params" where
  "turns_params c = \<lparr>lt_thread = ''a'', lt_archived = False, lt_page_size = 1, lt_cursor = c, lt_asc = True,
     lt_summary = True\<rparr>"

lemma two_turns_rows:
  "turns_query (turns_params c) None (slice two_turns ''t'')
     = [turn_row 1 ''A'' ''turn_started'', turn_row 2 ''A'' ''turn_complete'', turn_row 3 ''B'' ''turn_started'']"
  "turns_query (turns_params c) (Some 1) (slice two_turns ''t'')
     = [turn_row 2 ''A'' ''turn_complete'', turn_row 3 ''B'' ''turn_started'']"
  by (simp_all add: turns_query_def turns_params_def two_turns_def turn_row_def turn_event_def
      before_dir_def sort_dir_def order_by_def)

lemma two_turns_agg:
  "aggregate_turns [turn_row 1 ''A'' ''turn_started'', turn_row 2 ''A'' ''turn_complete'', turn_row 3 ''B'' ''turn_started'']
    = [\<lparr>tg_id = ''A'', tg_first = 1, tg_status = TurnCompleted, tg_error = None, tg_started = Some 1, tg_completed = Some 2\<rparr>,
       \<lparr>tg_id = ''B'', tg_first = 3, tg_status = TurnInProgress, tg_error = None, tg_started = Some 3, tg_completed = None\<rparr>]"
  "aggregate_turns [turn_row 2 ''A'' ''turn_complete'', turn_row 3 ''B'' ''turn_started'']
    = [\<lparr>tg_id = ''A'', tg_first = 2, tg_status = TurnCompleted, tg_error = None, tg_started = None, tg_completed = Some 2\<rparr>,
       \<lparr>tg_id = ''B'', tg_first = 3, tg_status = TurnInProgress, tg_error = None, tg_started = Some 3, tg_completed = None\<rparr>]"
  by (simp_all add: aggregate_turns_def add_turn_row_def fold_turn_def new_turn_def turn_row_def Let_def)

text \<open>The turn list repeats turns across pages. The cursor is the number of a turn's first event, so
  the next page's query still contains the rest of that turn's events: with a started and a completed
  turn and a second one, page size 1, the first turn comes back on the second page, now without its
  start.\<close>

theorem list_turns_repeats:
  "(\<exists>tn. fst (list_turns NoFault (Some ''t'') (turns_params None) two_turns) = Inr ([tn], Some ''1'')
      \<and> tn_id tn = ''A'' \<and> tn_started tn = Some 1 \<and> tn_completed tn = Some 2)
   \<and> (\<exists>tn. fst (list_turns NoFault (Some ''t'') (turns_params (Some ''1'')) two_turns) = Inr ([tn], Some ''2'')
      \<and> tn_id tn = ''A'' \<and> tn_started tn = None \<and> tn_completed tn = Some 2)"
proof -
  have t: "tenant_from_context (Some ''t'') = Some ''t''" by (simp add: tenant_from_context_def)
  have r: "\<exists>row. read_row ''a'' False (slice two_turns ''t'') = Inr row"
    by (simp add: two_turns_def one_thread_def read_row_def live_thread_def blank_thread_def row_simps)
  have n: "int_str 1 = ''1''" "int_str 2 = ''2''" "parse_int64 ''1'' = Some 1"
    by (simp_all add: int_str_def nat_str.simps digit_char_def char_of_def bit_0 bit_Suc parse_int64_def parse_nat_def is_digit_def
        digits_val_def digit_val_def int64_range_def)
  have q: "lt_thread (turns_params c) = ''a''" "lt_archived (turns_params c) = False" "lt_page_size (turns_params c) = 1"
    "lt_cursor (turns_params c) = c" for c by (simp_all add: turns_params_def)
  show ?thesis using r
    by (auto simp: list_turns_def Let_def q seq_cursor_def n in_tenant_tx_ok [OF t] normalize_page_size_def
        two_turns_rows two_turns_agg page_turns_def page_of_def turn_of_agg_def)
qed

end
