(* ===== verification/AgentApi.thy ===== *)
theory AgentApi
  imports EngineQueue TurnPages
begin

text \<open>
  The internal HTTP surface of the agent runtime, \<^verbatim>\<open>agent-runtime/internal/api\<close>
  (\<^verbatim>\<open>server.go\<close>, \<^verbatim>\<open>handlers.go\<close>, \<^verbatim>\<open>sse.go\<close>): service
  authentication, the tenant header, the routes, body decoding, the handlers over engine and store, and
  the event stream. Request paths are given as their cleaned segments.
\<close>

section \<open>Requests and answers\<close>

text \<open>The body is \<open>None\<close> when reading it fails; a query parameter that is not given is empty.\<close>

record api_request =
  rq_method :: string
  rq_path :: "string list"
  rq_auth :: string
  rq_tenant :: string
  rq_trace :: string
  rq_last_event :: string
  rq_query :: "string \<Rightarrow> string"
  rq_body :: "string option"

text \<open>
  The token, whether an engine is attached, and what the library's zero sort direction means to the
  two listings.
\<close>

record api_server =
  sv_token :: string
  sv_engine :: bool
  sv_list_asc :: bool
  sv_items_asc :: bool

datatype api_answer = JsonAnswer nat json | EmptyAnswer nat | EventStream "agent_event list" | PlainStatus nat

section \<open>server.go\<close>

definition max_body_bytes :: nat where "max_body_bytes = 1048576"

definition path_uuid :: "string \<Rightarrow> go_error + string" where
  "path_uuid v = (if uuid_shape v then Inr v else Inl (api_err_details CodeValidationFailed [(''id'', ''uuid'')]))"

definition body_error :: go_error where
  "body_error = ApiErr CodeValidationFailed [(''body'', ''json'')] (Some (Plain ''json''))"

text \<open>
  \<open>decodeBody\<close> into a struct with the fields \<open>names\<close>: the read limit, an empty body that leaves the
  zero value, unknown fields, and the field decoder \<open>f\<close>.
\<close>

definition decode_body :: "string list \<Rightarrow> ((string \<times> json) list \<Rightarrow> 'r option) \<Rightarrow> string option \<Rightarrow> go_error + 'r" where
  "decode_body names f body = (case body of None \<Rightarrow> Inl (Wrapf ''read request body'' (Plain ''io''))
     | Some raw \<Rightarrow>
       if max_body_bytes < length raw then Inl (api_err_details CodeValidationFailed [(''body'', ''size'')])
       else if trim_space raw = [] then (case f [] of Some r \<Rightarrow> Inr r | None \<Rightarrow> Inl body_error)
       else (case Option.bind (json_first raw) struct_members of None \<Rightarrow> Inl body_error
         | Some kvs \<Rightarrow> if \<exists>k \<in> set (map fst kvs). to_lower k \<notin> set names then Inl body_error
             else (case f kvs of None \<Rightarrow> Inl body_error | Some r \<Rightarrow> Inr r)))"

text \<open>\<open>mapErr\<close>: coded errors pass, the errors of the thread store get a code.\<close>

definition map_err :: "go_error \<Rightarrow> go_error" where
  "map_err er = (if find_api er \<noteq> None then er
     else (case find_store er of
         Some SkThreadNotFound \<Rightarrow> api_wrap CodeAgentThreadNotFound er
       | Some SkInvalidRequest \<Rightarrow> api_wrap CodeValidationFailed er
       | Some SkUnsupported \<Rightarrow> api_wrap CodeValidationFailed er
       | _ \<Rightarrow> api_wrap CodeInternalError er))"

definition mapped :: "(go_error + 'r) \<times> 'e \<Rightarrow> (go_error + 'r) \<times> 'e" where
  "mapped r = (case r of (Inl er, e) \<Rightarrow> (Inl (map_err er), e) | (Inr x, e) \<Rightarrow> (Inr x, e))"

section \<open>handlers.go\<close>

record create_thread_request =
  cq_tenant :: string
  cq_agent :: string
  cq_model :: string
  cq_title :: string

definition create_request_of :: "(string \<times> json) list \<Rightarrow> create_thread_request option" where
  "create_request_of kvs = (case (str_field ''tenant_id'' kvs, str_field ''agent_id'' kvs, str_field ''model'' kvs,
       str_field ''title'' kvs) of
     (Some t, Some a, Some m, Some ti) \<Rightarrow> Some \<lparr>cq_tenant = t, cq_agent = a, cq_model = m, cq_title = ti\<rparr>
   | _ \<Rightarrow> None)"

record submit_turn_request =
  sq_tenant :: string
  sq_input :: "user_input list"

definition submit_request_of :: "'c agent_core \<Rightarrow> (string \<times> json) list \<Rightarrow> submit_turn_request option" where
  "submit_request_of ac kvs = (case (str_field ''tenant_id'' kvs, dec_field (as_inputs ac) ''input'' kvs) of
     (Some t, Some is) \<Rightarrow> Some \<lparr>sq_tenant = t, sq_input = (case is of None \<Rightarrow> [] | Some xs \<Rightarrow> xs)\<rparr>
   | _ \<Rightarrow> None)"

definition check_body_tenant :: "go_ctx \<Rightarrow> string \<Rightarrow> go_error + unit" where
  "check_body_tenant ctx body = (if body = [] \<or> or_empty (tenant_from_context (gc_tenant ctx)) = body then Inr ()
     else Inl (api_err_details CodeValidationFailed [(''tenant_id'', ''mismatch'')]))"

definition h_create_thread :: "'c engine_env \<Rightarrow> go_ctx \<Rightarrow> api_request \<Rightarrow> 'c engine \<Rightarrow> (go_error + api_answer) \<times> 'c engine" where
  "h_create_thread env ctx rq e =
     (case decode_body [''tenant_id'', ''agent_id'', ''model'', ''title''] create_request_of (rq_body rq) of
        Inl er \<Rightarrow> (Inl er, e)
      | Inr q \<Rightarrow> (case check_body_tenant ctx (cq_tenant q) of Inl er \<Rightarrow> (Inl er, e) | Inr _ \<Rightarrow>
          if cq_agent q \<noteq> [] \<and> \<not> uuid_shape (cq_agent q)
            then (Inl (api_err_details CodeValidationFailed [(''agent_id'', ''uuid'')]), e)
          else if 200 < length (cq_title q) then (Inl (api_err_details CodeValidationFailed [(''title'', ''length'')]), e)
          else (case mapped (start_thread env ctx \<lparr>st_agent = cq_agent q, st_model = cq_model q, st_title = cq_title q\<rparr> e) of
              (Inl er, e1) \<Rightarrow> (Inl er, e1)
            | (Inr tid, e1) \<Rightarrow> (Inr (JsonAnswer 201 (JObj [(''thread_id'', JStr tid)])), e1))))"

definition turn_response :: "turn_ref \<Rightarrow> json" where
  "turn_response r = JObj ((if tr_turn r = [] then [] else [(''turn_id'', JStr (tr_turn r))]) @ [(''queued'', JBool (tr_queued r))])"

definition h_submit_turn :: "'c engine_env \<Rightarrow> go_ctx \<Rightarrow> string \<Rightarrow> api_request \<Rightarrow> 'c engine \<Rightarrow> (go_error + api_answer) \<times> 'c engine" where
  "h_submit_turn env ctx tid rq e = (case path_uuid tid of Inl er \<Rightarrow> (Inl er, e) | Inr _ \<Rightarrow>
     (case decode_body [''tenant_id'', ''input''] (submit_request_of (ee_core env)) (rq_body rq) of
        Inl er \<Rightarrow> (Inl er, e)
      | Inr q \<Rightarrow> (case check_body_tenant ctx (sq_tenant q) of Inl er \<Rightarrow> (Inl er, e) | Inr _ \<Rightarrow>
          if sq_input q = [] then (Inl (api_err_details CodeValidationFailed [(''input'', ''empty'')]), e)
          else (case mapped (submit_turn env ctx tid (sq_input q) e) of
              (Inl er, e1) \<Rightarrow> (Inl er, e1)
            | (Inr r, e1) \<Rightarrow> (Inr (JsonAnswer (if tr_queued r then 202 else 200) (turn_response r)), e1)))))"

definition h_interrupt :: "'c engine_env \<Rightarrow> go_ctx \<Rightarrow> string \<Rightarrow> 'c engine \<Rightarrow> (go_error + api_answer) \<times> 'c engine" where
  "h_interrupt env ctx tid e = (case path_uuid tid of Inl er \<Rightarrow> (Inl er, e) | Inr _ \<Rightarrow>
     (case mapped (interrupt env ctx tid e) of (Inl er, e1) \<Rightarrow> (Inl er, e1) | (Inr _, e1) \<Rightarrow> (Inr (EmptyAnswer 204), e1)))"

definition h_resume :: "'c engine_env \<Rightarrow> go_ctx \<Rightarrow> string \<Rightarrow> 'c engine \<Rightarrow> (go_error + api_answer) \<times> 'c engine" where
  "h_resume env ctx tid e = (case path_uuid tid of Inl er \<Rightarrow> (Inl er, e) | Inr _ \<Rightarrow>
     (case mapped (engine_resume env ctx tid e) of (Inl er, e1) \<Rightarrow> (Inl er, e1) | (Inr _, e1) \<Rightarrow> (Inr (EmptyAnswer 204), e1)))"

text \<open>\<open>timeLayout\<close>: seconds with three decimals, cut off, in UTC.\<close>

definition millis_text :: "int \<Rightarrow> string" where
  "millis_text t = (let s = nat t div 1000000; ms = nat t mod 1000000 div 1000; sod = s mod 86400;
       (y, yd) = year_walk 1970 (s div 86400); (m, md) = month_walk (month_lens y) 1 yd
     in pad 4 y @ CHR ''-'' # pad 2 m @ CHR ''-'' # pad 2 (md + 1) @ CHR ''T'' # pad 2 (sod div 3600)
        @ CHR '':'' # pad 2 (sod div 60 mod 60) @ CHR '':'' # pad 2 (sod mod 60) @ CHR ''.'' # pad 3 ms @ ''Z'')"

definition status_str :: "tstatus \<Rightarrow> string" where
  "status_str st = (case st of Idle \<Rightarrow> ''idle'' | Running \<Rightarrow> ''running'' | Interrupted \<Rightarrow> ''interrupted''
     | Archived \<Rightarrow> ''archived'' | Deleted \<Rightarrow> ''deleted'')"

definition view_of :: "thread_info \<Rightarrow> json" where
  "view_of i = JObj ([(''thread_id'', JStr (i_id i))]
     @ (case i_agent i of None \<Rightarrow> [] | Some a \<Rightarrow> [(''agent_id'', JStr a)])
     @ [(''title'', JStr (i_title i)), (''status'', JStr (status_str (i_status i))), (''model'', JStr (i_model i)),
        (''last_seq'', JNum (int_str (i_last_seq i))), (''created_at'', JStr (millis_text (i_created i))),
        (''updated_at'', JStr (millis_text (i_updated i)))])"

definition h_get_thread :: "api_server \<Rightarrow> go_ctx \<Rightarrow> string \<Rightarrow> 'c engine \<Rightarrow> (go_error + api_answer) \<times> 'c engine" where
  "h_get_thread sv ctx tid e = (case path_uuid tid of Inl er \<Rightarrow> (Inl er, e) | Inr _ \<Rightarrow>
     if \<not> sv_engine sv then (Inl (api_err CodeInternalError), e)
     else (case mapped (store_query (\<lambda>flt. get_thread_info flt (gc_tenant ctx) tid) e) of
         (Inl er, e1) \<Rightarrow> (Inl er, e1) | (Inr i, e1) \<Rightarrow> (Inr (JsonAnswer 200 (view_of i)), e1)))"

definition limit_param :: "string \<Rightarrow> int \<Rightarrow> int \<Rightarrow> go_error + int" where
  "limit_param raw dflt mx = (if raw = [] then Inr dflt
     else case parse_int64 raw of
         Some n \<Rightarrow> if n \<le> 0 \<or> mx < n then Inl (api_err_details CodeValidationFailed [(''limit'', ''range'')]) else Inr n
       | None \<Rightarrow> Inl (api_err_details CodeValidationFailed [(''limit'', ''range'')]))"

definition cursor_json :: "string option \<Rightarrow> json" where
  "cursor_json c = (case c of None \<Rightarrow> JNull | Some s \<Rightarrow> JStr s)"

text \<open>A Go map is encoded with its keys in order.\<close>

definition thread_item :: "stored_thread \<Rightarrow> json" where
  "thread_item th = JObj ([(''created_at'', JStr (millis_text (st_created th))),
       (''model'', JStr (or_empty (stored_thread.st_model th)))]
     @ (case st_parent th of None \<Rightarrow> [] | Some p \<Rightarrow> [(''parent_thread_id'', JStr p)])
     @ [(''thread_id'', JStr (st_id th)), (''title'', JStr (or_empty (st_name th))),
        (''updated_at'', JStr (millis_text (st_updated th)))])"

definition h_list_threads :: "api_server \<Rightarrow> 'c engine_env \<Rightarrow> go_ctx \<Rightarrow> api_request \<Rightarrow> 'c engine
    \<Rightarrow> (go_error + api_answer) \<times> 'c engine" where
  "h_list_threads sv env ctx rq e = (if \<not> sv_engine sv then (Inl (api_err CodeInternalError), e)
     else case limit_param (rq_query rq ''limit'') 25 200 of Inl er \<Rightarrow> (Inl er, e)
     | Inr n \<Rightarrow> (case mapped (store_call (\<lambda>flt. list_threads (ee_cx env) flt (gc_tenant ctx) n
           (some_nonempty (rq_query rq ''cursor'')) \<lparr>lf_archived = (rq_query rq ''archived'' = ''true''), lf_term = None,
              lf_providers = None, lf_asc = sv_list_asc sv\<rparr>) e) of
         (Inl er, e1) \<Rightarrow> (Inl er, e1)
       | (Inr (ths, nxt), e1) \<Rightarrow> (Inr (JsonAnswer 200 (JObj [(''items'', JArr (map thread_item ths)),
            (''next_cursor'', cursor_json nxt)])), e1)))"

text \<open>\<open>jsonRaw\<close>: stored JSON goes out as it is; a text that is not JSON makes the encoder fail.\<close>

definition json_raw :: "string \<Rightarrow> json option" where
  "json_raw raw = (if raw = [] then Some JNull else json_parse raw)"

definition item_view :: "stored_item \<Rightarrow> json option" where
  "item_view it = map_option (\<lambda>v. JObj [(''created_at_ms'', JNum (int_str (it_created_ms it))), (''item'', v),
     (''item_id'', JStr (it_id it)), (''seq'', JNum (int_str (it_ordinal it))), (''turn_id'', JStr (it_turn it))])
     (json_raw (it_json it))"

definition h_list_items :: "api_server \<Rightarrow> go_ctx \<Rightarrow> string \<Rightarrow> api_request \<Rightarrow> 'c engine
    \<Rightarrow> (go_error + api_answer) \<times> 'c engine" where
  "h_list_items sv ctx tid rq e = (case path_uuid tid of Inl er \<Rightarrow> (Inl er, e) | Inr _ \<Rightarrow>
     if \<not> sv_engine sv then (Inl (api_err CodeInternalError), e)
     else (case limit_param (rq_query rq ''limit'') 50 200 of Inl er \<Rightarrow> (Inl er, e)
     | Inr n \<Rightarrow> (case mapped (store_call (\<lambda>flt. list_items flt (gc_tenant ctx) \<lparr>li_thread = tid, li_archived = True,
           li_page_size = n, li_cursor = some_nonempty (rq_query rq ''cursor''), li_asc = sv_items_asc sv,
           li_turn = some_nonempty (rq_query rq ''turn_id''), li_after = None\<rparr>) e) of
         (Inl er, e1) \<Rightarrow> (Inl er, e1)
       | (Inr (its, nxt), e1) \<Rightarrow> (case map_all item_view its of
             None \<Rightarrow> (Inl (Wrapf ''encode response'' (Plain ''json'')), e1)
           | Some vs \<Rightarrow> (Inr (JsonAnswer 200 (JObj [(''items'', JArr vs), (''next_cursor'', cursor_json nxt)])), e1)))))"

definition h_delete_thread :: "api_server \<Rightarrow> go_ctx \<Rightarrow> string \<Rightarrow> 'c engine \<Rightarrow> (go_error + api_answer) \<times> 'c engine" where
  "h_delete_thread sv ctx tid e = (case path_uuid tid of Inl er \<Rightarrow> (Inl er, e) | Inr _ \<Rightarrow>
     if \<not> sv_engine sv then (Inl (api_err CodeInternalError), e)
     else (case mapped (store_call (\<lambda>flt. delete_thread flt (gc_tenant ctx) (en_now e) tid) e) of
         (Inl er, e1) \<Rightarrow> (Inl er, e1) | (Inr _, e1) \<Rightarrow> (Inr (EmptyAnswer 204), e1)))"

section \<open>sse.go\<close>

text \<open>\<open>fromSeq\<close>: the number after \<open>Last-Event-ID\<close>, computed in 64 bits, else the parameter, else one.\<close>

definition wrap64 :: "int \<Rightarrow> int" where
  "wrap64 n = (if n < 2 ^ 63 then n else n - 2 ^ 64)"

definition from_seq :: "string \<Rightarrow> string \<Rightarrow> go_error + int" where
  "from_seq last_id raw = (if last_id \<noteq> [] then (case parse_int64 last_id of
         Some n \<Rightarrow> if n < 0 then Inl (api_err_details CodeValidationFailed [(''Last-Event-ID'', ''number'')]) else Inr (wrap64 (n + 1))
       | None \<Rightarrow> Inl (api_err_details CodeValidationFailed [(''Last-Event-ID'', ''number'')]))
     else if raw = [] then Inr 1
     else case parse_int64 raw of
         Some n \<Rightarrow> if n < 0 then Inl (api_err_details CodeValidationFailed [(''from_seq'', ''number'')]) else Inr n
       | None \<Rightarrow> Inl (api_err_details CodeValidationFailed [(''from_seq'', ''number'')]))"

text \<open>The frame of an event; one whose payload is not JSON is left out.\<close>

definition event_json :: "agent_event \<Rightarrow> json option" where
  "event_json ev = map_option (\<lambda>p. JObj ([(''seq'', JNum (int_str (ev_seq ev)))]
     @ (if ev_turn ev = [] then [] else [(''turn_id'', JStr (ev_turn ev))])
     @ [(''type'', JStr (ev_type ev)), (''payload'', p)]
     @ (if ev_ref ev = [] then [] else [(''payload_ref'', JStr (ev_ref ev))]))) (json_raw (ev_payload ev))"

definition sse_frame :: "agent_event \<Rightarrow> string" where
  "sse_frame ev = (case event_json ev of None \<Rightarrow> []
     | Some j \<Rightarrow> ''id: '' @ int_str (ev_seq ev) @ [CHR 0x0A] @ ''event: '' @ ev_type ev @ [CHR 0x0A]
         @ ''data: '' @ json_text j @ [CHR 0x0A, CHR 0x0A])"

definition sse_stream :: "agent_event list \<Rightarrow> string" where
  "sse_stream evs = concat (map sse_frame evs)"

definition h_events :: "go_ctx \<Rightarrow> string \<Rightarrow> api_request \<Rightarrow> tail_round list \<Rightarrow> 'c engine \<Rightarrow> (go_error + api_answer) \<times> 'c engine" where
  "h_events ctx tid rq rounds e = (case path_uuid tid of Inl er \<Rightarrow> (Inl er, e) | Inr _ \<Rightarrow>
     (case from_seq (rq_last_event rq) (rq_query rq ''from_seq'') of Inl er \<Rightarrow> (Inl er, e) | Inr frm \<Rightarrow>
       (case mapped (store_query (\<lambda>flt d. engine_events flt (gc_tenant ctx) tid frm d rounds) e) of
          (Inl er, e1) \<Rightarrow> (Inl er, e1) | (Inr evs, e1) \<Rightarrow> (Inr (EventStream evs), e1))))"

section \<open>Routing and the middleware chain\<close>

datatype api_route = RouteCreate | RouteList | RouteGet string | RouteDelete string | RouteTurns string
  | RouteInterrupt string | RouteResume string | RouteEvents string | RouteItems string | RouteNone | RouteMethod

definition is_get :: "string \<Rightarrow> bool" where
  "is_get m \<longleftrightarrow> m = ''GET'' \<or> m = ''HEAD''"

definition route_of :: "string \<Rightarrow> string list \<Rightarrow> api_route" where
  "route_of m segs = (if take 4 segs \<noteq> [''internal'', ''v1'', ''agent'', ''threads''] then RouteNone
     else case drop 4 segs of
       [] \<Rightarrow> if m = ''POST'' then RouteCreate else if is_get m then RouteList else RouteMethod
     | [tid] \<Rightarrow> if is_get m then RouteGet tid else if m = ''DELETE'' then RouteDelete tid else RouteMethod
     | [tid, sub] \<Rightarrow>
         if sub = ''turns'' then (if m = ''POST'' then RouteTurns tid else RouteMethod)
         else if sub = ''interrupt'' then (if m = ''POST'' then RouteInterrupt tid else RouteMethod)
         else if sub = ''resume'' then (if m = ''POST'' then RouteResume tid else RouteMethod)
         else if sub = ''events'' then (if is_get m then RouteEvents tid else RouteMethod)
         else if sub = ''items'' then (if is_get m then RouteItems tid else RouteMethod)
         else RouteNone
     | _ \<Rightarrow> RouteNone)"

definition handle_route :: "api_server \<Rightarrow> 'c engine_env \<Rightarrow> go_ctx \<Rightarrow> api_request \<Rightarrow> tail_round list \<Rightarrow> api_route \<Rightarrow> 'c engine
    \<Rightarrow> (go_error + api_answer) \<times> 'c engine" where
  "handle_route sv env ctx rq rounds rt e = (case rt of
     RouteCreate \<Rightarrow> h_create_thread env ctx rq e
   | RouteList \<Rightarrow> h_list_threads sv env ctx rq e
   | RouteGet tid \<Rightarrow> h_get_thread sv ctx tid e
   | RouteDelete tid \<Rightarrow> h_delete_thread sv ctx tid e
   | RouteTurns tid \<Rightarrow> h_submit_turn env ctx tid rq e
   | RouteInterrupt tid \<Rightarrow> h_interrupt env ctx tid e
   | RouteResume tid \<Rightarrow> h_resume env ctx tid e
   | RouteEvents tid \<Rightarrow> h_events ctx tid rq rounds e
   | RouteItems tid \<Rightarrow> h_list_items sv ctx tid rq e
   | RouteNone \<Rightarrow> (Inr (PlainStatus 404), e)
   | RouteMethod \<Rightarrow> (Inr (PlainStatus 405), e))"

definition tenant_middleware :: "api_server \<Rightarrow> 'c engine_env \<Rightarrow> api_request \<Rightarrow> tail_round list \<Rightarrow> 'c engine
    \<Rightarrow> api_answer exit \<times> 'c engine" where
  "tenant_middleware sv env rq rounds e = (if \<not> uuid_shape (rq_tenant rq)
     then (ErrorResponse (write_error (rq_trace rq) (api_err CodeTenantContextMissing)), e)
     else (case handle_route sv env (request_ctx (with_tenant None (rq_tenant rq))) rq rounds
             (route_of (rq_method rq) (rq_path rq)) e of
         (Inl er, e1) \<Rightarrow> (middleware (rq_trace rq) (Failed er), e1)
       | (Inr a, e1) \<Rightarrow> (middleware (rq_trace rq) (Wrote a), e1)))"

definition serve :: "api_server \<Rightarrow> 'c engine_env \<Rightarrow> api_request \<Rightarrow> tail_round list \<Rightarrow> 'c engine
    \<Rightarrow> api_answer exit \<times> 'c engine" where
  "serve sv env rq rounds e = (if rq_auth rq \<noteq> ''Bearer '' @ sv_token sv
     then (ErrorResponse (write_error (rq_trace rq) (api_err CodeSvcUnauthenticated)), e)
     else tenant_middleware sv env rq rounds e)"

end
