(* ===== verification/AgentApiProps.thy ===== *)
theory AgentApiProps
  imports AgentApi
begin

text \<open>
  What the HTTP surface guarantees, down through engine and store: it fails closed, errors are coded,
  a request stays in its tenant, an accepted turn is durable, and a reconnecting event stream continues.
\<close>

section \<open>Errors\<close>

text \<open>Every error of the thread store leaves the API with a registered code. An error that passes
  \<open>mapErr\<close> is coded, the code it had is kept, and a store error gets the code of its kind.\<close>

theorem map_err_coded:
  "find_api (map_err er) \<noteq> None
   \<and> (\<forall>c ds. find_api er = Some (c, ds) \<longrightarrow> map_err er = er)
   \<and> (find_api er = None \<longrightarrow> map_option fst (find_api (map_err er)) = Some (case find_store er of
        Some SkThreadNotFound \<Rightarrow> CodeAgentThreadNotFound | Some SkInvalidRequest \<Rightarrow> CodeValidationFailed
      | Some SkUnsupported \<Rightarrow> CodeValidationFailed | _ \<Rightarrow> CodeInternalError))"
  by (auto simp: map_err_def split: option.splits store_kind.splits)

lemma map_err_coded_witness:
  "map_option fst (find_api (map_err (StoreErr SkThreadNotFound))) = Some CodeAgentThreadNotFound"
  using map_err_coded [of "StoreErr SkThreadNotFound"] by simp

text \<open>C15: the API fails closed. A request without the service token, or whose tenant header is not a
  UUID, is answered with the error of its first failing check, and nothing of the engine, of the database
  or of the sessions has changed.\<close>

theorem api_fail_closed:
  assumes "rq_auth rq \<noteq> ''Bearer '' @ sv_token sv \<or> \<not> uuid_shape (rq_tenant rq)"
  shows "\<exists>r. serve sv env rq rounds e = (ErrorResponse r, e) \<and> hr_details r = []
    \<and> (hr_status r, hr_code r) = (if rq_auth rq \<noteq> ''Bearer '' @ sv_token sv then (401, CodeSvcUnauthenticated)
         else (500, CodeTenantContextMissing))"
  using assms by (auto simp: serve_def tenant_middleware_def write_error_def write_response_def from_error_def meta_of_def)

definition sample_request :: "string \<Rightarrow> api_request" where
  "sample_request tok = \<lparr>rq_method = ''GET'', rq_path = [''internal'', ''v1'', ''agent'', ''threads''], rq_auth = tok,
     rq_tenant = ''nobody'', rq_trace = ''tr'', rq_last_event = [], rq_query = (\<lambda>k. []), rq_body = Some []\<rparr>"

lemma api_fail_closed_witness:
  "\<exists>r. serve \<lparr>sv_token = ''secret'', sv_engine = True, sv_list_asc = False, sv_items_asc = True\<rparr> sample_env
     (sample_request ''Bearer guess'') [] sample_engine = (ErrorResponse r, sample_engine) \<and> hr_status r = 401"
  using api_fail_closed [where rq = "sample_request ''Bearer guess''" and env = sample_env and rounds = "[]"
      and e = sample_engine and sv = "\<lparr>sv_token = ''secret'', sv_engine = True, sv_list_asc = False, sv_items_asc = True\<rparr>"]
  by (auto simp: sample_request_def)

section \<open>Tenant isolation\<close>

text \<open>Steps that leave the tables of tenant \<open>u\<close> alone.\<close>

definition untouched :: "string \<Rightarrow> 'c engine \<Rightarrow> 'c engine \<Rightarrow> bool" where
  "untouched u e e' \<longleftrightarrow> slice (en_db e') u = slice (en_db e) u"

named_theorems untouched_intros \<open>steps that leave a tenant's tables alone\<close>

lemma untouched_refl [simp]: "untouched u e e"
  by (simp add: untouched_def)

lemma untouched_trans: "untouched u e1 e2 \<Longrightarrow> untouched u e2 e3 \<Longrightarrow> untouched u e1 e3"
  by (simp add: untouched_def)

lemma untouched_frames [simp]:
  "untouched u e (emit x e') = untouched u e e'" "untouched u e (update_live n f e') = untouched u e e'"
  "untouched u e (put_live l e') = untouched u e e'" "untouched u e (e'\<lparr>en_ids := i\<rparr>) = untouched u e e'"
  "untouched u e (e'\<lparr>en_serial := i\<rparr>) = untouched u e e'" "untouched u e (e'\<lparr>en_limiter := lim\<rparr>) = untouched u e e'"
  by (simp_all add: untouched_def emit_def update_live_def put_live_def)

text \<open>A store operation that runs as one transaction of tenant \<open>t\<close> or not at all.\<close>

definition of_tenant :: "string option \<Rightarrow> (tx_fault \<Rightarrow> db \<Rightarrow> 'r \<times> db) \<Rightarrow> bool" where
  "of_tenant ctx f \<longleftrightarrow> (\<forall>flt d u. ctx \<noteq> Some u \<longrightarrow> slice (snd (f flt d)) u = slice d u)"

lemma of_tenant_tx [intro]: "of_tenant ctx (\<lambda>flt. in_tenant_tx flt ctx body)"
  unfolding of_tenant_def using in_tenant_tx_other by (metis prod.collapse)

lemma of_tenant_ops [intro]:
  "of_tenant ctx (\<lambda>flt. create_thread cx o1 flt ctx now p)" "of_tenant ctx (\<lambda>flt. release_turn flt ctx now tid to)"
  "of_tenant ctx (\<lambda>flt. claim_turn flt ctx now tid pod)" "of_tenant ctx (\<lambda>flt. list_threads cx flt ctx n c f)"
  "of_tenant ctx (\<lambda>flt. list_items flt ctx ps)" "of_tenant ctx (\<lambda>flt. delete_thread flt ctx now tid)"
  using of_tenant_tx [of ctx]
  by (auto simp: of_tenant_def create_thread_def release_turn_def claim_turn_def list_threads_def list_items_def
      delete_thread_def delete_threads_def Let_def split: sum.split)

lemma untouched_call: "store_call f e = (r, e') \<Longrightarrow> of_tenant ctx f \<Longrightarrow> ctx \<noteq> Some u \<Longrightarrow> untouched u e e'"
  by (auto simp: store_call_def of_tenant_def untouched_def split: prod.splits) (metis snd_conv)

lemma untouched_snd_call: "of_tenant ctx f \<Longrightarrow> ctx \<noteq> Some u \<Longrightarrow> untouched u e (snd (store_call f e))"
  using untouched_call [of f e] by (metis prod.collapse)

lemma untouched_query: "store_query g e = (r, e') \<Longrightarrow> untouched u e e'" "core_call h e = (r2, e') \<Longrightarrow> untouched u e e'"
  by (auto simp: store_query_def core_call_def untouched_def split: prod.splits)

lemma untouched_inputs:
  assumes "gc_tenant (lt_ctx l) \<noteq> Some u"
  shows "untouched u e (delete_input l q e)" "untouched u e (admit_input l q t e)"
  unfolding delete_input_def admit_input_def using assms by (blast intro: untouched_snd_call)+

lemma untouched_core: "untouched u e (snd (core_call f e))"
  by (metis prod.collapse untouched_query(2))

lemma feed_each_untouched:
  assumes "gc_tenant (lt_ctx l) \<noteq> Some u"
  shows "feed_each env l qs turn adm e = (r, e') \<Longrightarrow> untouched u e e'"
proof (induction qs arbitrary: turn adm e)
  case (Cons q qs)
  have del: "untouched u e (delete_input l (q_id q) e)" "untouched u e (delete_input l (q_id q) (snd (core_call f e)))"
    for f :: "'a \<Rightarrow> (go_error + unit) \<times> 'a"
    using untouched_inputs(1) [OF assms] untouched_core by (blast intro: untouched_trans)+
  show ?case
  proof (cases "unmarshal_payload (ee_core env) (q_payload q)")
    case None
    with Cons.prems del(1) Cons.IH show ?thesis by (auto intro: untouched_trans)
  next
    case (Some p)
    show ?thesis
    proof (cases "qp_type p = queued_interrupt")
      case True
      with Cons.prems Some have "feed_each env l qs turn adm
          (delete_input l (q_id q) (snd (core_call (ac_interrupt (ee_core env) (lt_id l)) e))) = (r, e')" by simp
      from untouched_trans [OF del(2) Cons.IH [OF this]] show ?thesis .
    next
      case False
      obtain a e1 where a: "core_call (ac_submit (ee_core env) (lt_id l) (qp_items p)) e = (a, e1)" by fastforce
      have 1: "untouched u e e1" by (rule untouched_query(2) [OF a])
      have 2: "untouched u e (admit_input l (q_id q) t (update_live (lt_serial l) (mark_admission t st) e1))" for t st
        using 1 untouched_inputs(2) [OF assms] by (blast intro: untouched_trans untouched_frames(2) [THEN iffD2])
      have "\<exists>e2. untouched u e e2 \<and> (e' = e2 \<or> (\<exists>turn adm. feed_each env l qs turn adm e2 = (r, e')))"
        using Cons.prems Some False a 1 2 by (cases a) auto
      with Cons.IH show ?thesis by (blast intro: untouched_trans)
    qed
  qed
qed simp

lemma feed_untouched:
  assumes "gc_tenant (lt_ctx l) \<noteq> Some u" "feed env l e = (r, e')"
  shows "untouched u e e'"
  using assms(2) by (auto simp: feed_def split: sum.splits prod.splits
      dest!: untouched_query(1) feed_each_untouched [OF assms(1)] intro: untouched_trans)

lemma start_live_untouched:
  assumes "start_live env ctx i agent slot e = (r, e')"
  shows "untouched u e e' \<and> (\<forall>l. r = Inr l \<longrightarrow> (\<exists>t. tenant_of ctx = Inr t \<and> gc_tenant (lt_ctx l) = Some t))"
  using assms by (auto simp: start_live_def Let_def split: sum.splits prod.splits dest!: untouched_query(2))

lemma request_tenant: "t \<noteq> [] \<Longrightarrow> tenant_of (request_ctx (Some t)) = Inr t"
  by (simp add: tenant_of_def tenant_id_from_def request_ctx_def tenant_from_context_def)

lemma run_claimed_untouched:
  assumes "t \<noteq> u" "t \<noteq> []" "run_claimed env (request_ctx (Some t)) i e = (r, e')"
  shows "untouched u e e'"
proof -
  let ?ctx = "request_ctx (Some t)"
  have c: "gc_tenant ?ctx = Some t" by (simp add: request_ctx_def)
  have un: "untouched u e1 (unclaim env ?ctx (i_id i) e1)" for e1 :: "'a engine"
    unfolding unclaim_def c using assms(1) by (intro untouched_snd_call) auto
  obtain b e1 where a: "acquire_slot t e = (b, e1)" by fastforce
  have 1: "untouched u e e1" using a by (auto simp: acquire_slot_def split: option.splits prod.splits)
  obtain agent e2 where g: "(case i_agent i of None \<Rightarrow> (None, e1)
      | Some a \<Rightarrow> (case store_query (\<lambda>flt. get_agent flt (gc_tenant ?ctx) a) e1 of
          (Inl _, e2) \<Rightarrow> (None, e2) | (Inr p, e2) \<Rightarrow> (Some p, e2))) = (agent, e2)" by fastforce
  have 2: "untouched u e1 e2" using g by (auto split: option.splits prod.splits sum.splits dest: untouched_query(1))
  obtain x e3 where s: "start_live env ?ctx i agent (en_limiter e2 \<noteq> None) e2 = (x, e3)" by fastforce
  have 3: "untouched u e e3" using 1 2 start_live_untouched [OF s, of u] by (blast intro: untouched_trans)
  have e': "e' = (if b then (case x of Inr l \<Rightarrow> snd (feed env l e3)
      | Inl er \<Rightarrow> unclaim env ?ctx (i_id i) (e3\<lparr>en_limiter := map_option (release_slot t) (en_limiter e3)\<rparr>))
      else unclaim env ?ctx (i_id i) e1)"
    using assms(3) a g s by (cases b; cases x) (auto simp: run_claimed_def request_tenant [OF assms(2)])
  have feed: "untouched u e (snd (feed env l e3))" if "x = Inr l" for l
  proof -
    have "gc_tenant (lt_ctx l) = Some t" using start_live_untouched [OF s] that request_tenant [OF assms(2)] by auto
    then have "untouched u e3 (snd (feed env l e3))" using feed_untouched [of l u env e3] assms(1) by (metis option.inject prod.collapse)
    with 3 show ?thesis by (rule untouched_trans)
  qed
  have "untouched u e (unclaim env ?ctx (i_id i) (e3\<lparr>en_limiter := lim\<rparr>))" for lim
    by (rule untouched_trans [OF _ un]) (simp add: 3)
  moreover have "untouched u e (unclaim env ?ctx (i_id i) e1)" using un 1 by (rule untouched_trans [rotated])
  ultimately show ?thesis using e' feed by (auto split: sum.splits)
qed

text \<open>The threads that a pod holds are rows of their tenants, and a thread id belongs to one tenant.\<close>

definition ids_of_one_tenant :: "db \<Rightarrow> bool" where
  "ids_of_one_tenant d \<longleftrightarrow> (\<forall>t u. t \<noteq> u \<longrightarrow> t_id ` set (threads (slice d t)) \<inter> t_id ` set (threads (slice d u)) = {})"

definition live_rows :: "'c engine \<Rightarrow> bool" where
  "live_rows e \<longleftrightarrow> (\<forall>l \<in> set (en_live e). \<exists>t. gc_tenant (lt_ctx l) = Some t \<and> lt_id l \<in> t_id ` set (threads (slice (en_db e) t)))"

definition own_live :: "string \<Rightarrow> string \<Rightarrow> 'c engine \<Rightarrow> bool" where
  "own_live t tid e \<longleftrightarrow> (\<forall>l \<in> set (en_live e). lt_id l = tid \<longrightarrow> gc_tenant (lt_ctx l) = Some t)"

lemma dispatch_untouched:
  assumes "t \<noteq> u" "t \<noteq> []" "own_live t (i_id i) e" "dispatch env (request_ctx (Some t)) i e = (r, e')"
  shows "untouched u e e'"
proof (cases "live_for (i_id i) e")
  case (Some l)
  then have "gc_tenant (lt_ctx l) = Some t" using assms(3) find_live [OF Some] by (simp add: own_live_def)
  with assms(1) have "gc_tenant (lt_ctx l) \<noteq> Some u" by simp
  moreover have "feed env l e = (r, e')" using Some assms(4) by (simp add: dispatch_def)
  ultimately show ?thesis by (rule feed_untouched)
next
  case None
  obtain x e1 where c: "store_call (\<lambda>flt. claim_turn flt (gc_tenant (request_ctx (Some t))) (en_now e) (i_id i) (ec_pod (ee_cfg env))) e = (x, e1)"
    by fastforce
  have 1: "untouched u e e1" using untouched_call [OF c, of "Some t" u] assms(1) by (auto simp: request_ctx_def)
  show ?thesis
  proof (cases "\<not> en_draining e \<and> x = Inr True")
    case True
    with None assms(4) c have "run_claimed env (request_ctx (Some t)) i e1 = (r, e')" by (simp add: dispatch_def)
    from run_claimed_untouched [OF assms(1,2) this] 1 show ?thesis by (rule untouched_trans [rotated])
  next
    case False
    have "dispatch env (request_ctx (Some t)) i e = (if en_draining e then (Inr ([], False), e)
        else case x of Inl er \<Rightarrow> (Inl er, e1) | Inr b \<Rightarrow>
          if b then run_claimed env (request_ctx (Some t)) i e1 else (Inr ([], False), e1))"
      using None c by (auto simp: dispatch_def split: sum.split bool.split)
    with assms(4) False have "e' = e \<or> e' = e1" by (auto split: sum.splits if_splits)
    with 1 show ?thesis by auto
  qed
qed

lemma own_live_from:
  assumes "ids_of_one_tenant (en_db e)" "live_rows e" "tid \<in> t_id ` set (threads (slice (en_db e) t))"
  shows "own_live t tid e"
proof -
  have "v = t" if "tid \<in> t_id ` set (threads (slice (en_db e) v))" for v
    using assms(1,3) that unfolding ids_of_one_tenant_def by blast
  with assms(2) show ?thesis unfolding own_live_def live_rows_def by blast
qed

lemma info_found:
  assumes "store_query (\<lambda>flt. get_thread_info flt (gc_tenant (request_ctx (Some t))) tid) e = (Inr i, e1)"
  shows "i_id i = tid" "tid \<in> t_id ` set (threads (slice (en_db e) t))" "t \<noteq> []" "en_live e1 = en_live e" "untouched u e e1"
  using assms
  by (auto simp: store_query_def get_thread_info_def in_tenant_tx_def tenant_from_context_Some request_ctx_def untouched_def
      info_of_row_def live_thread_def split: sum.splits option.splits if_splits dest!: select_one_Some_in)

lemma enqueue_untouched:
  assumes "t \<noteq> u" "engine_enqueue env (request_ctx (Some t)) tid p kind e = (r, e')"
  shows "untouched u e e' \<and> en_live e' = en_live e"
proof (cases "marshal_payload (ee_core env) p")
  case None
  with assms(2) show ?thesis by (simp add: engine_enqueue_def)
next
  case (Some raw)
  let ?e1 = "e\<lparr>en_ids := Suc (en_ids e)\<rparr>"
  obtain x e2 where c: "store_call (\<lambda>flt. in_tenant_tx flt (gc_tenant (request_ctx (Some t)))
      (enqueue_input_tx (ee_cx env) (en_now e) tid (ac_new_id (ee_core env) (en_ids e)) kind raw)) ?e1 = (x, e2)" by fastforce
  have "untouched u ?e1 e2" using untouched_call [OF c, of "Some t" u] assms(1) by (auto simp: request_ctx_def)
  moreover have "en_live e2 = en_live e" using c by (auto simp: store_call_def split: prod.splits)
  moreover have "e' = e2" using assms(2) Some c by (auto simp: engine_enqueue_def Let_def split: sum.splits)
  ultimately show ?thesis by (simp add: untouched_def)
qed

lemma own_live_same: "own_live t tid e \<Longrightarrow> en_live e' = en_live e \<Longrightarrow> own_live t tid e'"
  by (simp add: own_live_def)

definition isolated :: "string \<Rightarrow> string \<Rightarrow> 'c engine \<Rightarrow> bool" where
  "isolated t u e \<longleftrightarrow> t \<noteq> u \<and> ids_of_one_tenant (en_db e) \<and> live_rows e"

lemma isolatedD: "isolated t u e \<Longrightarrow> t \<noteq> u" "isolated t u e \<Longrightarrow> ids_of_one_tenant (en_db e)" "isolated t u e \<Longrightarrow> live_rows e"
  by (simp_all add: isolated_def)

lemma dispatch_found:
  assumes iso: "isolated t u e" and "store_query (\<lambda>flt. get_thread_info flt (gc_tenant (request_ctx (Some t))) tid) e = (Inr i, e1)"
    "untouched u e e2" "en_live e2 = en_live e" "i_id j = i_id i" "dispatch env (request_ctx (Some t)) j e2 = (r, e')"
  shows "untouched u e e'"
proof -
  note f = info_found [OF assms(2)]
  have "own_live t (i_id j) e2"
    using own_live_from [OF isolatedD(2,3) [OF iso] f(2)] assms(4,5) f(1) by (auto intro: own_live_same)
  from dispatch_untouched [OF isolatedD(1) [OF iso] f(3) this assms(6)] assms(3) show ?thesis by (rule untouched_trans [rotated])
qed

lemma submit_untouched:
  assumes iso: "isolated t u e" and op: "submit_turn env (request_ctx (Some t)) tid items e = (r, e')"
  shows "untouched u e e'"
proof -
  note other = isolatedD(1) [OF iso]
  obtain x e1 where i: "store_query (\<lambda>flt. get_thread_info flt (gc_tenant (request_ctx (Some t))) tid) e = (x, e1)" by fastforce
  have 1: "untouched u e e1" "en_live e1 = en_live e" using i by (auto simp: store_query_def untouched_def)
  let ?p = "\<lparr>qp_type = queued_user_input, qp_items = items\<rparr>"
  obtain y e2 where en: "engine_enqueue env (request_ctx (Some t)) tid ?p (kind_for tid e1) e1 = (y, e2)" by fastforce
  have 2: "untouched u e e2" "en_live e2 = en_live e"
    using enqueue_untouched [OF other en] 1 by (auto intro: untouched_trans)
  show ?thesis
  proof (cases "\<exists>info qid. x = Inr info \<and> y = Inr qid \<and> items \<noteq> [] \<and> i_status info \<noteq> Archived")
    case True
    then obtain info qid where xy: "x = Inr info" "y = Inr qid" "items \<noteq> []" "i_status info \<noteq> Archived" by blast
    obtain z e3 where d: "dispatch env (request_ctx (Some t)) info e2 = (z, e3)" by fastforce
    have "e' = e3" using op i en xy d by (auto simp: submit_turn_def split: sum.splits prod.splits)
    then show ?thesis using dispatch_found [OF iso i [unfolded xy(1)] 2 refl d] by simp
  next
    case False
    then have "e' = e \<or> e' = e1 \<or> e' = e2" using op i en by (auto simp: submit_turn_def split: sum.splits if_splits)
    with 1 2 show ?thesis by auto
  qed
qed

lemma resume_untouched:
  assumes iso: "isolated t u e" and op: "engine_resume env (request_ctx (Some t)) tid e = (r, e')"
  shows "untouched u e e'"
proof -
  note other = isolatedD(1) [OF iso]
  let ?ctx = "request_ctx (Some t)"
  obtain x e1 where i: "store_query (\<lambda>flt. get_thread_info flt (gc_tenant ?ctx) tid) e = (x, e1)" by fastforce
  have 1: "untouched u e e1" "en_live e1 = en_live e" using i by (auto simp: store_query_def untouched_def)
  obtain y e2 where m: "store_call (\<lambda>flt. in_tenant_tx flt (gc_tenant ?ctx) (mark_idle_tx (en_now e) tid)) e1 = (y, e2)" by fastforce
  have 2: "untouched u e e2" "en_live e2 = en_live e"
    using untouched_call [OF m, of "Some t" u] other 1 m
    by (auto simp: request_ctx_def store_call_def split: prod.splits intro: untouched_trans)
  show ?thesis
  proof (cases x)
    case (Inl er)
    with op i 1 show ?thesis by (simp add: engine_resume_def)
  next
    case (Inr info)
    let ?info = "info\<lparr>i_status := Idle\<rparr>"
    obtain z1 e3 where d1: "dispatch env ?ctx info e1 = (z1, e3)" by fastforce
    obtain z2 e4 where d2: "dispatch env ?ctx ?info e2 = (z2, e4)" by fastforce
    have 3: "untouched u e e3" by (rule dispatch_found [OF iso i [unfolded Inr] 1 refl d1])
    have 4: "untouched u e e4" by (rule dispatch_found [OF iso i [unfolded Inr] 2 _ d2]) simp
    have "e' = e3 \<or> e' = e2 \<or> e' = e4"
      using op i Inr m d1 d2 by (auto simp: engine_resume_def forget_result_def split: if_splits sum.splits)
    with 2 3 4 show ?thesis by auto
  qed
qed

lemma interrupt_untouched:
  assumes iso: "isolated t u e" and op: "interrupt env (request_ctx (Some t)) tid e = (r, e')"
  shows "untouched u e e'"
proof -
  note other = isolatedD(1) [OF iso]
  let ?ctx = "request_ctx (Some t)"
  obtain x e1 where i: "store_query (\<lambda>flt. get_thread_info flt (gc_tenant ?ctx) tid) e = (x, e1)" by fastforce
  have 1: "untouched u e e1" using i by (auto simp: store_query_def untouched_def)
  have "e' = e1 \<or> (\<exists>(l::live) y. core_call (ac_interrupt (ee_core env) (lt_id l)) e1 = (y, e'))
      \<or> (\<exists>y. engine_enqueue env ?ctx tid \<lparr>qp_type = queued_interrupt, qp_items = []\<rparr> Steer e1 = (y, e'))"
    using op i by (auto simp: interrupt_def split: sum.splits option.splits if_splits prod.splits)
  with 1 show ?thesis using enqueue_untouched [OF other] by (blast intro: untouched_trans dest: untouched_query(2))
qed

lemma start_untouched:
  assumes iso: "isolated t u e" and op: "start_thread env (request_ctx (Some t)) i e = (r, e')"
  shows "untouched u e e'"
proof -
  note other = isolatedD(1) [OF iso]
  have row: "start_thread_row env (request_ctx (Some t)) a m ti e1 = (q, e2) \<Longrightarrow> untouched u e1 e2" for a m ti e1 q e2
    using other by (auto simp: start_thread_row_def Let_def request_ctx_def split: prod.splits sum.splits
        dest!: untouched_call [where ctx = "Some t" and u = u] intro: untouched_trans) (auto simp: untouched_def)
  show ?thesis using op
    by (auto simp: start_thread_def split: sum.splits if_splits prod.splits dest!: row untouched_query(1) intro: untouched_trans)
qed

lemma mapped_snd: "mapped x = (r, e') \<Longrightarrow> \<exists>q. x = (q, e')"
  by (cases x) (auto simp: mapped_def split: sum.splits)

lemma call_isolated:
  assumes "isolated t u e" "mapped (store_call f e) = (r, e')" "of_tenant (Some t) f"
  shows "untouched u e e'"
  using mapped_snd [OF assms(2)] untouched_call [OF _ assms(3), of e _ e' u] isolatedD(1) [OF assms(1)] by auto

lemma handle_untouched:
  assumes iso: "isolated t u e" and h: "handle_route sv env (request_ctx (Some t)) rq rounds rt e = (r, e')"
  shows "untouched u e e'"
proof (cases rt)
  case RouteCreate
  with h show ?thesis by (auto simp: handle_route_def h_create_thread_def split: sum.splits if_splits prod.splits
      dest!: mapped_snd start_untouched [OF iso])
next
  case RouteList
  with h show ?thesis by (auto simp: handle_route_def h_list_threads_def request_ctx_def split: sum.splits if_splits prod.splits
      dest!: call_isolated [OF iso])
next
  case (RouteGet tid)
  with h show ?thesis by (auto simp: handle_route_def h_get_thread_def split: sum.splits if_splits prod.splits
      dest!: mapped_snd untouched_query(1))
next
  case (RouteDelete tid)
  with h show ?thesis by (auto simp: handle_route_def h_delete_thread_def request_ctx_def split: sum.splits if_splits prod.splits
      dest!: call_isolated [OF iso])
next
  case (RouteTurns tid)
  with h show ?thesis by (auto simp: handle_route_def h_submit_turn_def split: sum.splits if_splits prod.splits
      dest!: mapped_snd submit_untouched [OF iso])
next
  case (RouteInterrupt tid)
  with h show ?thesis by (auto simp: handle_route_def h_interrupt_def split: sum.splits prod.splits
      dest!: mapped_snd interrupt_untouched [OF iso])
next
  case (RouteResume tid)
  with h show ?thesis by (auto simp: handle_route_def h_resume_def split: sum.splits prod.splits
      dest!: mapped_snd resume_untouched [OF iso])
next
  case (RouteEvents tid)
  with h show ?thesis by (auto simp: handle_route_def h_events_def split: sum.splits prod.splits
      dest!: mapped_snd untouched_query(1))
next
  case (RouteItems tid)
  with h show ?thesis by (auto simp: handle_route_def h_list_items_def request_ctx_def split: sum.splits if_splits prod.splits option.splits
      dest!: call_isolated [OF iso])
qed (use h in \<open>simp_all add: handle_route_def\<close>)

lemma serve_isolated:
  assumes "serve sv env rq rounds e = (r, e')" "isolated (rq_tenant rq) u e"
  shows "slice (en_db e') u = slice (en_db e) u"
proof -
  have "e' = e \<or> (\<exists>q. handle_route sv env (request_ctx (Some (rq_tenant rq))) rq rounds (route_of (rq_method rq) (rq_path rq)) e = (q, e'))"
    using assms(1) by (auto simp: serve_def tenant_middleware_def with_tenant_def split: if_splits prod.splits sum.splits)
  with handle_untouched [OF assms(2)] show ?thesis by (auto simp: untouched_def)
qed


definition sample_server :: api_server where
  "sample_server = \<lparr>sv_token = ''secret'', sv_engine = True, sv_list_asc = False, sv_items_asc = True\<rparr>"

definition two_tenants :: db where
  "two_tenants = \<lparr>tenants = [''t'', ''u''], slice = (\<lambda>t. if t = ''u'' then one_thread else empty_tdb)\<rparr>"


section \<open>Accepted turns\<close>

text \<open>C14: a turn that the API accepts is durable. When the turns endpoint answers with a body, its status
  is 200 or 202, the request's body held at least one input, and the tenant's queue holds a row of that
  thread with exactly these inputs, waiting or admitted to a turn that the session answered for them.\<close>

theorem accepted_turn_durable:
  assumes "serve sv env rq rounds e = (Passed (JsonAnswer st j), e')"
    and "route_of (rq_method rq) (rq_path rq) = RouteTurns tid"
    and "input_law (ee_core env)" "jsonb_keeps env" "distinct (map q_id (queue (slice (en_db e) (rq_tenant rq))))"
  shows "(st = 200 \<or> st = 202) \<and> (\<exists>body. decode_body [''tenant_id'', ''input''] (submit_request_of (ee_core env)) (rq_body rq) = Inr body
      \<and> sq_input body \<noteq> []
      \<and> (\<exists>q \<in> set (queue (slice (en_db e') (rq_tenant rq))). q_thread q = tid
          \<and> unmarshal_payload (ee_core env) (q_payload q) = Some \<lparr>qp_type = queued_user_input, qp_items = sq_input body\<rparr>
          \<and> (case q_admitted q of None \<Rightarrow> True | Some turn \<Rightarrow> turn_answered (ee_core env) (sq_input body) turn)))"
proof -
  let ?ctx = "request_ctx (Some (rq_tenant rq))"
  from assms(1,2) have h: "h_submit_turn env ?ctx tid rq e = (Inr (JsonAnswer st j), e')"
    by (auto simp: serve_def tenant_middleware_def handle_route_def with_tenant_def split: if_splits prod.splits sum.splits)
  then obtain body where b: "decode_body [''tenant_id'', ''input''] (submit_request_of (ee_core env)) (rq_body rq) = Inr body"
    by (auto simp: h_submit_turn_def split: sum.splits)
  obtain x e1 where x: "submit_turn env ?ctx tid (sq_input body) e = (x, e1)" by fastforce
  from h b x obtain ref where r: "x = Inr ref" "e1 = e'" "sq_input body \<noteq> []" "st = (if tr_queued ref then 202 else 200)"
    by (auto simp: h_submit_turn_def mapped_def split: sum.splits if_splits prod.splits)
  from submit_turn_durable [OF x [unfolded r(1,2)] assms(3-5)] b r(3,4) show ?thesis by auto
qed

definition turn_request :: api_request where
  "turn_request = (sample_request ''Bearer secret'')\<lparr>rq_method := ''POST'',
     rq_path := [''internal'', ''v1'', ''agent'', ''threads'', ''00000000-0000-0000-0000-000000000001'', ''turns''],
     rq_tenant := ''00000000-0000-0000-0000-000000000000'', rq_body := Some (json_text (JObj [(''input'', JArr [JStr ''hi''])]))\<rparr>"

definition turn_engine :: "unit engine" where
  "turn_engine = sample_engine\<lparr>en_draining := True,
     en_db := \<lparr>tenants = [''00000000-0000-0000-0000-000000000000''],
       slice = (\<lambda>_. empty_tdb\<lparr>threads := [blank_thread ''00000000-0000-0000-0000-000000000001'']\<rparr>)\<rparr>\<rparr>"

lemma turn_request_decodes:
  "decode_body [''tenant_id'', ''input''] (submit_request_of (ee_core sample_env)) (rq_body turn_request)
   = Inr \<lparr>sq_tenant = [], sq_input = [''hi'']\<rparr>"
proof -
  let ?j = "JObj [(''input'', JArr [JStr ''hi''])]"
  have t: "trim_space (json_text ?j) \<noteq> []" by code_simp
  have l: "length (json_text ?j) \<le> max_body_bytes"
  proof -
    have "length (json_text ?j) = 16" by code_simp
    then show ?thesis by (simp add: max_body_bytes_def)
  qed
  have "json_first (json_text ?j) = Some ?j" by (rule json_first_text) simp
  then show ?thesis using t l
    by (simp add: turn_request_def decode_body_def struct_members_def submit_request_of_def dec_field_def
        field_values_def to_lower_def lower_char_def str_field_def as_inputs_def sample_env_def sample_core_def map_all_def as_str_def
     del: json_text.simps)
qed

lemma accepted_turn_durable_witness:
  "\<exists>st j e'. serve sample_server sample_env turn_request [] turn_engine = (Passed (JsonAnswer st j), e')
     \<and> (st = 200 \<or> st = 202)"
proof -
  have u: "uuid_shape ''00000000-0000-0000-0000-000000000000''" "uuid_shape ''00000000-0000-0000-0000-000000000001''"
    by code_simp+
  have r: "route_of (rq_method turn_request) (rq_path turn_request) = RouteTurns ''00000000-0000-0000-0000-000000000001''"
    using u by (simp add: turn_request_def sample_request_def route_of_def)
  have "\<exists>st j e'. serve sample_server sample_env turn_request [] turn_engine = (Passed (JsonAnswer st j), e')"
    using u turn_request_decodes r
    by (simp add: serve_def turn_request_def sample_request_def sample_server_def tenant_middleware_def handle_route_def h_submit_turn_def
        path_uuid_def check_body_tenant_def mapped_def middleware.simps turn_engine_def with_tenant_def
        submit_turn_def store_query_def next_fault_def sample_engine_def request_ctx_def get_thread_info_def
        in_tenant_tx_def tenant_from_context_def one_tenant_def one_thread_def blank_thread_def live_thread_def row_simps
        info_of_row_def engine_enqueue_def sample_env_def sample_core_def marshal_payload_def map_all_def store_call_def
        enqueue_input_tx_def current_seq_def sample_codex_def empty_tdb_def Let_def dispatch_def live_for_def)
  then obtain st j e' where s: "serve sample_server sample_env turn_request [] turn_engine = (Passed (JsonAnswer st j), e')"
    by blast
  have d: "distinct (map q_id (queue (slice (en_db turn_engine) (rq_tenant turn_request))))"
    by (simp add: turn_engine_def empty_tdb_def)
  from accepted_turn_durable [OF s r sample_laws d] s show ?thesis by blast
qed

section \<open>Event streams\<close>

lemma round_logs_ok: "log_grows t tid xs \<Longrightarrow> x \<in> set xs \<Longrightarrow> log_ok (slice (tr_db x) t) \<and> has_thread tid (slice (tr_db x) t)"
  by (induction xs) auto

lemma log_grows_append: "log_grows t tid (xs @ ys) \<Longrightarrow> log_grows t tid xs \<and> log_grows t tid ys"
proof (induction xs)
  case (Cons x xs)
  then show ?case by (cases xs; cases ys) (auto simp del: append_assoc)
qed simp

lemma engine_events_tail:
  assumes "engine_events flt (Some t) tid frm d rounds = Inr evs"
  shows "t \<noteq> [] \<and> evs = tail_events (Some t) tid (max 1 frm) rounds"
  using assms by (auto simp: engine_events_def get_thread_info_def in_tenant_tx_def tenant_from_context_def max_def
      is_no_rows.simps split: sum.splits if_splits simp del: tail_events.simps)

lemma round_log_nth:
  assumes "log_ok (slice (tr_db z) t)" "has_thread tid (slice (tr_db z) t)" "1 \<le> a" "i < length (round_log t tid a z)"
  shows "se_seq (round_log t tid a z ! i) = a + int i"
proof -
  have n: "map se_seq (round_log t tid a z) = [a..last_seq_of tid (slice (tr_db z) t)]"
    using store_log.load_num [of "slice (tr_db z) t" tid a] assms(1-3) by (simp add: round_log_def)
  from arg_cong [OF this, of length] assms(4) have "i < length [a..last_seq_of tid (slice (tr_db z) t)]" by simp
  then have "[a..last_seq_of tid (slice (tr_db z) t)] ! i = a + int i" by (simp add: nth_upto)
  with n assms(4) show ?thesis by (metis nth_map)
qed

text \<open>A client that reconnects with \<open>Last-Event-ID\<close> continues where it was. The number of the last
  event of a first connection, sent back as the header, makes the second connection start at the next
  number, and what both delivered together is a gapless prefix of the log, with nothing twice.\<close>

theorem sse_reconnect:
  assumes "engine_events flt (Some t) tid frm d (r # rs) = Inr evs" "evs \<noteq> []"
    and "engine_events flt2 (Some t) tid frm2 d2 (q # qs) = Inr evs2"
    and "from_seq (int_str (ev_seq (last evs))) raw = Inr frm2" "ev_seq (last evs) < 2 ^ 63 - 1"
    and "log_grows t tid ((r # rs) @ q # qs)"
  shows "frm2 = ev_seq (last evs) + 1
    \<and> (\<exists>k. evs @ evs2 = map event_of (take k (round_log t tid (max 1 frm) (last (q # qs)))))"
proof -
  define a where "a = max 1 frm"
  define y where "y = last (r # rs)"
  define z where "z = last (q # qs)"
  have a: "1 \<le> a" by (simp add: a_def)
  note t = engine_events_tail [OF assms(1), folded a_def] 
  have g: "log_grows t tid (r # rs)" "log_grows t tid (q # qs)" using log_grows_append [OF assms(6)] by auto
  have oky: "log_ok (slice (tr_db y) t)" "has_thread tid (slice (tr_db y) t)"
    using round_logs_ok [OF g(1)] last_in_set [of "r # rs"] unfolding y_def by blast+
  have okz: "log_ok (slice (tr_db z) t)" "has_thread tid (slice (tr_db z) t)"
    using round_logs_ok [OF g(2)] last_in_set [of "q # qs"] unfolding z_def by blast+
  obtain k where k: "evs = map event_of (take k (round_log t tid a y))" "k \<le> length (round_log t tid a y)"
    using tail_events_prefix [OF g(1) _ a] t y_def by metis
  have len: "length evs = k" using k by simp
  have k0: "0 < k" using len assms(2) by (cases evs) auto
  have "last evs = event_of (round_log t tid a y ! (k - 1))"
    using k k0 assms(2) by (simp add: last_conv_nth nth_take)
  then have seq: "ev_seq (last evs) = a + int k - 1"
    using round_log_nth [OF oky a, of "k - 1"] k k0 by (simp add: event_of_def of_nat_diff)
  then have frm2: "frm2 = a + int k"
    using assms(4,5) a parse_int_str [of "a + int k - 1"]
    by (auto simp: from_seq_def int64_range_def wrap64_def split: if_splits)
  have "log_grows t tid (y # q # qs)"
    using assms(6) unfolding y_def 
    by (metis append_butlast_last_id append.assoc append_Cons append_Nil list.distinct(1) log_grows_append)
  then obtain fs where fs: "round_log t tid a z = round_log t tid a y @ fs"
    using round_log_last [of t tid y "q # qs" a] by (auto simp: z_def)
  obtain m where m: "evs2 = map event_of (take m (round_log t tid frm2 z))"
    using engine_events_tail [OF assms(3)] tail_events_prefix [OF g(2), of frm2] frm2 a z_def by (auto simp: max_def)
  have "round_log t tid frm2 z = drop k (round_log t tid a z)"
    using store_log.load_drop [of "slice (tr_db z) t" tid a k] okz a k(2) fs unfolding frm2 round_log_def by auto
  then have "evs @ evs2 = map event_of (take (k + m) (round_log t tid a z))"
    using k fs m by (simp only: take_add map_append) (simp add: fs)
  with frm2 seq show ?thesis by (auto simp: a_def z_def)
qed

definition logged_round :: tail_round where
  "logged_round = \<lparr>tr_db = \<lparr>tenants = [''t''], slice = (\<lambda>_. one_thread\<lparr>threads := [(blank_thread ''a'')\<lparr>t_last_seq := 1\<rparr>],
     events := [\<lparr>e_thread = ''a'', e_seq = 1, e_turn = None, e_type = ''x'', e_payload = ''1'', e_ref = None, e_created = 0\<rparr>]\<rparr>)\<rparr>,
     tr_fault = NoFault, tr_room = None, tr_stop = False\<rparr>"

lemma sse_reconnect_witness:
  "\<exists>evs evs2 k. engine_events NoFault (Some ''t'') ''a'' 1 (tr_db logged_round) [logged_round] = Inr evs \<and> evs \<noteq> []
     \<and> evs @ evs2 = map event_of (take k (round_log ''t'' ''a'' 1 logged_round))"
proof -
  let ?r = logged_round
  have g: "log_grows ''t'' ''a'' ([?r] @ ?r # [])"
    by (simp add: logged_round_def log_ok_def has_thread_def one_thread_def blank_thread_def thread_seqs_def empty_tdb_def)
  obtain evs where e: "engine_events NoFault (Some ''t'') ''a'' 1 (tr_db ?r) [?r] = Inr evs" "evs \<noteq> []" "ev_seq (last evs) = 1"
    by (simp add: engine_events_def get_thread_info_def in_tenant_tx_def tenant_from_context_def logged_round_def
        one_thread_def blank_thread_def live_thread_def row_simps empty_tdb_def forward_def read_events_def
        read_events_tx_def load_events_def event_batch_def current_seq_def stored_of_def event_of_def order_by_def)
  obtain evs2 where e2: "engine_events NoFault (Some ''t'') ''a'' 2 (tr_db ?r) [?r] = Inr evs2"
    using e(1) by (auto simp: engine_events_def split: sum.splits)
  have f: "from_seq (int_str (ev_seq (last evs))) [] = Inr 2"
    using parse_int_str [of 1] by (simp add: e(3) from_seq_def int64_range_def wrap64_def)
  from sse_reconnect [OF e(1,2) e2 f _ g] e show ?thesis by auto
qed

text \<open>A client cannot hold a place beyond the largest number. \<open>fromSeq\<close> adds one to the last event's
  number in 64 bits: a \<open>Last-Event-ID\<close> of \<open>2^63 - 1\<close> wraps to \<open>-2^63\<close>, which the stream takes for the
  start, so that the request is answered with the whole log, as one without any position.\<close>

theorem from_seq_wraps:
  "h_events ctx tid (rq\<lparr>rq_last_event := int_str (2 ^ 63 - 1)\<rparr>) rounds e
   = h_events ctx tid (rq\<lparr>rq_last_event := [], rq_query := \<lambda>_. []\<rparr>) rounds e"
proof -
  have w: "from_seq (int_str (2 ^ 63 - 1)) raw = Inr (- (2 ^ 63))" for raw
    using parse_int_str [of "2 ^ 63 - 1"] by (simp add: from_seq_def wrap64_def int64_range_def)
  have o: "from_seq [] [] = Inr 1" by (simp add: from_seq_def)
  have "(\<lambda>flt d. engine_events flt c tid (- (2 ^ 63)) d rounds) = (\<lambda>flt d. engine_events flt c tid 1 d rounds)" for c
    by (simp add: engine_events_def)
  moreover have "rq_last_event (rq\<lparr>rq_last_event := x\<rparr>) = x" "rq_last_event (rq\<lparr>rq_last_event := x, rq_query := y\<rparr>) = x"
    "rq_query (rq\<lparr>rq_last_event := x, rq_query := y\<rparr>) = y" for x y by simp_all
  ultimately show ?thesis unfolding h_events_def by (simp only: w o sum.case)
qed

end
