(* ===== verification/ConsoleDb.thy ===== *)
theory ConsoleDb
  imports StoreState Json GoTime
begin

text \<open>
  The control plane's database, \<^verbatim>\<open>console/internal/repo\<close>: the rows of its tables, the
  tenant transaction of \<^verbatim>\<open>repo.go\<close>, the mapping of constraint violations
  (\<^verbatim>\<open>pgerr.go\<close>), and the request decoding that its two HTTP surfaces share. A tenant's
  tables are one record; row level security is the choice of that record. Ids that the database generates
  are arguments. Tenants are given as UUIDs.
\<close>

section \<open>Rows\<close>

record quota_row =
  qr_budget :: int
  qr_hard :: bool
  qr_updated :: int

record usage_row =
  ur_idem :: string
  ur_at :: int
  ur_model :: string
  ur_upstream :: string
  ur_agent :: "string option"
  ur_session :: string
  ur_trace :: string
  ur_purpose :: string
  ur_prompt :: int
  ur_completion :: int
  ur_total :: int
  ur_cost :: "int option"
  ur_stream :: bool
  ur_status :: string

record conn_row =
  cn_id :: string
  cn_name :: string
  cn_location :: string
  cn_version :: string
  cn_status :: string
  cn_heartbeat :: "int option"
  cn_fingerprint :: string
  cn_token :: "string option"
  cn_expires :: "int option"
  cn_revoked :: "int option"
  cn_created :: int
  cn_updated :: int

record ds_row =
  dr_id :: string
  dr_name :: string
  dr_family :: string
  dr_engine :: string
  dr_version :: string
  dr_mode :: string
  dr_connector :: "string option"
  dr_credential :: "string option"
  dr_host :: string
  dr_port :: int
  dr_database :: string
  dr_group :: "string option"
  dr_role :: "string option"
  dr_agent :: "string option"
  dr_health :: string
  dr_created :: int
  dr_updated :: int

record cred_row =
  cr_id :: string
  cr_username :: string
  cr_secret :: string
  cr_key :: string
  cr_rotated :: "int option"
  cr_created :: int

record agent_row =
  ar_id :: string
  ar_name :: string
  ar_kind :: string
  ar_status :: string
  ar_doc :: string
  ar_version :: int
  ar_created :: int
  ar_updated :: int

record group_row =
  gr_id :: string
  gr_name :: string
  gr_kind :: string
  gr_created :: int
  gr_updated :: int

record alias_row =
  al_id :: string
  al_ds :: string
  al_alias :: string
  al_source :: string
  al_created :: int

record replay_row =
  ir_key :: string
  ir_hash :: string
  ir_status :: nat
  ir_body :: json

record ctdb =
  c_known :: bool
  c_quota :: "quota_row option"
  c_usage :: "usage_row list"
  c_conns :: "conn_row list"
  c_ds :: "ds_row list"
  c_creds :: "cred_row list"
  c_agents :: "agent_row list"
  c_groups :: "group_row list"
  c_aliases :: "alias_row list"
  c_replays :: "replay_row list"

definition empty_ctdb :: ctdb where
  "empty_ctdb = \<lparr>c_known = True, c_quota = None, c_usage = [], c_conns = [], c_ds = [], c_creds = [], c_agents = [],
     c_groups = [], c_aliases = [], c_replays = []\<rparr>"

record cdb =
  c_slice :: "string \<Rightarrow> ctdb"

section \<open>repo.go\<close>

type_synonym 'a ctx_body = "ctdb \<Rightarrow> go_error + 'a \<times> ctdb"

definition console_tx :: "tx_fault \<Rightarrow> string option \<Rightarrow> 'a ctx_body \<Rightarrow> cdb \<Rightarrow> (go_error + 'a) \<times> cdb" where
  "console_tx flt ctx body d = (case tenant_from_context ctx of
     None \<Rightarrow> (Inl (api_err CodeTenantContextMissing), d)
   | Some t \<Rightarrow>
       if flt = FailBegin then (Inl (Wrapf ''begin tenant tx'' (Plain ''db'')), d)
       else if flt = FailRole then (Inl (Wrapf ''set role airush_app'' (Plain ''db'')), d)
       else if flt = FailGuc then (Inl (Wrapf ''set tenant guc'' (Plain ''db'')), d)
       else if flt = FailStmt then (Inl (Wrapf ''statement'' (Plain ''db'')), d)
       else (case body (c_slice d t) of
           Inl e \<Rightarrow> (Inl e, d)
         | Inr (x, s) \<Rightarrow> if flt = FailCommit then (Inl (Wrapf ''commit tenant tx'' (Plain ''db'')), d)
             else (Inr x, d\<lparr>c_slice := (c_slice d)(t := s)\<rparr>)))"

lemma console_tx_error: "console_tx flt ctx body d = (Inl e, d') \<Longrightarrow> d' = d"
  by (auto simp: console_tx_def split: option.splits sum.splits if_splits)

lemma console_tx_Inr:
  assumes "console_tx flt ctx body d = (Inr x, d')"
  obtains t s where "ctx = Some t" "t \<noteq> []" "body (c_slice d t) = Inr (x, s)" "d' = d\<lparr>c_slice := (c_slice d)(t := s)\<rparr>"
  using assms by (auto simp: console_tx_def tenant_from_context_Some split: option.splits sum.splits if_splits)

lemma console_tx_other: "console_tx flt ctx body d = (r, d') \<Longrightarrow> ctx \<noteq> Some u \<Longrightarrow> c_slice d' u = c_slice d u"
  by (auto simp: console_tx_def tenant_from_context_Some split: option.splits sum.splits if_splits)

lemma console_tx_ok:
  "t \<noteq> [] \<Longrightarrow> console_tx NoFault (Some t) body d = (case body (c_slice d t) of
      Inl e \<Rightarrow> (Inl e, d) | Inr (x, s) \<Rightarrow> (Inr x, d\<lparr>c_slice := (c_slice d)(t := s)\<rparr>))"
  by (simp add: console_tx_def tenant_from_context_def split: sum.splits)

lemma console_tx_preserves:
  assumes body: "\<And>s x s'. P s \<Longrightarrow> body s = Inr (x, s') \<Longrightarrow> P s'"
    and all: "\<And>t. P (c_slice d t)" and tx: "console_tx flt ctx body d = (r, d')"
  shows "P (c_slice d' u)"
proof (cases r)
  case (Inl e)
  with tx have "d' = d" by (auto dest: console_tx_error)
  with all show ?thesis by simp
next
  case (Inr x)
  with tx obtain t s where "body (c_slice d t) = Inr (x, s)" "d' = d\<lparr>c_slice := (c_slice d)(t := s)\<rparr>"
    by (metis console_tx_Inr)
  with all body show ?thesis by auto
qed

section \<open>pgerr.go\<close>

text \<open>A violated constraint, with its name. A foreign key error also covers a tenant that does not exist.\<close>

datatype pg_violation = UniqueViolation string | CheckViolation string | ForeignKeyViolation string

definition map_unique_violation :: "string \<Rightarrow> go_error" where
  "map_unique_violation name = api_wrap (if contains_str name ''datasources_tenant_id_name'' then CodeDatasourceNameConflict
     else if contains_str name ''datasource_aliases_tenant_id_alias'' then CodeAliasConflict
     else CodeCommonConflict) (Plain ''23505'')"

definition map_pg_error :: "pg_violation \<Rightarrow> go_error" where
  "map_pg_error v = (case v of
     UniqueViolation name \<Rightarrow> map_unique_violation name
   | CheckViolation name \<Rightarrow> if has_prefix name ''mode_'' then api_wrap CodeDatasourceModeMismatch (Plain ''23514'')
       else ApiErr CodeValidationFailed [(name, ''check'')] (Some (Plain ''23514''))
   | ForeignKeyViolation name \<Rightarrow> ApiErr CodeValidationFailed [(name, ''reference'')] (Some (Plain ''23503'')))"

text \<open>An insert that checks constraints in the order of the database: checks, unique keys, references.\<close>

fun first_violation :: "(bool \<times> pg_violation) list \<Rightarrow> pg_violation option" where
  "first_violation [] = None"
| "first_violation ((ok, v) # vs) = (if ok then first_violation vs else Some v)"

lemma first_violation_None: "first_violation vs = None \<longleftrightarrow> (\<forall>p \<in> set vs. fst p)"
  by (induction vs) (auto split: if_splits)

section \<open>Request bodies\<close>

definition console_body_limit :: nat where "console_body_limit = 1048576"

definition bad_body :: go_error where
  "bad_body = ApiErr CodeValidationFailed [(''body'', ''json'')] (Some (Plain ''json''))"

text \<open>\<open>Decode\<close> with unknown fields refused: one value, an object with these members, or \<open>null\<close>.\<close>

definition decode_strict :: "string list \<Rightarrow> ((string \<times> json) list \<Rightarrow> 'r option) \<Rightarrow> string \<Rightarrow> go_error + 'r" where
  "decode_strict names f body = (case Option.bind (json_first body) struct_members of None \<Rightarrow> Inl bad_body
     | Some kvs \<Rightarrow> if \<exists>k \<in> set (map fst kvs). to_lower k \<notin> set names then Inl bad_body
         else (case f kvs of None \<Rightarrow> Inl bad_body | Some r \<Rightarrow> Inr r))"

lemma decode_strict_text:
  assumes "wf_json (JObj kvs)" "\<forall>k \<in> set (map fst kvs). to_lower k \<in> set names" "f kvs = Some r"
  shows "decode_strict names f (json_text (JObj kvs)) = Inr r"
  using json_first_text [OF assms(1)] assms(2,3) by (simp add: decode_strict_def struct_members_def)

text \<open>The internal API reads at most the limit.\<close>

definition decode_json :: "string list \<Rightarrow> ((string \<times> json) list \<Rightarrow> 'r option) \<Rightarrow> string \<Rightarrow> go_error + 'r" where
  "decode_json names f body = decode_strict names f (take console_body_limit body)"

text \<open>Answers of a handler: a status with a JSON body or without one.\<close>

datatype console_answer = ConsoleJson nat json | ConsoleStatus nat

text \<open>A field that is a pointer: the last value decides, \<open>null\<close> is nil, every value must fit.\<close>

definition ptr_field :: "(json \<Rightarrow> 'a option) \<Rightarrow> string \<Rightarrow> (string \<times> json) list \<Rightarrow> 'a option option" where
  "ptr_field f name kvs = (let vs = field_values name kvs in
     if list_all (\<lambda>v. v = JNull \<or> f v \<noteq> None) vs then Some (if vs = [] \<or> last vs = JNull then None else f (last vs)) else None)"

definition opt_str_field :: "string \<Rightarrow> (string \<times> json) list \<Rightarrow> string option option" where
  "opt_str_field = ptr_field as_str"

definition bool_field :: "string \<Rightarrow> (string \<times> json) list \<Rightarrow> bool option" where
  "bool_field name kvs = map_option (\<lambda>v. v = Some True) (dec_field as_bool name kvs)"

definition one_of :: "string \<Rightarrow> string list \<Rightarrow> bool" where
  "one_of v allowed \<longleftrightarrow> v \<in> set allowed"

end
