(* ===== verification/MetricsData.thy ===== *)
theory MetricsData
  imports ConsoleDb
begin

text \<open>
  The data of the collection chain, \<^verbatim>\<open>libs/metrics\<close>: metrics and their batches
  (\<^verbatim>\<open>metric.go\<close>), snapshots with their kinds and limits (\<^verbatim>\<open>snapshot.go\<close>), and
  their JSON form, which connector, gateway and console exchange. A float is the decimal text that
  \<open>encoding/json\<close> prints for it; reading a number into a float and float arithmetic are a record of
  functions. A time is \<open>None\<close> when it is the zero time. Of a member given twice the last one counts.
\<close>

section \<open>Floats and times\<close>

record float_ops =
  fl_read :: "string \<Rightarrow> string option"
  fl_of_int :: "int \<Rightarrow> string"
  fl_to_int :: "string \<Rightarrow> int"
  fl_secs :: "string \<Rightarrow> string"

definition zero_stamp :: string where "zero_stamp = ''0001-01-01T00:00:00Z''"

definition stamp_text :: "int option \<Rightarrow> string" where
  "stamp_text t = (case t of None \<Rightarrow> zero_stamp | Some u \<Rightarrow> time_text u)"

definition stamp_ok :: "int option \<Rightarrow> bool" where
  "stamp_ok t \<longleftrightarrow> (case t of None \<Rightarrow> True | Some u \<Rightarrow> time_ok u)"

definition parse_stamp :: "string \<Rightarrow> int option option" where
  "parse_stamp s = (if s = zero_stamp then Some None else map_option Some (parse_time s))"

section \<open>metric.go\<close>

definition catalog_version :: int where "catalog_version = 1"

record metric =
  me_name :: string
  me_value :: string
  me_unit :: string
  me_labels :: "(string \<times> string) list"
  me_at :: "int option"

record batch =
  ba_ds :: string
  ba_family :: string
  ba_catalog :: int
  ba_metrics :: "metric list"
  ba_at :: "int option"
  ba_partial :: bool
  ba_missing :: "string list"

definition allowed_label_keys :: "string list" where
  "allowed_label_keys = [''datasource_id'', ''database'', ''engine'']"

definition allowed_label_key :: "string \<Rightarrow> bool" where
  "allowed_label_key k \<longleftrightarrow> k \<in> set allowed_label_keys"

text \<open>What is kept, and the keys that are dropped.\<close>

definition sanitize_labels :: "(string \<times> string) list \<Rightarrow> (string \<times> string) list \<times> string list" where
  "sanitize_labels ls = (filter (\<lambda>p. allowed_label_key (fst p)) ls, map fst (filter (\<lambda>p. \<not> allowed_label_key (fst p)) ls))"

section \<open>snapshot.go\<close>

definition snapshot_kinds :: "string list" where
  "snapshot_kinds = [''slowlog'', ''schema'', ''config'']"

definition valid_snapshot_kind :: "string \<Rightarrow> bool" where
  "valid_snapshot_kind k \<longleftrightarrow> list_ex (\<lambda>x. x = k) snapshot_kinds"

definition slowlog_top_n :: nat where "slowlog_top_n = 50"
definition schema_max_tables :: nat where "schema_max_tables = 500"
definition query_text_max_len :: nat where "query_text_max_len = 2048"
definition snapshot_max_bytes :: nat where "snapshot_max_bytes = 524288"

record slow_query =
  sq_id :: string
  sq_text :: string
  sq_cut :: bool
  sq_calls :: int
  sq_total :: string
  sq_mean :: string
  sq_max :: string
  sq_rows :: int
  sq_database :: string

record column_info =
  ci_name :: string
  ci_type :: string
  ci_nullable :: bool

record index_info =
  ii_name :: string
  ii_unique :: bool
  ii_columns :: "string list"

record table_info =
  ti_schema :: string
  ti_name :: string
  ti_columns :: "column_info list"
  ti_indexes :: "index_info list"
  ti_size :: int
  ti_rows :: int

record config_entry =
  ce_name :: string
  ce_value :: string
  ce_unit :: string
  ce_source :: string

record snapshot =
  sn_ds :: string
  sn_family :: string
  sn_kind :: string
  sn_catalog :: int
  sn_at :: "int option"
  sn_missing :: bool
  sn_source :: string
  sn_cut :: bool
  sn_queries :: "slow_query list"
  sn_tables :: "table_info list"
  sn_configs :: "config_entry list"

text \<open>The runes of a string, as \<open>[]rune\<close> reads them: a byte that starts no valid sequence is the replacement rune.\<close>

definition cont_byte :: "nat \<Rightarrow> nat \<Rightarrow> string \<Rightarrow> bool" where
  "cont_byte lo hi s \<longleftrightarrow> (case s of [] \<Rightarrow> False | c # r \<Rightarrow> lo \<le> byte c \<and> byte c \<le> hi)"

definition rune_len :: "string \<Rightarrow> nat" where
  "rune_len s = (case s of [] \<Rightarrow> 0 | c # r \<Rightarrow> (let b = byte c; tail = (\<lambda>k. cont_byte 128 191 (drop k r)) in
     if b < 128 then 1
     else if 194 \<le> b \<and> b < 224 then (if tail 0 then 2 else 0)
     else if 224 \<le> b \<and> b < 240 then (if cont_byte (if b = 224 then 160 else 128) (if b = 237 then 159 else 191) r \<and> tail 1 then 3 else 0)
     else if 240 \<le> b \<and> b < 245 then (if cont_byte (if b = 240 then 144 else 128) (if b = 244 then 143 else 191) r \<and> tail 1 \<and> tail 2
       then 4 else 0)
     else 0))"

function runes :: "string \<Rightarrow> string list" where
  "runes s = (case s of [] \<Rightarrow> [] | c # r \<Rightarrow> if rune_len s = 0 then utf8 65533 # runes r
     else take (rune_len s) s # runes (drop (rune_len s) s))"
  by pat_completeness auto
termination by (relation "measure length") auto

declare runes.simps [simp del]

definition truncate_text :: "string \<Rightarrow> string \<times> bool" where
  "truncate_text s = (if length (runes s) \<le> query_text_max_len then (s, False)
     else (concat (take query_text_max_len (runes s)), True))"

section \<open>JSON\<close>

definition json_int :: "int \<Rightarrow> json" where "json_int n = JNum (int_str n)"

definition omit_false :: "string \<Rightarrow> bool \<Rightarrow> (string \<times> json) list" where
  "omit_false k b = (if b then [(k, JBool True)] else [])"

definition omit_str :: "string \<Rightarrow> string \<Rightarrow> (string \<times> json) list" where
  "omit_str k s = (if s = [] then [] else [(k, JStr s)])"

definition omit_list :: "string \<Rightarrow> ('a \<Rightarrow> json) \<Rightarrow> 'a list \<Rightarrow> (string \<times> json) list" where
  "omit_list k f xs = (if xs = [] then [] else [(k, JArr (map f xs))])"

definition metric_json :: "metric \<Rightarrow> json" where
  "metric_json m = JObj ([(''name'', JStr (me_name m)), (''value'', JNum (me_value m)), (''unit'', JStr (me_unit m))]
     @ (if me_labels m = [] then [] else [(''labels'', JObj (map (\<lambda>(k, v). (k, JStr v)) (me_labels m)))])
     @ [(''at'', JStr (stamp_text (me_at m)))])"

text \<open>A batch without metrics has a nil slice, written \<open>null\<close>.\<close>

definition batch_json :: "batch \<Rightarrow> json" where
  "batch_json b = JObj ([(''datasource_id'', JStr (ba_ds b)), (''engine_family'', JStr (ba_family b)),
     (''catalog_version'', json_int (ba_catalog b)),
     (''metrics'', if ba_metrics b = [] then JNull else JArr (map metric_json (ba_metrics b))),
     (''collected_at'', JStr (stamp_text (ba_at b))), (''partial'', JBool (ba_partial b))]
     @ omit_list ''missing'' JStr (ba_missing b))"

definition slow_query_json :: "slow_query \<Rightarrow> json" where
  "slow_query_json q = JObj ([(''query_id'', JStr (sq_id q)), (''text'', JStr (sq_text q))] @ omit_false ''truncated'' (sq_cut q)
     @ [(''calls'', json_int (sq_calls q)), (''total_ms'', JNum (sq_total q)), (''mean_ms'', JNum (sq_mean q)),
        (''max_ms'', JNum (sq_max q)), (''rows'', json_int (sq_rows q))] @ omit_str ''database'' (sq_database q))"

definition column_json :: "column_info \<Rightarrow> json" where
  "column_json c = JObj [(''name'', JStr (ci_name c)), (''data_type'', JStr (ci_type c)), (''nullable'', JBool (ci_nullable c))]"

definition index_json :: "index_info \<Rightarrow> json" where
  "index_json i = JObj ([(''name'', JStr (ii_name i)), (''is_unique'', JBool (ii_unique i))] @ omit_list ''columns'' JStr (ii_columns i))"

definition table_json :: "table_info \<Rightarrow> json" where
  "table_json t = JObj ([(''schema'', JStr (ti_schema t)), (''name'', JStr (ti_name t))]
     @ omit_list ''columns'' column_json (ti_columns t) @ omit_list ''indexes'' index_json (ti_indexes t)
     @ [(''size_bytes'', json_int (ti_size t)), (''row_estimate'', json_int (ti_rows t))])"

definition config_json :: "config_entry \<Rightarrow> json" where
  "config_json c = JObj ([(''name'', JStr (ce_name c)), (''value'', JStr (ce_value c))] @ omit_str ''unit'' (ce_unit c)
     @ omit_str ''source'' (ce_source c))"

definition snapshot_json :: "snapshot \<Rightarrow> json" where
  "snapshot_json s = JObj ([(''datasource_id'', JStr (sn_ds s)), (''engine_family'', JStr (sn_family s)), (''kind'', JStr (sn_kind s)),
     (''catalog_version'', json_int (sn_catalog s)), (''collected_at'', JStr (stamp_text (sn_at s)))]
     @ omit_false ''capability_missing'' (sn_missing s) @ omit_str ''source'' (sn_source s) @ omit_false ''truncated'' (sn_cut s)
     @ omit_list ''slow_queries'' slow_query_json (sn_queries s) @ omit_list ''tables'' table_json (sn_tables s)
     @ omit_list ''configs'' config_json (sn_configs s))"

text \<open>\<open>Marshal\<close> fails on a float that is no number.\<close>

definition marshal :: "json \<Rightarrow> string option" where
  "marshal j = (if wf_json j then Some (json_text j) else None)"

section \<open>Reading\<close>

text \<open>\<open>DisallowUnknownFields\<close> holds for nested structs as well.\<close>

definition fields_ok :: "bool \<Rightarrow> string list \<Rightarrow> (string \<times> json) list \<Rightarrow> bool" where
  "fields_ok strict names kvs \<longleftrightarrow> (strict \<longrightarrow> list_all (\<lambda>p. to_lower (fst p) \<in> set names) kvs)"

definition as_float :: "float_ops \<Rightarrow> json \<Rightarrow> string option" where
  "as_float fl j = (case j of JNum s \<Rightarrow> fl_read fl s | _ \<Rightarrow> None)"

definition as_stamp :: "json \<Rightarrow> int option option" where
  "as_stamp j = (case j of JStr s \<Rightarrow> parse_stamp s | _ \<Rightarrow> None)"

text \<open>A slice of strings, one of structs: a \<open>null\<close> among the elements is the zero value.\<close>

definition as_str_elem :: "json \<Rightarrow> string option" where
  "as_str_elem j = (if j = JNull then Some [] else as_str j)"

definition as_list :: "(json \<Rightarrow> 'a option) \<Rightarrow> json \<Rightarrow> 'a list option" where
  "as_list f j = Option.bind (as_arr j) (\<lambda>xs. those (map f xs))"

definition as_elem :: "((string \<times> json) list \<Rightarrow> 'a option) \<Rightarrow> json \<Rightarrow> 'a option" where
  "as_elem f j = Option.bind (struct_members j) f"

definition dflt :: "'a \<Rightarrow> 'a option \<Rightarrow> 'a" where
  "dflt x v = (case v of None \<Rightarrow> x | Some y \<Rightarrow> y)"

definition list_field :: "(json \<Rightarrow> 'a option) \<Rightarrow> string \<Rightarrow> (string \<times> json) list \<Rightarrow> 'a list option" where
  "list_field f name kvs = map_option (dflt []) (dec_field (as_list f) name kvs)"

definition float_field :: "float_ops \<Rightarrow> string \<Rightarrow> (string \<times> json) list \<Rightarrow> string option" where
  "float_field fl name kvs = map_option (dflt ''0'') (dec_field (as_float fl) name kvs)"

definition stamp_field :: "string \<Rightarrow> (string \<times> json) list \<Rightarrow> int option option" where
  "stamp_field name kvs = map_option (dflt None) (dec_field as_stamp name kvs)"

text \<open>A map of strings, in the order of its keys.\<close>

definition as_labels :: "json \<Rightarrow> (string \<times> string) list option" where
  "as_labels j = (case j of JObj kvs \<Rightarrow> if list_all (\<lambda>p. as_str_elem (snd p) \<noteq> None) kvs
       then Some (map (\<lambda>k. (k, the (map_of (rev (map (\<lambda>p. (fst p, the (as_str_elem (snd p)))) kvs)) k))) (sort (remdups (map fst kvs))))
       else None
     | _ \<Rightarrow> None)"

definition metric_of :: "float_ops \<Rightarrow> bool \<Rightarrow> (string \<times> json) list \<Rightarrow> metric option" where
  "metric_of fl strict kvs = (if \<not> fields_ok strict [''name'', ''value'', ''unit'', ''labels'', ''at''] kvs then None
     else case (str_field ''name'' kvs, float_field fl ''value'' kvs, str_field ''unit'' kvs, dec_field as_labels ''labels'' kvs,
         stamp_field ''at'' kvs) of
       (Some n, Some v, Some u, Some ls, Some t) \<Rightarrow>
         Some \<lparr>me_name = n, me_value = v, me_unit = u, me_labels = dflt [] ls, me_at = t\<rparr>
     | _ \<Rightarrow> None)"

definition batch_fields :: "string list" where
  "batch_fields = [''datasource_id'', ''engine_family'', ''catalog_version'', ''metrics'', ''collected_at'', ''partial'', ''missing'']"

definition batch_of :: "float_ops \<Rightarrow> bool \<Rightarrow> (string \<times> json) list \<Rightarrow> batch option" where
  "batch_of fl strict kvs = (if \<not> fields_ok strict batch_fields kvs then None
     else case (str_field ''datasource_id'' kvs, str_field ''engine_family'' kvs, int_field ''catalog_version'' kvs,
         list_field (as_elem (metric_of fl strict)) ''metrics'' kvs, stamp_field ''collected_at'' kvs,
         bool_field ''partial'' kvs, list_field as_str_elem ''missing'' kvs) of
       (Some d, Some e, Some c, Some ms, Some t, Some p, Some mi) \<Rightarrow>
         Some \<lparr>ba_ds = d, ba_family = e, ba_catalog = c, ba_metrics = ms, ba_at = t, ba_partial = p, ba_missing = mi\<rparr>
     | _ \<Rightarrow> None)"

definition slow_query_fields :: "string list" where
  "slow_query_fields = [''query_id'', ''text'', ''truncated'', ''calls'', ''total_ms'', ''mean_ms'', ''max_ms'', ''rows'', ''database'']"

definition slow_query_of :: "float_ops \<Rightarrow> bool \<Rightarrow> (string \<times> json) list \<Rightarrow> slow_query option" where
  "slow_query_of fl strict kvs = (if \<not> fields_ok strict slow_query_fields kvs then None
     else case (str_field ''query_id'' kvs, str_field ''text'' kvs, bool_field ''truncated'' kvs, int_field ''calls'' kvs,
         float_field fl ''total_ms'' kvs) of
       (Some i, Some t, Some tr, Some c, Some tot) \<Rightarrow>
         (case (float_field fl ''mean_ms'' kvs, float_field fl ''max_ms'' kvs, int_field ''rows'' kvs, str_field ''database'' kvs) of
           (Some me, Some ma, Some r, Some d) \<Rightarrow> Some \<lparr>sq_id = i, sq_text = t, sq_cut = tr, sq_calls = c, sq_total = tot,
              sq_mean = me, sq_max = ma, sq_rows = r, sq_database = d\<rparr>
         | _ \<Rightarrow> None)
     | _ \<Rightarrow> None)"

definition column_of :: "bool \<Rightarrow> (string \<times> json) list \<Rightarrow> column_info option" where
  "column_of strict kvs = (if \<not> fields_ok strict [''name'', ''data_type'', ''nullable''] kvs then None
     else case (str_field ''name'' kvs, str_field ''data_type'' kvs, bool_field ''nullable'' kvs) of
       (Some n, Some t, Some b) \<Rightarrow> Some \<lparr>ci_name = n, ci_type = t, ci_nullable = b\<rparr> | _ \<Rightarrow> None)"

definition index_of :: "bool \<Rightarrow> (string \<times> json) list \<Rightarrow> index_info option" where
  "index_of strict kvs = (if \<not> fields_ok strict [''name'', ''is_unique'', ''columns''] kvs then None
     else case (str_field ''name'' kvs, bool_field ''is_unique'' kvs, list_field as_str_elem ''columns'' kvs) of
       (Some n, Some b, Some cs) \<Rightarrow> Some \<lparr>ii_name = n, ii_unique = b, ii_columns = cs\<rparr> | _ \<Rightarrow> None)"

definition table_of :: "bool \<Rightarrow> (string \<times> json) list \<Rightarrow> table_info option" where
  "table_of strict kvs = (if \<not> fields_ok strict [''schema'', ''name'', ''columns'', ''indexes'', ''size_bytes'', ''row_estimate''] kvs
     then None
     else case (str_field ''schema'' kvs, str_field ''name'' kvs, list_field (as_elem (column_of strict)) ''columns'' kvs,
         list_field (as_elem (index_of strict)) ''indexes'' kvs, int_field ''size_bytes'' kvs, int_field ''row_estimate'' kvs) of
       (Some s, Some n, Some cs, Some is, Some sz, Some r) \<Rightarrow>
         Some \<lparr>ti_schema = s, ti_name = n, ti_columns = cs, ti_indexes = is, ti_size = sz, ti_rows = r\<rparr>
     | _ \<Rightarrow> None)"

definition config_of :: "bool \<Rightarrow> (string \<times> json) list \<Rightarrow> config_entry option" where
  "config_of strict kvs = (if \<not> fields_ok strict [''name'', ''value'', ''unit'', ''source''] kvs then None
     else case (str_field ''name'' kvs, str_field ''value'' kvs, str_field ''unit'' kvs, str_field ''source'' kvs) of
       (Some n, Some v, Some u, Some s) \<Rightarrow> Some \<lparr>ce_name = n, ce_value = v, ce_unit = u, ce_source = s\<rparr> | _ \<Rightarrow> None)"

definition snapshot_fields :: "string list" where
  "snapshot_fields = [''datasource_id'', ''engine_family'', ''kind'', ''catalog_version'', ''collected_at'', ''capability_missing'',
     ''source'', ''truncated'', ''slow_queries'', ''tables'', ''configs'']"

definition snapshot_of :: "float_ops \<Rightarrow> bool \<Rightarrow> (string \<times> json) list \<Rightarrow> snapshot option" where
  "snapshot_of fl strict kvs = (if \<not> fields_ok strict snapshot_fields kvs then None
     else case (str_field ''datasource_id'' kvs, str_field ''engine_family'' kvs, str_field ''kind'' kvs,
         int_field ''catalog_version'' kvs, stamp_field ''collected_at'' kvs, bool_field ''capability_missing'' kvs) of
       (Some d, Some e, Some k, Some c, Some t, Some mi) \<Rightarrow>
         (case (str_field ''source'' kvs, bool_field ''truncated'' kvs, list_field (as_elem (slow_query_of fl strict)) ''slow_queries'' kvs,
             list_field (as_elem (table_of strict)) ''tables'' kvs, list_field (as_elem (config_of strict)) ''configs'' kvs) of
           (Some so, Some tr, Some qs, Some ts, Some cs) \<Rightarrow> Some \<lparr>sn_ds = d, sn_family = e, sn_kind = k, sn_catalog = c, sn_at = t,
              sn_missing = mi, sn_source = so, sn_cut = tr, sn_queries = qs, sn_tables = ts, sn_configs = cs\<rparr>
         | _ \<Rightarrow> None)
     | _ \<Rightarrow> None)"

end
