(* ===== verification/LlmUsage.thy ===== *)
theory LlmUsage
  imports Json
begin

text \<open>
  Token usage of model calls, \<^verbatim>\<open>libs/llm/usage.go\<close>: the usage of a response body, the
  scanner over the lines of an event stream, and the reader that passes a stream on and scans it.
\<close>

section \<open>Usage\<close>

text \<open>Go's \<open>int\<close> is a signed integer of 64 bits; sums wrap.\<close>

definition s64 :: "int \<Rightarrow> int" where
  "s64 n = (n + 2 ^ 63) mod 2 ^ 64 - 2 ^ 63"

lemma s64_id [simp]: "int64_range n \<Longrightarrow> s64 n = n"
  by (simp add: s64_def int64_range_def mod_pos_pos_trivial)

lemma s64_range [simp]: "int64_range (s64 n)"
  using pos_mod_bound [of "2 ^ 64" "n + 2 ^ 63"] pos_mod_sign [of "2 ^ 64" "n + 2 ^ 63"]
  by (simp add: s64_def int64_range_def)

record usage =
  us_model :: string
  us_upstream :: string
  us_prompt :: int
  us_completion :: int
  us_total :: int
  us_cost :: "int option"
  us_stream :: bool

definition no_usage :: usage where
  "no_usage = \<lparr>us_model = [], us_upstream = [], us_prompt = 0, us_completion = 0, us_total = 0, us_cost = None,
     us_stream = False\<rparr>"

record wire_usage =
  wu_prompt :: int
  wu_completion :: int
  wu_input :: int
  wu_output :: int
  wu_total :: int

definition zero_wire :: wire_usage where
  "zero_wire = \<lparr>wu_prompt = 0, wu_completion = 0, wu_input = 0, wu_output = 0, wu_total = 0\<rparr>"

definition to_usage :: "wire_usage \<Rightarrow> usage option" where
  "to_usage w = (if w = zero_wire then None
     else (let p = s64 (wu_prompt w + wu_input w); c = s64 (wu_completion w + wu_output w)
       in Some (no_usage\<lparr>us_prompt := p, us_completion := c,
            us_total := (if wu_total w = 0 then s64 (p + c) else wu_total w)\<rparr>)))"

text \<open>A field that is a struct: the members of its objects in order, as they fill the same struct.\<close>

definition sub_members :: "string \<Rightarrow> (string \<times> json) list \<Rightarrow> (string \<times> json) list option" where
  "sub_members name kvs = (let vs = filter (\<lambda>v. v \<noteq> JNull) (field_values name kvs) in
     if list_all (\<lambda>v. as_struct v \<noteq> None) vs then Some (concat (map (\<lambda>v. case as_struct v of None \<Rightarrow> [] | Some m \<Rightarrow> m) vs))
     else None)"

definition wire_of :: "(string \<times> json) list \<Rightarrow> wire_usage option" where
  "wire_of kvs = (case (int_field ''prompt_tokens'' kvs, int_field ''completion_tokens'' kvs, int_field ''input_tokens'' kvs,
       int_field ''output_tokens'' kvs, int_field ''total_tokens'' kvs) of
     (Some p, Some c, Some i, Some q, Some t) \<Rightarrow>
       Some \<lparr>wu_prompt = p, wu_completion = c, wu_input = i, wu_output = q, wu_total = t\<rparr>
   | _ \<Rightarrow> None)"

text \<open>The members \<open>model\<close> and \<open>usage\<close>, as they are at the top and inside \<open>response\<close>.\<close>

definition model_usage :: "(string \<times> json) list \<Rightarrow> (string \<times> wire_usage) option" where
  "model_usage kvs = (case (str_field ''model'' kvs, Option.bind (sub_members ''usage'' kvs) wire_of) of
     (Some m, Some w) \<Rightarrow> Some (m, w) | _ \<Rightarrow> None)"

text \<open>The usage of a body and whether it had one.\<close>

definition extract_json_usage :: "string \<Rightarrow> usage \<times> bool" where
  "extract_json_usage body = (case Option.bind (Option.bind (json_parse body) struct_members) model_usage of
     None \<Rightarrow> (no_usage, False)
   | Some (m, w) \<Rightarrow> (case to_usage w of None \<Rightarrow> (no_usage\<lparr>us_upstream := m\<rparr>, False)
       | Some u \<Rightarrow> (u\<lparr>us_upstream := m\<rparr>, True)))"

section \<open>The scanner\<close>

record sse_scanner =
  sc_usage :: usage
  sc_found :: bool
  sc_upstream :: string

definition new_scanner :: sse_scanner where
  "new_scanner = \<lparr>sc_usage = no_usage, sc_found = False, sc_upstream = []\<rparr>"

record sse_chunk =
  fr_model :: string
  fr_usage :: wire_usage
  fr_type :: string
  fr_rmodel :: string
  fr_rusage :: wire_usage

definition frame_of :: "string \<Rightarrow> sse_chunk option" where
  "frame_of payload = (case Option.bind (json_parse payload) struct_members of None \<Rightarrow> None
     | Some kvs \<Rightarrow> (case (model_usage kvs, str_field ''type'' kvs, Option.bind (sub_members ''response'' kvs) model_usage) of
         (Some (m, w), Some t, Some (rm, rw)) \<Rightarrow>
           Some \<lparr>fr_model = m, fr_usage = w, fr_type = t, fr_rmodel = rm, fr_rusage = rw\<rparr>
       | _ \<Rightarrow> None))"

definition feed_frame :: "sse_chunk \<Rightarrow> sse_scanner \<Rightarrow> sse_scanner" where
  "feed_frame fr sc = (let sc1 = (if fr_model fr = [] then sc else sc\<lparr>sc_upstream := fr_model fr\<rparr>) in
     case to_usage (fr_usage fr) of
       Some u \<Rightarrow> sc1\<lparr>sc_usage := u, sc_found := True\<rparr>
     | None \<Rightarrow> if fr_type fr \<noteq> ''response.completed'' then sc1
         else (case to_usage (fr_rusage fr) of None \<Rightarrow> sc1
           | Some u \<Rightarrow> (let sc2 = sc1\<lparr>sc_usage := u, sc_found := True\<rparr>
               in if fr_rmodel fr = [] then sc2 else sc2\<lparr>sc_upstream := fr_rmodel fr\<rparr>)))"

definition feed_line :: "string \<Rightarrow> sse_scanner \<Rightarrow> sse_scanner" where
  "feed_line line sc = (if \<not> has_prefix line ''data:'' then sc
     else (let payload = trim_space (drop 5 line) in
       if payload = [] \<or> payload = ''[DONE]'' then sc
       else (case frame_of payload of None \<Rightarrow> sc | Some fr \<Rightarrow> feed_frame fr sc)))"

definition scan_result :: "sse_scanner \<Rightarrow> usage \<times> bool" where
  "scan_result sc = ((sc_usage sc)\<lparr>us_upstream := sc_upstream sc, us_stream := True\<rparr>, sc_found sc)"

section \<open>The reader\<close>

record tee =
  te_scanner :: sse_scanner
  te_buf :: string
  te_once :: bool
  te_eof :: bool

definition new_tee :: tee where
  "new_tee = \<lparr>te_scanner = new_scanner, te_buf = [], te_once = False, te_eof = False\<rparr>"

abbreviation newline :: char where
  "newline \<equiv> CHR 0x0A"

definition trim_eol :: "string \<Rightarrow> string" where
  "trim_eol s = rev (dropWhile (\<lambda>c. c = CHR 0x0D \<or> c = newline) (rev s))"

text \<open>\<open>drainLines\<close>: whole lines go to the scanner, the rest stays in the buffer.\<close>

function drain_lines :: "string \<Rightarrow> sse_scanner \<Rightarrow> string \<times> sse_scanner" where
  "drain_lines buf sc = (case cut newline buf of None \<Rightarrow> (buf, sc)
     | Some (line, rest) \<Rightarrow> drain_lines rest (feed_line (trim_eol line) sc))"
  by pat_completeness auto
termination
  by (relation "measure (length o fst)") (auto dest!: sym [of "Some _"] cut_Some)

declare drain_lines.simps [simp del]

text \<open>The result of \<open>finish\<close> is the call of \<open>done\<close>, when there is one.\<close>

definition tee_finish :: "tee \<Rightarrow> tee \<times> (usage \<times> bool) option" where
  "tee_finish t = (if te_once t then (t, None) else (t\<lparr>te_once := True\<rparr>, Some (scan_result (te_scanner t))))"

definition tee_drain :: "string \<Rightarrow> tee \<Rightarrow> tee" where
  "tee_drain bytes t = (if bytes = [] then t
     else (let (b, sc) = drain_lines (te_buf t @ bytes) (te_scanner t) in t\<lparr>te_buf := b, te_scanner := sc\<rparr>))"

text \<open>One \<open>Read\<close> that brought these bytes and perhaps the end of the stream; the caller gets the same.\<close>

definition tee_read :: "string \<Rightarrow> bool \<Rightarrow> tee \<Rightarrow> tee \<times> (usage \<times> bool) option" where
  "tee_read bytes eof t = (let t1 = tee_drain bytes t in
     if eof then tee_finish (t1\<lparr>te_eof := True\<rparr>) else (t1, None))"

definition tee_close :: "tee \<Rightarrow> tee \<times> (usage \<times> bool) option" where
  "tee_close t = tee_finish (if \<not> te_eof t \<and> te_buf t \<noteq> []
     then t\<lparr>te_scanner := feed_line (trim_eol (te_buf t)) (te_scanner t), te_buf := []\<rparr> else t)"

section \<open>What the reader hands over\<close>

text \<open>Operations on the reader, and the calls of \<open>done\<close> that a list of them makes.\<close>

datatype tee_op = TeeRead string bool | TeeClose

fun tee_step :: "tee_op \<Rightarrow> tee \<Rightarrow> tee \<times> (usage \<times> bool) option" where
  "tee_step (TeeRead bytes eof) t = tee_read bytes eof t"
| "tee_step TeeClose t = tee_close t"

fun tee_run :: "tee_op list \<Rightarrow> tee \<Rightarrow> (usage \<times> bool) list" where
  "tee_run [] t = []"
| "tee_run (p # ps) t = (case tee_step p t of (t1, d) \<Rightarrow> (case d of None \<Rightarrow> [] | Some x \<Rightarrow> [x]) @ tee_run ps t1)"

text \<open>
  The specification keeps the whole text that went through and knows nothing of buffers: its usage is
  that of the lines ended so far, and closing before the end of the stream ends the last line.
\<close>

definition ended_lines :: "string \<Rightarrow> string list" where
  "ended_lines text = map trim_eol (butlast (split_on newline text))"

definition scan_lines :: "string list \<Rightarrow> sse_scanner" where
  "scan_lines ls = fold feed_line ls new_scanner"

record whole =
  wh_text :: string
  wh_once :: bool
  wh_eof :: bool

definition new_whole :: whole where
  "new_whole = \<lparr>wh_text = [], wh_once = False, wh_eof = False\<rparr>"

definition whole_done :: "whole \<Rightarrow> whole \<times> (usage \<times> bool) option" where
  "whole_done w = (w\<lparr>wh_once := True\<rparr>, if wh_once w then None else Some (scan_result (scan_lines (ended_lines (wh_text w)))))"

fun whole_step :: "tee_op \<Rightarrow> whole \<Rightarrow> whole \<times> (usage \<times> bool) option" where
  "whole_step (TeeRead bytes eof) w = (let w1 = w\<lparr>wh_text := wh_text w @ bytes\<rparr> in
     if eof then whole_done (w1\<lparr>wh_eof := True\<rparr>) else (w1, None))"
| "whole_step TeeClose w = whole_done (if wh_eof w \<or> last (split_on newline (wh_text w)) = [] then w
     else w\<lparr>wh_text := wh_text w @ [newline]\<rparr>)"

fun whole_run :: "tee_op list \<Rightarrow> whole \<Rightarrow> (usage \<times> bool) list" where
  "whole_run [] w = []"
| "whole_run (p # ps) w = (case whole_step p w of (w1, d) \<Rightarrow> (case d of None \<Rightarrow> [] | Some x \<Rightarrow> [x]) @ whole_run ps w1)"

lemma drain_lines_split:
  "drain_lines buf sc = (last (split_on newline buf), fold feed_line (ended_lines buf) sc)"
proof (induction buf sc rule: drain_lines.induct)
  case (1 buf sc)
  show ?case
  proof (cases "cut newline buf")
    case None
    have "newline \<notin> set s" if "cut newline s = None" for s using that by (induction s) (auto split: if_splits)
    with None have "split_on newline buf = [buf]" by (intro split_on_last)
    with None show ?thesis by (subst drain_lines.simps) (simp add: ended_lines_def)
  next
    case (Some p)
    obtain line rest where p: "p = (line, rest)" by (cases p)
    then have "split_on newline buf = line # split_on newline rest"
      using cut_Some [of newline buf] Some split_on_word [of newline] by auto
    then show ?thesis using 1 [OF Some p [symmetric]] Some p by (subst drain_lines.simps) (simp add: ended_lines_def)
  qed
qed

lemma split_on_append:
  "split_on sep (x @ y) = butlast (split_on sep x) @ split_on sep (last (split_on sep x) @ y)"
proof (induction x)
  case (Cons c x)
  obtain w ws where s: "split_on sep x = w # ws" using split_on_nonempty [of sep x] by (cases "split_on sep x") blast
  show ?case using Cons s
    by (cases ws) (auto split: list.splits)
qed simp

lemma split_on_free: "v \<in> set (split_on sep s) \<Longrightarrow> sep \<notin> set v"
  by (induction s arbitrary: v) (auto split: if_splits list.splits)

lemma split_on_tail [simp]: "split_on sep (last (split_on sep s)) = [last (split_on sep s)]"
  by (intro split_on_last split_on_free [of _ sep s]) simp

lemma last_split_newline [simp]: "last (split_on sep (s @ [sep])) = []"
proof -
  have "split_on sep (last (split_on sep s) @ sep # []) = [last (split_on sep s), []]"
    using split_on_free [of "last (split_on sep s)" sep s] split_on_word [of sep "last (split_on sep s)" "[]"] by simp
  then show ?thesis by (simp add: split_on_append [of sep s])
qed

lemma ended_lines_append: "ended_lines (x @ y) = ended_lines x @ ended_lines (last (split_on newline x) @ y)"
  by (simp add: ended_lines_def split_on_append [of newline x] butlast_append)

definition tee_of :: "whole \<Rightarrow> tee" where
  "tee_of w = \<lparr>te_scanner = scan_lines (ended_lines (wh_text w)), te_buf = last (split_on newline (wh_text w)),
     te_once = wh_once w, te_eof = wh_eof w\<rparr>"

lemma tee_drain_of: "tee_drain bytes (tee_of w) = tee_of (w\<lparr>wh_text := wh_text w @ bytes\<rparr>)"
  by (cases "bytes = []") (auto simp: tee_drain_def tee_of_def drain_lines_split scan_lines_def ended_lines_append [of "wh_text w"]
      split_on_append [of newline "wh_text w"] Let_def)

lemma tee_finish_of: "tee_finish (tee_of w) = (tee_of (fst (whole_done w)), snd (whole_done w))"
  by (simp add: tee_finish_def tee_of_def whole_done_def)

lemma tee_step_of: "tee_step p (tee_of w) = (tee_of (fst (whole_step p w)), snd (whole_step p w))"
proof (cases p)
  case (TeeRead bytes eof)
  have "(tee_of v)\<lparr>te_eof := True\<rparr> = tee_of (v\<lparr>wh_eof := True\<rparr>)" for v by (simp add: tee_of_def)
  then show ?thesis using TeeRead by (simp add: tee_read_def tee_drain_of tee_finish_of Let_def)
next
  case TeeClose
  show ?thesis
  proof (cases "wh_eof w \<or> last (split_on newline (wh_text w)) = []")
    case True
    then show ?thesis using TeeClose tee_finish_of [of w] by (auto simp: tee_close_def tee_of_def)
  next
    case False
    let ?b = "last (split_on newline (wh_text w))"
    have "newline \<notin> set ?b" by (intro split_on_free [of _ newline "wh_text w"]) simp
    then have e: "ended_lines (?b @ [newline]) = [trim_eol ?b]"
      using split_on_word [of newline ?b "[]"] by (simp add: ended_lines_def)
    have "(tee_of w)\<lparr>te_scanner := feed_line (trim_eol ?b) (te_scanner (tee_of w)), te_buf := []\<rparr>
        = tee_of (w\<lparr>wh_text := wh_text w @ [newline]\<rparr>)"
      by (simp add: tee_of_def scan_lines_def ended_lines_append [of "wh_text w"] e)
    moreover have "te_eof (tee_of w) = wh_eof w" "te_buf (tee_of w) = ?b" by (simp_all add: tee_of_def)
    ultimately have "tee_close (tee_of w) = tee_finish (tee_of (w\<lparr>wh_text := wh_text w @ [newline]\<rparr>))"
      using False by (simp only: tee_close_def) simp
    then show ?thesis using TeeClose False tee_finish_of by simp
  qed
qed

lemma tee_run_of: "tee_run ps (tee_of w) = whole_run ps w"
  by (induction ps arbitrary: w) (simp_all add: tee_step_of split: prod.splits)

lemma new_tee_of: "new_tee = tee_of new_whole"
  by (simp add: new_tee_def tee_of_def new_whole_def ended_lines_def scan_lines_def)

lemma length_tee_run:
  "length (tee_run ps new_tee) = (if \<exists>p \<in> set ps. p = TeeClose \<or> (\<exists>b. p = TeeRead b True) then 1 else 0)"
proof -
  have "length (whole_run ps w) = (if \<not> wh_once w \<and> (\<exists>p \<in> set ps. p = TeeClose \<or> (\<exists>b. p = TeeRead b True)) then 1 else 0)" for w
  proof (induction ps arbitrary: w)
    case (Cons p ps)
    then show ?case by (cases p) (simp_all add: Cons.IH whole_done_def Let_def del: length_0_conv)
  qed simp
  from this [of new_whole] show ?thesis by (simp add: new_tee_of tee_run_of) (simp add: new_whole_def)
qed

text \<open>C17: the stream reader implements its specification. Whatever the chunks in which a response arrives
  and whenever it is closed, \<open>done\<close> is called as often and with the same usage as by a reader that keeps
  the whole text and scans the lines that have ended.\<close>

theorem tee_refines_whole: "tee_run ps new_tee = whole_run ps new_whole"
  unfolding new_tee_of by (rule tee_run_of)

end
