(* ===== verification/LlmMeter.thy ===== *)
theory LlmMeter
  imports LlmUsage Approvals
begin

text \<open>
  The metering transport of model calls, \<^verbatim>\<open>libs/llm/meter.go\<close>: quota gate, request
  preparation, error mapping and the record of every call. The gate, the recorder and the next transport
  are interfaces of the code; what the meter does to them is a log of effects, in their order. The
  reference cost of a response is what \<open>parseCostHeader\<close> makes of its header (a float, not modelled).
\<close>

section \<open>Calls\<close>

record call_info =
  ci_agent :: string
  ci_session :: string
  ci_trace :: string
  ci_purpose :: string

record call_ctx =
  cc_tenant :: "string option"
  cc_info :: "call_info option"

definition call_info_from :: "call_ctx \<Rightarrow> call_info" where
  "call_info_from ctx = (case cc_info ctx of Some ci \<Rightarrow> ci
     | None \<Rightarrow> \<lparr>ci_agent = [], ci_session = [], ci_trace = [], ci_purpose = []\<rparr>)"

datatype call_status = StatusOK | StatusUpstreamError | StatusQuotaRejected | StatusAborted

fun status_text :: "call_status \<Rightarrow> string" where
  "status_text StatusOK = ''ok''"
| "status_text StatusUpstreamError = ''upstream_error''"
| "status_text StatusQuotaRejected = ''quota_rejected''"
| "status_text StatusAborted = ''aborted''"

text \<open>A body is absent, fails when it is read, or has these bytes. \<open>lq_get\<close> is \<open>GetBody\<close>: not set, failing,
  or a fresh copy of the body.\<close>

datatype call_body = NoBody | BadBody | Bytes string

record llm_request =
  lq_body :: call_body
  lq_get :: "string option option"
  lq_headers :: "string \<rightharpoonup> string"

text \<open>A response; its body is \<open>None\<close> when reading it fails.\<close>

record llm_response =
  ls_status :: int
  ls_type :: string
  ls_cost :: "int option"
  ls_body :: "string option"

datatype meter_effect = AskedGate string | SentRequest llm_request | RecordedUsage string usage call_status string

record meter =
  mt_seq :: int
  mt_failopen :: int
  mt_log :: "meter_effect list"

text \<open>What a call finds: the gate's answer for a tenant, the next transport, the meter's key and nonce and
  the time in nanoseconds.\<close>

record meter_env =
  me_gate :: "string \<Rightarrow> go_error option"
  me_next :: "llm_request \<Rightarrow> go_error + llm_response"
  me_key :: string
  me_nonce :: string
  me_now :: int

section \<open>Requests\<close>

text \<open>The model of a body that is decoded with errors ignored: the last one that is a string.\<close>

definition model_in :: "json option \<Rightarrow> string" where
  "model_in j = (case j of Some (JObj kvs) \<Rightarrow>
       (case rev (filter (\<lambda>v. as_str v \<noteq> None) (field_values ''model'' kvs)) of JStr s # _ \<Rightarrow> s | _ \<Rightarrow> [])
     | _ \<Rightarrow> [])"

definition model_of :: "llm_request \<Rightarrow> string" where
  "model_of rq = (if lq_body rq = NoBody then []
     else case lq_get rq of Some (Some s) \<Rightarrow> model_in (json_first s)
     | _ \<Rightarrow> (case lq_body rq of Bytes s \<Rightarrow> model_in (json_parse s) | _ \<Rightarrow> []))"

text \<open>A nil map has no entry \<open>stream\<close>, so the assignment below is never one to a nil map.\<close>

definition ensure_include_usage :: "string \<Rightarrow> string" where
  "ensure_include_usage body = (case json_parse body of
     Some (JObj kvs) \<Rightarrow> (let m = obj_to_map kvs in
       if map_of m ''stream'' \<noteq> Some (JBool True) then body
       else if map_of m ''stream_options'' \<noteq> None then body
       else marshal_map (map_put m (''stream_options'', JObj [(''include_usage'', JBool True)])))
   | _ \<Rightarrow> body)"

definition set_header :: "string \<Rightarrow> string \<Rightarrow> (string \<rightharpoonup> string) \<Rightarrow> (string \<rightharpoonup> string)" where
  "set_header k v h = (if v = [] then h else h(k \<mapsto> v))"

definition prepare :: "string \<Rightarrow> string \<Rightarrow> call_info \<Rightarrow> llm_request \<Rightarrow> llm_request" where
  "prepare key tenant ci rq = (let r = rq\<lparr>lq_headers :=
       set_header ''Authorization'' (if key = [] then [] else ''Bearer '' @ key)
         (set_header ''X-Airush-Trace'' (ci_trace ci) (set_header ''X-Airush-Session'' (ci_session ci)
         (set_header ''X-Airush-Agent'' (ci_agent ci) ((lq_headers rq)(''X-Airush-Tenant'' \<mapsto> tenant)))))\<rparr>
     in case lq_body rq of NoBody \<Rightarrow> r | BadBody \<Rightarrow> r\<lparr>lq_body := Bytes []\<rparr>
        | Bytes b \<Rightarrow> (let b' = ensure_include_usage b in r\<lparr>lq_body := Bytes b', lq_get := Some (Some b')\<rparr>))"

section \<open>Accounting\<close>

definition idem_key :: "string \<Rightarrow> int \<Rightarrow> string \<Rightarrow> meter \<Rightarrow> string \<times> meter" where
  "idem_key nonce now trace m = (let n = s64 (mt_seq m + 1) in
     (if trace = [] then ''notrace-'' @ nonce @ ''-'' @ int_str now @ ''-'' @ int_str n
      else trace @ ''-'' @ nonce @ ''-'' @ int_str n, m\<lparr>mt_seq := n\<rparr>))"

definition meter_log :: "meter_effect \<Rightarrow> meter \<Rightarrow> meter" where
  "meter_log x m = m\<lparr>mt_log := mt_log m @ [x]\<rparr>"

text \<open>\<open>record\<close>: a recorder that fails changes nothing for the call.\<close>

definition meter_record :: "string \<Rightarrow> usage \<Rightarrow> call_status \<Rightarrow> string \<Rightarrow> meter \<Rightarrow> meter" where
  "meter_record tenant u st idem = meter_log (RecordedUsage tenant u st idem)"

definition error_head :: "llm_response \<Rightarrow> string" where
  "error_head rs = take 4096 (or_empty (ls_body rs))"

definition map_error :: "llm_response \<Rightarrow> go_error" where
  "map_error rs = (if ls_status rs = 400 \<and> contains_str (error_head rs) ''Invalid model name''
       then api_err CodeUpstreamLlmModelUnknown
     else if ls_status rs = 504 \<or> ls_status rs = 408 then api_err CodeUpstreamLlmTimeout
     else api_wrap CodeUpstreamLlmFailed (Plain (''gateway http '' @ int_str (ls_status rs))))"

definition is_sse :: "string \<Rightarrow> bool" where
  "is_sse ct \<longleftrightarrow> has_prefix (to_lower ct) ''text/event-stream''"

text \<open>A streamed response and what its reader will record.\<close>

record pending_usage =
  pu_tenant :: string
  pu_model :: string
  pu_cost :: "int option"
  pu_idem :: string
  pu_tee :: tee

datatype metered = Replayed llm_response | Streamed llm_response pending_usage

definition tee_done :: "pending_usage \<Rightarrow> usage \<times> bool \<Rightarrow> meter \<Rightarrow> meter" where
  "tee_done p d = (if snd d then meter_record (pu_tenant p) ((fst d)\<lparr>us_model := pu_model p, us_cost := pu_cost p\<rparr>) StatusOK (pu_idem p)
     else meter_record (pu_tenant p) (no_usage\<lparr>us_model := pu_model p, us_cost := pu_cost p, us_stream := True\<rparr>)
       StatusAborted (pu_idem p))"

definition wrap_response :: "string \<Rightarrow> string \<Rightarrow> string \<Rightarrow> llm_response \<Rightarrow> meter \<Rightarrow> (go_error + metered) \<times> meter" where
  "wrap_response tenant logical idem rs m = (if is_sse (ls_type rs)
     then (Inr (Streamed rs \<lparr>pu_tenant = tenant, pu_model = logical, pu_cost = ls_cost rs, pu_idem = idem, pu_tee = new_tee\<rparr>), m)
     else case ls_body rs of
       None \<Rightarrow> (Inl (api_wrap CodeUpstreamLlmFailed (Wrapf ''read response'' (Plain ''io''))),
                meter_record tenant (no_usage\<lparr>us_model := logical\<rparr>) StatusUpstreamError idem m)
     | Some body \<Rightarrow> (Inr (Replayed rs), meter_record tenant
         ((fst (extract_json_usage body))\<lparr>us_model := logical, us_cost := ls_cost rs\<rparr>) StatusOK idem m))"

text \<open>The gate: over quota is an error of the call, a gate that cannot answer is counted and let through.\<close>

definition quota_gate :: "meter_env \<Rightarrow> string \<Rightarrow> meter \<Rightarrow> go_error option \<times> meter" where
  "quota_gate env tenant m = (let m1 = meter_log (AskedGate tenant) m in case me_gate env tenant of None \<Rightarrow> (None, m1)
     | Some er \<Rightarrow> if map_option fst (find_api er) = Some CodeQuotaExceeded then (Some er, m1)
         else (None, m1\<lparr>mt_failopen := mt_failopen m1 + 1\<rparr>))"

definition round_trip :: "meter_env \<Rightarrow> call_ctx \<Rightarrow> llm_request \<Rightarrow> meter \<Rightarrow> (go_error + metered) \<times> meter" where
  "round_trip env ctx rq m = (case tenant_from_context (cc_tenant ctx) of
     None \<Rightarrow> (Inl (api_err CodeTenantContextMissing), m)
   | Some tenant \<Rightarrow> (let ci = call_info_from ctx; (idem, m1) = idem_key (me_nonce env) (me_now env) (ci_trace ci) m;
         logical = model_of rq
       in case quota_gate env tenant m1 of
          (Some er, m3) \<Rightarrow> (Inl er, meter_record tenant (no_usage\<lparr>us_model := logical\<rparr>) StatusQuotaRejected idem m3)
        | (None, m3) \<Rightarrow> (let rq' = prepare (me_key env) tenant ci rq; m4 = meter_log (SentRequest rq') m3
            in case me_next env rq' of
              Inl er \<Rightarrow> (Inl (api_wrap CodeUpstreamLlmFailed er),
                  meter_record tenant (no_usage\<lparr>us_model := logical\<rparr>) StatusUpstreamError idem m4)
            | Inr rs \<Rightarrow> if 400 \<le> ls_status rs
                then (Inl (map_error rs), meter_record tenant (no_usage\<lparr>us_model := logical\<rparr>) StatusUpstreamError idem m4)
                else wrap_response tenant logical idem rs m4)))"

text \<open>The caller works through a streamed body.\<close>

fun read_body :: "tee_op list \<Rightarrow> pending_usage \<Rightarrow> meter \<Rightarrow> meter" where
  "read_body [] p m = m"
| "read_body (x # xs) p m = (case tee_step x (pu_tee p) of (t, d) \<Rightarrow>
     read_body xs (p\<lparr>pu_tee := t\<rparr>) (case d of None \<Rightarrow> m | Some u \<Rightarrow> tee_done p u m))"

text \<open>A call to its end.\<close>

definition metered_call :: "meter_env \<Rightarrow> call_ctx \<Rightarrow> llm_request \<Rightarrow> tee_op list \<Rightarrow> meter \<Rightarrow> (go_error + metered) \<times> meter" where
  "metered_call env ctx rq reads m = (case round_trip env ctx rq m of
     (Inr (Streamed rs p), m1) \<Rightarrow> (Inr (Streamed rs p), read_body reads p m1)
   | r \<Rightarrow> r)"

section \<open>What is recorded\<close>

definition usage_of :: "meter_effect \<Rightarrow> (string \<times> usage \<times> call_status \<times> string) option" where
  "usage_of x = (case x of RecordedUsage t u st k \<Rightarrow> Some (t, u, st, k) | _ \<Rightarrow> None)"

definition recorded :: "meter \<Rightarrow> (string \<times> usage \<times> call_status \<times> string) list" where
  "recorded m = List.map_filter usage_of (mt_log m)"

definition sent :: "meter \<Rightarrow> llm_request list" where
  "sent m = List.map_filter (\<lambda>x. case x of SentRequest rq \<Rightarrow> Some rq | _ \<Rightarrow> None) (mt_log m)"

lemma map_filter_append [simp]: "List.map_filter f (xs @ ys) = List.map_filter f xs @ List.map_filter f ys"
  by (simp add: List.map_filter_def)

lemma map_filter_Nil [simp]: "List.map_filter f [] = []"
  by (simp add: List.map_filter_def)

lemma map_filter_Cons [simp]: "List.map_filter f (x # xs) = (case f x of None \<Rightarrow> [] | Some y \<Rightarrow> [y]) @ List.map_filter f xs"
  by (auto simp: List.map_filter_def split: option.splits)

lemma recorded_log [simp]:
  "recorded (meter_log x m) = recorded m @ (case usage_of x of None \<Rightarrow> [] | Some u \<Rightarrow> [u])"
  "sent (meter_log x m) = sent m @ (case x of SentRequest rq \<Rightarrow> [rq] | _ \<Rightarrow> [])"
  "recorded (meter_record t u st k m) = recorded m @ [(t, u, st, k)]" "sent (meter_record t u st k m) = sent m"
  "mt_seq (meter_log x m) = mt_seq m" "mt_seq (meter_record t u st k m) = mt_seq m"
  by (auto simp: recorded_def sent_def meter_log_def meter_record_def usage_of_def split: meter_effect.splits)

lemma recorded_same [simp]:
  "recorded (m\<lparr>mt_failopen := n\<rparr>) = recorded m" "recorded (m\<lparr>mt_seq := n\<rparr>) = recorded m"
  "sent (m\<lparr>mt_failopen := n\<rparr>) = sent m" "sent (m\<lparr>mt_seq := n\<rparr>) = sent m"
  by (simp_all add: recorded_def sent_def)

lemma tee_done_recorded:
  "recorded (tee_done p d m) = recorded m @ [(pu_tenant p,
     if snd d then (fst d)\<lparr>us_model := pu_model p, us_cost := pu_cost p\<rparr>
     else no_usage\<lparr>us_model := pu_model p, us_cost := pu_cost p, us_stream := True\<rparr>,
     if snd d then StatusOK else StatusAborted, pu_idem p)]"
  "sent (tee_done p d m) = sent m" "mt_seq (tee_done p d m) = mt_seq m"
  by (simp_all add: tee_done_def)

lemma read_body_recorded:
  "recorded (read_body xs p m) = recorded m @ map (\<lambda>d. (pu_tenant p,
     if snd d then (fst d)\<lparr>us_model := pu_model p, us_cost := pu_cost p\<rparr>
     else no_usage\<lparr>us_model := pu_model p, us_cost := pu_cost p, us_stream := True\<rparr>,
     if snd d then StatusOK else StatusAborted, pu_idem p)) (tee_run xs (pu_tee p))
   \<and> sent (read_body xs p m) = sent m \<and> mt_seq (read_body xs p m) = mt_seq m"
proof (induction xs arbitrary: p m)
  case (Cons x xs)
  obtain t d where s: "tee_step x (pu_tee p) = (t, d)" by fastforce
  show ?case using Cons [of "p\<lparr>pu_tee := t\<rparr>"] by (cases d) (simp_all add: s tee_done_recorded)
qed simp

end
