(* ===== verification/ConsoleLlm.thy ===== *)
theory ConsoleLlm
  imports ConsoleDb LlmMeter
begin

text \<open>
  The usage ledger and the token quota: \<^verbatim>\<open>console/internal/repo/llm.go\<close>, the internal
  endpoints of \<^verbatim>\<open>svcapi/llm.go\<close>, the quota of \<^verbatim>\<open>httpapi/llm.go\<close>, and the
  client in the agent runtime's process, \<^verbatim>\<open>libs/llm/console.go\<close>, with the network between them.
\<close>

section \<open>repo/llm.go\<close>

record usage_input =
  ui_idem :: string
  ui_model :: string
  ui_upstream :: string
  ui_agent :: "string option"
  ui_session :: string
  ui_trace :: string
  ui_purpose :: string
  ui_prompt :: int
  ui_completion :: int
  ui_total :: int
  ui_cost :: "int option"
  ui_stream :: bool
  ui_status :: string

definition get_quota :: "ctdb \<Rightarrow> quota_row option" where
  "get_quota s = c_quota s"

definition upsert_quota :: "int \<Rightarrow> int \<Rightarrow> bool \<Rightarrow> quota_row ctx_body" where
  "upsert_quota now budget hard s = (case first_violation [(0 \<le> budget, CheckViolation ''llm_quotas_token_budget_check''),
       (c_known s, ForeignKeyViolation ''llm_quotas_tenant_id_fkey'')] of
     Some v \<Rightarrow> Inl (map_pg_error v)
   | None \<Rightarrow> (let q = \<lparr>qr_budget = budget, qr_hard = hard, qr_updated = now\<rparr> in Inr (q, s\<lparr>c_quota := Some q\<rparr>)))"

definition ensure_quota :: "int \<Rightarrow> int \<Rightarrow> bool ctx_body" where
  "ensure_quota now budget s = (case first_violation [(0 \<le> budget, CheckViolation ''llm_quotas_token_budget_check'')] of
     Some v \<Rightarrow> Inl (map_pg_error v)
   | None \<Rightarrow> if c_quota s \<noteq> None then Inr (False, s)
       else if \<not> c_known s then Inl (map_pg_error (ForeignKeyViolation ''llm_quotas_tenant_id_fkey''))
       else Inr (True, s\<lparr>c_quota := Some \<lparr>qr_budget = budget, qr_hard = True, qr_updated = now\<rparr>\<rparr>))"

text \<open>The first moment of the month, in UTC.\<close>

definition month_start :: "int \<Rightarrow> int" where
  "month_start t = (let day = nat t div 1000000 div 86400; (y, yd) = year_walk 1970 day; (m, md) = month_walk (month_lens y) 1 yd
     in int (day - md) * 86400000000)"

definition counted_status :: "string \<Rightarrow> bool" where
  "counted_status st \<longleftrightarrow> st = ''ok'' \<or> st = ''aborted''"

definition month_to_date :: "int \<Rightarrow> ctdb \<Rightarrow> int" where
  "month_to_date now s = sum_list (map ur_total (filter (\<lambda>r. month_start now \<le> ur_at r \<and> counted_status (ur_status r)) (c_usage s)))"

definition usage_statuses :: "string list" where
  "usage_statuses = [''ok'', ''upstream_error'', ''quota_rejected'', ''aborted'']"

definition int4 :: "int \<Rightarrow> bool" where
  "int4 n \<longleftrightarrow> - (2 ^ 31) \<le> n \<and> n < 2 ^ 31"

definition row_of_usage :: "int \<Rightarrow> usage_input \<Rightarrow> usage_row" where
  "row_of_usage now u = \<lparr>ur_idem = ui_idem u, ur_at = now, ur_model = ui_model u, ur_upstream = ui_upstream u,
     ur_agent = ui_agent u, ur_session = ui_session u, ur_trace = ui_trace u, ur_purpose = ui_purpose u,
     ur_prompt = ui_prompt u, ur_completion = ui_completion u, ur_total = ui_total u, ur_cost = ui_cost u,
     ur_stream = ui_stream u, ur_status = ui_status u\<rparr>"

text \<open>The result says whether the key was there already. The token columns are 32 bits wide; only a check
  violation gets a code.\<close>

definition insert_usage :: "int \<Rightarrow> usage_input \<Rightarrow> bool ctx_body" where
  "insert_usage now u s = (if \<not> int4 (ui_prompt u) \<or> \<not> int4 (ui_completion u) \<or> \<not> int4 (ui_total u)
       then Inl (Wrapf ''insert llm usage'' (Plain ''22003''))
     else case first_violation [(0 \<le> ui_completion u, CheckViolation ''llm_usage_completion_tokens_check''),
        (0 \<le> ui_prompt u, CheckViolation ''llm_usage_prompt_tokens_check''),
        (ui_status u \<in> set usage_statuses, CheckViolation ''llm_usage_status_check''),
        (0 \<le> ui_total u, CheckViolation ''llm_usage_total_tokens_check'')] of
      Some v \<Rightarrow> Inl (map_pg_error v)
    | None \<Rightarrow> if \<exists>r \<in> set (c_usage s). ur_idem r = ui_idem u then Inr (True, s)
        else if \<not> c_known s then Inl (Wrapf ''insert llm usage'' (Plain ''23503''))
        else Inr (False, s\<lparr>c_usage := c_usage s @ [row_of_usage now u]\<rparr>))"

record usage_bucket =
  ub_key :: string
  ub_calls :: nat
  ub_failed :: nat
  ub_prompt :: int
  ub_completion :: int
  ub_total :: int

definition usage_agg :: "(usage_row \<Rightarrow> string) \<Rightarrow> int \<Rightarrow> int \<Rightarrow> ctdb \<Rightarrow> usage_bucket list" where
  "usage_agg key lo hi s = (let rs = filter (\<lambda>r. lo \<le> ur_at r \<and> ur_at r < hi) (c_usage s)
     in map (\<lambda>k. let g = filter (\<lambda>r. key r = k) rs in
          \<lparr>ub_key = k, ub_calls = length g, ub_failed = length (filter (\<lambda>r. ur_status r \<noteq> ''ok'') g),
           ub_prompt = sum_list (map ur_prompt g), ub_completion = sum_list (map ur_completion g),
           ub_total = sum_list (map ur_total g)\<rparr>) (sort (remdups (map key rs))))"

text \<open>The UTC date of a row.\<close>

definition day_key :: "usage_row \<Rightarrow> string" where
  "day_key r = take 10 (time_text (ur_at r))"

definition usage_by_day :: "int \<Rightarrow> int \<Rightarrow> ctdb \<Rightarrow> usage_bucket list" where
  "usage_by_day = usage_agg day_key"

definition usage_by_model :: "int \<Rightarrow> int \<Rightarrow> ctdb \<Rightarrow> usage_bucket list" where
  "usage_by_model = usage_agg ur_model"

section \<open>svcapi/llm.go\<close>

text \<open>The server of the internal API has a store or none.\<close>

record svc_server =
  sx_token :: string
  sx_store :: bool

definition quota_request_of :: "(string \<times> json) list \<Rightarrow> string option" where
  "quota_request_of = str_field ''tenant_id''"

definition quota_answer :: "int \<Rightarrow> int \<Rightarrow> int \<Rightarrow> bool \<Rightarrow> console_answer" where
  "quota_answer budget used remaining hard = ConsoleJson 200 (JObj [(''budget'', JNum (int_str budget)),
     (''used'', JNum (int_str used)), (''remaining_tokens'', JNum (int_str remaining)), (''hard_stop'', JBool hard)])"

definition quota_check_tx :: "int \<Rightarrow> (console_answer \<times> bool) ctx_body" where
  "quota_check_tx now s = (case get_quota s of None \<Rightarrow> Inr ((quota_answer (- 1) 0 (- 1) False, False), s)
     | Some q \<Rightarrow> (let used = month_to_date now s
         in Inr ((quota_answer (qr_budget q) used (max (qr_budget q - used) 0) (qr_hard q),
              qr_hard q \<and> qr_budget q \<le> used), s)))"

definition llm_quota_check :: "svc_server \<Rightarrow> tx_fault \<Rightarrow> int \<Rightarrow> string \<Rightarrow> cdb \<Rightarrow> (go_error + console_answer) \<times> cdb" where
  "llm_quota_check sv flt now body d = (case decode_json [''tenant_id''] quota_request_of body of
     Inl er \<Rightarrow> (Inl er, d)
   | Inr tenant \<Rightarrow> if tenant = [] then (Inl (api_err_details CodeValidationFailed [(''tenant_id'', ''required'')]), d)
       else if \<not> sx_store sv then (Inl (api_err CodeCommonNotImplemented), d)
       else (case console_tx flt (with_tenant None tenant) (quota_check_tx now) d of
           (Inl er, d1) \<Rightarrow> (Inl er, d1)
         | (Inr (a, exceeded), d1) \<Rightarrow> if exceeded then (Inl (api_err CodeQuotaExceeded), d1) else (Inr a, d1)))"

record usage_request =
  uq_tenant :: string
  uq_idem :: string
  uq_status :: string
  uq_model :: string
  uq_upstream :: string
  uq_agent :: "string option"
  uq_session :: string
  uq_trace :: string
  uq_purpose :: string
  uq_prompt :: int
  uq_completion :: int
  uq_total :: int
  uq_cost :: "int option"
  uq_stream :: bool

definition usage_fields :: "string list" where
  "usage_fields = [''model'', ''upstream_model'', ''agent_id'', ''session_id'', ''trace_id'', ''purpose'', ''prompt_tokens'',
     ''completion_tokens'', ''total_tokens'', ''cost_ref_micro'', ''stream'']"

definition usage_request_of :: "(string \<times> json) list \<Rightarrow> usage_request option" where
  "usage_request_of kvs = (case (str_field ''tenant_id'' kvs, str_field ''idem_key'' kvs, str_field ''status'' kvs,
       sub_members ''usage'' kvs) of
     (Some t, Some k, Some st, Some us) \<Rightarrow> if \<exists>n \<in> set (map fst us). to_lower n \<notin> set usage_fields then None
       else (case (str_field ''model'' us, str_field ''upstream_model'' us, opt_str_field ''agent_id'' us,
           str_field ''session_id'' us, str_field ''trace_id'' us, str_field ''purpose'' us) of
         (Some m, Some um, Some a, Some se, Some tr, Some pu) \<Rightarrow>
           (case (int_field ''prompt_tokens'' us, int_field ''completion_tokens'' us, int_field ''total_tokens'' us,
               ptr_field as_int64 ''cost_ref_micro'' us, bool_field ''stream'' us) of
             (Some p, Some c, Some tot, Some cost, Some b) \<Rightarrow>
               Some \<lparr>uq_tenant = t, uq_idem = k, uq_status = st, uq_model = m, uq_upstream = um, uq_agent = a,
                 uq_session = se, uq_trace = tr, uq_purpose = pu, uq_prompt = p, uq_completion = c, uq_total = tot,
                 uq_cost = cost, uq_stream = b\<rparr>
           | _ \<Rightarrow> None)
       | _ \<Rightarrow> None)
   | _ \<Rightarrow> None)"

definition input_of_request :: "usage_request \<Rightarrow> usage_input" where
  "input_of_request q = \<lparr>ui_idem = uq_idem q, ui_model = uq_model q, ui_upstream = uq_upstream q, ui_agent = uq_agent q,
     ui_session = uq_session q, ui_trace = uq_trace q, ui_purpose = uq_purpose q, ui_prompt = uq_prompt q,
     ui_completion = uq_completion q, ui_total = uq_total q, ui_cost = uq_cost q, ui_stream = uq_stream q,
     ui_status = uq_status q\<rparr>"

definition usage_problem :: "usage_request \<Rightarrow> go_error option" where
  "usage_problem q = (if uq_tenant q = [] \<or> uq_idem q = [] \<or> uq_model q = []
       then Some (api_err_details CodeValidationFailed [(''tenant_id/idem_key/usage.model'', ''required'')])
     else if uq_status q \<notin> set usage_statuses then Some (api_err_details CodeValidationFailed [(''status'', ''enum'')])
     else if uq_prompt q < 0 \<or> uq_completion q < 0 \<or> uq_total q < 0
       then Some (api_err_details CodeValidationFailed [(''usage'', ''negative'')])
     else (case uq_agent q of None \<Rightarrow> None | Some a \<Rightarrow> if uuid_shape a then None
       else Some (api_err_details CodeValidationFailed [(''usage.agent_id'', ''uuid'')])))"

definition llm_usage :: "svc_server \<Rightarrow> tx_fault \<Rightarrow> int \<Rightarrow> string \<Rightarrow> cdb \<Rightarrow> (go_error + console_answer) \<times> cdb" where
  "llm_usage sv flt now body d =
     (case decode_json [''tenant_id'', ''idem_key'', ''status'', ''usage''] usage_request_of body of
        Inl er \<Rightarrow> (Inl er, d)
      | Inr q \<Rightarrow> (case usage_problem q of Some er \<Rightarrow> (Inl er, d)
        | None \<Rightarrow> if \<not> sx_store sv then (Inl (api_err CodeCommonNotImplemented), d)
            else (case console_tx flt (with_tenant None (uq_tenant q)) (insert_usage now (input_of_request q)) d of
                (Inl er, d1) \<Rightarrow> (Inl er, d1) | (Inr _, d1) \<Rightarrow> (Inr (ConsoleStatus 202), d1))))"

section \<open>httpapi/llm.go\<close>

definition get_quota_view_tx :: "int \<Rightarrow> (quota_row option \<times> int \<times> int) ctx_body" where
  "get_quota_view_tx now s = (let used = month_to_date now s in
     case get_quota s of None \<Rightarrow> Inr ((None, used, - 1), s) | Some q \<Rightarrow> Inr ((Some q, used, max (qr_budget q - used) 0), s))"

definition h_put_quota :: "tx_fault \<Rightarrow> string \<Rightarrow> int \<Rightarrow> string \<Rightarrow> cdb \<Rightarrow> (go_error + quota_row) \<times> cdb" where
  "h_put_quota flt tenant now body d = (if console_body_limit < length body
       then (Inl (api_err_details CodeValidationFailed [(''body'', ''size'')]), d)
     else case decode_strict [''token_budget'', ''hard_stop''] (\<lambda>kvs. case (ptr_field as_int64 ''token_budget'' kvs,
         ptr_field as_bool ''hard_stop'' kvs) of (Some b, Some h) \<Rightarrow> Some (b, h) | _ \<Rightarrow> None) body of
       Inl er \<Rightarrow> (Inl er, d)
     | Inr (Some b, Some h) \<Rightarrow> if b < 0 then (Inl (api_err_details CodeValidationFailed [(''token_budget'', ''negative'')]), d)
         else console_tx flt (with_tenant None tenant) (upsert_quota now b h) d
     | Inr _ \<Rightarrow> (Inl (api_err_details CodeValidationFailed [(''token_budget/hard_stop'', ''required'')]), d))"

section \<open>libs/llm/console.go\<close>

text \<open>
  The internal API as the client sees it: authorization and path, the answer's status. The network can
  lose a request, or only the answer of one that was served.
\<close>

datatype delivery = Arrives | LostRequest | LostAnswer

record attempt =
  at_delivery :: delivery
  at_fault :: tx_fault
  at_now :: int

definition answer_status :: "go_error + console_answer \<Rightarrow> nat" where
  "answer_status r = (case r of Inl er \<Rightarrow> hr_status (write_error [] er)
     | Inr (ConsoleJson st _) \<Rightarrow> st | Inr (ConsoleStatus st) \<Rightarrow> st)"

definition svc_llm :: "svc_server \<Rightarrow> string \<Rightarrow> string \<Rightarrow> attempt \<Rightarrow> string \<Rightarrow> cdb \<Rightarrow> nat \<times> cdb" where
  "svc_llm sv auth path a body d = (if auth \<noteq> ''Bearer '' @ sx_token sv then (401, d)
     else if path = ''/internal/v1/llm/quota-check''
       then (case llm_quota_check sv (at_fault a) (at_now a) body d of (r, d1) \<Rightarrow> (answer_status r, d1))
     else if path = ''/internal/v1/llm/usage''
       then (case llm_usage sv (at_fault a) (at_now a) body d of (r, d1) \<Rightarrow> (answer_status r, d1))
     else (404, d))"

definition post :: "svc_server \<Rightarrow> string \<Rightarrow> string \<Rightarrow> attempt \<Rightarrow> string \<Rightarrow> cdb \<Rightarrow> (go_error + nat) \<times> cdb" where
  "post sv token path a body d = (case at_delivery a of
     LostRequest \<Rightarrow> (Inl (Wrapf (''console '' @ path) (Plain ''net'')), d)
   | Arrives \<Rightarrow> (case svc_llm sv (''Bearer '' @ token) path a body d of (st, d1) \<Rightarrow> (Inr st, d1))
   | LostAnswer \<Rightarrow> (case svc_llm sv (''Bearer '' @ token) path a body d of (_, d1) \<Rightarrow>
       (Inl (Wrapf (''console '' @ path) (Plain ''net'')), d1)))"

definition quota_json :: "string \<Rightarrow> json" where
  "quota_json tenant = JObj [(''tenant_id'', JStr tenant)]"

definition client_check :: "svc_server \<Rightarrow> string \<Rightarrow> attempt \<Rightarrow> cdb \<Rightarrow> string \<Rightarrow> go_error option \<times> cdb" where
  "client_check sv token a d tenant = (case post sv token ''/internal/v1/llm/quota-check'' a (json_text (quota_json tenant)) d of
     (Inl er, d1) \<Rightarrow> (Some er, d1)
   | (Inr st, d1) \<Rightarrow> (if st = 200 then None else if st = 429 then Some (api_err CodeQuotaExceeded)
       else Some (Plain (''quota-check http '' @ nat_str st)), d1))"

definition usage_json :: "string \<Rightarrow> call_info \<Rightarrow> usage \<Rightarrow> call_status \<Rightarrow> string \<Rightarrow> json" where
  "usage_json tenant ci u st idem = JObj [(''tenant_id'', JStr tenant), (''idem_key'', JStr idem),
     (''status'', JStr (status_text st)), (''usage'', JObj ([(''model'', JStr (us_model u)), (''upstream_model'', JStr (us_upstream u))]
       @ omit_empty ''agent_id'' (ci_agent ci)
       @ [(''session_id'', JStr (ci_session ci)), (''trace_id'', JStr (ci_trace ci)), (''purpose'', JStr (ci_purpose ci)),
          (''prompt_tokens'', JNum (int_str (us_prompt u))), (''completion_tokens'', JNum (int_str (us_completion u))),
          (''total_tokens'', JNum (int_str (us_total u)))]
       @ (case us_cost u of None \<Rightarrow> [] | Some c \<Rightarrow> [(''cost_ref_micro'', JNum (int_str c))])
       @ [(''stream'', JBool (us_stream u))]))]"

text \<open>\<open>Record\<close>: the attempt numbered \<open>i\<close> and the \<open>n\<close> after it; the sleeps in between are kept as a list, in
  milliseconds.\<close>

fun record_loop :: "svc_server \<Rightarrow> string \<Rightarrow> (nat \<Rightarrow> attempt) \<Rightarrow> string \<Rightarrow> nat \<Rightarrow> nat \<Rightarrow> cdb
    \<Rightarrow> (go_error + unit) \<times> nat list \<times> cdb" where
  "record_loop sv token net body i n d = (case post sv token ''/internal/v1/llm/usage'' (net i) body d of
     (r, d1) \<Rightarrow> (case r of
        Inr st \<Rightarrow> if st = 202 then (Inr (), [], d1)
          else if 400 \<le> st \<and> st < 500 then (Inl (Plain (''usage record rejected http '' @ nat_str st)), [], d1)
          else (case n of 0 \<Rightarrow> (Inl (Wrapf ''usage record failed'' (Plain (''usage record http '' @ nat_str st))), [], d1)
            | Suc k \<Rightarrow> (case record_loop sv token net body (Suc i) k d1 of (x, ms, d2) \<Rightarrow> (x, (i + 1) * 200 # ms, d2)))
      | Inl er \<Rightarrow> (case n of 0 \<Rightarrow> (Inl (Wrapf ''usage record failed'' er), [], d1)
            | Suc k \<Rightarrow> (case record_loop sv token net body (Suc i) k d1 of (x, ms, d2) \<Rightarrow> (x, (i + 1) * 200 # ms, d2)))))"

declare record_loop.simps [simp del]

definition record_retries :: nat where "record_retries = 3"

definition client_record :: "svc_server \<Rightarrow> string \<Rightarrow> (nat \<Rightarrow> attempt) \<Rightarrow> cdb \<Rightarrow> string \<Rightarrow> call_info \<Rightarrow> usage \<Rightarrow> call_status
    \<Rightarrow> string \<Rightarrow> (go_error + unit) \<times> nat list \<times> cdb" where
  "client_record sv token net d tenant ci u st idem =
     record_loop sv token net (json_text (usage_json tenant ci u st idem)) 0 record_retries d"

end
