(* ===== verification/LlmProps.thy ===== *)
theory LlmProps
  imports LlmMeter
begin

text \<open>
  What the metering transport guarantees: nothing leaves without tenant and quota, every call is
  recorded once and under its own key, and the request asks for the usage that the record needs.
\<close>

section \<open>Samples\<close>

definition sample_meter_env :: meter_env where
  "sample_meter_env = \<lparr>me_gate = (\<lambda>t. if t = ''broke'' then Some (api_err CodeQuotaExceeded) else None),
     me_next = (\<lambda>_. Inr \<lparr>ls_status = 200, ls_type = ''text/event-stream'', ls_cost = None, ls_body = Some []\<rparr>),
     me_key = ''k'', me_nonce = ''0a'', me_now = 5\<rparr>"

definition sample_call_ctx :: "string \<Rightarrow> call_ctx" where
  "sample_call_ctx t = \<lparr>cc_tenant = Some t, cc_info = None\<rparr>"

definition sample_llm_request :: llm_request where
  "sample_llm_request = \<lparr>lq_body = NoBody, lq_get = None, lq_headers = Map.empty\<rparr>"

definition fresh_meter :: meter where
  "fresh_meter = \<lparr>mt_seq = 0, mt_failopen = 0, mt_log = []\<rparr>"

section \<open>The gate\<close>

definition over_quota :: "meter_env \<Rightarrow> string \<Rightarrow> bool" where
  "over_quota env t \<longleftrightarrow> (case me_gate env t of None \<Rightarrow> False | Some er \<Rightarrow> map_option fst (find_api er) = Some CodeQuotaExceeded)"

lemma round_trip_cases:
  fixes env :: meter_env and ctx :: call_ctx and m :: meter and rq :: llm_request
  assumes "tenant_from_context (cc_tenant ctx) = Some t"
  defines "k \<equiv> idem_key (me_nonce env) (me_now env) (ci_trace (call_info_from ctx)) m"
    and "rq' \<equiv> prepare (me_key env) t (call_info_from ctx) rq"
  obtains er where "me_gate env t = Some er" "over_quota env t"
      "round_trip env ctx rq m = (Inl er, meter_record t (no_usage\<lparr>us_model := model_of rq\<rparr>) StatusQuotaRejected (fst k)
         (meter_log (AskedGate t) (snd k)))"
  | er m1 where "\<not> over_quota env t" "recorded m1 = recorded m" "sent m1 = sent m @ [rq']" "mt_seq m1 = mt_seq (snd k)"
      "round_trip env ctx rq m = (Inl er, meter_record t (no_usage\<lparr>us_model := model_of rq\<rparr>) StatusUpstreamError (fst k) m1)"
  | rs m1 where "\<not> over_quota env t" "recorded m1 = recorded m" "sent m1 = sent m @ [rq']" "mt_seq m1 = mt_seq (snd k)"
      "me_next env rq' = Inr rs" "ls_status rs < 400"
      "round_trip env ctx rq m = wrap_response t (model_of rq) (fst k) rs m1"
proof -
  obtain stop m3 where q: "quota_gate env t (snd k) = (stop, m3)" by fastforce
  define m1 where "m1 = meter_log (SentRequest rq') m3"
  have sk: "recorded (snd k) = recorded m" "sent (snd k) = sent m" by (simp_all add: k_def idem_key_def Let_def)
  show thesis
  proof (cases "over_quota env t")
    case True
    with q obtain er where g: "me_gate env t = Some er" "stop = Some er" "m3 = meter_log (AskedGate t) (snd k)"
      by (auto simp: over_quota_def quota_gate_def Let_def split: option.splits if_splits)
    with assms(1) q show thesis
      by (intro that(1) [OF g(1) True]) (simp add: round_trip_def Let_def k_def case_prod_beta)
  next
    case False
    with q have st: "stop = None" by (auto simp: over_quota_def quota_gate_def Let_def split: option.splits if_splits)
    have eff: "recorded m1 = recorded m" "sent m1 = sent m @ [rq']" "mt_seq m1 = mt_seq (snd k)"
      using q sk by (auto simp: m1_def quota_gate_def usage_of_def Let_def split: option.splits if_splits)
    have rt: "round_trip env ctx rq m = (case me_next env rq' of
              Inl er \<Rightarrow> (Inl (api_wrap CodeUpstreamLlmFailed er),
                  meter_record t (no_usage\<lparr>us_model := model_of rq\<rparr>) StatusUpstreamError (fst k) m1)
            | Inr rs \<Rightarrow> if 400 \<le> ls_status rs
                then (Inl (map_error rs), meter_record t (no_usage\<lparr>us_model := model_of rq\<rparr>) StatusUpstreamError (fst k) m1)
                else wrap_response t (model_of rq) (fst k) rs m1)"
      using assms(1) q st by (simp add: round_trip_def Let_def case_prod_beta k_def m1_def rq'_def split: sum.split)
    show thesis
    proof (cases "me_next env rq'")
      case (Inl er)
      with rt show ?thesis by (intro that(2) [OF False eff]) simp
    next
      case (Inr rs)
      show ?thesis
      proof (cases "400 \<le> ls_status rs")
        case True
        with rt Inr show ?thesis by (intro that(2) [OF False eff]) simp
      next
        case False
        with rt Inr show ?thesis by (intro that(3) [OF \<open>\<not> over_quota env t\<close> eff Inr]) simp_all
      qed
    qed
  qed
qed

text \<open>C16: no model call leaves without a tenant or over quota. Without a tenant the call fails with its code
  and nothing happens; when the gate says that the quota is used up nothing is sent; and in every other
  case, a gate that cannot answer included, exactly one request is sent, attributed to the tenant.\<close>

theorem meter_gate_first:
  assumes "metered_call env ctx rq reads m = (r, m')"
  shows "case tenant_from_context (cc_tenant ctx) of
     None \<Rightarrow> r = Inl (api_err CodeTenantContextMissing) \<and> m' = m
   | Some t \<Rightarrow> if over_quota env t then (\<exists>er. me_gate env t = Some er \<and> r = Inl er) \<and> sent m' = sent m
       else \<exists>rq'. sent m' = sent m @ [rq'] \<and> lq_headers rq' ''X-Airush-Tenant'' = Some t"
proof (cases "tenant_from_context (cc_tenant ctx)")
  case None
  with assms show ?thesis by (auto simp: metered_call_def round_trip_def)
next
  case (Some t)
  let ?rq = "prepare (me_key env) t (call_info_from ctx) rq"
  have hd: "lq_headers ?rq ''X-Airush-Tenant'' = Some t"
    by (simp add: prepare_def set_header_def Let_def split: call_body.split)
  have wr: "sent (snd (wrap_response a b c d m1)) = sent m1" for a b c d m1
    by (simp add: wrap_response_def split: option.split)
  have sb: "sent m' = sent (snd (round_trip env ctx rq m)) \<and> r = fst (round_trip env ctx rq m)"
    using assms read_body_recorded by (auto simp: metered_call_def split: prod.splits sum.splits metered.splits)
  show ?thesis
    by (rule round_trip_cases [OF Some, where env = env and m = m and rq = rq]) (use Some hd sb wr in \<open>auto simp: idem_key_def Let_def\<close>)
qed

lemma meter_gate_first_witness:
  "sent (snd (metered_call sample_meter_env (sample_call_ctx ''broke'') sample_llm_request [] fresh_meter)) = []
   \<and> length (sent (snd (metered_call sample_meter_env (sample_call_ctx ''t'') sample_llm_request [] fresh_meter))) = 1"
proof -
  obtain r m where 1: "metered_call sample_meter_env (sample_call_ctx ''broke'') sample_llm_request [] fresh_meter = (r, m)" by fastforce
  obtain q n where 2: "metered_call sample_meter_env (sample_call_ctx ''t'') sample_llm_request [] fresh_meter = (q, n)" by fastforce
  from meter_gate_first [OF 1] meter_gate_first [OF 2] 1 2 show ?thesis
    by (auto simp: sample_call_ctx_def sample_meter_env_def over_quota_def tenant_from_context_def fresh_meter_def sent_def)
qed

section \<open>Accounting\<close>

lemma metered_call_recorded:
  assumes "metered_call env ctx rq reads m = (r, m')" "tenant_from_context (cc_tenant ctx) = Some t"
    and "TeeClose \<in> set reads \<or> (\<exists>b. TeeRead b True \<in> set reads)"
  shows "\<exists>u st. recorded m' = recorded m @ [(t, u, st, fst (idem_key (me_nonce env) (me_now env) (ci_trace (call_info_from ctx)) m))]
    \<and> us_model u = model_of rq \<and> mt_seq m' = s64 (mt_seq m + 1)
    \<and> (\<forall>er. r = Inl er \<longrightarrow> st = StatusQuotaRejected \<and> over_quota env t \<or> st = StatusUpstreamError)"
proof -
  let ?k = "idem_key (me_nonce env) (me_now env) (ci_trace (call_info_from ctx)) m"
  have ks: "mt_seq (snd ?k) = s64 (mt_seq m + 1)" "recorded (snd ?k) = recorded m" by (simp_all add: idem_key_def Let_def)
  show ?thesis
  proof (rule round_trip_cases [OF assms(2), where env = env and m = m and rq = rq])
    fix rs m1
    assume m1: "recorded m1 = recorded m" "mt_seq m1 = mt_seq (snd ?k)"
      and rt: "round_trip env ctx rq m = wrap_response t (model_of rq) (fst ?k) rs m1"
    show ?thesis
    proof (cases "is_sse (ls_type rs)")
      case True
      have "length (tee_run reads new_tee) = 1"
        using assms(3) length_tee_run by auto
      then obtain d where d: "tee_run reads new_tee = [d]" by (auto simp: length_Suc_conv)
      from True rt assms(1) d m1 ks show ?thesis
        by (auto simp: metered_call_def wrap_response_def read_body_recorded)
    next
      case False
      with rt assms(1) m1 ks show ?thesis by (auto simp: metered_call_def wrap_response_def split: option.splits)
    qed
  qed (use assms(1) ks in \<open>auto simp: metered_call_def usage_of_def\<close>)
qed

text \<open>C17: every model call is accounted once. A call with a tenant, whatever the gate, the upstream and the
  caller of a streamed body do, leaves exactly one more usage record when the call is over: for its tenant
  and model, under the key of the call; a rejection only when the gate says so.\<close>

theorem metered_call_recorded_once:
  assumes "metered_call env ctx rq reads m = (r, m')" "tenant_from_context (cc_tenant ctx) = Some t"
    and "TeeClose \<in> set reads \<or> (\<exists>b. TeeRead b True \<in> set reads)"
  shows "\<exists>u st. recorded m' = recorded m @ [(t, u, st, fst (idem_key (me_nonce env) (me_now env) (ci_trace (call_info_from ctx)) m))]
    \<and> us_model u = model_of rq
    \<and> (\<forall>er. r = Inl er \<longrightarrow> st = StatusQuotaRejected \<and> over_quota env t \<or> st = StatusUpstreamError)"
  using metered_call_recorded [OF assms] by blast

lemma metered_call_recorded_once_witness:
  "length (recorded (snd (metered_call sample_meter_env (sample_call_ctx ''t'') sample_llm_request [TeeRead ''x'' False, TeeClose] fresh_meter))) = 1"
proof -
  let ?c = "metered_call sample_meter_env (sample_call_ctx ''t'') sample_llm_request [TeeRead ''x'' False, TeeClose] fresh_meter"
  obtain r m where 1: "?c = (r, m)" by fastforce
  have t: "tenant_from_context (cc_tenant (sample_call_ctx ''t'')) = Some ''t''" by (simp add: sample_call_ctx_def tenant_from_context_def)
  have "recorded fresh_meter = []" by (simp add: fresh_meter_def recorded_def)
  with metered_call_recorded_once [OF 1 t] 1 show ?thesis by auto
qed

text \<open>A list of calls of one meter, each with its surroundings.\<close>

fun metered_calls :: "(meter_env \<times> call_ctx \<times> llm_request \<times> tee_op list) list \<Rightarrow> meter \<Rightarrow> meter" where
  "metered_calls [] m = m"
| "metered_calls ((env, ctx, rq, reads) # cs) m = metered_calls cs (snd (metered_call env ctx rq reads m))"

definition key_of :: "string \<times> usage \<times> call_status \<times> string \<Rightarrow> string" where
  "key_of x = snd (snd (snd x))"

definition key_numbered :: "int \<Rightarrow> string \<Rightarrow> bool" where
  "key_numbered n k \<longleftrightarrow> (\<exists>p. k = p @ CHR ''-'' # int_str n)"

lemma last_part:
  assumes "a @ sep # x = b @ sep # y" "sep \<notin> set x" "sep \<notin> set y"
  shows "x = y"
  using assms by (auto simp: append_eq_append_conv2 append_eq_Cons_conv Cons_eq_append_conv)

lemma key_numbered_unique: "key_numbered n k \<Longrightarrow> key_numbered i k \<Longrightarrow> int64_range n \<Longrightarrow> int64_range i \<Longrightarrow> 0 \<le> n \<Longrightarrow> 0 \<le> i \<Longrightarrow> n = i"
proof -
  assume k: "key_numbered n k" "key_numbered i k" and r: "int64_range n" "int64_range i" "0 \<le> n" "0 \<le> i"
  have "CHR ''-'' \<notin> set (int_str j)" if "0 \<le> j" for j
    using that nat_str_digits [of "nat j"] by (auto simp: int_str_def list_all_iff is_digit_def)
  with k r have "int_str n = int_str i" by (metis key_numbered_def last_part)
  with parse_int_str r show ?thesis by (metis option.inject)
qed

lemma idem_key_numbered: "key_numbered (s64 (mt_seq m + 1)) (fst (idem_key nonce now trace m))"
  by (auto simp: key_numbered_def idem_key_def Let_def)

lemma metered_calls_keys:
  assumes "\<forall>(env, ctx, rq, reads) \<in> set cs. tenant_from_context (cc_tenant ctx) \<noteq> None
      \<and> (TeeClose \<in> set reads \<or> (\<exists>b. TeeRead b True \<in> set reads))"
    and "0 \<le> mt_seq m" "mt_seq m + int (length cs) < 2 ^ 63"
  shows "\<exists>us. recorded (metered_calls cs m) = recorded m @ us \<and> length us = length cs
    \<and> (\<forall>i < length us. key_numbered (mt_seq m + 1 + int i) (key_of (us ! i)))"
  using assms
proof (induction cs arbitrary: m)
  case (Cons c cs)
  obtain env ctx rq reads where c: "c = (env, ctx, rq, reads)" by (cases c)
  obtain t where t: "tenant_from_context (cc_tenant ctx) = Some t" using Cons.prems(1) c by auto
  obtain r m1 where mc: "metered_call env ctx rq reads m = (r, m1)" by fastforce
  have n: "s64 (mt_seq m + 1) = mt_seq m + 1" using Cons.prems by (simp add: int64_range_def)
  have rd: "TeeClose \<in> set reads \<or> (\<exists>b. TeeRead b True \<in> set reads)" using Cons.prems(1) c by auto
  from metered_call_recorded [OF mc t rd] obtain x where
    x: "recorded m1 = recorded m @ [x]" "mt_seq m1 = mt_seq m + 1"
       "key_of x = fst (idem_key (me_nonce env) (me_now env) (ci_trace (call_info_from ctx)) m)"
    unfolding n key_of_def by fastforce
  with n idem_key_numbered have "key_numbered (mt_seq m + 1) (key_of x)" by metis
  moreover obtain us where "recorded (metered_calls cs m1) = recorded m1 @ us" "length us = length cs"
      "\<forall>i < length us. key_numbered (mt_seq m1 + 1 + int i) (key_of (us ! i))"
    using Cons.IH [of m1] Cons.prems x(2) by auto
  ultimately show ?case using x mc c
    by (intro exI [of _ "x # us"]) (auto simp: nth_Cons algebra_simps split: nat.splits)
qed simp

text \<open>Idempotency keys do not collide. The records that one meter makes have pairwise different keys, for
  any traces and tenants of the calls, as long as its counter stays within 64 bits: two calls are never
  taken for one by a ledger that drops repeated keys.\<close>

theorem idem_keys_distinct:
  assumes "\<forall>(env, ctx, rq, reads) \<in> set cs. tenant_from_context (cc_tenant ctx) \<noteq> None
      \<and> (TeeClose \<in> set reads \<or> (\<exists>b. TeeRead b True \<in> set reads))"
    and "mt_seq m = 0" "recorded m = []" "length cs < 2 ^ 63"
  shows "length (recorded (metered_calls cs m)) = length cs \<and> distinct (map key_of (recorded (metered_calls cs m)))"
proof -
  have l: "int (length cs) < 2 ^ 63" using assms(4) by (metis of_nat_less_iff of_nat_numeral of_nat_power)
  have "0 \<le> mt_seq m" "mt_seq m + int (length cs) < 2 ^ 63" using assms(2) l by simp_all
  from metered_calls_keys [OF assms(1) this] assms(2,3) obtain us where
    us: "recorded (metered_calls cs m) = us" "length us = length cs" "\<forall>i < length us. key_numbered (1 + int i) (key_of (us ! i))"
    by auto
  have "i = j" if "i < length us" "j < length us" "key_of (us ! i) = key_of (us ! j)" for i j
    using that us(2,3) l key_numbered_unique [of "1 + int i" "key_of (us ! i)" "1 + int j"]
    by (auto simp: int64_range_def)
  then show ?thesis using us(1,2) by (auto simp: distinct_conv_nth)
qed

lemma idem_keys_distinct_witness:
  "let c = (sample_meter_env, sample_call_ctx ''t'', sample_llm_request, [TeeClose])
   in distinct (map key_of (recorded (metered_calls [c, c] fresh_meter)))"
  using idem_keys_distinct [of "[(sample_meter_env, sample_call_ctx ''t'', sample_llm_request, [TeeClose]),
      (sample_meter_env, sample_call_ctx ''t'', sample_llm_request, [TeeClose])]" fresh_meter]
  by (simp add: Let_def sample_call_ctx_def tenant_from_context_def fresh_meter_def recorded_def)

section \<open>Asking for the usage\<close>

text \<open>A streamed request always asks for its usage, and nothing else of it changes. When the body is an
  object with \<open>stream\<close> true, the body that is sent has a \<open>stream_options\<close>, the caller's own where there is
  one, and all other members as they were; any other body is sent as it is; and doing it twice changes
  nothing.\<close>

theorem stream_asks_usage:
  assumes "json_parse body = Some (JObj kvs)" "map_of (rev kvs) ''stream'' = Some (JBool True)"
  shows "\<exists>kvs'. json_parse (ensure_include_usage body) = Some (JObj kvs')
      \<and> map_of (rev kvs') ''stream_options'' = Some (case map_of (rev kvs) ''stream_options'' of Some v \<Rightarrow> v
          | None \<Rightarrow> JObj [(''include_usage'', JBool True)])
      \<and> (\<forall>k. k \<noteq> ''stream_options'' \<longrightarrow> map_of (rev kvs') k = map_of (rev kvs) k)
    \<and> ensure_include_usage (ensure_include_usage body) = ensure_include_usage body"
proof -
  have of: "map_of (obj_to_map l) k = map_of (rev l) k" for l k
    using foldl_map_put [of "[]" l k] by (simp add: obj_to_map_def split: option.splits)
  show ?thesis
  proof (cases "map_of (rev kvs) ''stream_options''")
    case (Some v)
    with assms of show ?thesis by (simp add: ensure_include_usage_def)
  next
    case None
    define m where "m = map_put (obj_to_map kvs) (''stream_options'', JObj [(''include_usage'', JBool True)])"
    have d: "distinct (map fst m)" unfolding m_def by (intro map_put_distinct obj_to_map_distinct)
    have e: "ensure_include_usage body = marshal_map m"
      using assms None of by (simp add: ensure_include_usage_def m_def)
    have "wf_json (JObj (sort_key fst m))"
      using json_parse_wf [OF assms(1)] obj_to_map_wf [of kvs] by (auto simp: m_def map_put_def)
    then have p: "json_parse (marshal_map m) = Some (JObj (sort_key fst m))"
      unfolding marshal_map_def by (rule json_parse_text)
    have rev: "map_of (rev (sort_key fst m)) k = map_of m k" for k
    proof -
      have "distinct (map fst (sort_key fst m))" using d by (simp add: distinct_map)
      then have "map_of (rev (sort_key fst m)) = map_of (sort_key fst m)"
        by (intro map_of_inject_set [THEN iffD2]) (simp_all add: rev_map [symmetric])
      with map_of_sort_key [OF d] show ?thesis by simp
    qed
    have m: "map_of m k = (if k = ''stream_options'' then Some (JObj [(''include_usage'', JBool True)]) else map_of (rev kvs) k)" for k
      by (simp add: m_def map_put_of of)
    have "ensure_include_usage (marshal_map m) = marshal_map m"
      by (subst ensure_include_usage_def) (simp add: p of rev m Let_def)
    with e p rev m None show ?thesis by auto
  qed
qed

lemma stream_asks_usage_witness:
  "\<exists>kvs. json_parse (ensure_include_usage (json_text (JObj [(''stream'', JBool True)]))) = Some (JObj kvs)
     \<and> map_of (rev kvs) ''stream_options'' = Some (JObj [(''include_usage'', JBool True)])"
proof -
  let ?j = "JObj [(''stream'', JBool True)]"
  have p: "json_parse (json_text ?j) = Some ?j" by (rule json_parse_text) simp
  from stream_asks_usage [OF p] show ?thesis by auto
qed

section \<open>The last line of a stream\<close>

text \<open>A stream that ends without a line end loses its last line. When the last bytes of a stream arrive
  together with its end and no newline closes them, the reader does not scan them, although the same bytes
  read without the end and followed by a close are scanned: a complete response whose last line holds the
  usage is then recorded as aborted, with no tokens.\<close>

theorem eof_drops_last_line:
  assumes "newline \<notin> set tail" "tail \<noteq> []"
  shows "tee_run [TeeRead (text @ [newline]) False, TeeRead tail True, TeeClose] new_tee
      = [scan_result (scan_lines (ended_lines (text @ [newline])))]
    \<and> tee_run [TeeRead (text @ [newline]) False, TeeRead tail False, TeeClose] new_tee
      = [scan_result (feed_line (trim_eol tail) (scan_lines (ended_lines (text @ [newline]))))]"
proof -
  let ?a = "text @ [newline]"
  have one: "split_on newline (tail @ [newline]) = [tail, []]" using split_on_word [OF assms(1), of "[]"] by simp
  have "last (split_on newline (?a @ tail)) = tail" "ended_lines (?a @ tail) = ended_lines ?a"
    using split_on_append [of newline ?a tail] split_on_last [OF assms(1)] ended_lines_append [of ?a tail]
    by (simp_all add: ended_lines_def [of tail])
  moreover have "ended_lines ((?a @ tail) @ [newline]) = ended_lines ?a @ [trim_eol tail]"
    using calculation by (simp only: ended_lines_append [of "?a @ tail" "[newline]"]) (simp add: ended_lines_def one)
  ultimately show "tee_run [TeeRead ?a False, TeeRead tail True, TeeClose] new_tee = [scan_result (scan_lines (ended_lines ?a))]
    \<and> tee_run [TeeRead ?a False, TeeRead tail False, TeeClose] new_tee
      = [scan_result (feed_line (trim_eol tail) (scan_lines (ended_lines ?a)))]"
    using assms(2) by (simp add: new_tee_of tee_run_of whole_done_def new_whole_def scan_lines_def Let_def)
qed

definition usage_line :: string where
  "usage_line = ''data: '' @ json_text (JObj [(''usage'', JObj [(''total_tokens'', JNum ''7'')])])"

lemma eof_drops_last_line_witness:
  "\<exists>u. tee_run [TeeRead [newline] False, TeeRead usage_line True, TeeClose] new_tee = [(u, False)]
     \<and> (\<exists>v. tee_run [TeeRead [newline] False, TeeRead usage_line False, TeeClose] new_tee = [(v, True)] \<and> us_total v = 7)"
proof -
  let ?j = "JObj [(''usage'', JObj [(''total_tokens'', JNum ''7'')])]"
  have p: "json_parse (json_text ?j) = Some ?j"
    by (rule json_parse_text) (simp add: valid_num_def valid_int_part_def digits1_def valid_frac_def num_char_def is_digit_def trim_prefix_def has_prefix_def Let_def)
  have t: "newline \<notin> set usage_line" "usage_line \<noteq> []" "trim_eol usage_line = usage_line"
    "trim_space (drop 5 usage_line) = json_text ?j" "json_text ?j \<notin> {[], ''[DONE]''}" "has_prefix usage_line ''data:''"
    by code_simp+
  have "frame_of (json_text ?j) = Some \<lparr>fr_model = [], fr_usage = zero_wire\<lparr>wu_total := 7\<rparr>, fr_type = [], fr_rmodel = [], fr_rusage = zero_wire\<rparr>"
    using p by (simp add: frame_of_def struct_members_def) code_simp
  then have f: "feed_line usage_line new_scanner = new_scanner\<lparr>sc_usage := no_usage\<lparr>us_total := 7\<rparr>, sc_found := True\<rparr>"
    using t by (simp add: feed_line_def feed_frame_def to_usage_def zero_wire_def s64_def Let_def no_usage_def)
  have e: "scan_lines (ended_lines ([] @ [newline])) = new_scanner" by code_simp
  from eof_drops_last_line [OF t(1,2), of "[]"] f e t(3) show ?thesis
    by (simp add: scan_result_def new_scanner_def)
qed

end
