(* ===== verification/LlmLedger.thy ===== *)
theory LlmLedger
  imports ConsoleLlm LlmProps
begin

text \<open>
  Metering from end to end: a usage record that the client reports, over a network that loses requests
  and answers, is in the ledger once; and a quota that is used up stops the model calls.
\<close>

section \<open>What the client sends is what the server reads\<close>

definition request_of :: "string \<Rightarrow> call_info \<Rightarrow> usage \<Rightarrow> call_status \<Rightarrow> string \<Rightarrow> usage_request" where
  "request_of tenant ci u st idem = \<lparr>uq_tenant = tenant, uq_idem = idem, uq_status = status_text st, uq_model = us_model u,
     uq_upstream = us_upstream u, uq_agent = (if ci_agent ci = [] then None else Some (ci_agent ci)),
     uq_session = ci_session ci, uq_trace = ci_trace ci, uq_purpose = ci_purpose ci, uq_prompt = us_prompt u,
     uq_completion = us_completion u, uq_total = us_total u, uq_cost = us_cost u, uq_stream = us_stream u\<rparr>"

definition usage_ints :: "usage \<Rightarrow> bool" where
  "usage_ints u \<longleftrightarrow> int64_range (us_prompt u) \<and> int64_range (us_completion u) \<and> int64_range (us_total u)
     \<and> (case us_cost u of None \<Rightarrow> True | Some c \<Rightarrow> int64_range c)"

lemma field_values_simps [simp]:
  "field_values n [] = []"
  "field_values n ((k, v) # kvs) = (if to_lower k = to_lower n then [v] else []) @ field_values n kvs"
  "field_values n (xs @ ys) = field_values n xs @ field_values n ys"
  by (simp_all add: field_values_def)

lemma lower_names [simp]:
  "to_lower ''tenant_id'' = ''tenant_id''" "to_lower ''idem_key'' = ''idem_key''" "to_lower ''status'' = ''status''"
  "to_lower ''usage'' = ''usage''" "to_lower ''model'' = ''model''" "to_lower ''upstream_model'' = ''upstream_model''"
  "to_lower ''agent_id'' = ''agent_id''" "to_lower ''session_id'' = ''session_id''" "to_lower ''trace_id'' = ''trace_id''"
  "to_lower ''purpose'' = ''purpose''" "to_lower ''prompt_tokens'' = ''prompt_tokens''"
  "to_lower ''completion_tokens'' = ''completion_tokens''" "to_lower ''total_tokens'' = ''total_tokens''"
  "to_lower ''cost_ref_micro'' = ''cost_ref_micro''" "to_lower ''stream'' = ''stream''"
  by code_simp+

lemma single_field [simp]:
  "field_values n kvs = [JStr x] \<Longrightarrow> str_field n kvs = Some x"
  "field_values n kvs = [JNum (int_str i)] \<Longrightarrow> int64_range i \<Longrightarrow> int_field n kvs = Some i"
  "field_values n kvs = [JBool b] \<Longrightarrow> bool_field n kvs = Some b"
  "field_values n kvs = [JObj m] \<Longrightarrow> sub_members n kvs = Some m"
  by (simp_all add: str_field_def int_field_def bool_field_def sub_members_def dec_field_def as_str_def as_int64_def
      as_bool_def as_struct_def parse_int_str)

lemma optional_field [simp]:
  "field_values n kvs = [] \<Longrightarrow> opt_str_field n kvs = Some None"
  "field_values n kvs = [JStr x] \<Longrightarrow> opt_str_field n kvs = Some (Some x)"
  "field_values n kvs = [] \<Longrightarrow> ptr_field f n kvs = Some None"
  "field_values n kvs = [JNum (int_str i)] \<Longrightarrow> int64_range i \<Longrightarrow> ptr_field as_int64 n kvs = Some (Some i)"
  by (simp_all add: opt_str_field_def ptr_field_def dec_field_def as_str_def as_int64_def parse_int_str)

lemma usage_request_of_json:
  assumes "usage_ints u" "usage_json tenant ci u st idem = JObj kvs"
  shows "usage_request_of kvs = Some (request_of tenant ci u st idem)"
proof -
  define us where "us = [(''model'', JStr (us_model u)), (''upstream_model'', JStr (us_upstream u))]
       @ omit_empty ''agent_id'' (ci_agent ci)
       @ [(''session_id'', JStr (ci_session ci)), (''trace_id'', JStr (ci_trace ci)), (''purpose'', JStr (ci_purpose ci)),
          (''prompt_tokens'', JNum (int_str (us_prompt u))), (''completion_tokens'', JNum (int_str (us_completion u))),
          (''total_tokens'', JNum (int_str (us_total u)))]
       @ (case us_cost u of None \<Rightarrow> [] | Some c \<Rightarrow> [(''cost_ref_micro'', JNum (int_str c))])
       @ [(''stream'', JBool (us_stream u))]"
  have kvs: "kvs = [(''tenant_id'', JStr tenant), (''idem_key'', JStr idem), (''status'', JStr (status_text st)), (''usage'', JObj us)]"
    using assms(2) by (simp add: usage_json_def us_def)
  have top: "str_field ''tenant_id'' kvs = Some tenant" "str_field ''idem_key'' kvs = Some idem"
    "str_field ''status'' kvs = Some (status_text st)" "sub_members ''usage'' kvs = Some us"
    by (simp_all add: kvs)
  have names: "\<not> (\<exists>n \<in> set (map fst us). to_lower n \<notin> set usage_fields)"
    by (auto simp: us_def usage_fields_def omit_empty_def split: option.splits)
  have strs: "str_field ''model'' us = Some (us_model u)" "str_field ''upstream_model'' us = Some (us_upstream u)"
    "str_field ''session_id'' us = Some (ci_session ci)" "str_field ''trace_id'' us = Some (ci_trace ci)"
    "str_field ''purpose'' us = Some (ci_purpose ci)"
    by (rule single_field, simp add: us_def omit_empty_def split: option.split)+
  have ints: "int_field ''prompt_tokens'' us = Some (us_prompt u)" "int_field ''completion_tokens'' us = Some (us_completion u)"
    "int_field ''total_tokens'' us = Some (us_total u)"
    using assms(1) by (auto intro!: single_field simp: usage_ints_def us_def omit_empty_def split: option.split)
  have rest: "opt_str_field ''agent_id'' us = Some (if ci_agent ci = [] then None else Some (ci_agent ci))"
    "ptr_field as_int64 ''cost_ref_micro'' us = Some (us_cost u)" "bool_field ''stream'' us = Some (us_stream u)"
    using assms(1) by (auto simp: usage_ints_def us_def omit_empty_def split: option.split)
  show ?thesis unfolding usage_request_of_def top prod.case option.case if_not_P [OF names] strs ints rest
    by (simp add: request_of_def)
qed

lemma usage_body_decodes:
  assumes "usage_ints u" "length (json_text (usage_json tenant ci u st idem)) \<le> console_body_limit"
  shows "decode_json [''tenant_id'', ''idem_key'', ''status'', ''usage''] usage_request_of
      (json_text (usage_json tenant ci u st idem)) = Inr (request_of tenant ci u st idem)"
proof -
  obtain kvs where k: "usage_json tenant ci u st idem = JObj kvs" by (simp add: usage_json_def)
  have w: "wf_json (JObj kvs)"
    unfolding k [symmetric] usage_json_def omit_empty_def by (auto split: option.splits)
  have "\<forall>n \<in> set (map fst kvs). to_lower n \<in> set [''tenant_id'', ''idem_key'', ''status'', ''usage'']"
    using k by (auto simp: usage_json_def)
  from decode_strict_text [where f = usage_request_of, OF w this usage_request_of_json [OF assms(1) k]] assms(2)
  show ?thesis unfolding decode_json_def k by simp
qed

section \<open>The ledger\<close>

text \<open>What a tenant's ledger holds under a key, and everything else of the database.\<close>

definition with_key :: "string \<Rightarrow> ctdb \<Rightarrow> usage_row list" where
  "with_key k s = filter (\<lambda>r. ur_idem r = k) (c_usage s)"

definition besides_key :: "string \<Rightarrow> string \<Rightarrow> cdb \<Rightarrow> cdb \<Rightarrow> bool" where
  "besides_key t k d d' \<longleftrightarrow> (\<forall>u. u \<noteq> t \<longrightarrow> c_slice d' u = c_slice d u)
     \<and> (\<exists>us. c_slice d' t = (c_slice d t)\<lparr>c_usage := us\<rparr>
          \<and> filter (\<lambda>r. ur_idem r \<noteq> k) us = filter (\<lambda>r. ur_idem r \<noteq> k) (c_usage (c_slice d t)))"

definition row_in_ledger :: "string \<Rightarrow> usage_input \<Rightarrow> cdb \<Rightarrow> bool" where
  "row_in_ledger t i d \<longleftrightarrow> (\<exists>now. with_key (ui_idem i) (c_slice d t) = [row_of_usage now i])"

definition ledger_open :: "string \<Rightarrow> usage_input \<Rightarrow> cdb \<Rightarrow> bool" where
  "ledger_open t i d \<longleftrightarrow> with_key (ui_idem i) (c_slice d t) = [] \<or> row_in_ledger t i d"

lemma besides_key_refl [simp]: "besides_key t k d d"
  by (auto simp: besides_key_def intro!: exI [of _ "c_usage (c_slice d t)"])

lemma besides_key_trans: "besides_key t k d d1 \<Longrightarrow> besides_key t k d1 d2 \<Longrightarrow> besides_key t k d d2"
  by (fastforce simp: besides_key_def)

text \<open>One run of the usage endpoint on the client's body.\<close>

lemma llm_usage_step:
  assumes "decode_json [''tenant_id'', ''idem_key'', ''status'', ''usage''] usage_request_of body = Inr q"
    and "llm_usage sv flt now body d = (r, d1)" "ledger_open (uq_tenant q) (input_of_request q) d"
  shows "besides_key (uq_tenant q) (uq_idem q) d d1 \<and> ledger_open (uq_tenant q) (input_of_request q) d1
    \<and> (answer_status r = 202 \<longrightarrow> row_in_ledger (uq_tenant q) (input_of_request q) d1)"
proof -
  let ?t = "uq_tenant q" and ?i = "input_of_request q"
  have err: "answer_status (Inl er) \<noteq> 202" for er
  proof -
    have "mi_http (meta_of c) \<noteq> 202" for c by (cases c) (simp_all add: meta_of_def)
    then show ?thesis by (simp add: answer_status_def write_error_def write_response_def)
  qed
  show ?thesis
  proof (cases "usage_problem q = None \<and> sx_store sv")
    case False
    with assms(1,2) have "d1 = d" "\<exists>er. r = Inl er" by (auto simp: llm_usage_def split: option.splits if_splits)
    with assms(3) err show ?thesis by auto
  next
    case True
    then obtain x where x: "console_tx flt (Some ?t) (insert_usage now ?i) d = (x, d1)" and r: "r = map_sum id (\<lambda>_. ConsoleStatus 202) x"
      using assms(1,2) by (auto simp: llm_usage_def with_tenant_def split: sum.splits prod.splits)
    show ?thesis
    proof (cases x)
      case (Inl er)
      with x have "d1 = d" by (auto dest: console_tx_error)
      with assms(3) err Inl r show ?thesis by auto
    next
      case (Inr b)
      with x obtain s where s: "insert_usage now ?i (c_slice d ?t) = Inr (b, s)" "d1 = d\<lparr>c_slice := (c_slice d)(?t := s)\<rparr>"
        by (auto elim!: console_tx_Inr)
      have k: "ui_idem ?i = uq_idem q" by (simp add: input_of_request_def)
      show ?thesis
      proof (cases "\<exists>r \<in> set (c_usage (c_slice d ?t)). ur_idem r = ui_idem ?i")
        case True
        with s have "d1 = d" by (auto simp: insert_usage_def split: if_splits option.splits)
        moreover from True have "with_key (ui_idem ?i) (c_slice d ?t) \<noteq> []" by (auto simp: with_key_def filter_empty_conv)
        ultimately show ?thesis using assms(3) by (auto simp: ledger_open_def)
      next
        case False
        then have n: "with_key (ui_idem ?i) (c_slice d ?t) = []" by (auto simp: with_key_def filter_empty_conv)
        from False s have e: "s = (c_slice d ?t)\<lparr>c_usage := c_usage (c_slice d ?t) @ [row_of_usage now ?i]\<rparr>"
          by (auto simp: insert_usage_def split: if_splits option.splits)
        with n s(2) have "row_in_ledger ?t ?i d1"
          by (auto simp: row_in_ledger_def with_key_def row_of_usage_def)
        moreover have "besides_key ?t (uq_idem q) d d1"
          using e s(2) k by (auto simp: besides_key_def row_of_usage_def)
        ultimately show ?thesis by (simp add: ledger_open_def)
      qed
    qed
  qed
qed

lemma post_usage_step:
  assumes "decode_json [''tenant_id'', ''idem_key'', ''status'', ''usage''] usage_request_of body = Inr q"
    and "post sv token ''/internal/v1/llm/usage'' a body d = (r, d1)" "ledger_open (uq_tenant q) (input_of_request q) d"
  shows "besides_key (uq_tenant q) (uq_idem q) d d1 \<and> ledger_open (uq_tenant q) (input_of_request q) d1
    \<and> (r = Inr 202 \<longrightarrow> row_in_ledger (uq_tenant q) (input_of_request q) d1)"
proof -
  obtain x d2 where u: "llm_usage sv (at_fault a) (at_now a) body d = (x, d2)" by fastforce
  note step = llm_usage_step [OF assms(1) u assms(3)]
  show ?thesis using assms(2,3) step u
    by (cases "token = sx_token sv") (auto simp: post_def svc_llm_def split: delivery.splits prod.splits)
qed

lemma record_loop_step:
  assumes "decode_json [''tenant_id'', ''idem_key'', ''status'', ''usage''] usage_request_of body = Inr q"
    and "record_loop sv token net body i n d = (r, ms, d')" "ledger_open (uq_tenant q) (input_of_request q) d"
  shows "besides_key (uq_tenant q) (uq_idem q) d d' \<and> ledger_open (uq_tenant q) (input_of_request q) d'
    \<and> (r = Inr () \<longrightarrow> row_in_ledger (uq_tenant q) (input_of_request q) d') \<and> length ms \<le> n"
  using assms(2,3)
proof (induction n arbitrary: i d r ms d')
  case 0
  obtain x d1 where p: "post sv token ''/internal/v1/llm/usage'' (net i) body d = (x, d1)" by fastforce
  from post_usage_step [OF assms(1) p 0(2)] 0(1) p show ?case
    by (subst (asm) record_loop.simps) (auto split: sum.splits if_splits)
next
  case (Suc n)
  obtain x d1 where p: "post sv token ''/internal/v1/llm/usage'' (net i) body d = (x, d1)" by fastforce
  note one = post_usage_step [OF assms(1) p Suc.prems(2)]
  obtain y ys d2 where l: "record_loop sv token net body (Suc i) n d1 = (y, ys, d2)" by (metis prod_cases3)
  from one have "ledger_open (uq_tenant q) (input_of_request q) d1" by blast
  note rest = Suc.IH [OF l this]
  show ?case
  proof (cases "\<exists>st. x = Inr st \<and> (st = 202 \<or> 400 \<le> st \<and> st < 500)")
    case True
    with Suc.prems(1) p one show ?thesis by (subst (asm) record_loop.simps) (auto split: if_splits)
  next
    case False
    with Suc.prems(1) p l have "r = y" "ms = (i + 1) * 200 # ys" "d' = d2"
      by (subst (asm) record_loop.simps, auto split: sum.splits if_splits)+
    with one rest show ?thesis using besides_key_trans by (metis Suc_le_mono length_Cons)
  qed
qed

text \<open>C18: a usage report is counted once. Whatever the network loses and whichever transactions of the
  console fail during the attempts, when the client reports success the tenant's ledger holds exactly one
  row under the call's key, with the call's numbers; when it reports failure there is at most one; and no
  other row of any tenant has changed. At most three pauses are made.\<close>

theorem usage_recorded_once:
  assumes "client_record sv token net d t ci u st k = (r, ms, d')" "usage_ints u"
    and "length (json_text (usage_json t ci u st k)) \<le> console_body_limit" "with_key k (c_slice d t) = []"
  shows "besides_key t k d d' \<and> length (with_key k (c_slice d' t)) \<le> 1 \<and> length ms \<le> 3
    \<and> (r = Inr () \<longrightarrow> (\<exists>row. with_key k (c_slice d' t) = [row] \<and> ur_total row = us_total u \<and> ur_prompt row = us_prompt u
         \<and> ur_completion row = us_completion u \<and> ur_model row = us_model u \<and> ur_status row = status_text st))"
proof -
  let ?q = "request_of t ci u st k"
  have q: "uq_tenant ?q = t" "uq_idem ?q = k" "ui_idem (input_of_request ?q) = k" by (simp_all add: request_of_def input_of_request_def)
  have "ledger_open (uq_tenant ?q) (input_of_request ?q) d" using assms(4) q by (simp add: ledger_open_def)
  from record_loop_step [OF usage_body_decodes [OF assms(2,3)] assms(1) [unfolded client_record_def] this] show ?thesis
    by (auto simp: q ledger_open_def row_in_ledger_def record_retries_def)
      (auto simp: row_of_usage_def input_of_request_def request_of_def)
qed

definition sample_console :: cdb where
  "sample_console = \<lparr>c_slice = (\<lambda>_. empty_ctdb\<lparr>c_quota := Some \<lparr>qr_budget = 5, qr_hard = True, qr_updated = 0\<rparr>\<rparr>)\<rparr>"

definition sample_svc :: svc_server where
  "sample_svc = \<lparr>sx_token = ''secret'', sx_store = True\<rparr>"

definition lossy_net :: "nat \<Rightarrow> attempt" where
  "lossy_net i = \<lparr>at_delivery = (if i = 0 then LostAnswer else Arrives), at_fault = NoFault, at_now = 5\<rparr>"

abbreviation no_info :: call_info where
  "no_info \<equiv> \<lparr>ci_agent = [], ci_session = [], ci_trace = [], ci_purpose = []\<rparr>"

lemma usage_recorded_once_witness:
  "\<exists>d' row. client_record sample_svc ''secret'' lossy_net sample_console ''t'' no_info (no_usage\<lparr>us_model := ''m'', us_total := 7\<rparr>)
      StatusOK ''k'' = (Inr (), [200], d') \<and> with_key ''k'' (c_slice d' ''t'') = [row] \<and> ur_total row = 7"
proof -
  let ?u = "no_usage\<lparr>us_model := ''m'', us_total := 7\<rparr>"
  let ?b = "json_text (usage_json ''t'' no_info ?u StatusOK ''k'')"
  have i: "usage_ints ?u" by (simp add: usage_ints_def no_usage_def int64_range_def)
  have "length ?b \<le> 999" by code_simp
  then have l: "length ?b \<le> console_body_limit" by (simp add: console_body_limit_def)
  note dec = usage_body_decodes [OF i l]
  let ?q = "request_of ''t'' no_info ?u StatusOK ''k''"
  have ok: "usage_problem ?q = None" by (simp add: usage_problem_def request_of_def usage_statuses_def no_usage_def)
  let ?row = "row_of_usage 5 (input_of_request ?q)"
  let ?d1 = "sample_console\<lparr>c_slice := (c_slice sample_console)(''t'' := (c_slice sample_console ''t'')\<lparr>c_usage := [?row]\<rparr>)\<rparr>"
  have ins: "insert_usage 5 (input_of_request ?q) s = (if \<exists>r \<in> set (c_usage s). ur_idem r = ''k'' then Inr (True, s)
      else if \<not> c_known s then Inl (Wrapf ''insert llm usage'' (Plain ''23503''))
      else Inr (False, s\<lparr>c_usage := c_usage s @ [?row]\<rparr>))" for s
    by (simp add: insert_usage_def input_of_request_def request_of_def no_usage_def int4_def usage_statuses_def)
  have tn: "uq_tenant ?q = ''t''" by (simp add: request_of_def)
  have e1: "llm_usage sample_svc NoFault 5 ?b sample_console = (Inr (ConsoleStatus 202), ?d1)"
    by (simp add: llm_usage_def dec ok sample_svc_def with_tenant_def tn console_tx_ok ins) (simp add: sample_console_def empty_ctdb_def)
  have e2: "llm_usage sample_svc NoFault 5 ?b ?d1 = (Inr (ConsoleStatus 202), ?d1)"
    by (simp add: llm_usage_def dec ok sample_svc_def with_tenant_def tn console_tx_ok ins)
      (simp add: row_of_usage_def input_of_request_def request_of_def)
  have p1: "post sample_svc ''secret'' ''/internal/v1/llm/usage'' (lossy_net 0) ?b sample_console
      = (Inl (Wrapf (''console '' @ ''/internal/v1/llm/usage'') (Plain ''net'')), ?d1)"
    using e1 by (simp add: post_def lossy_net_def svc_llm_def) (simp add: sample_svc_def)
  have p2: "post sample_svc ''secret'' ''/internal/v1/llm/usage'' (lossy_net (Suc 0)) ?b ?d1 = (Inr 202, ?d1)"
    using e2 by (simp add: post_def lossy_net_def svc_llm_def) (simp add: sample_svc_def answer_status_def)
  have c: "client_record sample_svc ''secret'' lossy_net sample_console ''t'' no_info ?u StatusOK ''k'' = (Inr (), [200], ?d1)"
    unfolding client_record_def record_retries_def
    by (subst record_loop.simps, simp only: p1 prod.case sum.case, subst record_loop.simps)
      (simp add: p2 numeral_3_eq_3)
  have "with_key ''k'' (c_slice sample_console ''t'') = []" by (simp add: with_key_def sample_console_def empty_ctdb_def)
  from usage_recorded_once [OF c i l this] c show ?thesis by (auto simp: no_usage_def)
qed

section \<open>The quota\<close>

lemma quota_body_decodes:
  assumes "length (json_text (quota_json t)) \<le> console_body_limit"
  shows "decode_json [''tenant_id''] quota_request_of (json_text (quota_json t)) = Inr t"
proof -
  have "quota_request_of [(''tenant_id'', JStr t)] = Some t" by (simp add: quota_request_of_def)
  from decode_strict_text [where f = quota_request_of and names = "[''tenant_id'']", OF _ _ this] assms
  show ?thesis by (simp add: decode_json_def quota_json_def)
qed

text \<open>C19: a quota that is used up stops the tenant's model calls. When the tenant's quota is a hard one and
  the month's counted tokens have reached it, and the console answers, a call of the agent runtime whose
  gate is the console client fails with the quota error, and no request leaves.\<close>

theorem quota_enforced:
  assumes "c_quota (c_slice d t) = Some q" "qr_hard q" "qr_budget q \<le> month_to_date (at_now a) (c_slice d t)"
    and "at_delivery a = Arrives" "at_fault a = NoFault" "sx_store sv" "token = sx_token sv"
    and "t \<noteq> []" "length (json_text (quota_json t)) \<le> console_body_limit"
    and "me_gate env = (\<lambda>u. fst (client_check sv token a d u))" "cc_tenant ctx = Some t"
  shows "fst (metered_call env ctx rq reads m) = Inl (api_err CodeQuotaExceeded)
    \<and> sent (snd (metered_call env ctx rq reads m)) = sent m"
proof -
  have "llm_quota_check sv NoFault (at_now a) (json_text (quota_json t)) d = (Inl (api_err CodeQuotaExceeded), d)"
    using assms(1-3,6,8) quota_body_decodes [OF assms(9)]
    by (simp add: llm_quota_check_def with_tenant_def console_tx_ok quota_check_tx_def get_quota_def Let_def)
  moreover have "answer_status (Inl (api_err CodeQuotaExceeded)) = 429"
    by (simp add: answer_status_def write_error_def write_response_def from_error_def meta_of_def)
  ultimately have gate: "me_gate env t = Some (api_err CodeQuotaExceeded)"
    using assms(4,5,7,10) by (simp add: client_check_def post_def svc_llm_def)
  then have over: "over_quota env t" by (simp add: over_quota_def)
  have tn: "tenant_from_context (cc_tenant ctx) = Some t" using assms(8,11) by (simp add: tenant_from_context_def)
  show ?thesis
    by (rule round_trip_cases [OF tn, where env = env and m = m and rq = rq])
      (use over gate in \<open>auto simp: metered_call_def idem_key_def Let_def\<close>)
qed

lemma quota_enforced_witness:
  "let d = sample_console\<lparr>c_slice := (\<lambda>_. empty_ctdb\<lparr>c_quota := Some \<lparr>qr_budget = 0, qr_hard = True, qr_updated = 0\<rparr>\<rparr>)\<rparr>;
       env = sample_meter_env\<lparr>me_gate := (\<lambda>u. fst (client_check sample_svc ''secret'' (lossy_net 1) d u))\<rparr>
   in fst (metered_call env (sample_call_ctx ''t'') sample_llm_request [] fresh_meter) = Inl (api_err CodeQuotaExceeded)"
proof -
  have "length (json_text (quota_json ''t'')) \<le> 99" by code_simp
  then have l: "length (json_text (quota_json ''t'')) \<le> console_body_limit" by (simp add: console_body_limit_def)
  let ?d = "sample_console\<lparr>c_slice := (\<lambda>_. empty_ctdb\<lparr>c_quota := Some \<lparr>qr_budget = 0, qr_hard = True, qr_updated = 0\<rparr>\<rparr>)\<rparr>"
  show ?thesis unfolding Let_def
    by (rule quota_enforced [where t = "''t''" and sv = sample_svc and a = "lossy_net 1" and d = ?d and token = "''secret''"
          and q = "\<lparr>qr_budget = 0, qr_hard = True, qr_updated = 0\<rparr>", THEN conjunct1])
      (use l in \<open>simp_all add: lossy_net_def sample_svc_def sample_call_ctx_def month_to_date_def empty_ctdb_def\<close>)
qed

end
