(* ===== verification/MetricsJson.thy ===== *)
theory MetricsJson
  imports MetricsData LlmLedger
begin

text \<open>
  Batches and snapshots survive their way through JSON: what one end of the collection chain prints is what the
  other one reads, by lenient and by strict decoding. The float functions have to read back what they print.
\<close>

definition float_ok :: "float_ops \<Rightarrow> string \<Rightarrow> bool" where
  "float_ok fl v \<longleftrightarrow> valid_num v \<and> fl_read fl v = Some v"

text \<open>Floats that are kept as they are written.\<close>

definition text_floats :: float_ops where
  "text_floats = \<lparr>fl_read = (\<lambda>s. if valid_num s then Some s else None), fl_of_int = int_str,
     fl_to_int = (\<lambda>s. case parse_int64 s of None \<Rightarrow> 0 | Some n \<Rightarrow> n), fl_secs = id\<rparr>"

definition labels_ok :: "(string \<times> string) list \<Rightarrow> bool" where
  "labels_ok ls \<longleftrightarrow> sorted (map fst ls) \<and> distinct (map fst ls)"

definition metric_ok :: "float_ops \<Rightarrow> metric \<Rightarrow> bool" where
  "metric_ok fl m \<longleftrightarrow> float_ok fl (me_value m) \<and> labels_ok (me_labels m) \<and> stamp_ok (me_at m)"

definition batch_ok :: "float_ops \<Rightarrow> batch \<Rightarrow> bool" where
  "batch_ok fl b \<longleftrightarrow> int64_range (ba_catalog b) \<and> stamp_ok (ba_at b) \<and> list_all (metric_ok fl) (ba_metrics b)"

definition slow_query_ok :: "float_ops \<Rightarrow> slow_query \<Rightarrow> bool" where
  "slow_query_ok fl q \<longleftrightarrow> int64_range (sq_calls q) \<and> int64_range (sq_rows q) \<and> list_all (float_ok fl) [sq_total q, sq_mean q, sq_max q]"

definition table_ok :: "table_info \<Rightarrow> bool" where
  "table_ok t \<longleftrightarrow> int64_range (ti_size t) \<and> int64_range (ti_rows t)"

definition snapshot_ok :: "float_ops \<Rightarrow> snapshot \<Rightarrow> bool" where
  "snapshot_ok fl s \<longleftrightarrow> int64_range (sn_catalog s) \<and> stamp_ok (sn_at s) \<and> list_all (slow_query_ok fl) (sn_queries s)
     \<and> list_all table_ok (sn_tables s)"

section \<open>Fields\<close>

lemma metric_names [simp]:
  "to_lower ''datasource_id'' = ''datasource_id''" "to_lower ''engine_family'' = ''engine_family''"
  "to_lower ''catalog_version'' = ''catalog_version''" "to_lower ''metrics'' = ''metrics''"
  "to_lower ''collected_at'' = ''collected_at''" "to_lower ''partial'' = ''partial''" "to_lower ''missing'' = ''missing''"
  "to_lower ''name'' = ''name''" "to_lower ''value'' = ''value''" "to_lower ''unit'' = ''unit''" "to_lower ''labels'' = ''labels''"
  "to_lower ''at'' = ''at''" "to_lower ''kind'' = ''kind''" "to_lower ''capability_missing'' = ''capability_missing''"
  "to_lower ''source'' = ''source''" "to_lower ''truncated'' = ''truncated''" "to_lower ''slow_queries'' = ''slow_queries''"
  "to_lower ''tables'' = ''tables''" "to_lower ''configs'' = ''configs''" "to_lower ''query_id'' = ''query_id''"
  "to_lower ''text'' = ''text''" "to_lower ''calls'' = ''calls''" "to_lower ''total_ms'' = ''total_ms''"
  "to_lower ''mean_ms'' = ''mean_ms''" "to_lower ''max_ms'' = ''max_ms''" "to_lower ''rows'' = ''rows''"
  "to_lower ''database'' = ''database''" "to_lower ''schema'' = ''schema''" "to_lower ''columns'' = ''columns''"
  "to_lower ''indexes'' = ''indexes''" "to_lower ''size_bytes'' = ''size_bytes''" "to_lower ''row_estimate'' = ''row_estimate''"
  "to_lower ''data_type'' = ''data_type''" "to_lower ''nullable'' = ''nullable''" "to_lower ''is_unique'' = ''is_unique''"
  by code_simp+

lemma parse_stamp_text [simp]: "stamp_ok t \<Longrightarrow> parse_stamp (stamp_text t) = Some t"
proof -
  have "parse_time zero_stamp = None" by code_simp
  then have "time_text u \<noteq> zero_stamp" if "time_ok u" for u using parse_time_text [OF that] by auto
  then show "stamp_ok t \<Longrightarrow> ?thesis"
    using parse_time_text by (auto simp: parse_stamp_def stamp_text_def stamp_ok_def split: option.splits)
qed

lemma absent_field [simp]:
  "field_values n kvs = [] \<Longrightarrow> str_field n kvs = Some []"
  "field_values n kvs = [] \<Longrightarrow> bool_field n kvs = Some False"
  "field_values n kvs = [] \<Longrightarrow> list_field f n kvs = Some []"
  "field_values n kvs = [] \<Longrightarrow> dec_field g n kvs = Some None"
  by (simp_all add: str_field_def bool_field_def list_field_def dec_field_def dflt_def)

lemma those_map: "\<forall>x \<in> set xs. f (g x) = Some x \<Longrightarrow> those (map (\<lambda>x. f (g x)) xs) = Some xs"
  by (induction xs) auto

lemma present_field [simp]:
  "field_values n kvs = [JNum v] \<Longrightarrow> float_ok fl v \<Longrightarrow> float_field fl n kvs = Some v"
  "field_values n kvs = [JStr (stamp_text t)] \<Longrightarrow> stamp_ok t \<Longrightarrow> stamp_field n kvs = Some t"
  "field_values n kvs = [JNull] \<Longrightarrow> list_field f n kvs = Some []"
  "field_values n kvs = [JArr (map g xs)] \<Longrightarrow> \<forall>x \<in> set xs. f (g x) = Some x \<Longrightarrow> list_field f n kvs = Some xs"
  by (simp_all add: float_field_def stamp_field_def list_field_def dec_field_def as_float_def as_stamp_def float_ok_def dflt_def
      as_list_def as_arr_def o_def those_map split: bind_split)

lemma omit_values [simp]:
  "field_values n (omit_false k b) = (if to_lower k = to_lower n \<and> b then [JBool True] else [])"
  "field_values n (omit_str k s) = (if to_lower k = to_lower n \<and> s \<noteq> [] then [JStr s] else [])"
  "field_values n (omit_list k g xs) = (if to_lower k = to_lower n \<and> xs \<noteq> [] then [JArr (map g xs)] else [])"
  by (simp_all add: omit_false_def omit_str_def omit_list_def)

lemma maybe_field [simp]:
  "field_values n kvs = (if s \<noteq> [] then [JStr s] else []) \<Longrightarrow> str_field n kvs = Some s"
  "field_values n kvs = (if b then [JBool True] else []) \<Longrightarrow> bool_field n kvs = Some b"
  "field_values n kvs = (if xs \<noteq> [] then [JArr (map g xs)] else []) \<Longrightarrow> \<forall>x \<in> set xs. f (g x) = Some x \<Longrightarrow> list_field f n kvs = Some xs"
  by (auto split: if_splits)

lemma fields_ok_simps [simp]:
  "fields_ok st names []" "fields_ok st names ((k, v) # kvs) \<longleftrightarrow> (st \<longrightarrow> to_lower k \<in> set names) \<and> fields_ok st names kvs"
  "fields_ok st names (xs @ ys) \<longleftrightarrow> fields_ok st names xs \<and> fields_ok st names ys"
  "to_lower k \<in> set names \<Longrightarrow> fields_ok st names (omit_false k b)" "to_lower k \<in> set names \<Longrightarrow> fields_ok st names (omit_str k s)"
  "to_lower k \<in> set names \<Longrightarrow> fields_ok st names (omit_list k g zs)"
  by (auto simp: fields_ok_def omit_false_def omit_str_def omit_list_def)

lemma as_elem_obj [simp]: "as_elem f (JObj kvs) = f kvs"
  by (simp add: as_elem_def struct_members_def)

lemma as_str_elem_str [simp]: "as_str_elem (JStr s) = Some s"
  by (simp add: as_str_elem_def as_str_def)

lemma as_labels_json:
  assumes "labels_ok ls"
  shows "as_labels (JObj (map (\<lambda>(k, v). (k, JStr v)) ls)) = Some ls"
proof -
  have 1: "map (\<lambda>p. (fst p, the (as_str_elem (snd p)))) (map (\<lambda>(k, v). (k, JStr v)) ls) = ls"
    by (induction ls) auto
  have 2: "map fst (map (\<lambda>(k, v). (k, JStr v)) ls) = map fst ls" by (induction ls) auto
  have d: "distinct (map fst ls)" and s: "sort (map fst ls) = map fst ls"
    using assms by (simp_all add: labels_ok_def sorted_sort_id)
  have "map_of (rev ls) = map_of ls" using d by (subst map_of_inject_set) (simp_all add: rev_map [symmetric])
  moreover have "map (\<lambda>k. (k, the (map_of ls k))) (map fst ls) = ls"
    using d by (auto intro!: map_idI)
  moreover have "list_all (\<lambda>p. as_str_elem (snd p) \<noteq> None) (map (\<lambda>(k, v). (k, JStr v)) ls)"
    by (auto simp: list_all_iff)
  ultimately show ?thesis using d s by (simp add: as_labels_def 1 2 distinct_remdups_id del: map_map)
qed

section \<open>Round trips\<close>

lemma metric_of_json:
  assumes "metric_ok fl m"
  shows "as_elem (metric_of fl st) (metric_json m) = Some m"
proof -
  have "dec_field as_labels n kvs = Some (if me_labels m = [] then None else Some (me_labels m))"
    if "field_values n kvs = (if me_labels m = [] then [] else [JObj (map (\<lambda>(k, v). (k, JStr v)) (me_labels m))])" for n kvs
    using that as_labels_json assms by (auto simp: dec_field_def metric_ok_def)
  with assms show ?thesis by (simp add: metric_json_def metric_of_def metric_ok_def dflt_def)
qed

lemma batch_of_json:
  assumes "batch_ok fl b"
  shows "as_elem (batch_of fl st) (batch_json b) = Some b"
proof -
  have "list_field (as_elem (metric_of fl st)) n kvs = Some (ba_metrics b)"
    if "field_values n kvs = [if ba_metrics b = [] then JNull else JArr (map metric_json (ba_metrics b))]" for n kvs
    using that assms metric_of_json by (cases "ba_metrics b = []") (auto simp: batch_ok_def list_all_iff)
  with assms show ?thesis by (simp add: batch_json_def batch_of_def batch_ok_def json_int_def batch_fields_def)
qed

lemma slow_query_of_json: "slow_query_ok fl q \<Longrightarrow> as_elem (slow_query_of fl st) (slow_query_json q) = Some q"
  by (simp add: slow_query_json_def slow_query_of_def slow_query_ok_def json_int_def slow_query_fields_def)

lemma column_of_json: "as_elem (column_of st) (column_json c) = Some c"
  by (simp add: column_json_def column_of_def)

lemma index_of_json: "as_elem (index_of st) (index_json i) = Some i"
  by (simp add: index_json_def index_of_def)

lemma table_of_json: "table_ok t \<Longrightarrow> as_elem (table_of st) (table_json t) = Some t"
  by (simp add: table_json_def table_of_def table_ok_def json_int_def column_of_json index_of_json)

lemma config_of_json: "as_elem (config_of st) (config_json c) = Some c"
  by (simp add: config_json_def config_of_def)

lemma snapshot_of_json: "snapshot_ok fl s \<Longrightarrow> as_elem (snapshot_of fl st) (snapshot_json s) = Some s"
  by (simp add: snapshot_json_def snapshot_of_def snapshot_ok_def json_int_def snapshot_fields_def slow_query_of_json table_of_json
      config_of_json list_all_iff)

section \<open>What is printed is JSON\<close>

lemma wf_omit [simp]:
  "\<forall>p \<in> set (omit_false k b). wf_json (snd p)" "\<forall>p \<in> set (omit_str k s). wf_json (snd p)"
  "(\<forall>p \<in> set (omit_list k g xs). wf_json (snd p)) \<longleftrightarrow> (\<forall>x \<in> set xs. wf_json (g x))"
  by (auto simp: omit_false_def omit_str_def omit_list_def)

lemma wf_metric_json: "metric_ok fl m \<Longrightarrow> wf_json (metric_json m)"
  by (auto simp: metric_json_def metric_ok_def float_ok_def)

lemma wf_batch_json: "batch_ok fl b \<Longrightarrow> wf_json (batch_json b)"
  using wf_metric_json by (auto simp add: batch_json_def json_int_def batch_ok_def list_all_iff ball_Un)

lemma wf_entries [simp]:
  "wf_json (column_json c)" "wf_json (index_json i)" "wf_json (table_json t)" "wf_json (config_json e)"
  "slow_query_ok fl q \<Longrightarrow> wf_json (slow_query_json q)"
  by (simp_all add: column_json_def index_json_def table_json_def config_json_def slow_query_json_def slow_query_ok_def
      float_ok_def json_int_def ball_Un)

lemma wf_snapshot_json: "snapshot_ok fl s \<Longrightarrow> wf_json (snapshot_json s)"
  by (auto simp add: snapshot_json_def json_int_def snapshot_ok_def list_all_iff ball_Un)

end
