(* ===== verification/MetricsProbe.thy ===== *)
theory MetricsProbe
  imports MetricsJson
begin

text \<open>
  The probes of \<^verbatim>\<open>libs/metrics\<close>: the catalogs (\<^verbatim>\<open>catalog.go\<close>,
  \<^verbatim>\<open>snapshot_catalog.go\<close>), the registry of series (\<^verbatim>\<open>series.go\<close>), the metric probe
  (\<^verbatim>\<open>probe.go\<close>), the snapshot probe (\<^verbatim>\<open>snapshot_probe.go\<close>) and the buffer
  (\<^verbatim>\<open>sink.go\<close>). The texts of the statements are not modelled: a statement is named by its entry
  or source, and the database that answers it is a function.
\<close>

section \<open>catalog.go\<close>

record catalog_entry =
  ca_name :: string
  ca_unit :: string
  ca_alt :: bool
  ca_nullable :: bool
  ca_entity :: string

definition plain_entry :: "string \<Rightarrow> string \<Rightarrow> catalog_entry" where
  "plain_entry n u = \<lparr>ca_name = n, ca_unit = u, ca_alt = False, ca_nullable = False, ca_entity = []\<rparr>"

definition postgres_catalog :: "catalog_entry list" where
  "postgres_catalog =
    [plain_entry ''db.connections.active'' ''count'', plain_entry ''db.connections.total'' ''count'',
     plain_entry ''db.connections.max'' ''count'', plain_entry ''db.transactions.commit_total'' ''count'',
     plain_entry ''db.transactions.rollback_total'' ''count'', plain_entry ''db.cache.hit_ratio'' ''ratio'',
     plain_entry ''db.locks.waiting'' ''count'', plain_entry ''db.transactions.longest_seconds'' ''seconds'',
     plain_entry ''db.storage.size_bytes'' ''bytes'',
     (plain_entry ''db.replication.lag_seconds'' ''seconds'')\<lparr>ca_nullable := True\<rparr>,
     (plain_entry ''pg.replication.lag_bytes'' ''bytes'')\<lparr>ca_nullable := True, ca_alt := True\<rparr>]"

definition catalog_for :: "string \<Rightarrow> catalog_entry list option" where
  "catalog_for family = (if family = ''postgres'' then Some postgres_catalog else None)"

section \<open>series.go\<close>

definition entity_kind_query :: string where "entity_kind_query = ''query''"

definition slowlog_entry :: "string \<Rightarrow> string \<Rightarrow> catalog_entry" where
  "slowlog_entry n u = (plain_entry n u)\<lparr>ca_entity := entity_kind_query\<rparr>"

definition slowlog_series :: "catalog_entry list" where
  "slowlog_series =
    [slowlog_entry ''db.slowlog.calls'' ''count'', slowlog_entry ''db.slowlog.total_seconds'' ''seconds'',
     slowlog_entry ''db.slowlog.mean_seconds'' ''seconds'', slowlog_entry ''db.slowlog.max_seconds'' ''seconds'',
     slowlog_entry ''db.slowlog.rows'' ''count'']"

definition slow_query_values :: "float_ops \<Rightarrow> slow_query \<Rightarrow> (string \<times> string) list" where
  "slow_query_values fl q =
    [(''db.slowlog.calls'', fl_of_int fl (sq_calls q)), (''db.slowlog.total_seconds'', fl_secs fl (sq_total q)),
     (''db.slowlog.mean_seconds'', fl_secs fl (sq_mean q)), (''db.slowlog.max_seconds'', fl_secs fl (sq_max q)),
     (''db.slowlog.rows'', fl_of_int fl (sq_rows q))]"

text \<open>The map of all declared series: of two entries with a name the later one.\<close>

definition lookup_series :: "string \<Rightarrow> catalog_entry option" where
  "lookup_series n = map_of (rev (map (\<lambda>e. (ca_name e, e)) (postgres_catalog @ slowlog_series))) n"

definition validate_series_entity :: "string \<Rightarrow> string \<Rightarrow> go_error option" where
  "validate_series_entity n entity = (case lookup_series n of
     None \<Rightarrow> Some (Wrapf n (Plain ''undeclared series name''))
   | Some e \<Rightarrow> if entity \<noteq> [] \<and> ca_entity e = [] then Some (Wrapf n (Plain ''series carries undeclared entity''))
       else if entity = [] \<and> ca_entity e \<noteq> [] then Some (Wrapf n (Plain ''series carries undeclared entity''))
       else None)"

text \<open>\<open>sha\<close> is SHA-256 in hex.\<close>

definition entity_id_for :: "(string \<Rightarrow> string) \<Rightarrow> string \<Rightarrow> string" where
  "entity_id_for sha txt = take 16 (sha txt)"

section \<open>probe.go\<close>

datatype metric_sql = MainSql string | AltSql string

text \<open>A statement fails, returns no value, or a float.\<close>

type_synonym querier = "metric_sql \<Rightarrow> go_error + string option"

definition query_entry :: "querier \<Rightarrow> catalog_entry \<Rightarrow> string option" where
  "query_entry q e = (case q (MainSql (ca_name e)) of
     Inr v \<Rightarrow> v
   | Inl _ \<Rightarrow> if ca_alt e then (case q (AltSql (ca_name e)) of Inr v \<Rightarrow> v | Inl _ \<Rightarrow> None) else None)"

definition collect_metrics :: "querier \<Rightarrow> string \<Rightarrow> string \<Rightarrow> int \<Rightarrow> go_error + batch" where
  "collect_metrics q ds family now = (case catalog_for family of
     None \<Rightarrow> Inl (Wrapf family (Plain ''no catalog for engine family''))
   | Some entries \<Rightarrow>
      (let labels = fst (sanitize_labels [(''datasource_id'', ds)]);
           got = List.map_filter (\<lambda>e. map_option (\<lambda>v. \<lparr>me_name = ca_name e, me_value = v, me_unit = ca_unit e, me_labels = labels,
             me_at = Some now\<rparr>) (query_entry q e)) entries;
           missing = map ca_name (filter (\<lambda>e. query_entry q e = None) entries)
       in if got = [] then Inl (Plain ''collected no metrics'')
          else Inr \<lparr>ba_ds = ds, ba_family = family, ba_catalog = catalog_version, ba_metrics = got, ba_at = Some now,
            ba_partial = (missing \<noteq> []), ba_missing = missing\<rparr>))"

section \<open>snapshot_catalog.go\<close>

record snapshot_source =
  ss_name :: string
  ss_probe :: bool
  ss_check :: bool
  ss_queries :: "(string \<times> nat) list"

definition slowlog_source :: "string \<Rightarrow> snapshot_source" where
  "slowlog_source n = \<lparr>ss_name = n, ss_probe = True, ss_check = True, ss_queries = [(''slow_queries'', slowlog_top_n)]\<rparr>"

definition postgres_slowlog_sources :: "snapshot_source list" where
  "postgres_slowlog_sources = [slowlog_source ''pg_stat_statements'', slowlog_source ''dbe_perf'']"

definition postgres_schema_sources :: "snapshot_source list" where
  "postgres_schema_sources = [\<lparr>ss_name = ''pg_catalog'', ss_probe = False, ss_check = False,
     ss_queries = [(''tables'', schema_max_tables), (''columns'', 50000), (''indexes'', 20000)]\<rparr>]"

definition postgres_config_sources :: "snapshot_source list" where
  "postgres_config_sources = [\<lparr>ss_name = ''pg_settings'', ss_probe = False, ss_check = False, ss_queries = [(''configs'', 5000)]\<rparr>]"

definition snapshot_sources_for :: "string \<Rightarrow> string \<Rightarrow> snapshot_source list option" where
  "snapshot_sources_for family kind = (if family \<noteq> ''postgres'' then None
     else if kind = ''slowlog'' then Some postgres_slowlog_sources
     else if kind = ''schema'' then Some postgres_schema_sources
     else if kind = ''config'' then Some postgres_config_sources else None)"

section \<open>snapshot_probe.go\<close>

text \<open>A statement of a source, with the limit of its rows; a row maps column names to texts.\<close>

datatype source_sql = ProbeSql string | CheckSql string | RowsSql string string

type_synonym sql_row = "(string \<times> string) list"
type_synonym row_querier = "source_sql \<Rightarrow> nat \<Rightarrow> go_error + sql_row list"

definition col :: "string \<Rightarrow> sql_row \<Rightarrow> string" where
  "col name r = or_empty (map_of r name)"

definition source_available :: "row_querier \<Rightarrow> snapshot_source \<Rightarrow> bool" where
  "source_available q s \<longleftrightarrow> (ss_probe s \<longrightarrow> (case q (ProbeSql (ss_name s)) 1 of Inl _ \<Rightarrow> False | Inr rows \<Rightarrow> rows \<noteq> []))
     \<and> (ss_check s \<longrightarrow> (case q (CheckSql (ss_name s)) 1 of Inl _ \<Rightarrow> False | Inr _ \<Rightarrow> True))"

fun run_queries :: "row_querier \<Rightarrow> string \<Rightarrow> (string \<times> nat) list \<Rightarrow> go_error + (string \<times> sql_row list) list" where
  "run_queries q src [] = Inr []"
| "run_queries q src ((n, lim) # ns) = (case q (RowsSql src n) lim of
     Inl e \<Rightarrow> Inl (Wrapf n e)
   | Inr rows \<Rightarrow> (case run_queries q src ns of Inl e \<Rightarrow> Inl e | Inr rest \<Rightarrow> Inr ((n, rows) # rest)))"

definition rows_of :: "string \<Rightarrow> (string \<times> sql_row list) list \<Rightarrow> sql_row list" where
  "rows_of n res = (case map_of res n of None \<Rightarrow> [] | Some rs \<Rightarrow> rs)"

definition sp_int :: "float_ops \<Rightarrow> string \<Rightarrow> int" where
  "sp_int fl s = (case parse_int64 s of Some n \<Rightarrow> n
     | None \<Rightarrow> (case fl_read fl s of Some f \<Rightarrow> fl_to_int fl f | None \<Rightarrow> 0))"

definition sp_float :: "float_ops \<Rightarrow> string \<Rightarrow> string" where
  "sp_float fl s = (case fl_read fl s of Some f \<Rightarrow> f | None \<Rightarrow> ''0'')"

definition slow_query_of_row :: "float_ops \<Rightarrow> sql_row \<Rightarrow> slow_query" where
  "slow_query_of_row fl r = (let (txt, tr) = truncate_text (col ''text'' r) in
     \<lparr>sq_id = col ''query_id'' r, sq_text = txt, sq_cut = tr, sq_calls = sp_int fl (col ''calls'' r),
      sq_total = sp_float fl (col ''total_ms'' r), sq_mean = sp_float fl (col ''mean_ms'' r), sq_max = sp_float fl (col ''max_ms'' r),
      sq_rows = sp_int fl (col ''rows'' r), sq_database = col ''database'' r\<rparr>)"

definition parse_slow_queries :: "float_ops \<Rightarrow> sql_row list \<Rightarrow> slow_query list \<times> bool" where
  "parse_slow_queries fl rows = (let qs = map (slow_query_of_row fl) (take slowlog_top_n rows) in (qs, list_ex sq_cut qs))"

text \<open>The columns of an index definition: runes, depth of parentheses, the column being read, the columns read.\<close>

definition push_col :: "string \<Rightarrow> string list \<Rightarrow> string list" where
  "push_col cur cols = (if trim_space cur = [] then cols else cols @ [trim_space cur])"

fun index_columns :: "string list \<Rightarrow> int \<Rightarrow> string \<Rightarrow> string list \<Rightarrow> string list" where
  "index_columns [] depth cur cols = cols"
| "index_columns (r # rs) depth cur cols =
    (if r = ''('' then (if depth + 1 = 1 then index_columns rs (depth + 1) cur cols else index_columns rs (depth + 1) (cur @ r) cols)
     else if r = '')'' then (if depth - 1 = 0 then push_col cur cols else index_columns rs (depth - 1) (cur @ r) cols)
     else if r = '','' \<and> depth = 1 then index_columns rs depth [] (push_col cur cols)
     else index_columns rs depth (cur @ r) cols)"

definition parse_index_columns :: "string \<Rightarrow> string list" where
  "parse_index_columns s = index_columns (runes (dropWhile (\<lambda>c. c \<noteq> CHR ''('') s)) 0 [] []"

definition table_key :: "sql_row \<Rightarrow> string" where
  "table_key r = col ''schema'' r @ CHR 0x00 # col ''name'' r"

definition table_of_row :: "float_ops \<Rightarrow> sql_row \<Rightarrow> table_info" where
  "table_of_row fl r = \<lparr>ti_schema = col ''schema'' r, ti_name = col ''name'' r, ti_columns = [], ti_indexes = [],
     ti_size = sp_int fl (col ''size_bytes'' r), ti_rows = sp_int fl (col ''row_estimate'' r)\<rparr>"

text \<open>The place of a table: the last one with its key.\<close>

definition table_place :: "string list \<Rightarrow> string \<Rightarrow> nat option" where
  "table_place keys k = map_of (rev (zip keys [0..<length keys])) k"

definition add_to_table :: "string list \<Rightarrow> (sql_row \<Rightarrow> table_info \<Rightarrow> table_info) \<Rightarrow> sql_row \<Rightarrow> table_info list \<Rightarrow> table_info list" where
  "add_to_table keys f r ts = (case table_place keys (table_key r) of None \<Rightarrow> ts | Some i \<Rightarrow> ts[i := f r (ts ! i)])"

definition add_column :: "sql_row \<Rightarrow> table_info \<Rightarrow> table_info" where
  "add_column r t = t\<lparr>ti_columns := ti_columns t @ [\<lparr>ci_name = col ''column_name'' r, ci_type = col ''data_type'' r,
     ci_nullable = (col ''nullable'' r = ''true'')\<rparr>]\<rparr>"

definition add_index :: "sql_row \<Rightarrow> table_info \<Rightarrow> table_info" where
  "add_index r t = t\<lparr>ti_indexes := ti_indexes t @ [\<lparr>ii_name = col ''index_name'' r, ii_unique = (col ''is_unique'' r = ''true''),
     ii_columns = parse_index_columns (col ''index_def'' r)\<rparr>]\<rparr>"

definition parse_tables :: "float_ops \<Rightarrow> (string \<times> sql_row list) list \<Rightarrow> table_info list \<times> bool" where
  "parse_tables fl res = (let rows = take schema_max_tables (rows_of ''tables'' res); keys = map table_key rows;
       ts = map (table_of_row fl) rows;
       ts1 = fold (add_to_table keys add_column) (rows_of ''columns'' res) ts;
       ts2 = fold (add_to_table keys add_index) (rows_of ''indexes'' res) ts1
     in (ts2, schema_max_tables < length (rows_of ''tables'' res)))"

definition config_of_row :: "sql_row \<Rightarrow> config_entry" where
  "config_of_row r = \<lparr>ce_name = col ''name'' r, ce_value = col ''value'' r, ce_unit = col ''unit'' r, ce_source = col ''source'' r\<rparr>"

definition fill_snapshot :: "float_ops \<Rightarrow> string \<Rightarrow> (string \<times> sql_row list) list \<Rightarrow> snapshot \<Rightarrow> snapshot" where
  "fill_snapshot fl kind res s = (if kind = ''slowlog''
       then (let (qs, tr) = parse_slow_queries fl (rows_of ''slow_queries'' res) in s\<lparr>sn_queries := qs, sn_cut := tr\<rparr>)
     else if kind = ''schema'' then (let (ts, tr) = parse_tables fl res in s\<lparr>sn_tables := ts, sn_cut := tr\<rparr>)
     else if kind = ''config'' then s\<lparr>sn_configs := map config_of_row (rows_of ''configs'' res)\<rparr>
     else s)"

text \<open>A snapshot that cannot be printed counts as too large.\<close>

definition snapshot_size :: "snapshot \<Rightarrow> nat" where
  "snapshot_size s = (case marshal (snapshot_json s) of None \<Rightarrow> snapshot_max_bytes + 1 | Some t \<Rightarrow> length t)"

definition drop_tail :: "nat \<Rightarrow> nat" where
  "drop_tail n = n - (if n div 10 < 1 then 1 else n div 10)"

function enforce_size :: "snapshot \<Rightarrow> snapshot" where
  "enforce_size s = (if snapshot_size s \<le> snapshot_max_bytes then s
     else if sn_queries s \<noteq> [] then enforce_size (s\<lparr>sn_queries := take (drop_tail (length (sn_queries s))) (sn_queries s), sn_cut := True\<rparr>)
     else if sn_tables s \<noteq> [] then enforce_size (s\<lparr>sn_tables := take (drop_tail (length (sn_tables s))) (sn_tables s), sn_cut := True\<rparr>)
     else if sn_configs s \<noteq> [] then enforce_size (s\<lparr>sn_configs := take (drop_tail (length (sn_configs s))) (sn_configs s), sn_cut := True\<rparr>)
     else s)"
  by pat_completeness auto
termination
  by (relation "measure (\<lambda>s. length (sn_queries s) + length (sn_tables s) + length (sn_configs s))") (auto simp: drop_tail_def)

declare enforce_size.simps [simp del]

text \<open>The first source that is available and can be read gives the snapshot; the errors of those that could not.\<close>

fun try_sources :: "float_ops \<Rightarrow> row_querier \<Rightarrow> string \<Rightarrow> snapshot \<Rightarrow> snapshot_source list \<Rightarrow> snapshot option \<times> go_error list" where
  "try_sources fl q kind s [] = (None, [])"
| "try_sources fl q kind s (src # rest) = (if \<not> source_available q src then try_sources fl q kind s rest
     else (case run_queries q (ss_name src) (ss_queries src) of
         Inl e \<Rightarrow> (case try_sources fl q kind s rest of (r, es) \<Rightarrow> (r, Wrapf (ss_name src) e # es))
       | Inr res \<Rightarrow> (Some (enforce_size (fill_snapshot fl kind res (s\<lparr>sn_source := ss_name src\<rparr>))), [])))"

definition new_snapshot :: "string \<Rightarrow> string \<Rightarrow> string \<Rightarrow> int \<Rightarrow> snapshot" where
  "new_snapshot ds family kind now = \<lparr>sn_ds = ds, sn_family = family, sn_kind = kind, sn_catalog = catalog_version, sn_at = Some now,
     sn_missing = False, sn_source = [], sn_cut = False, sn_queries = [], sn_tables = [], sn_configs = []\<rparr>"

definition collect_snapshot :: "float_ops \<Rightarrow> row_querier \<Rightarrow> string \<Rightarrow> string \<Rightarrow> int \<Rightarrow> string \<Rightarrow> go_error + snapshot" where
  "collect_snapshot fl q ds family now kind = (if \<not> valid_snapshot_kind kind then Inl (Wrapf kind (Plain ''unsupported snapshot kind''))
     else (case snapshot_sources_for family kind of
        None \<Rightarrow> Inl (Wrapf kind (Plain ''no snapshot catalog for engine family''))
      | Some sources \<Rightarrow> (case try_sources fl q kind (new_snapshot ds family kind now) sources of
          (Some s, _) \<Rightarrow> Inr s
        | (None, e # es) \<Rightarrow> Inl (Wrapf kind e)
        | (None, []) \<Rightarrow> Inr ((new_snapshot ds family kind now)\<lparr>sn_missing := True\<rparr>))))"

section \<open>sink.go\<close>

record buffer_sink =
  bs_capacity :: nat
  bs_batches :: "batch list"
  bs_total :: nat
  bs_snapshots :: "snapshot list"
  bs_snapshot_total :: nat

definition new_buffer_sink :: "int \<Rightarrow> buffer_sink" where
  "new_buffer_sink cap = \<lparr>bs_capacity = nat (if cap \<le> 0 then 128 else cap), bs_batches = [], bs_total = 0, bs_snapshots = [],
     bs_snapshot_total = 0\<rparr>"

definition keep_last :: "nat \<Rightarrow> 'a list \<Rightarrow> 'a list" where
  "keep_last n xs = (if n < length xs then drop (length xs - n) xs else xs)"

definition buffer_publish :: "batch \<Rightarrow> buffer_sink \<Rightarrow> buffer_sink" where
  "buffer_publish b s = s\<lparr>bs_total := bs_total s + 1, bs_batches := keep_last (bs_capacity s) (bs_batches s @ [b])\<rparr>"

definition buffer_publish_snapshot :: "snapshot \<Rightarrow> buffer_sink \<Rightarrow> buffer_sink" where
  "buffer_publish_snapshot x s = s\<lparr>bs_snapshot_total := bs_snapshot_total s + 1,
     bs_snapshots := keep_last (bs_capacity s) (bs_snapshots s @ [x])\<rparr>"

definition buffer_latest :: "buffer_sink \<Rightarrow> batch option" where
  "buffer_latest s = (if bs_batches s = [] then None else Some (last (bs_batches s)))"

definition latest_snapshot_of :: "string \<Rightarrow> buffer_sink \<Rightarrow> snapshot option" where
  "latest_snapshot_of kind s = select_one (\<lambda>x. sn_kind x = kind) (rev (bs_snapshots s))"

end
