(* ===== verification/MetricsProps.thy ===== *)
theory MetricsProps
  imports MetricsProbe "HOL-Library.Sublist"
begin

text \<open>
  What the probes promise: a batch partitions its catalog into measured and missing metrics, all of them declared;
  a snapshot comes from the first source that works and fits its limits.
\<close>

section \<open>Batches\<close>

lemma map_filter_names:
  "map h (List.map_filter (\<lambda>e. map_option (g e) (f e)) es) = map (\<lambda>e. h (g e (the (f e)))) (filter (\<lambda>e. f e \<noteq> None) es)"
  by (induction es) (auto simp: List.map_filter_simps)

lemma catalog_declared: "list_all (\<lambda>e. validate_series_entity (ca_name e) [] = None) postgres_catalog"
  by code_simp

lemma labels_kept: "fst (sanitize_labels [(''datasource_id'', ds)]) = [(''datasource_id'', ds)]"
  by (simp add: sanitize_labels_def allowed_label_key_def allowed_label_keys_def)

lemma catalog_for_Some: "catalog_for family = Some es \<longleftrightarrow> family = ''postgres'' \<and> es = postgres_catalog"
  by (auto simp: catalog_for_def)

text \<open>A batch of the metric probe measures a nonempty part of the engine's catalog, in order, and lists the
  rest as missing; it is partial exactly when something is missing, its only label is the datasource, and every
  metric in it is a declared series without an entity, so the store never refuses it.\<close>

theorem probe_batch:
  assumes "collect_metrics q ds family now = Inr b"
  shows "map me_name (ba_metrics b) = filter (\<lambda>n. n \<notin> set (ba_missing b)) (map ca_name postgres_catalog)
    \<and> set (ba_missing b) \<subseteq> ca_name ` set postgres_catalog \<and> ba_metrics b \<noteq> [] \<and> (ba_partial b \<longleftrightarrow> ba_missing b \<noteq> [])
    \<and> ba_ds b = ds \<and> (\<forall>m \<in> set (ba_metrics b). me_labels m = [(''datasource_id'', ds)] \<and> validate_series_entity (me_name m) [] = None)"
proof -
  define ms where "ms = List.map_filter (\<lambda>e. map_option (\<lambda>v. \<lparr>me_name = ca_name e, me_value = v, me_unit = ca_unit e,
      me_labels = [(''datasource_id'', ds)], me_at = Some now\<rparr>) (query_entry q e)) postgres_catalog"
  define mi where "mi = map ca_name (filter (\<lambda>e. query_entry q e = None) postgres_catalog)"
  have b: "ba_metrics b = ms" "ba_missing b = mi" "ms \<noteq> []" "ba_partial b \<longleftrightarrow> mi \<noteq> []" "ba_ds b = ds"
    using assms by (auto simp: collect_metrics_def ms_def mi_def catalog_for_Some labels_kept Let_def split: option.splits if_splits)
  have dn: "distinct (map ca_name postgres_catalog)" by code_simp
  have names: "map me_name ms = map ca_name (filter (\<lambda>e. query_entry q e \<noteq> None) postgres_catalog)"
    unfolding ms_def by (subst map_filter_names) simp
  have "e \<in> set postgres_catalog \<Longrightarrow> ca_name e \<in> set mi \<longleftrightarrow> query_entry q e = None" for e
    using dn by (auto simp: mi_def distinct_map inj_on_def)
  then have "map ca_name (filter (\<lambda>e. query_entry q e \<noteq> None) postgres_catalog)
      = filter (\<lambda>n. n \<notin> set mi) (map ca_name postgres_catalog)"
    by (auto simp: filter_map o_def intro!: arg_cong [where f = "map ca_name"] filter_cong)
  moreover have "m \<in> set ms \<Longrightarrow> me_labels m = [(''datasource_id'', ds)]" for m
    by (auto simp: ms_def List.map_filter_def)
  moreover have "m \<in> set ms \<Longrightarrow> me_name m \<in> ca_name ` set postgres_catalog" for m
    by (auto simp: ms_def List.map_filter_def)
  moreover have "n \<in> ca_name ` set postgres_catalog \<Longrightarrow> validate_series_entity n [] = None" for n
    using catalog_declared by (auto simp: list_all_iff)
  moreover have "set mi \<subseteq> ca_name ` set postgres_catalog" by (auto simp: mi_def)
  ultimately show ?thesis using b names by auto
qed

lemma probe_batch_witness:
  "\<exists>b. collect_metrics (\<lambda>s. if s = MainSql ''db.connections.max'' then Inr (Some ''100'') else Inl NoRows) ''d'' ''postgres'' 7 = Inr b
     \<and> length (ba_metrics b) = 1 \<and> ba_partial b \<and> validate_series_entity (me_name (hd (ba_metrics b))) [] = None"
proof -
  let ?q = "\<lambda>s. if s = MainSql ''db.connections.max'' then Inr (Some ''100'') else Inl NoRows"
  obtain b where b: "collect_metrics ?q ''d'' ''postgres'' 7 = Inr b" "length (ba_metrics b) = 1"
    by (simp add: collect_metrics_def catalog_for_def postgres_catalog_def plain_entry_def query_entry_def List.map_filter_simps Let_def)
  from probe_batch [OF b(1)] b have "hd (ba_metrics b) \<in> set (ba_metrics b)" by simp
  moreover have "ba_missing b \<noteq> []"
  proof
    assume "ba_missing b = []"
    with probe_batch [OF b(1)] have "length (map me_name (ba_metrics b)) = length (map ca_name postgres_catalog)" by simp
    with b(2) show False by (simp add: postgres_catalog_def)
  qed
  ultimately show ?thesis using probe_batch [OF b(1)] b by blast
qed

section \<open>Snapshots\<close>

text \<open>What the size limit leaves of a snapshot.\<close>

definition shortened :: "snapshot \<Rightarrow> snapshot \<Rightarrow> bool" where
  "shortened r s \<longleftrightarrow> prefix (sn_queries r) (sn_queries s) \<and> prefix (sn_tables r) (sn_tables s) \<and> prefix (sn_configs r) (sn_configs s)
     \<and> sn_source r = sn_source s \<and> sn_missing r = sn_missing s \<and> sn_ds r = sn_ds s \<and> sn_kind r = sn_kind s \<and> (sn_cut r \<or> r = s)"

lemma shortened_refl: "shortened s s"
  by (simp add: shortened_def)

lemma shortened_trans: "shortened r s \<Longrightarrow> shortened s t \<Longrightarrow> sn_cut s \<Longrightarrow> shortened r t"
  by (auto simp: shortened_def intro: prefix_order.trans)

lemma enforce_size_result:
  "(snapshot_size (enforce_size s) \<le> snapshot_max_bytes \<or>
      sn_queries (enforce_size s) = [] \<and> sn_tables (enforce_size s) = [] \<and> sn_configs (enforce_size s) = [])
    \<and> shortened (enforce_size s) s"
proof (induction s rule: enforce_size.induct)
  case (1 s)
  have q: "shortened (s\<lparr>sn_queries := take n (sn_queries s), sn_cut := True\<rparr>) s"
    "shortened (s\<lparr>sn_tables := take n (sn_tables s), sn_cut := True\<rparr>) s"
    "shortened (s\<lparr>sn_configs := take n (sn_configs s), sn_cut := True\<rparr>) s" for n
    by (simp_all add: shortened_def take_is_prefix)
  consider "snapshot_size s \<le> snapshot_max_bytes" | "\<not> snapshot_size s \<le> snapshot_max_bytes" "sn_queries s \<noteq> []"
    | "\<not> snapshot_size s \<le> snapshot_max_bytes" "sn_queries s = []" "sn_tables s \<noteq> []"
    | "\<not> snapshot_size s \<le> snapshot_max_bytes" "sn_queries s = []" "sn_tables s = []" "sn_configs s \<noteq> []"
    | "\<not> snapshot_size s \<le> snapshot_max_bytes" "sn_queries s = []" "sn_tables s = []" "sn_configs s = []" by blast
  then show ?case
  proof cases
    case 1
    then show ?thesis by (simp add: enforce_size.simps [of s] shortened_refl)
  next
    case 2
    with "1.IH"(1) q(1) show ?thesis by (simp add: enforce_size.simps [of s]) (rule shortened_trans, auto)
  next
    case 3
    with "1.IH"(2) q(2) show ?thesis by (simp add: enforce_size.simps [of s]) (rule shortened_trans, auto)
  next
    case 4
    with "1.IH"(3) q(3) show ?thesis by (simp add: enforce_size.simps [of s]) (rule shortened_trans, auto)
  next
    case 5
    then show ?thesis by (simp add: enforce_size.simps [of s] shortened_refl)
  qed
qed

lemma prefix_length: "prefix xs ys \<Longrightarrow> length ys \<le> n \<Longrightarrow> length xs \<le> n"
  using prefix_length_le by fastforce

lemma fold_length: "(\<And>x ts. length (f x ts) = length ts) \<Longrightarrow> length (fold f xs ts) = length ts"
  by (induction xs arbitrary: ts) auto

lemma parse_tables_length: "length (fst (parse_tables fl res)) \<le> schema_max_tables"
  by (simp add: parse_tables_def Let_def fold_length add_to_table_def split: option.splits)

text \<open>The first source that is available and answers, and what it answers.\<close>

definition first_working :: "row_querier \<Rightarrow> snapshot_source list \<Rightarrow> (string \<times> (string \<times> sql_row list) list) option" where
  "first_working q srcs = (case select_one (\<lambda>x. source_available q x \<and> \<not> isl (run_queries q (ss_name x) (ss_queries x))) srcs of
     None \<Rightarrow> None | Some x \<Rightarrow> Some (ss_name x, projr (run_queries q (ss_name x) (ss_queries x))))"

lemma try_sources_first:
  "fst (try_sources fl q kind s srcs) = map_option (\<lambda>(n, res). enforce_size (fill_snapshot fl kind res (s\<lparr>sn_source := n\<rparr>))) (first_working q srcs)"
  "first_working q srcs = None \<Longrightarrow> snd (try_sources fl q kind s srcs) = [] \<longleftrightarrow> list_all (\<lambda>x. \<not> source_available q x) srcs"
  by (induction srcs) (auto simp: first_working_def row_simps split: sum.splits prod.splits option.splits)

text \<open>A snapshot of the probe comes from the first source that is available and answers all its statements,
  and names it; it fits the size limit or has no entries left, a list in it is a prefix of what the source gave, and
  it is marked truncated when anything was cut for size; slow queries and tables stay below their numbers. When no
  source is available at all the probe still succeeds, with an empty snapshot marked as lacking the capability.\<close>

theorem probe_snapshot:
  assumes "collect_snapshot fl q ds ''postgres'' now kind = Inr s"
  shows "(snapshot_size s \<le> snapshot_max_bytes \<or> sn_queries s = [] \<and> sn_tables s = [] \<and> sn_configs s = [])
    \<and> length (sn_queries s) \<le> slowlog_top_n \<and> length (sn_tables s) \<le> schema_max_tables
    \<and> sn_ds s = ds \<and> sn_kind s = kind
    \<and> (case first_working q (the (snapshot_sources_for ''postgres'' kind)) of
         Some (n, res) \<Rightarrow> sn_source s = n \<and> \<not> sn_missing s
           \<and> shortened s (fill_snapshot fl kind res ((new_snapshot ds ''postgres'' kind now)\<lparr>sn_source := n\<rparr>))
       | None \<Rightarrow> sn_missing s \<and> list_all (\<lambda>x. \<not> source_available q x) (the (snapshot_sources_for ''postgres'' kind)))"
proof -
  let ?n = "new_snapshot ds ''postgres'' kind now"
  obtain srcs where k: "valid_snapshot_kind kind" and srcs: "snapshot_sources_for ''postgres'' kind = Some srcs"
    using assms by (auto simp: collect_snapshot_def split: if_splits option.splits)
  show ?thesis
  proof (cases "first_working q srcs")
    case None
    then have "fst (try_sources fl q kind ?n srcs) = None" by (simp add: try_sources_first)
    then obtain es where t: "try_sources fl q kind ?n srcs = (None, es)" by (cases "try_sources fl q kind ?n srcs") auto
    with assms k srcs have "es = []" and s: "s = ?n\<lparr>sn_missing := True\<rparr>"
      by (auto simp: collect_snapshot_def split: list.splits)
    with try_sources_first(2) [OF None, of fl kind ?n] t None srcs show ?thesis by (simp add: new_snapshot_def)
  next
    case (Some p)
    then obtain n res where p: "first_working q srcs = Some (n, res)" by (cases p) auto
    let ?f = "fill_snapshot fl kind res (?n\<lparr>sn_source := n\<rparr>)"
    have "fst (try_sources fl q kind ?n srcs) = Some (enforce_size ?f)" using p by (simp add: try_sources_first)
    then obtain es where "try_sources fl q kind ?n srcs = (Some (enforce_size ?f), es)"
      by (cases "try_sources fl q kind ?n srcs") auto
    with assms k srcs have s: "s = enforce_size ?f" by (simp add: collect_snapshot_def)
    have f: "length (sn_queries ?f) \<le> slowlog_top_n" "length (sn_tables ?f) \<le> schema_max_tables" "sn_source ?f = n"
      "\<not> sn_missing ?f" "sn_ds ?f = ds" "sn_kind ?f = kind"
      using parse_tables_length [of fl res]
      by (auto simp: fill_snapshot_def new_snapshot_def parse_slow_queries_def Let_def case_prod_beta)
    have sh: "shortened s ?f" using enforce_size_result s by blast
    then have "length (sn_queries s) \<le> slowlog_top_n" "length (sn_tables s) \<le> schema_max_tables"
      using f(1,2) by (auto simp: shortened_def intro: prefix_length)
    with sh f enforce_size_result [of ?f] s p srcs show ?thesis by (auto simp: shortened_def)
  qed
qed

lemma probe_snapshot_witness:
  "\<exists>s. collect_snapshot text_floats (\<lambda>st n. if st = ProbeSql ''dbe_perf'' then Inr [[]] else if st = CheckSql ''dbe_perf'' then Inr []
       else if st = RowsSql ''dbe_perf'' ''slow_queries'' then Inr [[(''text'', ''select ?'')]] else Inl NoRows) ''d'' ''postgres'' 7 ''slowlog''
       = Inr s \<and> sn_source s = ''dbe_perf'' \<and> \<not> sn_missing s \<and> length (sn_queries s) \<le> slowlog_top_n"
  (is "\<exists>s. collect_snapshot _ ?q _ _ _ _ = Inr s \<and> ?P s")
proof -
  let ?srcs = "the (snapshot_sources_for ''postgres'' ''slowlog'')"
  have f: "first_working ?q ?srcs = Some (''dbe_perf'', [(''slow_queries'', [[(''text'', ''select ?'')]])])"
    by (simp add: first_working_def snapshot_sources_for_def postgres_slowlog_sources_def slowlog_source_def source_available_def row_simps)
  let ?t = "try_sources text_floats ?q ''slowlog'' (new_snapshot ''d'' ''postgres'' ''slowlog'' 7) ?srcs"
  have "fst ?t \<noteq> None" using f by (simp only: try_sources_first(1)) simp
  then obtain s es where "?t = (Some s, es)" by (cases ?t) auto
  then have s: "collect_snapshot text_floats ?q ''d'' ''postgres'' 7 ''slowlog'' = Inr s"
    by (simp add: collect_snapshot_def valid_snapshot_kind_def snapshot_kinds_def snapshot_sources_for_def)
  from probe_snapshot [OF s] f s show ?thesis by auto
qed

end
