(* ===== verification/ConsoleHttp.thy ===== *)
theory ConsoleHttp
  imports ConsoleDb Keyset "HOL-Library.Product_Lexorder"
begin

text \<open>
  What the handlers of the control plane's public API share, \<^verbatim>\<open>console/internal/httpapi\<close>:
  bounded bodies (\<^verbatim>\<open>respond.go\<close>), pages by keyset cursors
  (\<^verbatim>\<open>pagination.go\<close>) and creation with an idempotency key
  (\<^verbatim>\<open>idempotency.go\<close>, \<^verbatim>\<open>repo/idempotency.go\<close>).
\<close>

section \<open>respond.go\<close>

text \<open>The body is \<open>None\<close> when reading it fails.\<close>

definition read_body :: "string option \<Rightarrow> go_error + string" where
  "read_body b = (case b of None \<Rightarrow> Inl (Wrapf ''read request body'' (Plain ''io''))
     | Some body \<Rightarrow> if console_body_limit < length body then Inl (api_err_details CodeValidationFailed [(''body'', ''size'')])
         else Inr body)"

definition path_id :: "string \<Rightarrow> go_error + string" where
  "path_id v = (if uuid_shape v then Inr v else Inl (api_err_details CodeValidationFailed [(''id'', ''uuid'')]))"

definition require_details :: "detail list \<Rightarrow> go_error + unit" where
  "require_details ds = (if ds = [] then Inr () else Inl (api_err_details CodeValidationFailed ds))"

text \<open>A page and the cursor that follows it, when the page is full.\<close>

definition new_page :: "'a list \<Rightarrow> nat \<Rightarrow> ('a \<Rightarrow> string) \<Rightarrow> 'a list \<times> string option" where
  "new_page items limit cursor_of = (items, if length items = limit \<and> 0 < limit then Some (cursor_of (last items)) else None)"

section \<open>pagination.go\<close>

definition default_limit :: int where "default_limit = 50"
definition max_limit :: int where "max_limit = 200"

text \<open>Times are in microseconds, the cursor counts nanoseconds in 64 bits.\<close>

definition encode_page_cursor :: "int \<Rightarrow> string \<Rightarrow> string" where
  "encode_page_cursor created rid = b64_encode (int_str (created * 1000) @ CHR ''.'' # rid)"

definition decode_page_cursor :: "string \<Rightarrow> (int \<times> string) option" where
  "decode_page_cursor raw = (case b64_decode raw of None \<Rightarrow> None
     | Some buf \<Rightarrow> (case cut (CHR ''.'') buf of None \<Rightarrow> None
         | Some (nano, rid) \<Rightarrow> if \<not> uuid_shape rid then None
             else map_option (\<lambda>n. (n div 1000, rid)) (parse_int64 nano)))"

definition parse_page_params :: "string \<Rightarrow> string \<Rightarrow> go_error + (int \<times> string) option \<times> int" where
  "parse_page_params raw_limit raw_cursor =
     (case (if raw_limit = [] then Some default_limit else case parse_int64 raw_limit of None \<Rightarrow> None
         | Some n \<Rightarrow> if n < 1 \<or> max_limit < n then None else Some n) of
        None \<Rightarrow> Inl (api_err_details CodeValidationFailed [(''limit'', ''range'')])
      | Some limit \<Rightarrow> if raw_cursor = [] then Inr (None, limit)
          else (case decode_page_cursor raw_cursor of
              None \<Rightarrow> Inl (api_err_details CodeValidationFailed [(''cursor'', ''invalid'')])
            | Some c \<Rightarrow> Inr (Some c, limit)))"

lemma page_cursor_roundtrip:
  assumes "int64_range (created * 1000)" "uuid_shape rid"
  shows "decode_page_cursor (encode_page_cursor created rid) = Some (created, rid)"
proof -
  have "CHR ''.'' \<notin> set (int_str (created * 1000))" using int_str_chars [of "created * 1000"] by (auto simp: is_digit_def)
  from cut_append [OF this, of rid] show ?thesis
    using assms by (simp add: decode_page_cursor_def encode_page_cursor_def parse_int_str)
qed

section \<open>idempotency.go\<close>

definition get_replay :: "string \<Rightarrow> ctdb \<Rightarrow> replay_row option" where
  "get_replay key s = select_one (\<lambda>r. ir_key r = key) (c_replays s)"

definition put_replay :: "string \<Rightarrow> string \<Rightarrow> nat \<Rightarrow> json \<Rightarrow> unit ctx_body" where
  "put_replay key hash status body s =
     (case first_violation [(\<forall>r \<in> set (c_replays s). ir_key r \<noteq> key, UniqueViolation ''idempotency_keys_pkey''),
        (c_known s, ForeignKeyViolation ''idempotency_keys_tenant_id_fkey'')] of
      Some v \<Rightarrow> Inl (map_pg_error v)
    | None \<Rightarrow> Inr ((), s\<lparr>c_replays := c_replays s @ [\<lparr>ir_key = key, ir_hash = hash, ir_status = status, ir_body = body\<rparr>]\<rparr>))"

definition create_once_tx :: "string \<Rightarrow> string \<Rightarrow> json ctx_body \<Rightarrow> (nat \<times> json) ctx_body" where
  "create_once_tx key hash create s = (case get_replay key s of
     Some r \<Rightarrow> if ir_hash r \<noteq> hash then Inl (api_err CodeIdempotencyReplay) else Inr ((ir_status r, ir_body r), s)
   | None \<Rightarrow> (case create s of Inl e \<Rightarrow> Inl e
       | Inr (v, s1) \<Rightarrow> (case put_replay key hash 201 v s1 of Inl e \<Rightarrow> Inl e | Inr (_, s2) \<Rightarrow> Inr ((201, v), s2))))"

text \<open>\<open>sha\<close> is SHA-256 in hex; a request without a key is created plainly.\<close>

definition create_with_idempotency :: "(string \<Rightarrow> string) \<Rightarrow> tx_fault \<Rightarrow> string option \<Rightarrow> string \<Rightarrow> string \<Rightarrow> json ctx_body
    \<Rightarrow> cdb \<Rightarrow> (go_error + console_answer) \<times> cdb" where
  "create_with_idempotency sha flt ctx key body create d = (if key = []
     then (case console_tx flt ctx create d of (Inl e, d1) \<Rightarrow> (Inl e, d1) | (Inr v, d1) \<Rightarrow> (Inr (ConsoleJson 201 v), d1))
     else (case console_tx flt ctx (create_once_tx key (sha body) create) d of
         (Inl e, d1) \<Rightarrow> (Inl e, d1) | (Inr (st, v), d1) \<Rightarrow> (Inr (ConsoleJson st v), d1)))"

text \<open>Bodies that only append to the replies' table through \<open>put_replay\<close> keep its keys unique.\<close>

definition replays_ok :: "ctdb \<Rightarrow> bool" where
  "replays_ok s \<longleftrightarrow> distinct (map ir_key (c_replays s))"

lemma select_one_new: "\<forall>r \<in> set rs. \<not> p r \<Longrightarrow> p x \<Longrightarrow> select_one p (rs @ [x]) = Some x"
  by (induction rs) (simp_all add: row_simps)

lemma get_put_replay: "put_replay key hash st v s = Inr (u, s') \<Longrightarrow>
    get_replay key s' = Some \<lparr>ir_key = key, ir_hash = hash, ir_status = st, ir_body = v\<rparr>"
  by (auto simp: put_replay_def get_replay_def intro!: select_one_new split: option.splits if_splits)

lemma create_once_stored:
  assumes "create_once_tx key hash create s = Inr ((st, v), s')"
  shows "\<exists>r. get_replay key s' = Some r \<and> ir_hash r = hash \<and> ir_status r = st \<and> ir_body r = v"
  using assms get_put_replay by (fastforce simp: create_once_tx_def split: option.splits sum.splits if_splits prod.splits)

text \<open>Creating with a key is idempotent. After a creation with a key has answered, the same request with
  the same key is answered with the same status and body and changes nothing, whatever it would create; and
  a different body under that key is refused with the replay code and changes nothing.\<close>

theorem create_idempotent:
  assumes "create_with_idempotency sha flt (Some t) key body create d = (Inr a, d1)" "key \<noteq> []"
  shows "create_with_idempotency sha NoFault (Some t) key body create2 d1 = (Inr a, d1)
    \<and> (sha body2 \<noteq> sha body \<longrightarrow>
         create_with_idempotency sha NoFault (Some t) key body2 create2 d1 = (Inl (api_err CodeIdempotencyReplay), d1))"
proof -
  from assms obtain st v where x: "console_tx flt (Some t) (create_once_tx key (sha body) create) d = (Inr (st, v), d1)"
    and a: "a = ConsoleJson st v"
    by (auto simp: create_with_idempotency_def split: prod.splits sum.splits)
  from x obtain s where s: "create_once_tx key (sha body) create (c_slice d t) = Inr ((st, v), s)" "t \<noteq> []"
    "d1 = d\<lparr>c_slice := (c_slice d)(t := s)\<rparr>" by (auto elim!: console_tx_Inr)
  obtain r where r: "get_replay key s = Some r" "ir_hash r = sha body" "ir_status r = st" "ir_body r = v"
    using create_once_stored [OF s(1)] by blast
  have "d1\<lparr>c_slice := (c_slice d1)(t := s)\<rparr> = d1" using s(3) by simp
  with assms(2) s(2,3) r a show ?thesis
    by (simp add: create_with_idempotency_def console_tx_ok create_once_tx_def)
qed

lemma create_idempotent_witness:
  "\<exists>a d1. create_with_idempotency (\<lambda>x. x) NoFault (Some ''t'') ''k'' ''b'' (\<lambda>s. Inr (JStr ''v'', s)) \<lparr>c_slice = \<lambda>_. empty_ctdb\<rparr> = (Inr a, d1)
     \<and> create_with_idempotency (\<lambda>x. x) NoFault (Some ''t'') ''k'' ''b'' (\<lambda>s. Inr (JStr ''w'', s)) d1 = (Inr a, d1)"
proof -
  obtain a d1 where c: "create_with_idempotency (\<lambda>x. x) NoFault (Some ''t'') ''k'' ''b'' (\<lambda>s. Inr (JStr ''v'', s)) \<lparr>c_slice = \<lambda>_. empty_ctdb\<rparr> = (Inr a, d1)"
    by (simp add: create_with_idempotency_def console_tx_ok create_once_tx_def get_replay_def put_replay_def empty_ctdb_def)
  from create_idempotent [OF c] c show ?thesis by blast
qed

end
