(* ===== verification/ConsoleConnectors.thy ===== *)
theory ConsoleConnectors
  imports ConsoleHttp
begin

text \<open>
  The connectors of a tenant: \<^verbatim>\<open>console/internal/repo/connectors.go\<close>, enrollment tokens
  (\<^verbatim>\<open>enrolltoken.go\<close>), creation and revocation on the public API
  (\<^verbatim>\<open>httpapi/connectors.go\<close>), and enrollment, handshake and status reports on the internal
  one (\<^verbatim>\<open>svcapi/handlers.go\<close>). SHA-256, the random secret and the signing of a certificate
  request are parameters.
\<close>

section \<open>repo/connectors.go\<close>

definition insert_connector :: "string \<Rightarrow> int \<Rightarrow> string \<Rightarrow> string \<Rightarrow> conn_row ctx_body" where
  "insert_connector new now name location s = (case first_violation
       [(\<forall>r \<in> set (c_conns s). cn_id r \<noteq> new, UniqueViolation ''connectors_pkey''),
        (\<forall>r \<in> set (c_conns s). cn_name r \<noteq> name, UniqueViolation ''connectors_tenant_id_name_key''),
        (c_known s, ForeignKeyViolation ''connectors_tenant_id_fkey'')] of
     Some v \<Rightarrow> Inl (map_pg_error v)
   | None \<Rightarrow> (let c = \<lparr>cn_id = new, cn_name = name, cn_location = location, cn_version = [], cn_status = ''pending'',
         cn_heartbeat = None, cn_fingerprint = [], cn_token = None, cn_expires = None, cn_revoked = None,
         cn_created = now, cn_updated = now\<rparr> in Inr (c, s\<lparr>c_conns := c_conns s @ [c]\<rparr>)))"

definition update_conns :: "(conn_row \<Rightarrow> bool) \<Rightarrow> (conn_row \<Rightarrow> conn_row) \<Rightarrow> ctdb \<Rightarrow> ctdb" where
  "update_conns p f s = s\<lparr>c_conns := update_where p f (c_conns s)\<rparr>"

definition set_enroll_token :: "string \<Rightarrow> string \<Rightarrow> int \<Rightarrow> int \<Rightarrow> unit ctx_body" where
  "set_enroll_token cid hash now ttl s = (let p = (\<lambda>r. cn_id r = cid \<and> cn_status r = ''pending'') in
     if count_where p (c_conns s) = 0 then Inl (api_err CodeConnectorAlreadyEnrolled)
     else Inr ((), update_conns p (\<lambda>r. r\<lparr>cn_token := Some hash, cn_expires := Some (now + ttl), cn_updated := now\<rparr>) s))"

definition get_connector :: "string \<Rightarrow> ctdb \<Rightarrow> go_error + conn_row" where
  "get_connector cid s = (case select_one (\<lambda>r. cn_id r = cid) (c_conns s) of
     None \<Rightarrow> Inl (api_err CodeCommonNotFound) | Some r \<Rightarrow> Inr r)"

definition complete_enrollment :: "string \<Rightarrow> string \<Rightarrow> string \<Rightarrow> int \<Rightarrow> unit ctx_body" where
  "complete_enrollment cid fp version now s = (let p = (\<lambda>r. cn_id r = cid \<and> cn_status r = ''pending'') in
     if count_where p (c_conns s) = 0 then Inl (api_err CodeConnectorAlreadyEnrolled)
     else Inr ((), update_conns p (\<lambda>r. r\<lparr>cn_status := ''enrolled'', cn_fingerprint := fp, cn_version := version,
       cn_token := None, cn_expires := None, cn_updated := now\<rparr>) s))"

definition connector_write_refusal :: "string \<Rightarrow> ctdb \<Rightarrow> go_error" where
  "connector_write_refusal cid s = (case get_connector cid s of Inl e \<Rightarrow> e
     | Inr c \<Rightarrow> if cn_status c = ''revoked'' then api_err CodeConnectorRevoked
         else api_err_details CodeCommonConflict [(''status'', cn_status c)])"

definition update_connector_status :: "string \<Rightarrow> string \<Rightarrow> int option \<Rightarrow> int \<Rightarrow> unit ctx_body" where
  "update_connector_status cid st hb now s =
     (let p = (\<lambda>r. cn_id r = cid \<and> cn_status r \<noteq> ''revoked'' \<and> cn_status r \<noteq> ''pending'') in
      if count_where p (c_conns s) = 0 then Inl (connector_write_refusal cid s)
      else Inr ((), update_conns p (\<lambda>r. r\<lparr>cn_status := st,
        cn_heartbeat := (case hb of None \<Rightarrow> cn_heartbeat r | Some h \<Rightarrow> Some h), cn_updated := now\<rparr>) s))"

definition revoke_connector :: "string \<Rightarrow> int \<Rightarrow> unit ctx_body" where
  "revoke_connector cid now s = (let p = (\<lambda>r. cn_id r = cid \<and> cn_status r \<noteq> ''revoked'') in
     if count_where p (c_conns s) = 0
     then (case get_connector cid s of Inl e \<Rightarrow> Inl e | Inr _ \<Rightarrow> Inr ((), s))
     else Inr ((), update_conns p (\<lambda>r. r\<lparr>cn_status := ''revoked'', cn_revoked := Some now, cn_token := None,
       cn_expires := None, cn_updated := now\<rparr>) s))"

definition conn_key :: "conn_row \<Rightarrow> int \<times> string" where
  "conn_key r = (cn_created r, cn_id r)"

definition list_connectors :: "(int \<times> string) option \<Rightarrow> int \<Rightarrow> ctdb \<Rightarrow> conn_row list" where
  "list_connectors after limit s = key_fetch True conn_key (c_conns s) after (nat limit)"

section \<open>enrolltoken.go\<close>

record enroll_token =
  et_tenant :: string
  et_connector :: string
  et_secret :: string

definition new_enroll_token :: "(string \<Rightarrow> string) \<Rightarrow> string \<Rightarrow> string \<Rightarrow> string \<Rightarrow> string \<times> string" where
  "new_enroll_token sha secret tenant cid = (b64_encode (tenant @ CHR '':'' # cid) @ CHR ''.'' # secret, sha secret)"

definition parse_enroll_token :: "string \<Rightarrow> enroll_token option" where
  "parse_enroll_token tok = (case cut (CHR ''.'') tok of None \<Rightarrow> None
     | Some (addr, secret) \<Rightarrow> if secret = [] then None
         else (case b64_decode addr of None \<Rightarrow> None
           | Some raw \<Rightarrow> (case cut (CHR '':'') raw of None \<Rightarrow> None
               | Some (t, c) \<Rightarrow> if t = [] \<or> c = [] then None
                   else Some \<lparr>et_tenant = t, et_connector = c, et_secret = secret\<rparr>)))"

lemma enroll_token_roundtrip:
  assumes "CHR '':'' \<notin> set tenant" "tenant \<noteq> []" "cid \<noteq> []" "secret \<noteq> []"
  shows "parse_enroll_token (fst (new_enroll_token sha secret tenant cid))
    = Some \<lparr>et_tenant = tenant, et_connector = cid, et_secret = secret\<rparr>"
  using assms cut_append [OF b64_encode_no_dot, of "tenant @ CHR '':'' # cid" secret] cut_append [OF assms(1), of cid]
  by (simp add: parse_enroll_token_def new_enroll_token_def)

definition token_matches :: "(string \<Rightarrow> string) \<Rightarrow> enroll_token \<Rightarrow> string \<Rightarrow> bool" where
  "token_matches sha tok stored \<longleftrightarrow> sha (et_secret tok) = stored"

section \<open>httpapi/connectors.go\<close>

text \<open>\<open>ce_sign\<close> is \<open>SignCSR\<close>: the certificate and its fingerprint for a request, a connector and a tenant.\<close>

record conn_env =
  ce_sha :: "string \<Rightarrow> string"
  ce_sign :: "string \<Rightarrow> string \<Rightarrow> string \<Rightarrow> go_error + string \<times> string"
  ce_bundle :: string

definition enroll_token_ttl :: int where "enroll_token_ttl = 900000000"

definition opt_time_json :: "int option \<Rightarrow> json" where
  "opt_time_json t = (case t of None \<Rightarrow> JNull | Some x \<Rightarrow> JStr (time_text x))"

definition connector_members :: "conn_row \<Rightarrow> (string \<times> json) list" where
  "connector_members c = [(''id'', JStr (cn_id c)), (''name'', JStr (cn_name c)), (''location'', JStr (cn_location c)),
     (''version'', JStr (cn_version c)), (''status'', JStr (cn_status c)), (''last_heartbeat_at'', opt_time_json (cn_heartbeat c)),
     (''cert_fingerprint'', JStr (cn_fingerprint c)), (''created_at'', JStr (time_text (cn_created c))),
     (''updated_at'', JStr (time_text (cn_updated c)))]"

definition validate_connector :: "string \<times> string \<Rightarrow> detail list" where
  "validate_connector q = (if fst q = [] \<or> 128 < length (fst q) then [(''name'', ''length'')] else [])
     @ (if 256 < length (snd q) then [(''location'', ''length'')] else [])"

definition connector_request_of :: "(string \<times> json) list \<Rightarrow> (string \<times> string) option" where
  "connector_request_of kvs = (case (str_field ''name'' kvs, str_field ''location'' kvs) of
     (Some n, Some l) \<Rightarrow> Some (n, l) | _ \<Rightarrow> None)"

text \<open>What the database and the random source contribute to a creation: the id, the time, the secret.\<close>

record fresh_values =
  fv_id :: string
  fv_now :: int
  fv_secret :: string

definition create_connector_tx :: "conn_env \<Rightarrow> string \<Rightarrow> fresh_values \<Rightarrow> string \<times> string \<Rightarrow> json ctx_body" where
  "create_connector_tx env tenant fv q s = (case insert_connector (fv_id fv) (fv_now fv) (fst q) (snd q) s of
     Inl e \<Rightarrow> Inl e
   | Inr (c, s1) \<Rightarrow> (let (token, hash) = new_enroll_token (ce_sha env) (fv_secret fv) tenant (cn_id c)
       in case set_enroll_token (cn_id c) hash (fv_now fv) enroll_token_ttl s1 of
         Inl e \<Rightarrow> Inl e
       | Inr (_, s2) \<Rightarrow> Inr (JObj (connector_members c @ [(''enrollment_token'', JStr token)]), s2)))"

definition h_create_connector :: "conn_env \<Rightarrow> tx_fault \<Rightarrow> string \<Rightarrow> fresh_values \<Rightarrow> string \<Rightarrow> string option \<Rightarrow> cdb
    \<Rightarrow> (go_error + console_answer) \<times> cdb" where
  "h_create_connector env flt tenant fv key body d = (case read_body body of Inl e \<Rightarrow> (Inl e, d)
     | Inr raw \<Rightarrow> (case decode_strict [''name'', ''location''] connector_request_of raw of Inl e \<Rightarrow> (Inl e, d)
       | Inr q \<Rightarrow> (case require_details (validate_connector q) of Inl e \<Rightarrow> (Inl e, d)
         | Inr _ \<Rightarrow> create_with_idempotency (ce_sha env) flt (with_tenant None tenant) key raw
             (create_connector_tx env tenant fv q) d)))"

definition h_revoke_connector :: "tx_fault \<Rightarrow> string \<Rightarrow> int \<Rightarrow> string \<Rightarrow> cdb \<Rightarrow> (go_error + console_answer) \<times> cdb" where
  "h_revoke_connector flt tenant now cid d = (case path_id cid of Inl e \<Rightarrow> (Inl e, d)
     | Inr _ \<Rightarrow> (case console_tx flt (with_tenant None tenant) (revoke_connector cid now) d of
         (Inl e, d1) \<Rightarrow> (Inl e, d1) | (Inr _, d1) \<Rightarrow> (Inr (ConsoleStatus 204), d1)))"

definition h_list_connectors :: "tx_fault \<Rightarrow> string \<Rightarrow> string \<Rightarrow> string \<Rightarrow> cdb \<Rightarrow> (go_error + conn_row list \<times> string option) \<times> cdb" where
  "h_list_connectors flt tenant raw_limit raw_cursor d = (case parse_page_params raw_limit raw_cursor of Inl e \<Rightarrow> (Inl e, d)
     | Inr (cur, limit) \<Rightarrow> (case console_tx flt (with_tenant None tenant) (\<lambda>s. Inr (list_connectors cur limit s, s)) d of
         (Inl e, d1) \<Rightarrow> (Inl e, d1)
       | (Inr items, d1) \<Rightarrow> (Inr (new_page items (nat limit) (\<lambda>c. encode_page_cursor (cn_created c) (cn_id c))), d1)))"

definition h_get_connector :: "tx_fault \<Rightarrow> string \<Rightarrow> string \<Rightarrow> cdb \<Rightarrow> (go_error + console_answer) \<times> cdb" where
  "h_get_connector flt tenant cid d = (case path_id cid of Inl e \<Rightarrow> (Inl e, d)
     | Inr _ \<Rightarrow> (case console_tx flt (with_tenant None tenant) (\<lambda>s. map_sum id (\<lambda>c. (c, s)) (get_connector cid s)) d of
         (Inl e, d1) \<Rightarrow> (Inl e, d1) | (Inr c, d1) \<Rightarrow> (Inr (ConsoleJson 200 (JObj (connector_members c))), d1)))"

section \<open>svcapi/handlers.go\<close>

record enroll_request =
  eq_token :: string
  eq_csr :: string
  eq_version :: string

definition enroll_request_of :: "(string \<times> json) list \<Rightarrow> enroll_request option" where
  "enroll_request_of kvs = (case (str_field ''token'' kvs, str_field ''csr_pem'' kvs, str_field ''connector_version'' kvs) of
     (Some t, Some c, Some v) \<Rightarrow> Some \<lparr>eq_token = t, eq_csr = c, eq_version = v\<rparr> | _ \<Rightarrow> None)"

text \<open>The body of the transaction: the certificate and its fingerprint when the token is good.\<close>

definition enroll_tx :: "conn_env \<Rightarrow> int \<Rightarrow> enroll_token \<Rightarrow> enroll_request \<Rightarrow> (string \<times> string) ctx_body" where
  "enroll_tx env now tok q s = (case select_one (\<lambda>r. cn_id r = et_connector tok) (c_conns s) of
     None \<Rightarrow> Inl (api_err CodeConnectorEnrollTokenInvalid)
   | Some c \<Rightarrow>
       if cn_status c = ''revoked'' then Inl (api_err CodeConnectorRevoked)
       else if cn_status c \<noteq> ''pending'' then Inl (api_err CodeConnectorAlreadyEnrolled)
       else (case (cn_token c, cn_expires c) of
         (Some h, Some ex) \<Rightarrow> if ex < now \<or> \<not> token_matches (ce_sha env) tok h
             then Inl (api_err CodeConnectorEnrollTokenInvalid)
             else (case ce_sign env (eq_csr q) (et_connector tok) (et_tenant tok) of
                 Inl er \<Rightarrow> Inl (ApiErr CodeValidationFailed [(''csr_pem'', ''invalid'')] (Some er))
               | Inr (cert, fp) \<Rightarrow> (case complete_enrollment (et_connector tok) fp (eq_version q) now s of
                     Inl e \<Rightarrow> Inl e | Inr (_, s1) \<Rightarrow> Inr ((cert, fp), s1)))
       | _ \<Rightarrow> Inl (api_err CodeConnectorEnrollTokenInvalid)))"

definition enroll_json :: "conn_env \<Rightarrow> enroll_token \<Rightarrow> string \<Rightarrow> json" where
  "enroll_json env tok cert = JObj [(''connector_id'', JStr (et_connector tok)), (''certificate_pem'', JStr cert),
     (''ca_bundle_pem'', JStr (ce_bundle env))]"

definition svc_enroll :: "conn_env \<Rightarrow> tx_fault \<Rightarrow> int \<Rightarrow> string \<Rightarrow> cdb \<Rightarrow> (go_error + console_answer) \<times> cdb" where
  "svc_enroll env flt now body d = (case decode_json [''token'', ''csr_pem'', ''connector_version''] enroll_request_of body of
     Inl e \<Rightarrow> (Inl e, d)
   | Inr q \<Rightarrow> (case parse_enroll_token (eq_token q) of None \<Rightarrow> (Inl (api_err CodeConnectorEnrollTokenInvalid), d)
     | Some tok \<Rightarrow> if \<not> uuid_shape (et_tenant tok) \<or> \<not> uuid_shape (et_connector tok)
         then (Inl (api_err CodeConnectorEnrollTokenInvalid), d)
         else (case console_tx flt (with_tenant None (et_tenant tok)) (enroll_tx env now tok q) d of
             (Inl e, d1) \<Rightarrow> (Inl e, d1)
           | (Inr (cert, fp), d1) \<Rightarrow> (Inr (ConsoleJson 200 (enroll_json env tok cert)), d1))))"

definition validate_ids :: "string \<Rightarrow> string \<Rightarrow> go_error + unit" where
  "validate_ids tenant cid = (if \<not> uuid_shape tenant \<or> \<not> uuid_shape cid
     then Inl (api_err_details CodeValidationFailed [(''tenant_id/connector_id'', ''uuid'')]) else Inr ())"

definition handshake_tx :: "string \<Rightarrow> string \<Rightarrow> unit ctx_body" where
  "handshake_tx cid fp s = (case get_connector cid s of Inl e \<Rightarrow> Inl e
     | Inr c \<Rightarrow> if cn_status c = ''revoked'' then Inl (api_err CodeConnectorRevoked)
         else if cn_status c = ''pending'' then Inl (api_err_details CodeCommonConflict [(''status'', ''pending'')])
         else if cn_fingerprint c = [] \<or> cn_fingerprint c \<noteq> fp
           then Inl (api_err_details CodeAuthForbidden [(''fingerprint'', ''mismatch'')])
         else Inr ((), s))"

definition handshake_request_of :: "(string \<times> json) list \<Rightarrow> (string \<times> string \<times> string) option" where
  "handshake_request_of kvs = (case (str_field ''tenant_id'' kvs, str_field ''connector_id'' kvs, str_field ''fingerprint'' kvs) of
     (Some t, Some c, Some f) \<Rightarrow> Some (t, c, f) | _ \<Rightarrow> None)"

definition svc_handshake :: "tx_fault \<Rightarrow> string \<Rightarrow> cdb \<Rightarrow> (go_error + console_answer) \<times> cdb" where
  "svc_handshake flt body d = (case decode_json [''tenant_id'', ''connector_id'', ''fingerprint''] handshake_request_of body of
     Inl e \<Rightarrow> (Inl e, d)
   | Inr (t, c, f) \<Rightarrow> (case validate_ids t c of Inl e \<Rightarrow> (Inl e, d)
     | Inr _ \<Rightarrow> (case console_tx flt (with_tenant None t) (handshake_tx c f) d of
         (Inl e, d1) \<Rightarrow> (Inl e, d1) | (Inr _, d1) \<Rightarrow> (Inr (ConsoleStatus 204), d1))))"

definition status_request_of :: "(string \<times> json) list \<Rightarrow> (string \<times> string \<times> string \<times> string option) option" where
  "status_request_of kvs = (case (str_field ''tenant_id'' kvs, str_field ''connector_id'' kvs, str_field ''status'' kvs,
       opt_str_field ''heartbeat_at'' kvs) of
     (Some t, Some c, Some st, Some hb) \<Rightarrow> Some (t, c, st, hb) | _ \<Rightarrow> None)"

definition svc_status :: "tx_fault \<Rightarrow> int \<Rightarrow> string \<Rightarrow> cdb \<Rightarrow> (go_error + console_answer) \<times> cdb" where
  "svc_status flt now body d =
     (case decode_json [''tenant_id'', ''connector_id'', ''status'', ''heartbeat_at''] status_request_of body of
        Inl e \<Rightarrow> (Inl e, d)
      | Inr (t, c, st, hb) \<Rightarrow>
        (case (case hb of None \<Rightarrow> Some None | Some txt \<Rightarrow> map_option Some (parse_time txt)) of
           None \<Rightarrow> (Inl bad_body, d)
         | Some h \<Rightarrow> (case validate_ids t c of Inl e \<Rightarrow> (Inl e, d)
           | Inr _ \<Rightarrow> if \<not> one_of st [''online'', ''degraded'', ''offline'']
               then (Inl (api_err_details CodeValidationFailed [(''status'', ''enum'')]), d)
               else (case console_tx flt (with_tenant None t) (update_connector_status c st h now) d of
                   (Inl e, d1) \<Rightarrow> (Inl e, d1) | (Inr _, d1) \<Rightarrow> (Inr (ConsoleStatus 204), d1)))))"

end
