(* ===== verification/ConsoleInventory.thy ===== *)
theory ConsoleInventory
  imports ConsoleConnectors ConsoleLlm
begin

text \<open>
  The inventory of a tenant, \<^verbatim>\<open>console/internal/repo\<close>: datasources
  (\<^verbatim>\<open>datasources.go\<close>) with their sealed credentials
  (\<^verbatim>\<open>credentials.go\<close>), agents (\<^verbatim>\<open>agents.go\<close>), groups
  (\<^verbatim>\<open>groups.go\<close>) and aliases (\<^verbatim>\<open>aliases.go\<close>), over tables with
  the constraints of \<^verbatim>\<open>migrations/0002_domain_model.up.sql\<close>.
\<close>

section \<open>Identifiers as the database reads them\<close>

text \<open>
  A parameter compared with a column of type \<^verbatim>\<open>uuid\<close> is read by the database: 32 hexadecimal digits,
  a hyphen allowed after every group of four, braces around it allowed; anything else fails the
  statement with an error that \<open>map_pg_error\<close> does not know.
\<close>

fun uuid_digits :: "nat \<Rightarrow> bool \<Rightarrow> string \<Rightarrow> string option" where
  "uuid_digits n hyphen [] = (if n = 32 then Some [] else None)"
| "uuid_digits n hyphen (c # cs) =
     (if c = CHR ''-'' then (if hyphen then uuid_digits n False cs else None)
      else if is_hex c \<and> n < 32
        then map_option ((#) (lower_char c)) (uuid_digits (Suc n) (Suc n mod 4 = 0 \<and> Suc n < 32) cs)
      else None)"

definition uuid_text :: "string \<Rightarrow> string" where
  "uuid_text h = take 8 h @ ''-'' @ take 4 (drop 8 h) @ ''-'' @ take 4 (drop 12 h) @ ''-'' @ take 4 (drop 16 h) @ ''-'' @ drop 20 h"

definition pg_uuid :: "string \<Rightarrow> string option" where
  "pg_uuid v = map_option uuid_text (uuid_digits 0 False
     (if v \<noteq> [] \<and> hd v = CHR ''{'' \<and> last v = CHR ''}'' then butlast (tl v) else v))"

definition pg_opt_uuid :: "string option \<Rightarrow> string option option" where
  "pg_opt_uuid v = (case v of None \<Rightarrow> Some None | Some x \<Rightarrow> map_option Some (pg_uuid x))"

definition bad_uuid :: go_error where
  "bad_uuid = Wrapf ''invalid input syntax for type uuid'' (Plain ''22P02'')"

definition on_uuid :: "string \<Rightarrow> (string \<Rightarrow> go_error + 'a) \<Rightarrow> go_error + 'a" where
  "on_uuid v f = (case pg_uuid v of None \<Rightarrow> Inl bad_uuid | Some i \<Rightarrow> f i)"

definition nullable_id :: "string \<Rightarrow> string option" where
  "nullable_id v = (if v = [] then None else Some v)"

section \<open>datasources.go\<close>

record ds_input =
  di_name :: string
  di_family :: string
  di_engine :: string
  di_version :: string
  di_mode :: string
  di_connector :: "string option"
  di_credential :: "string option"
  di_host :: string
  di_port :: int
  di_database :: string
  di_group :: "string option"
  di_role :: "string option"
  di_agent :: "string option"

record ds_patch =
  dp_name :: "string option"
  dp_engine :: "string option"
  dp_version :: "string option"
  dp_host :: "string option"
  dp_port :: "int option"
  dp_database :: "string option"
  dp_group :: "string option"
  dp_role :: "string option"
  dp_agent :: "string option"

definition connect_modes :: "string list" where "connect_modes = [''connector'', ''direct'']"
definition engine_families :: "string list" where "engine_families = [''postgres'', ''mysql'', ''dm'']"
definition group_roles :: "string list" where "group_roles = [''primary'', ''standby'', ''replica'', ''node'']"
definition health_states :: "string list" where "health_states = [''unknown'', ''ok'', ''warn'', ''crit'']"

text \<open>The constraints of the table, in the order in which the database checks them.\<close>

definition ds_checks :: "ds_row \<Rightarrow> (bool \<times> pg_violation) list" where
  "ds_checks r =
     [(one_of (dr_mode r) connect_modes, CheckViolation ''datasources_connect_mode_check''),
      (one_of (dr_family r) engine_families, CheckViolation ''datasources_engine_family_check''),
      (case dr_role r of None \<Rightarrow> True | Some x \<Rightarrow> one_of x group_roles, CheckViolation ''datasources_group_role_check''),
      (one_of (dr_health r) health_states, CheckViolation ''datasources_health_status_check''),
      (1 \<le> dr_port r \<and> dr_port r \<le> 65535, CheckViolation ''datasources_port_check''),
      ((dr_group r = None) = (dr_role r = None), CheckViolation ''group_role_pairing''),
      (dr_mode r = ''connector'' \<longrightarrow> dr_connector r \<noteq> None \<and> dr_credential r = None, CheckViolation ''mode_connector_shape''),
      (dr_mode r = ''direct'' \<longrightarrow> dr_credential r \<noteq> None \<and> dr_connector r = None, CheckViolation ''mode_direct_shape'')]"

definition ds_uniques :: "ds_row list \<Rightarrow> ds_row \<Rightarrow> (bool \<times> pg_violation) list" where
  "ds_uniques others r =
     [(\<forall>x \<in> set others. dr_id x \<noteq> dr_id r, UniqueViolation ''datasources_pkey''),
      (\<forall>x \<in> set others. dr_name x \<noteq> dr_name r, UniqueViolation ''datasources_tenant_id_name_key'')]"

definition refers :: "string option \<Rightarrow> string list \<Rightarrow> bool" where
  "refers v ids \<longleftrightarrow> (case v of None \<Rightarrow> True | Some x \<Rightarrow> x \<in> set ids)"

definition ds_refs :: "ctdb \<Rightarrow> ds_row \<Rightarrow> (bool \<times> pg_violation) list" where
  "ds_refs s r =
     [(c_known s, ForeignKeyViolation ''datasources_tenant_id_fkey''),
      (refers (dr_connector r) (map cn_id (c_conns s)), ForeignKeyViolation ''datasources_tenant_id_connector_id_fkey''),
      (refers (dr_credential r) (map cr_id (c_creds s)), ForeignKeyViolation ''datasources_tenant_id_credential_id_fkey''),
      (refers (dr_group r) (map gr_id (c_groups s)), ForeignKeyViolation ''datasources_tenant_id_group_id_fkey''),
      (refers (dr_agent r) (map ar_id (c_agents s)), ForeignKeyViolation ''datasources_tenant_id_agent_id_fkey'')]"

definition row_of_ds :: "string \<Rightarrow> int \<Rightarrow> ds_input \<Rightarrow> string option \<Rightarrow> string option \<Rightarrow> string option \<Rightarrow> string option \<Rightarrow> ds_row" where
  "row_of_ds new now q conn cred grp agent = \<lparr>dr_id = new, dr_name = di_name q, dr_family = di_family q, dr_engine = di_engine q,
     dr_version = di_version q, dr_mode = di_mode q, dr_connector = conn, dr_credential = cred, dr_host = di_host q,
     dr_port = di_port q, dr_database = di_database q, dr_group = grp, dr_role = di_role q, dr_agent = agent,
     dr_health = ''unknown'', dr_created = now, dr_updated = now\<rparr>"

definition insert_datasource :: "string \<Rightarrow> int \<Rightarrow> ds_input \<Rightarrow> ds_row ctx_body" where
  "insert_datasource new now q s =
     (case (pg_opt_uuid (di_connector q), pg_opt_uuid (di_credential q), pg_opt_uuid (di_group q), pg_opt_uuid (di_agent q)) of
        (Some conn, Some cred, Some grp, Some agent) \<Rightarrow>
          if \<not> int4 (di_port q) then Inl (Plain ''22003'')
          else (let r = row_of_ds new now q conn cred grp agent
            in case first_violation (ds_checks r @ ds_uniques (c_ds s) r @ ds_refs s r) of
              Some v \<Rightarrow> Inl (map_pg_error v)
            | None \<Rightarrow> Inr (r, s\<lparr>c_ds := c_ds s @ [r]\<rparr>))
      | _ \<Rightarrow> Inl bad_uuid)"

definition ds_key :: "ds_row \<Rightarrow> int \<times> string" where
  "ds_key r = (dr_created r, dr_id r)"

definition list_datasources :: "(int \<times> string) option \<Rightarrow> int \<Rightarrow> ctdb \<Rightarrow> ds_row list" where
  "list_datasources after limit s = key_fetch True ds_key (c_ds s) after (nat limit)"

definition find_ds :: "string \<Rightarrow> ctdb \<Rightarrow> ds_row option" where
  "find_ds did s = select_one (\<lambda>r. dr_id r = did) (c_ds s)"

definition get_datasource :: "string \<Rightarrow> ctdb \<Rightarrow> go_error + ds_row" where
  "get_datasource did s = (case pg_uuid did of None \<Rightarrow> Inl (Wrapf ''get datasource'' bad_uuid)
     | Some i \<Rightarrow> (case find_ds i s of None \<Rightarrow> Inl (api_err CodeDatasourceNotFound) | Some r \<Rightarrow> Inr r))"

text \<open>An unset field stays; an empty group, role or agent unbinds.\<close>

definition is_no_patch :: "ds_patch \<Rightarrow> bool" where
  "is_no_patch p \<longleftrightarrow> dp_name p = None \<and> dp_engine p = None \<and> dp_version p = None \<and> dp_host p = None \<and> dp_port p = None
     \<and> dp_database p = None \<and> dp_group p = None \<and> dp_role p = None \<and> dp_agent p = None"

definition or_old :: "'a option \<Rightarrow> 'a \<Rightarrow> 'a" where
  "or_old v old = (case v of None \<Rightarrow> old | Some x \<Rightarrow> x)"

definition patched_ds :: "ds_patch \<Rightarrow> string option option \<Rightarrow> string option option \<Rightarrow> int \<Rightarrow> ds_row \<Rightarrow> ds_row" where
  "patched_ds p grp agent now r = r\<lparr>dr_name := or_old (dp_name p) (dr_name r), dr_engine := or_old (dp_engine p) (dr_engine r),
     dr_version := or_old (dp_version p) (dr_version r), dr_host := or_old (dp_host p) (dr_host r),
     dr_port := or_old (dp_port p) (dr_port r), dr_database := or_old (dp_database p) (dr_database r),
     dr_group := or_old grp (dr_group r), dr_role := or_old (map_option nullable_id (dp_role p)) (dr_role r),
     dr_agent := or_old agent (dr_agent r), dr_updated := now\<rparr>"

definition patch_uuid :: "string option \<Rightarrow> string option option option" where
  "patch_uuid v = (case v of None \<Rightarrow> Some None | Some x \<Rightarrow> map_option Some (pg_opt_uuid (nullable_id x)))"

definition update_datasource :: "int \<Rightarrow> string \<Rightarrow> ds_patch \<Rightarrow> ds_row ctx_body" where
  "update_datasource now did p s = (if is_no_patch p then map_sum id (\<lambda>r. (r, s)) (get_datasource did s)
     else case (patch_uuid (dp_group p), patch_uuid (dp_agent p), pg_uuid did) of
       (Some grp, Some agent, Some i) \<Rightarrow>
         if \<not> int4 (or_old (dp_port p) 0) then Inl (Plain ''22003'')
         else (case find_ds i s of
           None \<Rightarrow> Inl (api_err CodeDatasourceNotFound)
         | Some r \<Rightarrow> (let r1 = patched_ds p grp agent now r
             in case first_violation (ds_checks r1 @ ds_uniques (delete_where (\<lambda>x. dr_id x = i) (c_ds s)) r1 @ ds_refs s r1) of
               Some v \<Rightarrow> Inl (map_pg_error v)
             | None \<Rightarrow> Inr (r1, s\<lparr>c_ds := update_where (\<lambda>x. dr_id x = i) (\<lambda>_. r1) (c_ds s)\<rparr>)))
     | _ \<Rightarrow> Inl bad_uuid)"

definition in_use_details :: "ds_row \<Rightarrow> detail list" where
  "in_use_details r = (if dr_group r \<noteq> None then [(''group_id'', ''in group'')] else [])
     @ (if dr_agent r \<noteq> None then [(''agent_id'', ''bound'')] else [])"

text \<open>Deleting the row takes its aliases with it; the credential goes unless another row refers to it.\<close>

definition delete_datasource :: "string \<Rightarrow> unit ctx_body" where
  "delete_datasource did s = (case get_datasource did s of Inl e \<Rightarrow> Inl e
     | Inr r \<Rightarrow> if dr_group r \<noteq> None \<or> dr_agent r \<noteq> None then Inl (api_err_details CodeDatasourceInUse (in_use_details r))
         else (let s1 = s\<lparr>c_ds := delete_where (\<lambda>x. dr_id x = dr_id r) (c_ds s),
                 c_aliases := delete_where (\<lambda>a. al_ds a = dr_id r) (c_aliases s)\<rparr>
           in case dr_credential r of None \<Rightarrow> Inr ((), s1)
             | Some k \<Rightarrow> if \<exists>x \<in> set (c_ds s1). dr_credential x = Some k
                 then Inl (Wrapf ''delete orphan credential'' (Plain ''23503''))
                 else Inr ((), s1\<lparr>c_creds := delete_where (\<lambda>c. cr_id c = k) (c_creds s1)\<rparr>)))"

section \<open>credentials.go\<close>

definition insert_credential :: "string \<Rightarrow> int \<Rightarrow> string \<Rightarrow> string \<Rightarrow> string \<Rightarrow> string ctx_body" where
  "insert_credential new now user cipher key s = (case first_violation
       [(\<forall>c \<in> set (c_creds s). cr_id c \<noteq> new, UniqueViolation ''datasource_credentials_pkey''),
        (c_known s, ForeignKeyViolation ''datasource_credentials_tenant_id_fkey'')] of
     Some v \<Rightarrow> Inl (map_pg_error v)
   | None \<Rightarrow> Inr (new, s\<lparr>c_creds := c_creds s @ [\<lparr>cr_id = new, cr_username = user, cr_secret = cipher, cr_key = key,
       cr_rotated = None, cr_created = now\<rparr>]\<rparr>))"

definition rotate_credential :: "int \<Rightarrow> string \<Rightarrow> string \<Rightarrow> string \<Rightarrow> string \<Rightarrow> unit ctx_body" where
  "rotate_credential now cid user cipher key s = (if count_where (\<lambda>c. cr_id c = cid) (c_creds s) = 0
     then Inl (Wrapf ''rotate credential'' (Plain cid))
     else Inr ((), s\<lparr>c_creds := update_where (\<lambda>c. cr_id c = cid)
       (\<lambda>c. c\<lparr>cr_username := user, cr_secret := cipher, cr_key := key, cr_rotated := Some now\<rparr>) (c_creds s)\<rparr>))"

definition rotate_datasource_credential :: "int \<Rightarrow> string \<Rightarrow> string \<Rightarrow> string \<Rightarrow> string \<Rightarrow> unit ctx_body" where
  "rotate_datasource_credential now did user cipher key s = (case pg_uuid did of
     None \<Rightarrow> Inl (Wrapf ''locate datasource credential'' bad_uuid)
   | Some i \<Rightarrow> (case Option.bind (select_one (\<lambda>r. dr_id r = i \<and> dr_credential r \<noteq> None) (c_ds s)) dr_credential of
       None \<Rightarrow> Inl (Wrapf ''locate datasource credential'' (Plain ''no rows''))
     | Some cid \<Rightarrow> rotate_credential now cid user cipher key s))"

record direct_conn_info =
  dc_host :: string
  dc_port :: int
  dc_database :: string
  dc_family :: string
  dc_mode :: string
  dc_username :: string
  dc_secret :: string
  dc_key :: string

definition direct_conn_unavailable :: "string \<Rightarrow> ctdb \<Rightarrow> go_error" where
  "direct_conn_unavailable did s = (case get_datasource did s of Inl e \<Rightarrow> e
     | Inr r \<Rightarrow> if dr_mode r \<noteq> ''direct'' then api_err_details CodeDatasourceModeMismatch [(''connect_mode'', ''direct only'')]
         else api_err_details CodeValidationFailed [(''credential'', ''none'')])"

definition get_direct_conn_info :: "string \<Rightarrow> ctdb \<Rightarrow> go_error + direct_conn_info" where
  "get_direct_conn_info did s = (case pg_uuid did of None \<Rightarrow> Inl (Wrapf ''get direct conn info'' bad_uuid)
     | Some i \<Rightarrow> (case find_ds i s of None \<Rightarrow> Inl (direct_conn_unavailable did s)
       | Some r \<Rightarrow> (case select_one (\<lambda>c. Some (cr_id c) = dr_credential r) (c_creds s) of
           None \<Rightarrow> Inl (direct_conn_unavailable did s)
         | Some c \<Rightarrow> Inr \<lparr>dc_host = dr_host r, dc_port = dr_port r, dc_database = dr_database r, dc_family = dr_family r,
             dc_mode = dr_mode r, dc_username = cr_username c, dc_secret = cr_secret c, dc_key = cr_key c\<rparr>)))"

section \<open>agents.go\<close>

record agent_input =
  ai_name :: string
  ai_kind :: string
  ai_doc :: string

record agent_patch =
  au_name :: "string option"
  au_status :: "string option"
  au_doc :: "string option"

definition agent_checks :: "agent_row \<Rightarrow> (bool \<times> pg_violation) list" where
  "agent_checks r = [(one_of (ar_kind r) [''assistant'', ''domain''], CheckViolation ''agents_kind_check''),
     (one_of (ar_status r) [''running'', ''paused''], CheckViolation ''agents_status_check'')]"

definition agent_uniques :: "agent_row list \<Rightarrow> agent_row \<Rightarrow> (bool \<times> pg_violation) list" where
  "agent_uniques others r = [(\<forall>x \<in> set others. ar_id x \<noteq> ar_id r, UniqueViolation ''agents_pkey''),
     (\<forall>x \<in> set others. ar_name x \<noteq> ar_name r, UniqueViolation ''agents_tenant_id_name_key'')]"

definition insert_agent :: "string \<Rightarrow> int \<Rightarrow> agent_input \<Rightarrow> agent_row ctx_body" where
  "insert_agent new now q s = (let r = \<lparr>ar_id = new, ar_name = ai_name q, ar_kind = ai_kind q, ar_status = ''running'',
       ar_doc = ai_doc q, ar_version = 1, ar_created = now, ar_updated = now\<rparr>
     in case first_violation (agent_checks r @ agent_uniques (c_agents s) r
         @ [(c_known s, ForeignKeyViolation ''agents_tenant_id_fkey'')]) of
       Some v \<Rightarrow> Inl (map_pg_error v) | None \<Rightarrow> Inr (r, s\<lparr>c_agents := c_agents s @ [r]\<rparr>))"

definition list_agents_page :: "(int \<times> string) option \<Rightarrow> int \<Rightarrow> ctdb \<Rightarrow> agent_row list" where
  "list_agents_page after limit s = key_fetch True (\<lambda>r. (ar_created r, ar_id r)) (c_agents s) after (nat limit)"

definition get_agent :: "string \<Rightarrow> ctdb \<Rightarrow> go_error + agent_row" where
  "get_agent aid s = (case pg_uuid aid of None \<Rightarrow> Inl (Wrapf ''get agent'' bad_uuid)
     | Some i \<Rightarrow> (case select_one (\<lambda>r. ar_id r = i) (c_agents s) of None \<Rightarrow> Inl (api_err CodeAgentNotFound) | Some r \<Rightarrow> Inr r))"

text \<open>A new document also counts the version.\<close>

definition patched_agent :: "agent_patch \<Rightarrow> int \<Rightarrow> agent_row \<Rightarrow> agent_row" where
  "patched_agent p now r = r\<lparr>ar_name := or_old (au_name p) (ar_name r), ar_status := or_old (au_status p) (ar_status r),
     ar_doc := or_old (au_doc p) (ar_doc r), ar_version := (if au_doc p = None then ar_version r else ar_version r + 1),
     ar_updated := now\<rparr>"

definition update_agent :: "int \<Rightarrow> string \<Rightarrow> agent_patch \<Rightarrow> agent_row ctx_body" where
  "update_agent now aid p s = (if au_name p = None \<and> au_status p = None \<and> au_doc p = None
     then map_sum id (\<lambda>r. (r, s)) (get_agent aid s)
     else on_uuid aid (\<lambda>i. case select_one (\<lambda>r. ar_id r = i) (c_agents s) of
         None \<Rightarrow> Inl (api_err CodeAgentNotFound)
       | Some r \<Rightarrow> (let r1 = patched_agent p now r
           in if \<not> int4 (ar_version r1) then Inl (Plain ''22003'')
           else case first_violation (agent_checks r1 @ agent_uniques (delete_where (\<lambda>x. ar_id x = i) (c_agents s)) r1) of
             Some v \<Rightarrow> Inl (map_pg_error v)
           | None \<Rightarrow> Inr (r1, s\<lparr>c_agents := update_where (\<lambda>x. ar_id x = i) (\<lambda>_. r1) (c_agents s)\<rparr>))))"

text \<open>\<open>named\<close> holds of the agents that a thread of the agent runtime refers to.\<close>

definition delete_agent :: "(string \<Rightarrow> bool) \<Rightarrow> string \<Rightarrow> unit ctx_body" where
  "delete_agent named aid s = (case pg_uuid aid of None \<Rightarrow> Inl (Wrapf ''count agent bindings'' bad_uuid)
     | Some i \<Rightarrow> if 0 < count_where (\<lambda>r. dr_agent r = Some i) (c_ds s)
         then Inl (api_err_details CodeCommonConflict [(''agent_id'', ''bound'')])
         else if count_where (\<lambda>r. ar_id r = i) (c_agents s) = 0 then Inl (api_err CodeAgentNotFound)
         else if named i then Inl (map_pg_error (ForeignKeyViolation ''agent_threads_tenant_id_agent_id_fkey''))
         else Inr ((), s\<lparr>c_agents := delete_where (\<lambda>r. ar_id r = i) (c_agents s)\<rparr>))"

section \<open>groups.go\<close>

definition insert_group :: "string \<Rightarrow> int \<Rightarrow> string \<Rightarrow> string \<Rightarrow> group_row ctx_body" where
  "insert_group new now name kind s = (case first_violation
       [(one_of kind [''primary_standby'', ''cluster''], CheckViolation ''datasource_groups_kind_check''),
        (\<forall>g \<in> set (c_groups s). gr_id g \<noteq> new, UniqueViolation ''datasource_groups_pkey''),
        (c_known s, ForeignKeyViolation ''datasource_groups_tenant_id_fkey'')] of
     Some v \<Rightarrow> Inl (map_pg_error v)
   | None \<Rightarrow> (let g = \<lparr>gr_id = new, gr_name = name, gr_kind = kind, gr_created = now, gr_updated = now\<rparr>
       in Inr (g, s\<lparr>c_groups := c_groups s @ [g]\<rparr>)))"

definition list_groups :: "(int \<times> string) option \<Rightarrow> int \<Rightarrow> ctdb \<Rightarrow> group_row list" where
  "list_groups after limit s = key_fetch True (\<lambda>g. (gr_created g, gr_id g)) (c_groups s) after (nat limit)"

definition get_group :: "string \<Rightarrow> ctdb \<Rightarrow> go_error + group_row" where
  "get_group gid s = (case pg_uuid gid of None \<Rightarrow> Inl (Wrapf ''get group'' bad_uuid)
     | Some i \<Rightarrow> (case select_one (\<lambda>g. gr_id g = i) (c_groups s) of None \<Rightarrow> Inl (api_err CodeCommonNotFound) | Some g \<Rightarrow> Inr g))"

definition rename_group :: "int \<Rightarrow> string \<Rightarrow> string \<Rightarrow> group_row ctx_body" where
  "rename_group now gid name s = on_uuid gid (\<lambda>i. case select_one (\<lambda>g. gr_id g = i) (c_groups s) of
     None \<Rightarrow> Inl (api_err CodeCommonNotFound)
   | Some g \<Rightarrow> (let g1 = g\<lparr>gr_name := name, gr_updated := now\<rparr>
       in Inr (g1, s\<lparr>c_groups := update_where (\<lambda>x. gr_id x = i) (\<lambda>_. g1) (c_groups s)\<rparr>)))"

definition delete_group :: "string \<Rightarrow> unit ctx_body" where
  "delete_group gid s = (case pg_uuid gid of None \<Rightarrow> Inl (Wrapf ''count group members'' bad_uuid)
     | Some i \<Rightarrow> if 0 < count_where (\<lambda>r. dr_group r = Some i) (c_ds s)
         then Inl (api_err_details CodeCommonConflict [(''group_id'', ''members'')])
         else if count_where (\<lambda>g. gr_id g = i) (c_groups s) = 0 then Inl (api_err CodeCommonNotFound)
         else Inr ((), s\<lparr>c_groups := delete_where (\<lambda>g. gr_id g = i) (c_groups s)\<rparr>))"

section \<open>aliases.go\<close>

definition insert_alias :: "string \<Rightarrow> int \<Rightarrow> string \<Rightarrow> string \<Rightarrow> string \<Rightarrow> alias_row ctx_body" where
  "insert_alias new now did alias source s = on_uuid did (\<lambda>i. case first_violation
       [(one_of source [''manual'', ''conversation''], CheckViolation ''datasource_aliases_source_check''),
        (\<forall>a \<in> set (c_aliases s). al_id a \<noteq> new, UniqueViolation ''datasource_aliases_pkey''),
        (\<forall>a \<in> set (c_aliases s). al_alias a \<noteq> alias, UniqueViolation ''datasource_aliases_tenant_id_alias_key''),
        (c_known s, ForeignKeyViolation ''datasource_aliases_tenant_id_fkey''),
        (i \<in> set (map dr_id (c_ds s)), ForeignKeyViolation ''datasource_aliases_tenant_id_datasource_id_fkey'')] of
     Some v \<Rightarrow> Inl (map_pg_error v)
   | None \<Rightarrow> (let a = \<lparr>al_id = new, al_ds = i, al_alias = alias, al_source = source, al_created = now\<rparr>
       in Inr (a, s\<lparr>c_aliases := c_aliases s @ [a]\<rparr>)))"

definition list_aliases :: "string \<Rightarrow> ctdb \<Rightarrow> go_error + alias_row list" where
  "list_aliases did s = (case pg_uuid did of None \<Rightarrow> Inl (Wrapf ''list aliases'' bad_uuid)
     | Some i \<Rightarrow> Inr (sort_key (\<lambda>a. (al_created a, al_id a)) (filter (\<lambda>a. al_ds a = i) (c_aliases s))))"

definition delete_alias :: "string \<Rightarrow> string \<Rightarrow> unit ctx_body" where
  "delete_alias did alias s = on_uuid did (\<lambda>i. let p = (\<lambda>a. al_ds a = i \<and> al_alias a = alias)
     in if count_where p (c_aliases s) = 0 then Inl (api_err CodeCommonNotFound)
     else Inr ((), s\<lparr>c_aliases := delete_where p (c_aliases s)\<rparr>))"

end
