(* ===== verification/TsStore.thy ===== *)
theory TsStore
  imports MetricsProps ConsoleInventory
begin

text \<open>
  The store of collected data, \<^verbatim>\<open>console/internal/tsstore\<close>: readings as series rows and
  entities (\<^verbatim>\<open>series.go\<close>), slowly changing state as versioned snapshots
  (\<^verbatim>\<open>snapshot.go\<close>), their tenant transaction (\<^verbatim>\<open>sink.go\<close>) and the queries
  (\<^verbatim>\<open>query.go\<close>). A tenant's tables are one record, as in the control plane's database; the
  datasources that foreign keys refer to are an argument. Retention, compression and the refresh of the
  continuous aggregates are the database's: what it has materialised is an argument of a query.
\<close>

section \<open>Tables\<close>

record series_row =
  sr_ds :: string
  sr_name :: string
  sr_entity :: string
  sr_value :: string
  sr_at :: "int option"

record entity_row =
  en_ds :: string
  en_kind :: string
  en_id :: string
  en_label :: string
  en_native :: string
  en_first :: "int option"
  en_last :: "int option"

record snap_row =
  sp_id :: string
  sp_ds :: string
  sp_kind :: string
  sp_source :: string
  sp_missing :: bool
  sp_cut :: bool
  sp_catalog :: int
  sp_hash :: string
  sp_payload :: json
  sp_at :: "int option"
  sp_created :: "int option"
  sp_superseded :: "int option option"

record tstables =
  ts_series :: "series_row list"
  ts_entities :: "entity_row list"
  ts_snaps :: "snap_row list"

record tsdb =
  ts_slice :: "string \<Rightarrow> tstables"

definition empty_tstables :: tstables where
  "empty_tstables = \<lparr>ts_series = [], ts_entities = [], ts_snaps = []\<rparr>"

text \<open>The later of two times; the zero time is before every other.\<close>

definition later :: "int option \<Rightarrow> int option \<Rightarrow> int option" where
  "later a b = (case (a, b) of (None, _) \<Rightarrow> b | (_, None) \<Rightarrow> a | (Some x, Some y) \<Rightarrow> Some (max x y))"

section \<open>sink.go\<close>

type_synonym 'a ts_body = "tstables \<Rightarrow> go_error + 'a \<times> tstables"

definition ts_tx :: "tx_fault \<Rightarrow> string option \<Rightarrow> 'a ts_body \<Rightarrow> tsdb \<Rightarrow> (go_error + 'a) \<times> tsdb" where
  "ts_tx flt ctx body d = (case tenant_from_context ctx of
     None \<Rightarrow> (Inl (api_err CodeTenantContextMissing), d)
   | Some t \<Rightarrow>
       if flt = FailBegin then (Inl (Wrapf ''tsstore: begin'' (Plain ''db'')), d)
       else if flt = FailRole then (Inl (Wrapf ''tsstore: set role'' (Plain ''db'')), d)
       else if flt = FailGuc then (Inl (Wrapf ''tsstore: set tenant guc'' (Plain ''db'')), d)
       else if flt = FailStmt then (Inl (api_wrap CodeTimeseriesWriteFailed (Plain ''db'')), d)
       else (case body (ts_slice d t) of
           Inl e \<Rightarrow> (Inl e, d)
         | Inr (x, s) \<Rightarrow> if flt = FailCommit then (Inl (Wrapf ''tsstore: commit'' (Plain ''db'')), d)
             else (Inr x, d\<lparr>ts_slice := (ts_slice d)(t := s)\<rparr>)))"

definition default_batch_max_rows :: int where "default_batch_max_rows = 5000"

definition batch_max_rows_of :: "int \<Rightarrow> nat" where
  "batch_max_rows_of n = nat (if n \<le> 0 then default_batch_max_rows else n)"

section \<open>series.go\<close>

text \<open>Rows in groups of the configured size, each one batch of statements.\<close>

definition write_failed :: "go_error \<Rightarrow> go_error" where
  "write_failed e = api_wrap CodeTimeseriesWriteFailed e"

fun insert_rows :: "series_row list \<Rightarrow> unit ts_body" where
  "insert_rows [] s = Inr ((), s)"
| "insert_rows (r # rs) s = (case pg_uuid (sr_ds r) of None \<Rightarrow> Inl (write_failed (Plain ''22P02''))
     | Some i \<Rightarrow> insert_rows rs (s\<lparr>ts_series := ts_series s @ [r\<lparr>sr_ds := i\<rparr>]\<rparr>))"

function insert_series :: "nat \<Rightarrow> series_row list \<Rightarrow> unit ts_body" where
  "insert_series m rows s = (if rows = [] \<or> m = 0 then Inr ((), s)
     else (case insert_rows (take m rows) s of Inl e \<Rightarrow> Inl e | Inr (_, s1) \<Rightarrow> insert_series m (drop m rows) s1))"
  by pat_completeness auto
termination by (relation "measure (\<lambda>(m, rows, s). length rows)") auto

declare insert_series.simps [simp del]

definition metric_rows :: "batch \<Rightarrow> go_error + series_row list" where
  "metric_rows b = (case List.map_filter (\<lambda>m. validate_series_entity (me_name m) []) (ba_metrics b) of
     e # _ \<Rightarrow> Inl (api_wrap CodeTimeseriesUndeclaredSeries e)
   | [] \<Rightarrow> Inr (map (\<lambda>m. \<lparr>sr_ds = ba_ds b, sr_name = me_name m, sr_entity = [], sr_value = me_value m, sr_at = me_at m\<rparr>) (ba_metrics b)))"

definition ts_publish :: "nat \<Rightarrow> tx_fault \<Rightarrow> string option \<Rightarrow> batch \<Rightarrow> tsdb \<Rightarrow> (go_error + unit) \<times> tsdb" where
  "ts_publish m flt ctx b d = (case metric_rows b of Inl e \<Rightarrow> (Inl e, d)
     | Inr rows \<Rightarrow> if rows = [] then (Inr (), d) else ts_tx flt ctx (insert_series m rows) d)"

definition query_entity :: "(string \<Rightarrow> string) \<Rightarrow> snapshot \<Rightarrow> slow_query \<Rightarrow> entity_row" where
  "query_entity sha s q = \<lparr>en_ds = sn_ds s, en_kind = entity_kind_query, en_id = entity_id_for sha (sq_text q), en_label = sq_text q,
     en_native = sq_id q, en_first = sn_at s, en_last = sn_at s\<rparr>"

definition query_rows :: "(string \<Rightarrow> string) \<Rightarrow> float_ops \<Rightarrow> snapshot \<Rightarrow> slow_query \<Rightarrow> series_row list" where
  "query_rows sha fl s q = map (\<lambda>(n, v). \<lparr>sr_ds = sn_ds s, sr_name = n, sr_entity = entity_id_for sha (sq_text q), sr_value = v,
     sr_at = sn_at s\<rparr>) (slow_query_values fl q)"

definition same_entity :: "entity_row \<Rightarrow> entity_row \<Rightarrow> bool" where
  "same_entity a b \<longleftrightarrow> en_ds a = en_ds b \<and> en_kind a = en_kind b \<and> en_id a = en_id b"

definition upsert_entity :: "string list \<Rightarrow> entity_row \<Rightarrow> unit ts_body" where
  "upsert_entity dss e s = (case pg_uuid (en_ds e) of None \<Rightarrow> Inl (write_failed (Plain ''22P02''))
     | Some i \<Rightarrow> (let e1 = e\<lparr>en_ds := i\<rparr> in
         if count_where (same_entity e1) (ts_entities s) \<noteq> 0
         then Inr ((), s\<lparr>ts_entities := update_where (same_entity e1) (\<lambda>r. r\<lparr>en_last := later (en_last r) (en_last e1),
           en_label := en_label e1, en_native := en_native e1\<rparr>) (ts_entities s)\<rparr>)
         else if i \<notin> set dss then Inl (write_failed (Plain ''23503''))
         else Inr ((), s\<lparr>ts_entities := ts_entities s @ [e1]\<rparr>)))"

fun upsert_entities :: "string list \<Rightarrow> entity_row list \<Rightarrow> unit ts_body" where
  "upsert_entities dss [] s = Inr ((), s)"
| "upsert_entities dss (e # es) s = (case upsert_entity dss e s of Inl er \<Rightarrow> Inl er | Inr (_, s1) \<Rightarrow> upsert_entities dss es s1)"

definition slowlog_tx :: "nat \<Rightarrow> string list \<Rightarrow> entity_row list \<Rightarrow> series_row list \<Rightarrow> unit ts_body" where
  "slowlog_tx m dss es rows s = (case upsert_entities dss es s of Inl e \<Rightarrow> Inl e | Inr (_, s1) \<Rightarrow> insert_series m rows s1)"

definition publish_slowlog :: "(string \<Rightarrow> string) \<Rightarrow> float_ops \<Rightarrow> nat \<Rightarrow> tx_fault \<Rightarrow> string option \<Rightarrow> string list \<Rightarrow> snapshot \<Rightarrow> tsdb
    \<Rightarrow> (go_error + unit) \<times> tsdb" where
  "publish_slowlog sha fl m flt ctx dss s d = (let rows = concat (map (query_rows sha fl s) (sn_queries s)) in
     case List.map_filter (\<lambda>r. validate_series_entity (sr_name r) (sr_entity r)) rows of
       e # _ \<Rightarrow> (Inl (api_wrap CodeTimeseriesUndeclaredSeries e), d)
     | [] \<Rightarrow> if rows = [] then (Inr (), d)
         else ts_tx flt ctx (slowlog_tx m dss (map (query_entity sha s) (sn_queries s)) rows) d)"

section \<open>snapshot.go\<close>

text \<open>The content of a snapshot, without what changes with every collection.\<close>

definition content_json :: "snapshot \<Rightarrow> json" where
  "content_json s = JObj (omit_list ''tables'' table_json (sn_tables s) @ omit_list ''configs'' config_json (sn_configs s)
     @ omit_false ''capability_missing'' (sn_missing s) @ omit_false ''truncated'' (sn_cut s))"

definition is_current :: "string \<Rightarrow> string \<Rightarrow> snap_row \<Rightarrow> bool" where
  "is_current ds kind r \<longleftrightarrow> sp_ds r = ds \<and> sp_kind r = kind \<and> sp_superseded r = None"

definition state_tx :: "(string \<Rightarrow> string) \<Rightarrow> string \<Rightarrow> string list \<Rightarrow> snapshot \<Rightarrow> unit ts_body" where
  "state_tx sha new dss s t = (case pg_uuid (sn_ds s) of None \<Rightarrow> Inl (write_failed (Plain ''22P02''))
   | Some i \<Rightarrow> (let hash = sha (json_text (content_json s));
         row = \<lparr>sp_id = new, sp_ds = i, sp_kind = sn_kind s, sp_source = sn_source s, sp_missing = sn_missing s, sp_cut = sn_cut s,
           sp_catalog = sn_catalog s, sp_hash = hash, sp_payload = content_json s, sp_at = sn_at s, sp_created = sn_at s,
           sp_superseded = None\<rparr>;
         insert = (\<lambda>t1. if \<not> int4 (sn_catalog s) then Inl (write_failed (Plain ''22003''))
             else if (\<exists>r \<in> set (ts_snaps t1). sp_id r = new) \<or> (\<exists>r \<in> set (ts_snaps t1). is_current i (sn_kind s) r) then Inl (write_failed (Plain ''23505''))
             else if i \<notin> set dss then Inl (write_failed (Plain ''23503''))
             else Inr ((), t1\<lparr>ts_snaps := ts_snaps t1 @ [row]\<rparr>)) in
       case select_one (is_current i (sn_kind s)) (ts_snaps t) of
         None \<Rightarrow> insert t
       | Some cur \<Rightarrow> if sp_hash cur = hash
           then Inr ((), t\<lparr>ts_snaps := update_where (\<lambda>r. sp_id r = sp_id cur) (\<lambda>r. r\<lparr>sp_at := later (sp_at r) (sn_at s)\<rparr>) (ts_snaps t)\<rparr>)
           else insert (t\<lparr>ts_snaps := update_where (\<lambda>r. sp_id r = sp_id cur) (\<lambda>r. r\<lparr>sp_superseded := Some (sn_at s)\<rparr>) (ts_snaps t)\<rparr>)))"

definition publish_snapshot :: "(string \<Rightarrow> string) \<Rightarrow> float_ops \<Rightarrow> nat \<Rightarrow> tx_fault \<Rightarrow> string option \<Rightarrow> string list \<Rightarrow> string \<Rightarrow> snapshot
    \<Rightarrow> tsdb \<Rightarrow> (go_error + unit) \<times> tsdb" where
  "publish_snapshot sha fl m flt ctx dss new s d = (if sn_kind s = ''slowlog'' then publish_slowlog sha fl m flt ctx dss s d
     else if sn_kind s = ''schema'' \<or> sn_kind s = ''config'' then ts_tx flt ctx (state_tx sha new dss s) d
     else (Inl (api_wrap CodeCollectUnsupportedKind (Plain ''kind'')), d))"

section \<open>query.go\<close>

text \<open>Durations are in nanoseconds, ages of times in microseconds.\<close>

datatype layer = RawLayer | FiveMinLayer | HourLayer

definition raw_retention :: int where "raw_retention = 14 * 24 * 3600000000"
definition five_min_ret :: int where "five_min_ret = 90 * 24 * 3600000000"

definition layer_for :: "int \<Rightarrow> int \<Rightarrow> layer" where
  "layer_for lo now = (if now - lo \<le> raw_retention then RawLayer else if now - lo \<le> five_min_ret then FiveMinLayer else HourLayer)"

text \<open>A row of a layer: time, average, extremes, last value and the number of samples.\<close>

record layer_row =
  lr_ds :: string
  lr_name :: string
  lr_entity :: string
  lr_at :: int
  lr_avg :: string
  lr_min :: string
  lr_max :: string
  lr_last :: string
  lr_count :: int

record point =
  pt_at :: int
  pt_avg :: string
  pt_min :: string
  pt_max :: string
  pt_last :: string
  pt_samples :: int

text \<open>What the database does with floats, and the aggregates that it has materialised.\<close>

record ts_views =
  tv_avg :: "(string \<times> int) list \<Rightarrow> string"
  tv_min :: "string list \<Rightarrow> string"
  tv_max :: "string list \<Rightarrow> string"
  tv_five :: "layer_row list"
  tv_hour :: "layer_row list"

definition raw_row :: "series_row \<Rightarrow> layer_row option" where
  "raw_row r = map_option (\<lambda>t. \<lparr>lr_ds = sr_ds r, lr_name = sr_name r, lr_entity = sr_entity r, lr_at = t, lr_avg = sr_value r,
     lr_min = sr_value r, lr_max = sr_value r, lr_last = sr_value r, lr_count = 1\<rparr>) (sr_at r)"

definition layer_rows :: "ts_views \<Rightarrow> layer \<Rightarrow> tstables \<Rightarrow> layer_row list" where
  "layer_rows v l s = (case l of RawLayer \<Rightarrow> List.map_filter raw_row (ts_series s) | FiveMinLayer \<Rightarrow> tv_five v | HourLayer \<Rightarrow> tv_hour v)"

text \<open>\<open>time_bucket\<close> counts from the third of January 2000.\<close>

definition time_bucket :: "int \<Rightarrow> int \<Rightarrow> int" where
  "time_bucket step t = (let o0 = 946857600000000 in o0 + (t - o0) div step * step)"

definition latest_last :: "layer_row list \<Rightarrow> string" where
  "latest_last rs = lr_last (last (order_by lr_at rs))"

definition points_of :: "ts_views \<Rightarrow> int \<Rightarrow> layer_row list \<Rightarrow> point list" where
  "points_of v step rs = map (\<lambda>b. let g = filter (\<lambda>r. time_bucket step (lr_at r) = b) rs in
     \<lparr>pt_at = b, pt_avg = tv_avg v (map (\<lambda>r. (lr_avg r, lr_count r)) g), pt_min = tv_min v (map lr_min g), pt_max = tv_max v (map lr_max g),
      pt_last = latest_last g, pt_samples = sum_list (map lr_count g)\<rparr>) (sort (remdups (map (\<lambda>r. time_bucket step (lr_at r)) rs)))"

definition series_range :: "ts_views \<Rightarrow> tx_fault \<Rightarrow> string option \<Rightarrow> int \<Rightarrow> string \<Rightarrow> string \<Rightarrow> string \<Rightarrow> int \<Rightarrow> int \<Rightarrow> int \<Rightarrow> tsdb
    \<Rightarrow> go_error + point list" where
  "series_range v flt ctx now ds name entity lo hi step d = (if step \<le> 0 then Inl (api_wrap CodeTimeseriesQueryFailed (Plain ''step''))
     else (case fst (ts_tx flt ctx (\<lambda>s. case pg_uuid ds of None \<Rightarrow> Inl (Wrapf ''query'' (Plain ''22P02''))
         | Some i \<Rightarrow> Inr (points_of v (step div 1000) (filter (\<lambda>r. lr_ds r = i \<and> lr_name r = name \<and> lr_entity r = entity
             \<and> lo \<le> lr_at r \<and> lr_at r < hi) (layer_rows v (layer_for lo now) s)), s)) d) of
       Inl e \<Rightarrow> Inl (api_wrap CodeTimeseriesQueryFailed e) | Inr ps \<Rightarrow> Inr ps))"

text \<open>The lists of a stored payload. Its two flags repeat those of the row.\<close>

definition content_of :: "json \<Rightarrow> (table_info list \<times> config_entry list) option" where
  "content_of j = (case struct_members j of None \<Rightarrow> None
     | Some kvs \<Rightarrow> (case (list_field (as_elem (table_of False)) ''tables'' kvs, list_field (as_elem (config_of False)) ''configs'' kvs) of
         (Some ts, Some cs) \<Rightarrow> Some (ts, cs) | _ \<Rightarrow> None))"

definition latest_snapshot :: "tx_fault \<Rightarrow> string option \<Rightarrow> string \<Rightarrow> string \<Rightarrow> tsdb
    \<Rightarrow> go_error + (snap_row \<times> table_info list \<times> config_entry list) option" where
  "latest_snapshot flt ctx ds kind d = (case fst (ts_tx flt ctx (\<lambda>s. case pg_uuid ds of None \<Rightarrow> Inl (Wrapf ''load latest snapshot'' (Plain ''22P02''))
       | Some i \<Rightarrow> (case select_one (is_current i kind) (ts_snaps s) of None \<Rightarrow> Inr (None, s)
           | Some r \<Rightarrow> (case content_of (sp_payload r) of None \<Rightarrow> Inl (Wrapf ''decode snapshot payload'' (Plain ''json''))
               | Some c \<Rightarrow> Inr (Some (r, c), s)))) d) of
     Inl e \<Rightarrow> Inl (api_wrap CodeTimeseriesQueryFailed e) | Inr x \<Rightarrow> Inr x)"

text \<open>Newest first; the zero time is the oldest.\<close>

definition stamp_rank :: "int option \<Rightarrow> int" where
  "stamp_rank t = (case t of None \<Rightarrow> - 62135596800000000 | Some u \<Rightarrow> u)"

definition snapshot_history :: "tx_fault \<Rightarrow> string option \<Rightarrow> string \<Rightarrow> string \<Rightarrow> int \<Rightarrow> tsdb \<Rightarrow> go_error + snap_row list" where
  "snapshot_history flt ctx ds kind limit d = (let n = nat (if limit \<le> 0 then 20 else limit) in
     case fst (ts_tx flt ctx (\<lambda>s. case pg_uuid ds of None \<Rightarrow> Inl (Wrapf ''query snapshot history'' (Plain ''22P02''))
       | Some i \<Rightarrow> Inr (take n (order_by (\<lambda>r. - stamp_rank (sp_created r)) (filter (\<lambda>r. sp_ds r = i \<and> sp_kind r = kind) (ts_snaps s))), s)) d) of
     Inl e \<Rightarrow> Inl (api_wrap CodeTimeseriesQueryFailed e) | Inr x \<Rightarrow> Inr x)"

end
