(* ===== verification/TsProps.thy ===== *)
theory TsProps
  imports TsStore
begin

text \<open>
  What holds of the collected data of every tenant, whatever is published: readings are of declared series,
  with the entities they belong to; a datasource has one current snapshot of a kind, and it is the one published last.
\<close>

section \<open>Transactions\<close>

lemma ts_tx_Inr:
  assumes "ts_tx flt ctx body d = (Inr x, d')"
  obtains t s where "ctx = Some t" "t \<noteq> []" "body (ts_slice d t) = Inr (x, s)" "d' = d\<lparr>ts_slice := (ts_slice d)(t := s)\<rparr>"
  using assms by (auto simp: ts_tx_def tenant_from_context_Some split: option.splits sum.splits if_splits)

lemma ts_tx_Inl: "ts_tx flt ctx body d = (Inl e, d') \<Longrightarrow> d' = d"
  by (auto simp: ts_tx_def split: option.splits sum.splits if_splits)

lemma ts_tx_ok:
  "t \<noteq> [] \<Longrightarrow> ts_tx NoFault (Some t) body d = (case body (ts_slice d t) of
      Inl e \<Rightarrow> (Inl e, d) | Inr (x, s) \<Rightarrow> (Inr x, d\<lparr>ts_slice := (ts_slice d)(t := s)\<rparr>))"
  by (simp add: ts_tx_def tenant_from_context_def split: sum.splits)

section \<open>Readings\<close>

definition ent_key :: "entity_row \<Rightarrow> string \<times> string \<times> string" where
  "ent_key e = (en_ds e, en_kind e, en_id e)"

definition ent_keys :: "tstables \<Rightarrow> (string \<times> string \<times> string) list" where
  "ent_keys s = map ent_key (ts_entities s)"

lemma ent_keys_simps [simp]: "ent_keys (s\<lparr>ts_series := x\<rparr>) = ent_keys s" "ent_keys (s\<lparr>ts_snaps := y\<rparr>) = ent_keys s"
  by (simp_all add: ent_keys_def)

lemma same_entity_key: "same_entity a b \<longleftrightarrow> ent_key a = ent_key b"
  by (simp add: same_entity_def ent_key_def)

lemma insert_rows_Inr:
  "insert_rows rs s = Inr (u, s') \<Longrightarrow> s' = s\<lparr>ts_series := ts_series s @ map (\<lambda>r. r\<lparr>sr_ds := the (pg_uuid (sr_ds r))\<rparr>) rs\<rparr>
     \<and> (\<forall>r \<in> set rs. pg_uuid (sr_ds r) \<noteq> None)"
  by (induction rs arbitrary: s) (fastforce split: option.splits)+

lemma insert_series_Inr:
  "insert_series m rs s = Inr (u, s') \<Longrightarrow> 0 < m \<Longrightarrow>
     s' = s\<lparr>ts_series := ts_series s @ map (\<lambda>r. r\<lparr>sr_ds := the (pg_uuid (sr_ds r))\<rparr>) rs\<rparr> \<and> (\<forall>r \<in> set rs. pg_uuid (sr_ds r) \<noteq> None)"
proof (induction "length rs" arbitrary: rs s rule: less_induct)
  case less
  show ?case
  proof (cases "rs = []")
    case True
    with less show ?thesis by (simp add: insert_series.simps)
  next
    case False
    with less.prems obtain u1 s1 where i: "insert_rows (take m rs) s = Inr (u1, s1)" "insert_series m (drop m rs) s1 = Inr (u, s')"
      by (subst (asm) insert_series.simps) (auto split: sum.splits)
    have "length (drop m rs) < length rs" using False less.prems(2) by simp
    from less.hyps [OF this i(2) less.prems(2)] insert_rows_Inr [OF i(1)]
    have "s' = s\<lparr>ts_series := ts_series s @ map (\<lambda>r. r\<lparr>sr_ds := the (pg_uuid (sr_ds r))\<rparr>) (take m rs @ drop m rs)\<rparr>"
      "\<forall>r \<in> set (take m rs @ drop m rs). pg_uuid (sr_ds r) \<noteq> None"
      by (auto simp del: append_take_drop_id)
    then show ?thesis by simp
  qed
qed

lemma upsert_entity_Inr:
  assumes "upsert_entity dss e s = Inr (u, s')"
  shows "\<exists>i. pg_uuid (en_ds e) = Some i \<and> (i, en_kind e, en_id e) \<in> set (ent_keys s')
    \<and> set (ent_keys s) \<subseteq> set (ent_keys s')
    \<and> (distinct (ent_keys s) \<longrightarrow> distinct (ent_keys s'))
    \<and> ts_series s' = ts_series s \<and> ts_snaps s' = ts_snaps s"
proof -
  obtain i where i: "pg_uuid (en_ds e) = Some i" using assms by (auto simp: upsert_entity_def split: option.splits)
  let ?p = "same_entity (e\<lparr>en_ds := i\<rparr>)"
  show ?thesis
  proof (cases "count_where ?p (ts_entities s) = 0")
    case True
    with assms i have s': "s' = s\<lparr>ts_entities := ts_entities s @ [e\<lparr>en_ds := i\<rparr>]\<rparr>"
      by (auto simp: upsert_entity_def Let_def split: if_splits)
    moreover have "ent_key (e\<lparr>en_ds := i\<rparr>) \<notin> set (ent_keys s)"
      using True by (auto simp: count_where_zero same_entity_key ent_keys_def)
    ultimately show ?thesis using i by (auto simp: ent_key_def ent_keys_def)
  next
    case False
    with assms i obtain f where s': "s' = s\<lparr>ts_entities := update_where ?p f (ts_entities s)\<rparr>" and f: "\<And>r. ent_key (f r) = ent_key r"
      by (auto simp: upsert_entity_def Let_def ent_key_def split: if_splits)
    have k: "map ent_key (update_where ?p f (ts_entities s)) = ent_keys s"
      unfolding ent_keys_def by (rule update_where_keys) (rule f)
    obtain r where "r \<in> set (ts_entities s)" "ent_key r = (i, en_kind e, en_id e)"
      using False by (auto simp: count_where_zero same_entity_key ent_key_def)
    then have "(i, en_kind e, en_id e) \<in> set (ent_keys s)" by (metis ent_keys_def image_eqI list.set_map)
    with s' k i show ?thesis by (simp add: ent_keys_def)
  qed
qed

lemma upsert_entities_Inr:
  "upsert_entities dss es s = Inr (u, s') \<Longrightarrow> set (ent_keys s) \<subseteq> set (ent_keys s')
    \<and> (\<forall>e \<in> set es. \<exists>i. pg_uuid (en_ds e) = Some i \<and> (i, en_kind e, en_id e) \<in> set (ent_keys s'))
    \<and> (distinct (ent_keys s) \<longrightarrow> distinct (ent_keys s'))
    \<and> ts_series s' = ts_series s \<and> ts_snaps s' = ts_snaps s"
proof (induction es arbitrary: s)
  case (Cons e es)
  then obtain u1 s1 where 1: "upsert_entity dss e s = Inr (u1, s1)" and 2: "upsert_entities dss es s1 = Inr (u, s')"
    by (auto split: sum.splits)
  from Cons.IH [OF 2] upsert_entity_Inr [OF 1] show ?case by (simp del: set_map) blast
qed simp

section \<open>The invariant\<close>

definition readings_ok :: "tstables \<Rightarrow> bool" where
  "readings_ok s \<longleftrightarrow> distinct (ent_keys s) \<and> (\<forall>r \<in> set (ts_series s).
     validate_series_entity (sr_name r) (sr_entity r) = None
     \<and> (sr_entity r \<noteq> [] \<longrightarrow> (sr_ds r, entity_kind_query, sr_entity r) \<in> set (ent_keys s)))"

definition snaps_ok :: "tstables \<Rightarrow> bool" where
  "snaps_ok s \<longleftrightarrow> distinct (map sp_id (ts_snaps s))
     \<and> (\<forall>r \<in> set (ts_snaps s). \<forall>r' \<in> set (ts_snaps s). sp_superseded r = None \<and> is_current (sp_ds r) (sp_kind r) r' \<longrightarrow> sp_id r' = sp_id r)"

lemma map_filter_empty: "List.map_filter f xs = [] \<longleftrightarrow> (\<forall>x \<in> set xs. f x = None)"
  by (induction xs) (auto simp: List.map_filter_simps split: option.splits)

lemma publish_batch_ok:
  assumes "metric_rows b = Inr rows" "insert_series m rows s = Inr (u, s')" "0 < m" "readings_ok s"
  shows "readings_ok s' \<and> ts_snaps s' = ts_snaps s \<and> ts_entities s' = ts_entities s"
proof -
  have rows: "r \<in> set rows \<Longrightarrow> sr_entity r = [] \<and> validate_series_entity (sr_name r) [] = None" for r
    using assms(1) by (auto simp: metric_rows_def map_filter_empty split: list.splits)
  from insert_series_Inr [OF assms(2,3)] rows assms(4) show ?thesis by (auto simp: readings_ok_def)
qed

lemma series_added:
  assumes "readings_ok s" "set (ent_keys s) \<subseteq> set (ent_keys s1)"
    "distinct (ent_keys s1)" "ts_series s1 = ts_series s"
    and new: "\<And>y. y \<in> set rows \<Longrightarrow> validate_series_entity (sr_name y) (sr_entity y) = None
      \<and> (the (pg_uuid (sr_ds y)), entity_kind_query, sr_entity y) \<in> set (ent_keys s1)"
  shows "readings_ok (s1\<lparr>ts_series := ts_series s1 @ map (\<lambda>r. r\<lparr>sr_ds := the (pg_uuid (sr_ds r))\<rparr>) rows\<rparr>)"
  using assms(1-4) new unfolding readings_ok_def by (simp add: ball_Un) blast

lemma slowlog_ok:
  assumes tx: "slowlog_tx m dss (map (query_entity sha x) (sn_queries x)) (concat (map (query_rows sha fl x) (sn_queries x))) s = Inr (u, s')"
    and v: "\<forall>r \<in> set (concat (map (query_rows sha fl x) (sn_queries x))). validate_series_entity (sr_name r) (sr_entity r) = None"
    and m: "0 < m" and ok: "readings_ok s"
  shows "readings_ok s' \<and> ts_snaps s' = ts_snaps s"
proof -
  let ?rows = "concat (map (query_rows sha fl x) (sn_queries x))"
  from tx obtain u1 s1 where 1: "upsert_entities dss (map (query_entity sha x) (sn_queries x)) s = Inr (u1, s1)"
    and 2: "insert_series m ?rows s1 = Inr (u, s')" by (auto simp: slowlog_tx_def split: sum.splits)
  note e = upsert_entities_Inr [OF 1] and r = insert_series_Inr [OF 2 m]
  have "(the (pg_uuid (sr_ds y)), entity_kind_query, sr_entity y) \<in> set (ent_keys s1)" if "y \<in> set ?rows" for y
  proof -
    from that obtain q where q: "q \<in> set (sn_queries x)" "y \<in> set (query_rows sha fl x q)" by auto
    then have y: "sr_ds y = sn_ds x" "sr_entity y = entity_id_for sha (sq_text q)" by (auto simp: query_rows_def)
    have "query_entity sha x q \<in> set (map (query_entity sha x) (sn_queries x))" using q(1) by simp
    with e obtain i where "pg_uuid (sn_ds x) = Some i" "(i, entity_kind_query, entity_id_for sha (sq_text q)) \<in> set (ent_keys s1)"
      by (fastforce simp: query_entity_def)
    with y show ?thesis by simp
  qed
  with v have new: "validate_series_entity (sr_name y) (sr_entity y) = None
      \<and> (the (pg_uuid (sr_ds y)), entity_kind_query, sr_entity y) \<in> set (ent_keys s1)" if "y \<in> set ?rows" for y
    using that by blast
  have "distinct (ent_keys s1)" using e ok by (simp add: readings_ok_def)
  from series_added [OF ok _ this _ new, of ?rows] e r show ?thesis by (simp only:) simp
qed

lemma state_tx_cases:
  assumes "state_tx sha new dss x s = Inr (u, s')"
  obtains (same) i cur where "pg_uuid (sn_ds x) = Some i" "cur \<in> set (ts_snaps s)" "is_current i (sn_kind x) cur"
      "sp_hash cur = sha (json_text (content_json x))"
      "s' = s\<lparr>ts_snaps := update_where (\<lambda>r. sp_id r = sp_id cur) (\<lambda>r. r\<lparr>sp_at := later (sp_at r) (sn_at x)\<rparr>) (ts_snaps s)\<rparr>"
    | (fresh) i old row where "pg_uuid (sn_ds x) = Some i" "\<forall>r \<in> set old. sp_id r \<noteq> new" "\<forall>r \<in> set old. \<not> is_current i (sn_kind x) r"
      "sp_id row = new" "is_current i (sn_kind x) row" "sp_hash row = sha (json_text (content_json x))" "sp_payload row = content_json x"
      "s' = s\<lparr>ts_snaps := old @ [row]\<rparr>"
      "old = ts_snaps s \<or> (\<exists>cur \<in> set (ts_snaps s). is_current i (sn_kind x) cur \<and> sp_hash cur \<noteq> sha (json_text (content_json x))
         \<and> old = update_where (\<lambda>r. sp_id r = sp_id cur) (\<lambda>r. r\<lparr>sp_superseded := Some (sn_at x)\<rparr>) (ts_snaps s))"
proof -
  obtain i where i: "pg_uuid (sn_ds x) = Some i" using assms by (auto simp: state_tx_def split: option.splits)
  show ?thesis
  proof (cases "select_one (is_current i (sn_kind x)) (ts_snaps s)")
    case None
    with assms i show ?thesis
      by (intro fresh [of i "ts_snaps s" "last (ts_snaps s')"]) (auto simp: state_tx_def Let_def is_current_def split: if_splits)
  next
    case (Some cur)
    note c = select_one_Some_in [OF Some]
    show ?thesis
    proof (cases "sp_hash cur = sha (json_text (content_json x))")
      case True
      with assms i Some c show ?thesis by (intro same [of i cur]) (auto simp: state_tx_def Let_def)
    next
      case False
      let ?old = "update_where (\<lambda>r. sp_id r = sp_id cur) (\<lambda>r. r\<lparr>sp_superseded := Some (sn_at x)\<rparr>) (ts_snaps s)"
      from assms i Some False c show ?thesis
        by (intro fresh [of i ?old "last (ts_snaps s')"]) (auto simp: state_tx_def Let_def is_current_def split: if_splits)
    qed
  qed
qed

lemma state_tx_ok:
  assumes "state_tx sha new dss x s = Inr (u, s')" "snaps_ok s"
  shows "snaps_ok s' \<and> ts_series s' = ts_series s \<and> ts_entities s' = ts_entities s"
  using assms(1)
proof (cases rule: state_tx_cases)
  case (same i cur)
  let ?f = "\<lambda>r. r\<lparr>sp_at := later (sp_at r) (sn_at x)\<rparr>"
  have "map sp_id (ts_snaps s') = map sp_id (ts_snaps s)" by (simp add: same(5) update_where_keys)
  moreover have "\<exists>y \<in> set (ts_snaps s). sp_id r = sp_id y \<and> sp_superseded r = sp_superseded y \<and> sp_ds r = sp_ds y \<and> sp_kind r = sp_kind y"
    if r: "r \<in> set (ts_snaps s')" for r
  proof -
    from r have "r \<in> set (update_where (\<lambda>r. sp_id r = sp_id cur) ?f (ts_snaps s))" by (simp add: same(5))
    then obtain y where "y \<in> set (ts_snaps s)" "r = (if sp_id y = sp_id cur then ?f y else y)" unfolding in_update_where by blast
    then show ?thesis by (intro bexI [of _ y]) (simp_all split: if_splits)
  qed
  ultimately have "snaps_ok s'" using assms(2) unfolding snaps_ok_def is_current_def by metis
  with same(5) show ?thesis by simp
next
  case (fresh i old row)
  have u0: "\<And>r r'. r \<in> set (ts_snaps s) \<Longrightarrow> r' \<in> set (ts_snaps s) \<Longrightarrow> sp_superseded r = None \<Longrightarrow>
      is_current (sp_ds r) (sp_kind r) r' \<Longrightarrow> sp_id r' = sp_id r" using assms(2) by (simp add: snaps_ok_def)
  have "map sp_id old = map sp_id (ts_snaps s)" using fresh(9)
  proof
    assume "\<exists>cur \<in> set (ts_snaps s). is_current i (sn_kind x) cur \<and> sp_hash cur \<noteq> sha (json_text (content_json x))
         \<and> old = update_where (\<lambda>r. sp_id r = sp_id cur) (\<lambda>r. r\<lparr>sp_superseded := Some (sn_at x)\<rparr>) (ts_snaps s)"
    then obtain cur :: snap_row where "old = update_where (\<lambda>r. sp_id r = sp_id cur) (\<lambda>r. r\<lparr>sp_superseded := Some (sn_at x)\<rparr>) (ts_snaps s)" by auto
    then show ?thesis by (simp add: update_where_keys)
  qed simp
  then have d: "distinct (map sp_id old)" using assms(2) by (simp add: snaps_ok_def)
  have u: "sp_id r' = sp_id r" if "r \<in> set old" "r' \<in> set old" "sp_superseded r = None" "is_current (sp_ds r) (sp_kind r) r'" for r r'
    using fresh(9)
  proof
    assume "old = ts_snaps s"
    with that u0 show ?thesis by simp
  next
    assume "\<exists>cur \<in> set (ts_snaps s). is_current i (sn_kind x) cur \<and> sp_hash cur \<noteq> sha (json_text (content_json x))
         \<and> old = update_where (\<lambda>r. sp_id r = sp_id cur) (\<lambda>r. r\<lparr>sp_superseded := Some (sn_at x)\<rparr>) (ts_snaps s)"
    then obtain cur :: snap_row where "old = update_where (\<lambda>r. sp_id r = sp_id cur) (\<lambda>r. r\<lparr>sp_superseded := Some (sn_at x)\<rparr>) (ts_snaps s)" by auto
    with that(1-3) have "r \<in> set (ts_snaps s)" "r' \<in> set (ts_snaps s)"
      using that(4) by (auto simp: in_update_where is_current_def)
    with that(3,4) u0 show ?thesis by simp
  qed
  have ids: "distinct (map sp_id (ts_snaps s'))" using d fresh(2,4,8) by auto
  have "sp_id r' = sp_id r" if "r \<in> set (ts_snaps s')" "r' \<in> set (ts_snaps s')" "sp_superseded r = None"
      "is_current (sp_ds r) (sp_kind r) r'" for r r'
  proof -
    have "is_current (sp_ds row) (sp_kind row) y \<longleftrightarrow> is_current i (sn_kind x) y" for y using fresh(5) by (simp add: is_current_def)
    moreover have "is_current (sp_ds r) (sp_kind r) row \<Longrightarrow> is_current i (sn_kind x) r" using that(3) fresh(5) by (simp add: is_current_def)
    ultimately show ?thesis using that u fresh(3,8) by (auto simp del: split_paired_All)
  qed
  with ids have "snaps_ok s'" unfolding snaps_ok_def by blast
  with fresh(8) show ?thesis by simp
qed

section \<open>Runs\<close>

datatype ts_call = PutBatch tx_fault "string option" batch | PutSnapshot tx_fault "string option" "string list" string snapshot

fun ts_do :: "(string \<Rightarrow> string) \<Rightarrow> float_ops \<Rightarrow> nat \<Rightarrow> ts_call \<Rightarrow> tsdb \<Rightarrow> tsdb" where
  "ts_do sha fl m (PutBatch flt ctx b) d = snd (ts_publish m flt ctx b d)"
| "ts_do sha fl m (PutSnapshot flt ctx dss new s) d = snd (publish_snapshot sha fl m flt ctx dss new s d)"

definition ts_run :: "(string \<Rightarrow> string) \<Rightarrow> float_ops \<Rightarrow> nat \<Rightarrow> ts_call list \<Rightarrow> tsdb \<Rightarrow> tsdb" where
  "ts_run sha fl m calls d = fold (ts_do sha fl m) calls d"

definition collected_ok :: "tsdb \<Rightarrow> bool" where
  "collected_ok d \<longleftrightarrow> (\<forall>t. readings_ok (ts_slice d t) \<and> snaps_ok (ts_slice d t))"

lemma ts_tx_keeps:
  assumes "collected_ok d" "\<And>s x s'. readings_ok s \<Longrightarrow> snaps_ok s \<Longrightarrow> body s = Inr (x, s') \<Longrightarrow> readings_ok s' \<and> snaps_ok s'"
  shows "collected_ok (snd (ts_tx flt ctx body d))"
proof (cases "ts_tx flt ctx body d")
  case (Pair r d')
  show ?thesis
  proof (cases r)
    case (Inl e)
    with Pair ts_tx_Inl assms(1) show ?thesis by fastforce
  next
    case (Inr x)
    with Pair obtain t s where "body (ts_slice d t) = Inr (x, s)" "d' = d\<lparr>ts_slice := (ts_slice d)(t := s)\<rparr>" by (metis ts_tx_Inr)
    with Pair assms show ?thesis by (auto simp: collected_ok_def)
  qed
qed

lemma snaps_ok_same: "ts_snaps s' = ts_snaps s \<Longrightarrow> snaps_ok s' \<longleftrightarrow> snaps_ok s"
  by (simp add: snaps_ok_def)

lemma readings_ok_same: "ts_series s' = ts_series s \<Longrightarrow> ts_entities s' = ts_entities s \<Longrightarrow> readings_ok s' \<longleftrightarrow> readings_ok s"
  by (simp add: readings_ok_def ent_keys_def)

lemma ts_do_keeps:
  assumes "0 < m" "collected_ok d"
  shows "collected_ok (ts_do sha fl m call d)"
proof (cases call)
  case (PutBatch flt ctx b)
  show ?thesis
  proof (cases "metric_rows b")
    case (Inr rows)
    have "readings_ok s' \<and> snaps_ok s'" if "readings_ok s" "snaps_ok s" "insert_series m rows s = Inr (x, s')" for s x s'
      using publish_batch_ok [OF Inr that(3) assms(1) that(1)] that(2) snaps_ok_same by blast
    from ts_tx_keeps [OF assms(2), of "insert_series m rows", OF this] PutBatch Inr assms(2) show ?thesis by (simp add: ts_publish_def)
  qed (use PutBatch assms in \<open>simp add: ts_publish_def\<close>)
next
  case (PutSnapshot flt ctx dss new x)
  have st: "collected_ok (snd (ts_tx flt ctx (state_tx sha new dss x) d))"
    by (rule ts_tx_keeps [OF assms(2)]) (metis readings_ok_same state_tx_ok)
  have "collected_ok (snd (publish_slowlog sha fl m flt ctx dss x d))"
  proof (cases "List.map_filter (\<lambda>r. validate_series_entity (sr_name r) (sr_entity r)) (concat (map (query_rows sha fl x) (sn_queries x)))")
    case Nil
    then have v: "\<forall>r \<in> set (concat (map (query_rows sha fl x) (sn_queries x))). validate_series_entity (sr_name r) (sr_entity r) = None"
      by (simp only: map_filter_empty)
    have "readings_ok s' \<and> snaps_ok s'" if "readings_ok s" "snaps_ok s"
        "slowlog_tx m dss (map (query_entity sha x) (sn_queries x)) (concat (map (query_rows sha fl x) (sn_queries x))) s = Inr (u, s')" for s u s'
      using slowlog_ok [OF that(3) v assms(1) that(1)] that(2) snaps_ok_same by blast
    from ts_tx_keeps [OF assms(2), of "slowlog_tx m dss (map (query_entity sha x) (sn_queries x))
        (concat (map (query_rows sha fl x) (sn_queries x)))", OF this] Nil assms(2) show ?thesis by (simp add: publish_slowlog_def Let_def)
  qed (simp add: publish_slowlog_def Let_def assms(2))
  with st PutSnapshot assms(2) show ?thesis by (simp add: publish_snapshot_def)
qed


definition sample_ds :: string where "sample_ds = ''22222222-2222-2222-2222-222222222222''"

lemma pg_uuid_sample_ds [simp]: "pg_uuid sample_ds = Some sample_ds"
  by code_simp

definition sample_batch :: batch where
  "sample_batch = \<lparr>ba_ds = sample_ds, ba_family = ''postgres'', ba_catalog = 1, ba_metrics = [\<lparr>me_name = ''db.connections.max'',
     me_value = ''100'', me_unit = ''count'', me_labels = [], me_at = Some 7\<rparr>], ba_at = Some 7, ba_partial = False, ba_missing = []\<rparr>"

lemma sample_metric_rows: "metric_rows sample_batch = Inr [\<lparr>sr_ds = sample_ds, sr_name = ''db.connections.max'', sr_entity = [],
    sr_value = ''100'', sr_at = Some 7\<rparr>]"
proof -
  have "validate_series_entity ''db.connections.max'' [] = None" by code_simp
  then show ?thesis by (simp add: metric_rows_def sample_batch_def List.map_filter_simps)
qed


section \<open>Versions\<close>

lemma content_of_json:
  assumes "list_all table_ok (sn_tables s)"
  shows "content_of (content_json s) = Some (sn_tables s, sn_configs s)"
  using assms by (simp add: content_of_def content_json_def struct_members_def table_of_json config_of_json list_all_iff)

lemma current_unique:
  assumes "snaps_ok s" "r \<in> set (ts_snaps s)" "is_current i k r"
  shows "select_one (is_current i k) (ts_snaps s) = Some r"
proof -
  obtain r' where r': "select_one (is_current i k) (ts_snaps s) = Some r'"
    using assms(2,3) select_one_None [of "is_current i k" "ts_snaps s"] by blast
  note c = select_one_Some_in [OF r']
  then have "is_current (sp_ds r) (sp_kind r) r'" "sp_superseded r = None" using assms(3) by (simp_all add: is_current_def)
  then have "sp_id r' = sp_id r" using assms(1,2) c unfolding snaps_ok_def by blast
  moreover have "distinct (map sp_id (ts_snaps s))" using assms(1) by (simp add: snaps_ok_def)
  ultimately have "r' = r" using assms(2) c by (metis key_inj)
  with r' show ?thesis by simp
qed

text \<open>After a schema or configuration snapshot has been stored, the query for the latest one returns its tables
  and settings. The table of versions grew by one row when the content differs from that of the current version,
  and by none when it is the same. The hypotheses: the numbers of the snapshot are 64-bit integers, and no stored
  version has another content with the same hash.\<close>

theorem latest_is_published:
  assumes pub: "publish_snapshot sha fl m flt (Some t) dss new x d = (Inr u, d')" "sn_kind x = ''schema'' \<or> sn_kind x = ''config''"
    and ok: "collected_ok d" "list_all table_ok (sn_tables x)"
    and nocoll: "\<forall>r \<in> set (ts_snaps (ts_slice d t)). sp_hash r = sha (json_text (content_json x)) \<longrightarrow> sp_payload r = content_json x"
  shows "\<exists>r. latest_snapshot NoFault (Some t) (sn_ds x) (sn_kind x) d' = Inr (Some (r, sn_tables x, sn_configs x))
    \<and> length (ts_snaps (ts_slice d' t)) = length (ts_snaps (ts_slice d t))
        + (if \<exists>cur \<in> set (ts_snaps (ts_slice d t)). is_current (the (pg_uuid (sn_ds x))) (sn_kind x) cur
             \<and> sp_payload cur = content_json x \<and> sp_hash cur = sha (json_text (content_json x)) then 0 else 1)"
proof -
  let ?h = "sha (json_text (content_json x))"
  have "sn_kind x \<noteq> ''slowlog''" using pub(2) by auto
  with pub have "ts_tx flt (Some t) (state_tx sha new dss x) d = (Inr u, d')" by (simp add: publish_snapshot_def)
  then obtain s' where s': "state_tx sha new dss x (ts_slice d t) = Inr (u, s')" and t: "t \<noteq> []"
    and d': "d' = d\<lparr>ts_slice := (ts_slice d)(t := s')\<rparr>"
    by (rule ts_tx_Inr) simp
  have ok0: "snaps_ok (ts_slice d t)" using ok(1) by (simp add: collected_ok_def)
  note ok1 = state_tx_ok [OF s' ok0]
  have latest: "latest_snapshot NoFault (Some t) (sn_ds x) (sn_kind x) d' = Inr (Some (r, sn_tables x, sn_configs x))"
    if "pg_uuid (sn_ds x) = Some i" "r \<in> set (ts_snaps s')" "is_current i (sn_kind x) r" "sp_payload r = content_json x" for i r
    using that t d' current_unique [OF _ that(2,3)] ok1 content_of_json [OF ok(2)] by (simp add: latest_snapshot_def ts_tx_ok)
  from s' show ?thesis
  proof (cases rule: state_tx_cases)
    case (same i cur)
    let ?r = "cur\<lparr>sp_at := later (sp_at cur) (sn_at x)\<rparr>"
    have "?r \<in> set (ts_snaps s')" using same(2) by (auto simp: same(5) in_update_where)
    then have "latest_snapshot NoFault (Some t) (sn_ds x) (sn_kind x) d' = Inr (Some (?r, sn_tables x, sn_configs x))"
      using same nocoll by (intro latest) (auto simp: is_current_def)
    with same nocoll d' show ?thesis by auto
  next
    case (fresh i old row)
    have none: "\<not> (\<exists>cur \<in> set (ts_snaps (ts_slice d t)). is_current i (sn_kind x) cur \<and> sp_payload cur = content_json x \<and> sp_hash cur = ?h)"
      using fresh(9)
    proof
      assume "\<exists>cur \<in> set (ts_snaps (ts_slice d t)). is_current i (sn_kind x) cur \<and> sp_hash cur \<noteq> ?h
         \<and> old = update_where (\<lambda>r. sp_id r = sp_id cur) (\<lambda>r. r\<lparr>sp_superseded := Some (sn_at x)\<rparr>) (ts_snaps (ts_slice d t))"
      then show ?thesis using current_unique [OF ok0] by (metis option.inject)
    qed (use fresh(3) in blast)
    have "length old = length (ts_snaps (ts_slice d t))" using fresh(9) by auto
    moreover have "latest_snapshot NoFault (Some t) (sn_ds x) (sn_kind x) d' = Inr (Some (row, sn_tables x, sn_configs x))"
      using fresh by (intro latest) auto
    ultimately show ?thesis using fresh(1,8) none d' by auto
  qed
qed

definition sample_config :: "string \<Rightarrow> snapshot" where
  "sample_config v = (new_snapshot sample_ds ''postgres'' ''config'' 7)\<lparr>sn_configs := [\<lparr>ce_name = ''work_mem'', ce_value = v, ce_unit = [], ce_source = []\<rparr>]\<rparr>"

lemma latest_is_published_witness:
  "\<exists>d' r. publish_snapshot id text_floats 5000 NoFault (Some ''t'') [sample_ds] ''v1'' (sample_config ''4MB'') \<lparr>ts_slice = \<lambda>_. empty_tstables\<rparr> = (Inr (), d')
     \<and> latest_snapshot NoFault (Some ''t'') sample_ds ''config'' d' = Inr (Some (r, [], sn_configs (sample_config ''4MB'')))
     \<and> length (ts_snaps (ts_slice d' ''t'')) = 1"
proof -
  let ?d = "\<lparr>ts_slice = \<lambda>_. empty_tstables\<rparr>"
  have ok: "collected_ok ?d" by (simp add: collected_ok_def empty_tstables_def readings_ok_def snaps_ok_def ent_keys_def)
  obtain d' where p: "publish_snapshot id text_floats 5000 NoFault (Some ''t'') [sample_ds] ''v1'' (sample_config ''4MB'') ?d = (Inr (), d')"
    by (simp add: publish_snapshot_def ts_tx_ok sample_config_def new_snapshot_def state_tx_def Let_def empty_tstables_def int4_def catalog_version_def)
  have x: "sn_ds (sample_config ''4MB'') = sample_ds" "sn_kind (sample_config ''4MB'') = ''config''" "sn_tables (sample_config ''4MB'') = []"
    by (simp_all add: sample_config_def new_snapshot_def)
  show ?thesis using latest_is_published [OF p _ ok] p x by (auto simp: empty_tstables_def)
qed

end
