(* ===== verification/SvcApi.thy ===== *)
theory SvcApi
  imports TsProps
begin

text \<open>
  The control plane's internal API as a whole: ingestion of collected data (\<^verbatim>\<open>svcapi/ingest.go\<close>), the
  ownership check (\<^verbatim>\<open>ownership.go\<close>), the routes behind the service token (\<^verbatim>\<open>svcapi.go\<close>), and the
  client of it in the gateway (\<^verbatim>\<open>gateway/internal/consoleclient\<close>) with the network in between.
\<close>

section \<open>ownership.go\<close>

definition owns_tx :: "string \<Rightarrow> string \<Rightarrow> unit ctx_body" where
  "owns_tx ds conn s = (case get_datasource ds s of Inl e \<Rightarrow> Inl e
     | Inr r \<Rightarrow> if dr_mode r \<noteq> ''connector'' \<or> dr_connector r \<noteq> Some conn then Inl (api_err CodeCollectDatasourceMismatch)
         else Inr ((), s))"

definition ownership_check :: "tx_fault \<Rightarrow> string option \<Rightarrow> string \<Rightarrow> string \<Rightarrow> cdb \<Rightarrow> go_error + unit" where
  "ownership_check flt ctx ds conn d = fst (console_tx flt ctx (owns_tx ds conn) d)"

section \<open>ingest.go\<close>

text \<open>The server: token and store, certificates, sinks with their parameters.\<close>

record svc_full =
  sf_svc :: svc_server
  sf_conn :: conn_env
  sf_sink :: bool
  sf_snapshot_sink :: bool
  sf_rows :: nat
  sf_floats :: float_ops

text \<open>What one call meets on its way: the network, the two transactions' failures, the clock, a fresh id.\<close>

record call_fate =
  cf_delivery :: delivery
  cf_fault :: tx_fault
  cf_fault2 :: tx_fault
  cf_now :: int
  cf_id :: string

record console_world =
  cw_db :: cdb
  cw_ts :: tsdb
  cw_fate :: "nat \<Rightarrow> call_fate"
  cw_calls :: nat

definition ingest_batch_of :: "float_ops \<Rightarrow> (string \<times> json) list \<Rightarrow> (string \<times> string \<times> batch) option" where
  "ingest_batch_of fl kvs = (case (str_field ''tenant_id'' kvs, str_field ''connector_id'' kvs,
       Option.bind (sub_members ''batch'' kvs) (batch_of fl True)) of (Some t, Some c, Some b) \<Rightarrow> Some (t, c, b) | _ \<Rightarrow> None)"

definition ingest_snapshot_of :: "float_ops \<Rightarrow> (string \<times> json) list \<Rightarrow> (string \<times> string \<times> snapshot) option" where
  "ingest_snapshot_of fl kvs = (case (str_field ''tenant_id'' kvs, str_field ''connector_id'' kvs,
       Option.bind (sub_members ''snapshot'' kvs) (snapshot_of fl True)) of (Some t, Some c, Some b) \<Rightarrow> Some (t, c, b) | _ \<Rightarrow> None)"

definition known_ds :: "string \<Rightarrow> cdb \<Rightarrow> string list" where
  "known_ds t d = map dr_id (c_ds (c_slice d t))"

definition ingest_metrics :: "svc_full \<Rightarrow> call_fate \<Rightarrow> string \<Rightarrow> cdb \<Rightarrow> tsdb \<Rightarrow> (go_error + console_answer) \<times> tsdb" where
  "ingest_metrics sv f body d ts =
     (case decode_json [''tenant_id'', ''connector_id'', ''batch''] (ingest_batch_of (sf_floats sv)) body of
        Inl e \<Rightarrow> (Inl e, ts)
      | Inr (t, c, b) \<Rightarrow> if t = [] \<or> c = [] \<or> ba_ds b = []
          then (Inl (api_err_details CodeValidationFailed [(''tenant_id/connector_id/batch.datasource_id'', ''required'')]), ts)
          else if \<not> sf_sink sv \<or> \<not> sx_store (sf_svc sv) then (Inl (api_err CodeCommonNotImplemented), ts)
          else (case ownership_check (cf_fault f) (with_tenant None t) (ba_ds b) c d of
              Inl e \<Rightarrow> (Inl e, ts)
            | Inr _ \<Rightarrow> (case ts_publish (sf_rows sv) (cf_fault2 f) (with_tenant None t) b ts of
                  (Inl e, ts1) \<Rightarrow> (Inl e, ts1) | (Inr _, ts1) \<Rightarrow> (Inr (ConsoleStatus 202), ts1))))"

definition ingest_snapshot :: "svc_full \<Rightarrow> call_fate \<Rightarrow> string \<Rightarrow> cdb \<Rightarrow> tsdb \<Rightarrow> (go_error + console_answer) \<times> tsdb" where
  "ingest_snapshot sv f body d ts =
     (case decode_json [''tenant_id'', ''connector_id'', ''snapshot''] (ingest_snapshot_of (sf_floats sv)) body of
        Inl e \<Rightarrow> (Inl e, ts)
      | Inr (t, c, b) \<Rightarrow> if t = [] \<or> c = [] \<or> sn_ds b = []
          then (Inl (api_err_details CodeValidationFailed [(''tenant_id/connector_id/snapshot.datasource_id'', ''required'')]), ts)
          else if \<not> valid_snapshot_kind (sn_kind b) then (Inl (api_err CodeCollectUnsupportedKind), ts)
          else if \<not> sf_snapshot_sink sv \<or> \<not> sx_store (sf_svc sv) then (Inl (api_err CodeCommonNotImplemented), ts)
          else (case ownership_check (cf_fault f) (with_tenant None t) (sn_ds b) c d of
              Inl e \<Rightarrow> (Inl e, ts)
            | Inr _ \<Rightarrow> (case publish_snapshot (ce_sha (sf_conn sv)) (sf_floats sv) (sf_rows sv) (cf_fault2 f) (with_tenant None t)
                  (known_ds t d) (cf_id f) b ts of
                  (Inl e, ts1) \<Rightarrow> (Inl e, ts1) | (Inr _, ts1) \<Rightarrow> (Inr (ConsoleStatus 202), ts1))))"

section \<open>svcapi.go\<close>

text \<open>A handler that changes the control plane's database, one that changes the collected data.\<close>

definition on_db :: "(cdb \<Rightarrow> (go_error + console_answer) \<times> cdb) \<Rightarrow> console_world \<Rightarrow> (go_error + console_answer) \<times> console_world" where
  "on_db h w = (case h (cw_db w) of (r, d) \<Rightarrow> (r, w\<lparr>cw_db := d\<rparr>))"

definition on_ts :: "(cdb \<Rightarrow> tsdb \<Rightarrow> (go_error + console_answer) \<times> tsdb) \<Rightarrow> console_world \<Rightarrow> (go_error + console_answer) \<times> console_world" where
  "on_ts h w = (case h (cw_db w) (cw_ts w) of (r, ts) \<Rightarrow> (r, w\<lparr>cw_ts := ts\<rparr>))"

definition svc_route :: "svc_full \<Rightarrow> call_fate \<Rightarrow> string \<Rightarrow> string \<Rightarrow> (console_world \<Rightarrow> (go_error + console_answer) \<times> console_world) option" where
  "svc_route sv f path body = map_of
     [(''/internal/v1/connector-enrollments'', on_db (svc_enroll (sf_conn sv) (cf_fault f) (cf_now f) body)),
      (''/internal/v1/connector-handshakes'', on_db (svc_handshake (cf_fault f) body)),
      (''/internal/v1/connector-status'', on_db (svc_status (cf_fault f) (cf_now f) body)),
      (''/internal/v1/collected/metrics'', on_ts (ingest_metrics sv f body)),
      (''/internal/v1/collected/snapshots'', on_ts (ingest_snapshot sv f body)),
      (''/internal/v1/llm/quota-check'', on_db (llm_quota_check (sf_svc sv) (cf_fault f) (cf_now f) body)),
      (''/internal/v1/llm/usage'', on_db (llm_usage (sf_svc sv) (cf_fault f) (cf_now f) body))] path"

text \<open>An answer as the client sees it: the status, the code of an error, the value of a success.\<close>

record http_answer =
  ha_status :: nat
  ha_code :: string
  ha_body :: json

definition http_answer_of :: "go_error + console_answer \<Rightarrow> http_answer" where
  "http_answer_of r = (case r of
     Inl e \<Rightarrow> \<lparr>ha_status = hr_status (write_error [] e), ha_code = code_str (hr_code (write_error [] e)), ha_body = JNull\<rparr>
   | Inr (ConsoleJson st v) \<Rightarrow> \<lparr>ha_status = st, ha_code = [], ha_body = v\<rparr>
   | Inr (ConsoleStatus st) \<Rightarrow> \<lparr>ha_status = st, ha_code = [], ha_body = JNull\<rparr>)"

text \<open>A path without a route is answered by the multiplexer, in plain text.\<close>

definition svc_serve :: "svc_full \<Rightarrow> call_fate \<Rightarrow> string \<Rightarrow> string \<Rightarrow> string \<Rightarrow> console_world \<Rightarrow> http_answer \<times> console_world" where
  "svc_serve sv f auth path body w = (if auth \<noteq> ''Bearer '' @ sx_token (sf_svc sv)
     then (http_answer_of (Inl (api_err CodeSvcUnauthenticated)), w)
     else (case svc_route sv f path body of
         None \<Rightarrow> (\<lparr>ha_status = 404, ha_code = [], ha_body = JNull\<rparr>, w)
       | Some h \<Rightarrow> (case h w of (r, w1) \<Rightarrow> (http_answer_of r, w1))))"

section \<open>consoleclient.go\<close>

text \<open>\<open>post\<close> gives the decoded body, an \<open>APIError\<close> with status and code, or another error.\<close>

datatype client_error = ClientApiError nat string | ClientNetError

definition client_post :: "svc_full \<Rightarrow> string \<Rightarrow> string \<Rightarrow> json \<Rightarrow> console_world \<Rightarrow> (client_error + json) \<times> console_world" where
  "client_post sv token path body w = (case marshal body of None \<Rightarrow> (Inl ClientNetError, w)
     | Some txt \<Rightarrow> (let f = cw_fate w (cw_calls w); w0 = w\<lparr>cw_calls := cw_calls w + 1\<rparr> in
         if cf_delivery f = LostRequest then (Inl ClientNetError, w0)
         else (case svc_serve sv f (''Bearer '' @ token) path txt w0 of (a, w1) \<Rightarrow>
             if cf_delivery f = LostAnswer then (Inl ClientNetError, w1)
             else if 400 \<le> ha_status a then (Inl (ClientApiError (ha_status a) (ha_code a)), w1)
             else (Inr (ha_body a), w1))))"

record enroll_result =
  er_connector :: string
  er_cert :: string
  er_bundle :: string

definition enroll_result_of :: "(string \<times> json) list \<Rightarrow> enroll_result option" where
  "enroll_result_of kvs = (case (str_field ''connector_id'' kvs, str_field ''certificate_pem'' kvs, str_field ''ca_bundle_pem'' kvs) of
     (Some c, Some p, Some b) \<Rightarrow> Some \<lparr>er_connector = c, er_cert = p, er_bundle = b\<rparr> | _ \<Rightarrow> None)"

definition client_enroll :: "svc_full \<Rightarrow> string \<Rightarrow> string \<Rightarrow> string \<Rightarrow> string \<Rightarrow> console_world \<Rightarrow> (client_error + enroll_result) \<times> console_world" where
  "client_enroll sv token tok csr version w = (case client_post sv token ''/internal/v1/connector-enrollments''
       (JObj [(''connector_version'', JStr version), (''csr_pem'', JStr csr), (''token'', JStr tok)]) w of
     (Inl e, w1) \<Rightarrow> (Inl e, w1)
   | (Inr v, w1) \<Rightarrow> (case as_elem enroll_result_of v of None \<Rightarrow> (Inl ClientNetError, w1) | Some r \<Rightarrow> (Inr r, w1)))"

definition client_handshake :: "svc_full \<Rightarrow> string \<Rightarrow> string \<Rightarrow> string \<Rightarrow> string \<Rightarrow> console_world \<Rightarrow> (client_error + json) \<times> console_world" where
  "client_handshake sv token tenant conn fp = client_post sv token ''/internal/v1/connector-handshakes''
     (JObj [(''connector_id'', JStr conn), (''fingerprint'', JStr fp), (''tenant_id'', JStr tenant)])"

definition client_report_status :: "svc_full \<Rightarrow> string \<Rightarrow> string \<Rightarrow> string \<Rightarrow> string \<Rightarrow> int option \<Rightarrow> console_world
    \<Rightarrow> (client_error + json) \<times> console_world" where
  "client_report_status sv token tenant conn st hb = client_post sv token ''/internal/v1/connector-status''
     (JObj ([(''connector_id'', JStr conn)] @ (case hb of None \<Rightarrow> [] | Some t \<Rightarrow> [(''heartbeat_at'', JStr (time_text t))])
       @ [(''status'', JStr st), (''tenant_id'', JStr tenant)]))"

definition client_upload_metrics :: "svc_full \<Rightarrow> string \<Rightarrow> string \<Rightarrow> string \<Rightarrow> batch \<Rightarrow> console_world \<Rightarrow> (client_error + json) \<times> console_world" where
  "client_upload_metrics sv token tenant conn b = client_post sv token ''/internal/v1/collected/metrics''
     (JObj [(''batch'', batch_json b), (''connector_id'', JStr conn), (''tenant_id'', JStr tenant)])"

definition client_upload_snapshot :: "svc_full \<Rightarrow> string \<Rightarrow> string \<Rightarrow> string \<Rightarrow> snapshot \<Rightarrow> console_world \<Rightarrow> (client_error + json) \<times> console_world" where
  "client_upload_snapshot sv token tenant conn s = client_post sv token ''/internal/v1/collected/snapshots''
     (JObj [(''connector_id'', JStr conn), (''snapshot'', snapshot_json s), (''tenant_id'', JStr tenant)])"

end
