(* ===== verification/Gateway.thy ===== *)
theory Gateway
  imports SvcApi
begin

text \<open>
  The gateway, where connectors come in, \<^verbatim>\<open>gateway/internal/accept\<close>: client certificates
  (\<^verbatim>\<open>cert.go\<close>), enrollment (\<^verbatim>\<open>enrollment.go\<close>), the registry of sessions and the commands
  that wait in them (\<^verbatim>\<open>registry.go\<close>), the uploader (\<^verbatim>\<open>uploader.go\<close>) and the sessions
  themselves (\<^verbatim>\<open>session.go\<close>). Sessions and dispatches are numbered as they are made; a channel is
  what is buffered in it.
\<close>

section \<open>cert.go\<close>

record cert_uri =
  cu_scheme :: string
  cu_host :: string
  cu_path :: string

record client_cert =
  cc_cn :: string
  cc_uris :: "cert_uri list"
  cc_raw :: string

definition trim_slashes :: "string \<Rightarrow> string" where
  "trim_slashes s = (let f = dropWhile (\<lambda>c. c = CHR ''/'') in rev (f (rev (f s))))"

definition uri_tenant :: "cert_uri \<Rightarrow> string option" where
  "uri_tenant u = (if cu_scheme u \<noteq> ''airush'' \<or> cu_host u \<noteq> ''tenant'' then None
     else (case split_on (CHR ''/'') (trim_slashes (cu_path u)) of
         t # k # x # rest \<Rightarrow> if k = ''connector'' \<and> t \<noteq> [] then Some t else None
       | _ \<Rightarrow> None))"

definition tenant_from_cert :: "client_cert \<Rightarrow> string option" where
  "tenant_from_cert c = (case List.map_filter uri_tenant (cc_uris c) of [] \<Rightarrow> None | t # _ \<Rightarrow> Some t)"

definition cert_fingerprint :: "(string \<Rightarrow> string) \<Rightarrow> client_cert \<Rightarrow> string" where
  "cert_fingerprint sha c = sha (cc_raw c)"

section \<open>Frames\<close>

record command =
  cm_id :: string
  cm_type :: string
  cm_payload :: string

datatype result_status = StatusUnspecified | StatusOk | StatusError | StatusUnsupported

record command_result =
  cr_cmd :: string
  cr_stat :: result_status
  cr_code :: string
  cr_payload :: string

record data_upload =
  du_cmd :: string
  du_ds :: string
  du_kind :: string
  du_payload :: string

datatype client_frame = FrameHello string | FrameHeartbeat nat | FrameResult command_result | FrameUpload data_upload | FrameEmpty

section \<open>registry.go\<close>

record gw_session =
  gs_connector :: string
  gs_tenant :: string
  gs_drain :: "string option"
  gs_commands :: "command list"
  gs_pending :: "string \<Rightarrow> nat option"
  gs_degrade :: "int option"
  gs_offline :: "int option"
  gs_open :: bool

text \<open>A dispatch and the channel of its signal: \<open>None\<close> in it stands for success. It returns what the
  signal says, or its time is over.\<close>

datatype dispatch_phase = Sending | Waiting | Done "go_error option" | Expired

record gw_dispatch =
  dp_session :: nat
  dp_command :: command
  dp_phase :: dispatch_phase
  dp_signals :: "go_error option list"

record gateway =
  gw_sessions :: "gw_session list"
  gw_registry :: "string \<Rightarrow> nat option"
  gw_dispatches :: "gw_dispatch list"

definition empty_gateway :: gateway where
  "empty_gateway = \<lparr>gw_sessions = [], gw_registry = (\<lambda>_. None), gw_dispatches = []\<rparr>"

definition new_session :: "string \<Rightarrow> string \<Rightarrow> gw_session" where
  "new_session conn tenant = \<lparr>gs_connector = conn, gs_tenant = tenant, gs_drain = None, gs_commands = [], gs_pending = (\<lambda>_. None),
     gs_degrade = None, gs_offline = None, gs_open = True\<rparr>"

definition on_session :: "nat \<Rightarrow> (gw_session \<Rightarrow> gw_session) \<Rightarrow> gateway \<Rightarrow> gateway" where
  "on_session sid f g = g\<lparr>gw_sessions := (gw_sessions g)[sid := f (gw_sessions g ! sid)]\<rparr>"

definition on_dispatch :: "nat \<Rightarrow> (gw_dispatch \<Rightarrow> gw_dispatch) \<Rightarrow> gateway \<Rightarrow> gateway" where
  "on_dispatch n f g = g\<lparr>gw_dispatches := (gw_dispatches g)[n := f (gw_dispatches g ! n)]\<rparr>"

definition await_command :: "nat \<Rightarrow> string \<Rightarrow> nat \<Rightarrow> gateway \<Rightarrow> gateway" where
  "await_command sid cid n = on_session sid (\<lambda>s. s\<lparr>gs_pending := (gs_pending s)(cid := Some n)\<rparr>)"

definition cancel_command :: "nat \<Rightarrow> string \<Rightarrow> gateway \<Rightarrow> gateway" where
  "cancel_command sid cid = on_session sid (\<lambda>s. s\<lparr>gs_pending := (gs_pending s)(cid := None)\<rparr>)"

definition signal_command :: "nat \<Rightarrow> string \<Rightarrow> go_error option \<Rightarrow> gateway \<Rightarrow> gateway" where
  "signal_command sid cid sig g = (case gs_pending (gw_sessions g ! sid) cid of None \<Rightarrow> g
     | Some n \<Rightarrow> on_dispatch n (\<lambda>p. p\<lparr>dp_signals := dp_signals p @ [sig]\<rparr>) (cancel_command sid cid g))"

definition signal_drain :: "string \<Rightarrow> gw_session \<Rightarrow> gw_session" where
  "signal_drain reason s = (if gs_drain s = None then s\<lparr>gs_drain := Some reason\<rparr> else s)"

definition registry_add :: "nat \<Rightarrow> gateway \<Rightarrow> gateway" where
  "registry_add sid g = (let c = gs_connector (gw_sessions g ! sid);
       g1 = (case gw_registry g c of None \<Rightarrow> g | Some old \<Rightarrow> on_session old (signal_drain ''superseded by new session'') g)
     in g1\<lparr>gw_registry := (gw_registry g1)(c := Some sid)\<rparr>)"

definition registry_remove :: "nat \<Rightarrow> gateway \<Rightarrow> gateway" where
  "registry_remove sid g = (let c = gs_connector (gw_sessions g ! sid) in
     if gw_registry g c = Some sid then g\<lparr>gw_registry := (gw_registry g)(c := None)\<rparr> else g)"

definition drain_all :: "string \<Rightarrow> gateway \<Rightarrow> gateway" where
  "drain_all reason g = g\<lparr>gw_sessions := map (\<lambda>(i, s). if gw_registry g (gs_connector s) = Some i then signal_drain reason s else s)
     (zip [0..<length (gw_sessions g)] (gw_sessions g))\<rparr>"

section \<open>Errors of the remote calls\<close>

datatype grpc_code = Unauthenticated | PermissionDenied | InvalidArgument | FailedPrecondition | Unavailable | Internal
  | Aborted | DeadlineExceeded

type_synonym grpc_status = "grpc_code \<times> string"

definition handshake_grpc_error :: "client_error \<Rightarrow> grpc_status" where
  "handshake_grpc_error e = (case e of
     ClientApiError st code \<Rightarrow> if st = 401 \<or> st = 403 then (PermissionDenied, code)
       else if st = 404 \<or> st = 409 then (FailedPrecondition, code) else (Unavailable, ''AR_INTERNAL_ERROR'')
   | ClientNetError \<Rightarrow> (Unavailable, ''AR_INTERNAL_ERROR''))"

definition enroll_grpc_error :: "client_error \<Rightarrow> grpc_status" where
  "enroll_grpc_error e = (case e of
     ClientApiError st code \<Rightarrow> ((if st = 400 then InvalidArgument else if st = 401 \<or> st = 403 then PermissionDenied
       else if st = 409 then FailedPrecondition else Internal), code)
   | ClientNetError \<Rightarrow> (Unavailable, ''AR_INTERNAL_ERROR''))"

text \<open>The server's configuration: the console behind it, the service token, intervals in microseconds.\<close>

record gw_config =
  gc_console :: svc_full
  gc_token :: string
  gc_uploader :: bool
  gc_heartbeat :: int
  gc_missed :: int
  gc_offline :: int
  gc_sha :: "string \<Rightarrow> string"

definition gw_enroll :: "gw_config \<Rightarrow> string \<Rightarrow> string \<Rightarrow> string \<Rightarrow> console_world \<Rightarrow> (grpc_status + enroll_result) \<times> console_world" where
  "gw_enroll cfg tok csr version w = (if tok = [] \<or> csr = [] then (Inl (InvalidArgument, ''AR_VALIDATION_FAILED''), w)
     else (case client_enroll (gc_console cfg) (gc_token cfg) tok csr version w of
         (Inl e, w1) \<Rightarrow> (Inl (enroll_grpc_error e), w1) | (Inr r, w1) \<Rightarrow> (Inr r, w1)))"

section \<open>uploader.go\<close>

text \<open>Without a console the data is dropped, with a line in the log, and taken for uploaded.\<close>

definition upload_metrics :: "gw_config \<Rightarrow> string \<Rightarrow> string \<Rightarrow> batch \<Rightarrow> console_world \<Rightarrow> bool \<times> console_world" where
  "upload_metrics cfg tenant conn b w = (if \<not> gc_uploader cfg then (True, w)
     else (case client_upload_metrics (gc_console cfg) (gc_token cfg) tenant conn b w of (r, w1) \<Rightarrow> (\<not> isl r, w1)))"

definition upload_snapshot :: "gw_config \<Rightarrow> string \<Rightarrow> string \<Rightarrow> snapshot \<Rightarrow> console_world \<Rightarrow> bool \<times> console_world" where
  "upload_snapshot cfg tenant conn s w = (if \<not> gc_uploader cfg then (True, w)
     else (case client_upload_snapshot (gc_console cfg) (gc_token cfg) tenant conn s w of (r, w1) \<Rightarrow> (\<not> isl r, w1)))"

section \<open>session.go\<close>

definition set_status :: "gw_config \<Rightarrow> gw_session \<Rightarrow> string \<Rightarrow> int option \<Rightarrow> console_world \<Rightarrow> console_world" where
  "set_status cfg s st hb w =
     snd (client_report_status (gc_console cfg) (gc_token cfg) (gs_tenant s) (gs_connector s) st hb w)"

definition command_result_err :: "command_result \<Rightarrow> go_error option" where
  "command_result_err r = (if cr_stat r = StatusOk then None
     else Some (Plain (if cr_code r = [] then ''AR_INTERNAL_ERROR'' else cr_code r)))"

definition degraded_after :: "gw_config \<Rightarrow> int" where
  "degraded_after cfg = gc_missed cfg * gc_heartbeat cfg"

definition recv_hello :: "client_frame option \<Rightarrow> grpc_status + string" where
  "recv_hello f = (case f of None \<Rightarrow> Inl (Unauthenticated, ''AR_AUTH_UNAUTHENTICATED'')
     | Some (FrameHello c) \<Rightarrow> if c = [] then Inl (InvalidArgument, ''AR_VALIDATION_FAILED'') else Inr c
     | Some _ \<Rightarrow> Inl (InvalidArgument, ''AR_VALIDATION_FAILED''))"

text \<open>The payload as \<open>Unmarshal\<close> reads it into a struct.\<close>

definition read_payload :: "((string \<times> json) list \<Rightarrow> 'a option) \<Rightarrow> string \<Rightarrow> 'a option" where
  "read_payload f p = Option.bind (json_parse p) (as_elem f)"

text \<open>What an upload comes to: the signal for the dispatch that waits for it.\<close>

definition handle_snapshot_upload :: "gw_config \<Rightarrow> gw_session \<Rightarrow> data_upload \<Rightarrow> console_world \<Rightarrow> go_error option \<times> console_world" where
  "handle_snapshot_upload cfg s u w = (case read_payload (snapshot_of (sf_floats (gc_console cfg)) False) (du_payload u) of
     None \<Rightarrow> (Some (Plain ''AR_SNAPSHOT_COLLECT_FAILED: decode snapshot''), w)
   | Some x \<Rightarrow> if sn_kind x \<noteq> du_kind u then (Some (Plain ''AR_SNAPSHOT_COLLECT_FAILED: kind mismatch''), w)
       else (case upload_snapshot cfg (gs_tenant s) (gs_connector s) x w of
           (ok, w1) \<Rightarrow> (if ok then None else Some (Plain ''AR_SNAPSHOT_COLLECT_FAILED: upload''), w1)))"

definition handle_data_upload :: "gw_config \<Rightarrow> gw_session \<Rightarrow> data_upload \<Rightarrow> console_world \<Rightarrow> go_error option \<times> console_world" where
  "handle_data_upload cfg s u w = (if du_kind u \<in> {''slowlog'', ''schema'', ''config''} then handle_snapshot_upload cfg s u w
     else if du_kind u \<noteq> ''metrics'' then (Some (Plain ''AR_COLLECT_UNSUPPORTED_KIND''), w)
     else (case read_payload (batch_of (sf_floats (gc_console cfg)) False) (du_payload u) of
         None \<Rightarrow> (Some (Plain ''AR_METRICS_COLLECT_FAILED: decode batch''), w)
       | Some b \<Rightarrow> (case upload_metrics cfg (gs_tenant s) (gs_connector s) b w of
             (ok, w1) \<Rightarrow> (if ok then None else Some (Plain ''AR_METRICS_COLLECT_FAILED: upload''), w1))))"

definition on_client_frame :: "gw_config \<Rightarrow> nat \<Rightarrow> client_frame \<Rightarrow> int \<Rightarrow> gateway \<Rightarrow> console_world \<Rightarrow> gateway \<times> console_world" where
  "on_client_frame cfg sid f now g w = (let s = gw_sessions g ! sid in case f of
     FrameHeartbeat n \<Rightarrow> (on_session sid (\<lambda>s. s\<lparr>gs_degrade := Some (now + degraded_after cfg), gs_offline := Some (now + gc_offline cfg)\<rparr>) g,
       set_status cfg s ''online'' (Some now) w)
   | FrameUpload u \<Rightarrow> (case handle_data_upload cfg s u w of (sig, w1) \<Rightarrow> (signal_command sid (du_cmd u) sig g, w1))
   | FrameResult r \<Rightarrow> (signal_command sid (cr_cmd r) (command_result_err r) g, w)
   | _ \<Rightarrow> (g, w))"

text \<open>The deferred calls of a session that ends: the status first, then the registry.\<close>

definition end_session :: "gw_config \<Rightarrow> nat \<Rightarrow> gateway \<Rightarrow> console_world \<Rightarrow> gateway \<times> console_world" where
  "end_session cfg sid g w = (on_session sid (\<lambda>s. s\<lparr>gs_open := False\<rparr>) (registry_remove sid g),
     set_status cfg (gw_sessions g ! sid) ''offline'' None w)"

text \<open>A session from the peer's certificate and its first frame up to the loop; \<open>acked\<close> says whether the
  acknowledgement could be sent.\<close>

definition open_session :: "gw_config \<Rightarrow> client_cert option \<Rightarrow> client_frame option \<Rightarrow> int \<Rightarrow> bool \<Rightarrow> gateway \<Rightarrow> console_world
    \<Rightarrow> (grpc_status + nat) \<times> gateway \<times> console_world" where
  "open_session cfg cert frame now acked g w = (case cert of
     None \<Rightarrow> (Inl (Unauthenticated, ''AR_AUTH_UNAUTHENTICATED''), g, w)
   | Some c \<Rightarrow> (case recv_hello frame of Inl e \<Rightarrow> (Inl e, g, w)
     | Inr conn \<Rightarrow> if cc_cn c \<noteq> conn then (Inl (PermissionDenied, ''AR_AUTH_FORBIDDEN''), g, w)
       else (case tenant_from_cert c of None \<Rightarrow> (Inl (PermissionDenied, ''AR_AUTH_FORBIDDEN''), g, w)
         | Some tenant \<Rightarrow>
           (case client_handshake (gc_console cfg) (gc_token cfg) tenant conn (cert_fingerprint (gc_sha cfg) c) w of
              (Inl e, w1) \<Rightarrow> (Inl (handshake_grpc_error e), g, w1)
            | (Inr _, w1) \<Rightarrow>
               (let sid = length (gw_sessions g); s = new_session conn tenant;
                    g1 = registry_add sid (g\<lparr>gw_sessions := gw_sessions g @ [s]\<rparr>);
                    w2 = set_status cfg s ''online'' (Some now) w1
                in if acked then (Inr sid, on_session sid (\<lambda>s. s\<lparr>gs_degrade := Some (now + degraded_after cfg),
                       gs_offline := Some (now + gc_offline cfg)\<rparr>) g1, w2)
                   else (case end_session cfg sid g1 w2 of (g2, w3) \<Rightarrow> (Inl (Unavailable, ''send''), g2, w3)))))))"

text \<open>What the loop of a session can take up, each with the time; a command goes out or its sending fails.\<close>

datatype loop_event = EvDrain | EvGone | EvDegrade | EvOffline | EvCommand bool | EvFrame client_frame

definition loop_step :: "gw_config \<Rightarrow> nat \<Rightarrow> loop_event \<Rightarrow> int \<Rightarrow> gateway \<Rightarrow> console_world \<Rightarrow> (gateway \<times> console_world) option" where
  "loop_step cfg sid ev now g w = (let s = gw_sessions g ! sid in
     if \<not> (sid < length (gw_sessions g) \<and> gs_open s) then None
     else case ev of
       EvDrain \<Rightarrow> if gs_drain s = None then None else Some (end_session cfg sid (on_session sid (\<lambda>s. s\<lparr>gs_drain := None\<rparr>) g) w)
     | EvGone \<Rightarrow> Some (end_session cfg sid g w)
     | EvDegrade \<Rightarrow> (case gs_degrade s of None \<Rightarrow> None | Some t \<Rightarrow> if now < t then None
         else Some (on_session sid (\<lambda>s. s\<lparr>gs_degrade := None\<rparr>) g, set_status cfg s ''degraded'' None w))
     | EvOffline \<Rightarrow> (case gs_offline s of None \<Rightarrow> None | Some t \<Rightarrow> if now < t then None
         else Some (end_session cfg sid (on_session sid (\<lambda>s. s\<lparr>gs_offline := None\<rparr>) g) (set_status cfg s ''offline'' None w)))
     | EvCommand okay \<Rightarrow> (case gs_commands s of [] \<Rightarrow> None
         | c # cs \<Rightarrow> (let g1 = on_session sid (\<lambda>s. s\<lparr>gs_commands := cs\<rparr>) g
             in Some (if okay then g1 else signal_command sid (cm_id c) (Some (Wrapf ''send command'' (Plain ''send''))) g1, w)))
     | EvFrame f \<Rightarrow> Some (on_client_frame cfg sid f now g w))"

section \<open>Dispatch\<close>

definition command_buffer :: nat where "command_buffer = 4"

definition dispatch_start :: "string \<Rightarrow> command \<Rightarrow> gateway \<Rightarrow> (go_error + nat) \<times> gateway" where
  "dispatch_start conn cmd g = (case gw_registry g conn of None \<Rightarrow> (Inl (Plain ''connector has no active session''), g)
     | Some sid \<Rightarrow> (let n = length (gw_dispatches g) in
         (Inr n, await_command sid (cm_id cmd) n (g\<lparr>gw_dispatches := gw_dispatches g
           @ [\<lparr>dp_session = sid, dp_command = cmd, dp_phase = Sending, dp_signals = []\<rparr>]\<rparr>))))"

definition dispatch_send :: "nat \<Rightarrow> gateway \<Rightarrow> gateway option" where
  "dispatch_send n g = (if \<not> n < length (gw_dispatches g) then None else (let p = gw_dispatches g ! n; s = gw_sessions g ! dp_session p in
     if dp_phase p \<noteq> Sending \<or> command_buffer \<le> length (gs_commands s) then None
     else Some (on_dispatch n (\<lambda>p. p\<lparr>dp_phase := Waiting\<rparr>) (on_session (dp_session p) (\<lambda>s. s\<lparr>gs_commands := gs_commands s @ [dp_command p]\<rparr>) g))))"

definition dispatch_expire :: "nat \<Rightarrow> gateway \<Rightarrow> gateway option" where
  "dispatch_expire n g = (if \<not> n < length (gw_dispatches g) then None else (let p = gw_dispatches g ! n in
     if dp_phase p \<noteq> Sending \<and> dp_phase p \<noteq> Waiting then None
     else Some (on_dispatch n (\<lambda>p. p\<lparr>dp_phase := Expired\<rparr>) (cancel_command (dp_session p) (cm_id (dp_command p)) g))))"

definition dispatch_receive :: "nat \<Rightarrow> gateway \<Rightarrow> gateway option" where
  "dispatch_receive n g = (if \<not> n < length (gw_dispatches g) then None else (let p = gw_dispatches g ! n in
     case dp_signals p of [] \<Rightarrow> None
     | sig # rest \<Rightarrow> if dp_phase p \<noteq> Waiting then None
         else Some (on_dispatch n (\<lambda>p. p\<lparr>dp_phase := Done sig, dp_signals := rest\<rparr>) g)))"

end
