(* ===== verification/Connector.thy ===== *)
theory Connector
  imports Gateway
begin

text \<open>
  The connector on the customer's side, \<^verbatim>\<open>connector/internal\<close>: the handlers of commands
  (\<^verbatim>\<open>session/handler.go\<close>, \<^verbatim>\<open>dbprobe/dbprobe.go\<close>), the session that receives them and
  sends what they answer (\<^verbatim>\<open>session/session.go\<close>), its backoff (\<^verbatim>\<open>session/backoff.go\<close>),
  and the files of the enrollment (\<^verbatim>\<open>conf/conf.go\<close>, \<^verbatim>\<open>enroll/enroll.go\<close>). The database
  that the probes ask is a parameter, the frames are those of the gateway.
\<close>

section \<open>handler.go\<close>

text \<open>A handler answers a command with a frame, or leaves it to the next one. The messages of errors are left out.\<close>

type_synonym cmd_handler = "command \<Rightarrow> client_frame option"

definition builtin_handle :: "command \<Rightarrow> client_frame" where
  "builtin_handle cmd = FrameResult (if cm_type cmd = ''PING''
       then \<lparr>cr_cmd = cm_id cmd, cr_stat = StatusOk, cr_code = [], cr_payload = []\<rparr>
     else if cm_type cmd = ''ECHO''
       then \<lparr>cr_cmd = cm_id cmd, cr_stat = StatusOk, cr_code = [], cr_payload = cm_payload cmd\<rparr>
     else \<lparr>cr_cmd = cm_id cmd, cr_stat = StatusUnsupported, cr_code = ''AR_COMMON_NOT_IMPLEMENTED'', cr_payload = []\<rparr>)"

fun chain_handle :: "cmd_handler list \<Rightarrow> command \<Rightarrow> client_frame" where
  "chain_handle [] cmd = builtin_handle cmd"
| "chain_handle (h # hs) cmd = (case h cmd of None \<Rightarrow> chain_handle hs cmd | Some f \<Rightarrow> f)"

section \<open>accessor.go\<close>

text \<open>The same two commands on the direct channel.\<close>

definition builtin_dispatch :: "command \<Rightarrow> command_result" where
  "builtin_dispatch cmd = (if cm_type cmd = ''PING'' then \<lparr>cr_cmd = cm_id cmd, cr_stat = StatusOk, cr_code = [], cr_payload = []\<rparr>
     else if cm_type cmd = ''ECHO'' then \<lparr>cr_cmd = cm_id cmd, cr_stat = StatusOk, cr_code = [], cr_payload = cm_payload cmd\<rparr>
     else \<lparr>cr_cmd = cm_id cmd, cr_stat = StatusUnsupported, cr_code = ''AR_COMMON_NOT_IMPLEMENTED'', cr_payload = []\<rparr>)"

section \<open>dbprobe.go\<close>

definition snapshot_kind_for_command :: "string \<Rightarrow> string option" where
  "snapshot_kind_for_command t = (if t = ''PROBE_SLOWLOG'' then Some ''slowlog'' else if t = ''PROBE_SCHEMA'' then Some ''schema''
     else if t = ''PROBE_CONFIG'' then Some ''config'' else None)"

record probe_request =
  pq_ds :: string
  pq_family :: string

definition probe_request_of :: "(string \<times> json) list \<Rightarrow> probe_request option" where
  "probe_request_of kvs = (case (str_field ''datasource_id'' kvs, str_field ''engine_family'' kvs) of
     (Some d, Some f) \<Rightarrow> Some \<lparr>pq_ds = d, pq_family = f\<rparr> | _ \<Rightarrow> None)"

definition err_frame :: "string \<Rightarrow> string \<Rightarrow> client_frame" where
  "err_frame cid code = FrameResult \<lparr>cr_cmd = cid, cr_stat = StatusError, cr_code = code, cr_payload = []\<rparr>"

definition decode_probe_request :: "command \<Rightarrow> client_frame + probe_request" where
  "decode_probe_request cmd = (case read_payload probe_request_of (cm_payload cmd) of
     None \<Rightarrow> Inl (err_frame (cm_id cmd) ''AR_VALIDATION_FAILED'') | Some q \<Rightarrow> Inr q)"

definition upload_frame :: "command \<Rightarrow> string \<Rightarrow> string \<Rightarrow> json \<Rightarrow> client_frame" where
  "upload_frame cmd ds kind j = (case marshal j of None \<Rightarrow> err_frame (cm_id cmd) ''AR_INTERNAL_ERROR''
     | Some body \<Rightarrow> FrameUpload \<lparr>du_cmd = cm_id cmd, du_ds = ds, du_kind = kind, du_payload = body\<rparr>)"

text \<open>A value of the database, as the driver decodes it; a float or a time comes with its text.\<close>

datatype db_value = DbNull | DbText string | DbBool bool | DbTime int | DbFloat string | DbInt int | DbOther string

definition stringify_value :: "db_value \<Rightarrow> string" where
  "stringify_value v = (case v of DbNull \<Rightarrow> [] | DbText s \<Rightarrow> s | DbBool b \<Rightarrow> (if b then ''true'' else ''false'')
     | DbTime t \<Rightarrow> time_text t | DbFloat s \<Rightarrow> s | DbInt n \<Rightarrow> int_str n | DbOther s \<Rightarrow> s)"

text \<open>The answer of the database to a statement: no answer, or the names of the columns with rows, after which reading may
  fail. Of two columns of a name the last one fills the map.\<close>

record db_answer =
  da_names :: "string list"
  da_rows :: "db_value list list"
  da_failed :: bool

definition row_map :: "string list \<Rightarrow> db_value list \<Rightarrow> sql_row" where
  "row_map names vs = rev (zip names (map stringify_value vs))"

definition query_rows_db :: "(source_sql \<Rightarrow> db_answer option) \<Rightarrow> row_querier" where
  "query_rows_db db sql maxr = (case db sql of None \<Rightarrow> Inl (Wrapf ''dbprobe: query rows'' (Plain ''db''))
     | Some a \<Rightarrow> if 0 < maxr \<and> maxr < length (da_rows a) then Inr (map (row_map (da_names a)) (take maxr (da_rows a)))
         else if da_failed a then Inl (Wrapf ''dbprobe: read rows'' (Plain ''db''))
         else Inr (map (row_map (da_names a)) (da_rows a)))"

definition query_metric_db :: "(metric_sql \<Rightarrow> string option option) \<Rightarrow> querier" where
  "query_metric_db db sql = (case db sql of None \<Rightarrow> Inl (Wrapf ''dbprobe: query'' (Plain ''db'')) | Some v \<Rightarrow> Inr v)"

text \<open>What a connector probes with: its database, its clock, the arithmetic of floats.\<close>

record probe_env =
  pe_metric :: "metric_sql \<Rightarrow> string option option"
  pe_rows :: "source_sql \<Rightarrow> db_answer option"
  pe_now :: int
  pe_floats :: float_ops

definition handle_metrics :: "probe_env \<Rightarrow> command \<Rightarrow> client_frame" where
  "handle_metrics pe cmd = (case decode_probe_request cmd of Inl bad \<Rightarrow> bad
     | Inr q \<Rightarrow> (case collect_metrics (query_metric_db (pe_metric pe)) (pq_ds q) (pq_family q) (pe_now pe) of
         Inl e \<Rightarrow> err_frame (cm_id cmd) ''AR_METRICS_COLLECT_FAILED''
       | Inr b \<Rightarrow> upload_frame cmd (pq_ds q) ''metrics'' (batch_json b)))"

text \<open>A kind that the probe does not know cannot come from the table above.\<close>

definition handle_snapshot :: "probe_env \<Rightarrow> command \<Rightarrow> client_frame" where
  "handle_snapshot pe cmd = (case snapshot_kind_for_command (cm_type cmd) of
     None \<Rightarrow> err_frame (cm_id cmd) ''AR_COLLECT_UNSUPPORTED_KIND''
   | Some kind \<Rightarrow> (case decode_probe_request cmd of Inl bad \<Rightarrow> bad
     | Inr q \<Rightarrow> (case collect_snapshot (pe_floats pe) (query_rows_db (pe_rows pe)) (pq_ds q) (pq_family q) (pe_now pe) kind of
         Inl e \<Rightarrow> err_frame (cm_id cmd) (if valid_snapshot_kind kind then ''AR_SNAPSHOT_COLLECT_FAILED'' else ''AR_COLLECT_UNSUPPORTED_KIND'')
       | Inr s \<Rightarrow> upload_frame cmd (pq_ds q) kind (snapshot_json s))))"

definition db_handle :: "probe_env \<Rightarrow> cmd_handler" where
  "db_handle pe cmd = (if cm_type cmd = ''PROBE_METRICS'' then Some (handle_metrics pe cmd)
     else if snapshot_kind_for_command (cm_type cmd) \<noteq> None then Some (handle_snapshot pe cmd) else None)"

section \<open>backoff.go\<close>

text \<open>Durations in nanoseconds, as 64-bit numbers.\<close>

definition wrap_int64 :: "int \<Rightarrow> int" where
  "wrap_int64 n = (n + 2 ^ 63) mod 2 ^ 64 - 2 ^ 63"

definition second :: int where "second = 1000000000"

record backoff =
  bo_base :: int
  bo_max :: int
  bo_attempt :: nat

definition new_backoff :: "int \<Rightarrow> backoff" where
  "new_backoff m = \<lparr>bo_base = second, bo_max = m, bo_attempt = 0\<rparr>"

definition backoff_next :: "backoff \<Rightarrow> int \<times> backoff" where
  "backoff_next b = (let d0 = wrap_int64 (bo_base b * 2 ^ bo_attempt b);
       (d, b1) = (if d0 \<le> 0 \<or> bo_max b < d0 then (bo_max b, b) else (d0, b\<lparr>bo_attempt := bo_attempt b + 1\<rparr>))
     in (d + int (bo_attempt b1) * 137 mod bo_base b, b1))"

definition backoff_reset :: "backoff \<Rightarrow> backoff" where
  "backoff_reset b = b\<lparr>bo_attempt := 0\<rparr>"

section \<open>session.go\<close>

definition default_max_backoff :: int where "default_max_backoff = 300 * second"

definition session_backoff :: "int \<Rightarrow> backoff" where
  "session_backoff m = new_backoff (if m = 0 then default_max_backoff else m)"

text \<open>\<open>Run\<close> until the context ends: of every session whether its handshake succeeded, and the waits between them.\<close>

fun run_delays :: "bool list \<Rightarrow> backoff \<Rightarrow> int list" where
  "run_delays [] b = []"
| "run_delays (shook # rest) b = (case backoff_next (if shook then backoff_reset b else b) of (d, b1) \<Rightarrow> d # run_delays rest b1)"

definition heartbeat_interval :: "nat \<Rightarrow> int" where
  "heartbeat_interval n = (if 0 < n then int n * second else 15 * second)"

text \<open>A running session. The receiver hands what a handler answers to the sender over a channel of four places and
  waits when it is full.\<close>

definition results_cap :: nat where "results_cap = 4"

record link =
  pu_results :: "client_frame list"
  pu_blocked :: "client_frame option"
  pu_drained :: bool
  pu_seq :: nat
  pu_sent :: "client_frame list"
  pu_ended :: bool

definition new_link :: link where
  "new_link = \<lparr>pu_results = [], pu_blocked = None, pu_drained = False, pu_seq = 0, pu_sent = [], pu_ended = False\<rparr>"

text \<open>What the receiver reads, and what the sender takes up; a send may fail, which ends the session.\<close>

datatype server_frame = FrameCommand command | FrameDrain string | FrameOther
datatype link_event = PumpRecv server_frame | PumpRecvError | PumpSend bool | PumpTick bool | PumpUnblock | PumpCancel

definition link_step :: "(command \<Rightarrow> client_frame) \<Rightarrow> link_event \<Rightarrow> link \<Rightarrow> link option" where
  "link_step h ev p = (case ev of
     PumpRecv f \<Rightarrow> if pu_blocked p \<noteq> None \<or> pu_drained p then None
       else (case f of FrameCommand c \<Rightarrow> Some (p\<lparr>pu_blocked := Some (h c)\<rparr>)
         | FrameDrain r \<Rightarrow> Some (p\<lparr>pu_drained := True\<rparr>) | FrameOther \<Rightarrow> Some p)
   | PumpUnblock \<Rightarrow> (case pu_blocked p of None \<Rightarrow> None
       | Some f \<Rightarrow> if length (pu_results p) < results_cap then Some (p\<lparr>pu_results := pu_results p @ [f], pu_blocked := None\<rparr>) else None)
   | PumpRecvError \<Rightarrow> if pu_ended p \<or> pu_blocked p \<noteq> None then None else Some (p\<lparr>pu_ended := True\<rparr>)
   | PumpSend okay \<Rightarrow> (case pu_results p of [] \<Rightarrow> None
       | f # fs \<Rightarrow> if pu_ended p then None
           else if okay then Some (p\<lparr>pu_results := fs, pu_sent := pu_sent p @ [f]\<rparr>) else Some (p\<lparr>pu_results := fs, pu_ended := True\<rparr>))
   | PumpTick okay \<Rightarrow> if pu_ended p then None
       else if okay then Some (p\<lparr>pu_seq := pu_seq p + 1, pu_sent := pu_sent p @ [FrameHeartbeat (pu_seq p + 1)]\<rparr>)
       else Some (p\<lparr>pu_seq := pu_seq p + 1, pu_ended := True\<rparr>)
   | PumpCancel \<Rightarrow> if pu_ended p then None else Some (p\<lparr>pu_ended := True\<rparr>))"

section \<open>conf.go and enroll.go\<close>

text \<open>The directory of credentials: a file by its name. A write succeeds, fails before it has touched the file, or
  fails after it has written the first bytes, in place of what the file held.\<close>

datatype conf_file = KeyFile | CertFile | CaFile | MetaFile
datatype write_result = Written | Untouched | CutAt nat

type_synonym conf_store = "conf_file \<Rightarrow> string option"

definition conf_write :: "conf_file \<Rightarrow> string \<Rightarrow> write_result \<Rightarrow> conf_store \<Rightarrow> (go_error + unit) \<times> conf_store" where
  "conf_write f content r st = (case r of Written \<Rightarrow> (Inr (), st(f := Some content))
     | Untouched \<Rightarrow> (Inl (Wrapf ''conf: write'' (Plain ''io'')), st)
     | CutAt n \<Rightarrow> (Inl (Wrapf ''conf: write'' (Plain ''io'')), st(f := Some (take n content))))"

definition conf_read :: "conf_file \<Rightarrow> conf_store \<Rightarrow> go_error + string" where
  "conf_read f st = (case st f of None \<Rightarrow> Inl (Wrapf ''conf: read'' (Plain ''io'')) | Some c \<Rightarrow> Inr c)"

definition enrolled_conf :: "conf_store \<Rightarrow> bool" where
  "enrolled_conf st \<longleftrightarrow> (\<forall>f \<in> {KeyFile, CertFile, MetaFile}. st f \<noteq> None)"

fun conf_writes :: "(conf_file \<times> string) list \<Rightarrow> write_result list \<Rightarrow> conf_store \<Rightarrow> (go_error + unit) \<times> conf_store" where
  "conf_writes [] rs st = (Inr (), st)"
| "conf_writes ((f, c) # rest) rs st = (case conf_write f c (if rs = [] then Written else hd rs) st of
     (Inl e, st1) \<Rightarrow> (Inl e, st1) | (Inr _, st1) \<Rightarrow> conf_writes rest (tl rs) st1)"

text \<open>An enrollment: a fresh key and the request signed with it, the remote call, then the files. \<open>oks\<close> says how the
  writes go.\<close>

definition enroll_run :: "gw_config \<Rightarrow> string \<times> string \<Rightarrow> string \<Rightarrow> string \<Rightarrow> write_result list \<Rightarrow> conf_store \<Rightarrow> console_world
    \<Rightarrow> (string + unit) \<times> conf_store \<times> console_world" where
  "enroll_run cfg kc tok version oks st w = (case gw_enroll cfg tok (snd kc) version w of
     (Inl e, w1) \<Rightarrow> (Inl (snd e), st, w1)
   | (Inr r, w1) \<Rightarrow> (case conf_writes [(KeyFile, fst kc), (CertFile, er_cert r), (CaFile, er_bundle r), (MetaFile, er_connector r)] oks st of
       (Inl e, st1) \<Rightarrow> (Inl ''conf: write'', st1, w1) | (Inr _, st1) \<Rightarrow> (Inr (), st1, w1)))"

end
