(* ===== verification/CredCrypto.thy ===== *)
theory CredCrypto
  imports ApiError GoText "HOL-Library.Word"
begin

text \<open>
  The envelope encryption of credentials, \<^verbatim>\<open>console/internal/credcrypto/credcrypto.go\<close>. The
  authenticated cipher is Go's \<^verbatim>\<open>cipher.NewGCM\<close> with nonces of 12 bytes and no additional data,
  written out over the block cipher, which is a parameter \<open>blk\<close>: a permutation of blocks for each key is not
  needed, only a function. The laws that the envelope relies on are the locale \<open>aead\<close>.
\<close>

unbundle bit_operations_syntax

section \<open>Galois counter mode\<close>

type_synonym block = "128 word"
type_synonym block_cipher = "string \<Rightarrow> block \<Rightarrow> block"

definition xor_char :: "char \<Rightarrow> char \<Rightarrow> char" where
  "xor_char c d = char_of ((of_char c :: nat) XOR of_char d)"

definition xor_bytes :: "string \<Rightarrow> string \<Rightarrow> string" where
  "xor_bytes a b = map2 xor_char a b"

definition block_bytes :: "block \<Rightarrow> string" where
  "block_bytes w = map (\<lambda>i. char_of (unat (drop_bit (8 * (15 - i)) w))) [0..<16]"

definition bytes_block :: "string \<Rightarrow> block" where
  "bytes_block s = foldl (\<lambda>w c. push_bit 8 w OR of_nat (of_char c)) 0 (take 16 (s @ replicate 16 (CHR 0x00)))"

fun blocks :: "nat \<Rightarrow> string \<Rightarrow> block list" where
  "blocks 0 s = []"
| "blocks (Suc n) s = bytes_block (take 16 s) # blocks n (drop 16 s)"

definition count_blocks :: "string \<Rightarrow> nat" where
  "count_blocks s = (length s + 15) div 16"

definition gcm_start :: "string \<Rightarrow> block" where
  "gcm_start nonce = bytes_block (nonce @ [CHR 0x00, CHR 0x00, CHR 0x00, CHR 0x01])"

text \<open>The counter is the last 32 bits.\<close>

definition inc32 :: "block \<Rightarrow> block" where
  "inc32 w = push_bit 32 (drop_bit 32 w) OR take_bit 32 (w + 1)"

definition key_stream :: "(block \<Rightarrow> block) \<Rightarrow> block \<Rightarrow> nat \<Rightarrow> string" where
  "key_stream e j0 n = take n (concat (map (\<lambda>i. block_bytes (e ((inc32 ^^ Suc i) j0))) [0..<(n + 15) div 16]))"

text \<open>Multiplication in the field of the hash, with the bits of a block read from the highest on.\<close>

fun field_mult :: "nat \<Rightarrow> block \<Rightarrow> block \<Rightarrow> block \<Rightarrow> block" where
  "field_mult 0 x v z = z"
| "field_mult (Suc n) x v z = field_mult n x
     (if bit v 0 then drop_bit 1 v XOR push_bit 120 0xE1 else drop_bit 1 v)
     (if bit x n then z XOR v else z)"

definition ghash :: "block \<Rightarrow> block list \<Rightarrow> block" where
  "ghash h bs = foldl (\<lambda>y b. field_mult 128 (y XOR b) h 0) 0 bs"

definition gcm_tag :: "(block \<Rightarrow> block) \<Rightarrow> block \<Rightarrow> string \<Rightarrow> string" where
  "gcm_tag e j0 c = block_bytes (e j0 XOR ghash (e 0) (blocks (count_blocks c) c @ [of_nat (8 * length c)]))"

definition gcm_seal :: "block_cipher \<Rightarrow> string \<Rightarrow> string \<Rightarrow> string \<Rightarrow> string" where
  "gcm_seal blk key nonce p = (let e = blk key; j0 = gcm_start nonce; c = xor_bytes p (key_stream e j0 (length p))
     in c @ gcm_tag e j0 c)"

definition gcm_open :: "block_cipher \<Rightarrow> string \<Rightarrow> string \<Rightarrow> string \<Rightarrow> string option" where
  "gcm_open blk key nonce ct = (if length ct < 16 then None
     else let e = blk key; j0 = gcm_start nonce; c = take (length ct - 16) ct
       in if gcm_tag e j0 c = drop (length ct - 16) ct then Some (xor_bytes c (key_stream e j0 (length c))) else None)"

section \<open>The envelope\<close>

definition kek_len :: nat where "kek_len = 32"
definition dek_len :: nat where "dek_len = 32"
definition nonce_len :: nat where "nonce_len = 12"
definition wrapped_len :: nat where "wrapped_len = dek_len + 16"
definition header_len :: nat where "header_len = nonce_len + wrapped_len + nonce_len"

definition seal_blob :: "(string \<Rightarrow> string \<Rightarrow> string \<Rightarrow> string) \<Rightarrow> string \<Rightarrow> string \<Rightarrow> string \<Rightarrow> string \<Rightarrow> string \<Rightarrow> string" where
  "seal_blob aseal kek dek nonce1 nonce2 p = nonce1 @ aseal kek nonce1 dek @ nonce2 @ aseal dek nonce2 p"

datatype open_error = MalformedBlob | UnwrapFailed | OpenFailed

definition open_blob :: "(string \<Rightarrow> string \<Rightarrow> string \<Rightarrow> string option) \<Rightarrow> string \<Rightarrow> string \<Rightarrow> open_error + string" where
  "open_blob aopen kek blob = (if length blob < header_len then Inl MalformedBlob
     else let nonce1 = take nonce_len blob; wrapped = take wrapped_len (drop nonce_len blob);
              nonce2 = take nonce_len (drop (nonce_len + wrapped_len) blob); ct = drop header_len blob
       in case aopen kek nonce1 wrapped of None \<Rightarrow> Inl UnwrapFailed
         | Some dek \<Rightarrow> (case aopen dek nonce2 ct of None \<Rightarrow> Inl OpenFailed | Some p \<Rightarrow> Inr p))"

text \<open>What the envelope needs of the cipher: it opens what was sealed and nothing else, and a tag of 16 bytes.\<close>

locale aead =
  fixes aseal :: "string \<Rightarrow> string \<Rightarrow> string \<Rightarrow> string"
    and aopen :: "string \<Rightarrow> string \<Rightarrow> string \<Rightarrow> string option"
  assumes open_seal: "aopen key nonce (aseal key nonce p) = Some p"
    and open_only_seal: "aopen key nonce c = Some p \<Longrightarrow> c = aseal key nonce p"
    and seal_length: "length (aseal key nonce p) = length p + 16"
begin

lemma open_iff: "aopen key nonce c = Some p \<longleftrightarrow> c = aseal key nonce p"
  using open_seal open_only_seal by blast

lemma blob_length:
  assumes "length dek = dek_len" "length n1 = nonce_len" "length n2 = nonce_len"
  shows "length (seal_blob aseal kek dek n1 n2 p) = header_len + length p + 16"
  using assms by (simp add: seal_blob_def seal_length header_len_def wrapped_len_def)

lemma open_seal_blob:
  assumes "length dek = dek_len" "length n1 = nonce_len" "length n2 = nonce_len"
  shows "open_blob aopen kek (seal_blob aseal kek dek n1 n2 p) = Inr p"
proof -
  let ?b = "seal_blob aseal kek dek n1 n2 p"
  have w: "length (aseal kek n1 dek) = wrapped_len" using assms by (simp add: seal_length wrapped_len_def)
  have "take nonce_len ?b = n1" "take wrapped_len (drop nonce_len ?b) = aseal kek n1 dek"
    "take nonce_len (drop (nonce_len + wrapped_len) ?b) = n2" "drop header_len ?b = aseal dek n2 p"
    using assms w by (simp_all add: seal_blob_def header_len_def)
  with blob_length [OF assms] show ?thesis by (simp add: open_blob_def open_seal)
qed

lemma open_blob_sealed:
  assumes "open_blob aopen kek blob = Inr p"
  shows "\<exists>dek n1 n2. length dek = dek_len \<and> length n1 = nonce_len \<and> length n2 = nonce_len \<and> blob = seal_blob aseal kek dek n1 n2 p"
proof -
  let ?n1 = "take nonce_len blob" and ?w = "take wrapped_len (drop nonce_len blob)"
    and ?n2 = "take nonce_len (drop (nonce_len + wrapped_len) blob)" and ?ct = "drop header_len blob"
  have len: "\<not> length blob < header_len" using assms by (auto simp: open_blob_def)
  with assms obtain dek where d: "aopen kek ?n1 ?w = Some dek" "aopen dek ?n2 ?ct = Some p"
    by (auto simp: open_blob_def Let_def split: option.splits)
  from open_only_seal [OF d(1)] open_only_seal [OF d(2)] have eq: "?w = aseal kek ?n1 dek" "?ct = aseal dek ?n2 p" .
  from len have "length ?w = wrapped_len" by (simp add: header_len_def)
  then have "length dek = dek_len" using arg_cong [OF eq(1), of length] by (simp only: seal_length wrapped_len_def)
  moreover have "blob = ?n1 @ ?w @ ?n2 @ ?ct"
    unfolding header_len_def by (metis append_take_drop_id drop_drop add.commute)
  ultimately show ?thesis using len eq
    by (intro exI [of _ dek] exI [of _ ?n1] exI [of _ ?n2]) (auto simp: seal_blob_def header_len_def)
qed

end

section \<open>The cipher meets the laws\<close>

lemma block_bytes_length [simp]: "length (block_bytes w) = 16"
  by (simp add: block_bytes_def)

lemma xor_char_twice: "xor_char (xor_char c d) d = c"
proof -
  have t: "take_bit 8 (of_char x :: nat) = of_char x" for x by (simp add: take_bit_eq_mod)
  have "take_bit 8 (of_char c XOR of_char d :: nat) = of_char c XOR of_char d" by (simp only: take_bit_xor t)
  then have "(of_char c XOR of_char d :: nat) mod 256 = of_char c XOR of_char d" by (simp add: take_bit_eq_mod)
  then show ?thesis by (simp add: xor_char_def xor.assoc)
qed

lemma xor_bytes_length: "length (xor_bytes a b) = min (length a) (length b)"
  by (simp add: xor_bytes_def)

lemma xor_bytes_twice: "length a = length b \<Longrightarrow> xor_bytes (xor_bytes a b) b = a"
  by (induction a b rule: list_induct2) (simp_all add: xor_bytes_def xor_char_twice)

lemma key_stream_length: "length (key_stream e j0 n) = n"
proof -
  have "length (concat (map (\<lambda>i. block_bytes (f i)) [0..<k])) = 16 * k" for f :: "nat \<Rightarrow> block" and k
    by (induction k) simp_all
  then show ?thesis by (simp add: key_stream_def del: funpow.simps)
qed

lemma gcm_tag_length [simp]: "length (gcm_tag e j0 c) = 16"
  by (simp add: gcm_tag_def)

interpretation gcm: aead "gcm_seal blk" "gcm_open blk" for blk
proof
  show "length (gcm_seal blk key nonce p) = length p + 16" for key nonce p
    by (simp add: gcm_seal_def Let_def xor_bytes_length key_stream_length)
  show "gcm_open blk key nonce (gcm_seal blk key nonce p) = Some p" for key nonce p
    by (simp add: gcm_open_def gcm_seal_def Let_def xor_bytes_length key_stream_length xor_bytes_twice)
  show "c = gcm_seal blk key nonce p" if "gcm_open blk key nonce c = Some p" for key nonce c p
  proof -
    let ?e = "blk key" and ?j = "gcm_start nonce" and ?c = "take (length c - 16) c"
    from that have "gcm_tag ?e ?j ?c = drop (length c - 16) c" "p = xor_bytes ?c (key_stream ?e ?j (length ?c))"
      by (auto simp: gcm_open_def Let_def split: if_splits)
    moreover from this(2) have "xor_bytes p (key_stream ?e ?j (length p)) = ?c"
      by (simp add: xor_bytes_length key_stream_length xor_bytes_twice)
    ultimately show ?thesis by (simp add: gcm_seal_def Let_def)
  qed
qed

section \<open>The sealer\<close>

text \<open>
  The standard alphabet of base64: the URL alphabet with two other characters, and padding.
\<close>

definition std_char :: "char \<Rightarrow> char" where
  "std_char c = (if c = CHR ''+'' then CHR ''-'' else if c = CHR ''/'' then CHR ''_'' else c)"

definition unpad :: "string \<Rightarrow> string" where
  "unpad v = (if v \<noteq> [] \<and> last v = CHR ''='' then (let w = butlast v in if w \<noteq> [] \<and> last w = CHR ''='' then butlast w else w) else v)"

definition b64_std_decode :: "string \<Rightarrow> string option" where
  "b64_std_decode v = (let w = filter (\<lambda>c. c \<noteq> CHR 0x0A \<and> c \<noteq> CHR 0x0D) v
     in if CHR ''-'' \<in> set w \<or> CHR ''_'' \<in> set w \<or> length w mod 4 \<noteq> 0 then None else b64_decode (map std_char (unpad w)))"

record sealer =
  sl_kek :: string
  sl_key_id :: string

definition new_sealer :: "string \<Rightarrow> string \<Rightarrow> go_error + sealer" where
  "new_sealer kek64 key_id = (if key_id = [] then Inl (Plain ''credcrypto: key id must not be empty'')
     else case b64_std_decode kek64 of None \<Rightarrow> Inl (Wrapf ''credcrypto: decode KEK'' (Plain ''base64''))
       | Some kek \<Rightarrow> if length kek \<noteq> kek_len then Inl (Plain ''credcrypto: KEK length'')
           else Inr \<lparr>sl_kek = kek, sl_key_id = key_id\<rparr>)"

text \<open>Reads of the random source: the key and the two nonces, \<open>None\<close> when a read fails.\<close>

record seal_random =
  sr_dek :: "string option"
  sr_nonce1 :: "string option"
  sr_nonce2 :: "string option"

definition seal :: "block_cipher \<Rightarrow> sealer \<Rightarrow> seal_random \<Rightarrow> string \<Rightarrow> go_error + string" where
  "seal blk sl rnd p = (case sr_dek rnd of None \<Rightarrow> Inl (Wrapf ''credcrypto: generate DEK'' (Plain ''rand''))
     | Some dek \<Rightarrow> (case (sr_nonce1 rnd, sr_nonce2 rnd) of
         (Some n1, Some n2) \<Rightarrow> Inr (seal_blob (gcm_seal blk) (sl_kek sl) dek n1 n2 p)
       | _ \<Rightarrow> Inl (Wrapf ''credcrypto: generate nonce'' (Plain ''rand''))))"

definition open_sealed :: "block_cipher \<Rightarrow> sealer \<Rightarrow> string \<Rightarrow> open_error + string" where
  "open_sealed blk sl blob = open_blob (gcm_open blk) (sl_kek sl) blob"

definition random_ok :: "seal_random \<Rightarrow> bool" where
  "random_ok rnd \<longleftrightarrow> (\<forall>k. sr_dek rnd = Some k \<longrightarrow> length k = dek_len)
     \<and> (\<forall>n. sr_nonce1 rnd = Some n \<or> sr_nonce2 rnd = Some n \<longrightarrow> length n = nonce_len)"

text \<open>C24: a sealed credential opens to its plaintext, and nothing else opens. With random values of the right
  length, what \<open>Seal\<close> returns is opened by the same sealer to the same plaintext; and whatever \<open>Open\<close>
  accepts, it is what \<open>Seal\<close> makes of the opened plaintext with some random values: a truncated or altered
  ciphertext, or one under another key, is refused unless it is itself such a ciphertext.\<close>

theorem sealed_opens:
  assumes "random_ok rnd" "seal blk sl rnd p = Inr blob"
  shows "open_sealed blk sl blob = Inr p \<and> length blob = header_len + length p + 16
    \<and> (\<forall>blob' p'. open_sealed blk sl blob' = Inr p' \<longleftrightarrow> (\<exists>rnd'. random_ok rnd' \<and> seal blk sl rnd' p' = Inr blob'))"
proof -
  have s: "\<exists>dek n1 n2. sr_dek rnd = Some dek \<and> sr_nonce1 rnd = Some n1 \<and> sr_nonce2 rnd = Some n2
      \<and> length dek = dek_len \<and> length n1 = nonce_len \<and> length n2 = nonce_len
      \<and> blob = seal_blob (gcm_seal blk) (sl_kek sl) dek n1 n2 p"
    if "random_ok rnd" "seal blk sl rnd p = Inr blob" for rnd p blob
    using that by (auto simp: seal_def random_ok_def split: option.splits)
  have o: "open_sealed blk sl blob = Inr p" if "random_ok rnd" "seal blk sl rnd p = Inr blob" for rnd p blob
    using s [OF that] gcm.open_seal_blob by (auto simp: open_sealed_def)
  have "\<exists>rnd'. random_ok rnd' \<and> seal blk sl rnd' p' = Inr blob'" if op: "open_sealed blk sl blob' = Inr p'" for blob' p'
  proof -
    from gcm.open_blob_sealed [OF op [unfolded open_sealed_def]] obtain dek n1 n2 where
      "length dek = dek_len" "length n1 = nonce_len" "length n2 = nonce_len"
      "blob' = seal_blob (gcm_seal blk) (sl_kek sl) dek n1 n2 p'" by blast
    then show ?thesis
      by (intro exI [of _ "\<lparr>sr_dek = Some dek, sr_nonce1 = Some n1, sr_nonce2 = Some n2\<rparr>"]) (auto simp: seal_def random_ok_def)
  qed
  with o [OF assms] o s [OF assms] gcm.blob_length show ?thesis by metis
qed

lemma sealed_opens_witness:
  "\<exists>blob. seal (\<lambda>k b. b) \<lparr>sl_kek = replicate 32 (CHR ''k''), sl_key_id = ''v1''\<rparr>
       \<lparr>sr_dek = Some (replicate 32 (CHR ''d'')), sr_nonce1 = Some (replicate 12 (CHR ''1'')), sr_nonce2 = Some (replicate 12 (CHR ''2''))\<rparr> ''pw''
       = Inr blob
     \<and> open_sealed (\<lambda>k b. b) \<lparr>sl_kek = replicate 32 (CHR ''k''), sl_key_id = ''v1''\<rparr> blob = Inr ''pw''"
proof -
  let ?sl = "\<lparr>sl_kek = replicate 32 (CHR ''k''), sl_key_id = ''v1''\<rparr>"
  let ?rnd = "\<lparr>sr_dek = Some (replicate 32 (CHR ''d'')), sr_nonce1 = Some (replicate 12 (CHR ''1'')), sr_nonce2 = Some (replicate 12 (CHR ''2''))\<rparr>"
  have r: "random_ok ?rnd" by (auto simp: random_ok_def dek_len_def nonce_len_def)
  obtain blob where "seal (\<lambda>k b. b) ?sl ?rnd ''pw'' = Inr blob" by (simp add: seal_def)
  with sealed_opens [OF r this] show ?thesis by blast
qed

end
