(* ===== verification/ConsoleDatasources.thy ===== *)
theory ConsoleDatasources
  imports ConsoleInventory CredCrypto
begin

text \<open>
  The public API of the inventory, \<^verbatim>\<open>console/internal/httpapi\<close>: datasources and their
  credentials (\<^verbatim>\<open>datasources.go\<close>), agents (\<^verbatim>\<open>agents.go\<close>), groups
  (\<^verbatim>\<open>groups.go\<close>) and aliases (\<^verbatim>\<open>aliases.go\<close>). What a request takes from
  outside is a record: the faults of the transaction, the clock, fresh ids, the random values of the sealer.
\<close>

record api_env =
  ae_sha :: "string \<Rightarrow> string"
  ae_blk :: block_cipher
  ae_sealer :: sealer
  ae_tenant :: string

record api_call =
  ac_fault :: tx_fault
  ac_now :: int
  ac_id :: string
  ac_id2 :: string
  ac_random :: seal_random
  ac_key :: string
  ac_body :: "string option"

definition in_tenant :: "api_env \<Rightarrow> api_call \<Rightarrow> 'a ctx_body \<Rightarrow> cdb \<Rightarrow> (go_error + 'a) \<times> cdb" where
  "in_tenant env c body d = console_tx (ac_fault c) (with_tenant None (ae_tenant env)) body d"

text \<open>The shapes that handlers share: a validated body, an answer with a JSON value, one without.\<close>

definition with_body :: "api_call \<Rightarrow> string list \<Rightarrow> ((string \<times> json) list \<Rightarrow> 'r option) \<Rightarrow> (go_error + string \<times> 'r)" where
  "with_body c names f = (case ConsoleHttp.read_body (ac_body c) of Inl e \<Rightarrow> Inl e
     | Inr raw \<Rightarrow> (case decode_strict names f raw of Inl e \<Rightarrow> Inl e | Inr q \<Rightarrow> Inr (raw, q)))"

definition answer_json :: "(go_error + json) \<times> cdb \<Rightarrow> (go_error + console_answer) \<times> cdb" where
  "answer_json rd = (case rd of (Inl e, d) \<Rightarrow> (Inl e, d) | (Inr v, d) \<Rightarrow> (Inr (ConsoleJson 200 v), d))"

definition answer_done :: "(go_error + unit) \<times> cdb \<Rightarrow> (go_error + console_answer) \<times> cdb" where
  "answer_done rd = (case rd of (Inl e, d) \<Rightarrow> (Inl e, d) | (Inr _, d) \<Rightarrow> (Inr (ConsoleStatus 204), d))"

definition read_tx :: "('a \<Rightarrow> json) \<Rightarrow> (ctdb \<Rightarrow> go_error + 'a) \<Rightarrow> json ctx_body" where
  "read_tx js f s = (case f s of Inl e \<Rightarrow> Inl e | Inr x \<Rightarrow> Inr (js x, s))"

definition write_tx :: "('a \<Rightarrow> json) \<Rightarrow> 'a ctx_body \<Rightarrow> json ctx_body" where
  "write_tx js f s = (case f s of Inl e \<Rightarrow> Inl e | Inr (x, s1) \<Rightarrow> Inr (js x, s1))"

definition page_json :: "('a \<Rightarrow> json) \<Rightarrow> ('a \<Rightarrow> int \<times> string) \<Rightarrow> int \<Rightarrow> 'a list \<Rightarrow> json" where
  "page_json js key limit items = (case new_page items (nat limit) (\<lambda>x. encode_page_cursor (fst (key x)) (snd (key x))) of
     (xs, cur) \<Rightarrow> JObj [(''items'', JArr (map js xs)), (''next_cursor'', case cur of None \<Rightarrow> JNull | Some t \<Rightarrow> JStr t)])"

definition list_page :: "api_env \<Rightarrow> api_call \<Rightarrow> string \<Rightarrow> string \<Rightarrow> ('a \<Rightarrow> json) \<Rightarrow> ('a \<Rightarrow> int \<times> string)
    \<Rightarrow> ((int \<times> string) option \<Rightarrow> int \<Rightarrow> ctdb \<Rightarrow> 'a list) \<Rightarrow> cdb \<Rightarrow> (go_error + console_answer) \<times> cdb" where
  "list_page env c raw_limit raw_cursor js key query d = (case parse_page_params raw_limit raw_cursor of Inl e \<Rightarrow> (Inl e, d)
     | Inr (cur, limit) \<Rightarrow> answer_json (in_tenant env c (read_tx (page_json js key limit) (\<lambda>s. Inr (query cur limit s))) d))"

definition create_with :: "api_env \<Rightarrow> api_call \<Rightarrow> string \<Rightarrow> json ctx_body \<Rightarrow> cdb \<Rightarrow> (go_error + console_answer) \<times> cdb" where
  "create_with env c raw create d =
     create_with_idempotency (ae_sha env) (ac_fault c) (with_tenant None (ae_tenant env)) (ac_key c) raw create d"

section \<open>datasources.go\<close>

definition opt_json :: "string option \<Rightarrow> json" where
  "opt_json v = (case v of None \<Rightarrow> JNull | Some x \<Rightarrow> JStr x)"

definition ds_json :: "ds_row \<Rightarrow> json" where
  "ds_json r = JObj [(''id'', JStr (dr_id r)), (''name'', JStr (dr_name r)), (''engine_family'', JStr (dr_family r)),
     (''engine'', JStr (dr_engine r)), (''engine_version'', JStr (dr_version r)), (''connect_mode'', JStr (dr_mode r)),
     (''connector_id'', opt_json (dr_connector r)), (''has_credential'', JBool (dr_credential r \<noteq> None)), (''host'', JStr (dr_host r)),
     (''port'', JNum (int_str (dr_port r))), (''database_name'', JStr (dr_database r)), (''group_id'', opt_json (dr_group r)),
     (''group_role'', opt_json (dr_role r)), (''agent_id'', opt_json (dr_agent r)), (''health_status'', JStr (dr_health r)),
     (''created_at'', JStr (time_text (dr_created r))), (''updated_at'', JStr (time_text (dr_updated r)))]"

record ds_request =
  dq_name :: string
  dq_family :: string
  dq_engine :: string
  dq_version :: string
  dq_mode :: string
  dq_connector :: string
  dq_host :: string
  dq_port :: int
  dq_database :: string
  dq_group :: string
  dq_role :: string
  dq_agent :: string
  dq_cred :: "(string \<times> string) option"

text \<open>A credential object: user name and password, nothing else; it fills what an earlier one has filled.\<close>

definition cred_fields :: "(string \<times> json) list \<Rightarrow> (string \<times> string) option" where
  "cred_fields kvs = (case (str_field ''username'' kvs, str_field ''password'' kvs) of (Some u, Some p) \<Rightarrow> Some (u, p) | _ \<Rightarrow> None)"

fun cred_values :: "(string \<times> json) list option \<Rightarrow> json list \<Rightarrow> (string \<times> json) list option option" where
  "cred_values acc [] = Some acc"
| "cred_values acc (JNull # vs) = cred_values None vs"
| "cred_values acc (JObj kvs # vs) = (if \<exists>k \<in> set (map fst kvs). to_lower k \<notin> {''username'', ''password''} then None
     else cred_values (Some ((case acc of None \<Rightarrow> [] | Some m \<Rightarrow> m) @ kvs)) vs)"
| "cred_values acc (v # vs) = None"

definition cred_field :: "(string \<times> json) list \<Rightarrow> (string \<times> string) option option" where
  "cred_field kvs = (case cred_values None (field_values ''credential'' kvs) of None \<Rightarrow> None | Some None \<Rightarrow> Some None
     | Some (Some m) \<Rightarrow> map_option Some (cred_fields m))"

definition ds_fields :: "string list" where
  "ds_fields = [''name'', ''engine_family'', ''engine'', ''engine_version'', ''connect_mode'', ''connector_id'', ''host'', ''port'',
     ''database_name'', ''group_id'', ''group_role'', ''agent_id'', ''credential'']"

definition ds_request_of :: "(string \<times> json) list \<Rightarrow> ds_request option" where
  "ds_request_of kvs = (case (str_field ''name'' kvs, str_field ''engine_family'' kvs, str_field ''engine'' kvs,
       str_field ''engine_version'' kvs, str_field ''connect_mode'' kvs, str_field ''connector_id'' kvs) of
     (Some nm, Some fam, Some eng, Some ver, Some mode, Some conn) \<Rightarrow>
       (case (str_field ''host'' kvs, int_field ''port'' kvs, str_field ''database_name'' kvs, str_field ''group_id'' kvs,
           str_field ''group_role'' kvs, str_field ''agent_id'' kvs, cred_field kvs) of
         (Some host, Some port, Some db, Some grp, Some role, Some agent, Some cred) \<Rightarrow>
           Some \<lparr>dq_name = nm, dq_family = fam, dq_engine = eng, dq_version = ver, dq_mode = mode, dq_connector = conn,
             dq_host = host, dq_port = port, dq_database = db, dq_group = grp, dq_role = role, dq_agent = agent, dq_cred = cred\<rparr>
       | _ \<Rightarrow> None)
   | _ \<Rightarrow> None)"

definition name_details :: "string \<Rightarrow> detail list" where
  "name_details v = (if v = [] \<or> 128 < length v then [(''name'', ''length'')] else [])"

definition port_details :: "int \<Rightarrow> detail list" where
  "port_details p = (if p < 1 \<or> 65535 < p then [(''port'', ''range'')] else [])"

definition role_details :: "string \<Rightarrow> detail list" where
  "role_details v = (if v \<noteq> [] \<and> \<not> one_of v group_roles then [(''group_role'', ''enum'')] else [])"

definition validate_mode :: "ds_request \<Rightarrow> detail list" where
  "validate_mode q = (if dq_mode q = ''connector''
     then (if dq_connector q = [] \<or> \<not> uuid_shape (dq_connector q) \<or> dq_cred q \<noteq> None then [(''connect_mode'', ''connector shape'')] else [])
     else if dq_mode q = ''direct''
     then (case dq_cred q of None \<Rightarrow> [(''connect_mode'', ''direct shape'')]
       | Some (u, p) \<Rightarrow> if u = [] \<or> p = [] \<or> dq_connector q \<noteq> [] then [(''connect_mode'', ''direct shape'')] else [])
     else [(''connect_mode'', ''enum'')])"

definition validate_ds :: "ds_request \<Rightarrow> detail list" where
  "validate_ds q = name_details (dq_name q)
     @ (if one_of (dq_family q) engine_families then [] else [(''engine_family'', ''enum'')])
     @ (if dq_host q = [] then [(''host'', ''required'')] else [])
     @ port_details (dq_port q)
     @ (if (dq_group q = []) \<noteq> (dq_role q = []) then [(''group_id'', ''pair'')] else [])
     @ role_details (dq_role q) @ validate_mode q"

definition input_of_ds :: "ds_request \<Rightarrow> string option \<Rightarrow> ds_input" where
  "input_of_ds q cred = \<lparr>di_name = dq_name q, di_family = dq_family q, di_engine = dq_engine q, di_version = dq_version q,
     di_mode = dq_mode q, di_connector = nullable_id (dq_connector q), di_credential = cred, di_host = dq_host q,
     di_port = dq_port q, di_database = dq_database q, di_group = nullable_id (dq_group q), di_role = nullable_id (dq_role q),
     di_agent = nullable_id (dq_agent q)\<rparr>"

text \<open>The transaction of a creation: for a direct datasource the credential is sealed and stored first.\<close>

definition create_ds_tx :: "api_env \<Rightarrow> api_call \<Rightarrow> ds_request \<Rightarrow> json ctx_body" where
  "create_ds_tx env c q s = (if dq_mode q = ''direct''
     then (case dq_cred q of None \<Rightarrow> Inl (Plain ''nil credential'')
       | Some (u, p) \<Rightarrow> (case seal (ae_blk env) (ae_sealer env) (ac_random c) p of
           Inl e \<Rightarrow> Inl (api_wrap CodeInternalError e)
         | Inr cipher \<Rightarrow> (case insert_credential (ac_id2 c) (ac_now c) u cipher (sl_key_id (ae_sealer env)) s of
             Inl e \<Rightarrow> Inl e
           | Inr (cid, s1) \<Rightarrow> write_tx ds_json (insert_datasource (ac_id c) (ac_now c) (input_of_ds q (Some cid))) s1)))
     else write_tx ds_json (insert_datasource (ac_id c) (ac_now c) (input_of_ds q None)) s)"

definition h_create_ds :: "api_env \<Rightarrow> api_call \<Rightarrow> cdb \<Rightarrow> (go_error + console_answer) \<times> cdb" where
  "h_create_ds env c d = (case with_body c ds_fields ds_request_of of Inl e \<Rightarrow> (Inl e, d)
     | Inr (raw, q) \<Rightarrow> (case validate_ds q of
         (f, w) # ds \<Rightarrow> (Inl (api_err_details (if f = ''connect_mode'' then CodeDatasourceModeMismatch else CodeValidationFailed)
             ((f, w) # ds)), d)
       | [] \<Rightarrow> create_with env c raw (create_ds_tx env c q) d))"

definition h_list_ds :: "api_env \<Rightarrow> api_call \<Rightarrow> string \<Rightarrow> string \<Rightarrow> cdb \<Rightarrow> (go_error + console_answer) \<times> cdb" where
  "h_list_ds env c raw_limit raw_cursor d = list_page env c raw_limit raw_cursor ds_json ds_key list_datasources d"

definition h_get_ds :: "api_env \<Rightarrow> api_call \<Rightarrow> string \<Rightarrow> cdb \<Rightarrow> (go_error + console_answer) \<times> cdb" where
  "h_get_ds env c did d = (case path_id did of Inl e \<Rightarrow> (Inl e, d)
     | Inr _ \<Rightarrow> answer_json (in_tenant env c (read_tx ds_json (get_datasource did)) d))"

definition ds_patch_fields :: "string list" where
  "ds_patch_fields = [''name'', ''engine'', ''engine_version'', ''host'', ''port'', ''database_name'', ''group_id'', ''group_role'', ''agent_id'']"

definition ds_patch_of :: "(string \<times> json) list \<Rightarrow> ds_patch option" where
  "ds_patch_of kvs = (case (ptr_field as_str ''name'' kvs, ptr_field as_str ''engine'' kvs, ptr_field as_str ''engine_version'' kvs,
       ptr_field as_str ''host'' kvs, ptr_field as_int64 ''port'' kvs) of
     (Some nm, Some eng, Some ver, Some host, Some port) \<Rightarrow>
       (case (ptr_field as_str ''database_name'' kvs, ptr_field as_str ''group_id'' kvs, ptr_field as_str ''group_role'' kvs,
           ptr_field as_str ''agent_id'' kvs) of
         (Some db, Some grp, Some role, Some agent) \<Rightarrow>
           Some \<lparr>dp_name = nm, dp_engine = eng, dp_version = ver, dp_host = host, dp_port = port, dp_database = db,
             dp_group = grp, dp_role = role, dp_agent = agent\<rparr>
       | _ \<Rightarrow> None)
   | _ \<Rightarrow> None)"

definition opt_details :: "('a \<Rightarrow> detail list) \<Rightarrow> 'a option \<Rightarrow> detail list" where
  "opt_details f v = (case v of None \<Rightarrow> [] | Some x \<Rightarrow> f x)"

definition validate_ds_patch :: "ds_patch \<Rightarrow> detail list" where
  "validate_ds_patch p = opt_details name_details (dp_name p)
     @ opt_details (\<lambda>v. if v = [] then [(''host'', ''required'')] else []) (dp_host p)
     @ opt_details port_details (dp_port p) @ opt_details role_details (dp_role p)"

definition h_patch_ds :: "api_env \<Rightarrow> api_call \<Rightarrow> string \<Rightarrow> cdb \<Rightarrow> (go_error + console_answer) \<times> cdb" where
  "h_patch_ds env c did d = (case path_id did of Inl e \<Rightarrow> (Inl e, d)
     | Inr _ \<Rightarrow> (case with_body c ds_patch_fields ds_patch_of of Inl e \<Rightarrow> (Inl e, d)
       | Inr (_, p) \<Rightarrow> (case require_details (validate_ds_patch p) of Inl e \<Rightarrow> (Inl e, d)
         | Inr _ \<Rightarrow> answer_json (in_tenant env c (write_tx ds_json (update_datasource (ac_now c) did p)) d))))"

definition h_delete_ds :: "api_env \<Rightarrow> api_call \<Rightarrow> string \<Rightarrow> cdb \<Rightarrow> (go_error + console_answer) \<times> cdb" where
  "h_delete_ds env c did d = (case path_id did of Inl e \<Rightarrow> (Inl e, d)
     | Inr _ \<Rightarrow> answer_done (in_tenant env c (delete_datasource did) d))"

definition put_credential_tx :: "api_env \<Rightarrow> api_call \<Rightarrow> string \<Rightarrow> string \<times> string \<Rightarrow> unit ctx_body" where
  "put_credential_tx env c did up s = (case get_datasource did s of Inl e \<Rightarrow> Inl e
     | Inr r \<Rightarrow> if dr_mode r \<noteq> ''direct'' then Inl (api_err_details CodeDatasourceModeMismatch [(''connect_mode'', ''direct only'')])
         else (case seal (ae_blk env) (ae_sealer env) (ac_random c) (snd up) of
             Inl e \<Rightarrow> Inl (api_wrap CodeInternalError e)
           | Inr cipher \<Rightarrow> rotate_datasource_credential (ac_now c) did (fst up) cipher (sl_key_id (ae_sealer env)) s))"

definition h_put_credential :: "api_env \<Rightarrow> api_call \<Rightarrow> string \<Rightarrow> cdb \<Rightarrow> (go_error + console_answer) \<times> cdb" where
  "h_put_credential env c did d = (case path_id did of Inl e \<Rightarrow> (Inl e, d)
     | Inr _ \<Rightarrow> (case with_body c [''username'', ''password''] cred_fields of Inl e \<Rightarrow> (Inl e, d)
       | Inr (_, up) \<Rightarrow> if fst up = [] \<or> snd up = [] then (Inl (api_err_details CodeValidationFailed [(''credential'', ''required'')]), d)
           else answer_done (in_tenant env c (put_credential_tx env c did up) d)))"

text \<open>The connection test is a parameter: \<open>None\<close> when the server has none.\<close>

definition h_test_connection :: "(string \<Rightarrow> go_error + json) option \<Rightarrow> string \<Rightarrow> cdb \<Rightarrow> (go_error + console_answer) \<times> cdb" where
  "h_test_connection tester did d = (case tester of None \<Rightarrow> (Inl (api_err CodeCommonNotImplemented), d)
     | Some test \<Rightarrow> (case path_id did of Inl e \<Rightarrow> (Inl e, d)
       | Inr _ \<Rightarrow> answer_json (test did, d)))"

section \<open>agents.go\<close>

definition agent_json :: "agent_row \<Rightarrow> json" where
  "agent_json r = JObj [(''id'', JStr (ar_id r)), (''name'', JStr (ar_name r)), (''kind'', JStr (ar_kind r)), (''status'', JStr (ar_status r)),
     (''instruction_doc'', JStr (ar_doc r)), (''instruction_version'', JNum (int_str (ar_version r))),
     (''created_at'', JStr (time_text (ar_created r))), (''updated_at'', JStr (time_text (ar_updated r)))]"

definition agent_request_of :: "(string \<times> json) list \<Rightarrow> agent_input option" where
  "agent_request_of kvs = (case (str_field ''name'' kvs, str_field ''kind'' kvs, str_field ''instruction_doc'' kvs) of
     (Some n, Some k, Some i) \<Rightarrow> Some \<lparr>ai_name = n, ai_kind = k, ai_doc = i\<rparr> | _ \<Rightarrow> None)"

definition validate_agent :: "agent_input \<Rightarrow> detail list" where
  "validate_agent q = name_details (ai_name q)
     @ (if one_of (ai_kind q) [''assistant'', ''domain''] then [] else [(''kind'', ''enum'')])"

definition h_create_agent :: "api_env \<Rightarrow> api_call \<Rightarrow> cdb \<Rightarrow> (go_error + console_answer) \<times> cdb" where
  "h_create_agent env c d = (case with_body c [''name'', ''kind'', ''instruction_doc''] agent_request_of of Inl e \<Rightarrow> (Inl e, d)
     | Inr (raw, q) \<Rightarrow> (case require_details (validate_agent q) of Inl e \<Rightarrow> (Inl e, d)
       | Inr _ \<Rightarrow> create_with env c raw (write_tx agent_json (insert_agent (ac_id c) (ac_now c) q)) d))"

definition h_list_agents :: "api_env \<Rightarrow> api_call \<Rightarrow> string \<Rightarrow> string \<Rightarrow> cdb \<Rightarrow> (go_error + console_answer) \<times> cdb" where
  "h_list_agents env c raw_limit raw_cursor d =
     list_page env c raw_limit raw_cursor agent_json (\<lambda>r. (ar_created r, ar_id r)) list_agents_page d"

definition h_get_agent :: "api_env \<Rightarrow> api_call \<Rightarrow> string \<Rightarrow> cdb \<Rightarrow> (go_error + console_answer) \<times> cdb" where
  "h_get_agent env c aid d = (case path_id aid of Inl e \<Rightarrow> (Inl e, d)
     | Inr _ \<Rightarrow> answer_json (in_tenant env c (read_tx agent_json (get_agent aid)) d))"

definition agent_patch_of :: "(string \<times> json) list \<Rightarrow> agent_patch option" where
  "agent_patch_of kvs = (case (ptr_field as_str ''name'' kvs, ptr_field as_str ''status'' kvs, ptr_field as_str ''instruction_doc'' kvs) of
     (Some n, Some st, Some i) \<Rightarrow> Some \<lparr>au_name = n, au_status = st, au_doc = i\<rparr> | _ \<Rightarrow> None)"

definition validate_agent_patch :: "agent_patch \<Rightarrow> detail list" where
  "validate_agent_patch p = opt_details name_details (au_name p)
     @ opt_details (\<lambda>v. if one_of v [''running'', ''paused''] then [] else [(''status'', ''enum'')]) (au_status p)"

definition h_patch_agent :: "api_env \<Rightarrow> api_call \<Rightarrow> string \<Rightarrow> cdb \<Rightarrow> (go_error + console_answer) \<times> cdb" where
  "h_patch_agent env c aid d = (case path_id aid of Inl e \<Rightarrow> (Inl e, d)
     | Inr _ \<Rightarrow> (case with_body c [''name'', ''status'', ''instruction_doc''] agent_patch_of of Inl e \<Rightarrow> (Inl e, d)
       | Inr (_, p) \<Rightarrow> (case require_details (validate_agent_patch p) of Inl e \<Rightarrow> (Inl e, d)
         | Inr _ \<Rightarrow> answer_json (in_tenant env c (write_tx agent_json (update_agent (ac_now c) aid p)) d))))"

definition h_delete_agent :: "(string \<Rightarrow> bool) \<Rightarrow> api_env \<Rightarrow> api_call \<Rightarrow> string \<Rightarrow> cdb \<Rightarrow> (go_error + console_answer) \<times> cdb" where
  "h_delete_agent named env c aid d = (case path_id aid of Inl e \<Rightarrow> (Inl e, d)
     | Inr _ \<Rightarrow> answer_done (in_tenant env c (delete_agent named aid) d))"

section \<open>groups.go\<close>

definition group_json :: "group_row \<Rightarrow> json" where
  "group_json g = JObj [(''id'', JStr (gr_id g)), (''name'', JStr (gr_name g)), (''kind'', JStr (gr_kind g)),
     (''created_at'', JStr (time_text (gr_created g))), (''updated_at'', JStr (time_text (gr_updated g)))]"

definition group_request_of :: "(string \<times> json) list \<Rightarrow> (string \<times> string) option" where
  "group_request_of kvs = (case (str_field ''name'' kvs, str_field ''kind'' kvs) of (Some n, Some k) \<Rightarrow> Some (n, k) | _ \<Rightarrow> None)"

definition validate_group :: "string \<times> string \<Rightarrow> detail list" where
  "validate_group q = name_details (fst q)
     @ (if one_of (snd q) [''primary_standby'', ''cluster''] then [] else [(''kind'', ''enum'')])"

definition h_create_group :: "api_env \<Rightarrow> api_call \<Rightarrow> cdb \<Rightarrow> (go_error + console_answer) \<times> cdb" where
  "h_create_group env c d = (case with_body c [''name'', ''kind''] group_request_of of Inl e \<Rightarrow> (Inl e, d)
     | Inr (raw, q) \<Rightarrow> (case require_details (validate_group q) of Inl e \<Rightarrow> (Inl e, d)
       | Inr _ \<Rightarrow> create_with env c raw (write_tx group_json (insert_group (ac_id c) (ac_now c) (fst q) (snd q))) d))"

definition h_list_groups :: "api_env \<Rightarrow> api_call \<Rightarrow> string \<Rightarrow> string \<Rightarrow> cdb \<Rightarrow> (go_error + console_answer) \<times> cdb" where
  "h_list_groups env c raw_limit raw_cursor d =
     list_page env c raw_limit raw_cursor group_json (\<lambda>g. (gr_created g, gr_id g)) list_groups d"

definition h_get_group :: "api_env \<Rightarrow> api_call \<Rightarrow> string \<Rightarrow> cdb \<Rightarrow> (go_error + console_answer) \<times> cdb" where
  "h_get_group env c gid d = (case path_id gid of Inl e \<Rightarrow> (Inl e, d)
     | Inr _ \<Rightarrow> answer_json (in_tenant env c (read_tx group_json (get_group gid)) d))"

definition h_patch_group :: "api_env \<Rightarrow> api_call \<Rightarrow> string \<Rightarrow> cdb \<Rightarrow> (go_error + console_answer) \<times> cdb" where
  "h_patch_group env c gid d = (case path_id gid of Inl e \<Rightarrow> (Inl e, d)
     | Inr _ \<Rightarrow> (case with_body c [''name''] (ptr_field as_str ''name'') of Inl e \<Rightarrow> (Inl e, d)
       | Inr (_, None) \<Rightarrow> (Inl (api_err_details CodeValidationFailed [(''name'', ''length'')]), d)
       | Inr (_, Some n) \<Rightarrow> if name_details n \<noteq> [] then (Inl (api_err_details CodeValidationFailed [(''name'', ''length'')]), d)
           else answer_json (in_tenant env c (write_tx group_json (rename_group (ac_now c) gid n)) d)))"

definition h_delete_group :: "api_env \<Rightarrow> api_call \<Rightarrow> string \<Rightarrow> cdb \<Rightarrow> (go_error + console_answer) \<times> cdb" where
  "h_delete_group env c gid d = (case path_id gid of Inl e \<Rightarrow> (Inl e, d)
     | Inr _ \<Rightarrow> answer_done (in_tenant env c (delete_group gid) d))"

section \<open>aliases.go\<close>

definition alias_json :: "alias_row \<Rightarrow> json" where
  "alias_json a = JObj [(''id'', JStr (al_id a)), (''datasource_id'', JStr (al_ds a)), (''alias'', JStr (al_alias a)),
     (''source'', JStr (al_source a)), (''created_at'', JStr (time_text (al_created a)))]"

definition alias_request_of :: "(string \<times> json) list \<Rightarrow> (string \<times> string) option" where
  "alias_request_of kvs = (case (str_field ''alias'' kvs, str_field ''source'' kvs) of (Some a, Some t) \<Rightarrow> Some (a, t) | _ \<Rightarrow> None)"

definition validate_alias :: "string \<times> string \<Rightarrow> detail list" where
  "validate_alias q = (if fst q = [] \<or> 64 < length (fst q) then [(''alias'', ''length'')] else [])
     @ (if snd q \<noteq> [] \<and> \<not> one_of (snd q) [''manual'', ''conversation''] then [(''source'', ''enum'')] else [])"

definition create_alias_tx :: "api_call \<Rightarrow> string \<Rightarrow> string \<times> string \<Rightarrow> json ctx_body" where
  "create_alias_tx c did q s = (case get_datasource did s of Inl e \<Rightarrow> Inl e
     | Inr _ \<Rightarrow> write_tx alias_json (insert_alias (ac_id c) (ac_now c) did (fst q) (if snd q = [] then ''manual'' else snd q)) s)"

definition h_create_alias :: "api_env \<Rightarrow> api_call \<Rightarrow> string \<Rightarrow> cdb \<Rightarrow> (go_error + console_answer) \<times> cdb" where
  "h_create_alias env c did d = (case path_id did of Inl e \<Rightarrow> (Inl e, d)
     | Inr _ \<Rightarrow> (case with_body c [''alias'', ''source''] alias_request_of of Inl e \<Rightarrow> (Inl e, d)
       | Inr (raw, q) \<Rightarrow> (case require_details (validate_alias q) of Inl e \<Rightarrow> (Inl e, d)
         | Inr _ \<Rightarrow> create_with env c raw (create_alias_tx c did q) d)))"

definition h_list_aliases :: "api_env \<Rightarrow> api_call \<Rightarrow> string \<Rightarrow> cdb \<Rightarrow> (go_error + console_answer) \<times> cdb" where
  "h_list_aliases env c did d = (case path_id did of Inl e \<Rightarrow> (Inl e, d)
     | Inr _ \<Rightarrow> answer_json (in_tenant env c (read_tx (\<lambda>as. JObj [(''items'', JArr (map alias_json as))])
         (\<lambda>s. case get_datasource did s of Inl e \<Rightarrow> Inl e | Inr _ \<Rightarrow> list_aliases did s)) d))"

definition h_delete_alias :: "api_env \<Rightarrow> api_call \<Rightarrow> string \<Rightarrow> string \<Rightarrow> cdb \<Rightarrow> (go_error + console_answer) \<times> cdb" where
  "h_delete_alias env c did alias d = (case path_id did of Inl e \<Rightarrow> (Inl e, d)
     | Inr _ \<Rightarrow> if alias = [] then (Inl (api_err_details CodeValidationFailed [(''alias'', ''required'')]), d)
         else answer_done (in_tenant env c (delete_alias did alias) d))"

end
