(* ===== verification/ConsoleApi.thy ===== *)
theory ConsoleApi
  imports ConsoleDatasources AgentApi
begin

text \<open>
  The public API of the control plane as a whole, \<^verbatim>\<open>console/internal/httpapi/server.go\<close>: the
  routes, the tenant that the middleware injects, the error exit; and \<^verbatim>\<open>agent.go\<close>, the proxy that
  passes conversations on to the agent runtime. The routes of the collected data are in \<open>CollectedApi\<close>.
\<close>

section \<open>Routes\<close>

datatype console_route =
    DsCreate | DsList | DsGet string | DsPatch string | DsDelete string | DsCredential string | DsTest string
  | AliasList string | AliasCreate string | AliasDelete string string
  | AgentCreate | AgentList | AgentGet string | AgentPatch string | AgentDelete string
  | GroupCreate | GroupList | GroupGet string | GroupPatch string | GroupDelete string
  | ConnList | ConnGet string | ConnCreate | ConnRevoke string
  | QuotaGet | QuotaPut
  | NoRoute | NoMethod

text \<open>A collection and its elements have the same five routes; \<open>patch\<close> is absent for connectors.\<close>

definition collection_route :: "string \<Rightarrow> console_route \<Rightarrow> console_route \<Rightarrow> console_route" where
  "collection_route m cr li = (if m = ''POST'' then cr else if is_get m then li else NoMethod)"

definition element_route :: "string \<Rightarrow> console_route \<Rightarrow> console_route \<Rightarrow> console_route \<Rightarrow> console_route" where
  "element_route m ge pa de = (if is_get m then ge else if m = ''PATCH'' then pa else if m = ''DELETE'' then de else NoMethod)"

definition only :: "bool \<Rightarrow> console_route \<Rightarrow> console_route" where
  "only ok r = (if ok then r else NoMethod)"

definition console_route_of :: "string \<Rightarrow> string list \<Rightarrow> console_route" where
  "console_route_of m segs = (if take 2 segs \<noteq> [''api'', ''v1''] then NoRoute else case drop 2 segs of
     [a] \<Rightarrow>
       if a = ''datasources'' then collection_route m DsCreate DsList
       else if a = ''agents'' then collection_route m AgentCreate AgentList
       else if a = ''datasource-groups'' then collection_route m GroupCreate GroupList
       else if a = ''connectors'' then collection_route m ConnCreate ConnList
       else NoRoute
   | [a, i] \<Rightarrow>
       if a = ''datasources'' then element_route m (DsGet i) (DsPatch i) (DsDelete i)
       else if a = ''agents'' then element_route m (AgentGet i) (AgentPatch i) (AgentDelete i)
       else if a = ''datasource-groups'' then element_route m (GroupGet i) (GroupPatch i) (GroupDelete i)
       else if a = ''connectors'' then only (is_get m) (ConnGet i)
       else if a = ''llm'' \<and> i = ''quota'' then (if is_get m then QuotaGet else only (m = ''PUT'') QuotaPut)
       else NoRoute
   | [a, i, b] \<Rightarrow>
       if a = ''datasources'' \<and> b = ''credential'' then only (m = ''PUT'') (DsCredential i)
       else if a = ''datasources'' \<and> b = ''test-connection'' then only (m = ''POST'') (DsTest i)
       else if a = ''datasources'' \<and> b = ''aliases'' then (if is_get m then AliasList i else only (m = ''POST'') (AliasCreate i))
       else if a = ''connectors'' \<and> b = ''revoke'' then only (m = ''POST'') (ConnRevoke i)
       else NoRoute
   | [a, i, b, al] \<Rightarrow>
       if a = ''datasources'' \<and> b = ''aliases'' then only (m = ''DELETE'') (AliasDelete i al) else NoRoute
   | _ \<Rightarrow> NoRoute)"

section \<open>Handlers\<close>

record console_server =
  co_env :: api_env
  co_conn :: conn_env
  co_tester :: "(string \<Rightarrow> go_error + json) option"

record console_request =
  cq_method :: string
  cq_path :: "string list"
  cq_query :: "string \<Rightarrow> string"
  cq_trace :: string
  cq_secret :: string
  cq_call :: api_call

definition quota_view_json :: "quota_row option \<times> int \<times> int \<Rightarrow> json" where
  "quota_view_json v = (case v of (q, used, left) \<Rightarrow>
     JObj [(''period'', JStr ''monthly''), (''token_budget'', JNum (int_str (case q of None \<Rightarrow> 0 | Some r \<Rightarrow> qr_budget r))),
       (''hard_stop'', JBool (case q of None \<Rightarrow> False | Some r \<Rightarrow> qr_hard r)), (''used_this_month'', JNum (int_str used)),
       (''remaining_tokens'', JNum (int_str left)),
       (''updated_at'', JStr (time_text (case q of None \<Rightarrow> zero_time | Some r \<Rightarrow> qr_updated r))), (''set'', JBool (q \<noteq> None))])"

definition quota_row_json :: "quota_row \<Rightarrow> json" where
  "quota_row_json r = JObj [(''period'', JStr ''monthly''), (''token_budget'', JNum (int_str (qr_budget r))),
     (''hard_stop'', JBool (qr_hard r)), (''updated_at'', JStr (time_text (qr_updated r)))]"

definition h_get_quota :: "api_env \<Rightarrow> api_call \<Rightarrow> cdb \<Rightarrow> (go_error + console_answer) \<times> cdb" where
  "h_get_quota env c d = answer_json (in_tenant env c (write_tx quota_view_json (get_quota_view_tx (ac_now c))) d)"

definition h_put_quota_answer :: "api_env \<Rightarrow> api_call \<Rightarrow> cdb \<Rightarrow> (go_error + console_answer) \<times> cdb" where
  "h_put_quota_answer env c d = (case ac_body c of None \<Rightarrow> (Inl (Wrapf ''read request body'' (Plain ''io'')), d)
     | Some body \<Rightarrow> (case h_put_quota (ac_fault c) (ae_tenant env) (ac_now c) body d of
         (Inl e, d1) \<Rightarrow> (Inl e, d1) | (Inr q, d1) \<Rightarrow> (Inr (ConsoleJson 200 (quota_row_json q)), d1)))"

definition h_list_conns :: "api_env \<Rightarrow> api_call \<Rightarrow> string \<Rightarrow> string \<Rightarrow> cdb \<Rightarrow> (go_error + console_answer) \<times> cdb" where
  "h_list_conns env c raw_limit raw_cursor d = (case h_list_connectors (ac_fault c) (ae_tenant env) raw_limit raw_cursor d of
     (Inl e, d1) \<Rightarrow> (Inl e, d1)
   | (Inr (items, cur), d1) \<Rightarrow> (Inr (ConsoleJson 200 (JObj [(''items'', JArr (map (\<lambda>r. JObj (connector_members r)) items)),
       (''next_cursor'', opt_json cur)])), d1))"

definition console_handle :: "console_server \<Rightarrow> (string \<Rightarrow> bool) \<Rightarrow> console_request \<Rightarrow> console_route \<Rightarrow> cdb
    \<Rightarrow> (go_error + console_answer) \<times> cdb" where
  "console_handle sv named q rt d = (let env = co_env sv; c = cq_call q; lim = cq_query q ''limit''; cur = cq_query q ''cursor'' in
     case rt of
       DsCreate \<Rightarrow> h_create_ds env c d
     | DsList \<Rightarrow> h_list_ds env c lim cur d
     | DsGet i \<Rightarrow> h_get_ds env c i d
     | DsPatch i \<Rightarrow> h_patch_ds env c i d
     | DsDelete i \<Rightarrow> h_delete_ds env c i d
     | DsCredential i \<Rightarrow> h_put_credential env c i d
     | DsTest i \<Rightarrow> h_test_connection (co_tester sv) i d
     | AliasList i \<Rightarrow> h_list_aliases env c i d
     | AliasCreate i \<Rightarrow> h_create_alias env c i d
     | AliasDelete i a \<Rightarrow> h_delete_alias env c i a d
     | AgentCreate \<Rightarrow> h_create_agent env c d
     | AgentList \<Rightarrow> h_list_agents env c lim cur d
     | AgentGet i \<Rightarrow> h_get_agent env c i d
     | AgentPatch i \<Rightarrow> h_patch_agent env c i d
     | AgentDelete i \<Rightarrow> h_delete_agent named env c i d
     | GroupCreate \<Rightarrow> h_create_group env c d
     | GroupList \<Rightarrow> h_list_groups env c lim cur d
     | GroupGet i \<Rightarrow> h_get_group env c i d
     | GroupPatch i \<Rightarrow> h_patch_group env c i d
     | GroupDelete i \<Rightarrow> h_delete_group env c i d
     | ConnList \<Rightarrow> h_list_conns env c lim cur d
     | ConnGet i \<Rightarrow> h_get_connector (ac_fault c) (ae_tenant env) i d
     | ConnCreate \<Rightarrow> h_create_connector (co_conn sv) (ac_fault c) (ae_tenant env)
         \<lparr>fv_id = ac_id c, fv_now = ac_now c, fv_secret = cq_secret q\<rparr> (ac_key c) (ac_body c) d
     | ConnRevoke i \<Rightarrow> h_revoke_connector (ac_fault c) (ae_tenant env) (ac_now c) i d
     | QuotaGet \<Rightarrow> h_get_quota env c d
     | QuotaPut \<Rightarrow> h_put_quota_answer env c d
     | NoRoute \<Rightarrow> (Inr (ConsoleStatus 404), d)
     | NoMethod \<Rightarrow> (Inr (ConsoleStatus 405), d))"

text \<open>
  A request over all routes, with the tenant that the server is configured with. \<open>named\<close> tells which agents
  the threads of the agent runtime refer to.
\<close>

definition console_serve :: "console_server \<Rightarrow> (string \<Rightarrow> bool) \<Rightarrow> console_request \<Rightarrow> cdb \<Rightarrow> console_answer exit \<times> cdb" where
  "console_serve sv named q d = (case console_handle sv named q (console_route_of (cq_method q) (cq_path q)) d of
     (Inl e, d1) \<Rightarrow> (middleware (cq_trace q) (Failed e), d1)
   | (Inr a, d1) \<Rightarrow> (middleware (cq_trace q) (Wrote a), d1))"

definition new_console :: "conn_env \<Rightarrow> (string \<Rightarrow> go_error + json) option \<Rightarrow> api_env \<Rightarrow> go_error + console_server" where
  "new_console conn tester env = (if uuid_shape (ae_tenant env) then Inr \<lparr>co_env = env, co_conn = conn, co_tester = tester\<rparr>
     else Inl (Plain ''httpapi: default tenant id is not a UUID''))"

section \<open>agent.go\<close>

text \<open>
  What the proxy makes of a request under \<^verbatim>\<open>/api/v1/agent/\<close>: the path of the internal API, the
  service token and the injected tenant, whatever the client put into these headers.
\<close>

definition proxy_request :: "string \<Rightarrow> string option \<Rightarrow> api_request \<Rightarrow> api_request" where
  "proxy_request token ctx rq = rq\<lparr>rq_path := (if take 3 (rq_path rq) = [''api'', ''v1'', ''agent'']
       then [''internal'', ''v1'', ''agent''] @ drop 3 (rq_path rq) else rq_path rq),
     rq_auth := ''Bearer '' @ token,
     rq_tenant := (case tenant_from_context ctx of None \<Rightarrow> rq_tenant rq | Some t \<Rightarrow> t)\<rparr>"

text \<open>\<open>reached\<close> says whether the agent runtime could be reached.\<close>

definition agent_proxy :: "string \<Rightarrow> string \<Rightarrow> api_server \<Rightarrow> 'c engine_env \<Rightarrow> bool \<Rightarrow> api_request \<Rightarrow> tail_round list \<Rightarrow> 'c engine
    \<Rightarrow> api_answer exit \<times> 'c engine" where
  "agent_proxy token tenant sv env reached rq rounds e = (if \<not> reached
     then (ErrorResponse (write_error (rq_trace rq) (api_err CodeInternalError)), e)
     else serve sv env (proxy_request token (with_tenant None tenant) rq) rounds e)"

end
