(* ===== verification/InventoryProps.thy ===== *)
theory InventoryProps
  imports ConsoleApi
begin

text \<open>
  What the public API keeps of a tenant's inventory: the invariant of its tables under every route, with the
  datasources in their shapes, references that exist and no credential without its datasource.
\<close>

section \<open>The invariant\<close>

definition fks_ok :: "ctdb \<Rightarrow> ds_row \<Rightarrow> bool" where
  "fks_ok s r \<longleftrightarrow> refers (dr_connector r) (map cn_id (c_conns s)) \<and> refers (dr_credential r) (map cr_id (c_creds s))
     \<and> refers (dr_group r) (map gr_id (c_groups s)) \<and> refers (dr_agent r) (map ar_id (c_agents s))"

definition ds_ok :: "ctdb \<Rightarrow> bool" where
  "ds_ok s \<longleftrightarrow> distinct (map dr_id (c_ds s)) \<and> distinct (map dr_name (c_ds s))
     \<and> (\<forall>r \<in> set (c_ds s). list_all fst (ds_checks r) \<and> fks_ok s r)"

text \<open>Every credential is of exactly one datasource.\<close>

definition owned_ok :: "ctdb \<Rightarrow> bool" where
  "owned_ok s \<longleftrightarrow> distinct (map cr_id (c_creds s)) \<and> set (map cr_id (c_creds s)) = {k. \<exists>r \<in> set (c_ds s). dr_credential r = Some k}
     \<and> (\<forall>r \<in> set (c_ds s). \<forall>r' \<in> set (c_ds s). \<forall>k. dr_credential r = Some k \<longrightarrow> dr_credential r' = Some k \<longrightarrow> dr_id r = dr_id r')"

lemma owned_okI:
  assumes "distinct (map cr_id (c_creds s))" "\<And>k. k \<in> set (map cr_id (c_creds s)) \<longleftrightarrow> (\<exists>r \<in> set (c_ds s). dr_credential r = Some k)"
    and "\<And>x y k. x \<in> set (c_ds s) \<Longrightarrow> y \<in> set (c_ds s) \<Longrightarrow> dr_credential x = Some k \<Longrightarrow> dr_credential y = Some k \<Longrightarrow> dr_id x = dr_id y"
  shows "owned_ok s"
  unfolding owned_ok_def using assms by blast

lemma owned_okD:
  assumes "owned_ok s"
  shows "distinct (map cr_id (c_creds s))" "k \<in> set (map cr_id (c_creds s)) \<longleftrightarrow> (\<exists>r \<in> set (c_ds s). dr_credential r = Some k)"
    and "x \<in> set (c_ds s) \<Longrightarrow> y \<in> set (c_ds s) \<Longrightarrow> dr_credential x = Some k \<Longrightarrow> dr_credential y = Some k \<Longrightarrow> dr_id x = dr_id y"
  using assms unfolding owned_ok_def by blast+

definition agents_ok :: "ctdb \<Rightarrow> bool" where
  "agents_ok s \<longleftrightarrow> distinct (map ar_id (c_agents s)) \<and> distinct (map ar_name (c_agents s))
     \<and> (\<forall>r \<in> set (c_agents s). list_all fst (agent_checks r) \<and> 1 \<le> ar_version r)"

definition groups_ok :: "ctdb \<Rightarrow> bool" where
  "groups_ok s \<longleftrightarrow> distinct (map gr_id (c_groups s)) \<and> (\<forall>g \<in> set (c_groups s). one_of (gr_kind g) [''primary_standby'', ''cluster''])"

definition aliases_ok :: "ctdb \<Rightarrow> bool" where
  "aliases_ok s \<longleftrightarrow> distinct (map al_id (c_aliases s)) \<and> distinct (map al_alias (c_aliases s))
     \<and> (\<forall>a \<in> set (c_aliases s). al_ds a \<in> set (map dr_id (c_ds s)) \<and> one_of (al_source a) [''manual'', ''conversation''])"

definition inventory_ok :: "ctdb \<Rightarrow> bool" where
  "inventory_ok s \<longleftrightarrow> ds_ok s \<and> owned_ok s \<and> agents_ok s \<and> groups_ok s \<and> aliases_ok s"

lemmas inventory_defs = inventory_ok_def ds_ok_def owned_ok_def agents_ok_def groups_ok_def aliases_ok_def

lemma inventory_ok_empty: "inventory_ok empty_ctdb"
  by (simp add: inventory_defs empty_ctdb_def)

text \<open>The invariant does not look at the other tables; connectors may only be added.\<close>

lemma ds_ok_mono:
  "ds_ok s \<Longrightarrow> c_ds s' = c_ds s \<Longrightarrow> (\<And>r. fks_ok s r \<Longrightarrow> fks_ok s' r) \<Longrightarrow> ds_ok s'"
  by (simp add: ds_ok_def)

lemma inventory_cong:
  "c_creds s' = c_creds s \<Longrightarrow> c_ds s' = c_ds s \<Longrightarrow> owned_ok s' = owned_ok s"
  "c_agents s' = c_agents s \<Longrightarrow> agents_ok s' = agents_ok s" "c_groups s' = c_groups s \<Longrightarrow> groups_ok s' = groups_ok s"
  "c_aliases s' = c_aliases s \<Longrightarrow> c_ds s' = c_ds s \<Longrightarrow> aliases_ok s' = aliases_ok s"
  by (simp_all add: owned_ok_def agents_ok_def groups_ok_def aliases_ok_def)

lemma inventory_ok_conns:
  assumes "inventory_ok s" "set (map cn_id (c_conns s)) \<subseteq> set (map cn_id (c_conns s'))"
    and "c_ds s' = c_ds s" "c_creds s' = c_creds s" "c_agents s' = c_agents s" "c_groups s' = c_groups s" "c_aliases s' = c_aliases s"
  shows "inventory_ok s'"
proof -
  have "fks_ok s' r" if "fks_ok s r" for r
    using that assms(2-) by (auto simp: fks_ok_def refers_def split: option.splits)
  with assms ds_ok_mono [of s s'] inventory_cong [of s' s] show ?thesis by (simp add: inventory_ok_def)
qed

lemma inventory_ok_other: "inventory_ok s \<Longrightarrow> inventory_ok (s\<lparr>c_replays := x\<rparr>)" "inventory_ok s \<Longrightarrow> inventory_ok (s\<lparr>c_quota := y\<rparr>)"
  by (auto elim!: inventory_ok_conns)

section \<open>Datasources\<close>

lemma insert_ds_Inr:
  assumes "insert_datasource new now q s = Inr (r, s')"
  shows "s' = s\<lparr>c_ds := c_ds s @ [r]\<rparr> \<and> list_all fst (ds_checks r) \<and> fks_ok s r \<and> dr_id r = new
    \<and> new \<notin> set (map dr_id (c_ds s)) \<and> dr_name r \<notin> set (map dr_name (c_ds s)) \<and> dr_mode r = di_mode q
    \<and> pg_opt_uuid (di_credential q) = Some (dr_credential r)"
proof -
  from assms obtain conn cred grp agent where
    1: "pg_opt_uuid (di_connector q) = Some conn" "pg_opt_uuid (di_credential q) = Some cred"
      "pg_opt_uuid (di_group q) = Some grp" "pg_opt_uuid (di_agent q) = Some agent"
    and r: "r = row_of_ds new now q conn cred grp agent"
    and none: "first_violation (ds_checks r @ ds_uniques (c_ds s) r @ ds_refs s r) = None"
    and s': "s' = s\<lparr>c_ds := c_ds s @ [r]\<rparr>"
    by (auto simp: insert_datasource_def Let_def split: option.splits if_splits)
  from none have "list_all fst (ds_checks r) \<and> (\<forall>p \<in> set (ds_uniques (c_ds s) r). fst p) \<and> (\<forall>p \<in> set (ds_refs s r). fst p)"
    by (auto simp: first_violation_None list_all_iff)
  moreover have "dr_id r = new" "dr_mode r = di_mode q" "dr_credential r = cred" by (simp_all add: r row_of_ds_def)
  ultimately show ?thesis using s' 1(2) by (auto simp: ds_uniques_def ds_refs_def fks_ok_def)
qed

lemma fks_ok_add_ds [simp]: "fks_ok (s\<lparr>c_ds := x\<rparr>) r = fks_ok s r" "fks_ok (s\<lparr>c_aliases := y\<rparr>) r = fks_ok s r"
  by (simp_all add: fks_ok_def)

lemma inventory_add_ds:
  assumes ok: "inventory_ok s" and ins: "insert_datasource new now q s = Inr (r, s')" and "dr_credential r = None"
  shows "inventory_ok s'"
proof -
  note r = insert_ds_Inr [OF ins]
  have "ds_ok s'" using ok r by (simp add: inventory_ok_def ds_ok_def)
  moreover have "owned_ok s"  using ok by (simp add: inventory_ok_def)
  note own = owned_okD [OF this]
  have tabs: "c_ds s' = c_ds s @ [r]" "c_creds s' = c_creds s" using r by simp_all
  have "owned_ok s'"
  proof (rule owned_okI; unfold tabs)
    show "j \<in> set (map cr_id (c_creds s)) \<longleftrightarrow> (\<exists>r \<in> set (c_ds s @ [r]). dr_credential r = Some j)" for j
      using own(2) [of j] assms(3) by auto
    show "dr_id x = dr_id y" if "x \<in> set (c_ds s @ [r])" "y \<in> set (c_ds s @ [r])" "dr_credential x = Some j" "dr_credential y = Some j" for x y j
      using that own(3) [of x y j] assms(3) by auto
  qed (rule own(1))
  moreover have "aliases_ok s'" using ok r by (auto simp: inventory_ok_def aliases_ok_def)
  ultimately show ?thesis using ok r by (simp add: inventory_ok_def agents_ok_def groups_ok_def)
qed

lemma ds_checks_direct: "list_all fst (ds_checks r) \<Longrightarrow> dr_mode r = ''direct'' \<longleftrightarrow> dr_credential r \<noteq> None"
  by (auto simp: ds_checks_def one_of_def connect_modes_def)

lemma inventory_add_direct:
  assumes ok: "inventory_ok s" and cred: "insert_credential cid now u w k s = Inr (cid', s1)"
    and ins: "insert_datasource new now q s1 = Inr (r, s')" "dr_credential r = Some cid"
  shows "inventory_ok s'"
proof -
  let ?c = "\<lparr>cr_id = cid, cr_username = u, cr_secret = w, cr_key = k, cr_rotated = None, cr_created = now\<rparr>"
  from cred have c: "cid \<notin> set (map cr_id (c_creds s))" "s1 = s\<lparr>c_creds := c_creds s @ [?c]\<rparr>"
    by (auto simp: insert_credential_def first_violation_None split: option.splits if_splits)
  note r = insert_ds_Inr [OF ins(1)]
  have "fks_ok s1 x" if "fks_ok s x" for x using that c by (auto simp: fks_ok_def refers_def split: option.splits)
  then have "ds_ok s1" using ok ds_ok_mono [of s s1] by (simp add: inventory_ok_def c(2))
  then have "ds_ok s'" using r by (simp add: ds_ok_def)
  have tabs: "c_ds s' = c_ds s @ [r]" "c_creds s' = c_creds s @ [?c]" using r c(2) by simp_all
  have "owned_ok s" using ok by (simp add: inventory_ok_def)
  note own = owned_okD [OF this]
  have new: "dr_credential x \<noteq> Some cid" if "x \<in> set (c_ds s)" for x using own(2) c(1) that by blast
  have "owned_ok s'"
  proof (rule owned_okI; unfold tabs)
    show "distinct (map cr_id (c_creds s @ [?c]))" using own(1) c(1) by simp
    show "j \<in> set (map cr_id (c_creds s @ [?c])) \<longleftrightarrow> (\<exists>r \<in> set (c_ds s @ [r]). dr_credential r = Some j)" for j
      using own(2) [of j] ins(2) by auto
    show "dr_id x = dr_id y" if "x \<in> set (c_ds s @ [r])" "y \<in> set (c_ds s @ [r])" "dr_credential x = Some j" "dr_credential y = Some j" for x y j
      using that own(3) [of x y j] new [of x] new [of y] ins(2) by auto
  qed
  moreover have "aliases_ok s'" "agents_ok s'" "groups_ok s'"
    using ok r c(2) by (auto simp: inventory_ok_def aliases_ok_def agents_ok_def groups_ok_def)
  ultimately show ?thesis using \<open>ds_ok s'\<close> by (simp add: inventory_ok_def)
qed

lemma write_tx_Inr: "write_tx js f s = Inr (v, s') \<Longrightarrow> \<exists>x. f s = Inr (x, s') \<and> v = js x"
  by (auto simp: write_tx_def split: sum.splits)

lemma read_tx_Inr: "read_tx js f s = Inr (v, s') \<Longrightarrow> s' = s"
  by (auto simp: read_tx_def split: sum.splits)

text \<open>The ids that the database makes are canonical.\<close>

definition fresh_ids :: "api_call \<Rightarrow> bool" where
  "fresh_ids c \<longleftrightarrow> pg_uuid (ac_id2 c) = Some (ac_id2 c)"

lemma create_ds_ok:
  assumes "inventory_ok s" "create_ds_tx env c q s = Inr (v, s')" "fresh_ids c"
  shows "inventory_ok s'"
proof (cases "dq_mode q = ''direct''")
  case True
  with assms(2) obtain u w cid s1 r where 1: "insert_credential (ac_id2 c) (ac_now c) u w (sl_key_id (ae_sealer env)) s = Inr (cid, s1)"
    "insert_datasource (ac_id c) (ac_now c) (input_of_ds q (Some cid)) s1 = Inr (r, s')"
    by (auto simp: create_ds_tx_def split: option.splits sum.splits dest!: write_tx_Inr)
  then have "cid = ac_id2 c" by (auto simp: insert_credential_def split: option.splits)
  with insert_ds_Inr [OF 1(2)] assms(3) have "dr_credential r = Some (ac_id2 c)"
    by (simp add: input_of_ds_def pg_opt_uuid_def fresh_ids_def)
  with inventory_add_direct [OF assms(1) 1] show ?thesis by simp
next
  case False
  with assms(2) obtain r where r: "insert_datasource (ac_id c) (ac_now c) (input_of_ds q None) s = Inr (r, s')"
    by (auto simp: create_ds_tx_def dest!: write_tx_Inr)
  with insert_ds_Inr [OF r] have "dr_credential r = None" by (simp add: input_of_ds_def pg_opt_uuid_def)
  with inventory_add_ds [OF assms(1) r] show ?thesis by simp
qed

lemma find_ds_Some: "find_ds i s = Some r \<Longrightarrow> r \<in> set (c_ds s) \<and> dr_id r = i"
  by (auto simp: find_ds_def dest: select_one_Some_in)

lemma get_ds_Inr: "get_datasource did s = Inr r \<Longrightarrow> \<exists>i. pg_uuid did = Some i \<and> r \<in> set (c_ds s) \<and> dr_id r = i"
  by (auto simp: get_datasource_def dest: find_ds_Some split: option.splits)

lemma update_ds_Inr:
  assumes "update_datasource now did p s = Inr (r1, s')" "\<not> is_no_patch p"
  shows "\<exists>r. r \<in> set (c_ds s) \<and> dr_id r1 = dr_id r \<and> dr_credential r1 = dr_credential r \<and> list_all fst (ds_checks r1)
    \<and> fks_ok s r1 \<and> (\<forall>x \<in> set (c_ds s). dr_id x \<noteq> dr_id r \<longrightarrow> dr_name x \<noteq> dr_name r1)
    \<and> s' = s\<lparr>c_ds := update_where (\<lambda>x. dr_id x = dr_id r) (\<lambda>_. r1) (c_ds s)\<rparr>"
proof -
  from assms obtain grp agent i r where
    f: "find_ds i s = Some r" and r1: "r1 = patched_ds p grp agent now r"
    and none: "first_violation (ds_checks r1 @ ds_uniques (delete_where (\<lambda>x. dr_id x = i) (c_ds s)) r1 @ ds_refs s r1) = None"
    and s': "s' = s\<lparr>c_ds := update_where (\<lambda>x. dr_id x = i) (\<lambda>_. r1) (c_ds s)\<rparr>"
    by (auto simp: update_datasource_def Let_def split: option.splits if_splits)
  from find_ds_Some [OF f] have r: "r \<in> set (c_ds s)" "dr_id r = i" by simp_all
  from none have "list_all fst (ds_checks r1)" "\<forall>p \<in> set (ds_uniques (delete_where (\<lambda>x. dr_id x = i) (c_ds s)) r1). fst p"
    "\<forall>p \<in> set (ds_refs s r1). fst p"
    by (auto simp: first_violation_None list_all_iff)
  moreover have "dr_id r1 = dr_id r" "dr_credential r1 = dr_credential r" by (simp_all add: r1 patched_ds_def)
  ultimately show ?thesis using r s' by (intro exI [of _ r]) (auto simp: ds_uniques_def ds_refs_def fks_ok_def delete_where_def)
qed

lemma distinct_update_where:
  assumes "distinct (map key rs)" "distinct (map name rs)" "r \<in> set rs"
    and "\<forall>x \<in> set rs. key x \<noteq> key r \<longrightarrow> name x \<noteq> name r1"
  shows "distinct (map name (update_where (\<lambda>x. key x = key r) (\<lambda>_. r1) rs))"
proof -
  have "name (if key x = key r then r1 else x) = name (if key y = key r then r1 else y) \<longrightarrow> x = y" if "x \<in> set rs" "y \<in> set rs" for x y
    using assms that by (simp add: distinct_map inj_on_def) metis
  then have "inj_on (\<lambda>x. name (if key x = key r then r1 else x)) (set rs)" by (auto simp: inj_on_def)
  moreover have "distinct rs" using assms(1) by (auto simp: distinct_map)
  ultimately show ?thesis by (simp add: update_where_def distinct_map o_def inj_on_def)
qed

lemma update_ds_ok:
  assumes ok: "inventory_ok s" and up: "update_datasource now did p s = Inr (r1, s')"
  shows "inventory_ok s'"
proof (cases "is_no_patch p")
  case True
  with up have "s' = s" by (auto simp: update_datasource_def map_sum_def split: sum.splits)
  with ok show ?thesis by simp
next
  case False
  from update_ds_Inr [OF up False] obtain r where r: "r \<in> set (c_ds s)" "dr_id r1 = dr_id r" "dr_credential r1 = dr_credential r"
    "list_all fst (ds_checks r1)" "fks_ok s r1" "\<forall>x \<in> set (c_ds s). dr_id x \<noteq> dr_id r \<longrightarrow> dr_name x \<noteq> dr_name r1"
    and s': "s' = s\<lparr>c_ds := update_where (\<lambda>x. dr_id x = dr_id r) (\<lambda>_. r1) (c_ds s)\<rparr>" by blast
  let ?ds = "update_where (\<lambda>x. dr_id x = dr_id r) (\<lambda>_. r1) (c_ds s)"
  have in_ds: "x \<in> set ?ds \<longleftrightarrow> x = r1 \<or> (x \<in> set (c_ds s) \<and> dr_id x \<noteq> dr_id r)" for x
    using r(1) by (auto simp: in_update_where)
  have ids: "map dr_id ?ds = map dr_id (c_ds s)"
    using r(2) by (simp add: update_where_def)
  have rid: "x = r" if "x \<in> set (c_ds s)" "dr_id x = dr_id r" for x
    using ok that r(1) by (auto simp: inventory_ok_def ds_ok_def distinct_map inj_on_def)
  have "distinct (map dr_name ?ds)"
    using ok r(1,6) by (intro distinct_update_where) (auto simp: inventory_ok_def ds_ok_def)
  then have "ds_ok s'" using ok r ids by (auto simp: s' inventory_ok_def ds_ok_def in_ds)
  moreover have used: "(\<exists>x \<in> set ?ds. dr_credential x = Some k) \<longleftrightarrow> (\<exists>x \<in> set (c_ds s). dr_credential x = Some k)" for k
    unfolding Bex_def in_ds using r(1,3) rid by metis
  have "owned_ok s" using ok by (simp add: inventory_ok_def)
  note own = owned_okD [OF this]
  have tabs: "c_ds s' = ?ds" "c_creds s' = c_creds s" by (simp_all add: s')
  have "owned_ok s'"
  proof (rule owned_okI; unfold tabs)
    show "dr_id x = dr_id y" if "x \<in> set ?ds" "y \<in> set ?ds" "dr_credential x = Some j" "dr_credential y = Some j" for x y j
      using that own(3) [of _ _ j] r(1,2,3) unfolding in_ds by metis
  qed (use own(1,2) used in auto)
  moreover have "aliases_ok s'" using ok ids arg_cong [OF ids, of set] by (simp add: s' inventory_ok_def aliases_ok_def)
  ultimately show ?thesis using \<open>owned_ok s'\<close> ok by (simp add: s' inventory_ok_def agents_ok_def groups_ok_def)
qed

text \<open>A delete takes the aliases and the credential with it; the credential is never shared.\<close>

lemma delete_ds_Inr:
  assumes ok: "inventory_ok s" and r: "r \<in> set (c_ds s)" "get_datasource did s = Inr r" "dr_group r = None" "dr_agent r = None"
  shows "delete_datasource did s = Inr ((), s\<lparr>c_ds := delete_where (\<lambda>x. dr_id x = dr_id r) (c_ds s),
     c_aliases := delete_where (\<lambda>a. al_ds a = dr_id r) (c_aliases s),
     c_creds := delete_where (\<lambda>c. Some (cr_id c) = dr_credential r) (c_creds s)\<rparr>)"
proof -
  have "owned_ok s" using ok by (simp add: inventory_ok_def)
  note own = owned_okD [OF this]
  have no: "\<not> (\<exists>x \<in> set (delete_where (\<lambda>x. dr_id x = dr_id r) (c_ds s)). dr_credential x = Some k)" if "dr_credential r = Some k" for k
    using own(3) [OF _ r(1) _ that] by (auto simp: delete_where_def)
  show ?thesis
  proof (cases "dr_credential r")
    case None
    have "delete_where (\<lambda>c. False) (c_creds s) = c_creds s" by (simp add: delete_where_def)
    with None r show ?thesis by (simp add: delete_datasource_def Let_def)
  next
    case (Some k)
    with no [OF Some] r show ?thesis by (simp add: delete_datasource_def Let_def)
  qed
qed

lemma delete_where_set: "set (delete_where p rs) = {r \<in> set rs. \<not> p r}"
  by (auto simp: delete_where_def)

lemma keys_without: "k \<in> f ` {c \<in> S. Some (f c) \<noteq> v} \<longleftrightarrow> k \<in> f ` S \<and> Some k \<noteq> v"
  by auto

lemma delete_where_distinct: "distinct (map f rs) \<Longrightarrow> distinct (map f (delete_where p rs))"
  by (simp add: delete_where_def distinct_map_filter)

lemma delete_ds_ok:
  assumes ok: "inventory_ok s" and del: "delete_datasource did s = Inr (x, s')"
  shows "inventory_ok s'"
proof -
  from del obtain r where g: "get_datasource did s = Inr r" "dr_group r = None" "dr_agent r = None"
    by (auto simp: delete_datasource_def split: sum.splits if_splits)
  then have r: "r \<in> set (c_ds s)" by (auto dest: get_ds_Inr)
  from delete_ds_Inr [OF ok r g] del have s': "s' = s\<lparr>c_ds := delete_where (\<lambda>x. dr_id x = dr_id r) (c_ds s),
     c_aliases := delete_where (\<lambda>a. al_ds a = dr_id r) (c_aliases s),
     c_creds := delete_where (\<lambda>c. Some (cr_id c) = dr_credential r) (c_creds s)\<rparr>" by simp
  have "owned_ok s" using ok by (simp add: inventory_ok_def)
  note own = owned_okD [OF this]
  have rid: "x = r" if "x \<in> set (c_ds s)" "dr_id x = dr_id r" for x
    using ok that r by (auto simp: inventory_ok_def ds_ok_def distinct_map inj_on_def)
  have fk: "fks_ok s' y" if "y \<in> set (c_ds s)" "dr_id y \<noteq> dr_id r" for y
  proof -
    have "fks_ok s y" using ok that by (simp add: inventory_ok_def ds_ok_def)
    moreover have "Some k \<noteq> dr_credential r" if "dr_credential y = Some k" for k
      using own(3) [OF \<open>y \<in> set (c_ds s)\<close> r that] \<open>dr_id y \<noteq> dr_id r\<close> by metis
    ultimately show ?thesis by (cases "dr_credential y") (auto simp: s' fks_ok_def refers_def delete_where_set keys_without)
  qed
  have "ds_ok s'" using ok fk by (simp add: s' inventory_ok_def ds_ok_def delete_where_set delete_where_distinct)
  moreover have "owned_ok s'"
  proof (rule owned_okI)
    show "distinct (map cr_id (c_creds s'))" using own(1) by (simp add: s' delete_where_distinct)
    show "k \<in> set (map cr_id (c_creds s')) \<longleftrightarrow> (\<exists>r \<in> set (c_ds s'). dr_credential r = Some k)" for k
    proof -
      have "k \<in> set (map cr_id (c_creds s')) \<longleftrightarrow> k \<in> set (map cr_id (c_creds s)) \<and> Some k \<noteq> dr_credential r"
        by (auto simp: s' delete_where_set)
      also have "\<dots> \<longleftrightarrow> (\<exists>x \<in> set (c_ds s). dr_credential x = Some k) \<and> Some k \<noteq> dr_credential r" using own(2) by simp
      also have "\<dots> \<longleftrightarrow> (\<exists>x \<in> set (c_ds s'). dr_credential x = Some k)"
      proof -
        have d: "x \<in> set (c_ds s') \<longleftrightarrow> x \<in> set (c_ds s) \<and> dr_id x \<noteq> dr_id r" for x by (simp add: s' delete_where_set)
        have "Some k \<noteq> dr_credential r" if "x \<in> set (c_ds s')" "dr_credential x = Some k" for x
          using own(3) [OF _ r that(2)] that(1) unfolding d by metis
        moreover have "dr_id x \<noteq> dr_id r" if "x \<in> set (c_ds s)" "dr_credential x = Some k" "Some k \<noteq> dr_credential r" for x
          using rid [OF that(1)] that(2,3) by metis
        ultimately show ?thesis using d by blast
      qed
      finally show ?thesis .
    qed
    show "dr_id x = dr_id y" if "x \<in> set (c_ds s')" "y \<in> set (c_ds s')" "dr_credential x = Some k" "dr_credential y = Some k" for x y k
      using that own(3) [of x y k] by (simp add: s' delete_where_set)
  qed
  moreover have "aliases_ok s'"
    using ok by (auto simp: s' inventory_ok_def aliases_ok_def delete_where_set delete_where_distinct)
  moreover have "agents_ok s'" "groups_ok s'" using ok by (simp_all add: s' inventory_ok_def agents_ok_def groups_ok_def)
  ultimately show ?thesis by (simp add: inventory_ok_def)
qed

section \<open>The other tables\<close>

lemma refers_mono: "refers v xs \<Longrightarrow> set xs \<subseteq> set ys \<Longrightarrow> refers v ys"
  by (auto simp: refers_def split: option.splits)

lemma fks_ok_mono:
  assumes "fks_ok s r" "set (map cn_id (c_conns s)) \<subseteq> set (map cn_id (c_conns s'))" "set (map cr_id (c_creds s)) \<subseteq> set (map cr_id (c_creds s'))"
    and "set (map gr_id (c_groups s)) \<subseteq> set (map gr_id (c_groups s'))" "set (map ar_id (c_agents s)) \<subseteq> set (map ar_id (c_agents s'))"
  shows "fks_ok s' r"
  using assms unfolding fks_ok_def by (blast intro: refers_mono)

lemma inventory_mono:
  assumes "inventory_ok s" "c_ds s' = c_ds s" "map cr_id (c_creds s') = map cr_id (c_creds s)" "c_conns s' = c_conns s"
    and "set (map gr_id (c_groups s)) \<subseteq> set (map gr_id (c_groups s'))" "set (map ar_id (c_agents s)) \<subseteq> set (map ar_id (c_agents s'))"
    and "c_aliases s' = c_aliases s" "agents_ok s'" "groups_ok s'"
  shows "inventory_ok s'"
proof -
  have "fks_ok s' r" if "fks_ok s r" for r
    by (rule fks_ok_mono [OF that]) (use assms(3,4,5,6) in \<open>simp_all del: set_map\<close>)
  with assms(1,2) have "ds_ok s'" unfolding inventory_ok_def by (blast intro: ds_ok_mono)
  moreover have "owned_ok s'" using assms(1,2) unfolding inventory_ok_def owned_ok_def assms(2,3) by blast
  moreover have "aliases_ok s'" using assms(1) inventory_cong(4) [OF assms(7,2)] unfolding inventory_ok_def by blast
  ultimately show ?thesis using assms(8,9) unfolding inventory_ok_def by blast
qed

lemma refers_delete: "refers v (map f rs) \<Longrightarrow> v \<noteq> Some i \<Longrightarrow> refers v (map f (delete_where (\<lambda>x. f x = i) rs))"
  by (auto simp: refers_def delete_where_set split: option.splits)

declare first_violation.simps [simp del]

lemma put_credential_ok:
  assumes "inventory_ok s" "put_credential_tx env c did up s = Inr (x, s')"
  shows "inventory_ok s'"
proof -
  from assms(2) obtain u w k now where "rotate_datasource_credential now did u w k s = Inr (x, s')"
    by (auto simp: put_credential_tx_def split: sum.splits if_splits)
  then obtain cid where "rotate_credential now cid u w k s = Inr (x, s')"
    by (auto simp: rotate_datasource_credential_def split: option.splits)
  then obtain f where s': "s' = s\<lparr>c_creds := update_where (\<lambda>c. cr_id c = cid) f (c_creds s)\<rparr>" and f: "\<And>c. cr_id (f c) = cr_id c"
    by (auto simp: rotate_credential_def split: if_splits)
  have m: "map cr_id (update_where (\<lambda>c. cr_id c = cid) f (c_creds s)) = map cr_id (c_creds s)" by (rule update_where_keys) (rule f)
  have "agents_ok s'" "groups_ok s'" using assms(1) inventory_cong(2,3) [of s' s] unfolding inventory_ok_def by (simp_all add: s')
  moreover have "map cr_id (c_creds s') = map cr_id (c_creds s)" unfolding s' by (simp add: m del: set_map)
  ultimately show ?thesis by (intro inventory_mono [OF assms(1)]) (simp_all add: s')
qed

lemma insert_agent_ok:
  assumes "inventory_ok s" "insert_agent new now q s = Inr (r, s')"
  shows "inventory_ok s'"
proof -
  from assms(2) have s': "s' = s\<lparr>c_agents := c_agents s @ [r]\<rparr>" and r: "ar_version r = 1" "list_all fst (agent_checks r)"
      "ar_id r \<notin> set (map ar_id (c_agents s))" "ar_name r \<notin> set (map ar_name (c_agents s))"
    by (auto simp: insert_agent_def Let_def first_violation_None list_all_iff agent_uniques_def split: option.splits)
  show ?thesis
    by (rule inventory_mono [OF assms(1)]) (use assms(1) r in \<open>auto simp: s' inventory_ok_def agents_ok_def groups_ok_def\<close>)
qed

lemma update_agent_ok:
  assumes ok: "inventory_ok s" and up: "update_agent now aid p s = Inr (r1, s')"
  shows "inventory_ok s'"
proof (cases "au_name p = None \<and> au_status p = None \<and> au_doc p = None")
  case True
  with up have "s' = s" by (auto simp: update_agent_def map_sum_def split: sum.splits)
  with ok show ?thesis by simp
next
  case False
  with up obtain i r where sel: "select_one (\<lambda>r. ar_id r = i) (c_agents s) = Some r" and r1: "r1 = patched_agent p now r"
    and none: "first_violation (agent_checks r1 @ agent_uniques (delete_where (\<lambda>x. ar_id x = i) (c_agents s)) r1) = None"
    and s': "s' = s\<lparr>c_agents := update_where (\<lambda>x. ar_id x = i) (\<lambda>_. r1) (c_agents s)\<rparr>"
    by (auto simp: update_agent_def on_uuid_def Let_def split: option.splits if_splits)
  from select_one_Some_in [OF sel] have r: "r \<in> set (c_agents s)" "ar_id r = i" by simp_all
  have id1: "ar_id r1 = i" "ar_version r \<le> ar_version r1" using r(2) by (simp_all add: r1 patched_agent_def)
  from none have c: "list_all fst (agent_checks r1)" "\<forall>x \<in> set (c_agents s). ar_id x \<noteq> ar_id r \<longrightarrow> ar_name x \<noteq> ar_name r1"
    using r(2) by (auto simp: first_violation_None list_all_iff agent_uniques_def delete_where_set)
  let ?as = "update_where (\<lambda>x. ar_id x = i) (\<lambda>_. r1) (c_agents s)"
  have ids: "map ar_id ?as = map ar_id (c_agents s)" using id1 by (simp add: update_where_def)
  have "distinct (map ar_name ?as)"
    using ok r c(2) distinct_update_where [of ar_id "c_agents s" ar_name r r1] by (simp add: inventory_ok_def agents_ok_def)
  then have "agents_ok s'" using ok c(1) id1 r ids by (force simp: s' inventory_ok_def agents_ok_def in_update_where)
  then show ?thesis
    by (intro inventory_mono [OF ok]) (use ok arg_cong [OF ids, of set] in \<open>simp_all add: s' inventory_ok_def groups_ok_def\<close>)
qed

lemma delete_agent_ok:
  assumes ok: "inventory_ok s" and del: "delete_agent named aid s = Inr (x, s')"
  shows "inventory_ok s'"
proof -
  from del obtain i where free: "\<not> 0 < count_where (\<lambda>r. dr_agent r = Some i) (c_ds s)"
    and s': "s' = s\<lparr>c_agents := delete_where (\<lambda>r. ar_id r = i) (c_agents s)\<rparr>"
    by (auto simp: delete_agent_def split: option.splits if_splits)
  from free have n: "dr_agent r \<noteq> Some i" if "r \<in> set (c_ds s)" for r using that by (auto simp: count_where_zero)
  have "fks_ok s' r" if "r \<in> set (c_ds s)" for r
    using ok n [OF that] that by (simp add: s' inventory_ok_def ds_ok_def fks_ok_def refers_delete)
  then have "ds_ok s'" using ok by (simp add: s' inventory_ok_def ds_ok_def)
  moreover have "agents_ok s'" using ok by (simp add: s' inventory_ok_def agents_ok_def delete_where_set delete_where_distinct)
  ultimately show ?thesis using ok inventory_cong [of s' s] by (simp add: s' inventory_ok_def)
qed

lemma group_ok:
  assumes ok: "inventory_ok s"
  shows "insert_group new now n k s = Inr (g, s') \<Longrightarrow> inventory_ok s'" "rename_group now gid n s = Inr (g, s') \<Longrightarrow> inventory_ok s'"
    "delete_group gid s = Inr (x, s') \<Longrightarrow> inventory_ok s'"
proof -
  assume "insert_group new now n k s = Inr (g, s')"
  then have s': "s' = s\<lparr>c_groups := c_groups s @ [g]\<rparr>" "gr_kind g = k" "gr_id g = new" "new \<notin> set (map gr_id (c_groups s))"
    "one_of k [''primary_standby'', ''cluster'']"
    by (auto simp: insert_group_def Let_def first_violation_None split: option.splits)
  show "inventory_ok s'"
    by (rule inventory_mono [OF ok]) (use ok s'(2-) in \<open>auto simp: s'(1) inventory_ok_def agents_ok_def groups_ok_def\<close>)
next
  assume "rename_group now gid n s = Inr (g, s')"
  then obtain i g0 where g0: "select_one (\<lambda>g. gr_id g = i) (c_groups s) = Some g0" and g: "g = g0\<lparr>gr_name := n, gr_updated := now\<rparr>"
    and s': "s' = s\<lparr>c_groups := update_where (\<lambda>x. gr_id x = i) (\<lambda>_. g) (c_groups s)\<rparr>"
    by (auto simp: rename_group_def on_uuid_def Let_def split: option.splits)
  from select_one_Some_in [OF g0] have m: "g0 \<in> set (c_groups s)" "gr_id g = i" "gr_kind g = gr_kind g0" by (simp_all add: g)
  have ids: "map gr_id (update_where (\<lambda>x. gr_id x = i) (\<lambda>_. g) (c_groups s)) = map gr_id (c_groups s)"
    using m(2) by (simp add: update_where_def)
  have "groups_ok s'" using ok m ids by (auto simp: s' inventory_ok_def groups_ok_def in_update_where)
  then show "inventory_ok s'"
    by (intro inventory_mono [OF ok]) (use ok arg_cong [OF ids, of set] in \<open>simp_all add: s' inventory_ok_def agents_ok_def\<close>)
next
  assume "delete_group gid s = Inr (x, s')"
  then obtain i where free: "\<not> 0 < count_where (\<lambda>r. dr_group r = Some i) (c_ds s)"
    and s': "s' = s\<lparr>c_groups := delete_where (\<lambda>g. gr_id g = i) (c_groups s)\<rparr>"
    by (auto simp: delete_group_def split: option.splits if_splits)
  from free have n: "dr_group r \<noteq> Some i" if "r \<in> set (c_ds s)" for r using that by (auto simp: count_where_zero)
  have "fks_ok s' r" if "r \<in> set (c_ds s)" for r
    using ok n [OF that] that by (simp add: s' inventory_ok_def ds_ok_def fks_ok_def refers_delete)
  then have "ds_ok s'" using ok by (simp add: s' inventory_ok_def ds_ok_def)
  moreover have "groups_ok s'" using ok by (simp add: s' inventory_ok_def groups_ok_def delete_where_set delete_where_distinct)
  ultimately show "inventory_ok s'" using ok inventory_cong [of s' s] by (simp add: s' inventory_ok_def)
qed

lemma alias_ok:
  assumes ok: "inventory_ok s"
  shows "create_alias_tx c did q s = Inr (v, s') \<Longrightarrow> inventory_ok s'" "delete_alias did al s = Inr (x, s') \<Longrightarrow> inventory_ok s'"
proof -
  have keep: "inventory_ok (s\<lparr>c_aliases := as\<rparr>)" if "aliases_ok (s\<lparr>c_aliases := as\<rparr>)" for as
  proof -
    have "ds_ok (s\<lparr>c_aliases := as\<rparr>)" using ok ds_ok_mono [of s "s\<lparr>c_aliases := as\<rparr>"] by (simp add: inventory_ok_def)
    with that ok inventory_cong [of "s\<lparr>c_aliases := as\<rparr>" s] show ?thesis by (simp add: inventory_ok_def)
  qed
  {
    assume "create_alias_tx c did q s = Inr (v, s')"
    then obtain a where "insert_alias (ac_id c) (ac_now c) did (fst q) (if snd q = [] then ''manual'' else snd q) s = Inr (a, s')"
      by (auto simp: create_alias_tx_def dest!: write_tx_Inr split: sum.splits)
    then have a: "s' = s\<lparr>c_aliases := c_aliases s @ [a]\<rparr>" "al_id a \<notin> set (map al_id (c_aliases s))"
      "al_alias a \<notin> set (map al_alias (c_aliases s))" "al_ds a \<in> set (map dr_id (c_ds s))" "one_of (al_source a) [''manual'', ''conversation'']"
      by (auto simp: insert_alias_def on_uuid_def Let_def first_violation_None split: option.splits)
    have "aliases_ok (s\<lparr>c_aliases := c_aliases s @ [a]\<rparr>)" using ok a(2-) by (simp add: inventory_ok_def aliases_ok_def)
    from keep [OF this] show "inventory_ok s'" by (simp add: a(1))
  next
    assume "delete_alias did al s = Inr (x, s')"
    then obtain p where s': "s' = s\<lparr>c_aliases := delete_where p (c_aliases s)\<rparr>"
      by (auto simp: delete_alias_def on_uuid_def Let_def split: option.splits if_splits)
    have "aliases_ok (s\<lparr>c_aliases := delete_where p (c_aliases s)\<rparr>)"
      using ok by (simp add: inventory_ok_def aliases_ok_def delete_where_set delete_where_distinct)
    from keep [OF this] show "inventory_ok s'" by (simp add: s')
  }
qed

section \<open>Every route\<close>

text \<open>A request keeps the invariant of its tenant and does not touch the others.\<close>

definition keeps :: "string \<Rightarrow> cdb \<Rightarrow> cdb \<Rightarrow> bool" where
  "keeps t d d' \<longleftrightarrow> (\<forall>u. u \<noteq> t \<longrightarrow> c_slice d' u = c_slice d u) \<and> (inventory_ok (c_slice d t) \<longrightarrow> inventory_ok (c_slice d' t))"

lemma keeps_refl [simp]: "keeps t d d"
  by (simp add: keeps_def)

lemma keeps_tx:
  assumes "console_tx flt (with_tenant None t) body d = (r, d')" "\<And>s x s'. inventory_ok s \<Longrightarrow> body s = Inr (x, s') \<Longrightarrow> inventory_ok s'"
  shows "keeps t d d'"
proof (cases r)
  case (Inl e)
  with assms(1) have "d' = d" by (auto dest: console_tx_error)
  then show ?thesis by simp
next
  case (Inr x)
  with assms(1) obtain s where "body (c_slice d t) = Inr (x, s)" "d' = d\<lparr>c_slice := (c_slice d)(t := s)\<rparr>"
    by (auto simp: with_tenant_def elim!: console_tx_Inr)
  with assms(2) show ?thesis by (auto simp: keeps_def)
qed

lemma keeps_json:
  assumes "answer_json (in_tenant env c body d) = (a, d')" "\<And>s x s'. inventory_ok s \<Longrightarrow> body s = Inr (x, s') \<Longrightarrow> inventory_ok s'"
  shows "keeps (ae_tenant env) d d'"
proof -
  obtain r where "in_tenant env c body d = (r, d')" using assms(1) by (auto simp: answer_json_def split: prod.splits sum.splits)
  from keeps_tx [OF this [unfolded in_tenant_def] assms(2)] show ?thesis .
qed

lemma keeps_done:
  assumes "answer_done (in_tenant env c body d) = (a, d')" "\<And>s x s'. inventory_ok s \<Longrightarrow> body s = Inr (x, s') \<Longrightarrow> inventory_ok s'"
  shows "keeps (ae_tenant env) d d'"
proof -
  obtain r where "in_tenant env c body d = (r, d')" using assms(1) by (auto simp: answer_done_def split: prod.splits sum.splits)
  from keeps_tx [OF this [unfolded in_tenant_def] assms(2)] show ?thesis .
qed

lemma create_once_ok:
  assumes "\<And>s x s'. inventory_ok s \<Longrightarrow> create s = Inr (x, s') \<Longrightarrow> inventory_ok s'"
    and "inventory_ok s" "create_once_tx key hash create s = Inr (y, s')"
  shows "inventory_ok s'"
  using assms by (auto simp: create_once_tx_def put_replay_def intro!: inventory_ok_other split: option.splits sum.splits if_splits)

lemma keeps_create_idem:
  assumes "create_with_idempotency sha flt (with_tenant None t) key raw create d = (a, d')"
    and "\<And>s x s'. inventory_ok s \<Longrightarrow> create s = Inr (x, s') \<Longrightarrow> inventory_ok s'"
  shows "keeps t d d'"
proof (cases "key = []")
  case True
  with assms(1) obtain r where "console_tx flt (with_tenant None t) create d = (r, d')"
    by (auto simp: create_with_idempotency_def split: prod.splits sum.splits)
  from keeps_tx [OF this assms(2)] show ?thesis .
next
  case False
  with assms(1) obtain r where "console_tx flt (with_tenant None t) (create_once_tx key (sha raw) create) d = (r, d')"
    by (auto simp: create_with_idempotency_def split: prod.splits sum.splits)
  from keeps_tx [OF this create_once_ok [OF assms(2)]] show ?thesis .
qed

lemma keeps_list: "list_page env c l k js key query d = (a, d') \<Longrightarrow> keeps (ae_tenant env) d d'"
  by (auto simp: list_page_def dest!: read_tx_Inr elim!: keeps_json split: sum.splits)

lemma keeps_ds:
  assumes "fresh_ids c"
  shows "h_create_ds env c d = (a, d') \<Longrightarrow> keeps (ae_tenant env) d d'"
    "h_get_ds env c i d = (a, d') \<Longrightarrow> keeps (ae_tenant env) d d'"
    "h_patch_ds env c i d = (a, d') \<Longrightarrow> keeps (ae_tenant env) d d'"
    "h_delete_ds env c i d = (a, d') \<Longrightarrow> keeps (ae_tenant env) d d'"
    "h_put_credential env c i d = (a, d') \<Longrightarrow> keeps (ae_tenant env) d d'"
    "h_test_connection test i d = (a, d') \<Longrightarrow> keeps (ae_tenant env) d d'"
  using assms
  by (auto simp: h_create_ds_def h_get_ds_def h_patch_ds_def h_delete_ds_def h_put_credential_def h_test_connection_def answer_json_def [of "(_, d)"]
    create_with_def dest!: read_tx_Inr write_tx_Inr intro: create_ds_ok update_ds_ok delete_ds_ok put_credential_ok
    elim!: keeps_json keeps_done keeps_create_idem split: sum.splits prod.splits list.splits if_splits option.splits)

lemma keeps_agents:
  "h_create_agent env c d = (a, d') \<Longrightarrow> keeps (ae_tenant env) d d'" "h_get_agent env c i d = (a, d') \<Longrightarrow> keeps (ae_tenant env) d d'"
  "h_patch_agent env c i d = (a, d') \<Longrightarrow> keeps (ae_tenant env) d d'" "h_delete_agent named env c i d = (a, d') \<Longrightarrow> keeps (ae_tenant env) d d'"
  by (auto simp: h_create_agent_def h_get_agent_def h_patch_agent_def h_delete_agent_def create_with_def
    dest!: read_tx_Inr write_tx_Inr intro: insert_agent_ok update_agent_ok delete_agent_ok
    elim!: keeps_json keeps_done keeps_create_idem split: sum.splits prod.splits)

lemma keeps_groups:
  "h_create_group env c d = (a, d') \<Longrightarrow> keeps (ae_tenant env) d d'" "h_get_group env c i d = (a, d') \<Longrightarrow> keeps (ae_tenant env) d d'"
  "h_patch_group env c i d = (a, d') \<Longrightarrow> keeps (ae_tenant env) d d'" "h_delete_group env c i d = (a, d') \<Longrightarrow> keeps (ae_tenant env) d d'"
  by (auto simp: h_create_group_def h_get_group_def h_patch_group_def h_delete_group_def create_with_def
    dest!: read_tx_Inr write_tx_Inr intro: group_ok
    elim!: keeps_json keeps_done keeps_create_idem split: sum.splits prod.splits option.splits if_splits)

lemma keeps_aliases:
  "h_create_alias env c i d = (a, d') \<Longrightarrow> keeps (ae_tenant env) d d'" "h_list_aliases env c i d = (a, d') \<Longrightarrow> keeps (ae_tenant env) d d'"
  "h_delete_alias env c i al d = (a, d') \<Longrightarrow> keeps (ae_tenant env) d d'"
  by (auto simp: h_create_alias_def h_list_aliases_def h_delete_alias_def create_with_def
    dest!: read_tx_Inr intro: alias_ok
    elim!: keeps_json keeps_done keeps_create_idem split: sum.splits prod.splits if_splits)

lemma update_conns_ok:
  assumes "inventory_ok s" "\<And>r. cn_id (f r) = cn_id r"
  shows "inventory_ok (update_conns p f s)"
proof -
  have "map cn_id (update_where p f (c_conns s)) = map cn_id (c_conns s)" by (rule update_where_keys) (rule assms(2))
  then have "set (map cn_id (c_conns (update_conns p f s))) = set (map cn_id (c_conns s))" by (simp add: update_conns_def del: set_map)
  then show ?thesis by (intro inventory_ok_conns [OF assms(1)]) (simp_all add: update_conns_def del: set_map)
qed

lemma create_connector_ok:
  assumes "inventory_ok s" "create_connector_tx env t fv q s = Inr (v, s')"
  shows "inventory_ok s'"
proof -
  from assms(2) obtain c s1 hash where c: "insert_connector (fv_id fv) (fv_now fv) (fst q) (snd q) s = Inr (c, s1)"
    and e: "set_enroll_token (cn_id c) hash (fv_now fv) enroll_token_ttl s1 = Inr ((), s')"
    by (auto simp: create_connector_tx_def Let_def split: sum.splits prod.splits)
  from c have "s1 = s\<lparr>c_conns := c_conns s @ [c]\<rparr>" by (auto simp: insert_connector_def Let_def split: option.splits)
  then have "inventory_ok s1" by (intro inventory_ok_conns [OF assms(1)]) auto
  with e show ?thesis by (auto simp: set_enroll_token_def Let_def intro!: update_conns_ok split: if_splits)
qed

lemma revoke_connector_ok:
  assumes "inventory_ok s" "revoke_connector cid now s = Inr (x, s')"
  shows "inventory_ok s'"
  using assms by (auto simp: revoke_connector_def Let_def intro!: update_conns_ok split: if_splits sum.splits)

lemma keeps_conns:
  "h_create_connector cenv flt t fv k b d = (a, d') \<Longrightarrow> keeps t d d'" "h_revoke_connector flt t now i d = (a, d') \<Longrightarrow> keeps t d d'"
  "h_get_connector flt t i d = (a, d') \<Longrightarrow> keeps t d d'"
  by (auto simp: h_create_connector_def h_revoke_connector_def h_get_connector_def map_sum_def
    intro: create_connector_ok revoke_connector_ok elim!: keeps_create_idem keeps_tx split: sum.splits prod.splits)

lemma keeps_list_conns: "h_list_conns env c l k d = (a, d') \<Longrightarrow> keeps (ae_tenant env) d d'"
  by (auto simp: h_list_conns_def h_list_connectors_def elim!: keeps_tx split: sum.splits prod.splits)

lemma keeps_quota:
  "h_get_quota env c d = (a, d') \<Longrightarrow> keeps (ae_tenant env) d d'" "h_put_quota_answer env c d = (a, d') \<Longrightarrow> keeps (ae_tenant env) d d'"
proof -
  assume "h_get_quota env c d = (a, d')"
  then show "keeps (ae_tenant env) d d'"
    by (auto simp: h_get_quota_def get_quota_view_tx_def Let_def dest!: write_tx_Inr elim!: keeps_json split: option.splits)
next
  assume "h_put_quota_answer env c d = (a, d')"
  then obtain body r where "h_put_quota (ac_fault c) (ae_tenant env) (ac_now c) body d = (r, d') \<or> d' = d"
    by (auto simp: h_put_quota_answer_def split: option.splits prod.splits sum.splits)
  then show "keeps (ae_tenant env) d d'"
    by (auto simp: h_put_quota_def upsert_quota_def Let_def intro: inventory_ok_other elim!: keeps_tx split: sum.splits option.splits if_splits prod.splits)
qed

lemma console_handle_keeps:
  assumes "console_handle sv named q rt d = (a, d')" "fresh_ids (cq_call q)"
  shows "keeps (ae_tenant (co_env sv)) d d'"
  using assms(1) keeps_ds [OF assms(2)]
  by (cases rt) (auto simp: console_handle_def Let_def h_list_ds_def h_list_agents_def h_list_groups_def
    dest: keeps_agents keeps_groups keeps_aliases keeps_conns keeps_list_conns keeps_quota keeps_list)

lemma console_serve_keeps:
  assumes "console_serve sv named q d = (a, d')" "fresh_ids (cq_call q)"
  shows "keeps (ae_tenant (co_env sv)) d d'"
  using assms by (auto simp: console_serve_def dest: console_handle_keeps split: prod.splits sum.splits)

text \<open>A history: each request with its server (the tenants of the deployment) and the agents in use then.\<close>

type_synonym console_history = "(console_server \<times> (string \<Rightarrow> bool) \<times> console_request) list"

fun console_run :: "console_history \<Rightarrow> cdb \<Rightarrow> cdb" where
  "console_run [] d = d"
| "console_run ((sv, named, q) # qs) d = console_run qs (snd (console_serve sv named q d))"

lemma keeps_inventory: "keeps t d d' \<Longrightarrow> \<forall>u. inventory_ok (c_slice d u) \<Longrightarrow> \<forall>u. inventory_ok (c_slice d' u)"
  by (metis keeps_def)

text \<open>C21: the inventory is always consistent. After any sequence of requests to the public API, on empty tables,
  every tenant's tables are well formed: datasources have one of the two shapes, their connectors, groups and
  agents exist, names and aliases are unique, aliases have their datasource, and every stored credential is the
  credential of exactly one datasource.\<close>

theorem inventory_invariant:
  assumes "\<forall>(sv, named, q) \<in> set h. fresh_ids (cq_call q)"
  shows "inventory_ok (c_slice (console_run h \<lparr>c_slice = \<lambda>_. empty_ctdb\<rparr>) t)"
proof -
  have "\<forall>u. inventory_ok (c_slice (console_run h d) u)" if "\<forall>u. inventory_ok (c_slice d u)" for d
    using assms that
  proof (induction h arbitrary: d)
    case (Cons x h)
    obtain sv named q where x: "x = (sv, named, q)" by (cases x) auto
    obtain a d1 where s: "console_serve sv named q d = (a, d1)" by fastforce
    have "fresh_ids (cq_call q)" using Cons.prems(1) x by auto
    from keeps_inventory [OF console_serve_keeps [OF s this] Cons.prems(2)] Cons.IH [of d1] Cons.prems(1) x s show ?case by simp
  qed simp
  then show ?thesis by (simp add: inventory_ok_empty)
qed

definition sample_api_env :: api_env where
  "sample_api_env = \<lparr>ae_sha = (\<lambda>x. x), ae_blk = (\<lambda>k b. b), ae_sealer = \<lparr>sl_kek = replicate 32 (CHR ''k''), sl_key_id = ''v1''\<rparr>,
     ae_tenant = ''00000000-0000-0000-0000-000000000001''\<rparr>"

definition sample_uuid :: string where "sample_uuid = ''11111111-1111-1111-1111-111111111111''"

definition sample_call :: "string option \<Rightarrow> api_call" where
  "sample_call b = \<lparr>ac_fault = NoFault, ac_now = 0, ac_id = sample_uuid, ac_id2 = sample_uuid,
     ac_random = \<lparr>sr_dek = Some (replicate 32 (CHR ''d'')), sr_nonce1 = Some (replicate 12 (CHR ''1'')), sr_nonce2 = Some (replicate 12 (CHR ''2''))\<rparr>,
     ac_key = [], ac_body = b\<rparr>"

definition sample_console_server :: console_server where
  "sample_console_server = \<lparr>co_env = sample_api_env, co_conn = \<lparr>ce_sha = (\<lambda>x. x), ce_sign = (\<lambda>_ _ _. Inl (Plain [])), ce_bundle = []\<rparr>, co_tester = None\<rparr>"

definition sample_console_request :: "string \<Rightarrow> string list \<Rightarrow> string option \<Rightarrow> console_request" where
  "sample_console_request m path b = \<lparr>cq_method = m, cq_path = path, cq_query = (\<lambda>_. []), cq_trace = [], cq_secret = [], cq_call = sample_call b\<rparr>"

lemma pg_uuid_sample: "pg_uuid sample_uuid = Some sample_uuid"
  by (simp add: sample_uuid_def pg_uuid_def uuid_text_def is_hex_def lower_char_def)

lemma inventory_invariant_witness:
  "inventory_ok (c_slice (console_run [(sample_console_server, \<lambda>_. False,
     sample_console_request ''POST'' [''api'', ''v1'', ''datasource-groups''] (Some ''{}''))] \<lparr>c_slice = \<lambda>_. empty_ctdb\<rparr>) ''t'')"
  using inventory_invariant [of "[(sample_console_server, \<lambda>_. False,
     sample_console_request ''POST'' [''api'', ''v1'', ''datasource-groups''] (Some ''{}''))]" "''t''"]
  by (simp add: fresh_ids_def sample_console_request_def sample_call_def pg_uuid_sample)

end
