(* ===== verification/JsonPrefix.thy ===== *)
theory JsonPrefix
  imports ConsoleDb
begin

text \<open>
  A text that is cut short is no object: the parser reads the same from every extension of what it has read, so a
  proper prefix of a printed object does not parse. The body limits of the APIs rest on this.
\<close>

lemma p_hex_ext: "p_hex s = Some (n, r) \<Longrightarrow> p_hex (s @ x) = Some (n, r @ x)"
  by (cases s rule: p_hex.cases) auto

lemma p_low_ext:
  assumes "p_low s = Some (n, r)"
  shows "p_low (s @ x) = Some (n, r @ x)"
proof -
  from assms obtain u where u: "s = CHR 0x5C # CHR ''u'' # u" "p_hex u = Some (n, r)" "56320 \<le> n \<and> n < 57344"
    by (auto simp: p_low_def split: list.splits if_splits option.splits)
  from u(1,3) p_hex_ext [OF u(2), of x] show ?thesis by (simp add: p_low_def)
qed

lemma p_str_cases:
  obtains (nil) "s = []" | (close) r where "s = CHR 0x22 # r" | (ctl) c r where "s = c # r" "c \<noteq> CHR 0x22" "byte c < 32"
    | (plain) c r where "s = c # r" "c \<noteq> CHR 0x22" "\<not> byte c < 32" "c \<noteq> CHR 0x5C" | (cut) "s = [CHR 0x5C]"
    | (esc) e r where "s = CHR 0x5C # e # r" "e \<noteq> CHR ''u''" | (uni) r where "s = CHR 0x5C # CHR ''u'' # r"
  by (metis (full_types) neq_Nil_conv)

lemma p_str_unfold:
  "p_str [] = None" "p_str (CHR 0x22 # r) = Some ([], r)" "c \<noteq> CHR 0x22 \<Longrightarrow> byte c < 32 \<Longrightarrow> p_str (c # r) = None"
  "c \<noteq> CHR 0x22 \<Longrightarrow> \<not> byte c < 32 \<Longrightarrow> c \<noteq> CHR 0x5C \<Longrightarrow> p_str (c # r) = map_option (\<lambda>(t, u). (c # t, u)) (p_str r)"
  "p_str [CHR 0x5C] = None"
  "e \<noteq> CHR ''u'' \<Longrightarrow> p_str (CHR 0x5C # e # r) = (case esc_simple e of None \<Rightarrow> None
     | Some y \<Rightarrow> map_option (\<lambda>(t, u). (y # t, u)) (p_str r))"
  "p_hex r = None \<Longrightarrow> p_str (CHR 0x5C # CHR ''u'' # r) = None"
  "p_hex r = Some (n, r2) \<Longrightarrow> \<not> (55296 \<le> n \<and> n < 56320) \<Longrightarrow> p_str (CHR 0x5C # CHR ''u'' # r) = map_option (\<lambda>(t, u).
     (utf8 (if 56320 \<le> n \<and> n < 57344 then 65533 else n) @ t, u)) (p_str r2)"
  "p_hex r = Some (n, r2) \<Longrightarrow> 55296 \<le> n \<and> n < 56320 \<Longrightarrow> p_low r2 = None \<Longrightarrow> p_str (CHR 0x5C # CHR ''u'' # r) =
     map_option (\<lambda>(t, u). (utf8 65533 @ t, u)) (p_str r2)"
  "p_hex r = Some (n, r2) \<Longrightarrow> 55296 \<le> n \<and> n < 56320 \<Longrightarrow> p_low r2 = Some (m, r3) \<Longrightarrow> p_str (CHR 0x5C # CHR ''u'' # r) =
     map_option (\<lambda>(t, u). (utf8 (65536 + (n - 55296) * 1024 + (m - 56320)) @ t, u)) (p_str r3)"
  by (subst p_str.simps, auto)+

lemma p_low_none_ext:
  assumes "p_low s = None" "p_str s \<noteq> None"
  shows "p_low (s @ x) = None"
proof (cases s rule: p_str_cases)
  case (uni r)
  with assms(2) obtain n r2 where h: "p_hex r = Some (n, r2)" by (cases "p_hex r") (auto simp: p_str_unfold)
  from uni assms(1) p_hex_ext [OF h, of x] h show ?thesis by (simp add: p_low_def split: if_splits)
qed (use assms in \<open>auto simp: p_low_def p_str_unfold split: list.splits\<close>)

lemma p_str_ext: "p_str s = Some (t, r) \<Longrightarrow> p_str (s @ x) = Some (t, r @ x)"
proof (induction "length s" arbitrary: s t r rule: less_induct)
  case less
  note IH = less(1) and s = less(2)
  show ?case
  proof (cases s rule: p_str_cases)
    case (plain c u)
    with s obtain t' where t: "t = c # t'" "p_str u = Some (t', r)" by (auto simp: p_str_unfold)
    with IH [of u t' r] plain show ?thesis by (simp add: p_str_unfold)
  next
    case (esc e u)
    with s obtain y t' where t: "esc_simple e = Some y" "t = y # t'" "p_str u = Some (t', r)"
      by (auto simp: p_str_unfold split: option.splits)
    with IH [of u t' r] esc show ?thesis by (simp add: p_str_unfold)
  next
    case (uni u)
    with s obtain n r2 where h: "p_hex u = Some (n, r2)" by (cases "p_hex u") (auto simp: p_str_unfold)
    note hx = p_hex_ext [OF h, of x]
    have len: "length r2 < length s" using p_hex_shorter [OF h] uni by simp
    show ?thesis
    proof (cases "55296 \<le> n \<and> n < 56320")
      case False
      with s uni h obtain t' where t: "p_str r2 = Some (t', r)" "t = utf8 (if 56320 \<le> n \<and> n < 57344 then 65533 else n) @ t'"
        by (auto simp: p_str_unfold(8))
      from p_str_unfold(8) [OF hx False] IH [OF len t(1)] uni t(2) show ?thesis by simp
    next
      case sur: True
      show ?thesis
      proof (cases "p_low r2")
        case None
        with s uni h sur obtain t' where t: "p_str r2 = Some (t', r)" "t = utf8 65533 @ t'" by (auto simp: p_str_unfold(9))
        from p_low_none_ext [OF None, of x] t(1) have "p_low (r2 @ x) = None" by simp
        from p_str_unfold(9) [OF hx sur this] IH [OF len t(1)] uni t(2) show ?thesis by simp
      next
        case (Some p)
        then obtain m r3 where l: "p_low r2 = Some (m, r3)" by (cases p) auto
        with s uni h sur obtain t' where t: "p_str r3 = Some (t', r)" "t = utf8 (65536 + (n - 55296) * 1024 + (m - 56320)) @ t'"
          by (auto simp: p_str_unfold(10))
        have "length r3 < length s" using p_low_shorter [OF l] len by simp
        from p_str_unfold(10) [OF hx sur p_low_ext [OF l, of x]] IH [OF this t(1)] uni t(2) show ?thesis by simp
      qed
    qed
  qed (use s in \<open>auto simp: p_str_unfold\<close>)
qed

lemma skip_ws_ext: "skip_ws s = c # r \<Longrightarrow> skip_ws (s @ x) = c # r @ x"
  by (metis (no_types, lifting) Cons_eq_appendI dropWhile_append dropWhile_eq_Nil_conv list.distinct(1) skip_ws_def)

lemma has_prefix_ext: "has_prefix s p \<Longrightarrow> has_prefix (s @ x) p"
  by (metis has_prefix_def append_take_drop_id append.assoc append_eq_conv_conj)

lemma has_prefix_longer: "has_prefix (s @ x) p \<Longrightarrow> length p \<le> length s \<Longrightarrow> has_prefix s p"
  by (simp add: has_prefix_def)

lemma has_prefix_length: "has_prefix s p \<Longrightarrow> length p \<le> length s"
  by (metis has_prefix_def length_take min.cobounded1)

lemma p_literal_ext:
  assumes "p_literal s = Some (v, r)"
  shows "p_literal (s @ x) = Some (v, r @ x)"
proof -
  have l4: "4 \<le> length s" using assms by (auto simp: p_literal_def dest!: has_prefix_length split: if_splits)
  have n: "has_prefix (s @ x) ''null'' = has_prefix s ''null''" "has_prefix (s @ x) ''true'' = has_prefix s ''true''"
    using l4 has_prefix_longer [of s x] has_prefix_ext [of s _ x] by auto
  show ?thesis
  proof (cases "has_prefix s ''null'' \<or> has_prefix s ''true''")
    case True
    with assms l4 n show ?thesis by (auto simp: p_literal_def)
  next
    case False
    with assms have f: "has_prefix s ''false''" by (auto simp: p_literal_def split: if_splits)
    with False assms n has_prefix_ext [OF f, of x] has_prefix_length [OF f] show ?thesis by (simp add: p_literal_def)
  qed
qed

lemma p_value_num_ext:
  assumes "p_value (Suc n) s = Some (v, r)" "skip_ws s = c # u" "num_char c" "r \<noteq> []"
  shows "p_value (Suc k) (s @ x) = Some (v, r @ x)"
proof -
  have c: "c \<noteq> CHR ''{''" "c \<noteq> CHR ''[''" "c \<noteq> CHR 0x22" using assms(3) by (auto simp: num_char_def is_digit_def)
  with assms have v: "valid_num (takeWhile num_char (c # u))" "v = JNum (takeWhile num_char (c # u))" "r = dropWhile num_char (c # u)"
    by (auto split: if_splits)
  have "\<exists>y \<in> set (c # u). \<not> num_char y" using v(3) assms(4) by (metis dropWhile_eq_Nil_conv)
  then have "takeWhile num_char ((c # u) @ x) = takeWhile num_char (c # u)" "dropWhile num_char ((c # u) @ x) = dropWhile num_char (c # u) @ x"
    by (metis takeWhile_append1, metis dropWhile_append1)
  with c v assms(3) skip_ws_ext [OF assms(2), of x] show ?thesis by simp
qed

lemma skip_ws_hd: "skip_ws s = c # r \<Longrightarrow> hd (skip_ws (s @ x) @ y) = c" "skip_ws s = c # r \<Longrightarrow> tl (skip_ws (s @ x)) = r @ x"
  by (simp_all add: skip_ws_ext)

lemma p_first: "p_members n r = Some q \<Longrightarrow> \<exists>u. skip_ws r = CHR 0x22 # u" "p_elems n r = Some q' \<Longrightarrow> \<exists>c u. skip_ws r = c # u"
  apply (cases n; auto split: list.splits if_splits)
  apply (cases n; auto split: list.splits option.splits)
  subgoal for k v u by (cases k; auto split: list.splits)
  done

text \<open>What has been read is read the same before any further text, with any more fuel. A number that ends the
  text is the exception.\<close>

lemma parse_ext:
  "p_value n s = Some (v, r) \<Longrightarrow> n \<le> m \<Longrightarrow> r \<noteq> [] \<or> (\<forall>t. v \<noteq> JNum t) \<Longrightarrow> p_value m (s @ x) = Some (v, r @ x)"
  "p_elems n s = Some (vs, r) \<Longrightarrow> n \<le> m \<Longrightarrow> p_elems m (s @ x) = Some (vs, r @ x)"
  "p_members n s = Some (kvs, r) \<Longrightarrow> n \<le> m \<Longrightarrow> p_members m (s @ x) = Some (kvs, r @ x)"
proof (induction n s and n s and n s arbitrary: v r m and vs r m and kvs r m rule: p_value_p_elems_p_members.induct)
  case (2 n s)
  then obtain k where m: "m = Suc k" "n \<le> k" by (cases m) auto
  from 2(3) obtain c u where u: "skip_ws s = c # u" by (auto split: list.splits)
  note ux = skip_ws_ext [OF u, of x]
  consider (obj) "c = CHR ''{''" | (arr) "c = CHR ''[''" | (str) "c = CHR 0x22" | (num) "num_char c"
    | (lit) "c \<noteq> CHR ''{''" "c \<noteq> CHR ''[''" "c \<noteq> CHR 0x22" "\<not> num_char c" by blast
  then show ?case
  proof cases
    case obj
    show ?thesis
    proof (cases "hd (skip_ws u @ ''x'') = CHR ''}''")
      case True
      then obtain w where w: "skip_ws u = CHR ''}'' # w" by (cases "skip_ws u") auto
      from 2(3) obj u w have "v = JObj []" "r = w" by auto
      with obj ux skip_ws_ext [OF w, of x] m show ?thesis by simp
    next
      case False
      with 2(3) obj u obtain kvs where k: "p_members n u = Some (kvs, r)" "v = JObj kvs" by auto
      from p_first(1) [OF k(1)] obtain w where w: "skip_ws u = CHR 0x22 # w" by blast
      from 2(1) [OF u obj False k(1) m(2)] k(2) obj ux skip_ws_ext [OF w, of x] m show ?thesis by simp
    qed
  next
    case arr
    show ?thesis
    proof (cases "hd (skip_ws u @ ''x'') = CHR '']''")
      case True
      then obtain w where w: "skip_ws u = CHR '']'' # w" by (cases "skip_ws u") auto
      from 2(3) arr u w have "v = JArr []" "r = w" by auto
      with arr ux skip_ws_ext [OF w, of x] m show ?thesis by simp
    next
      case False
      with 2(3) arr u obtain vs where k: "p_elems n u = Some (vs, r)" "v = JArr vs" by auto
      from p_first(2) [OF k(1)] obtain d w where w: "skip_ws u = d # w" by blast
      with False have "d \<noteq> CHR '']''" by simp
      from 2(2) [OF u _ arr False k(1) m(2)] this k(2) arr ux skip_ws_ext [OF w, of x] m show ?thesis by simp
    qed
  next
    case str
    with 2(3) u obtain t where t: "p_str u = Some (t, r)" "v = JStr t" by auto
    from p_str_ext [OF t(1), of x] t(2) str ux m show ?thesis by simp
  next
    case num
    with 2(3) u have "\<exists>t. v = JNum t" by (auto simp: num_char_def is_digit_def split: if_splits)
    with 2(5) have "r \<noteq> []" by blast
    from p_value_num_ext [OF 2(3) u num this, of k x] m show ?thesis by simp
  next
    case lit
    with 2(3) u have "p_literal (c # u) = Some (v, r)" by simp
    from p_literal_ext [OF this, of x] lit ux m show ?thesis by simp
  qed
next
  case (4 n s)
  then obtain k where m: "m = Suc k" "n \<le> k" by (cases m) auto
  from 4(3) obtain v r0 c r1 where v: "p_value n s = Some (v, r0)" "skip_ws r0 = c # r1"
    by (auto split: option.splits list.splits)
  then have "r0 \<noteq> []" by (auto simp: skip_ws_def)
  with 4(1) [OF v(1) m(2)] have vx: "p_value k (s @ x) = Some (v, r0 @ x)" by blast
  note cx = skip_ws_ext [OF v(2), of x]
  show ?case
  proof (cases "c = CHR '',''")
    case True
    with 4(3) v obtain vs' where t: "p_elems n r1 = Some (vs', r)" "vs = v # vs'" by auto
    from 4(2) [OF v(1) refl v(2) True t(1) m(2)] t(2) True vx cx m show ?thesis by simp
  next
    case False
    with 4(3) v have "c = CHR '']''" "vs = [v]" "r = r1" by (auto split: if_splits)
    with vx cx m show ?thesis by simp
  qed
next
  case (6 n s)
  then obtain k where m: "m = Suc k" "n \<le> k" by (cases m) auto
  from 6(3) obtain u key r1 r2 v r3 d r4 where q: "skip_ws s = CHR 0x22 # u" "p_str u = Some (key, r1)" "skip_ws r1 = CHR '':'' # r2"
    "p_value n r2 = Some (v, r3)" "skip_ws r3 = d # r4"
    by (auto split: option.splits list.splits if_splits)
  then have "r3 \<noteq> []" by (auto simp: skip_ws_def)
  with 6(1) [OF q(1) _ q(2) refl q(3) _ q(4) m(2)] have vx: "p_value k (r2 @ x) = Some (v, r3 @ x)" by simp
  note ext = skip_ws_ext [OF q(1), of x] p_str_ext [OF q(2), of x] skip_ws_ext [OF q(3), of x] vx skip_ws_ext [OF q(5), of x]
  show ?case
  proof (cases "d = CHR '',''")
    case True
    with 6(3) q obtain kvs' where t: "p_members n r4 = Some (kvs', r)" "kvs = (key, v) # kvs'" by auto
    have "p_members k (r4 @ x) = Some (kvs', r @ x)" using 6(2) [OF q(1) _ q(2) refl q(3) _ q(4) refl q(5) True t(1) m(2)] by simp
    with t(2) True ext m show ?thesis by simp
  next
    case False
    with 6(3) q have "d = CHR ''}''" "kvs = [(key, v)]" "r = r4" by (auto split: if_splits)
    with ext m show ?thesis by simp
  qed
qed simp_all

text \<open>A printed object that is cut short has no first value.\<close>

lemma cut_object:
  assumes "wf_json (JObj kvs)" "l < length (json_text (JObj kvs))"
  shows "json_first (take l (json_text (JObj kvs))) = None"
proof (rule ccontr)
  let ?t = "json_text (JObj kvs)"
  let ?x = "drop l ?t"
  assume "\<not> ?thesis"
  then obtain v r where v: "p_value (p_fuel (take l ?t)) (take l ?t) = Some (v, r)" by (auto simp: json_first_def)
  obtain n where n: "p_fuel (take l ?t) = Suc n" by (simp add: p_fuel_def)
  have "take l ?t \<noteq> []"
  proof
    assume "take l ?t = []"
    with v n show False by (simp add: skip_ws_def)
  qed
  then obtain u where "take l ?t = CHR ''{'' # u" by (cases l) (simp_all add: json_text.simps)
  with v n have "\<forall>t. v \<noteq> JNum t" by (auto simp: skip_ws_def json_ws_def split: if_splits)
  then have "p_value m (take l ?t @ ?x) = Some (v, r @ ?x)" if "p_fuel (take l ?t) \<le> m" for m using parse_ext(1) [OF v that] by blast
  then have "p_value (p_fuel (take l ?t) + need (JObj kvs)) ?t = Some (v, r @ ?x)"
    by (simp del: p_value.simps need.simps)
  moreover have "p_value (p_fuel (take l ?t) + need (JObj kvs)) (?t @ []) = Some (JObj kvs, [])"
    using assms(1) by (intro p_value_text) (simp_all add: ends_def del: need.simps)
  ultimately have "r @ ?x = []" by (simp del: p_value.simps need.simps)
  with assms(2) show False by simp
qed

text \<open>A request of the internal API that is decoded was no longer than the limit.\<close>

lemma decode_json_text:
  assumes "wf_json (JObj kvs)" "decode_json names f (json_text (JObj kvs)) = Inr r"
  shows "f kvs = Some r" "length (json_text (JObj kvs)) \<le> console_body_limit"
proof -
  let ?t = "json_text (JObj kvs)"
  have "json_first (take console_body_limit ?t) \<noteq> None"
    using assms(2) by (cases "json_first (take console_body_limit ?t)") (simp_all add: decode_json_def decode_strict_def)
  with cut_object [OF assms(1)] show l: "length ?t \<le> console_body_limit" by (metis not_le)
  then show "f kvs = Some r"
    using assms(2) json_first_text [OF assms(1)]
    by (auto simp: decode_json_def decode_strict_def struct_members_def split: if_splits option.splits)
qed

end
