(* ===== verification/GatewayProps.thy ===== *)
theory GatewayProps
  imports Gateway
begin

text \<open>
  The gateway as a machine: sessions that open, work and end, dispatches that wait for them, and the console
  behind it changing underneath. Its invariant, and what a session has proved before it exists.
\<close>

section \<open>Steps\<close>

inductive gw_step :: "gw_config \<Rightarrow> gateway \<times> console_world \<Rightarrow> gateway \<times> console_world \<Rightarrow> bool" for cfg where
  gw_open: "open_session cfg cert f now acked g w = (r, g', w') \<Longrightarrow> gw_step cfg (g, w) (g', w')"
| gw_loop: "loop_step cfg sid ev now g w = Some (g', w') \<Longrightarrow> gw_step cfg (g, w) (g', w')"
| gw_start: "dispatch_start conn cmd g = (r, g') \<Longrightarrow> gw_step cfg (g, w) (g', w)"
| gw_send: "dispatch_send n g = Some g' \<Longrightarrow> gw_step cfg (g, w) (g', w)"
| gw_expire: "dispatch_expire n g = Some g' \<Longrightarrow> gw_step cfg (g, w) (g', w)"
| gw_receive: "dispatch_receive n g = Some g' \<Longrightarrow> gw_step cfg (g, w) (g', w)"
| gw_drain: "gw_step cfg (g, w) (drain_all reason g, w)"
| gw_elsewhere: "gw_step cfg (g, w) (g, w')"

inductive gw_reach :: "gw_config \<Rightarrow> gateway \<times> console_world \<Rightarrow> bool" for cfg where
  reach_start: "gw_reach cfg (empty_gateway, w)"
| reach_step: "gw_reach cfg x \<Longrightarrow> gw_step cfg x y \<Longrightarrow> gw_reach cfg y"

inductive_cases gw_stepE: "gw_step cfg (g, w) (g', w')"

section \<open>The invariant\<close>

definition registry_ok :: "gateway \<Rightarrow> bool" where
  "registry_ok g \<longleftrightarrow> (\<forall>c sid. gw_registry g c = Some sid \<longrightarrow> sid < length (gw_sessions g) \<and> gs_open (gw_sessions g ! sid)
       \<and> gs_connector (gw_sessions g ! sid) = c)
     \<and> (\<forall>sid < length (gw_sessions g). gs_open (gw_sessions g ! sid) \<and> gw_registry g (gs_connector (gw_sessions g ! sid)) \<noteq> Some sid
          \<longrightarrow> gs_drain (gw_sessions g ! sid) \<noteq> None)"

definition awaited :: "gateway \<Rightarrow> nat \<Rightarrow> string \<Rightarrow> nat \<Rightarrow> bool" where
  "awaited g sid cid n \<longleftrightarrow> n < length (gw_dispatches g) \<and> dp_session (gw_dispatches g ! n) = sid
     \<and> cm_id (dp_command (gw_dispatches g ! n)) = cid \<and> dp_signals (gw_dispatches g ! n) = []"

definition signals_ok :: "gateway \<Rightarrow> bool" where
  "signals_ok g \<longleftrightarrow> (\<forall>sid < length (gw_sessions g). \<forall>cid n. gs_pending (gw_sessions g ! sid) cid = Some n \<longrightarrow> awaited g sid cid n)
     \<and> (\<forall>p \<in> set (gw_dispatches g). dp_session p < length (gw_sessions g) \<and> length (dp_signals p) \<le> 1)"

definition gw_inv :: "gateway \<Rightarrow> bool" where
  "gw_inv g \<longleftrightarrow> registry_ok g \<and> signals_ok g"

lemma on_session_simps [simp]:
  "length (gw_sessions (on_session sid f g)) = length (gw_sessions g)" "gw_registry (on_session sid f g) = gw_registry g"
  "gw_dispatches (on_session sid f g) = gw_dispatches g"
  "i < length (gw_sessions g) \<Longrightarrow> gw_sessions (on_session sid f g) ! i = (if i = sid then f (gw_sessions g ! i) else gw_sessions g ! i)"
  by (auto simp: on_session_def nth_list_update)

lemma on_dispatch_simps [simp]:
  "gw_sessions (on_dispatch n f g) = gw_sessions g" "gw_registry (on_dispatch n f g) = gw_registry g"
  "length (gw_dispatches (on_dispatch n f g)) = length (gw_dispatches g)"
  "i < length (gw_dispatches g) \<Longrightarrow> gw_dispatches (on_dispatch n f g) ! i = (if i = n then f (gw_dispatches g ! i) else gw_dispatches g ! i)"
  by (auto simp: on_dispatch_def nth_list_update)

lemma gw_invD:
  assumes "gw_inv g"
  shows "gw_registry g c = Some sid \<Longrightarrow> sid < length (gw_sessions g) \<and> gs_open (gw_sessions g ! sid) \<and> gs_connector (gw_sessions g ! sid) = c"
    "i < length (gw_sessions g) \<Longrightarrow> gs_open (gw_sessions g ! i) \<Longrightarrow> gw_registry g (gs_connector (gw_sessions g ! i)) \<noteq> Some i \<Longrightarrow>
       gs_drain (gw_sessions g ! i) \<noteq> None"
    "i < length (gw_sessions g) \<Longrightarrow> gs_pending (gw_sessions g ! i) cid = Some n \<Longrightarrow> awaited g i cid n"
    "p \<in> set (gw_dispatches g) \<Longrightarrow> dp_session p < length (gw_sessions g) \<and> length (dp_signals p) \<le> 1"
  using assms unfolding gw_inv_def registry_ok_def signals_ok_def by blast+

lemma gw_invI:
  assumes "\<And>c sid. gw_registry g c = Some sid \<Longrightarrow> sid < length (gw_sessions g) \<and> gs_open (gw_sessions g ! sid) \<and> gs_connector (gw_sessions g ! sid) = c"
    "\<And>i. i < length (gw_sessions g) \<Longrightarrow> gs_open (gw_sessions g ! i) \<Longrightarrow> gw_registry g (gs_connector (gw_sessions g ! i)) \<noteq> Some i \<Longrightarrow>
       gs_drain (gw_sessions g ! i) \<noteq> None"
    "\<And>i cid n. i < length (gw_sessions g) \<Longrightarrow> gs_pending (gw_sessions g ! i) cid = Some n \<Longrightarrow> awaited g i cid n"
    "\<And>p. p \<in> set (gw_dispatches g) \<Longrightarrow> dp_session p < length (gw_sessions g) \<and> length (dp_signals p) \<le> 1"
  shows "gw_inv g"
  using assms unfolding gw_inv_def registry_ok_def signals_ok_def by blast

text \<open>A change of one session that keeps its identity and forgets at most a registered wait.\<close>

lemma session_change:
  assumes "gw_inv g" "\<And>s. gs_connector (f s) = gs_connector s" "\<And>s. gs_open (f s) = gs_open s"
    "\<And>s. gs_drain s \<noteq> None \<Longrightarrow> gs_drain (f s) \<noteq> None"
    "\<And>s cid n. gs_pending (f s) cid = Some n \<Longrightarrow> gs_pending s cid = Some n"
  shows "gw_inv (on_session sid f g)"
proof -
  let ?g = "on_session sid f g"
  have c: "gs_connector (gw_sessions ?g ! i) = gs_connector (gw_sessions g ! i)"
    and o: "gs_open (gw_sessions ?g ! i) = gs_open (gw_sessions g ! i)"
    and d: "gs_drain (gw_sessions g ! i) \<noteq> None \<Longrightarrow> gs_drain (gw_sessions ?g ! i) \<noteq> None"
    and p: "gs_pending (gw_sessions ?g ! i) cid = Some n \<Longrightarrow> gs_pending (gw_sessions g ! i) cid = Some n"
    if "i < length (gw_sessions g)" for i cid n
    using that assms(2-3) [of "gw_sessions g ! i"] assms(4) [of "gw_sessions g ! i"] assms(5) [of "gw_sessions g ! i" cid n]
    by (auto split: if_splits)
  show ?thesis
  proof (rule gw_invI)
    fix k i assume "gw_registry ?g k = Some i"
    then show "i < length (gw_sessions ?g) \<and> gs_open (gw_sessions ?g ! i) \<and> gs_connector (gw_sessions ?g ! i) = k"
      using gw_invD(1) [OF assms(1), of k i] c o by simp
  next
    fix i assume i: "i < length (gw_sessions ?g)" "gs_open (gw_sessions ?g ! i)" "gw_registry ?g (gs_connector (gw_sessions ?g ! i)) \<noteq> Some i"
    then have "gs_drain (gw_sessions g ! i) \<noteq> None" using c o by (intro gw_invD(2) [OF assms(1)]) simp_all
    with d i(1) show "gs_drain (gw_sessions ?g ! i) \<noteq> None" by simp
  next
    fix i cid n assume i: "i < length (gw_sessions ?g)" "gs_pending (gw_sessions ?g ! i) cid = Some n"
    then have len: "i < length (gw_sessions g)" by simp
    from gw_invD(3) [OF assms(1) len p [OF len i(2)]] show "awaited ?g i cid n" by (simp add: awaited_def)
  next
    fix q assume "q \<in> set (gw_dispatches ?g)"
    then show "dp_session q < length (gw_sessions ?g) \<and> length (dp_signals q) \<le> 1" using gw_invD(4) [OF assms(1), of q] by simp
  qed
qed

lemma in_dispatches: "p \<in> set (gw_dispatches g) \<longleftrightarrow> (\<exists>n < length (gw_dispatches g). p = gw_dispatches g ! n)"
  by (auto simp: in_set_conv_nth)

lemma signal_command_inv:
  assumes "gw_inv g" "sid < length (gw_sessions g)"
  shows "gw_inv (signal_command sid cid sig g)"
proof (cases "gs_pending (gw_sessions g ! sid) cid")
  case None
  with assms show ?thesis by (simp add: signal_command_def)
next
  case (Some n)
  let ?g = "cancel_command sid cid g"
  let ?f = "\<lambda>p. p\<lparr>dp_signals := dp_signals p @ [sig]\<rparr>"
  have a: "awaited g sid cid n" using assms Some by (auto simp: gw_inv_def signals_ok_def)
  have inv: "gw_inv ?g" unfolding cancel_command_def
    using assms(1) by (rule session_change) (auto split: if_splits)
  have "gw_inv (on_dispatch n ?f ?g)"
  proof (rule gw_invI)
    fix sid' cid' n'
    assume s: "sid' < length (gw_sessions (on_dispatch n ?f ?g))"
      and p: "gs_pending (gw_sessions (on_dispatch n ?f ?g) ! sid') cid' = Some n'"
    then have aw: "awaited ?g sid' cid' n'" by (intro gw_invD(3) [OF inv]) simp_all
    moreover have "n' \<noteq> n"
    proof
      assume "n' = n"
      with aw a have "sid' = sid" "cid' = cid" by (auto simp: awaited_def cancel_command_def)
      with p s show False by (simp add: cancel_command_def)
    qed
    ultimately show "awaited (on_dispatch n ?f ?g) sid' cid' n'" by (simp add: awaited_def)
  next
    fix p
    assume "p \<in> set (gw_dispatches (on_dispatch n ?f ?g))"
    then obtain k where k: "k < length (gw_dispatches g)" "p = gw_dispatches (on_dispatch n ?f ?g) ! k"
      by (auto simp: in_dispatches cancel_command_def)
    then have "gw_dispatches g ! k \<in> set (gw_dispatches g)" by simp
    from gw_invD(4) [OF assms(1) this] k a assms(2)
    show "dp_session p < length (gw_sessions (on_dispatch n ?f ?g)) \<and> length (dp_signals p) \<le> 1"
      by (simp add: cancel_command_def awaited_def)
  qed (use gw_invD(1,2) [OF inv] in simp_all)
  with Some show ?thesis by (simp add: signal_command_def)
qed

lemma cancel_command_inv: "gw_inv g \<Longrightarrow> gw_inv (cancel_command sid cid g)"
  unfolding cancel_command_def by (erule session_change) (auto split: if_splits)

text \<open>A change of a dispatch that keeps what it is for and takes no signal back.\<close>

lemma dispatch_change:
  assumes "gw_inv g" "\<And>p. dp_session (f p) = dp_session p" "\<And>p. dp_command (f p) = dp_command p"
    "\<And>p. length (dp_signals (f p)) \<le> length (dp_signals p)"
  shows "gw_inv (on_dispatch n f g)"
proof (rule gw_invI)
  fix i cid k
  assume "i < length (gw_sessions (on_dispatch n f g))" "gs_pending (gw_sessions (on_dispatch n f g) ! i) cid = Some k"
  then have "awaited g i cid k" by (intro gw_invD(3) [OF assms(1)]) simp_all
  then show "awaited (on_dispatch n f g) i cid k"
    using assms(2,3) assms(4) [of "gw_dispatches g ! k"] by (cases "k = n") (simp_all add: awaited_def)
next
  fix p
  assume "p \<in> set (gw_dispatches (on_dispatch n f g))"
  then obtain k where k: "k < length (gw_dispatches g)" "p = (if k = n then f (gw_dispatches g ! k) else gw_dispatches g ! k)"
    by (auto simp: in_dispatches)
  then have "gw_dispatches g ! k \<in> set (gw_dispatches g)" by simp
  from gw_invD(4) [OF assms(1) this] k assms(2) assms(4) [of "gw_dispatches g ! k"]
  show "dp_session p < length (gw_sessions (on_dispatch n f g)) \<and> length (dp_signals p) \<le> 1" by auto
qed (use gw_invD(1,2) [OF assms(1)] in simp_all)

lemma end_session_inv:
  assumes "gw_inv g" "sid < length (gw_sessions g)"
  shows "gw_inv (on_session sid (\<lambda>s. s\<lparr>gs_open := False\<rparr>) (registry_remove sid g))"
proof -
  let ?g = "on_session sid (\<lambda>s. s\<lparr>gs_open := False\<rparr>) (registry_remove sid g)"
  let ?c = "gs_connector (gw_sessions g ! sid)"
  have s: "gw_sessions (registry_remove sid g) = gw_sessions g" "gw_dispatches (registry_remove sid g) = gw_dispatches g"
    by (simp_all add: registry_remove_def Let_def)
  have r: "gw_registry (registry_remove sid g) k = (if k = ?c \<and> gw_registry g ?c = Some sid then None else gw_registry g k)" for k
    by (simp add: registry_remove_def Let_def)
  show ?thesis
  proof (rule gw_invI)
    fix k i assume "gw_registry ?g k = Some i"
    then have ki: "gw_registry (registry_remove sid g) k = Some i" by simp
    then have g: "gw_registry g k = Some i" unfolding r by (simp split: if_splits)
    have "i \<noteq> sid"
    proof
      assume "i = sid"
      with gw_invD(1) [OF assms(1) g] have "k = ?c" by simp
      with g \<open>i = sid\<close> ki show False unfolding r by simp
    qed
    with gw_invD(1) [OF assms(1) g]
    show "i < length (gw_sessions ?g) \<and> gs_open (gw_sessions ?g ! i) \<and> gs_connector (gw_sessions ?g ! i) = k" by (simp add: s)
  next
    fix i assume i: "i < length (gw_sessions ?g)" "gs_open (gw_sessions ?g ! i)" "gw_registry ?g (gs_connector (gw_sessions ?g ! i)) \<noteq> Some i"
    then have "i \<noteq> sid" by (auto simp: s)
    with i have "gs_open (gw_sessions g ! i)" "gw_registry g (gs_connector (gw_sessions g ! i)) \<noteq> Some i"
      using i(3) \<open>i \<noteq> sid\<close> i(1) by (simp_all add: s r split: if_splits)
    then show "gs_drain (gw_sessions ?g ! i) \<noteq> None" using gw_invD(2) [OF assms(1), of i] i(1) \<open>i \<noteq> sid\<close> by (simp add: s)
  next
    fix i cid n assume i: "i < length (gw_sessions ?g)" "gs_pending (gw_sessions ?g ! i) cid = Some n"
    then have "awaited g i cid n" by (intro gw_invD(3) [OF assms(1)]) (auto simp: s split: if_splits)
    then show "awaited ?g i cid n" by (simp add: awaited_def s)
  next
    fix p assume "p \<in> set (gw_dispatches ?g)"
    then show "dp_session p < length (gw_sessions ?g) \<and> length (dp_signals p) \<le> 1" using gw_invD(4) [OF assms(1), of p] by (simp add: s)
  qed
qed

lemma drain_signal_inv: "gw_inv g \<Longrightarrow> gw_inv (on_session sid (signal_drain reason) g)"
  by (erule session_change) (auto simp: signal_drain_def split: if_splits)

lemma new_session_simps [simp]: "gs_connector (new_session c t) = c" "gs_tenant (new_session c t) = t" "gs_open (new_session c t)"
    "gs_pending (new_session c t) = (\<lambda>_. None)" "gs_drain (new_session c t) = None" "gs_commands (new_session c t) = []"
  by (simp_all add: new_session_def)

lemma add_session_inv:
  assumes "gw_inv g"
  shows "gw_inv (registry_add (length (gw_sessions g)) (g\<lparr>gw_sessions := gw_sessions g @ [new_session conn tenant]\<rparr>))"
proof -
  let ?sid = "length (gw_sessions g)"
  let ?g0 = "g\<lparr>gw_sessions := gw_sessions g @ [new_session conn tenant]\<rparr>"
  let ?g1 = "case gw_registry g conn of None \<Rightarrow> g | Some old \<Rightarrow> on_session old (signal_drain ''superseded by new session'') g"
  let ?g = "registry_add ?sid ?g0"
  have inv1: "gw_inv ?g1" using assms drain_signal_inv by (auto split: option.splits)
  have g: "?g = ?g1\<lparr>gw_sessions := gw_sessions ?g1 @ [new_session conn tenant], gw_registry := (gw_registry g)(conn := Some ?sid)\<rparr>"
    using gw_invD(1) [OF assms, of conn]
    by (auto simp: registry_add_def Let_def on_session_def list_update_append nth_append split: option.splits)
  have len: "length (gw_sessions ?g1) = ?sid" "gw_registry ?g1 = gw_registry g" "gw_dispatches ?g1 = gw_dispatches g"
    by (simp_all split: option.splits)
  have nth: "gw_sessions ?g ! i = (if i < ?sid then gw_sessions ?g1 ! i else new_session conn tenant)" if "i \<le> ?sid" for i
    using that len(1) by (simp add: g nth_append)
  have lg: "length (gw_sessions ?g) = Suc ?sid" "gw_registry ?g = (gw_registry g)(conn := Some ?sid)" "gw_dispatches ?g = gw_dispatches g"
    using len by (simp_all add: g)
  show ?thesis
  proof (rule gw_invI)
    fix k i assume k: "gw_registry ?g k = Some i"
    show "i < length (gw_sessions ?g) \<and> gs_open (gw_sessions ?g ! i) \<and> gs_connector (gw_sessions ?g ! i) = k"
    proof (cases "k = conn")
      case True
      with k have "i = ?sid" by (simp add: lg)
      with True nth [of ?sid] show ?thesis by (simp add: lg)
    next
      case False
      with k len(2) have "gw_registry ?g1 k = Some i" by (simp add: lg)
      from gw_invD(1) [OF inv1 this] nth [of i] len(1) show ?thesis by (simp add: lg)
    qed
  next
    fix i assume i: "i < length (gw_sessions ?g)" "gs_open (gw_sessions ?g ! i)" "gw_registry ?g (gs_connector (gw_sessions ?g ! i)) \<noteq> Some i"
    then have "i \<noteq> ?sid" using nth [of ?sid] by (auto simp: lg)
    with i(1) have lt: "i < ?sid" by (simp add: lg)
    then have si: "gw_sessions ?g ! i = gw_sessions ?g1 ! i" using nth [of i] by simp
    show "gs_drain (gw_sessions ?g ! i) \<noteq> None"
    proof (cases "gw_registry g (gs_connector (gw_sessions ?g1 ! i)) = Some i")
      case True
      with i(3) si lg(2) have "gs_connector (gw_sessions ?g1 ! i) = conn" by (auto split: if_splits)
      with True have "gw_registry g conn = Some i" by simp
      then show ?thesis using si lt by (simp add: signal_drain_def)
    next
      case False
      with i(2) si lt len show ?thesis by (simp only: si) (rule gw_invD(2) [OF inv1], simp_all)
    qed
  next
    fix i cid n assume i: "i < length (gw_sessions ?g)" "gs_pending (gw_sessions ?g ! i) cid = Some n"
    then have "i \<noteq> ?sid" using nth [of ?sid] by auto
    with i(1) have lt: "i < ?sid" by (simp add: lg)
    then have "gs_pending (gw_sessions ?g1 ! i) cid = Some n" using i(2) nth [of i] by simp
    then have "awaited ?g1 i cid n" using lt len(1) by (intro gw_invD(3) [OF inv1]) simp_all
    then show "awaited ?g i cid n" by (simp add: awaited_def lg len(3))
  next
    fix p assume "p \<in> set (gw_dispatches ?g)"
    then show "dp_session p < length (gw_sessions ?g) \<and> length (dp_signals p) \<le> 1" using gw_invD(4) [OF assms, of p] by (simp add: lg)
  qed
qed

lemma dispatch_start_inv:
  assumes "dispatch_start conn cmd g = (r, g')" "gw_inv g"
  shows "gw_inv g'"
proof (cases "gw_registry g conn")
  case None
  with assms show ?thesis by (simp add: dispatch_start_def)
next
  case (Some sid)
  let ?n = "length (gw_dispatches g)"
  let ?d = "\<lparr>dp_session = sid, dp_command = cmd, dp_phase = Sending, dp_signals = []\<rparr>"
  have g': "g' = on_session sid (\<lambda>s. s\<lparr>gs_pending := (gs_pending s)(cm_id cmd := Some ?n)\<rparr>) (g\<lparr>gw_dispatches := gw_dispatches g @ [?d]\<rparr>)"
    using assms(1) Some by (simp add: dispatch_start_def await_command_def Let_def)
  have sid: "sid < length (gw_sessions g)" using gw_invD(1) [OF assms(2) Some] by simp
  show ?thesis
  proof (rule gw_invI)
    fix k i assume "gw_registry g' k = Some i"
    then have "gw_registry g k = Some i" by (simp add: g')
    from gw_invD(1) [OF assms(2) this]
    show "i < length (gw_sessions g') \<and> gs_open (gw_sessions g' ! i) \<and> gs_connector (gw_sessions g' ! i) = k" by (auto simp add: g')
  next
    fix i assume i: "i < length (gw_sessions g')" "gs_open (gw_sessions g' ! i)" "gw_registry g' (gs_connector (gw_sessions g' ! i)) \<noteq> Some i"
    then have "gs_drain (gw_sessions g ! i) \<noteq> None" by (intro gw_invD(2) [OF assms(2)]) (simp_all add: g' split: if_splits)
    with i(1) show "gs_drain (gw_sessions g' ! i) \<noteq> None" by (auto simp add: g')
  next
    fix i cid n assume i: "i < length (gw_sessions g')" and p: "gs_pending (gw_sessions g' ! i) cid = Some n"
    show "awaited g' i cid n"
    proof (cases "i = sid \<and> cid = cm_id cmd")
      case True
      with i p have "n = ?n" by (simp add: g')
      with True show ?thesis by (simp add: awaited_def g')
    next
      case False
      with i p have "awaited g i cid n" by (intro gw_invD(3) [OF assms(2)]) (auto simp: g' split: if_splits)
      then show ?thesis by (simp add: awaited_def g' nth_append)
    qed
  next
    fix p assume "p \<in> set (gw_dispatches g')"
    then have "p = ?d \<or> p \<in> set (gw_dispatches g)" by (auto simp: g')
    with sid gw_invD(4) [OF assms(2), of p] show "dp_session p < length (gw_sessions g') \<and> length (dp_signals p) \<le> 1" by (auto simp: g')
  qed
qed

lemma drain_all_inv:
  assumes "gw_inv g"
  shows "gw_inv (drain_all reason g)"
proof -
  let ?g = "drain_all reason g"
  have len: "length (gw_sessions ?g) = length (gw_sessions g)" "gw_registry ?g = gw_registry g" "gw_dispatches ?g = gw_dispatches g"
    by (simp_all add: drain_all_def)
  have nth: "gw_sessions ?g ! i = (if gw_registry g (gs_connector (gw_sessions g ! i)) = Some i then signal_drain reason (gw_sessions g ! i)
      else gw_sessions g ! i)" if "i < length (gw_sessions g)" for i
    using that by (simp add: drain_all_def)
  have same: "gs_connector (gw_sessions ?g ! i) = gs_connector (gw_sessions g ! i)" "gs_open (gw_sessions ?g ! i) = gs_open (gw_sessions g ! i)"
    "gs_pending (gw_sessions ?g ! i) = gs_pending (gw_sessions g ! i)" if "i < length (gw_sessions g)" for i
    using nth [OF that] by (simp_all add: signal_drain_def)
  show ?thesis
  proof (rule gw_invI)
    fix k i assume "gw_registry ?g k = Some i"
    then have "gw_registry g k = Some i" by (simp add: len)
    from gw_invD(1) [OF assms this] same
    show "i < length (gw_sessions ?g) \<and> gs_open (gw_sessions ?g ! i) \<and> gs_connector (gw_sessions ?g ! i) = k" by (simp add: len)
  next
    fix i assume i: "i < length (gw_sessions ?g)" "gs_open (gw_sessions ?g ! i)" "gw_registry ?g (gs_connector (gw_sessions ?g ! i)) \<noteq> Some i"
    then have lt: "i < length (gw_sessions g)" by (simp add: len)
    have "gs_drain (gw_sessions g ! i) \<noteq> None" using i same [OF lt] len by (intro gw_invD(2) [OF assms]) simp_all
    then show "gs_drain (gw_sessions ?g ! i) \<noteq> None" using nth [OF lt] by (simp add: signal_drain_def)
  next
    fix i cid n assume i: "i < length (gw_sessions ?g)" "gs_pending (gw_sessions ?g ! i) cid = Some n"
    then have lt: "i < length (gw_sessions g)" by (simp add: len)
    have "awaited g i cid n" using i same [OF lt] len by (intro gw_invD(3) [OF assms]) simp_all
    then show "awaited ?g i cid n" by (simp add: awaited_def len)
  next
    fix p assume "p \<in> set (gw_dispatches ?g)"
    then show "dp_session p < length (gw_sessions ?g) \<and> length (dp_signals p) \<le> 1" using gw_invD(4) [OF assms, of p] by (simp add: len)
  qed
qed

lemma session_change_any: "gw_inv g \<Longrightarrow>
    \<forall>s. gs_connector (f s) = gs_connector s \<and> gs_open (f s) = gs_open s \<and> gs_drain (f s) = gs_drain s \<and> gs_pending (f s) = gs_pending s \<Longrightarrow>
    gw_inv (on_session sid f g)"
  by (rule session_change) simp_all

lemma frame_inv: "gw_inv g \<Longrightarrow> sid < length (gw_sessions g) \<Longrightarrow> gw_inv (fst (on_client_frame cfg sid f now g w))"
  by (cases f) (simp_all add: on_client_frame_def Let_def signal_command_inv session_change_any split: prod.split)

lemma ended_inv: "gw_inv g \<Longrightarrow> sid < length (gw_sessions g) \<Longrightarrow> gw_inv (fst (end_session cfg sid g w))"
  by (simp add: end_session_def end_session_inv)

text \<open>Taking the drain signal goes with ending the session.\<close>

lemma drained_inv:
  assumes "gw_inv g" "sid < length (gw_sessions g)"
  shows "gw_inv (fst (end_session cfg sid (on_session sid (\<lambda>s. s\<lparr>gs_drain := None\<rparr>) g) w))"
proof -
  let ?e = "on_session sid (\<lambda>s. s\<lparr>gs_open := False\<rparr>) (registry_remove sid g)"
  have "fst (end_session cfg sid (on_session sid (\<lambda>s. s\<lparr>gs_drain := None\<rparr>) g) w) = on_session sid (\<lambda>s. s\<lparr>gs_drain := None\<rparr>) ?e"
    using assms(2) by (cases "gw_sessions g ! sid") (simp add: end_session_def registry_remove_def on_session_def Let_def)
  moreover have inv: "gw_inv ?e" using end_session_inv [OF assms] .
  have closed: "\<not> gs_open (gw_sessions ?e ! sid)" "sid < length (gw_sessions ?e)"
    using assms(2) by (simp_all add: registry_remove_def Let_def)
  have "gw_inv (on_session sid (\<lambda>s. s\<lparr>gs_drain := None\<rparr>) ?e)"
  proof (rule gw_invI)
    fix k i assume "gw_registry (on_session sid (\<lambda>s. s\<lparr>gs_drain := None\<rparr>) ?e) k = Some i"
    then have "gw_registry ?e k = Some i" by simp
    from gw_invD(1) [OF inv this] show "i < length (gw_sessions (on_session sid (\<lambda>s. s\<lparr>gs_drain := None\<rparr>) ?e))
        \<and> gs_open (gw_sessions (on_session sid (\<lambda>s. s\<lparr>gs_drain := None\<rparr>) ?e) ! i)
        \<and> gs_connector (gw_sessions (on_session sid (\<lambda>s. s\<lparr>gs_drain := None\<rparr>) ?e) ! i) = k" by auto
  next
    fix i
    let ?s = "gw_sessions (on_session sid (\<lambda>s. s\<lparr>gs_drain := None\<rparr>) ?e) ! i"
    assume i: "i < length (gw_sessions (on_session sid (\<lambda>s. s\<lparr>gs_drain := None\<rparr>) ?e))" "gs_open ?s"
      "gw_registry (on_session sid (\<lambda>s. s\<lparr>gs_drain := None\<rparr>) ?e) (gs_connector ?s) \<noteq> Some i"
    then have "i \<noteq> sid" using closed by auto
    with i have e: "i < length (gw_sessions ?e)" "?s = gw_sessions ?e ! i" by auto
    from i e(2) show "gs_drain ?s \<noteq> None" by (simp only: e(2)) (rule gw_invD(2) [OF inv e(1)], simp_all)
  next
    fix i cid n
    assume "i < length (gw_sessions (on_session sid (\<lambda>s. s\<lparr>gs_drain := None\<rparr>) ?e))"
      "gs_pending (gw_sessions (on_session sid (\<lambda>s. s\<lparr>gs_drain := None\<rparr>) ?e) ! i) cid = Some n"
    then have "awaited ?e i cid n" by (intro gw_invD(3) [OF inv]) (auto split: if_splits)
    then show "awaited (on_session sid (\<lambda>s. s\<lparr>gs_drain := None\<rparr>) ?e) i cid n" by (simp add: awaited_def)
  next
    fix p assume "p \<in> set (gw_dispatches (on_session sid (\<lambda>s. s\<lparr>gs_drain := None\<rparr>) ?e))"
    then show "dp_session p < length (gw_sessions (on_session sid (\<lambda>s. s\<lparr>gs_drain := None\<rparr>) ?e)) \<and> length (dp_signals p) \<le> 1"
      using gw_invD(4) [OF inv, of p] by simp
  qed
  ultimately show ?thesis by simp
qed

lemma loop_step_inv:
  assumes "loop_step cfg sid ev now g w = Some (g', w')" "gw_inv g"
  shows "gw_inv g'"
proof -
  have sid: "sid < length (gw_sessions g)" using assms(1) by (simp add: loop_step_def Let_def split: if_splits)
  show ?thesis
  proof (cases ev)
    case EvDrain
    with assms(1) have "end_session cfg sid (on_session sid (\<lambda>s. s\<lparr>gs_drain := None\<rparr>) g) w = (g', w')"
      by (simp add: loop_step_def Let_def split: if_splits)
    with drained_inv [OF assms(2) sid, of cfg w] show ?thesis by simp
  next
    case EvGone
    with assms(1) have "end_session cfg sid g w = (g', w')" by (simp add: loop_step_def Let_def split: if_splits)
    with ended_inv [OF assms(2) sid, of cfg w] show ?thesis by simp
  next
    case EvDegrade
    with assms show ?thesis by (auto simp: loop_step_def Let_def intro!: session_change_any split: if_splits option.splits)
  next
    case EvOffline
    have "gw_inv (on_session sid (\<lambda>s. s\<lparr>gs_offline := None\<rparr>) g)" using assms(2) by (rule session_change_any) simp
    moreover have "end_session cfg sid (on_session sid (\<lambda>s. s\<lparr>gs_offline := None\<rparr>) g)
        (set_status cfg (gw_sessions g ! sid) ''offline'' None w) = (g', w')"
      using assms(1) EvOffline by (simp add: loop_step_def Let_def split: if_splits option.splits)
    ultimately show ?thesis
      using ended_inv [of "on_session sid (\<lambda>s. s\<lparr>gs_offline := None\<rparr>) g" sid cfg "set_status cfg (gw_sessions g ! sid) ''offline'' None w"] sid
      by simp
  next
    case (EvCommand okay)
    obtain c cs where c: "gs_commands (gw_sessions g ! sid) = c # cs"
      using assms(1) EvCommand by (auto simp: loop_step_def Let_def split: if_splits list.splits)
    have inv: "gw_inv (on_session sid (\<lambda>s. s\<lparr>gs_commands := cs\<rparr>) g)" using assms(2) by (rule session_change_any) simp
    with signal_command_inv [OF inv] EvCommand assms(1) c sid show ?thesis by (auto simp: loop_step_def Let_def split: if_splits)
  next
    case (EvFrame f)
    with assms(1) have "on_client_frame cfg sid f now g w = (g', w')" by (simp add: loop_step_def Let_def split: if_splits)
    with frame_inv [OF assms(2) sid, of cfg f now w] show ?thesis by simp
  qed
qed

lemma open_session_inv:
  assumes "open_session cfg cert f now acked g w = (r, g', w')" "gw_inv g"
  shows "gw_inv g'"
proof -
  have "g' = g \<or> (\<exists>conn tenant. gw_inv g')"
  proof (cases "g' = g")
    case False
    then obtain c conn tenant w1 v where c: "cert = Some c" "recv_hello f = Inr conn" "cc_cn c = conn" "tenant_from_cert c = Some tenant"
      "client_handshake (gc_console cfg) (gc_token cfg) tenant conn (cert_fingerprint (gc_sha cfg) c) w = (Inr v, w1)"
      using assms(1) by (auto simp: open_session_def split: option.splits sum.splits if_splits prod.splits)
    let ?sid = "length (gw_sessions g)"
    let ?g = "registry_add ?sid (g\<lparr>gw_sessions := gw_sessions g @ [new_session conn tenant]\<rparr>)"
    have inv: "gw_inv ?g" using assms(2) by (rule add_session_inv)
    have len: "?sid < length (gw_sessions ?g)" by (auto simp: registry_add_def Let_def split: option.splits)
    show ?thesis
    proof (cases acked)
      case True
      with assms(1) c have "g' = on_session ?sid (\<lambda>s. s\<lparr>gs_degrade := Some (now + degraded_after cfg), gs_offline := Some (now + gc_offline cfg)\<rparr>) ?g"
        by (simp add: open_session_def Let_def)
      with session_change_any [OF inv] show ?thesis by simp
    next
      case False
      with assms(1) c have "g' = fst (end_session cfg ?sid ?g (set_status cfg (new_session conn tenant) ''online'' (Some now) w1))"
        by (simp add: open_session_def Let_def split: prod.splits)
      with ended_inv [OF inv len] show ?thesis by simp
    qed
  qed simp
  with assms(2) show ?thesis by auto
qed

lemma gw_step_inv:
  assumes "gw_step cfg x y" "gw_inv (fst x)"
  shows "gw_inv (fst y)"
  using assms
proof (cases rule: gw_step.cases)
  case (gw_send n g g' w)
  then obtain f where "g' = on_dispatch n (\<lambda>p. p\<lparr>dp_phase := Waiting\<rparr>) (on_session (dp_session (gw_dispatches g ! n)) f g)"
    "\<forall>s. gs_connector (f s) = gs_connector s \<and> gs_open (f s) = gs_open s \<and> gs_drain (f s) = gs_drain s \<and> gs_pending (f s) = gs_pending s"
    by (auto simp: dispatch_send_def Let_def split: if_splits)
  with gw_send assms(2) show ?thesis by (auto intro!: dispatch_change session_change_any)
next
  case (gw_expire n g g' w)
  with assms(2) show ?thesis
    by (auto simp: dispatch_expire_def Let_def intro!: dispatch_change cancel_command_inv split: if_splits)
next
  case (gw_receive n g g' w)
  then obtain sig rest where r: "n < length (gw_dispatches g)" "dp_signals (gw_dispatches g ! n) = sig # rest"
    "g' = on_dispatch n (\<lambda>p. p\<lparr>dp_phase := Done sig, dp_signals := rest\<rparr>) g"
    by (auto simp: dispatch_receive_def Let_def split: if_splits list.splits)
  then have "gw_dispatches g ! n \<in> set (gw_dispatches g)" by simp
  with gw_invD(4) [of g, OF _ this] assms(2) gw_receive r(2) have "rest = []" by simp
  with r gw_receive assms(2) show ?thesis by (auto intro!: dispatch_change)
qed (auto intro: open_session_inv loop_step_inv dispatch_start_inv drain_all_inv)

lemma reach_inv: "gw_reach cfg x \<Longrightarrow> gw_inv (fst x)"
proof (induction rule: gw_reach.induct)
  case (reach_start w)
  show ?case by (rule gw_invI) (simp_all add: empty_gateway_def)
next
  case (reach_step x y)
  with gw_step_inv show ?case by blast
qed

end
