(* ===== verification/GatewayAuth.thy ===== *)
theory GatewayAuth
  imports InventoryProps JsonPrefix GatewayProps
begin

text \<open>
  What the control plane behind the gateway guarantees of its sessions: a session exists only for a connector
  whose certificate it has enrolled, and what comes in on a session reaches the collected data of its own tenant
  only, for the datasources that its connector owns there.
\<close>

section \<open>Calls of the console\<close>

lemma error_status: "400 \<le> ha_status (http_answer_of (Inl e))"
  using meta_of_http by (simp add: http_answer_of_def write_error_def write_response_def)

abbreviation next_call :: "console_world \<Rightarrow> call_fate" where "next_call w \<equiv> cw_fate w (cw_calls w)"
abbreviation called :: "console_world \<Rightarrow> console_world" where "called w \<equiv> w\<lparr>cw_calls := cw_calls w + 1\<rparr>"

text \<open>A call leaves the console as it was, or its handler has run on the printed body.\<close>

lemma client_post_world:
  assumes "client_post sv token path body w = (r, w1)"
  obtains "cw_db w1 = cw_db w" "cw_ts w1 = cw_ts w"
  | h x where "svc_route sv (next_call w) path (json_text body) = Some h" "h (called w) = (x, w1)" "wf_json body"
proof (cases "wf_json body \<and> cf_delivery (next_call w) \<noteq> LostRequest \<and> token = sx_token (sf_svc sv)
    \<and> (\<exists>h. svc_route sv (next_call w) path (json_text body) = Some h)")
  case True
  then obtain h where h: "svc_route sv (next_call w) path (json_text body) = Some h" by blast
  obtain x w2 where x: "h (called w) = (x, w2)" by (cases "h (called w)")
  with True h assms have "w2 = w1"
    by (auto simp: client_post_def marshal_def Let_def svc_serve_def split: if_splits)
  with that(2) [OF h] x True show thesis by blast
next
  case False
  with assms show thesis
    by (intro that(1)) (auto simp: client_post_def marshal_def Let_def svc_serve_def split: if_splits option.splits)
qed

lemma client_post_Inr:
  assumes "client_post sv token path body w = (Inr v, w1)"
  obtains h y where "svc_route sv (next_call w) path (json_text body) = Some h" "h (called w) = (Inr y, w1)" "wf_json body"
proof -
  from assms have c: "wf_json body" "cf_delivery (next_call w) \<noteq> LostRequest"
    and s: "\<exists>a. svc_serve sv (next_call w) (''Bearer '' @ token) path (json_text body) (called w) = (a, w1) \<and> ha_status a < 400"
    by (auto simp: client_post_def marshal_def Let_def split: if_splits prod.splits)
  from s obtain h x where h: "svc_route sv (next_call w) path (json_text body) = Some h" "h (called w) = (x, w1)"
    and ok: "ha_status (http_answer_of x) < 400"
    using error_status [of "api_err CodeSvcUnauthenticated"]
    by (auto simp: svc_serve_def split: if_splits option.splits prod.splits)
  obtain y where "x = Inr y" using ok error_status by (cases x) (auto simp: not_le [symmetric])
  with that h c(1) show thesis by blast
qed

lemma svc_routes:
  "svc_route sv f ''/internal/v1/connector-handshakes'' body = Some (on_db (svc_handshake (cf_fault f) body))"
  "svc_route sv f ''/internal/v1/connector-status'' body = Some (on_db (svc_status (cf_fault f) (cf_now f) body))"
  "svc_route sv f ''/internal/v1/collected/metrics'' body = Some (on_ts (ingest_metrics sv f body))"
  "svc_route sv f ''/internal/v1/collected/snapshots'' body = Some (on_ts (ingest_snapshot sv f body))"
  by (simp_all add: svc_route_def)

lemma on_db_simps: "on_db h w = (r, w1) \<Longrightarrow> h (cw_db w) = (r, cw_db w1) \<and> cw_ts w1 = cw_ts w"
  by (auto simp: on_db_def split: prod.splits)

lemma on_ts_simps: "on_ts h w = (r, w1) \<Longrightarrow> h (cw_db w) (cw_ts w) = (r, cw_ts w1) \<and> cw_db w1 = cw_db w"
  by (auto simp: on_ts_def split: prod.splits)

section \<open>Handshakes\<close>

lemma handshake_members:
  "handshake_request_of [(''connector_id'', JStr c), (''fingerprint'', JStr f), (''tenant_id'', JStr t)] = Some (t, c, f)"
proof -
  have "to_lower ''connector_id'' = ''connector_id''" "to_lower ''fingerprint'' = ''fingerprint''" "to_lower ''tenant_id'' = ''tenant_id''"
    by code_simp+
  then show ?thesis by (simp add: handshake_request_of_def str_field_def dec_field_def as_str_def)
qed

text \<open>A handshake that succeeds has found the connector of that tenant, enrolled with that certificate.\<close>

definition admitted :: "ctdb \<Rightarrow> string \<Rightarrow> string \<Rightarrow> bool" where
  "admitted s conn fp \<longleftrightarrow> (\<exists>row \<in> set (c_conns s). cn_id row = conn \<and> cn_status row \<notin> {''revoked'', ''pending''}
     \<and> cn_fingerprint row = fp \<and> fp \<noteq> [])"

lemma handshake_tx_Inr: "handshake_tx conn fp s = Inr (u, s') \<Longrightarrow> admitted s conn fp"
  by (auto simp: handshake_tx_def admitted_def get_connector_def dest: select_one_Some_in split: sum.splits option.splits if_splits)

lemma client_handshake_Inr:
  assumes "client_handshake sv token tenant conn fp w = (Inr v, w1)"
  shows "uuid_shape tenant \<and> uuid_shape conn \<and> admitted (c_slice (cw_db w) tenant) conn fp"
proof -
  let ?kvs = "[(''connector_id'', JStr conn), (''fingerprint'', JStr fp), (''tenant_id'', JStr tenant)]"
  from assms [unfolded client_handshake_def] obtain h y where "svc_route sv (next_call w) ''/internal/v1/connector-handshakes''
      (json_text (JObj ?kvs)) = Some h" "h (called w) = (Inr y, w1)" and wf: "wf_json (JObj ?kvs)"
    by (rule client_post_Inr)
  then have s: "svc_handshake (cf_fault (next_call w)) (json_text (JObj ?kvs)) (cw_db w) = (Inr y, cw_db w1)"
    by (auto simp: svc_routes dest: on_db_simps)
  then obtain q where q: "decode_json [''tenant_id'', ''connector_id'', ''fingerprint''] handshake_request_of (json_text (JObj ?kvs)) = Inr q"
    by (auto simp: svc_handshake_def split: sum.splits)
  with decode_json_text(1) [OF wf q] have "q = (tenant, conn, fp)" by (simp only: handshake_members) simp
  with s q show ?thesis
    by (auto simp: svc_handshake_def validate_ids_def console_tx_def with_tenant_def tenant_from_context_def
        dest!: handshake_tx_Inr split: sum.splits if_splits option.splits prod.splits)
qed

section \<open>Data of other datasources\<close>

text \<open>A tenant's collected data without those of one datasource.\<close>

definition apart_from :: "string \<Rightarrow> tstables \<Rightarrow> tstables" where
  "apart_from i s = \<lparr>ts_series = filter (\<lambda>r. sr_ds r \<noteq> i) (ts_series s), ts_entities = filter (\<lambda>r. en_ds r \<noteq> i) (ts_entities s),
     ts_snaps = filter (\<lambda>r. sp_ds r \<noteq> i) (ts_snaps s)\<rparr>"

lemma apart_from_simps [simp]:
  "apart_from i (s\<lparr>ts_series := xs\<rparr>) = (apart_from i s)\<lparr>ts_series := filter (\<lambda>r. sr_ds r \<noteq> i) xs\<rparr>"
  "apart_from i (s\<lparr>ts_entities := es\<rparr>) = (apart_from i s)\<lparr>ts_entities := filter (\<lambda>r. en_ds r \<noteq> i) es\<rparr>"
  "apart_from i (s\<lparr>ts_snaps := ps\<rparr>) = (apart_from i s)\<lparr>ts_snaps := filter (\<lambda>r. sp_ds r \<noteq> i) ps\<rparr>"
  by (simp_all add: apart_from_def)

lemma apart_from_same [simp]:
  "(apart_from i s)\<lparr>ts_series := filter (\<lambda>r. sr_ds r \<noteq> i) (ts_series s)\<rparr> = apart_from i s"
  "(apart_from i s)\<lparr>ts_entities := filter (\<lambda>r. en_ds r \<noteq> i) (ts_entities s)\<rparr> = apart_from i s"
  "(apart_from i s)\<lparr>ts_snaps := filter (\<lambda>r. sp_ds r \<noteq> i) (ts_snaps s)\<rparr> = apart_from i s"
  by (simp_all add: apart_from_def)

lemma filter_update_where:
  "(\<And>r. r \<in> set rs \<Longrightarrow> p r \<Longrightarrow> \<not> q r \<and> \<not> q (f r)) \<Longrightarrow> filter q (update_where p f rs) = filter q rs"
  by (induction rs) (auto simp: row_simps)

lemma insert_rows_apart:
  "insert_rows rs s = Inr (u, s') \<Longrightarrow> \<forall>r \<in> set rs. pg_uuid (sr_ds r) = Some i \<Longrightarrow> apart_from i s' = apart_from i s"
  by (induction rs arbitrary: s) auto

lemma insert_series_apart:
  "insert_series m rs s = Inr (u, s') \<Longrightarrow> \<forall>r \<in> set rs. pg_uuid (sr_ds r) = Some i \<Longrightarrow> apart_from i s' = apart_from i s"
proof (induction m rs s rule: insert_series.induct)
  case (1 m rs s)
  show ?case
  proof (cases "rs = [] \<or> m = 0")
    case True
    with 1(2) show ?thesis by (auto simp: insert_series.simps)
  next
    case False
    with 1(2) obtain u1 s1 where i: "insert_rows (take m rs) s = Inr (u1, s1)" "insert_series m (drop m rs) s1 = Inr (u, s')"
      by (subst (asm) insert_series.simps) (auto split: sum.splits)
    from 1(1) [OF False i(1) refl i(2)] insert_rows_apart [OF i(1)] 1(3) show ?thesis
      by (metis in_set_dropD in_set_takeD)
  qed
qed

lemma upsert_entity_apart:
  assumes "upsert_entity dss e s = Inr (u, s')" "pg_uuid (en_ds e) = Some i"
  shows "apart_from i s' = apart_from i s"
proof -
  have "filter (\<lambda>r. en_ds r \<noteq> i) (update_where (same_entity (e\<lparr>en_ds := i\<rparr>)) f (ts_entities s)) = filter (\<lambda>r. en_ds r \<noteq> i) (ts_entities s)"
    if "\<And>r. en_ds (f r) = en_ds r" for f
    using that by (intro filter_update_where) (auto simp: same_entity_def)
  with assms show ?thesis by (auto simp: upsert_entity_def Let_def split: if_splits)
qed

lemma upsert_entities_apart:
  "upsert_entities dss es s = Inr (u, s') \<Longrightarrow> \<forall>e \<in> set es. pg_uuid (en_ds e) = Some i \<Longrightarrow> apart_from i s' = apart_from i s"
proof (induction es arbitrary: s)
  case (Cons e es)
  then obtain u1 s1 where "upsert_entity dss e s = Inr (u1, s1)" "upsert_entities dss es s1 = Inr (u, s')" by (auto split: sum.splits)
  with Cons upsert_entity_apart [of dss e s u1 s1 i] show ?case by simp
qed simp

lemma state_tx_apart:
  assumes "state_tx sha new dss x s = Inr (u, s')" "pg_uuid (sn_ds x) = Some i" "snaps_ok s"
  shows "apart_from i s' = apart_from i s"
proof -
  have row: "sp_ds r = i" if "r \<in> set (ts_snaps s)" "cur \<in> set (ts_snaps s)" "is_current i (sn_kind x) cur" "sp_id r = sp_id cur" for r cur
  proof -
    have "distinct (map sp_id (ts_snaps s))" using assms(3) by (simp add: snaps_ok_def)
    with key_inj [of sp_id "ts_snaps s" r cur] that show ?thesis by (simp add: is_current_def)
  qed
  have upd: "filter (\<lambda>r. sp_ds r \<noteq> i) (update_where (\<lambda>r. sp_id r = sp_id cur) f (ts_snaps s)) = filter (\<lambda>r. sp_ds r \<noteq> i) (ts_snaps s)"
    if "cur \<in> set (ts_snaps s)" "is_current i (sn_kind x) cur" "\<And>r. sp_ds (f r) = sp_ds r" for f cur
    using row [OF _ that(1,2)] that(3) by (intro filter_update_where) auto
  show ?thesis
    using assms(1)
  proof (cases rule: state_tx_cases)
    case (same i' cur)
    with assms(2) upd [of cur] show ?thesis by simp
  next
    case (fresh i' old row)
    then have "filter (\<lambda>r. sp_ds r \<noteq> i) old = filter (\<lambda>r. sp_ds r \<noteq> i) (ts_snaps s)" using assms(2) upd by auto
    with fresh assms(2) show ?thesis by (simp add: is_current_def)
  qed
qed

text \<open>A publication for one tenant and datasource.\<close>

definition confined :: "string \<Rightarrow> string \<Rightarrow> tsdb \<Rightarrow> tsdb \<Rightarrow> bool" where
  "confined t i d d' \<longleftrightarrow> (\<forall>t'. t' \<noteq> t \<longrightarrow> ts_slice d' t' = ts_slice d t') \<and> apart_from i (ts_slice d' t) = apart_from i (ts_slice d t)"

lemma confined_refl [simp]: "confined t i d d"
  by (simp add: confined_def)

lemma ts_tx_confined:
  assumes "ts_tx flt (Some t) body d = (r, d')"
    "\<And>x s'. body (ts_slice d t) = Inr (x, s') \<Longrightarrow> apart_from i s' = apart_from i (ts_slice d t)"
  shows "confined t i d d'"
proof (cases r)
  case (Inl e)
  with assms(1) ts_tx_Inl show ?thesis by fastforce
next
  case (Inr x)
  with assms(1) obtain s where "body (ts_slice d t) = Inr (x, s)" "d' = d\<lparr>ts_slice := (ts_slice d)(t := s)\<rparr>"
    by (metis option.inject ts_tx_Inr)
  with assms(2) show ?thesis by (simp add: confined_def)
qed

lemma ts_publish_confined:
  assumes "ts_publish m flt (Some t) b d = (r, d')" "pg_uuid (ba_ds b) = Some i"
  shows "confined t i d d'"
proof (cases "metric_rows b")
  case (Inr rows)
  then have "\<forall>x \<in> set rows. pg_uuid (sr_ds x) = Some i" using assms(2) by (auto simp: metric_rows_def split: list.splits)
  with assms(1) Inr show ?thesis
    by (auto simp: ts_publish_def intro: ts_tx_confined insert_series_apart split: if_splits)
qed (use assms in \<open>simp add: ts_publish_def\<close>)

lemma publish_snapshot_confined:
  assumes "publish_snapshot sha fl m flt (Some t) dss new x d = (r, d')" "pg_uuid (sn_ds x) = Some i" "snaps_ok (ts_slice d t)"
  shows "confined t i d d'"
proof -
  have slow: "confined t i d d1" if "publish_slowlog sha fl m flt (Some t) dss x d = (r1, d1)" for r1 d1
  proof -
    let ?rows = "concat (map (query_rows sha fl x) (sn_queries x))"
    let ?es = "map (query_entity sha x) (sn_queries x)"
    have rows: "\<forall>y \<in> set ?rows. pg_uuid (sr_ds y) = Some i" using assms(2) by (auto simp: query_rows_def)
    have es: "\<forall>e \<in> set ?es. pg_uuid (en_ds e) = Some i" using assms(2) by (auto simp: query_entity_def)
    have tx: "apart_from i s' = apart_from i s" if "slowlog_tx m dss ?es ?rows s = Inr (u, s')" for s u s'
    proof -
      from that obtain u1 s1 where 1: "upsert_entities dss ?es s = Inr (u1, s1)" and 2: "insert_series m ?rows s1 = Inr (u, s')"
        by (auto simp: slowlog_tx_def split: sum.splits)
      from upsert_entities_apart [OF 1 es] insert_series_apart [OF 2 rows] show ?thesis by simp
    qed
    show ?thesis
    proof (cases "List.map_filter (\<lambda>y. validate_series_entity (sr_name y) (sr_entity y)) ?rows = [] \<and> ?rows \<noteq> []")
      case True
      with that have "ts_tx flt (Some t) (slowlog_tx m dss ?es ?rows) d = (r1, d1)" by (auto simp: publish_slowlog_def Let_def split: if_splits)
      then show ?thesis by (rule ts_tx_confined) (rule tx)
    next
      case False
      with that have "d1 = d" by (auto simp: publish_slowlog_def Let_def split: list.splits if_splits)
      then show ?thesis by simp
    qed
  qed
  from assms show ?thesis
    by (auto simp: publish_snapshot_def intro: slow ts_tx_confined state_tx_apart split: if_splits)
qed

section \<open>Uploads\<close>

lemma ownership_Inr:
  assumes "ownership_check flt (Some t) ds conn d = Inr u"
  shows "\<exists>r \<in> set (c_ds (c_slice d t)). dr_mode r = ''connector'' \<and> dr_connector r = Some conn \<and> pg_uuid ds = Some (dr_id r)"
  using assms
  by (auto simp: ownership_check_def console_tx_def tenant_from_context_def owns_tx_def dest!: get_ds_Inr
      split: if_splits sum.splits option.splits prod.splits)

text \<open>What a call of the console may do to the collected data of a connector's tenant.\<close>

definition attributed :: "string \<Rightarrow> string \<Rightarrow> console_world \<Rightarrow> console_world \<Rightarrow> bool" where
  "attributed t conn w w' \<longleftrightarrow> cw_ts w' = cw_ts w \<or> (\<exists>r \<in> set (c_ds (c_slice (cw_db w) t)).
     dr_mode r = ''connector'' \<and> dr_connector r = Some conn \<and> confined t (dr_id r) (cw_ts w) (cw_ts w'))"

lemma upload_lower: "to_lower ''connector_id'' = ''connector_id''" "to_lower ''tenant_id'' = ''tenant_id''" "to_lower ''batch'' = ''batch''"
  "to_lower ''snapshot'' = ''snapshot''"
  by code_simp+

lemma upload_fields:
  "str_field ''tenant_id'' [(''batch'', b), (''connector_id'', JStr c), (''tenant_id'', JStr t)] = Some t"
  "str_field ''connector_id'' [(''batch'', b), (''connector_id'', JStr c), (''tenant_id'', JStr t)] = Some c"
  "str_field ''tenant_id'' [(''connector_id'', JStr c), (''snapshot'', b), (''tenant_id'', JStr t)] = Some t"
  "str_field ''connector_id'' [(''connector_id'', JStr c), (''snapshot'', b), (''tenant_id'', JStr t)] = Some c"
  by (simp_all add: str_field_def dec_field_def as_str_def upload_lower)

lemma ingest_metrics_attributed:
  assumes "ingest_metrics sv f (json_text (JObj [(''batch'', b), (''connector_id'', JStr conn), (''tenant_id'', JStr t)])) d ts = (r, ts')"
    "wf_json (JObj [(''batch'', b), (''connector_id'', JStr conn), (''tenant_id'', JStr t)])"
  shows "ts' = ts \<or> (\<exists>r \<in> set (c_ds (c_slice d t)). dr_mode r = ''connector'' \<and> dr_connector r = Some conn \<and> confined t (dr_id r) ts ts')"
proof (cases "decode_json [''tenant_id'', ''connector_id'', ''batch''] (ingest_batch_of (sf_floats sv))
    (json_text (JObj [(''batch'', b), (''connector_id'', JStr conn), (''tenant_id'', JStr t)]))")
  case (Inr q)
  from decode_json_text(1) [OF assms(2) Inr] obtain x where q: "q = (t, conn, x)"
    by (auto simp: ingest_batch_of_def upload_fields split: option.splits)
  show ?thesis
  proof (cases "ownership_check (cf_fault f) (Some t) (ba_ds x) conn d")
    case (Inl e)
    with assms(1) Inr q show ?thesis by (auto simp: ingest_metrics_def with_tenant_def split: if_splits)
  next
    case own: (Inr u)
    from ownership_Inr [OF own] obtain row where row: "row \<in> set (c_ds (c_slice d t))" "dr_mode row = ''connector''"
      "dr_connector row = Some conn" "pg_uuid (ba_ds x) = Some (dr_id row)" by blast
    have "ts' = ts \<or> (\<exists>r1. ts_publish (sf_rows sv) (cf_fault2 f) (Some t) x ts = (r1, ts'))"
      using assms(1) Inr q own by (auto simp: ingest_metrics_def with_tenant_def split: if_splits sum.splits prod.splits)
    with ts_publish_confined [OF _ row(4)] row(1-3) show ?thesis by blast
  qed
qed (use assms(1) in \<open>simp add: ingest_metrics_def\<close>)

lemma ingest_snapshot_attributed:
  assumes "ingest_snapshot sv f (json_text (JObj [(''connector_id'', JStr conn), (''snapshot'', b), (''tenant_id'', JStr t)])) d ts = (r, ts')"
    "wf_json (JObj [(''connector_id'', JStr conn), (''snapshot'', b), (''tenant_id'', JStr t)])" "snaps_ok (ts_slice ts t)"
  shows "ts' = ts \<or> (\<exists>r \<in> set (c_ds (c_slice d t)). dr_mode r = ''connector'' \<and> dr_connector r = Some conn \<and> confined t (dr_id r) ts ts')"
proof (cases "decode_json [''tenant_id'', ''connector_id'', ''snapshot''] (ingest_snapshot_of (sf_floats sv))
    (json_text (JObj [(''connector_id'', JStr conn), (''snapshot'', b), (''tenant_id'', JStr t)]))")
  case (Inr q)
  from decode_json_text(1) [OF assms(2) Inr] obtain x where q: "q = (t, conn, x)"
    by (auto simp: ingest_snapshot_of_def upload_fields split: option.splits)
  show ?thesis
  proof (cases "ownership_check (cf_fault f) (Some t) (sn_ds x) conn d")
    case (Inl e)
    with assms(1) Inr q show ?thesis by (auto simp: ingest_snapshot_def with_tenant_def split: if_splits)
  next
    case own: (Inr u)
    from ownership_Inr [OF own] obtain row where row: "row \<in> set (c_ds (c_slice d t))" "dr_mode row = ''connector''"
      "dr_connector row = Some conn" "pg_uuid (sn_ds x) = Some (dr_id row)" by blast
    have "ts' = ts \<or> (\<exists>r1. publish_snapshot (ce_sha (sf_conn sv)) (sf_floats sv) (sf_rows sv) (cf_fault2 f) (Some t) (known_ds t d) (cf_id f) x ts
        = (r1, ts'))"
      using assms(1) Inr q own by (auto simp: ingest_snapshot_def with_tenant_def split: if_splits sum.splits prod.splits)
    with publish_snapshot_confined [OF _ row(4) assms(3)] row(1-3) show ?thesis by blast
  qed
qed (use assms(1) in \<open>simp add: ingest_snapshot_def\<close>)

lemma upload_metrics_attributed:
  assumes "upload_metrics cfg t conn b w = (okay, w')"
  shows "attributed t conn w w' \<and> cw_db w' = cw_db w"
proof (cases "gc_uploader cfg")
  case True
  with assms obtain r where "client_post (gc_console cfg) (gc_token cfg) ''/internal/v1/collected/metrics''
      (JObj [(''batch'', batch_json b), (''connector_id'', JStr conn), (''tenant_id'', JStr t)]) w = (r, w')"
    by (auto simp: upload_metrics_def client_upload_metrics_def split: prod.splits)
  then show ?thesis
  proof (cases rule: client_post_world)
    case (2 h x)
    from on_ts_simps [of "ingest_metrics (gc_console cfg) (next_call w) _" "called w" x w'] 2(1,2)
    have "ingest_metrics (gc_console cfg) (next_call w) (json_text (JObj [(''batch'', batch_json b), (''connector_id'', JStr conn),
        (''tenant_id'', JStr t)])) (cw_db w) (cw_ts w) = (x, cw_ts w')" "cw_db w' = cw_db w"
      by (auto simp: svc_routes simp del: json_text.simps)
    with ingest_metrics_attributed [OF this(1) 2(3)] show ?thesis by (simp add: attributed_def)
  qed (simp add: attributed_def)
qed (use assms in \<open>simp add: upload_metrics_def attributed_def\<close>)

lemma upload_snapshot_attributed:
  assumes "upload_snapshot cfg t conn b w = (okay, w')" "snaps_ok (ts_slice (cw_ts w) t)"
  shows "attributed t conn w w' \<and> cw_db w' = cw_db w"
proof (cases "gc_uploader cfg")
  case True
  with assms obtain r where "client_post (gc_console cfg) (gc_token cfg) ''/internal/v1/collected/snapshots''
      (JObj [(''connector_id'', JStr conn), (''snapshot'', snapshot_json b), (''tenant_id'', JStr t)]) w = (r, w')"
    by (auto simp: upload_snapshot_def client_upload_snapshot_def split: prod.splits)
  then show ?thesis
  proof (cases rule: client_post_world)
    case (2 h x)
    from on_ts_simps [of "ingest_snapshot (gc_console cfg) (next_call w) _" "called w" x w'] 2(1,2)
    have "ingest_snapshot (gc_console cfg) (next_call w) (json_text (JObj [(''connector_id'', JStr conn), (''snapshot'', snapshot_json b),
        (''tenant_id'', JStr t)])) (cw_db w) (cw_ts w) = (x, cw_ts w')" "cw_db w' = cw_db w"
      by (auto simp: svc_routes simp del: json_text.simps)
    with ingest_snapshot_attributed [OF this(1) 2(3) assms(2)] show ?thesis by (simp add: attributed_def)
  qed (simp add: attributed_def)
qed (use assms in \<open>simp add: upload_snapshot_def attributed_def\<close>)

lemma attributed_refl [simp]: "attributed t conn w w"
  by (simp add: attributed_def)

lemma set_status_ts [simp]: "cw_ts (set_status cfg s st hb w) = cw_ts w"
proof -
  obtain r w1 where c: "client_report_status (gc_console cfg) (gc_token cfg) (gs_tenant s) (gs_connector s) st hb w = (r, w1)"
    by (cases "client_report_status (gc_console cfg) (gc_token cfg) (gs_tenant s) (gs_connector s) st hb w")
  from c [unfolded client_report_status_def] have "cw_ts w1 = cw_ts w"
    by (rule client_post_world) (auto simp: svc_routes simp del: json_text.simps dest: on_db_simps)
  with c show ?thesis by (simp add: set_status_def)
qed

lemma handle_upload_attributed:
  assumes "handle_data_upload cfg s u w = (sig, w')" "snaps_ok (ts_slice (cw_ts w) (gs_tenant s))"
  shows "attributed (gs_tenant s) (gs_connector s) w w' \<and> cw_db w' = cw_db w"
  using assms
  by (auto simp: handle_data_upload_def handle_snapshot_upload_def
      dest: upload_metrics_attributed upload_snapshot_attributed split: if_splits option.splits prod.splits)

end
