(* ===== verification/GatewayRuns.thy ===== *)
theory GatewayRuns
  imports GatewayAuth
begin

text \<open>
  What the gateway guarantees of its sessions, and a sample console with one connector and one datasource
  behind it on which these properties are applied, with a run in which a connector comes back before its old
  session has ended.
\<close>

section \<open>A sample console\<close>

definition sample_tenant :: string where "sample_tenant = ''11111111-1111-1111-1111-111111111111''"
definition sample_connector :: string where "sample_connector = ''33333333-3333-3333-3333-333333333333''"

definition sample_cert :: client_cert where
  "sample_cert = \<lparr>cc_cn = sample_connector, cc_uris = [\<lparr>cu_scheme = ''airush'', cu_host = ''tenant'',
     cu_path = CHR ''/'' # sample_tenant @ ''/connector/'' @ sample_connector\<rparr>], cc_raw = ''der''\<rparr>"

definition sample_conn_row :: conn_row where
  "sample_conn_row = \<lparr>cn_id = sample_connector, cn_name = ''n'', cn_location = ''l'', cn_version = [], cn_status = ''enrolled'',
     cn_heartbeat = None, cn_fingerprint = ''red'', cn_token = None, cn_expires = None, cn_revoked = None, cn_created = 5,
     cn_updated = 5\<rparr>"

definition sample_ds_row :: ds_row where
  "sample_ds_row = \<lparr>dr_id = sample_ds, dr_name = ''d'', dr_family = ''postgres'', dr_engine = [], dr_version = [], dr_mode = ''connector'',
     dr_connector = Some sample_connector, dr_credential = None, dr_host = ''h'', dr_port = 5432, dr_database = ''db'', dr_group = None,
     dr_role = None, dr_agent = None, dr_health = ''unknown'', dr_created = 5, dr_updated = 5\<rparr>"

definition sample_slice :: ctdb where
  "sample_slice = empty_ctdb\<lparr>c_conns := [sample_conn_row], c_ds := [sample_ds_row]\<rparr>"

definition sample_console :: console_world where
  "sample_console = \<lparr>cw_db = \<lparr>c_slice = (\<lambda>_. empty_ctdb)(sample_tenant := sample_slice)\<rparr>, cw_ts = \<lparr>ts_slice = \<lambda>_. empty_tstables\<rparr>,
     cw_fate = \<lambda>_. \<lparr>cf_delivery = Arrives, cf_fault = NoFault, cf_fault2 = NoFault, cf_now = 9, cf_id = ''id''\<rparr>, cw_calls = 0\<rparr>"

definition sample_gateway :: gw_config where
  "sample_gateway = \<lparr>gc_console = \<lparr>sf_svc = \<lparr>sx_token = ''tok'', sx_store = True\<rparr>, sf_conn = \<lparr>ce_sha = rev, ce_sign = (\<lambda>csr c t. Inl (Plain [])), ce_bundle = []\<rparr>, sf_sink = True,
     sf_snapshot_sink = True, sf_rows = 5000, sf_floats = text_floats\<rparr>, gc_token = ''tok'', gc_uploader = True, gc_heartbeat = 10,
     gc_missed = 3, gc_offline = 60, gc_sha = rev\<rparr>"

lemma sample_strings:
  "uuid_shape sample_tenant" "uuid_shape sample_connector" "sample_tenant \<noteq> []" "sample_connector \<noteq> []"
  "tenant_from_cert sample_cert = Some sample_tenant"
  by code_simp+

text \<open>A call that arrives and whose handler succeeds.\<close>

lemma client_post_ok:
  assumes "svc_route sv (next_call w) path (json_text body) = Some h" "h (called w) = (Inr (ConsoleStatus st), w1)" "st < 400"
    "wf_json body" "token = sx_token (sf_svc sv)" "cf_delivery (next_call w) = Arrives"
  shows "client_post sv token path body w = (Inr JNull, w1)"
  using assms by (simp add: client_post_def marshal_def Let_def svc_serve_def http_answer_of_def)

lemma decode_json_ok:
  assumes "wf_json (JObj kvs)" "\<forall>k \<in> set (map fst kvs). to_lower k \<in> set names" "f kvs = Some r"
    "length (json_text (JObj kvs)) \<le> console_body_limit"
  shows "decode_json names f (json_text (JObj kvs)) = Inr r"
  using decode_strict_text [where f = f and kvs = kvs and r = r, OF assms(1-3)] assms(4) by (simp add: decode_json_def)

lemma text_limit: "length t \<le> 1000 \<Longrightarrow> length t \<le> console_body_limit"
  by (simp add: console_body_limit_def)

abbreviation sample_text :: "(string \<times> json) list \<Rightarrow> string" where "sample_text kvs \<equiv> json_text (JObj kvs)"

lemma sample_handshake:
  assumes "cw_fate w = cw_fate sample_console" "c_conns (c_slice (cw_db w) sample_tenant) = [row]" "cn_id row = sample_connector"
    "cn_status row \<notin> {''revoked'', ''pending''}" "cn_fingerprint row = ''red''"
  shows "client_handshake (gc_console sample_gateway) (gc_token sample_gateway) sample_tenant sample_connector ''red'' w
     = (Inr JNull, called w)"
proof -
  let ?kvs = "[(''connector_id'', JStr sample_connector), (''fingerprint'', JStr ''red''), (''tenant_id'', JStr sample_tenant)]"
  have "length (json_text (JObj ?kvs)) \<le> 1000" by code_simp
  moreover have "\<forall>k \<in> set (map fst ?kvs). to_lower k \<in> set [''tenant_id'', ''connector_id'', ''fingerprint'']" by code_simp
  ultimately have d: "decode_json [''tenant_id'', ''connector_id'', ''fingerprint''] handshake_request_of (json_text (JObj ?kvs))
      = Inr (sample_tenant, sample_connector, ''red'')"
    by (intro decode_json_ok text_limit) (simp_all add: handshake_members)
  have h: "handshake_tx sample_connector ''red'' (c_slice (cw_db w) sample_tenant) = Inr ((), c_slice (cw_db w) sample_tenant)"
    using assms(2-5) by (simp add: handshake_tx_def get_connector_def row_simps)
  have "svc_handshake NoFault (json_text (JObj ?kvs)) (cw_db w) = (Inr (ConsoleStatus 204), cw_db w)"
    by (simp add: svc_handshake_def d validate_ids_def sample_strings console_tx_def with_tenant_def tenant_from_context_def h
        del: json_text.simps)
  with assms(1) show ?thesis unfolding client_handshake_def
    by (intro client_post_ok [where h = "on_db (svc_handshake NoFault (json_text (JObj ?kvs)))" and st = 204])
      (simp_all add: svc_routes sample_console_def sample_gateway_def on_db_def)
qed

lemma status_members:
  "status_request_of ([(''connector_id'', JStr c)] @ (case hb of None \<Rightarrow> [] | Some x \<Rightarrow> [(''heartbeat_at'', JStr (time_text x))])
     @ [(''status'', JStr st), (''tenant_id'', JStr t)]) = Some (t, c, st, map_option time_text hb)"
proof -
  have "to_lower ''connector_id'' = ''connector_id''" "to_lower ''heartbeat_at'' = ''heartbeat_at''" "to_lower ''status'' = ''status''"
    "to_lower ''tenant_id'' = ''tenant_id''" by code_simp+
  then show ?thesis
    by (cases hb) (simp_all add: status_request_of_def str_field_def opt_str_field_def ptr_field_def dec_field_def as_str_def Let_def)
qed

lemma sample_time: "time_text 7 = ''1970-01-01T00:00:00.000007Z''" "parse_time (time_text 7) = Some 7" "time_ok 7"
proof -
  have "month_walk (month_lens 1970) 1 0 = (1, 0)" "year_walk 1970 0 = (1970, 0)" by code_simp+
  moreover have "pad 4 1970 = ''1970''" "pad 2 1 = ''01''" "pad 2 0 = ''00''" "frac_text 7 = ''.000007''" by code_simp+
  ultimately show "time_text 7 = ''1970-01-01T00:00:00.000007Z''" by (simp add: time_text_def Let_def)
  show t: "time_ok 7" using \<open>year_walk 1970 0 = (1970, 0)\<close> by (simp add: time_ok_def)
  from t show "parse_time (time_text 7) = Some 7" by (rule parse_time_text)
qed

text \<open>A report that arrives is written to the connector's row.\<close>

lemma sample_report:
  assumes "cw_fate w = cw_fate sample_console" "c_conns (c_slice (cw_db w) sample_tenant) = [row]" "cn_id row = sample_connector"
    "cn_status row \<notin> {''revoked'', ''pending''}" "(st, hb) \<in> {(''online'', Some 7), (''offline'', None)}"
    "gs_tenant s = sample_tenant" "gs_connector s = sample_connector"
  shows "\<exists>row'. c_conns (c_slice (cw_db (set_status sample_gateway s st hb w)) sample_tenant) = [row'] \<and> cn_id row' = sample_connector
     \<and> cn_status row' = st \<and> cn_fingerprint row' = cn_fingerprint row \<and> cw_fate (set_status sample_gateway s st hb w) = cw_fate sample_console"
proof -
  let ?kvs = "[(''connector_id'', JStr sample_connector)] @ (case hb of None \<Rightarrow> [] | Some x \<Rightarrow> [(''heartbeat_at'', JStr (time_text x))])
     @ [(''status'', JStr st), (''tenant_id'', JStr sample_tenant)]"
  note t = sample_time(2)
  let ?ok = "\<lambda>kvs. length (json_text (JObj kvs)) \<le> 1000 \<and> wf_json (JObj kvs)
      \<and> (\<forall>k \<in> set (map fst kvs). to_lower k \<in> set [''tenant_id'', ''connector_id'', ''status'', ''heartbeat_at''])"
  have "?ok [(''connector_id'', JStr sample_connector), (''heartbeat_at'', JStr (time_text 7)), (''status'', JStr ''online''),
      (''tenant_id'', JStr sample_tenant)]" unfolding sample_time(1) by code_simp
  moreover have "?ok [(''connector_id'', JStr sample_connector), (''status'', JStr ''offline''), (''tenant_id'', JStr sample_tenant)]" by code_simp
  ultimately have "?ok ?kvs" using assms(5) by (elim insertE) (simp_all del: json_text.simps wf_json.simps)
  then have d: "decode_json [''tenant_id'', ''connector_id'', ''status'', ''heartbeat_at''] status_request_of (json_text (JObj ?kvs))
      = Inr (sample_tenant, sample_connector, st, map_option time_text hb)" and wf: "wf_json (JObj ?kvs)"
    by (blast intro: decode_json_ok text_limit status_members)+
  let ?row = "row\<lparr>cn_status := st, cn_heartbeat := (case hb of None \<Rightarrow> cn_heartbeat row | Some h \<Rightarrow> Some h), cn_updated := 9\<rparr>"
  let ?d = "cw_db w\<lparr>c_slice := (c_slice (cw_db w))(sample_tenant := (c_slice (cw_db w) sample_tenant)\<lparr>c_conns := [?row]\<rparr>)\<rparr>"
  have u: "update_connector_status sample_connector st hb 9 (c_slice (cw_db w) sample_tenant)
      = Inr ((), (c_slice (cw_db w) sample_tenant)\<lparr>c_conns := [?row]\<rparr>)"
    using assms(2-4) by (simp add: update_connector_status_def count_where_def update_conns_def row_simps Let_def)
  have "one_of st [''online'', ''degraded'', ''offline'']" using assms(5) by (auto simp: one_of_def)
  then have s: "svc_status NoFault 9 (json_text (JObj ?kvs)) (cw_db w) = (Inr (ConsoleStatus 204), ?d)"
    using assms(5) t d u
    by (cases hb) (simp_all add: svc_status_def validate_ids_def sample_strings console_tx_def with_tenant_def tenant_from_context_def
        del: json_text.simps)
  have "client_post (gc_console sample_gateway) (gc_token sample_gateway) ''/internal/v1/connector-status'' (JObj ?kvs) w
      = (Inr JNull, (called w)\<lparr>cw_db := ?d\<rparr>)"
    using assms(1) s wf
    by (intro client_post_ok [where h = "on_db (svc_status NoFault 9 (json_text (JObj ?kvs)))" and st = 204])
      (simp_all add: svc_routes sample_console_def sample_gateway_def on_db_def)
  then have "set_status sample_gateway s st hb w = (called w)\<lparr>cw_db := ?d\<rparr>"
    using assms(6,7) by (simp add: set_status_def client_report_status_def del: json_text.simps)
  with assms(1,3) show ?thesis by simp
qed

section \<open>A sample run\<close>

definition sample_ready :: "console_world \<Rightarrow> bool" where
  "sample_ready w \<longleftrightarrow> cw_fate w = cw_fate sample_console \<and> (\<exists>row. c_conns (c_slice (cw_db w) sample_tenant) = [row]
     \<and> cn_id row = sample_connector \<and> cn_status row \<notin> {''revoked'', ''pending''} \<and> cn_fingerprint row = ''red'')"

lemma sample_console_ready: "sample_ready sample_console"
  by (simp add: sample_ready_def sample_console_def sample_slice_def sample_conn_row_def)

lemma sample_report_ready:
  assumes "sample_ready w" "(st, hb) \<in> {(''online'', Some 7), (''offline'', None)}" "gs_tenant s = sample_tenant" "gs_connector s = sample_connector"
  shows "sample_ready (set_status sample_gateway s st hb w)
    \<and> map cn_status (c_conns (c_slice (cw_db (set_status sample_gateway s st hb w)) sample_tenant)) = [st]"
proof -
  from assms(1) obtain row where row: "cw_fate w = cw_fate sample_console" "c_conns (c_slice (cw_db w) sample_tenant) = [row]"
    "cn_id row = sample_connector" "cn_status row \<notin> {''revoked'', ''pending''}" "cn_fingerprint row = ''red''"
    by (auto simp: sample_ready_def)
  obtain row' where row': "c_conns (c_slice (cw_db (set_status sample_gateway s st hb w)) sample_tenant) = [row']" "cn_id row' = sample_connector"
    "cn_status row' = st" "cn_fingerprint row' = cn_fingerprint row" "cw_fate (set_status sample_gateway s st hb w) = cw_fate sample_console"
    using sample_report [OF row(1-4) assms(2-4)] by blast
  moreover have "st \<notin> {''revoked'', ''pending''}" using assms(2) by auto
  ultimately show ?thesis using row(5) by (simp add: sample_ready_def)
qed

abbreviation sample_arm :: "gw_session \<Rightarrow> gw_session" where
  "sample_arm s \<equiv> s\<lparr>gs_degrade := Some 37, gs_offline := Some 67\<rparr>"

lemma sample_open:
  assumes "sample_ready w"
  obtains w' where "open_session sample_gateway (Some sample_cert) (Some (FrameHello sample_connector)) 7 True g w
    = (Inr (length (gw_sessions g)), on_session (length (gw_sessions g)) sample_arm (registry_add (length (gw_sessions g))
        (g\<lparr>gw_sessions := gw_sessions g @ [new_session sample_connector sample_tenant]\<rparr>)), w')" "sample_ready w'"
proof -
  from assms obtain row where "cw_fate w = cw_fate sample_console" "c_conns (c_slice (cw_db w) sample_tenant) = [row]"
    "cn_id row = sample_connector" "cn_status row \<notin> {''revoked'', ''pending''}" "cn_fingerprint row = ''red''"
    by (auto simp: sample_ready_def)
  note h = sample_handshake [OF this]
  let ?w = "set_status sample_gateway (new_session sample_connector sample_tenant) ''online'' (Some 7) (called w)"
  have "sample_ready (called w)" using assms by (simp add: sample_ready_def)
  from sample_report_ready [OF this, of "''online''" "Some 7" "new_session sample_connector sample_tenant"] have "sample_ready ?w" by simp
  moreover have "cert_fingerprint (gc_sha sample_gateway) sample_cert = ''red''" "cc_cn sample_cert = sample_connector"
    "degraded_after sample_gateway = 30" "gc_offline sample_gateway = 60"
    by (simp_all add: cert_fingerprint_def sample_gateway_def sample_cert_def degraded_after_def)
  ultimately show thesis
    using that h sample_strings by (simp add: open_session_def recv_hello_def Let_def)
qed

text \<open>The connector has come back: session 0 is superseded by session 1.\<close>

definition came_back :: gateway where
  "came_back = \<lparr>gw_sessions = [(sample_arm (new_session sample_connector sample_tenant))\<lparr>gs_drain := Some ''superseded by new session''\<rparr>,
     sample_arm (new_session sample_connector sample_tenant)], gw_registry = (\<lambda>_. None)(sample_connector := Some 1), gw_dispatches = []\<rparr>"

lemma sample_reach: "\<exists>w. gw_reach sample_gateway (came_back, w) \<and> sample_ready w"
proof -
  obtain w1 where w1: "open_session sample_gateway (Some sample_cert) (Some (FrameHello sample_connector)) 7 True empty_gateway sample_console
      = (Inr 0, \<lparr>gw_sessions = [sample_arm (new_session sample_connector sample_tenant)], gw_registry = (\<lambda>_. None)(sample_connector := Some 0),
          gw_dispatches = []\<rparr>, w1)" "sample_ready w1"
    using sample_open [OF sample_console_ready, of empty_gateway] by (auto simp: empty_gateway_def registry_add_def on_session_def)
  let ?g1 = "\<lparr>gw_sessions = [sample_arm (new_session sample_connector sample_tenant)], gw_registry = (\<lambda>_. None)(sample_connector := Some 0),
      gw_dispatches = []\<rparr>"
  obtain w2 where w2: "open_session sample_gateway (Some sample_cert) (Some (FrameHello sample_connector)) 7 True ?g1 w1
      = (Inr 1, came_back, w2)" "sample_ready w2"
    using sample_open [OF w1(2), of ?g1] by (auto simp: came_back_def registry_add_def on_session_def new_session_def signal_drain_def)
  have "gw_reach sample_gateway (?g1, w1)" by (rule reach_step [OF reach_start gw_open [OF w1(1)]])
  from reach_step [OF this gw_open [OF w2(1)]] w2(2) show ?thesis by blast
qed

section \<open>An upload that is stored\<close>

text \<open>The next call reaches the control plane with the right token and no failure of its database.\<close>

definition call_ok :: "gw_config \<Rightarrow> console_world \<Rightarrow> bool" where
  "call_ok cfg w \<longleftrightarrow> gc_uploader cfg \<and> gc_token cfg = sx_token (sf_svc (gc_console cfg)) \<and> sx_store (sf_svc (gc_console cfg))
     \<and> cf_delivery (next_call w) = Arrives \<and> cf_fault (next_call w) = NoFault \<and> cf_fault2 (next_call w) = NoFault"

lemma batch_member: "batch_ok fl b \<Longrightarrow> sub_members ''batch'' [(''batch'', batch_json b), (''connector_id'', JStr c), (''tenant_id'', JStr t)]
    = struct_members (batch_json b)"
  by (simp add: sub_members_def upload_lower batch_json_def struct_members_def as_struct_def)

lemma insert_rows_ok:
  "\<forall>x \<in> set rs. pg_uuid (sr_ds x) \<noteq> None \<Longrightarrow>
     insert_rows rs s = Inr ((), s\<lparr>ts_series := ts_series s @ map (\<lambda>x. x\<lparr>sr_ds := the (pg_uuid (sr_ds x))\<rparr>) rs\<rparr>)"
  by (induction rs arbitrary: s) auto

lemma insert_series_ok:
  "\<forall>x \<in> set rs. pg_uuid (sr_ds x) \<noteq> None \<Longrightarrow> 0 < m \<Longrightarrow>
     insert_series m rs s = Inr ((), s\<lparr>ts_series := ts_series s @ map (\<lambda>x. x\<lparr>sr_ds := the (pg_uuid (sr_ds x))\<rparr>) rs\<rparr>)"
proof (induction m rs s rule: insert_series.induct)
  case (1 m rs s)
  show ?case
  proof (cases "rs = []")
    case True
    then show ?thesis by (simp add: insert_series.simps)
  next
    case False
    have t: "\<forall>x \<in> set (take m rs). pg_uuid (sr_ds x) \<noteq> None" "\<forall>x \<in> set (drop m rs). pg_uuid (sr_ds x) \<noteq> None"
      using 1(2) by (auto dest: in_set_takeD in_set_dropD)
    let ?f = "map (\<lambda>x. x\<lparr>sr_ds := the (pg_uuid (sr_ds x))\<rparr>)"
    have "?f (take m rs) @ ?f (drop m rs) = ?f rs" by (metis append_take_drop_id map_append)
    with insert_rows_ok [OF t(1), of s] 1(1) [OF _ insert_rows_ok [OF t(1), of s] refl t(2) 1(3)] False 1(3)
    show ?thesis by (subst insert_series.simps) simp
  qed
qed

lemma metrics_stored:
  assumes "call_ok cfg w" "sf_sink (gc_console cfg)" "du_kind u = ''metrics''" "du_payload u = json_text (batch_json b)"
    "batch_ok (sf_floats (gc_console cfg)) b" "gs_tenant s \<noteq> []" "gs_connector s \<noteq> []" "ba_ds b \<noteq> []"
    "get_datasource (ba_ds b) (c_slice (cw_db w) (gs_tenant s)) = Inr r" "dr_mode r = ''connector''" "dr_connector r = Some (gs_connector s)"
    "metric_rows b = Inr rows" "rows \<noteq> []" "0 < sf_rows (gc_console cfg)"
    "length (json_text (JObj [(''batch'', batch_json b), (''connector_id'', JStr (gs_connector s)), (''tenant_id'', JStr (gs_tenant s))]))
       \<le> console_body_limit"
  shows "\<exists>w'. handle_data_upload cfg s u w = (None, w') \<and> ts_series (ts_slice (cw_ts w') (gs_tenant s))
    = ts_series (ts_slice (cw_ts w) (gs_tenant s)) @ map (\<lambda>x. x\<lparr>sr_ds := dr_id r\<rparr>) rows"
proof -
  let ?t = "gs_tenant s" and ?c = "gs_connector s" and ?sv = "gc_console cfg"
  let ?kvs = "[(''batch'', batch_json b), (''connector_id'', JStr ?c), (''tenant_id'', JStr ?t)]"
  have wf: "wf_json (JObj ?kvs)" using wf_batch_json [OF assms(5)] by simp
  have "ingest_batch_of (sf_floats ?sv) ?kvs = Some (?t, ?c, b)"
    using batch_of_json [OF assms(5), of True] by (simp add: ingest_batch_of_def upload_fields batch_member [OF assms(5)] as_elem_def)
  then have d: "decode_json [''tenant_id'', ''connector_id'', ''batch''] (ingest_batch_of (sf_floats ?sv)) (json_text (JObj ?kvs)) = Inr (?t, ?c, b)"
    using wf assms(15) by (intro decode_json_ok) (simp_all add: upload_lower)
  have own: "ownership_check NoFault (Some ?t) (ba_ds b) ?c (cw_db w) = Inr ()"
    using assms(6,9-11) by (simp add: ownership_check_def console_tx_def tenant_from_context_def owns_tx_def)
  from assms(9) have id: "pg_uuid (ba_ds b) = Some (dr_id r)" by (auto dest: get_ds_Inr)
  have rows: "sr_ds x = ba_ds b" if "x \<in> set rows" for x
    using that assms(12) by (auto simp: metric_rows_def split: list.splits)
  let ?s1 = "(ts_slice (cw_ts w) ?t)\<lparr>ts_series := ts_series (ts_slice (cw_ts w) ?t) @ map (\<lambda>x. x\<lparr>sr_ds := dr_id r\<rparr>) rows\<rparr>"
  have "\<forall>x \<in> set rows. pg_uuid (sr_ds x) \<noteq> None" using rows id by simp
  from insert_series_ok [OF this assms(14)] rows id
  have "insert_series (sf_rows ?sv) rows (ts_slice (cw_ts w) ?t) = Inr ((), ?s1)" by (simp cong: map_cong)
  then have pub: "ts_publish (sf_rows ?sv) NoFault (Some ?t) b (cw_ts w) = (Inr (), (cw_ts w)\<lparr>ts_slice := (ts_slice (cw_ts w))(?t := ?s1)\<rparr>)"
    using assms(6,12,13) by (simp add: ts_publish_def ts_tx_ok)
  let ?w1 = "(called w)\<lparr>cw_ts := (cw_ts w)\<lparr>ts_slice := (ts_slice (cw_ts w))(?t := ?s1)\<rparr>\<rparr>"
  have "on_ts (ingest_metrics ?sv (next_call w) (json_text (JObj ?kvs))) (called w) = (Inr (ConsoleStatus 202), ?w1)"
    using assms(1,2,6-8) d own pub by (simp add: on_ts_def ingest_metrics_def call_ok_def with_tenant_def del: json_text.simps)
  then have "client_upload_metrics ?sv (gc_token cfg) ?t ?c b w = (Inr JNull, ?w1)"
    unfolding client_upload_metrics_def using assms(1) wf
    by (intro client_post_ok [where h = "on_ts (ingest_metrics ?sv (next_call w) (json_text (JObj ?kvs)))" and st = 202])
      (simp_all add: svc_routes call_ok_def del: json_text.simps)
  with assms(1) have up: "upload_metrics cfg ?t ?c b w = (True, ?w1)" by (simp add: upload_metrics_def call_ok_def)
  have "read_payload (batch_of (sf_floats (gc_console cfg)) False) (du_payload u) = Some b"
    using json_parse_text [OF wf_batch_json [OF assms(5)]] batch_of_json [OF assms(5)] assms(4) by (simp add: read_payload_def)
  with up assms(3) show ?thesis by (simp add: handle_data_upload_def)
qed

definition sample_upload :: "batch \<Rightarrow> data_upload" where
  "sample_upload b = \<lparr>du_cmd = ''c1'', du_ds = ba_ds b, du_kind = ''metrics'', du_payload = json_text (batch_json b)\<rparr>"

lemma sample_call_ok: "call_ok sample_gateway sample_console"
  by (simp add: call_ok_def sample_gateway_def sample_console_def)

lemma sample_stored_facts:
  "batch_ok text_floats sample_batch" "ba_ds sample_batch \<noteq> []" "get_datasource (ba_ds sample_batch) sample_slice = Inr sample_ds_row"
  "dr_mode sample_ds_row = ''connector''" "dr_connector sample_ds_row = Some sample_connector"
  "length (json_text (JObj [(''batch'', batch_json sample_batch), (''connector_id'', JStr sample_connector), (''tenant_id'', JStr sample_tenant)]))
       \<le> console_body_limit"
proof -
  have t: "stamp_text (Some 7) = ''1970-01-01T00:00:00.000007Z''" "time_ok 7"
    using sample_time by (simp_all add: stamp_text_def)
  have v: "valid_num ''100''" by code_simp
  show "batch_ok text_floats sample_batch"
    using t(2) v by (simp add: batch_ok_def sample_batch_def int64_range_def stamp_ok_def metric_ok_def float_ok_def text_floats_def labels_ok_def)
  show "ba_ds sample_batch \<noteq> []" by (simp add: sample_batch_def sample_ds_def)
  show "get_datasource (ba_ds sample_batch) sample_slice = Inr sample_ds_row"
    by (simp add: sample_batch_def get_datasource_def find_ds_def sample_slice_def sample_ds_row_def row_simps)
  show "dr_mode sample_ds_row = ''connector''" "dr_connector sample_ds_row = Some sample_connector" by (simp_all add: sample_ds_row_def)
  let ?b = "JObj [(''datasource_id'', JStr sample_ds), (''engine_family'', JStr ''postgres''), (''catalog_version'', JNum (int_str 1)),
     (''metrics'', JArr [JObj [(''name'', JStr ''db.connections.max''), (''value'', JNum ''100''), (''unit'', JStr ''count''),
        (''at'', JStr ''1970-01-01T00:00:00.000007Z'')]]), (''collected_at'', JStr ''1970-01-01T00:00:00.000007Z''), (''partial'', JBool False)]"
  have b: "batch_json sample_batch = ?b"
    by (simp add: batch_json_def sample_batch_def metric_json_def json_int_def omit_list_def t(1))
  show "length (json_text (JObj [(''batch'', batch_json sample_batch), (''connector_id'', JStr sample_connector), (''tenant_id'', JStr sample_tenant)]))
       \<le> console_body_limit"
    unfolding b by (rule text_limit) code_simp
qed

lemma sample_stored:
  assumes "gs_tenant s = sample_tenant" "gs_connector s = sample_connector"
  shows "\<exists>w'. handle_data_upload sample_gateway s (sample_upload sample_batch) sample_console = (None, w')
    \<and> length (ts_series (ts_slice (cw_ts w') sample_tenant)) = 1"
  using metrics_stored [OF sample_call_ok, of "sample_upload sample_batch" sample_batch s sample_ds_row,
      OF _ _ _ _ _ _ _ _ _ _ sample_metric_rows] sample_stored_facts assms sample_strings
  by (auto simp: sample_gateway_def sample_console_def empty_tstables_def sample_upload_def)

section \<open>What holds of sessions\<close>

text \<open>C27: at most one session serves a connector. In every reachable state of the gateway, the registered session
  of a connector is open and of that connector; any other open session of a connector has its drain signal waiting, so
  that its loop can always take it up, which ends it and leaves the registry alone; and a command that is
  awaited belongs to a dispatch of that session and command whose channel is empty, so that a signal never blocks.\<close>

theorem gateway_sessions:
  assumes "gw_reach cfg (g, w)"
  shows "(\<forall>c sid. gw_registry g c = Some sid \<longrightarrow> sid < length (gw_sessions g) \<and> gs_open (gw_sessions g ! sid)
      \<and> gs_connector (gw_sessions g ! sid) = c)
    \<and> (\<forall>sid < length (gw_sessions g). gs_open (gw_sessions g ! sid) \<and> gw_registry g (gs_connector (gw_sessions g ! sid)) \<noteq> Some sid \<longrightarrow>
        (\<exists>g' w'. loop_step cfg sid EvDrain now g w = Some (g', w') \<and> \<not> gs_open (gw_sessions g' ! sid) \<and> gw_registry g' = gw_registry g))
    \<and> (\<forall>sid < length (gw_sessions g). \<forall>cid n. gs_pending (gw_sessions g ! sid) cid = Some n \<longrightarrow> awaited g sid cid n)"
proof (intro conjI allI impI)
  have inv: "gw_inv g" using reach_inv [OF assms] by simp
  show "sid < length (gw_sessions g)" "gs_open (gw_sessions g ! sid)" "gs_connector (gw_sessions g ! sid) = c"
    if "gw_registry g c = Some sid" for c sid
    using gw_invD(1) [OF inv that] by blast+
  show "awaited g sid cid n" if "sid < length (gw_sessions g)" "gs_pending (gw_sessions g ! sid) cid = Some n" for sid cid n
    using gw_invD(3) [OF inv that] .
  fix sid
  assume s: "sid < length (gw_sessions g)" and o: "gs_open (gw_sessions g ! sid) \<and> gw_registry g (gs_connector (gw_sessions g ! sid)) \<noteq> Some sid"
  with gw_invD(2) [OF inv s] have "gs_drain (gw_sessions g ! sid) \<noteq> None" by blast
  with s o show "\<exists>g' w'. loop_step cfg sid EvDrain now g w = Some (g', w') \<and> \<not> gs_open (gw_sessions g' ! sid) \<and> gw_registry g' = gw_registry g"
    by (auto simp: loop_step_def end_session_def registry_remove_def Let_def)
qed

lemma gateway_sessions_witness:
  "\<exists>w g' w'. gw_registry came_back sample_connector = Some 1 \<and> loop_step sample_gateway 0 EvDrain 8 came_back w = Some (g', w')
    \<and> \<not> gs_open (gw_sessions g' ! 0)"
proof -
  from sample_reach obtain w where w: "gw_reach sample_gateway (came_back, w)" by blast
  have "gw_registry came_back sample_connector = Some 1" "0 < length (gw_sessions came_back)" "gs_open (gw_sessions came_back ! 0)"
    "gw_registry came_back (gs_connector (gw_sessions came_back ! 0)) \<noteq> Some 0"
    by (simp_all add: came_back_def)
  with gateway_sessions [OF w, of 8] show ?thesis by metis
qed

text \<open>A result reaches the dispatch that waits for it. When the connector answers an awaited command of an open
  session, the dispatch that waits for it returns with that result, its entry is gone, and no other dispatch is touched.\<close>

theorem dispatch_answered:
  assumes "gw_reach cfg (g, w)" "sid < length (gw_sessions g)" "gs_open (gw_sessions g ! sid)"
    "gs_pending (gw_sessions g ! sid) (cr_cmd r) = Some n" "dp_phase (gw_dispatches g ! n) = Waiting"
  shows "\<exists>g1 g2. loop_step cfg sid (EvFrame (FrameResult r)) now g w = Some (g1, w) \<and> dispatch_receive n g1 = Some g2
    \<and> dp_phase (gw_dispatches g2 ! n) = Done (command_result_err r) \<and> gs_pending (gw_sessions g2 ! sid) (cr_cmd r) = None
    \<and> (\<forall>m. m < length (gw_dispatches g) \<and> m \<noteq> n \<longrightarrow> gw_dispatches g2 ! m = gw_dispatches g ! m)"
proof -
  have inv: "gw_inv g" using reach_inv [OF assms(1)] by simp
  from gw_invD(3) [OF inv assms(2,4)] have n: "n < length (gw_dispatches g)" "dp_signals (gw_dispatches g ! n) = []"
    by (simp_all add: awaited_def)
  with assms(2-5) show ?thesis
    by (auto simp: loop_step_def on_client_frame_def signal_command_def cancel_command_def dispatch_receive_def Let_def)
qed

lemma dispatch_answered_witness:
  "\<exists>g w g1 g2. gw_reach sample_gateway (g, w)
    \<and> loop_step sample_gateway 1 (EvFrame (FrameResult \<lparr>cr_cmd = ''c1'', cr_stat = StatusOk, cr_code = [], cr_payload = []\<rparr>)) 9 g w = Some (g1, w)
    \<and> dispatch_receive 0 g1 = Some g2 \<and> dp_phase (gw_dispatches g2 ! 0) = Done None"
proof -
  let ?cmd = "\<lparr>cm_id = ''c1'', cm_type = ''ping'', cm_payload = []\<rparr>"
  let ?r = "\<lparr>cr_cmd = ''c1'', cr_stat = StatusOk, cr_code = [], cr_payload = []\<rparr>"
  from sample_reach obtain w where w: "gw_reach sample_gateway (came_back, w)" by blast
  obtain g1 where g1: "dispatch_start sample_connector ?cmd came_back = (Inr 0, g1)" "length (gw_sessions g1) = 2"
      "dp_phase (gw_dispatches g1 ! 0) = Sending" "length (gw_dispatches g1) = 1" "dp_session (gw_dispatches g1 ! 0) = 1"
      "gs_open (gw_sessions g1 ! 1)" "gs_pending (gw_sessions g1 ! 1) ''c1'' = Some 0" "gs_commands (gw_sessions g1 ! 1) = []"
    by (simp add: dispatch_start_def came_back_def await_command_def on_session_def)
  then obtain g2 where g2: "dispatch_send 0 g1 = Some g2" "length (gw_sessions g2) = 2" "gs_open (gw_sessions g2 ! 1)"
      "gs_pending (gw_sessions g2 ! 1) ''c1'' = Some 0" "dp_phase (gw_dispatches g2 ! 0) = Waiting"
    by (simp add: dispatch_send_def Let_def command_buffer_def)
  have r: "gw_reach sample_gateway (g2, w)"
    by (rule reach_step [OF reach_step [OF w gw_start [OF g1(1)]] gw_send [OF g2(1)]])
  have "1 < length (gw_sessions g2)" "gs_pending (gw_sessions g2 ! 1) (cr_cmd ?r) = Some 0" "command_result_err ?r = None"
    using g2 by (simp_all add: command_result_err_def)
  with r dispatch_answered [OF r this(1) g2(3) this(2) g2(5), of 9] show ?thesis by fastforce
qed

text \<open>C26: a session is authenticated. When the gateway opens a session, its first frame was the greeting of the
  connector that the client certificate names, its tenant is the one of the certificate, and the control plane
  has, in that tenant, a connector of that id that is enrolled, not revoked, and whose recorded fingerprint is the
  one of that very certificate. The session is then the registered one of its connector, and the collected data
  are untouched.\<close>

theorem session_authenticated:
  assumes "open_session cfg cert f now acked g w = (Inr sid, g', w')"
  shows "\<exists>c conn tenant. cert = Some c \<and> f = Some (FrameHello conn) \<and> cc_cn c = conn \<and> tenant_from_cert c = Some tenant
    \<and> admitted (c_slice (cw_db w) tenant) conn (cert_fingerprint (gc_sha cfg) c)
    \<and> gw_registry g' conn = Some sid \<and> gs_connector (gw_sessions g' ! sid) = conn \<and> gs_tenant (gw_sessions g' ! sid) = tenant
    \<and> cw_ts w' = cw_ts w"
proof -
  from assms obtain c conn tenant v w1 where c: "cert = Some c" "recv_hello f = Inr conn" "cc_cn c = conn" "tenant_from_cert c = Some tenant"
      "client_handshake (gc_console cfg) (gc_token cfg) tenant conn (cert_fingerprint (gc_sha cfg) c) w = (Inr v, w1)"
    by (auto simp: open_session_def split: option.splits sum.splits if_splits prod.splits)
  let ?g = "registry_add (length (gw_sessions g)) (g\<lparr>gw_sessions := gw_sessions g @ [new_session conn tenant]\<rparr>)"
  let ?arm = "\<lambda>s. s\<lparr>gs_degrade := Some (now + degraded_after cfg), gs_offline := Some (now + gc_offline cfg)\<rparr>"
  have f: "f = Some (FrameHello conn)" using c(2) by (auto simp: recv_hello_def split: option.splits client_frame.splits if_splits)
  from assms c have e: "sid = length (gw_sessions g)" "g' = on_session sid ?arm ?g"
      "w' = set_status cfg (new_session conn tenant) ''online'' (Some now) w1"
    by (auto simp: open_session_def Let_def split: if_splits prod.splits)
  have ts: "cw_ts w1 = cw_ts w" using c(5) unfolding client_handshake_def
    by (rule client_post_world) (auto simp: svc_routes simp del: json_text.simps dest: on_db_simps)
  have len: "sid < length (gw_sessions ?g)" "gw_registry ?g conn = Some sid"
    by (auto simp: registry_add_def Let_def e(1) split: option.splits)
  have upd: "(xs @ [s])[k := h ((xs @ [s]) ! k)] ! length xs = s \<or> (xs @ [s])[k := h ((xs @ [s]) ! k)] ! length xs = h s"
    for xs :: "gw_session list" and s h k by (cases "k = length xs") simp_all
  have n: "gw_sessions ?g ! sid = new_session conn tenant \<or> gw_sessions ?g ! sid = signal_drain ''superseded by new session'' (new_session conn tenant)"
    using upd by (auto simp: registry_add_def Let_def e(1) on_session_def split: option.splits)
  have "gs_connector (gw_sessions ?g ! sid) = conn" "gs_tenant (gw_sessions ?g ! sid) = tenant"
    using n by (auto simp: signal_drain_def)
  with c f e ts len client_handshake_Inr [OF c(5)] show ?thesis by simp
qed

lemma session_authenticated_witness:
  "\<exists>g' w'. open_session sample_gateway (Some sample_cert) (Some (FrameHello sample_connector)) 7 True empty_gateway sample_console = (Inr 0, g', w')
    \<and> admitted (c_slice (cw_db sample_console) sample_tenant) sample_connector ''red'' \<and> gw_registry g' sample_connector = Some 0"
proof -
  obtain g' w' where o: "open_session sample_gateway (Some sample_cert) (Some (FrameHello sample_connector)) 7 True empty_gateway sample_console
      = (Inr 0, g', w')"
    by (rule sample_open [OF sample_console_ready, of empty_gateway]) (simp add: empty_gateway_def)
  have "cert_fingerprint (gc_sha sample_gateway) sample_cert = ''red''" "cc_cn sample_cert = sample_connector"
    by (simp_all add: cert_fingerprint_def sample_gateway_def sample_cert_def)
  with session_authenticated [OF o] o sample_strings(5) show ?thesis by auto
qed

text \<open>C28: what comes in on a session is attributed to it. Whatever frame is taken up, the inventory and the
  connectors of other tenants aside, the collected data change for no tenant but the session's, and there only
  for one datasource, which is reached through a connector, that of the session; the data of every other
  datasource stay as they are.\<close>

theorem uploads_attributed:
  assumes "on_client_frame cfg sid f now g w = (g', w')" "collected_ok (cw_ts w)"
  shows "attributed (gs_tenant (gw_sessions g ! sid)) (gs_connector (gw_sessions g ! sid)) w w'"
proof (cases f)
  case (FrameUpload u)
  from assms(2) have "snaps_ok (ts_slice (cw_ts w) (gs_tenant (gw_sessions g ! sid)))" by (simp add: collected_ok_def)
  with assms(1) FrameUpload handle_upload_attributed show ?thesis
    by (auto simp: on_client_frame_def Let_def split: prod.splits)
qed (use assms(1) in \<open>auto simp: on_client_frame_def Let_def attributed_def\<close>)

lemma uploads_attributed_witness:
  "\<exists>g' w'. on_client_frame sample_gateway 1 (FrameUpload (sample_upload sample_batch)) 8 came_back sample_console = (g', w')
    \<and> attributed sample_tenant sample_connector sample_console w' \<and> length (ts_series (ts_slice (cw_ts w') sample_tenant)) = 1"
proof -
  let ?s = "gw_sessions came_back ! 1"
  obtain w' where h: "handle_data_upload sample_gateway ?s (sample_upload sample_batch) sample_console = (None, w')"
    "length (ts_series (ts_slice (cw_ts w') sample_tenant)) = 1"
    using sample_stored [of ?s] by (auto simp: came_back_def)
  have u: "on_client_frame sample_gateway 1 (FrameUpload (sample_upload sample_batch)) 8 came_back sample_console
      = (signal_command 1 (du_cmd (sample_upload sample_batch)) None came_back, w')"
    using h(1) by (simp add: on_client_frame_def Let_def)
  have "collected_ok (cw_ts sample_console)"
    by (simp add: sample_console_def collected_ok_def empty_tstables_def readings_ok_def snaps_ok_def ent_keys_def)
  from uploads_attributed [OF u this] u h(2) show ?thesis by (simp add: came_back_def)
qed

text \<open>Collected data arrive. A batch that a connector prints and uploads on its session for a datasource of its own, with
  readings of declared series, is decoded by the gateway, sent to the control plane, decoded and checked there and
  stored: the dispatch is signalled success, and the tenant's series are extended by exactly the readings of the
  batch, in order, with the datasource's id in its canonical form.\<close>

theorem upload_stored:
  assumes "call_ok cfg w" "sf_sink (gc_console cfg)" "du_kind u = ''metrics''" "du_payload u = json_text (batch_json b)"
    "batch_ok (sf_floats (gc_console cfg)) b" "gs_tenant s \<noteq> []" "gs_connector s \<noteq> []" "ba_ds b \<noteq> []"
    "get_datasource (ba_ds b) (c_slice (cw_db w) (gs_tenant s)) = Inr r" "dr_mode r = ''connector''" "dr_connector r = Some (gs_connector s)"
    "metric_rows b = Inr rows" "rows \<noteq> []" "0 < sf_rows (gc_console cfg)"
    "length (json_text (JObj [(''batch'', batch_json b), (''connector_id'', JStr (gs_connector s)), (''tenant_id'', JStr (gs_tenant s))]))
       \<le> console_body_limit"
  shows "\<exists>w'. handle_data_upload cfg s u w = (None, w') \<and> ts_series (ts_slice (cw_ts w') (gs_tenant s))
    = ts_series (ts_slice (cw_ts w) (gs_tenant s)) @ map (\<lambda>x. x\<lparr>sr_ds := dr_id r\<rparr>) rows"
  using assms by (rule metrics_stored)

lemma upload_stored_witness:
  "\<exists>w'. handle_data_upload sample_gateway (new_session sample_connector sample_tenant) (sample_upload sample_batch) sample_console = (None, w')
    \<and> length (ts_series (ts_slice (cw_ts w') sample_tenant)) = 1"
proof -
  from upload_stored [OF sample_call_ok, of "sample_upload sample_batch" sample_batch "new_session sample_connector sample_tenant" sample_ds_row,
      OF _ _ _ _ _ _ _ _ _ _ sample_metric_rows] sample_stored_facts
  show ?thesis by (auto simp: sample_gateway_def sample_console_def empty_tstables_def sample_strings sample_upload_def)
qed

section \<open>A status that is not true\<close>

text \<open>A connector that has come back is reported offline by its superseded session, although its new session is
  registered and open: the deferred status does not depend on whether the session is still the registered one.\<close>

lemma superseded_reports_offline:
  "\<exists>g w. gw_reach sample_gateway (g, w) \<and> gw_registry g sample_connector = Some 1 \<and> gs_open (gw_sessions g ! 1)
    \<and> map cn_status (c_conns (c_slice (cw_db w) sample_tenant)) = [''offline'']"
proof -
  from sample_reach obtain w where w: "gw_reach sample_gateway (came_back, w)" "sample_ready w" by blast
  let ?s = "(sample_arm (new_session sample_connector sample_tenant))\<lparr>gs_drain := None\<rparr>"
  obtain g where g: "loop_step sample_gateway 0 EvDrain 8 came_back w = Some (g, set_status sample_gateway ?s ''offline'' None w)"
    "gw_registry g sample_connector = Some 1" "gs_open (gw_sessions g ! 1)"
    by (simp add: came_back_def loop_step_def end_session_def registry_remove_def on_session_def Let_def)
  have "map cn_status (c_conns (c_slice (cw_db (set_status sample_gateway ?s ''offline'' None w)) sample_tenant)) = [''offline'']"
    using sample_report_ready [OF w(2), of "''offline''" None ?s] by simp
  with reach_step [OF w(1) gw_loop [OF g(1)]] g(2,3) show ?thesis
    by (intro exI [of _ g] exI [of _ "set_status sample_gateway ?s ''offline'' None w"]) simp
qed

end
