(* ===== verification/Collect.thy ===== *)
theory Collect
  imports Connector GatewayRuns
begin

text \<open>
  A collection through a connector, from end to end: the trigger of the control plane's collector
  (\<^verbatim>\<open>console/internal/collector/gatewayclient.go\<close>), the gateway's handler of it
  (\<^verbatim>\<open>gateway/internal/accept/collect.go\<close>), the command to the connector, its probe, the upload
  and the stored readings.
\<close>

section \<open>collect.go\<close>

record collect_request =
  qc_connector :: string
  qc_ds :: string
  qc_family :: string
  qc_kind :: string

definition collect_request_of :: "(string \<times> json) list \<Rightarrow> collect_request option" where
  "collect_request_of kvs = (case (str_field ''connector_id'' kvs, str_field ''datasource_id'' kvs, str_field ''engine_family'' kvs,
       str_field ''kind'' kvs) of
     (Some c, Some d, Some f, Some k) \<Rightarrow> Some \<lparr>qc_connector = c, qc_ds = d, qc_family = f, qc_kind = k\<rparr> | _ \<Rightarrow> None)"

definition collect_command_for_kind :: "string \<Rightarrow> string option" where
  "collect_command_for_kind = map_of [(''metrics'', ''PROBE_METRICS''), (''slowlog'', ''PROBE_SLOWLOG''), (''schema'', ''PROBE_SCHEMA''),
     (''config'', ''PROBE_CONFIG'')]"

definition collect_payload :: "collect_request \<Rightarrow> string" where
  "collect_payload q = json_text (JObj [(''datasource_id'', JStr (qc_ds q)), (''engine_family'', JStr (qc_family q))])"

definition new_command_id :: "string \<Rightarrow> string" where
  "new_command_id rnd = ''cmd_'' @ rnd"

text \<open>A refusal with status and code, or the connector, the kind and the command to dispatch. \<open>rnd\<close> is the hex of
  twelve random bytes.\<close>

definition collect_prepare :: "string \<Rightarrow> string \<Rightarrow> string \<Rightarrow> string \<Rightarrow> (nat \<times> string) + string \<times> string \<times> command" where
  "collect_prepare token auth rnd body = (if auth \<noteq> ''Bearer '' @ token then Inl (401, ''AR_SVC_UNAUTHENTICATED'')
     else (case Option.bind (json_first (take console_body_limit body)) (as_elem collect_request_of) of
         None \<Rightarrow> Inl (400, ''AR_VALIDATION_FAILED'')
       | Some q \<Rightarrow> if qc_connector q = [] \<or> qc_ds q = [] then Inl (400, ''AR_VALIDATION_FAILED'')
           else (let kind = (if qc_kind q = [] then ''metrics'' else qc_kind q) in
             case collect_command_for_kind kind of None \<Rightarrow> Inl (400, ''AR_COLLECT_UNSUPPORTED_KIND'')
             | Some t \<Rightarrow> Inr (qc_connector q, kind, \<lparr>cm_id = new_command_id rnd, cm_type = t, cm_payload = collect_payload q\<rparr>))))"

text \<open>What the dispatch came to, with the text of its error.\<close>

datatype dispatch_outcome = DispatchOk | DispatchOffline | DispatchTimeout | DispatchFailed string

fun signal_text :: "go_error \<Rightarrow> string" where
  "signal_text (Plain s) = s"
| "signal_text (Wrapf s e) = s @ '': '' @ signal_text e"
| "signal_text _ = []"

definition outcome_of :: "dispatch_phase \<Rightarrow> dispatch_outcome option" where
  "outcome_of ph = (case ph of Done None \<Rightarrow> Some DispatchOk | Done (Some e) \<Rightarrow> Some (DispatchFailed (signal_text e))
     | Expired \<Rightarrow> Some DispatchTimeout | _ \<Rightarrow> None)"

definition timeout_code_for :: "string \<Rightarrow> string" where
  "timeout_code_for kind = (if kind = ''metrics'' then ''AR_METRICS_COLLECT_FAILED'' else ''AR_SNAPSHOT_COLLECT_FAILED'')"

definition dispatch_err_code :: "string \<Rightarrow> string \<Rightarrow> string" where
  "dispatch_err_code code kind = (if has_prefix code ''AR_'' then takeWhile (\<lambda>c. c \<noteq> CHR '':'') code else timeout_code_for kind)"

definition collect_answer :: "string \<Rightarrow> dispatch_outcome \<Rightarrow> nat \<times> string" where
  "collect_answer kind r = (case r of DispatchOk \<Rightarrow> (200, []) | DispatchOffline \<Rightarrow> (503, ''AR_CONNECTOR_OFFLINE'')
     | DispatchTimeout \<Rightarrow> (504, timeout_code_for kind) | DispatchFailed e \<Rightarrow> (502, dispatch_err_code e kind))"

definition collect_body :: "nat \<times> string \<Rightarrow> json" where
  "collect_body a = JObj (if fst a = 200 then [(''status'', JStr ''ok'')] else [(''code'', JStr (snd a)), (''message'', JStr (snd a))])"

section \<open>gatewayclient.go\<close>

definition trigger_body :: "collect_request \<Rightarrow> string" where
  "trigger_body q = json_text (JObj [(''connector_id'', JStr (qc_connector q)), (''datasource_id'', JStr (qc_ds q)),
     (''engine_family'', JStr (qc_family q)), (''kind'', JStr (qc_kind q))])"

definition gateway_err_code :: "string \<Rightarrow> string" where
  "gateway_err_code payload = (case Option.bind (json_parse payload) (as_elem (str_field ''code'')) of
     Some c \<Rightarrow> if c \<noteq> [] then c else take 200 payload | None \<Rightarrow> take 200 payload)"

text \<open>The answer, when one arrives, to an error or none.\<close>

definition trigger_result :: "(nat \<times> string) option \<Rightarrow> go_error option" where
  "trigger_result a = (case a of None \<Rightarrow> Some (Wrapf ''collector: gateway collect'' (Plain ''net''))
     | Some (st, body) \<Rightarrow> if st = 200 then None
         else Some (Wrapf (''collector: gateway collect status '' @ nat_str st) (Plain (gateway_err_code body))))"

section \<open>From trigger to readings\<close>

lemma catalogue_series: "e \<in> set postgres_catalog \<Longrightarrow> validate_series_entity (ca_name e) [] = None"
proof -
  have "list_all (\<lambda>e. validate_series_entity (ca_name e) [] = None) postgres_catalog" by code_simp
  then show "e \<in> set postgres_catalog \<Longrightarrow> ?thesis" by (simp add: list_all_iff)
qed

definition reading_rows :: "string \<Rightarrow> batch \<Rightarrow> series_row list" where
  "reading_rows i b = map (\<lambda>m. \<lparr>sr_ds = i, sr_name = me_name m, sr_entity = [], sr_value = me_value m, sr_at = me_at m\<rparr>) (ba_metrics b)"

lemma probe_rows:
  assumes "collect_metrics q ds family now = Inr b"
  shows "metric_rows b = Inr (reading_rows ds b)" "ba_metrics b \<noteq> []" "ba_ds b = ds"
proof -
  have "\<exists>e \<in> set postgres_catalog. me_name m = ca_name e" if "m \<in> set (ba_metrics b)" for m
    using assms that
    by (auto simp: collect_metrics_def catalog_for_def Let_def List.map_filter_def split: option.splits if_splits) blast
  then have "List.map_filter (\<lambda>m. validate_series_entity (me_name m) []) (ba_metrics b) = []"
    unfolding map_filter_empty using catalogue_series by metis
  moreover show "ba_metrics b \<noteq> []" "ba_ds b = ds"
    using assms by (auto simp: collect_metrics_def Let_def split: option.splits if_splits)
  ultimately show "metric_rows b = Inr (reading_rows ds b)" by (simp add: metric_rows_def reading_rows_def)
qed

lemma collect_lower: "to_lower ''connector_id'' = ''connector_id''" "to_lower ''datasource_id'' = ''datasource_id''"
  "to_lower ''engine_family'' = ''engine_family''" "to_lower ''kind'' = ''kind''"
  by code_simp+

lemma payload_read: "read_payload probe_request_of (collect_payload q) = Some \<lparr>pq_ds = qc_ds q, pq_family = qc_family q\<rparr>"
proof -
  have "json_parse (collect_payload q) = Some (JObj [(''datasource_id'', JStr (qc_ds q)), (''engine_family'', JStr (qc_family q))])"
    unfolding collect_payload_def by (rule json_parse_text) simp
  then show ?thesis
    by (simp add: read_payload_def probe_request_of_def str_field_def dec_field_def as_str_def collect_lower)
qed

lemma trigger_prepared:
  assumes "qc_connector q \<noteq> []" "qc_ds q \<noteq> []" "collect_command_for_kind (qc_kind q) = Some t" "length (trigger_body q) \<le> console_body_limit"
  shows "collect_prepare token (''Bearer '' @ token) rnd (trigger_body q)
    = Inr (qc_connector q, qc_kind q, \<lparr>cm_id = new_command_id rnd, cm_type = t, cm_payload = collect_payload q\<rparr>)"
proof -
  let ?kvs = "[(''connector_id'', JStr (qc_connector q)), (''datasource_id'', JStr (qc_ds q)),
     (''engine_family'', JStr (qc_family q)), (''kind'', JStr (qc_kind q))]"
  have "json_first (trigger_body q) = Some (JObj ?kvs)" unfolding trigger_body_def by (rule json_first_text) simp
  moreover have "as_elem collect_request_of (JObj ?kvs) = Some q"
    by (simp add: collect_request_of_def str_field_def dec_field_def as_str_def collect_lower)
  moreover have "qc_kind q \<noteq> []" using assms(3) by (auto simp: collect_command_for_kind_def)
  ultimately show ?thesis using assms by (simp add: collect_prepare_def Let_def)
qed

text \<open>The connector's chain answers a metrics probe that has readings with their upload.\<close>

lemma probe_uploaded:
  assumes "collect_metrics (query_metric_db (pe_metric pe)) (qc_ds q) (qc_family q) (pe_now pe) = Inr b" "batch_ok fl b"
  shows "chain_handle [db_handle pe] \<lparr>cm_id = cid, cm_type = ''PROBE_METRICS'', cm_payload = collect_payload q\<rparr>
    = FrameUpload \<lparr>du_cmd = cid, du_ds = qc_ds q, du_kind = ''metrics'', du_payload = json_text (batch_json b)\<rparr>"
  using assms wf_batch_json [OF assms(2)]
  by (simp add: db_handle_def handle_metrics_def decode_probe_request_def payload_read upload_frame_def marshal_def)

text \<open>A dispatch whose command has gone out waits for it.\<close>

lemma dispatched:
  assumes "gw_inv g" "gw_registry g conn = Some sid" "gs_commands (gw_sessions g ! sid) = []"
  obtains g1 g2 g3 where "dispatch_start conn cmd g = (Inr (length (gw_dispatches g)), g1)"
    "dispatch_send (length (gw_dispatches g)) g1 = Some g2" "loop_step cfg sid (EvCommand True) now g2 w = Some (g3, w)"
    "length (gw_sessions g3) = length (gw_sessions g)" "gs_open (gw_sessions g3 ! sid)" "length (gw_dispatches g3) = Suc (length (gw_dispatches g))"
    "gs_pending (gw_sessions g3 ! sid) (cm_id cmd) = Some (length (gw_dispatches g))"
    "dp_phase (gw_dispatches g3 ! length (gw_dispatches g)) = Waiting" "dp_signals (gw_dispatches g3 ! length (gw_dispatches g)) = []"
    "gs_tenant (gw_sessions g3 ! sid) = gs_tenant (gw_sessions g ! sid)" "gs_connector (gw_sessions g3 ! sid) = conn"
proof -
  let ?n = "length (gw_dispatches g)"
  note r = gw_invD(1) [OF assms(1,2)]
  obtain g1 where g1: "dispatch_start conn cmd g = (Inr ?n, g1)" "length (gw_sessions g1) = length (gw_sessions g)"
    "length (gw_dispatches g1) = Suc ?n" "gw_dispatches g1 ! ?n = \<lparr>dp_session = sid, dp_command = cmd, dp_phase = Sending, dp_signals = []\<rparr>"
    "gw_sessions g1 ! sid = (gw_sessions g ! sid)\<lparr>gs_pending := (gs_pending (gw_sessions g ! sid))(cm_id cmd := Some ?n)\<rparr>"
    using assms(2) r by (simp add: dispatch_start_def await_command_def Let_def)
  obtain g2 where g2: "dispatch_send ?n g1 = Some g2" "length (gw_sessions g2) = length (gw_sessions g)" "length (gw_dispatches g2) = Suc ?n"
    "gw_dispatches g2 ! ?n = \<lparr>dp_session = sid, dp_command = cmd, dp_phase = Waiting, dp_signals = []\<rparr>"
    "gw_sessions g2 ! sid = (gw_sessions g1 ! sid)\<lparr>gs_commands := [cmd]\<rparr>"
    using g1 r assms(3) by (simp add: dispatch_send_def Let_def command_buffer_def)
  obtain g3 where g3: "loop_step cfg sid (EvCommand True) now g2 w = Some (g3, w)" "length (gw_sessions g3) = length (gw_sessions g)"
    "gw_dispatches g3 = gw_dispatches g2" "gw_sessions g3 ! sid = (gw_sessions g2 ! sid)\<lparr>gs_commands := []\<rparr>"
    using g2 g1(5) r by (simp add: loop_step_def Let_def)
  show thesis by (rule that [OF g1(1) g2(1) g3(1)]) (use g1 g2 g3 r in simp_all)
qed

text \<open>C29: a triggered collection arrives. When the control plane's collector triggers a metrics collection of a
  datasource at a connector with a session and an idle queue, the gateway accepts the trigger and dispatches the
  probe's command; the connector's handlers, whose probe gets readings from its database, answer with an upload;
  the gateway takes it up, the control plane stores it, the dispatch returns and the trigger is answered with
  success; and the readings stored for the tenant are then extended by exactly those of the probe.\<close>

theorem collect_end_to_end:
  assumes "gw_reach cfg (g, w)" "gw_registry g (qc_connector q) = Some sid" "gs_commands (gw_sessions g ! sid) = []"
    "qc_kind q = ''metrics''" "qc_connector q \<noteq> []" "qc_ds q \<noteq> []" "length (trigger_body q) \<le> console_body_limit"
    "collect_metrics (query_metric_db (pe_metric pe)) (qc_ds q) (qc_family q) (pe_now pe) = Inr b"
    "batch_ok (sf_floats (gc_console cfg)) b"
    "call_ok cfg w" "sf_sink (gc_console cfg)" "0 < sf_rows (gc_console cfg)" "gs_tenant (gw_sessions g ! sid) \<noteq> []"
    "get_datasource (qc_ds q) (c_slice (cw_db w) (gs_tenant (gw_sessions g ! sid))) = Inr r" "dr_mode r = ''connector''"
    "dr_connector r = Some (qc_connector q)"
    "length (json_text (JObj [(''batch'', batch_json b), (''connector_id'', JStr (qc_connector q)),
       (''tenant_id'', JStr (gs_tenant (gw_sessions g ! sid)))])) \<le> console_body_limit"
  shows "\<exists>cmd g1 g2 g3 g4 g5 w'.
      collect_prepare token (''Bearer '' @ token) rnd (trigger_body q) = Inr (qc_connector q, ''metrics'', cmd)
    \<and> dispatch_start (qc_connector q) cmd g = (Inr (length (gw_dispatches g)), g1)
    \<and> dispatch_send (length (gw_dispatches g)) g1 = Some g2 \<and> loop_step cfg sid (EvCommand True) now g2 w = Some (g3, w)
    \<and> loop_step cfg sid (EvFrame (chain_handle [db_handle pe] cmd)) now g3 w = Some (g4, w')
    \<and> dispatch_receive (length (gw_dispatches g)) g4 = Some g5
    \<and> map_option (collect_answer ''metrics'') (outcome_of (dp_phase (gw_dispatches g5 ! length (gw_dispatches g)))) = Some (200, [])
    \<and> ts_series (ts_slice (cw_ts w') (gs_tenant (gw_sessions g ! sid)))
        = ts_series (ts_slice (cw_ts w) (gs_tenant (gw_sessions g ! sid))) @ reading_rows (dr_id r) b"
proof -
  let ?n = "length (gw_dispatches g)" and ?t = "gs_tenant (gw_sessions g ! sid)"
  let ?cmd = "\<lparr>cm_id = new_command_id rnd, cm_type = ''PROBE_METRICS'', cm_payload = collect_payload q\<rparr>"
  let ?u = "\<lparr>du_cmd = new_command_id rnd, du_ds = qc_ds q, du_kind = ''metrics'', du_payload = json_text (batch_json b)\<rparr>"
  have inv: "gw_inv g" using reach_inv [OF assms(1)] by simp
  have prep: "collect_prepare token (''Bearer '' @ token) rnd (trigger_body q) = Inr (qc_connector q, ''metrics'', ?cmd)"
    using trigger_prepared [OF assms(5,6) _ assms(7)] assms(4) by (simp add: collect_command_for_kind_def)
  obtain g1 g2 g3 where d: "dispatch_start (qc_connector q) ?cmd g = (Inr ?n, g1)" "dispatch_send ?n g1 = Some g2"
    "loop_step cfg sid (EvCommand True) now g2 w = Some (g3, w)" "length (gw_sessions g3) = length (gw_sessions g)"
    "gs_open (gw_sessions g3 ! sid)" "length (gw_dispatches g3) = Suc ?n" "gs_pending (gw_sessions g3 ! sid) (cm_id ?cmd) = Some ?n"
    "dp_phase (gw_dispatches g3 ! ?n) = Waiting" "dp_signals (gw_dispatches g3 ! ?n) = []" "gs_tenant (gw_sessions g3 ! sid) = ?t"
    "gs_connector (gw_sessions g3 ! sid) = qc_connector q"
    by (rule dispatched [OF inv assms(2,3)])
  note p = probe_rows [OF assms(8)]
  obtain w' where w': "handle_data_upload cfg (gw_sessions g3 ! sid) ?u w = (None, w')" "ts_series (ts_slice (cw_ts w') ?t)
      = ts_series (ts_slice (cw_ts w) ?t) @ map (\<lambda>x. x\<lparr>sr_ds := dr_id r\<rparr>) (reading_rows (qc_ds q) b)"
    using metrics_stored [of cfg w ?u b "gw_sessions g3 ! sid" r "reading_rows (qc_ds q) b"] assms(5,6,9-17) p d(10,11)
    by (auto simp: reading_rows_def)
  have rows: "map (\<lambda>x. x\<lparr>sr_ds := dr_id r\<rparr>) (reading_rows (qc_ds q) b) = reading_rows (dr_id r) b" by (simp add: reading_rows_def)
  have sid: "sid < length (gw_sessions g3)" using gw_invD(1) [OF inv assms(2)] d(4) by simp
  obtain g4 where g4: "loop_step cfg sid (EvFrame (FrameUpload ?u)) now g3 w = Some (g4, w')" "length (gw_dispatches g4) = Suc ?n"
    "dp_phase (gw_dispatches g4 ! ?n) = Waiting" "dp_signals (gw_dispatches g4 ! ?n) = [None]"
    using sid d(5-9) w'(1) by (simp add: loop_step_def on_client_frame_def signal_command_def cancel_command_def Let_def)
  obtain g5 where g5: "dispatch_receive ?n g4 = Some g5" "dp_phase (gw_dispatches g5 ! ?n) = Done None"
    using g4 by (simp add: dispatch_receive_def Let_def)
  show ?thesis
    by (intro exI [of _ ?cmd] exI [of _ g1] exI [of _ g2] exI [of _ g3] exI [of _ g4] exI [of _ g5] exI [of _ w'])
      (use prep d(1-3) g4(1) g5 w'(2) rows probe_uploaded [OF assms(8,9), of "new_command_id rnd"]
        in \<open>simp add: outcome_of_def collect_answer_def\<close>)
qed

definition sample_probe :: probe_env where
  "sample_probe = \<lparr>pe_metric = (\<lambda>s. Some (if s = MainSql ''db.connections.max'' then Some ''100'' else None)), pe_rows = (\<lambda>_. None),
     pe_now = 7, pe_floats = text_floats\<rparr>"

definition sample_trigger :: collect_request where
  "sample_trigger = \<lparr>qc_connector = sample_connector, qc_ds = sample_ds, qc_family = ''postgres'', qc_kind = ''metrics''\<rparr>"

definition sample_probed :: batch where
  "sample_probed = \<lparr>ba_ds = sample_ds, ba_family = ''postgres'', ba_catalog = 1, ba_metrics = [\<lparr>me_name = ''db.connections.max'',
     me_value = ''100'', me_unit = ''count'', me_labels = [(''datasource_id'', sample_ds)], me_at = Some 7\<rparr>], ba_at = Some 7,
     ba_partial = True, ba_missing = map ca_name (filter (\<lambda>e. ca_name e \<noteq> ''db.connections.max'') postgres_catalog)\<rparr>"

lemma sample_collected: "collect_metrics (query_metric_db (pe_metric sample_probe)) (qc_ds sample_trigger) (qc_family sample_trigger)
    (pe_now sample_probe) = Inr sample_probed"
  by code_simp

lemma sample_probed_facts:
  "batch_ok text_floats sample_probed" "length (trigger_body sample_trigger) \<le> console_body_limit"
  "length (json_text (JObj [(''batch'', batch_json sample_probed), (''connector_id'', JStr sample_connector), (''tenant_id'', JStr sample_tenant)]))
       \<le> console_body_limit"
proof -
  have t: "stamp_text (Some 7) = ''1970-01-01T00:00:00.000007Z''" using sample_time(1) by (simp add: stamp_text_def)
  have v: "valid_num ''100''" "labels_ok [(''datasource_id'', sample_ds)]" by code_simp+
  show "batch_ok text_floats sample_probed"
    using sample_time(3) v by (simp add: batch_ok_def sample_probed_def int64_range_def stamp_ok_def metric_ok_def float_ok_def text_floats_def)
  show "length (trigger_body sample_trigger) \<le> console_body_limit" by (rule text_limit) code_simp
  let ?missing = "[''db.connections.active'', ''db.connections.total'', ''db.transactions.commit_total'', ''db.transactions.rollback_total'',
     ''db.cache.hit_ratio'', ''db.locks.waiting'', ''db.transactions.longest_seconds'', ''db.storage.size_bytes'',
     ''db.replication.lag_seconds'', ''pg.replication.lag_bytes'']"
  have m: "map ca_name (filter (\<lambda>e. ca_name e \<noteq> ''db.connections.max'') postgres_catalog) = ?missing" by code_simp
  let ?b = "JObj [(''datasource_id'', JStr sample_ds), (''engine_family'', JStr ''postgres''), (''catalog_version'', JNum (int_str 1)),
     (''metrics'', JArr [JObj [(''name'', JStr ''db.connections.max''), (''value'', JNum ''100''), (''unit'', JStr ''count''),
        (''labels'', JObj [(''datasource_id'', JStr sample_ds)]), (''at'', JStr ''1970-01-01T00:00:00.000007Z'')]]),
     (''collected_at'', JStr ''1970-01-01T00:00:00.000007Z''), (''partial'', JBool True), (''missing'', JArr (map JStr ?missing))]"
  have b: "batch_json sample_probed = ?b"
    by (simp add: batch_json_def sample_probed_def metric_json_def json_int_def omit_list_def t m)
  show "length (json_text (JObj [(''batch'', batch_json sample_probed), (''connector_id'', JStr sample_connector), (''tenant_id'', JStr sample_tenant)]))
       \<le> console_body_limit"
    unfolding b by (rule text_limit) code_simp
qed

lemma collect_end_to_end_witness:
  "\<exists>g4 g3 cmd w'. loop_step sample_gateway 1 (EvFrame (chain_handle [db_handle sample_probe] cmd)) 8 g3 sample_console = Some (g4, w')
    \<and> ts_series (ts_slice (cw_ts w') sample_tenant) = reading_rows sample_ds sample_probed"
proof -
  obtain w where "gw_reach sample_gateway (came_back, w)" using sample_reach by blast
  then have r: "gw_reach sample_gateway (came_back, sample_console)" by (rule reach_step [OF _ gw_elsewhere])
  have s: "gw_sessions came_back ! 1 = sample_arm (new_session sample_connector sample_tenant)"
    "gw_registry came_back (qc_connector sample_trigger) = Some 1" by (simp_all add: came_back_def sample_trigger_def)
  have d: "get_datasource (qc_ds sample_trigger) sample_slice = Inr sample_ds_row" "dr_id sample_ds_row = sample_ds"
    using sample_stored_facts(3) by (simp_all add: sample_batch_def sample_trigger_def sample_ds_row_def)
  have q: "qc_kind sample_trigger = ''metrics''" "qc_connector sample_trigger = sample_connector" "qc_ds sample_trigger \<noteq> []"
    by (simp_all add: sample_trigger_def sample_ds_def)
  from collect_end_to_end [OF r s(2), of sample_probe sample_probed sample_ds_row "''tok''" "''00''" 8]
  show ?thesis
    using s q d sample_collected sample_probed_facts sample_call_ok sample_stored_facts(4,5) sample_strings
    by (simp add: sample_console_def sample_gateway_def empty_tstables_def) metis
qed

end
