(* ===== verification/GoDuration.thy ===== *)
theory GoDuration
  imports GoTime
begin

text \<open>
  The durations of the Go standard library, in nanoseconds: \<open>time.ParseDuration\<close> and \<open>Duration.String\<close>.
\<close>

section \<open>Parsing\<close>

text \<open>\<open>time.ParseDuration\<close>: a sign, then numbers with a unit. The product of a fraction with its unit is rounded by
  floating point, which is a parameter.\<close>

definition dur_bound :: nat where "dur_bound = 2 ^ 63"

fun leading_int :: "string \<Rightarrow> nat \<Rightarrow> (nat \<times> string) option" where
  "leading_int [] x = Some (x, [])"
| "leading_int (c # cs) x = (if \<not> is_digit c then Some (x, c # cs)
     else if dur_bound div 10 < x \<or> dur_bound < x * 10 + digit_val c then None else leading_int cs (x * 10 + digit_val c))"

text \<open>Digits that no longer fit are skipped.\<close>

fun leading_fraction :: "string \<Rightarrow> nat \<Rightarrow> nat \<Rightarrow> bool \<Rightarrow> nat \<times> nat \<times> string" where
  "leading_fraction [] x scale ov = (x, scale, [])"
| "leading_fraction (c # cs) x scale ov = (if \<not> is_digit c then (x, scale, c # cs)
     else if ov \<or> (dur_bound - 1) div 10 < x \<or> dur_bound < x * 10 + digit_val c then leading_fraction cs x scale True
     else leading_fraction cs (x * 10 + digit_val c) (scale * 10) False)"

definition dur_unit :: "string \<Rightarrow> nat option" where
  "dur_unit = map_of [(''ns'', 1), (''us'', 1000), ([CHR 0xC2, CHR 0xB5, CHR ''s''], 1000), ([CHR 0xCE, CHR 0xBC, CHR ''s''], 1000),
     (''ms'', 1000000), (''s'', 1000000000), (''m'', 60000000000), (''h'', 3600000000000)]"

definition unit_char :: "char \<Rightarrow> bool" where
  "unit_char c \<longleftrightarrow> c \<noteq> CHR ''.'' \<and> \<not> is_digit c"

text \<open>One number with its unit, and the rest.\<close>

definition dur_part :: "(nat \<Rightarrow> nat \<Rightarrow> nat \<Rightarrow> nat) \<Rightarrow> string \<Rightarrow> (nat \<times> string) option" where
  "dur_part frac s = (if s = [] \<or> unit_char (hd s) then None else (case leading_int s 0 of None \<Rightarrow> None
     | Some (v, s1) \<Rightarrow> (let pre = (s1 \<noteq> s);
           (f, scale, s2) = (if s1 \<noteq> [] \<and> hd s1 = CHR ''.'' then leading_fraction (tl s1) 0 1 False else (0, 1, s1));
           post = (s1 \<noteq> [] \<and> hd s1 = CHR ''.'' \<and> s2 \<noteq> tl s1)
         in if \<not> pre \<and> \<not> post then None
            else (case dur_unit (takeWhile unit_char s2) of None \<Rightarrow> None
              | Some u \<Rightarrow> if dur_bound div u < v then None
                  else (let w = v * u + (if 0 < f then frac f scale u else 0)
                    in if dur_bound < w then None else Some (w, dropWhile unit_char s2))))))"

lemma leading_int_shorter: "leading_int s x = Some (v, r) \<Longrightarrow> length r \<le> length s"
  by (induction s x arbitrary: v r rule: leading_int.induct) (auto split: if_splits simp: le_Suc_eq)

lemma leading_fraction_shorter: "length (snd (snd (leading_fraction s x sc ov))) \<le> length s"
  by (induction s x sc ov rule: leading_fraction.induct) auto

lemma dur_part_shorter: "dur_part frac s = Some (w, r) \<Longrightarrow> length r < length s"
proof -
  assume p: "dur_part frac s = Some (w, r)"
  then obtain v s1 where s1: "leading_int s 0 = Some (v, s1)" by (auto simp: dur_part_def split: if_splits option.splits)
  define s2 where "s2 = (if s1 \<noteq> [] \<and> hd s1 = CHR ''.'' then snd (snd (leading_fraction (tl s1) 0 1 False)) else s1)"
  from p s1 obtain u where u: "dur_unit (takeWhile unit_char s2) = Some u" "r = dropWhile unit_char s2"
    by (auto simp: dur_part_def Let_def s2_def split: if_splits option.splits prod.splits)
  have "takeWhile unit_char s2 \<noteq> []" using u(1) by (auto simp: dur_unit_def)
  then have "length r < length s2"
    unfolding u(2) by (metis append_Nil length_append length_greater_0_conv less_add_same_cancel2 takeWhile_dropWhile_id)
  moreover have "length s2 \<le> length s1"
    using leading_fraction_shorter [of "tl s1" 0 1 False] by (cases s1) (auto simp: s2_def)
  ultimately show ?thesis using leading_int_shorter [OF s1] by simp
qed

function dur_parts :: "(nat \<Rightarrow> nat \<Rightarrow> nat \<Rightarrow> nat) \<Rightarrow> string \<Rightarrow> nat \<Rightarrow> nat option" where
  "dur_parts frac s d = (if s = [] then Some d else (case dur_part frac s of None \<Rightarrow> None
     | Some (w, r) \<Rightarrow> if dur_bound < d + w then None else dur_parts frac r (d + w)))"
  by pat_completeness auto
termination by (relation "measure (\<lambda>(_, s, _). length s)") (auto dest: dur_part_shorter)

definition parse_duration :: "(nat \<Rightarrow> nat \<Rightarrow> nat \<Rightarrow> nat) \<Rightarrow> string \<Rightarrow> int option" where
  "parse_duration frac s = (let neg = (s \<noteq> [] \<and> hd s = CHR ''-''); s1 = (if s \<noteq> [] \<and> hd s \<in> {CHR ''-'', CHR ''+''} then tl s else s)
     in if s1 = ''0'' then Some 0 else if s1 = [] then None
        else (case dur_parts frac s1 0 of None \<Rightarrow> None
          | Some d \<Rightarrow> if neg then Some (- int d) else if dur_bound - 1 < d then None else Some (int d)))"

section \<open>Printing\<close>

definition point_digits :: "nat \<Rightarrow> nat \<Rightarrow> string" where
  "point_digits prec n = (let z = strip_zeros (pad prec n) in if z = [] then [] else CHR ''.'' # z)"

definition duration_text :: "int \<Rightarrow> string" where
  "duration_text d = (let u = nat (abs d); sgn = (if d < 0 then ''-'' else []) in
     if u = 0 then ''0s'' else if u < 1000 then sgn @ nat_str u @ ''ns''
     else if u < 1000000 then sgn @ nat_str (u div 1000) @ point_digits 3 (u mod 1000) @ [CHR 0xC2, CHR 0xB5, CHR ''s'']
     else if u < 1000000000 then sgn @ nat_str (u div 1000000) @ point_digits 6 (u mod 1000000) @ ''ms''
     else (let s = u div 1000000000; m = s div 60; h = m div 60 in
       sgn @ (if h = 0 then [] else nat_str h @ ''h'') @ (if m = 0 then [] else nat_str (m mod 60) @ ''m'')
       @ nat_str (s mod 60) @ point_digits 9 (u mod 1000000000) @ ''s''))"

end
