(* ===== verification/CollectedApi.thy ===== *)
theory CollectedApi
  imports ConsoleApi TsStore GoDuration
begin

text \<open>
  The public queries of the collected data, \<^verbatim>\<open>console/internal/httpapi/collected.go\<close>, over the store's
  queries: windows, steps and limits, the four routes. Times are instants in microseconds, durations nanoseconds; an
  answer is a record of what it says.
\<close>

section \<open>Windows, steps and limits\<close>

definition max_query_window :: int where "max_query_window = 400 * 24 * 3600 * 1000000000"
definition min_query_step :: int where "min_query_step = 1000000000"
definition max_query_points :: int where "max_query_points = 5000"

definition bad_param :: "string \<Rightarrow> string \<Rightarrow> go_error" where
  "bad_param f w = api_err_details CodeValidationFailed [(f, w)]"

text \<open>The difference of two times in nanoseconds, which saturates.\<close>

definition time_sub :: "int \<Rightarrow> int \<Rightarrow> int" where
  "time_sub b a = max (- (2 ^ 63)) (min (2 ^ 63 - 1) ((b - a) * 1000))"

definition parse_window :: "int \<Rightarrow> string \<Rightarrow> string \<Rightarrow> go_error + int \<times> int" where
  "parse_window now from_s to_s = (case (if to_s = [] then Some now else parse_time to_s) of None \<Rightarrow> Inl (bad_param ''to'' ''rfc3339'')
     | Some hi \<Rightarrow> (case (if from_s = [] then Some (hi - 3600000000) else parse_time from_s) of None \<Rightarrow> Inl (bad_param ''from'' ''rfc3339'')
       | Some lo \<Rightarrow> if \<not> lo < hi then Inl (bad_param ''from'' ''before to'')
           else if max_query_window < time_sub hi lo then Inl (bad_param ''from'' ''400 days'')
           else Inr (lo, hi)))"

definition parse_step :: "(nat \<Rightarrow> nat \<Rightarrow> nat \<Rightarrow> nat) \<Rightarrow> string \<Rightarrow> int \<Rightarrow> int \<Rightarrow> go_error + int" where
  "parse_step frac s lo hi = (if s = [] then Inr (max (time_sub hi lo div 200) min_query_step)
     else (case parse_duration frac s of None \<Rightarrow> Inl (bad_param ''step'' ''duration'')
       | Some step \<Rightarrow> if step < min_query_step then Inl (bad_param ''step'' ''1s'')
           else if max_query_points < time_sub hi lo div step then Inl (bad_param ''step'' ''5000'')
           else Inr step))"

definition parse_limit :: "string \<Rightarrow> int \<Rightarrow> int \<Rightarrow> go_error + int" where
  "parse_limit s def mx = (if s = [] then Inr def else (case parse_int64 s of None \<Rightarrow> Inl (bad_param ''limit'' ''positive'')
     | Some n \<Rightarrow> if n \<le> 0 then Inl (bad_param ''limit'' ''positive'') else if mx < n then Inl (bad_param ''limit'' ''max'') else Inr n))"

definition snapshot_target :: "string \<Rightarrow> string \<Rightarrow> go_error + string \<times> string" where
  "snapshot_target i kind = (case path_id i of Inl e \<Rightarrow> Inl e
     | Inr ds \<Rightarrow> if kind \<noteq> ''schema'' \<and> kind \<noteq> ''config'' then Inl (api_err_details CodeCollectUnsupportedKind [(''kind'', ''schema or config'')])
         else Inr (ds, kind))"

section \<open>Handlers\<close>

text \<open>What the handlers use: whether the store is configured, its views, the database's fault, the clock.\<close>

record collected_env =
  cv_reader :: bool
  cv_views :: ts_views
  cv_fault :: tx_fault
  cv_tenant :: string
  cv_now :: int
  cv_frac :: "nat \<Rightarrow> nat \<Rightarrow> nat \<Rightarrow> nat"

record series_answer =
  sa_ds :: string
  sa_name :: string
  sa_entity :: string
  sa_from :: int
  sa_to :: int
  sa_step :: string
  sa_points :: "point list"

definition h_series_range :: "collected_env \<Rightarrow> string \<Rightarrow> (string \<Rightarrow> string) \<Rightarrow> tsdb \<Rightarrow> go_error + series_answer" where
  "h_series_range v i q d = (case path_id i of Inl e \<Rightarrow> Inl e
     | Inr ds \<Rightarrow> if \<not> cv_reader v then Inl (api_err CodeCommonNotImplemented)
       else if lookup_series (q ''name'') = None then Inl (bad_param ''name'' ''unknown'')
       else (case parse_window (cv_now v) (q ''from'') (q ''to'') of Inl e \<Rightarrow> Inl e
         | Inr (lo, hi) \<Rightarrow> (case parse_step (cv_frac v) (q ''step'') lo hi of Inl e \<Rightarrow> Inl e
           | Inr step \<Rightarrow> (case series_range (cv_views v) (cv_fault v) (with_tenant None (cv_tenant v)) (cv_now v) ds (q ''name'') (q ''entity'')
                 lo hi step d of Inl e \<Rightarrow> Inl e
               | Inr ps \<Rightarrow> Inr \<lparr>sa_ds = ds, sa_name = q ''name'', sa_entity = q ''entity'', sa_from = lo, sa_to = hi,
                   sa_step = duration_text step, sa_points = ps\<rparr>))))"

definition h_top_entities :: "string \<Rightarrow> go_error" where
  "h_top_entities i = (case path_id i of Inl e \<Rightarrow> e | Inr _ \<Rightarrow> api_err CodeCommonNotImplemented)"

definition h_latest_snapshot :: "collected_env \<Rightarrow> string \<Rightarrow> string \<Rightarrow> tsdb \<Rightarrow> go_error + snap_row \<times> table_info list \<times> config_entry list" where
  "h_latest_snapshot v i kind d = (case snapshot_target i kind of Inl e \<Rightarrow> Inl e
     | Inr (ds, k) \<Rightarrow> if \<not> cv_reader v then Inl (api_err CodeCommonNotImplemented)
       else (case latest_snapshot (cv_fault v) (with_tenant None (cv_tenant v)) ds k d of Inl e \<Rightarrow> Inl e
         | Inr None \<Rightarrow> Inl (api_err CodeCommonNotFound) | Inr (Some x) \<Rightarrow> Inr x))"

definition h_snapshot_history :: "collected_env \<Rightarrow> string \<Rightarrow> string \<Rightarrow> (string \<Rightarrow> string) \<Rightarrow> tsdb \<Rightarrow> go_error + snap_row list" where
  "h_snapshot_history v i kind q d = (case snapshot_target i kind of Inl e \<Rightarrow> Inl e
     | Inr (ds, k) \<Rightarrow> if \<not> cv_reader v then Inl (api_err CodeCommonNotImplemented)
       else (case parse_limit (q ''limit'') 20 200 of Inl e \<Rightarrow> Inl e
         | Inr n \<Rightarrow> snapshot_history (cv_fault v) (with_tenant None (cv_tenant v)) ds k n d))"

section \<open>Routes\<close>

datatype collected_route = CrSeries string | CrTop string | CrLatest string string | CrHistory string string

definition collected_route_of :: "string \<Rightarrow> string list \<Rightarrow> collected_route option" where
  "collected_route_of m segs = (if \<not> is_get m \<or> take 3 segs \<noteq> [''api'', ''v1'', ''datasources''] then None else case drop 3 segs of
     [i, b] \<Rightarrow> if b = ''series'' then Some (CrSeries i) else if b = ''top-entities'' then Some (CrTop i) else None
   | [i, b, k] \<Rightarrow> if b = ''snapshots'' then Some (CrLatest i k) else None
   | [i, b, k, h] \<Rightarrow> if b = ''snapshots'' \<and> h = ''history'' then Some (CrHistory i k) else None
   | _ \<Rightarrow> None)"

datatype collected_answer = SeriesAnswer series_answer | LatestAnswer snap_row "table_info list" "config_entry list" | HistoryAnswer "snap_row list"

definition collected_handle :: "collected_env \<Rightarrow> (string \<Rightarrow> string) \<Rightarrow> collected_route \<Rightarrow> tsdb \<Rightarrow> go_error + collected_answer" where
  "collected_handle v q rt d = (case rt of CrSeries i \<Rightarrow> map_sum id SeriesAnswer (h_series_range v i q d)
     | CrTop i \<Rightarrow> Inl (h_top_entities i)
     | CrLatest i k \<Rightarrow> map_sum id (\<lambda>(r, ts, cs). LatestAnswer r ts cs) (h_latest_snapshot v i k d)
     | CrHistory i k \<Rightarrow> map_sum id HistoryAnswer (h_snapshot_history v i k q d))"

end
