(* ===== verification/CollectedProps.thy ===== *)
theory CollectedProps
  imports CollectedApi TsProps
begin

text \<open>
  What the public queries of the collected data guarantee: a curve is bounded, ordered and counts every reading of its
  window once, for one tenant's datasource; a latest snapshot is the current one.
\<close>

section \<open>Buckets\<close>

lemma sum_by_key:
  fixes g :: "'a \<Rightarrow> int"
  assumes "distinct bs" "f ` set xs \<subseteq> set bs"
  shows "sum_list (map (\<lambda>b. sum_list (map g (filter (\<lambda>x. f x = b) xs))) bs) = sum_list (map g xs)"
  using assms(2)
proof (induction xs)
  case (Cons x xs)
  have zero: "sum_list (map (\<lambda>b. if f x = b then g x else 0) bs) = 0" if "f x \<notin> set bs" for bs
    using that by (induction bs) auto
  have one: "sum_list (map (\<lambda>b. if f x = b then g x else 0) bs) = g x" if "f x \<in> set bs" "distinct bs" for bs
    using that by (induction bs) (auto simp: zero)
  have "(\<lambda>b. sum_list (map g (filter (\<lambda>y. f y = b) (x # xs))))
      = (\<lambda>b. (if f x = b then g x else 0) + sum_list (map g (filter (\<lambda>y. f y = b) xs)))" by auto
  then have "sum_list (map (\<lambda>b. sum_list (map g (filter (\<lambda>y. f y = b) (x # xs)))) bs)
      = sum_list (map (\<lambda>b. if f x = b then g x else 0) bs) + sum_list (map (\<lambda>b. sum_list (map g (filter (\<lambda>y. f y = b) xs))) bs)"
    by (simp only: sum_list_addf)
  with Cons one [of bs] assms(1) show ?case by simp
qed simp

lemma bucket_card:
  assumes "0 < st" "\<forall>t \<in> T. lo \<le> t \<and> t < hi" "lo < hi"
  shows "card (time_bucket st ` T) \<le> nat ((hi - lo) div st + 2)"
proof -
  let ?o = "946857600000000 :: int"
  let ?a = "(lo - ?o) div st" and ?b = "(hi - 1 - ?o) div st"
  have "time_bucket st ` T \<subseteq> (\<lambda>k. ?o + k * st) ` {?a..?b}"
  proof
    fix b assume "b \<in> time_bucket st ` T"
    then obtain t where t: "t \<in> T" "b = ?o + (t - ?o) div st * st" by (auto simp: time_bucket_def)
    have "?a \<le> (t - ?o) div st" "(t - ?o) div st \<le> ?b" using assms(1,2) t(1) by (auto intro!: zdiv_mono1)
    with t(2) show "b \<in> (\<lambda>k. ?o + k * st) ` {?a..?b}" by auto
  qed
  then have "card (time_bucket st ` T) \<le> card {?a..?b}" by (meson card_image_le card_mono finite_atLeastAtMost_int finite_imageI order.trans)
  also have "\<dots> = nat (?b - ?a + 1)" by simp
  also have "?b - ?a + 1 \<le> (hi - lo) div st + 2"
  proof -
    have "?b = ?a + (hi - 1 - lo) div st + ((lo - ?o) mod st + (hi - 1 - lo) mod st) div st"
      using div_add1_eq [of "lo - ?o" "hi - 1 - lo" st] by (simp add: algebra_simps)
    moreover have "((lo - ?o) mod st + (hi - 1 - lo) mod st) div st \<le> (2 * st - 1) div st"
      using assms(1) pos_mod_bound [OF assms(1), of "lo - ?o"] pos_mod_bound [OF assms(1), of "hi - 1 - lo"]
      by (intro zdiv_mono1) linarith+
    moreover have "(2 * st - 1) div st = 1" using assms(1) by (intro int_div_pos_eq [where r = "st - 1"]) auto
    moreover have "(hi - 1 - lo) div st \<le> (hi - lo) div st" using assms(1) by (intro zdiv_mono1) auto
    ultimately show ?thesis by linarith
  qed
  finally show ?thesis by simp
qed

section \<open>Curves\<close>

lemma points_of_bounds:
  assumes "0 < st" "\<forall>r \<in> set rs. lo \<le> lr_at r \<and> lr_at r < hi" "lo < hi"
  shows "int (length (points_of v st rs)) \<le> (hi - lo) div st + 2"
proof -
  have "length (points_of v st rs) = card (time_bucket st ` (lr_at ` set rs))"
    by (simp add: points_of_def length_remdups_card_conv image_image)
  also have "\<dots> \<le> nat ((hi - lo) div st + 2)" using assms by (intro bucket_card) auto
  finally show ?thesis using assms by (simp add: le_nat_iff pos_imp_zdiv_nonneg_iff)
qed

lemma points_of_total: "sum_list (map pt_samples (points_of v st rs)) = sum_list (map lr_count rs)"
  using sum_by_key [of "sort (remdups (map (\<lambda>r. time_bucket st (lr_at r)) rs))" "\<lambda>r. time_bucket st (lr_at r)" rs lr_count]
  by (simp add: points_of_def comp_def Let_def)

lemma points_of_ordered: "sorted_wrt (<) (map pt_at (points_of v st rs))"
proof -
  have "map pt_at (points_of v st rs) = sort (remdups (map (\<lambda>r. time_bucket st (lr_at r)) rs))"
    by (simp add: points_of_def comp_def Let_def)
  then show ?thesis by (metis distinct_remdups distinct_sort sorted_sort strict_sorted_iff)
qed

lemma div_less_mult: "0 < b \<Longrightarrow> a div b < c \<longleftrightarrow> a < b * c" for a b c :: int
proof
  assume b: "0 < b" "a div b < c"
  then have "b * (a div b) \<le> b * (c - 1)" by (intro mult_left_mono) auto
  moreover have "a = b * (a div b) + a mod b" "a mod b < b" using b(1) by simp_all
  moreover have "b * (c - 1) = b * c - b" by (simp add: right_diff_distrib)
  ultimately show "a < b * c" by linarith
next
  assume b: "0 < b" "a < b * c"
  have "a = b * (a div b) + a mod b" "0 \<le> a mod b" using b(1) by simp_all
  then have "b * (a div b) < b * c" using b(2) by linarith
  then show "a div b < c" using b(1) by simp
qed

lemma step_room:
  fixes d s x :: int
  assumes "d * 1000 < 5001 * s" "s < 1000 * x + 1000" "1000000 \<le> x"
  shows "d < x * 5002"
proof -
  have "5001 * s < 5001000 * x + 5001000" using assms(2) by linarith
  with assms(1) have "d < 5001 * x + 5001" by linarith
  with assms(3) have "d < 5002 * x" by linarith
  then show ?thesis by (simp add: mult.commute)
qed

text \<open>The step a request is given, as the store uses it.\<close>

lemma step_bounds:
  assumes "parse_step frac q lo hi = Inr step" "lo < hi" "time_sub hi lo \<le> max_query_window"
  shows "min_query_step \<le> step \<and> (hi - lo) div (step div 1000) \<le> 5001"
proof -
  have w: "time_sub hi lo = (hi - lo) * 1000" using assms(2,3) by (auto simp: time_sub_def max_query_window_def max_def min_def split: if_splits)
  have lt: "(hi - lo) * 1000 < 5001 * step \<and> min_query_step \<le> step"
  proof (cases "q = []")
    case True
    then have s: "step = max (time_sub hi lo div 200) min_query_step" using assms(1) by (simp add: parse_step_def)
    then have "time_sub hi lo div 200 \<le> step" "1000000000 \<le> step" by (auto simp: min_query_step_def)
    moreover have "time_sub hi lo = 200 * (time_sub hi lo div 200) + time_sub hi lo mod 200" "time_sub hi lo mod 200 < 200" by simp_all
    ultimately have "time_sub hi lo < 5001 * step" by linarith
    with s show ?thesis by (simp add: w)
  next
    case False
    then have d: "time_sub hi lo div step \<le> 5000" "min_query_step \<le> step"
      using assms(1) by (auto simp: parse_step_def max_query_points_def split: option.splits if_splits)
    then have "0 < step" by (simp add: min_query_step_def)
    then have "time_sub hi lo < step * 5001" using d(1) by (simp flip: div_less_mult)
    with d(2) show ?thesis by (simp add: w)
  qed
  have st: "step < 1000 * (step div 1000) + 1000" "1000000 \<le> step div 1000" using lt by (auto simp: min_query_step_def)
  have "(hi - lo) < (step div 1000) * 5002" using lt st by (intro step_room) auto
  then have "(hi - lo) div (step div 1000) < 5002" using st(2) by (simp add: div_less_mult)
  with lt show ?thesis by simp
qed

text \<open>The rows of the window that a curve is drawn from.\<close>

definition window_rows :: "collected_env \<Rightarrow> tsdb \<Rightarrow> string \<Rightarrow> series_answer \<Rightarrow> layer_row list" where
  "window_rows v d i a = filter (\<lambda>r. lr_ds r = i \<and> lr_name r = sa_name a \<and> lr_entity r = sa_entity a \<and> sa_from a \<le> lr_at r \<and> lr_at r < sa_to a)
     (layer_rows (cv_views v) (layer_for (sa_from a) (cv_now v)) (ts_slice d (cv_tenant v)))"

lemma parse_window_ok:
  "parse_window now f t = Inr (lo, hi) \<Longrightarrow> lo < hi \<and> time_sub hi lo \<le> max_query_window"
  by (auto simp: parse_window_def split: option.splits if_splits)

lemma series_range_rows:
  assumes "series_range v flt ctx now ds name entity lo hi step d = Inr ps"
  obtains t i where "ctx = Some t" "t \<noteq> []" "pg_uuid ds = Some i" "0 < step"
    "ps = points_of v (step div 1000) (filter (\<lambda>r. lr_ds r = i \<and> lr_name r = name \<and> lr_entity r = entity \<and> lo \<le> lr_at r \<and> lr_at r < hi)
       (layer_rows v (layer_for lo now) (ts_slice d t)))"
proof -
  let ?B = "\<lambda>s. case pg_uuid ds of None \<Rightarrow> Inl (Wrapf ''query'' (Plain ''22P02''))
      | Some i \<Rightarrow> Inr (points_of v (step div 1000) (filter (\<lambda>r. lr_ds r = i \<and> lr_name r = name \<and> lr_entity r = entity
          \<and> lo \<le> lr_at r \<and> lr_at r < hi) (layer_rows v (layer_for lo now) s)), s)"
  obtain r d' where e: "ts_tx flt ctx ?B d = (r, d')" by (cases "ts_tx flt ctx ?B d") blast
  with assms have tx: "0 < step" "ts_tx flt ctx ?B d = (Inr ps, d')" by (auto simp: series_range_def split: if_splits sum.splits)
  from tx(2) show thesis
    by (rule ts_tx_Inr) (auto split: option.splits intro!: that simp: tx(1))
qed

lemma h_series_range_rows:
  assumes "h_series_range v i q d = Inr a"
  obtains u step where "pg_uuid (sa_ds a) = Some u" "cv_tenant v \<noteq> []" "lookup_series (sa_name a) \<noteq> None"
    "sa_from a < sa_to a" "time_sub (sa_to a) (sa_from a) \<le> max_query_window"
    "min_query_step \<le> step" "(sa_to a - sa_from a) div (step div 1000) \<le> 5001" "sa_points a = points_of (cv_views v) (step div 1000) (window_rows v d u a)"
proof -
  from assms obtain lo hi step ps where w: "parse_window (cv_now v) (q ''from'') (q ''to'') = Inr (lo, hi)" "parse_step (cv_frac v) (q ''step'') lo hi = Inr step"
    and r: "series_range (cv_views v) (cv_fault v) (with_tenant None (cv_tenant v)) (cv_now v) i (q ''name'') (q ''entity'') lo hi step d = Inr ps"
    and a: "a = \<lparr>sa_ds = i, sa_name = q ''name'', sa_entity = q ''entity'', sa_from = lo, sa_to = hi, sa_step = duration_text step, sa_points = ps\<rparr>"
    and n: "lookup_series (q ''name'') \<noteq> None"
    by (auto simp: h_series_range_def path_id_def split: if_splits sum.splits)
  note pw = parse_window_ok [OF w(1)]
  from r show thesis
    by (rule series_range_rows) (rule that, use a n pw step_bounds [OF w(2)] in \<open>auto simp: window_rows_def with_tenant_def\<close>)
qed

text \<open>C36: A curve is bounded and exact. When the console answers a query for a series, the window runs forward and is
  at most 400 days, the answer has at most 5003 points, they are in strictly rising order of time, and together they
  count every sample of the tenant's rows of that datasource, series and entity in the window, once: the samples of
  the points add up to those of the rows, and there are no points exactly when there are no rows.\<close>

theorem series_answer_bounded:
  assumes "h_series_range v i q d = Inr a"
  obtains u where "pg_uuid (sa_ds a) = Some u" "sa_from a < sa_to a" "(sa_to a - sa_from a) * 1000 \<le> max_query_window"
    "length (sa_points a) \<le> 5003" "sorted_wrt (<) (map pt_at (sa_points a))"
    "sum_list (map pt_samples (sa_points a)) = sum_list (map lr_count (window_rows v d u a))"
    "sa_points a = [] \<longleftrightarrow> window_rows v d u a = []"
proof -
  from assms obtain u step where b: "pg_uuid (sa_ds a) = Some u" "sa_from a < sa_to a" "time_sub (sa_to a) (sa_from a) \<le> max_query_window"
      "min_query_step \<le> step" "(sa_to a - sa_from a) div (step div 1000) \<le> 5001"
      "sa_points a = points_of (cv_views v) (step div 1000) (window_rows v d u a)" by (rule h_series_range_rows)
  have st: "0 < step div 1000" using b(4) by (simp add: min_query_step_def)
  have "int (length (sa_points a)) \<le> (sa_to a - sa_from a) div (step div 1000) + 2"
    unfolding b(6) by (rule points_of_bounds) (use st b(2) in \<open>auto simp: window_rows_def\<close>)
  then have "length (sa_points a) \<le> 5003" using b(5) by linarith
  moreover have "(sa_to a - sa_from a) * 1000 \<le> max_query_window"
    using b(2,3) by (auto simp: time_sub_def max_query_window_def max_def min_def split: if_splits)
  moreover have "sa_points a = [] \<longleftrightarrow> window_rows v d u a = []" unfolding b(6) by (simp add: points_of_def flip: set_empty)
  ultimately show thesis using that b points_of_total [of "cv_views v" "step div 1000" "window_rows v d u a"] points_of_ordered by auto
qed

definition sample_env :: collected_env where
  "sample_env = \<lparr>cv_reader = True, cv_views = \<lparr>tv_avg = \<lambda>xs. fst (hd xs), tv_min = hd, tv_max = last, tv_five = [], tv_hour = []\<rparr>,
     cv_fault = NoFault, cv_tenant = ''t'', cv_now = 1000000000, cv_frac = \<lambda>_ _ _. 0\<rparr>"

definition sample_curves :: tsdb where
  "sample_curves = \<lparr>ts_slice = (\<lambda>_. empty_tstables)(''t'' := empty_tstables\<lparr>ts_series := [\<lparr>sr_ds = sample_ds, sr_name = ''db.connections.max'',
     sr_entity = [], sr_value = ''100'', sr_at = Some 900000000\<rparr>]\<rparr>)\<rparr>"

definition sample_query :: "string \<Rightarrow> string" where
  "sample_query k = (if k = ''name'' then ''db.connections.max'' else [])"

lemma collected_name: "lookup_series ''db.connections.max'' \<noteq> None"
  by code_simp

lemma sample_series_answer: "map_sum (\<lambda>_. ()) (\<lambda>a. map pt_samples (sa_points a)) (h_series_range sample_env sample_ds sample_query sample_curves) = Inr [1]"
proof -
  have u: "uuid_shape sample_ds" by code_simp
  obtain e where n: "lookup_series ''db.connections.max'' = Some e"
    by (cases "lookup_series ''db.connections.max''") (use collected_name in simp_all)
  have w: "parse_window 1000000000 [] [] = Inr (- 2600000000, 1000000000)"
    by (simp add: parse_window_def time_sub_def max_query_window_def)
  have st: "parse_step f [] (- 2600000000) 1000000000 = Inr 18000000000" for f
    by (simp add: parse_step_def time_sub_def min_query_step_def)
  have l: "layer_for (- 2600000000) 1000000000 = RawLayer" by (simp add: layer_for_def raw_retention_def)
  show ?thesis
    by (simp add: h_series_range_def path_id_def u sample_query_def sample_env_def n w st series_range_def with_tenant_def ts_tx_ok
        sample_curves_def l layer_rows_def raw_row_def List.map_filter_simps points_of_def empty_tstables_def)
qed

lemma series_answer_bounded_witness:
  "\<exists>a. h_series_range sample_env sample_ds sample_query sample_curves = Inr a \<and> length (sa_points a) \<le> 5003 \<and> sa_points a \<noteq> []"
proof -
  obtain a where a: "h_series_range sample_env sample_ds sample_query sample_curves = Inr a" "map pt_samples (sa_points a) = [1]"
    using sample_series_answer by (cases "h_series_range sample_env sample_ds sample_query sample_curves") simp_all
  from a(1) have "length (sa_points a) \<le> 5003" by (rule series_answer_bounded)
  moreover from a(2) have "sa_points a \<noteq> []" by (cases "sa_points a") simp_all
  ultimately show ?thesis using a(1) by blast
qed

end
