(* ===== verification/Collector.thy ===== *)
theory Collector
  imports Collect "HOL-Library.Word"
begin

unbundle bit_operations_syntax

text \<open>
  The control plane's collector (\<^verbatim>\<open>console/internal/collector/collector.go\<close>): which datasources it
  collects from and through which channel, the table of its loops and how it is brought in line with the
  inventory, the waits of a loop, and one collection. Durations are in nanoseconds.
\<close>

section \<open>Configuration\<close>

record coll_config =
  oc_interval :: int
  oc_min :: int
  oc_slow :: int
  oc_slow_min :: int
  oc_meta :: int
  oc_meta_min :: int
  oc_backoff :: int

definition default_coll_config :: coll_config where
  "default_coll_config = \<lparr>oc_interval = 60 * second, oc_min = 15 * second, oc_slow = 300 * second, oc_slow_min = 60 * second,
     oc_meta = 3600 * second, oc_meta_min = 300 * second, oc_backoff = 5 * second\<rparr>"

definition at_least :: "int \<Rightarrow> int \<Rightarrow> int" where
  "at_least v floor = (if v < floor then floor else v)"

definition effective_interval :: "coll_config \<Rightarrow> int" where
  "effective_interval c = at_least (oc_interval c) (oc_min c)"

definition interval_for :: "coll_config \<Rightarrow> string \<Rightarrow> int" where
  "interval_for c kind = (if kind = ''slowlog'' then at_least (oc_slow c) (oc_slow_min c)
     else if kind = ''schema'' \<or> kind = ''config'' then at_least (oc_meta c) (oc_meta_min c) else effective_interval c)"

section \<open>Targets\<close>

definition collect_kinds :: "string list" where
  "collect_kinds = [''metrics'', ''slowlog'', ''schema'', ''config'']"

record target =
  tg_ds :: string
  tg_family :: string
  tg_mode :: string
  tg_connector :: string
  tg_kind :: string

definition target_key :: "target \<Rightarrow> string" where
  "target_key t = tg_ds t @ CHR ''|'' # tg_kind t"

definition channel_for :: "ds_row \<Rightarrow> target option" where
  "channel_for r = (if dr_mode r = ''direct''
       then Some \<lparr>tg_ds = dr_id r, tg_family = dr_family r, tg_mode = ''direct'', tg_connector = [], tg_kind = []\<rparr>
     else if dr_mode r = ''connector'' \<and> dr_connector r \<noteq> None \<and> dr_connector r \<noteq> Some []
       then Some \<lparr>tg_ds = dr_id r, tg_family = dr_family r, tg_mode = ''connector'', tg_connector = the (dr_connector r), tg_kind = []\<rparr>
     else None)"

definition targets_for :: "ds_row \<Rightarrow> target list" where
  "targets_for r = (case channel_for r of None \<Rightarrow> [] | Some t \<Rightarrow> map (\<lambda>k. t\<lparr>tg_kind := k\<rparr>) collect_kinds)"

text \<open>The pages of the inventory, until one is short. \<open>fails k\<close>: the statement of page \<open>k\<close> fails; what has been
  read before it stays in the map.\<close>

definition target_page :: nat where "target_page = 200"

partial_function (option) list_pages :: "(nat \<Rightarrow> bool) \<Rightarrow> nat \<Rightarrow> (int \<times> string) option \<Rightarrow> ctdb \<Rightarrow> (ds_row list \<times> bool) option" where
  "list_pages fails k c s = (if fails k then Some ([], False)
     else let items = list_datasources c (int target_page) s
       in if length items < target_page then Some (items, True)
          else Option.bind (list_pages fails (k + 1) (Some (ds_key (last items))) s) (\<lambda>(rest, ok). Some (items @ rest, ok)))"

definition target_map :: "target list \<Rightarrow> (string \<rightharpoonup> target)" where
  "target_map ts = fold (\<lambda>t m. m(target_key t \<mapsto> t)) ts Map.empty"

text \<open>A transaction that cannot begin, or whose context has no tenant, leaves the map empty; an error is only logged.\<close>

definition list_targets :: "tx_fault \<Rightarrow> (nat \<Rightarrow> bool) \<Rightarrow> string \<Rightarrow> cdb \<Rightarrow> (string \<rightharpoonup> target) option" where
  "list_targets flt fails tenant d = (if tenant = [] \<or> flt \<in> {FailBegin, FailRole, FailGuc} then Some Map.empty
     else map_option (\<lambda>(rows, ok). target_map (concat (map targets_for rows))) (list_pages fails 0 None (c_slice d tenant)))"

section \<open>The table of loops\<close>

text \<open>A running loop by its key, with the target that it was started with.\<close>

type_synonym loops = "string \<rightharpoonup> target"

definition reconcile :: "(string \<rightharpoonup> target) \<Rightarrow> loops \<Rightarrow> loops" where
  "reconcile want ls = (let started = (\<lambda>k. case ls k of Some t \<Rightarrow> Some t | None \<Rightarrow> want k)
     in (\<lambda>k. if want k = None then None else started k))"

definition stop_all :: "loops \<Rightarrow> loops" where
  "stop_all ls = Map.empty"

text \<open>\<open>Run\<close>: a reconciliation at the start and at every tick, until the context ends.\<close>

fun collector_run :: "string \<Rightarrow> (tx_fault \<times> (nat \<Rightarrow> bool) \<times> cdb) list \<Rightarrow> loops \<Rightarrow> loops option" where
  "collector_run tenant [] ls = Some (stop_all ls)"
| "collector_run tenant ((flt, fails, d) # ticks) ls = Option.bind (list_targets flt fails tenant d) (\<lambda>w. collector_run tenant ticks (reconcile w ls))"

section \<open>A loop\<close>

definition hash_offset :: "string \<Rightarrow> 64 word" where
  "hash_offset s = fold (\<lambda>c h. (h XOR of_nat (of_char c)) * 1099511628211) s 1469598103934665603"

text \<open>A remainder by zero panics, a negative divisor leaves the remainder non-negative.\<close>

definition start_jitter :: "string \<Rightarrow> int \<Rightarrow> int option" where
  "start_jitter key interval = (if interval = 0 then None
     else Some (uint (hash_offset key AND 0x7fffffffffffffff) mod abs interval))"

definition backoff_limit :: int where "backoff_limit = 300 * second"

text \<open>The wait after a collection and the next backoff; \<open>True\<close> stands for a collection that succeeded.\<close>

definition loop_wait :: "coll_config \<Rightarrow> string \<Rightarrow> bool \<Rightarrow> int \<Rightarrow> int \<times> int" where
  "loop_wait c kind okay b = (if okay then (interval_for c kind, oc_backoff c)
     else (b, if b < backoff_limit then b * 2 else b))"

fun loop_waits :: "coll_config \<Rightarrow> string \<Rightarrow> bool list \<Rightarrow> int \<Rightarrow> int list" where
  "loop_waits c kind [] b = []"
| "loop_waits c kind (okay # rest) b = (case loop_wait c kind okay b of (d, b1) \<Rightarrow> d # loop_waits c kind rest b1)"

section \<open>A collection\<close>

text \<open>What a collection uses: whether the connector path is configured and what the gateway answers, the direct
  databases by datasource, the clock, the store's fault and limits.\<close>

record coll_env =
  ov_tenant :: string
  ov_gateway :: bool
  ov_answer :: "collect_request \<Rightarrow> (nat \<times> string) option"
  ov_metrics :: "string \<Rightarrow> querier"
  ov_rows :: "string \<Rightarrow> row_querier"
  ov_now :: int
  ov_floats :: float_ops
  ov_sha :: "string \<Rightarrow> string"
  ov_batch :: nat
  ov_fault :: tx_fault
  ov_known :: "string list"
  ov_new :: string

definition collect_metrics_direct :: "coll_env \<Rightarrow> target \<Rightarrow> tsdb \<Rightarrow> go_error option \<times> tsdb" where
  "collect_metrics_direct v t d = (case collect_metrics (ov_metrics v (tg_ds t)) (tg_ds t) (tg_family t) (ov_now v) of
     Inl e \<Rightarrow> (Some e, d)
   | Inr b \<Rightarrow> (case ts_publish (ov_batch v) (ov_fault v) (with_tenant None (ov_tenant v)) b d of
       (Inl e, d1) \<Rightarrow> (Some e, d1) | (Inr _, d1) \<Rightarrow> (None, d1)))"

definition collect_snapshot_direct :: "coll_env \<Rightarrow> target \<Rightarrow> tsdb \<Rightarrow> go_error option \<times> tsdb" where
  "collect_snapshot_direct v t d = (case collect_snapshot (ov_floats v) (ov_rows v (tg_ds t)) (tg_ds t) (tg_family t) (ov_now v) (tg_kind t) of
     Inl e \<Rightarrow> (Some e, d)
   | Inr s \<Rightarrow> (case publish_snapshot (ov_sha v) (ov_floats v) (ov_batch v) (ov_fault v) (with_tenant None (ov_tenant v)) (ov_known v)
         (ov_new v) s d of
       (Inl e, d1) \<Rightarrow> (Some e, d1) | (Inr _, d1) \<Rightarrow> (None, d1)))"

definition trigger_request :: "target \<Rightarrow> collect_request" where
  "trigger_request t = \<lparr>qc_connector = tg_connector t, qc_ds = tg_ds t, qc_family = tg_family t, qc_kind = tg_kind t\<rparr>"

definition collect_once :: "coll_env \<Rightarrow> target \<Rightarrow> tsdb \<Rightarrow> go_error option \<times> tsdb" where
  "collect_once v t d = (if tg_mode t = ''connector''
       then (if \<not> ov_gateway v then (Some (Plain ''connector collect path not configured''), d)
         else (trigger_result (ov_answer v (trigger_request t)), d))
     else if tg_kind t = ''metrics'' then collect_metrics_direct v t d else collect_snapshot_direct v t d)"

end
