(* ===== verification/CollectorProps.thy ===== *)
theory CollectorProps
  imports Collector
begin

text \<open>
  What holds of the collector: its loops are those of the inventory, each with the channel of its datasource; what
  a direct collection stores; the waits of a loop.
\<close>

section \<open>Reading the inventory\<close>

text \<open>A scan by keys of the last row of a page, without the row after the page.\<close>

context keyset
begin

lemma suffix_fetch:
  assumes "good s" "rows s = xs @ zs" "c = (if xs = [] then None else Some (key (last xs)))"
  shows "fetch s c n = take n zs"
proof (cases "xs = []")
  case True
  with assms fetch_first show ?thesis by simp
next
  case False
  then have "rows s = butlast xs @ last xs # zs" using assms(2) by simp
  from rest_after [OF assms(1) this] False assms(3) show ?thesis by (simp only: fetch_next [OF assms(1)] if_False)
qed

end

lemma ds_keys_distinct: "distinct (map dr_id rs) \<Longrightarrow> distinct (map ds_key rs)"
  by (auto simp: distinct_map inj_on_def ds_key_def)

lemma list_pages_all:
  assumes "distinct (map dr_id (c_ds s))"
  shows "sort_dir True ds_key (c_ds s) = xs @ zs \<Longrightarrow> c = (if xs = [] then None else Some (ds_key (last xs))) \<Longrightarrow>
    list_pages (\<lambda>_. False) k c s = Some (zs, True)"
proof (induction "length zs" arbitrary: xs zs c k rule: less_induct)
  case less
  have f: "list_datasources c (int target_page) s = take target_page zs"
    unfolding list_datasources_def nat_int by (rule kf.suffix_fetch [OF ds_keys_distinct [OF assms] less.prems])
  show ?case
  proof (cases "length zs < target_page")
    case True
    then show ?thesis by (subst list_pages.simps) (simp add: f Let_def)
  next
    case False
    let ?p = "take target_page zs"
    have ne: "?p \<noteq> []" using False by (auto simp: target_page_def)
    have "list_pages (\<lambda>_. False) (k + 1) (Some (ds_key (last ?p))) s = Some (drop target_page zs, True)"
      using less.prems False ne by (intro less.hyps [of _ "xs @ ?p"]) (auto simp: target_page_def)
    with False show ?thesis by (subst list_pages.simps) (simp add: f Let_def)
  qed
qed

lemma list_pages_rows: "list_pages fails k c s = Some (rows, ok) \<Longrightarrow> set rows \<subseteq> set (c_ds s)"
proof -
  have "set (fst x) \<subseteq> set (c_ds s)" if "list_pages fails k c s = Some x" for x
  proof (rule list_pages.raw_induct [of "\<lambda>fails k c s x. set (fst x) \<subseteq> set (c_ds s)", OF _ that])
    fix lp fails k c s x
    assume 1: "\<And>fails k c s y. lp fails k c s = Some y \<Longrightarrow> set (fst y) \<subseteq> set (c_ds s)"
      "(if fails k then Some ([], False)
        else let items = list_datasources c (int target_page) s
          in if length items < target_page then Some (items, True)
             else Option.bind (lp fails (k + 1) (Some (ds_key (last items))) s) (\<lambda>(rest, ok). Some (items @ rest, ok))) = Some x"
    have p: "set (list_datasources c n s) \<subseteq> set (c_ds s)" for n
      by (auto simp: list_datasources_def key_fetch_def dest!: in_set_takeD)
    from 1(2) 1(1) p show "set (fst x) \<subseteq> set (c_ds s)"
      by (fastforce simp: Let_def bind_eq_Some_conv split: if_splits prod.splits)
  qed
  then show "list_pages fails k c s = Some (rows, ok) \<Longrightarrow> ?thesis" by force
qed

section \<open>Keys of targets\<close>

lemma target_map_of: "target_map ts = map_of (rev (map (\<lambda>t. (target_key t, t)) ts))"
proof -
  have "fold (\<lambda>t m. m(target_key t \<mapsto> t)) ts m = m ++ map_of (rev (map (\<lambda>t. (target_key t, t)) ts))" for m
    by (induction ts arbitrary: m) simp_all
  then show ?thesis by (simp add: target_map_def)
qed

lemma last_cut:
  assumes "xs @ c # a = ys @ c # b" "c \<notin> set a" "c \<notin> set b"
  shows "xs = ys \<and> a = b"
proof -
  have "takeWhile (\<lambda>x. x \<noteq> c) (rev (xs @ c # a)) = rev a" "takeWhile (\<lambda>x. x \<noteq> c) (rev (ys @ c # b)) = rev b"
    using assms(2,3) by (simp_all, (subst takeWhile_append2; auto)+)
  with assms(1) have "rev a = rev b" by metis
  with assms(1) show ?thesis by simp
qed

lemma targets_for_simps:
  assumes "t \<in> set (targets_for r)"
  shows "tg_ds t = dr_id r" "tg_kind t \<in> set collect_kinds"
  using assms by (auto simp: targets_for_def channel_for_def split: option.splits if_splits)

lemma target_key_inj:
  assumes "target_key t = target_key t'" "tg_kind t \<in> set collect_kinds" "tg_kind t' \<in> set collect_kinds"
  shows "tg_ds t = tg_ds t' \<and> tg_kind t = tg_kind t'"
proof -
  have "CHR ''|'' \<notin> set k" if "k \<in> set collect_kinds" for k using that by (auto simp: collect_kinds_def)
  with last_cut [of "tg_ds t" _ "tg_kind t" "tg_ds t'" "tg_kind t'"] assms show ?thesis by (simp add: target_key_def)
qed

lemma targets_for_kind: "t \<in> set (targets_for r) \<Longrightarrow> t' \<in> set (targets_for r) \<Longrightarrow> tg_kind t = tg_kind t' \<Longrightarrow> t = t'"
  by (cases "channel_for r") (auto simp: targets_for_def)

text \<open>The targets of an inventory, by their keys.\<close>

definition wanted :: "ds_row list \<Rightarrow> string \<Rightarrow> target \<Rightarrow> bool" where
  "wanted rs k t \<longleftrightarrow> target_key t = k \<and> (\<exists>r \<in> set rs. t \<in> set (targets_for r))"

lemma wanted_unique:
  assumes "distinct (map dr_id rs)" "wanted rs k t" "wanted rs k t'"
  shows "t = t'"
proof -
  from assms(2,3) obtain r r' where r: "r \<in> set rs" "r' \<in> set rs" "t \<in> set (targets_for r)" "t' \<in> set (targets_for r')"
    "target_key t = target_key t'" by (auto simp: wanted_def)
  from target_key_inj [OF r(5) targets_for_simps(2) [OF r(3)] targets_for_simps(2) [OF r(4)]] r
  have k: "dr_id r = dr_id r'" "tg_kind t = tg_kind t'"
    using targets_for_simps(1) [OF r(3)] targets_for_simps(1) [OF r(4)] by simp_all
  from key_inj [OF assms(1) r(1,2) k(1)] r(3,4) targets_for_kind [OF _ _ k(2)] show ?thesis by blast
qed

lemma target_map_wanted:
  assumes "distinct (map dr_id rs)" "set rows \<subseteq> set rs"
  shows "target_map (concat (map targets_for rows)) k = Some t \<longleftrightarrow> wanted rows k t"
proof
  assume "target_map (concat (map targets_for rows)) k = Some t"
  then show "wanted rows k t" by (auto simp: target_map_of wanted_def dest!: map_of_SomeD)
next
  assume w: "wanted rows k t"
  then have "(k, t) \<in> set (rev (map (\<lambda>t. (target_key t, t)) (concat (map targets_for rows))))" by (auto simp: wanted_def)
  then have "k \<in> dom (target_map (concat (map targets_for rows)))"
    unfolding target_map_of dom_map_of_conv_image_fst by (rule rev_image_eqI) simp
  then obtain t' where t': "target_map (concat (map targets_for rows)) k = Some t'" by auto
  then have "wanted rows k t'" by (auto simp: target_map_of wanted_def dest!: map_of_SomeD)
  with w assms(2) have "wanted rs k t" "wanted rs k t'" by (auto simp: wanted_def)
  from wanted_unique [OF assms(1) this] t' show "target_map (concat (map targets_for rows)) k = Some t" by simp
qed

lemma list_targets_wanted:
  assumes "list_targets flt fails tenant d = Some w" "distinct (map dr_id (c_ds (c_slice d tenant)))" "w k = Some t"
  shows "wanted (c_ds (c_slice d tenant)) k t"
proof -
  from assms(1,3) obtain rows ok where r: "list_pages fails 0 None (c_slice d tenant) = Some (rows, ok)"
    "w = target_map (concat (map targets_for rows))"
    by (auto simp: list_targets_def split: if_splits)
  from list_pages_rows [OF r(1)] target_map_wanted [OF assms(2) list_pages_rows [OF r(1)]] r(2) assms(3)
  show ?thesis by (auto simp: wanted_def)
qed

lemma list_targets_all:
  assumes "distinct (map dr_id (c_ds (c_slice d tenant)))" "tenant \<noteq> []"
  shows "\<exists>w. list_targets NoFault (\<lambda>_. False) tenant d = Some w \<and> (\<forall>k t. w k = Some t \<longleftrightarrow> wanted (c_ds (c_slice d tenant)) k t)"
proof -
  let ?rows = "sort_dir True ds_key (c_ds (c_slice d tenant))"
  have "list_pages (\<lambda>_. False) 0 None (c_slice d tenant) = Some (?rows, True)"
    by (rule list_pages_all [OF assms(1), of "[]"]) simp_all
  moreover have "target_map (concat (map targets_for ?rows)) k = Some t \<longleftrightarrow> wanted (c_ds (c_slice d tenant)) k t" for k t
    using target_map_wanted [OF assms(1), of ?rows k t] by (simp add: wanted_def)
  ultimately show ?thesis using assms(2) by (simp add: list_targets_def)
qed

section \<open>The loops of an inventory that changes\<close>

text \<open>The channel of a datasource is fixed when it is created; ids are not reused.\<close>

definition same_channel :: "ds_row \<Rightarrow> ds_row \<Rightarrow> bool" where
  "same_channel r r' \<longleftrightarrow> dr_id r = dr_id r' \<and> dr_family r = dr_family r' \<and> dr_mode r = dr_mode r' \<and> dr_connector r = dr_connector r'"

lemma same_channel_targets: "same_channel r r' \<Longrightarrow> targets_for r = targets_for r'"
  unfolding same_channel_def targets_for_def channel_for_def by (elim conjE) (simp only:)

inductive coll_reach :: "string \<Rightarrow> ds_row list \<Rightarrow> string set \<Rightarrow> loops \<Rightarrow> bool" for tenant where
  coll_start: "coll_reach tenant [] {} Map.empty"
| coll_change: "coll_reach tenant rs seen ls \<Longrightarrow> distinct (map dr_id rs') \<Longrightarrow>
    \<forall>r' \<in> set rs'. (\<exists>r \<in> set rs. same_channel r r') \<or> dr_id r' \<notin> seen \<Longrightarrow> coll_reach tenant rs' (seen \<union> dr_id ` set rs') ls"
| coll_tick: "coll_reach tenant rs seen ls \<Longrightarrow> c_ds (c_slice d tenant) = rs \<Longrightarrow> list_targets flt fails tenant d = Some w \<Longrightarrow>
    coll_reach tenant rs seen (reconcile w ls)"

definition loops_match :: "ds_row list \<Rightarrow> string set \<Rightarrow> loops \<Rightarrow> bool" where
  "loops_match rs seen ls \<longleftrightarrow> distinct (map dr_id rs) \<and> dr_id ` set rs \<subseteq> seen
     \<and> (\<forall>k t. ls k = Some t \<longrightarrow> target_key t = k \<and> tg_ds t \<in> seen \<and> tg_kind t \<in> set collect_kinds
          \<and> (\<forall>r \<in> set rs. dr_id r = tg_ds t \<longrightarrow> t \<in> set (targets_for r)))"

lemma coll_reach_match: "coll_reach tenant rs seen ls \<Longrightarrow> loops_match rs seen ls"
proof (induction rule: coll_reach.induct)
  case (coll_change rs seen ls rs')
  have "t \<in> set (targets_for r')" if "ls k = Some t" "r' \<in> set rs'" "dr_id r' = tg_ds t" for k t r'
  proof -
    from that coll_change.IH coll_change.hyps(3) obtain r where "r \<in> set rs" "same_channel r r'"
      by (simp add: loops_match_def) metis
    moreover from this have "dr_id r = tg_ds t" "targets_for r = targets_for r'"
      using that(3) same_channel_targets by (simp_all add: same_channel_def)
    moreover from that(1) coll_change.IH have "\<forall>r \<in> set rs. dr_id r = tg_ds t \<longrightarrow> t \<in> set (targets_for r)" by (simp add: loops_match_def)
    ultimately show ?thesis by metis
  qed
  with coll_change.IH coll_change.hyps(2) show ?case by (auto simp: loops_match_def)
next
  case (coll_tick rs seen ls d flt fails w)
  have "target_key t = k \<and> tg_ds t \<in> seen \<and> tg_kind t \<in> set collect_kinds \<and> (\<forall>r \<in> set rs. dr_id r = tg_ds t \<longrightarrow> t \<in> set (targets_for r))"
    if "reconcile w ls k = Some t" for k t
  proof (cases "ls k")
    case None
    with that have "w k = Some t" by (simp add: reconcile_def Let_def split: if_splits)
    from list_targets_wanted [OF coll_tick.hyps(3) _ this] coll_tick.IH coll_tick.hyps(2)
    have w: "wanted rs k t" "distinct (map dr_id rs)" by (simp_all add: loops_match_def)
    then obtain r where r: "r \<in> set rs" "t \<in> set (targets_for r)" "target_key t = k" by (auto simp: wanted_def)
    have "t \<in> set (targets_for r')" if "r' \<in> set rs" "dr_id r' = tg_ds t" for r'
      using key_inj [OF w(2) that(1) r(1)] that(2) targets_for_simps(1) [OF r(2)] r(2) by simp
    with r targets_for_simps [OF r(2)] coll_tick.IH show ?thesis by (auto simp: loops_match_def)
  next
    case (Some t')
    with that have "t' = t" by (simp add: reconcile_def Let_def split: if_splits)
    with Some coll_tick.IH show ?thesis by (simp add: loops_match_def)
  qed
  with coll_tick.IH show ?case by (simp add: loops_match_def)
qed (simp add: loops_match_def)

text \<open>C33: the collector's loops are those of the inventory. In every history in which the inventory changes, fresh
  ids are given to new datasources and reconciliations run with whatever faults of the database: a running loop
  whose datasource is in the inventory collects one of the kinds through the channel of that datasource; and a
  reconciliation without a fault returns, and leaves exactly one loop for every kind of every datasource that is
  direct or has a connector, and no other.\<close>

theorem loops_follow_inventory:
  assumes "coll_reach tenant (c_ds (c_slice d tenant)) seen ls" "tenant \<noteq> []"
  shows "(\<forall>k t. ls k = Some t \<longrightarrow> (\<forall>r \<in> set (c_ds (c_slice d tenant)). dr_id r = tg_ds t \<longrightarrow> t \<in> set (targets_for r)))
    \<and> (\<exists>w. list_targets NoFault (\<lambda>_. False) tenant d = Some w
        \<and> (\<forall>k t. reconcile w ls k = Some t \<longleftrightarrow> target_key t = k \<and> (\<exists>r \<in> set (c_ds (c_slice d tenant)). t \<in> set (targets_for r))))"
proof -
  let ?rs = "c_ds (c_slice d tenant)"
  have m: "loops_match ?rs seen ls" by (rule coll_reach_match [OF assms(1)])
  then have dist: "distinct (map dr_id ?rs)" by (simp add: loops_match_def)
  obtain w where w: "list_targets NoFault (\<lambda>_. False) tenant d = Some w" "\<And>k t. w k = Some t \<longleftrightarrow> wanted ?rs k t"
    using list_targets_all [OF dist assms(2)] by blast
  have "reconcile w ls k = w k" for k
  proof (cases "w k")
    case (Some t)
    then have t: "wanted ?rs k t" by (simp add: w(2))
    show ?thesis
    proof (cases "ls k")
      case (Some t')
      from t obtain r where r: "r \<in> set ?rs" "t \<in> set (targets_for r)" "target_key t = k" by (auto simp: wanted_def)
      from Some m have t': "target_key t' = k" "tg_kind t' \<in> set collect_kinds" by (auto simp: loops_match_def)
      from target_key_inj [of t' t] t' targets_for_simps [OF r(2)] r(3) have "tg_ds t' = dr_id r" by simp
      with Some m r(1) have "t' \<in> set (targets_for r)" by (simp add: loops_match_def)
      with r(1) t'(1) have "wanted ?rs k t'" by (auto simp: wanted_def)
      from wanted_unique [OF dist t this] Some \<open>w k = Some t\<close> show ?thesis by (simp add: reconcile_def)
    qed (simp add: reconcile_def)
  qed (simp add: reconcile_def)
  with m w show ?thesis by (auto simp: loops_match_def wanted_def)
qed

lemma loops_follow_inventory_witness:
  "\<exists>w t. list_targets NoFault (\<lambda>_. False) sample_tenant (cw_db sample_console) = Some w
    \<and> reconcile w Map.empty (target_key t) = Some t \<and> tg_ds t = sample_ds \<and> tg_connector t = sample_connector \<and> tg_kind t = ''slowlog''"
proof -
  let ?rs = "c_ds (c_slice (cw_db sample_console) sample_tenant)"
  have rs: "?rs = [sample_ds_row]" by (simp add: sample_console_def sample_slice_def)
  have "coll_reach sample_tenant ?rs ({} \<union> dr_id ` set ?rs) Map.empty"
    by (rule coll_change [OF coll_start]) (simp_all add: rs)
  from loops_follow_inventory [OF this sample_strings(3)] obtain w where
    w: "list_targets NoFault (\<lambda>_. False) sample_tenant (cw_db sample_console) = Some w"
    "\<And>k t. reconcile w Map.empty k = Some t \<longleftrightarrow> target_key t = k \<and> t \<in> set (targets_for sample_ds_row)"
    by (auto simp: rs)
  let ?t = "\<lparr>tg_ds = sample_ds, tg_family = ''postgres'', tg_mode = ''connector'', tg_connector = sample_connector, tg_kind = ''slowlog''\<rparr>"
  have "?t \<in> set (targets_for sample_ds_row)"
    by (simp add: targets_for_def channel_for_def sample_ds_row_def sample_connector_def collect_kinds_def)
  with w show ?thesis by (intro exI [of _ w] exI [of _ ?t]) simp
qed

text \<open>A database that cannot be asked stops every loop; they start over with their first offsets when it is back.\<close>

lemma fault_stops_loops: "list_targets FailBegin fails tenant d = Some w \<Longrightarrow> reconcile w ls = Map.empty"
  by (auto simp: list_targets_def reconcile_def)

section \<open>Waits\<close>

lemma loop_waits_bounded:
  "0 < oc_backoff c \<Longrightarrow> oc_backoff c \<le> b \<Longrightarrow> b < max (2 * backoff_limit) (oc_backoff c + 1) \<Longrightarrow> x \<in> set (loop_waits c kind oks b) \<Longrightarrow>
     x = interval_for c kind \<or> oc_backoff c \<le> x \<and> x < max (2 * backoff_limit) (oc_backoff c + 1)"
proof (induction oks arbitrary: b)
  case (Cons okay rest)
  from Cons.prems(4) consider "x = fst (loop_wait c kind okay b)" | "x \<in> set (loop_waits c kind rest (snd (loop_wait c kind okay b)))"
    by (cases "loop_wait c kind okay b") auto
  then show ?case
  proof cases
    case 2
    have "oc_backoff c \<le> snd (loop_wait c kind okay b)" "snd (loop_wait c kind okay b) < max (2 * backoff_limit) (oc_backoff c + 1)"
      using Cons.prems(1-3) by (auto simp: loop_wait_def split: if_splits)
    from Cons.IH [OF Cons.prems(1) this 2] show ?thesis .
  qed (use Cons.prems in \<open>auto simp: loop_wait_def split: if_splits\<close>)
qed simp

text \<open>With the default configuration the waits pass five minutes before they stay.\<close>

lemma waits_pass_limit:
  "map (\<lambda>d. d div second) (loop_waits default_coll_config ''metrics'' (replicate 8 False) (oc_backoff default_coll_config)) = [5, 10, 20, 40, 80, 160, 320, 320]"
  by code_simp

lemma start_jitter_range: "0 < interval \<Longrightarrow> start_jitter key interval = Some j \<Longrightarrow> 0 \<le> j \<and> j < interval"
  by (auto simp: start_jitter_def)

section \<open>What a collection stores\<close>

lemma trigger_request_key: "qc_connector (trigger_request t) = tg_connector t"
  by (simp add: trigger_request_def)

text \<open>A direct collection stores exactly what its probe has read. A collection that reports an error, or that
  goes through a connector, changes nothing in this store; a direct one changes the data of the collector's
  tenant only; and one of metrics that succeeds extends the readings by one for each reading of the probe, under
  the datasource's id.\<close>

theorem collection_stored:
  assumes "collect_once v t d = (r, d')" "0 < ov_batch v"
  shows "(r \<noteq> None \<or> tg_mode t = ''connector'' \<longrightarrow> d' = d) \<and> (\<forall>u. u \<noteq> ov_tenant v \<longrightarrow> ts_slice d' u = ts_slice d u)
    \<and> (r = None \<and> tg_mode t \<noteq> ''connector'' \<and> tg_kind t = ''metrics'' \<longrightarrow>
        (\<exists>b. collect_metrics (ov_metrics v (tg_ds t)) (tg_ds t) (tg_family t) (ov_now v) = Inr b \<and> ba_metrics b \<noteq> []
          \<and> ts_series (ts_slice d' (ov_tenant v)) = ts_series (ts_slice d (ov_tenant v)) @ reading_rows (the (pg_uuid (tg_ds t))) b))"
proof -
  have pub: "(e \<noteq> Inr () \<longrightarrow> d1 = d) \<and> (\<forall>u. u \<noteq> ov_tenant v \<longrightarrow> ts_slice d1 u = ts_slice d u)"
    if "ts_tx flt (with_tenant None (ov_tenant v)) body d = (e, d1)" for flt body e d1
    using that by (auto simp: ts_tx_def with_tenant_def tenant_from_context_Some split: option.splits sum.splits if_splits)
  have pm: "(e \<noteq> Inr () \<longrightarrow> d1 = d) \<and> (\<forall>u. u \<noteq> ov_tenant v \<longrightarrow> ts_slice d1 u = ts_slice d u)"
    if "ts_publish m flt (with_tenant None (ov_tenant v)) b d = (e, d1)" for m flt b e d1
    using that pub by (auto simp: ts_publish_def split: sum.splits if_splits)
  have ps: "(e \<noteq> Inr () \<longrightarrow> d1 = d) \<and> (\<forall>u. u \<noteq> ov_tenant v \<longrightarrow> ts_slice d1 u = ts_slice d u)"
    if "publish_snapshot sha fl m flt (with_tenant None (ov_tenant v)) dss new s d = (e, d1)" for sha fl m flt dss new s e d1
    using that pub by (auto simp: publish_snapshot_def publish_slowlog_def Let_def split: sum.splits if_splits list.splits)
  have "r \<noteq> None \<or> tg_mode t = ''connector'' \<longrightarrow> d' = d" "\<forall>u. u \<noteq> ov_tenant v \<longrightarrow> ts_slice d' u = ts_slice d u"
    using assms(1) by (auto simp: collect_once_def collect_metrics_direct_def collect_snapshot_direct_def dest!: pm ps
        split: if_splits sum.splits prod.splits)
  moreover have "\<exists>b. collect_metrics (ov_metrics v (tg_ds t)) (tg_ds t) (tg_family t) (ov_now v) = Inr b \<and> ba_metrics b \<noteq> []
      \<and> ts_series (ts_slice d' (ov_tenant v)) = ts_series (ts_slice d (ov_tenant v)) @ reading_rows (the (pg_uuid (tg_ds t))) b"
    if h: "r = None" "tg_mode t \<noteq> ''connector''" "tg_kind t = ''metrics''"
  proof -
    from h assms(1) obtain b where b: "collect_metrics (ov_metrics v (tg_ds t)) (tg_ds t) (tg_family t) (ov_now v) = Inr b"
      "ts_publish (ov_batch v) (ov_fault v) (with_tenant None (ov_tenant v)) b d = (Inr (), d')"
      by (auto simp: collect_once_def collect_metrics_direct_def split: sum.splits prod.splits)
    note p = probe_rows [OF b(1)]
    from b(2) p(1,2) have "ts_tx (ov_fault v) (with_tenant None (ov_tenant v)) (insert_series (ov_batch v) (reading_rows (tg_ds t) b)) d = (Inr (), d')"
      by (simp add: ts_publish_def reading_rows_def)
    then obtain s where s: "insert_series (ov_batch v) (reading_rows (tg_ds t) b) (ts_slice d (ov_tenant v)) = Inr ((), s)"
      "ts_slice d' (ov_tenant v) = s"
      by (auto simp: ts_tx_def with_tenant_def tenant_from_context_Some split: option.splits sum.splits if_splits)
    from insert_series_Inr [OF s(1) assms(2)] s(2) b(1) p(2) show ?thesis by (force simp: reading_rows_def)
  qed
  ultimately show ?thesis by blast
qed

definition sample_direct :: coll_env where
  "sample_direct = \<lparr>ov_tenant = sample_tenant, ov_gateway = False, ov_answer = (\<lambda>_. None),
     ov_metrics = (\<lambda>_. query_metric_db (pe_metric sample_probe)), ov_rows = (\<lambda>_. query_rows_db (pe_rows sample_probe)), ov_now = 7,
     ov_floats = text_floats, ov_sha = rev, ov_batch = 5000, ov_fault = NoFault, ov_known = [], ov_new = []\<rparr>"

lemma collection_stored_witness:
  "\<exists>d'. collect_once sample_direct \<lparr>tg_ds = sample_ds, tg_family = ''postgres'', tg_mode = ''direct'', tg_connector = [], tg_kind = ''metrics''\<rparr>
      \<lparr>ts_slice = \<lambda>_. empty_tstables\<rparr> = (None, d')
    \<and> ts_series (ts_slice d' sample_tenant) = reading_rows sample_ds sample_probed"
proof -
  let ?t = "\<lparr>tg_ds = sample_ds, tg_family = ''postgres'', tg_mode = ''direct'', tg_connector = [], tg_kind = ''metrics''\<rparr>"
  let ?d = "\<lparr>ts_slice = \<lambda>_. empty_tstables\<rparr>"
  have c: "collect_metrics (ov_metrics sample_direct (tg_ds ?t)) (tg_ds ?t) (tg_family ?t) (ov_now sample_direct) = Inr sample_probed"
    using sample_collected by (simp add: sample_direct_def sample_trigger_def sample_probe_def)
  have "\<forall>x \<in> set (reading_rows sample_ds sample_probed). pg_uuid (sr_ds x) \<noteq> None"
    using pg_uuid_sample_ds by (auto simp: reading_rows_def)
  from insert_series_ok [OF this, of 5000]
  obtain s where s: "insert_series 5000 (reading_rows sample_ds sample_probed) empty_tstables = Inr ((), s)" by auto
  have "ts_publish 5000 NoFault (with_tenant None sample_tenant) sample_probed ?d = (Inr (), ?d\<lparr>ts_slice := (ts_slice ?d)(sample_tenant := s)\<rparr>)"
    using probe_rows [OF c] s sample_strings(3)
    by (simp add: ts_publish_def with_tenant_def ts_tx_ok reading_rows_def)
  with c obtain d' where d': "collect_once sample_direct ?t ?d = (None, d')"
    by (simp add: collect_once_def collect_metrics_direct_def sample_direct_def)
  from collection_stored [OF d'] c pg_uuid_sample_ds have "ts_series (ts_slice d' sample_tenant) = reading_rows sample_ds sample_probed"
    by (simp add: sample_direct_def empty_tstables_def)
  with d' show ?thesis by blast
qed

end
