(* ===== verification/ConfigLoad.thy ===== *)
theory ConfigLoad
  imports GoDuration
begin

text \<open>
  The declarative configuration of the processes, \<^verbatim>\<open>libs/config\<close>: what a struct declares in its tags, the values of
  the environment that are read into it, the errors, and the printed configuration. The environment is a partial
  function; what \<open>godotenv\<close> makes of it is a parameter.
\<close>

section \<open>Declarations\<close>

datatype cfg_kind = KString | KInt | KBool | KDuration | KFloat | KOther string

datatype cfg_value = VString string | VInt int | VBool bool | VDuration int | VFloat string | VOther string

text \<open>A float is the text it is printed as; the zero value of a type that is not supported is the name of the type.\<close>

definition zero_value :: "cfg_kind \<Rightarrow> cfg_value" where
  "zero_value k = (case k of KString \<Rightarrow> VString [] | KInt \<Rightarrow> VInt 0 | KBool \<Rightarrow> VBool False | KDuration \<Rightarrow> VDuration 0
     | KFloat \<Rightarrow> VFloat ''0'' | KOther t \<Rightarrow> VOther t)"

record struct_field =
  fld_name :: string
  fld_kind :: cfg_kind
  fld_tags :: "(string \<times> string) list"

definition tag_lookup :: "struct_field \<Rightarrow> string \<Rightarrow> string option" where
  "tag_lookup f k = map_of (fld_tags f) k"

definition tag_get :: "struct_field \<Rightarrow> string \<Rightarrow> string" where
  "tag_get f k = (case tag_lookup f k of None \<Rightarrow> [] | Some v \<Rightarrow> v)"

text \<open>An error names the variable; its reason is what the text is made of, with the value only where it is shown.\<close>

datatype cfg_reason = NoEnvTag | Unset | NotOneOf "string option" "string list" | Unparsable "string option" cfg_kind | BadType string

record field_error =
  fe_env :: string
  fe_reason :: cfg_reason

record field_spec =
  fs_env :: string
  fs_common :: string
  fs_required :: bool
  fs_secret :: bool
  fs_default :: "string option"
  fs_oneof :: "string list"

definition upper_char :: "char \<Rightarrow> char" where
  "upper_char c = (let n = (of_char c :: nat) in if 97 \<le> n \<and> n \<le> 122 then char_of (n - 32) else c)"

definition env_name :: "string \<Rightarrow> string \<Rightarrow> string" where
  "env_name component key = ''AIRUSH_'' @ map upper_char component @ ''_'' @ key"

definition parse_tag :: "string \<Rightarrow> struct_field \<Rightarrow> field_error + field_spec" where
  "parse_tag component f = (let key = tag_get f ''env'' in
     if key = [] then Inl \<lparr>fe_env = ''(field '' @ fld_name f @ '')'', fe_reason = NoEnvTag\<rparr>
     else Inr \<lparr>fs_env = env_name component key,
       fs_common = (if tag_get f ''common'' = ''true'' then env_name ''COMMON'' key else []),
       fs_required = (tag_get f ''required'' = ''true''), fs_secret = (tag_get f ''secret'' = ''true''),
       fs_default = tag_lookup f ''default'',
       fs_oneof = (if tag_get f ''oneof'' = [] then [] else split_on CHR '','' (tag_get f ''oneof''))\<rparr>)"

section \<open>Values\<close>

type_synonym environment = "string \<rightharpoonup> string"

definition lookup_env :: "environment \<Rightarrow> field_spec \<Rightarrow> string option" where
  "lookup_env env sp = (if env (fs_env sp) \<notin> {None, Some []} then env (fs_env sp)
     else if fs_common sp \<noteq> [] \<and> env (fs_common sp) \<notin> {None, Some []} then env (fs_common sp) else None)"

text \<open>What the standard library does with floats.\<close>

record cfg_std =
  cs_frac :: "nat \<Rightarrow> nat \<Rightarrow> nat \<Rightarrow> nat"
  cs_float :: "string \<Rightarrow> string option"

definition parse_bool :: "string \<Rightarrow> bool option" where
  "parse_bool s = (if s \<in> {''1'', ''t'', ''T'', ''true'', ''TRUE'', ''True''} then Some True
     else if s \<in> {''0'', ''f'', ''F'', ''false'', ''FALSE'', ''False''} then Some False else None)"

definition shown :: "field_spec \<Rightarrow> string \<Rightarrow> string option" where
  "shown sp raw = (if fs_secret sp then None else Some raw)"

definition set_field :: "cfg_std \<Rightarrow> cfg_kind \<Rightarrow> field_spec \<Rightarrow> string \<Rightarrow> field_error + cfg_value" where
  "set_field std k sp raw = (let bad = \<lambda>r. Inl \<lparr>fe_env = fs_env sp, fe_reason = r\<rparr>;
       parsed = \<lambda>v. (case v of None \<Rightarrow> bad (Unparsable (shown sp raw) k) | Some x \<Rightarrow> Inr x) in
     if fs_oneof sp \<noteq> [] \<and> raw \<notin> set (fs_oneof sp) then bad (NotOneOf (shown sp raw) (fs_oneof sp))
     else (case k of KString \<Rightarrow> Inr (VString raw)
       | KInt \<Rightarrow> parsed (map_option VInt (parse_int64 raw))
       | KBool \<Rightarrow> parsed (map_option VBool (parse_bool raw))
       | KDuration \<Rightarrow> parsed (map_option VDuration (parse_duration (cs_frac std) raw))
       | KFloat \<Rightarrow> parsed (map_option VFloat (cs_float std raw))
       | KOther t \<Rightarrow> bad (BadType t)))"

section \<open>Loading\<close>

text \<open>One field of the loop: an error, a value, or nothing to set.\<close>

definition load_field :: "cfg_std \<Rightarrow> environment \<Rightarrow> string \<Rightarrow> struct_field \<Rightarrow> field_error + cfg_value option" where
  "load_field std env component f = (case parse_tag component f of Inl e \<Rightarrow> Inl e
     | Inr sp \<Rightarrow> (case lookup_env env sp of Some raw \<Rightarrow> map_sum id Some (set_field std (fld_kind f) sp raw)
         | None \<Rightarrow> if fs_required sp then Inl \<lparr>fe_env = fs_env sp, fe_reason = Unset\<rparr>
             else (case fs_default sp of Some raw \<Rightarrow> map_sum id Some (set_field std (fld_kind f) sp raw) | None \<Rightarrow> Inr None)))"

text \<open>The values of the fields in their order, and the errors in the order of their variables.\<close>

definition field_value :: "struct_field \<Rightarrow> field_error + cfg_value option \<Rightarrow> cfg_value" where
  "field_value f r = (case r of Inr (Some v) \<Rightarrow> v | _ \<Rightarrow> zero_value (fld_kind f))"

definition process_env :: "(environment \<Rightarrow> environment) \<Rightarrow> environment \<Rightarrow> environment" where
  "process_env dotenv env = (if env ''AIRUSH_ENV'' = Some ''production'' then env else dotenv env)"

definition config_load :: "cfg_std \<Rightarrow> (environment \<Rightarrow> environment) \<Rightarrow> environment \<Rightarrow> string \<Rightarrow> struct_field list \<Rightarrow> cfg_value list \<times> field_error list" where
  "config_load std dotenv env component fs = (let e = process_env dotenv env; rs = map (load_field std e component) fs in
     (map2 field_value fs rs, order_by fe_env (List.map_filter (\<lambda>r. case r of Inl x \<Rightarrow> Some x | Inr _ \<Rightarrow> None) rs)))"

section \<open>Printing\<close>

definition value_text :: "cfg_value \<Rightarrow> string" where
  "value_text v = (case v of VString s \<Rightarrow> s | VInt i \<Rightarrow> int_str i | VBool b \<Rightarrow> if b then ''true'' else ''false''
     | VDuration d \<Rightarrow> duration_text d | VFloat t \<Rightarrow> t | VOther t \<Rightarrow> t)"

definition redacted_lines :: "string \<Rightarrow> struct_field list \<Rightarrow> cfg_value list \<Rightarrow> string list" where
  "redacted_lines component fs vs = List.map_filter (\<lambda>(f, v). case parse_tag component f of Inl _ \<Rightarrow> None
     | Inr sp \<Rightarrow> Some (fs_env sp @ ''='' @ (if fs_secret sp then ''***'' else value_text v))) (zip fs vs)"

definition redacted :: "string \<Rightarrow> struct_field list \<Rightarrow> cfg_value list \<Rightarrow> string" where
  "redacted component fs vs = join [CHR 0x0A] (sort (redacted_lines component fs vs))"

definition config_keys :: "string \<Rightarrow> struct_field list \<Rightarrow> string list" where
  "config_keys component fs = sort (List.map_filter (\<lambda>f. case parse_tag component f of Inl _ \<Rightarrow> None | Inr sp \<Rightarrow> Some (fs_env sp)) fs)"

end
