(* ===== verification/ConfigProps.thy ===== *)
theory ConfigProps
  imports ConfigLoad "HOL-Library.Multiset"
begin

text \<open>
  What the configuration loader guarantees: every field is read from the first of its sources and checked, all problems
  are reported at once, and the values of secret fields reach neither the errors nor the printed configuration.
\<close>

section \<open>Fields\<close>

lemma set_field_Inl:
  "set_field std k sp raw = Inl e \<Longrightarrow> fe_env e = fs_env sp
    \<and> fe_reason e \<in> {NotOneOf (shown sp raw) (fs_oneof sp), Unparsable (shown sp raw) k} \<union> BadType ` {t. k = KOther t}"
  by (auto simp: set_field_def Let_def split: if_splits cfg_kind.splits option.splits)

text \<open>How a value of the environment is read.\<close>

definition reads :: "cfg_std \<Rightarrow> cfg_kind \<Rightarrow> string \<Rightarrow> cfg_value \<Rightarrow> bool" where
  "reads std k raw v = (case k of KString \<Rightarrow> v = VString raw | KInt \<Rightarrow> \<exists>i. parse_int64 raw = Some i \<and> v = VInt i
     | KBool \<Rightarrow> \<exists>b. parse_bool raw = Some b \<and> v = VBool b
     | KDuration \<Rightarrow> \<exists>d. parse_duration (cs_frac std) raw = Some d \<and> v = VDuration d
     | KFloat \<Rightarrow> \<exists>t. cs_float std raw = Some t \<and> v = VFloat t | KOther _ \<Rightarrow> False)"

lemma set_field_Inr:
  "set_field std k sp raw = Inr v \<longleftrightarrow> (fs_oneof sp \<noteq> [] \<longrightarrow> raw \<in> set (fs_oneof sp)) \<and> reads std k raw v"
  by (auto simp: set_field_def Let_def reads_def split: if_splits cfg_kind.splits option.splits)

text \<open>The first source that is set: the component's variable, the common one, the default. A required field takes no
  default.\<close>

definition first_source :: "environment \<Rightarrow> field_spec \<Rightarrow> string option" where
  "first_source env sp = (case filter (\<lambda>v. v \<noteq> None \<and> v \<noteq> Some []) [env (fs_env sp), if fs_common sp = [] then None else env (fs_common sp)] of
     v # _ \<Rightarrow> v | [] \<Rightarrow> if fs_required sp then None else fs_default sp)"

lemma load_field_source:
  assumes "parse_tag c f = Inr sp"
  shows "load_field std env c f = (case first_source env sp of Some raw \<Rightarrow> map_sum id Some (set_field std (fld_kind f) sp raw)
    | None \<Rightarrow> if fs_required sp then Inl \<lparr>fe_env = fs_env sp, fe_reason = Unset\<rparr> else Inr None)"
  using assms by (auto simp: load_field_def first_source_def lookup_env_def split: option.splits)

lemma parse_tag_errors: "parse_tag c f = Inl e \<Longrightarrow> fe_reason e = NoEnvTag"
  by (auto simp: parse_tag_def Let_def split: if_splits)

section \<open>Secrets\<close>

definition is_secret :: "struct_field \<Rightarrow> bool" where
  "is_secret f \<longleftrightarrow> tag_get f ''secret'' = ''true''"

lemma parse_tag_secret: "parse_tag c f = Inr sp \<Longrightarrow> fs_secret sp = is_secret f"
  by (auto simp: parse_tag_def Let_def is_secret_def split: if_splits)

text \<open>The errors that the declaration of a field allows: none of them holds a value.\<close>

definition declared_errors :: "string \<Rightarrow> struct_field \<Rightarrow> field_error set" where
  "declared_errors c f = (case parse_tag c f of Inl e \<Rightarrow> {e} | Inr sp \<Rightarrow> (\<lambda>r. \<lparr>fe_env = fs_env sp, fe_reason = r\<rparr>) `
     {Unset, NotOneOf None (fs_oneof sp), Unparsable None (fld_kind f), BadType (case fld_kind f of KOther t \<Rightarrow> t | _ \<Rightarrow> [])})"

lemma secret_errors:
  assumes "is_secret f" "load_field std env c f = Inl e"
  shows "e \<in> declared_errors c f"
proof (cases "parse_tag c f")
  case (Inl a)
  with assms show ?thesis by (simp add: load_field_def declared_errors_def)
next
  case (Inr sp)
  have s: "shown sp raw = None" for raw using parse_tag_secret [OF Inr] assms(1) by (simp add: shown_def)
  show ?thesis
  proof (cases "first_source env sp")
    case None
    with assms Inr show ?thesis by (auto simp: load_field_source declared_errors_def split: if_splits)
  next
    case (Some raw)
    with assms Inr have e: "set_field std (fld_kind f) sp raw = Inl e"
      by (auto simp: load_field_source map_sum_def split: sum.splits)
    from set_field_Inl [OF e] Inr show ?thesis
      by (cases e) (auto simp: declared_errors_def s)
  qed
qed

definition load_errors :: "(field_error + cfg_value option) list \<Rightarrow> field_error list" where
  "load_errors rs = List.map_filter (\<lambda>r. case r of Inl x \<Rightarrow> Some x | Inr _ \<Rightarrow> None) rs"

lemma set_load_errors: "e \<in> set (load_errors rs) \<longleftrightarrow> Inl e \<in> set rs"
  by (induction rs) (auto simp: load_errors_def List.map_filter_simps split: sum.splits)

lemma config_load_fst: "fst (config_load std d env c fs) = map2 field_value fs (map (load_field std (process_env d env) c) fs)"
  by (simp add: config_load_def Let_def)

lemma config_load_snd: "snd (config_load std d env c fs) = order_by fe_env (load_errors (map (load_field std (process_env d env) c) fs))"
  by (simp add: config_load_def Let_def load_errors_def)

lemma config_load_errors: "e \<in> set (snd (config_load std d env c fs)) \<longleftrightarrow> (\<exists>f \<in> set fs. load_field std (process_env d env) c f = Inl e)"
  by (auto simp: config_load_snd set_load_errors image_iff intro: sym)

text \<open>Two environments that differ in secrets only.\<close>

definition same_but_secrets :: "string \<Rightarrow> struct_field list \<Rightarrow> environment \<Rightarrow> environment \<Rightarrow> bool" where
  "same_but_secrets c fs e1 e2 \<longleftrightarrow> (\<forall>f \<in> set fs. \<forall>sp. parse_tag c f = Inr sp \<longrightarrow> \<not> is_secret f \<longrightarrow> lookup_env e1 sp = lookup_env e2 sp)"

lemma load_field_same:
  assumes "same_but_secrets c fs e1 e2" "f \<in> set fs" "\<not> is_secret f"
  shows "load_field std e1 c f = load_field std e2 c f"
  using assms by (cases "parse_tag c f") (auto simp: load_field_def same_but_secrets_def)

lemma redacted_same:
  assumes "\<forall>f \<in> set fs. \<not> is_secret f \<longrightarrow> v1 f = v2 f"
  shows "redacted_lines c fs (map v1 fs) = redacted_lines c fs (map v2 fs)"
  using assms
proof (induction fs)
  case (Cons f fs)
  then show ?case
    by (cases "parse_tag c f") (auto simp: redacted_lines_def List.map_filter_simps parse_tag_secret)
qed (simp add: redacted_lines_def)

lemma field_values: "map2 field_value fs (map g fs) = map (\<lambda>f. field_value f (g f)) fs"
  by (induction fs) auto

text \<open>C38: Secrets stay hidden. When two environments differ only in the values of secret fields, the printed
  configurations are the same text, and every error of the one is an error of the other or one that the declaration of
  a secret field allows, whose text holds no value. So neither output depends on a secret beyond whether it was
  accepted.\<close>

theorem secrets_hidden:
  assumes "same_but_secrets c fs (process_env dotenv e1) (process_env dotenv e2)"
  shows "redacted c fs (fst (config_load std dotenv e1 c fs)) = redacted c fs (fst (config_load std dotenv e2 c fs))
    \<and> (\<forall>e \<in> set (snd (config_load std dotenv e1 c fs)). e \<in> set (snd (config_load std dotenv e2 c fs))
        \<or> (\<exists>f \<in> set fs. is_secret f \<and> e \<in> declared_errors c f))"
proof
  have "field_value f (load_field std (process_env dotenv e1) c f) = field_value f (load_field std (process_env dotenv e2) c f)"
    if "f \<in> set fs" "\<not> is_secret f" for f using load_field_same [OF assms that] by simp
  then show "redacted c fs (fst (config_load std dotenv e1 c fs)) = redacted c fs (fst (config_load std dotenv e2 c fs))"
    unfolding redacted_def config_load_fst field_values by (subst redacted_same) auto
  show "\<forall>e \<in> set (snd (config_load std dotenv e1 c fs)). e \<in> set (snd (config_load std dotenv e2 c fs))
      \<or> (\<exists>f \<in> set fs. is_secret f \<and> e \<in> declared_errors c f)"
  proof
    fix e assume "e \<in> set (snd (config_load std dotenv e1 c fs))"
    then obtain f where f: "f \<in> set fs" "load_field std (process_env dotenv e1) c f = Inl e" by (auto simp: config_load_errors)
    show "e \<in> set (snd (config_load std dotenv e2 c fs)) \<or> (\<exists>f \<in> set fs. is_secret f \<and> e \<in> declared_errors c f)"
    proof (cases "is_secret f")
      case True
      with f secret_errors show ?thesis by blast
    next
      case False
      with f load_field_same [OF assms f(1) False, of std] show ?thesis by (auto simp: config_load_errors intro!: disjI1)
    qed
  qed
qed

section \<open>Complete loads\<close>

text \<open>C37: Every field comes from its first source, and all problems are reported. The errors are, in the order of their
  variables, exactly one for each field that is not accepted; when there are none, each field has a declared variable
  and holds what is read from the component's variable, else from the common one, else from the default, always within
  the allowed values, and its zero value only when it has no source and is not required.\<close>

theorem config_loaded:
  assumes "config_load std dotenv env c fs = (vs, es)"
  shows "length vs = length fs \<and> sorted (map fe_env es)
    \<and> mset es = mset [e. f \<leftarrow> fs, e \<leftarrow> (case load_field std (process_env dotenv env) c f of Inl e \<Rightarrow> [e] | Inr _ \<Rightarrow> [])]
    \<and> (es = [] \<longrightarrow> (\<forall>i < length fs. \<exists>sp. parse_tag c (fs ! i) = Inr sp
        \<and> (case first_source (process_env dotenv env) sp of None \<Rightarrow> \<not> fs_required sp \<and> vs ! i = zero_value (fld_kind (fs ! i))
          | Some raw \<Rightarrow> (fs_oneof sp \<noteq> [] \<longrightarrow> raw \<in> set (fs_oneof sp)) \<and> reads std (fld_kind (fs ! i)) raw (vs ! i))))"
proof -
  let ?g = "load_field std (process_env dotenv env) c"
  have vs: "vs = map (\<lambda>f. field_value f (?g f)) fs" using config_load_fst [of std dotenv env c fs] assms by (simp add: field_values)
  have es: "es = order_by fe_env (load_errors (map ?g fs))" using config_load_snd [of std dotenv env c fs] assms by simp
  have "load_errors (map ?g xs) = [e. f \<leftarrow> xs, e \<leftarrow> (case ?g f of Inl e \<Rightarrow> [e] | Inr _ \<Rightarrow> [])]" for xs
    by (induction xs) (auto simp: load_errors_def List.map_filter_simps split: sum.splits)
  then have m: "mset es = mset [e. f \<leftarrow> fs, e \<leftarrow> (case ?g f of Inl e \<Rightarrow> [e] | Inr _ \<Rightarrow> [])]"
    unfolding es order_by_def by simp
  have ok: "\<exists>sp. parse_tag c f = Inr sp
        \<and> (case first_source (process_env dotenv env) sp of None \<Rightarrow> \<not> fs_required sp \<and> field_value f (?g f) = zero_value (fld_kind f)
          | Some raw \<Rightarrow> (fs_oneof sp \<noteq> [] \<longrightarrow> raw \<in> set (fs_oneof sp)) \<and> reads std (fld_kind f) raw (field_value f (?g f)))"
    if "es = []" "f \<in> set fs" for f
  proof -
    have n: "\<not> isl (?g f)"
      by (cases "?g f") (use config_load_errors [of _ std dotenv env c fs] assms that in force)+
    then obtain sp where sp: "parse_tag c f = Inr sp" by (cases "parse_tag c f") (auto simp: load_field_def)
    with n show ?thesis
      by (cases "first_source (process_env dotenv env) sp")
        (auto simp: load_field_source field_value_def set_field_Inr [symmetric] map_sum_def split: if_splits sum.splits sum.split_asm)
  qed
  have sorted: "sorted (map fe_env es)" unfolding es by (rule sorted_order_by)
  have len: "length vs = length fs" by (simp add: vs)
  have nth: "vs ! i = field_value (fs ! i) (?g (fs ! i))" if "i < length fs" for i using that by (simp add: vs)
  show ?thesis
    by (intro conjI impI allI len sorted m) (simp only: nth ok nth_mem)
qed

end
