(* ===== verification/ConnectorLife.thy ===== *)
theory ConnectorLife
  imports ConsoleConnectors
begin

text \<open>
  The life of a connector: committed transactions on a tenant's tables as a step relation with events,
  and what its invariant says about certificates, handshakes and revocation.
\<close>

section \<open>Steps\<close>

datatype conn_event = Created string | Enrolled string string | Shook string string | Reported string | Revoked string | Elsewhere

inductive conn_step :: "conn_env \<Rightarrow> ctdb \<Rightarrow> conn_event \<Rightarrow> ctdb \<Rightarrow> bool" for env where
  step_create: "create_connector_tx env t fv q s = Inr (v, s') \<Longrightarrow> conn_step env s (Created (fv_id fv)) s'"
| step_enroll: "enroll_tx env now tok q s = Inr ((cert, fp), s') \<Longrightarrow> conn_step env s (Enrolled (et_connector tok) fp) s'"
| step_shake: "handshake_tx cid fp s = Inr ((), s') \<Longrightarrow> conn_step env s (Shook cid fp) s'"
| step_report: "update_connector_status cid st hb now s = Inr ((), s') \<Longrightarrow> one_of st [''online'', ''degraded'', ''offline''] \<Longrightarrow>
    conn_step env s (Reported cid) s'"
| step_revoke: "revoke_connector cid now s = Inr ((), s') \<Longrightarrow> conn_step env s (Revoked cid) s'"
| step_other: "c_conns s' = c_conns s \<Longrightarrow> conn_step env s Elsewhere s'"

inductive_cases conn_stepE: "conn_step env s e s'"

inductive conn_run :: "conn_env \<Rightarrow> ctdb \<Rightarrow> conn_event list \<Rightarrow> ctdb \<Rightarrow> bool" for env s where
  run_start: "conn_run env s [] s"
| run_step: "conn_run env s es s1 \<Longrightarrow> conn_step env s1 e s2 \<Longrightarrow> conn_run env s (es @ [e]) s2"

definition enrolls :: "string \<Rightarrow> conn_event list \<Rightarrow> string list" where
  "enrolls c es = concat (map (\<lambda>e. case e of Enrolled d fp \<Rightarrow> if d = c then [fp] else [] | _ \<Rightarrow> []) es)"

lemma enrolls_append [simp]: "enrolls c (es @ [e]) = enrolls c es @ (case e of Enrolled d fp \<Rightarrow> if d = c then [fp] else [] | _ \<Rightarrow> [])"
  by (simp add: enrolls_def)

lemma enrolls_Nil [simp]: "enrolls c [] = []"
  by (simp add: enrolls_def)

section \<open>The invariant\<close>

text \<open>What the row of a connector says of its past.\<close>

definition row_past :: "conn_event list \<Rightarrow> conn_row \<Rightarrow> bool" where
  "row_past es r \<longleftrightarrow> (Revoked (cn_id r) \<in> set es \<longleftrightarrow> cn_status r = ''revoked'')
     \<and> (cn_status r = ''pending'' \<longrightarrow> enrolls (cn_id r) es = [])
     \<and> (cn_status r \<noteq> ''pending'' \<and> cn_status r \<noteq> ''revoked'' \<longrightarrow> enrolls (cn_id r) es = [cn_fingerprint r])
     \<and> length (enrolls (cn_id r) es) \<le> 1"

definition conn_inv :: "conn_event list \<Rightarrow> ctdb \<Rightarrow> bool" where
  "conn_inv es s \<longleftrightarrow> distinct (map cn_id (c_conns s)) \<and> (\<forall>r \<in> set (c_conns s). row_past es r)
     \<and> (\<forall>c. enrolls c es \<noteq> [] \<or> Revoked c \<in> set es \<longrightarrow> c \<in> cn_id ` set (c_conns s))"

lemma update_conns_ids:
  assumes "\<And>r. cn_id (f r) = cn_id r"
  shows "map cn_id (c_conns (update_conns p f s)) = map cn_id (c_conns s)"
  using assms by (simp add: update_conns_def update_where_keys)

lemma conn_inv_update:
  assumes inv: "conn_inv es s" and idf: "\<And>r. cn_id (f r) = cn_id r"
    and new: "\<And>r. r \<in> set (c_conns s) \<Longrightarrow> row_past es r \<Longrightarrow> row_past (es @ [e]) (if p r then f r else r)"
    and known: "\<And>c. enrolls c (es @ [e]) \<noteq> enrolls c es \<or> e = Revoked c \<Longrightarrow> c \<in> cn_id ` set (c_conns s)"
  shows "conn_inv (es @ [e]) (update_conns p f s)"
proof -
  have ids: "map cn_id (c_conns (update_conns p f s)) = map cn_id (c_conns s)" by (rule update_conns_ids [OF idf])
  have "cn_id ` set (c_conns (update_conns p f s)) = cn_id ` set (c_conns s)"
    using ids by (metis list.set_map)
  moreover have "\<forall>r \<in> set (c_conns (update_conns p f s)). row_past (es @ [e]) r"
    using inv new by (auto simp: conn_inv_def update_conns_def in_update_where)
  ultimately show ?thesis using inv ids known unfolding conn_inv_def by (metis Un_iff empty_iff list.set(1) list.set_intros(1) set_ConsD set_append)
qed

lemma counted_in:
  "count_where p rs \<noteq> 0 \<Longrightarrow> \<exists>r \<in> set rs. p r"
  by (auto simp: count_where_zero)

lemma conn_inv_same:
  assumes "conn_inv es s" "c_conns s' = c_conns s" "\<And>c. enrolls c (es @ [e]) = enrolls c es"
    and "\<And>c. e = Revoked c \<Longrightarrow> Revoked c \<in> set es"
  shows "conn_inv (es @ [e]) s'"
proof -
  have "Revoked c \<in> set (es @ [e]) \<longleftrightarrow> Revoked c \<in> set es" for c using assms(4) by auto
  with assms(1-3) show ?thesis by (simp only: conn_inv_def row_past_def simp_thms) blast
qed

lemma conn_step_inv:
  assumes "conn_step env s e s'" "conn_inv es s"
  shows "conn_inv (es @ [e]) s'"
  using assms(1)
proof (cases rule: conn_step.cases)
  case (step_create t fv q v)
  define h where "h = snd (new_enroll_token (ce_sha env) (fv_secret fv) t (fv_id fv))"
  from step_create obtain c s1 where i: "insert_connector (fv_id fv) (fv_now fv) (fst q) (snd q) s = Inr (c, s1)"
    and u: "set_enroll_token (cn_id c) (snd (new_enroll_token (ce_sha env) (fv_secret fv) t (cn_id c))) (fv_now fv) enroll_token_ttl s1 = Inr ((), s')"
    by (auto simp: create_connector_tx_def Let_def case_prod_beta split: sum.splits)
  from i have c: "cn_id c = fv_id fv" "cn_status c = ''pending''" "s1 = s\<lparr>c_conns := c_conns s @ [c]\<rparr>" "\<forall>r \<in> set (c_conns s). cn_id r \<noteq> fv_id fv"
    by (auto simp: insert_connector_def Let_def split: option.splits if_splits)
  have new: "enrolls (fv_id fv) es = []" "Revoked (fv_id fv) \<notin> set es"
    using assms(2) c(4) unfolding conn_inv_def by (metis imageE)+
  with assms(2) c have "conn_inv es s1" by (auto simp: conn_inv_def row_past_def)
  moreover obtain p f where "s' = update_conns p f s1" "\<And>r. cn_id (f r) = cn_id r" "\<And>r. cn_status (f r) = cn_status r"
      "\<And>r. cn_fingerprint (f r) = cn_fingerprint r"
    using u by (auto simp: set_enroll_token_def Let_def split: if_splits)
  ultimately show ?thesis using step_create(1) by (auto intro!: conn_inv_update simp: row_past_def)
next
  case (step_enroll now tok q cert fp)
  let ?p = "\<lambda>r. cn_id r = et_connector tok \<and> cn_status r = ''pending''"
  from step_enroll have e: "complete_enrollment (et_connector tok) fp (eq_version q) now s = Inr ((), s')"
    by (auto simp: enroll_tx_def split: option.splits if_splits sum.splits prod.splits)
  then have n: "count_where ?p (c_conns s) \<noteq> 0" and s': "s' = update_conns ?p (\<lambda>r. r\<lparr>cn_status := ''enrolled'', cn_fingerprint := fp,
      cn_version := eq_version q, cn_token := None, cn_expires := None, cn_updated := now\<rparr>) s"
    by (auto simp: complete_enrollment_def Let_def split: if_splits)
  obtain r0 where r0: "r0 \<in> set (c_conns s)" "?p r0" using counted_in [OF n] by blast
  have "row_past (es @ [e]) (if ?p r then r\<lparr>cn_status := ''enrolled'', cn_fingerprint := fp,
      cn_version := eq_version q, cn_token := None, cn_expires := None, cn_updated := now\<rparr> else r)"
    if "r \<in> set (c_conns s)" "row_past es r" for r
  proof (cases "cn_id r = et_connector tok")
    case True
    then have "r = r0" using that(1) r0 assms(2) by (auto simp: conn_inv_def intro: key_inj)
    with r0 that step_enroll(1) show ?thesis by (auto simp: row_past_def)
  next
    case False
    with that step_enroll(1) show ?thesis by (auto simp: row_past_def)
  qed
  with r0 step_enroll(1) show ?thesis unfolding s' by (intro conn_inv_update [OF assms(2)]) (auto intro: rev_image_eqI split: if_splits)
next
  case (step_shake cid fp)
  then have "s' = s" by (auto simp: handshake_tx_def split: sum.splits if_splits)
  with step_shake assms(2) show ?thesis by (auto intro: conn_inv_same)
next
  case (step_report cid st hb now)
  then have "st \<noteq> ''pending''" "st \<noteq> ''revoked''" by (auto simp: one_of_def)
  with step_report assms(2) show ?thesis
    by (auto simp: update_connector_status_def Let_def row_past_def intro!: conn_inv_update split: if_splits)
next
  case (step_revoke cid now)
  let ?p = "\<lambda>r. cn_id r = cid \<and> cn_status r \<noteq> ''revoked''"
  show ?thesis
  proof (cases "count_where ?p (c_conns s) = 0")
    case True
    with step_revoke obtain c where "s' = s" "get_connector cid s = Inr c"
      by (auto simp: revoke_connector_def Let_def split: sum.splits)
    moreover from this have "c \<in> set (c_conns s)" "cn_id c = cid"
      by (auto simp: get_connector_def dest: select_one_Some_in split: option.splits)
    moreover with True have "cn_status c = ''revoked''" by (auto simp: count_where_zero)
    ultimately have "Revoked cid \<in> set es" using assms(2) by (auto simp: conn_inv_def row_past_def)
    with \<open>s' = s\<close> step_revoke(1) assms(2) show ?thesis by (auto intro!: conn_inv_same)
  next
    case False
    then obtain r0 where "r0 \<in> set (c_conns s)" "?p r0" using counted_in by blast
    moreover from False step_revoke have "s' = update_conns ?p (\<lambda>r. r\<lparr>cn_status := ''revoked'', cn_revoked := Some now, cn_token := None,
       cn_expires := None, cn_updated := now\<rparr>) s"
      by (auto simp: revoke_connector_def Let_def)
    ultimately show ?thesis using step_revoke(1)
      by (auto simp: row_past_def intro!: conn_inv_update [OF assms(2)])
  qed
next
  case step_other
  with assms(2) show ?thesis by (auto intro: conn_inv_same)
qed

lemma conn_run_inv: "conn_run env s es s' \<Longrightarrow> conn_inv [] s \<Longrightarrow> conn_inv es s'"
  by (induction rule: conn_run.induct) (auto intro: conn_step_inv)

section \<open>Certificates\<close>

lemma conn_run_split:
  assumes "conn_run env s0 (as @ e # bs) s"
  shows "\<exists>s1 s2. conn_run env s0 as s1 \<and> conn_step env s1 e s2"
  using assms
proof (induction bs arbitrary: s rule: rev_induct)
  case Nil
  then show ?case by (cases rule: conn_run.cases) auto
next
  case (snoc b bs)
  from snoc.prems show ?case
  proof (cases rule: conn_run.cases)
    case (run_step es s1 e')
    then have "es = as @ e # bs" by (metis append_assoc append_Cons butlast_snoc)
    with run_step snoc.IH show ?thesis by blast
  qed simp
qed

definition sample_conn_env :: conn_env where
  "sample_conn_env = \<lparr>ce_sha = rev, ce_sign = (\<lambda>csr c t. Inr (''cert'', ''fp'')), ce_bundle = []\<rparr>"

definition sample_fresh_values :: fresh_values where
  "sample_fresh_values = \<lparr>fv_id = ''c'', fv_now = 5, fv_secret = ''s1''\<rparr>"

lemma sample_conn_run:
  "\<exists>s. conn_run sample_conn_env empty_ctdb ([Created ''c'', Enrolled ''c'' ''fp''] @ Shook ''c'' ''fp'' # []) s"
proof -
  obtain v s1 where 1: "create_connector_tx sample_conn_env ''t'' sample_fresh_values (''n'', ''l'') empty_ctdb = Inr (v, s1)"
    and s1: "s1 = empty_ctdb\<lparr>c_conns := [\<lparr>cn_id = ''c'', cn_name = ''n'', cn_location = ''l'', cn_version = [],
      cn_status = ''pending'', cn_heartbeat = None, cn_fingerprint = [], cn_token = Some (rev ''s1''), cn_expires = Some 900000005,
      cn_revoked = None, cn_created = 5, cn_updated = 5\<rparr>]\<rparr>"
    by (simp add: create_connector_tx_def insert_connector_def empty_ctdb_def sample_fresh_values_def new_enroll_token_def
        set_enroll_token_def count_where_def update_conns_def row_simps enroll_token_ttl_def sample_conn_env_def Let_def)
  obtain s2 where 2: "enroll_tx sample_conn_env 6 \<lparr>et_tenant = ''t'', et_connector = ''c'', et_secret = ''s1''\<rparr>
      \<lparr>eq_token = [], eq_csr = [], eq_version = []\<rparr> s1 = Inr ((''cert'', ''fp''), s2)"
    and s2: "\<exists>c. c_conns s2 = [c] \<and> cn_id c = ''c'' \<and> cn_status c = ''enrolled'' \<and> cn_fingerprint c = ''fp''"
    by (simp add: s1 enroll_tx_def row_simps token_matches_def sample_conn_env_def complete_enrollment_def count_where_def update_conns_def Let_def)
  have 3: "handshake_tx ''c'' ''fp'' s2 = Inr ((), s2)"
    using s2 by (auto simp: handshake_tx_def get_connector_def row_simps)
  have "conn_step sample_conn_env empty_ctdb (Created ''c'') s1" "conn_step sample_conn_env s1 (Enrolled ''c'' ''fp'') s2"
    "conn_step sample_conn_env s2 (Shook ''c'' ''fp'') s2"
    using step_create [OF 1] step_enroll [OF 2] step_shake [OF 3] by (simp_all add: sample_fresh_values_def)
  then have "conn_run sample_conn_env empty_ctdb ((([] @ [Created ''c'']) @ [Enrolled ''c'' ''fp'']) @ [Shook ''c'' ''fp'']) s2"
    by (rule run_step [OF run_step [OF run_step [OF run_start]]])
  then show ?thesis by auto
qed



text \<open>An enrollment token is spent. In every history a connector is enrolled at most once, and a revoked
  one stays revoked.\<close>

theorem enrolled_once:
  assumes "conn_run env s0 es s" "c_conns s0 = []"
  shows "length (enrolls c es) \<le> 1
    \<and> (Revoked c \<in> set es \<longrightarrow> (\<exists>r \<in> set (c_conns s). cn_id r = c \<and> cn_status r = ''revoked''))"
proof -
  have "conn_inv [] s0" using assms(2) by (simp add: conn_inv_def)
  from conn_run_inv [OF assms(1) this] have inv: "conn_inv es s" .
  show ?thesis
  proof (cases "c \<in> cn_id ` set (c_conns s)")
    case True
    then obtain r where "r \<in> set (c_conns s)" "cn_id r = c" by auto
    with inv show ?thesis by (auto simp: conn_inv_def row_past_def)
  next
    case False
    with inv have "enrolls c es = []" "Revoked c \<notin> set es" unfolding conn_inv_def by blast+
    then show ?thesis by simp
  qed
qed

lemma enrolled_once_witness:
  "length (enrolls ''c'' ([Created ''c'', Enrolled ''c'' ''fp''] @ Shook ''c'' ''fp'' # [])) \<le> 1"
proof -
  obtain s where "conn_run sample_conn_env empty_ctdb ([Created ''c'', Enrolled ''c'' ''fp''] @ Shook ''c'' ''fp'' # []) s"
    using sample_conn_run by blast
  from enrolled_once [OF this, of "''c''"] show ?thesis by (simp add: empty_ctdb_def)
qed

section \<open>The stored token\<close>

text \<open>A creation with an idempotency key stores its answer, and with it the enrollment token in clear.\<close>

lemma token_stored_in_clear:
  assumes "create_with_idempotency sha flt (Some t) key raw (create_connector_tx env t fv q) d = (Inr a, d1)" "key \<noteq> []"
    and "get_replay key (c_slice d t) = None"
  shows "\<exists>r kvs. r \<in> set (c_replays (c_slice d1 t)) \<and> ir_body r = JObj kvs
    \<and> (''enrollment_token'', JStr (b64_encode (t @ CHR '':'' # fv_id fv) @ CHR ''.'' # fv_secret fv)) \<in> set kvs"
proof -
  from assms obtain st v s where s: "create_once_tx key (sha raw) (create_connector_tx env t fv q) (c_slice d t) = Inr ((st, v), s)"
    "d1 = d\<lparr>c_slice := (c_slice d)(t := s)\<rparr>"
    by (auto simp: create_with_idempotency_def split: prod.splits sum.splits elim!: console_tx_Inr)
  with assms(3) obtain s1 where v: "create_connector_tx env t fv q (c_slice d t) = Inr (v, s1)"
    by (auto simp: create_once_tx_def split: sum.splits prod.splits)
  obtain c s2 where i: "insert_connector (fv_id fv) (fv_now fv) (fst q) (snd q) (c_slice d t) = Inr (c, s2)"
    using v by (auto simp: create_connector_tx_def split: sum.splits)
  then have c: "cn_id c = fv_id fv" by (auto simp: insert_connector_def Let_def split: option.splits if_splits)
  from v i have "v = JObj (connector_members c @ [(''enrollment_token'', JStr (b64_encode (t @ CHR '':'' # fv_id fv) @ CHR ''.'' # fv_secret fv))])"
    by (auto simp: create_connector_tx_def new_enroll_token_def c split: sum.splits)
  moreover obtain r where "get_replay key s = Some r" "ir_body r = v" using create_once_stored [OF s(1)] by blast
  moreover from this have "r \<in> set (c_replays s)" by (auto simp: get_replay_def dest: select_one_Some_in)
  ultimately show ?thesis using s(2) by auto
qed

end
