(* ===== verification/ConnectorProps.thy ===== *)
theory ConnectorProps
  imports Connector
begin

text \<open>
  What holds of a connector: its session answers every command once, in order; and it waits longer and longer
  between sessions, up to its limit.
\<close>

section \<open>Commands\<close>

text \<open>The command that a frame answers.\<close>

definition frame_answers :: "client_frame \<Rightarrow> string option" where
  "frame_answers f = (case f of FrameResult r \<Rightarrow> Some (cr_cmd r) | FrameUpload u \<Rightarrow> Some (du_cmd u) | _ \<Rightarrow> None)"

lemma upload_frame_answers: "frame_answers (upload_frame cmd ds kind j) = Some (cm_id cmd)"
  by (simp add: upload_frame_def err_frame_def frame_answers_def split: option.splits)

lemma err_frame_answers: "frame_answers (err_frame cid code) = Some cid"
  by (simp add: err_frame_def frame_answers_def)

lemma handle_answers: "frame_answers (handle_metrics pe cmd) = Some (cm_id cmd)" "frame_answers (handle_snapshot pe cmd) = Some (cm_id cmd)"
  by (auto simp: handle_metrics_def handle_snapshot_def decode_probe_request_def upload_frame_answers err_frame_answers
      split: option.splits sum.splits)

lemma chain_answers: "frame_answers (chain_handle [db_handle pe] cmd) = Some (cm_id cmd)"
  by (simp add: db_handle_def handle_answers) (simp add: builtin_handle_def frame_answers_def)

fun link_run :: "(command \<Rightarrow> client_frame) \<Rightarrow> link_event list \<Rightarrow> link \<Rightarrow> link option" where
  "link_run h [] p = Some p"
| "link_run h (ev # evs) p = Option.bind (link_step h ev p) (link_run h evs)"

fun received :: "link_event list \<Rightarrow> command list" where
  "received [] = []"
| "received (PumpRecv (FrameCommand c) # evs) = c # received evs"
| "received (ev # evs) = received evs"

lemma received_Cons: "received (ev # evs) = received [ev] @ received evs"
  by (cases "(ev # evs)" rule: received.cases) simp_all

definition is_heartbeat :: "client_frame \<Rightarrow> bool" where
  "is_heartbeat f \<longleftrightarrow> (\<exists>n. f = FrameHeartbeat n)"

lemma answers_no_heartbeat: "frame_answers f \<noteq> None \<Longrightarrow> \<not> is_heartbeat f"
  by (auto simp: is_heartbeat_def frame_answers_def)

text \<open>What has been received is sent, waits in the channel or with the receiver.\<close>

definition link_ok :: "(command \<Rightarrow> client_frame) \<Rightarrow> command list \<Rightarrow> link \<Rightarrow> bool" where
  "link_ok h cs p \<longleftrightarrow> filter (\<lambda>f. \<not> is_heartbeat f) (pu_sent p) @ pu_results p @ (case pu_blocked p of None \<Rightarrow> [] | Some f \<Rightarrow> [f]) = map h cs
     \<and> filter is_heartbeat (pu_sent p) = map (\<lambda>n. FrameHeartbeat (n + 1)) [0..<pu_seq p] \<and> length (pu_results p) \<le> results_cap"

lemma link_step_ok:
  assumes "link_step h ev p = Some p'" "link_ok h cs p" "\<And>c. frame_answers (h c) \<noteq> None" "ev \<noteq> PumpSend False" "ev \<noteq> PumpTick False"
  shows "link_ok h (cs @ received [ev]) p'"
proof -
  have nh: "\<not> is_heartbeat f" if "f \<in> set (pu_results p)" for f
  proof -
    have "f \<in> set (map h cs)" using assms(2) that unfolding link_ok_def by (metis Un_iff set_append)
    then show ?thesis using assms(3) answers_no_heartbeat by auto
  qed
  show ?thesis
  proof (cases ev)
    case (PumpRecv f)
    with assms(1,2) show ?thesis
      by (cases f) (auto simp: link_step_def link_ok_def split: if_splits)
  next
    case (PumpSend okay)
    with assms(1,2,4) nh show ?thesis
      by (auto simp: link_step_def link_ok_def split: list.splits if_splits)
  next
    case (PumpTick okay)
    with assms(1,2,5) show ?thesis
      by (auto simp: link_step_def link_ok_def is_heartbeat_def split: if_splits)
  next
    case PumpUnblock
    with assms(1,2) show ?thesis
      by (auto simp: link_step_def link_ok_def split: option.splits if_splits)
  qed (use assms(1,2) in \<open>auto simp: link_step_def link_ok_def split: if_splits\<close>)
qed

lemma link_run_ok:
  "link_run h evs p = Some p' \<Longrightarrow> link_ok h cs p \<Longrightarrow> (\<And>c. frame_answers (h c) \<noteq> None) \<Longrightarrow>
     \<forall>ev \<in> set evs. ev \<noteq> PumpSend False \<and> ev \<noteq> PumpTick False \<Longrightarrow> link_ok h (cs @ received evs) p'"
proof (induction evs arbitrary: p cs)
  case (Cons ev evs)
  then obtain q where q: "link_step h ev p = Some q" "link_run h evs q = Some p'" by (auto simp: bind_eq_Some_conv)
  from Cons.IH [OF q(2) link_step_ok [OF q(1) Cons.prems(2,3)] Cons.prems(3)] Cons.prems(4)
  show ?case by (simp add: received_Cons [of ev evs])
qed (simp add:)

text \<open>Every command is answered once, in order, and heartbeats are numbered without gaps. In every run of a
  session whose sends succeed, with the connector's handlers, whatever the sender and the receiver do in which
  order: what was sent beside the heartbeats, what waits in the channel and what the receiver holds are together
  the answers of the commands received so far, in order, each naming its command; the channel keeps its bound,
  and the heartbeats sent are those from one on.\<close>

theorem commands_answered:
  assumes "link_run (chain_handle [db_handle pe]) evs new_link = Some p"
    "\<forall>ev \<in> set evs. ev \<noteq> PumpSend False \<and> ev \<noteq> PumpTick False"
  shows "map frame_answers (filter (\<lambda>f. \<not> is_heartbeat f) (pu_sent p) @ pu_results p @ (case pu_blocked p of None \<Rightarrow> [] | Some f \<Rightarrow> [f]))
      = map (\<lambda>c. Some (cm_id c)) (received evs)
    \<and> filter is_heartbeat (pu_sent p) = map (\<lambda>n. FrameHeartbeat (n + 1)) [0..<pu_seq p] \<and> length (pu_results p) \<le> 4"
proof -
  have "link_ok (chain_handle [db_handle pe]) [] new_link" by (simp add: link_ok_def new_link_def)
  from link_run_ok [OF assms(1) this _ assms(2)] chain_answers
  have "link_ok (chain_handle [db_handle pe]) (received evs) p" by simp
  then show ?thesis
    by (simp add: link_ok_def results_cap_def chain_answers del: map_append chain_handle.simps)
qed

lemma commands_answered_witness:
  "\<exists>p pe. link_run (chain_handle [db_handle pe]) [PumpRecv (FrameCommand \<lparr>cm_id = ''a'', cm_type = ''PING'', cm_payload = []\<rparr>), PumpTick True,
      PumpUnblock, PumpSend True] new_link = Some p
    \<and> filter is_heartbeat (pu_sent p) = [FrameHeartbeat 1] \<and> map frame_answers (filter (\<lambda>f. \<not> is_heartbeat f) (pu_sent p)) = [Some ''a'']"
proof -
  define pe :: probe_env where "pe = \<lparr>pe_metric = \<lambda>_. None, pe_rows = \<lambda>_. None, pe_now = 0, pe_floats = text_floats\<rparr>"
  let ?evs = "[PumpRecv (FrameCommand \<lparr>cm_id = ''a'', cm_type = ''PING'', cm_payload = []\<rparr>), PumpTick True, PumpUnblock, PumpSend True]"
  obtain p where p: "link_run (chain_handle [db_handle pe]) ?evs new_link = Some p" "pu_results p = []" "pu_blocked p = None" "pu_seq p = 1"
    by (simp add: link_step_def new_link_def results_cap_def)
  from commands_answered [OF p(1)] p show ?thesis
    by (intro exI [of _ p] exI [of _ pe]) (simp add:)
qed

text \<open>The two channels agree on what they do with a command that touches no database.\<close>

lemma channels_agree: "builtin_handle cmd = FrameResult (builtin_dispatch cmd)"
  by (simp add: builtin_handle_def builtin_dispatch_def)

section \<open>Backoff\<close>

lemma wrap_int64_small: "- (2 ^ 63) \<le> n \<Longrightarrow> n < 2 ^ 63 \<Longrightarrow> wrap_int64 n = n"
  by (simp add: wrap_int64_def)

text \<open>While the exponent stays in range it grows by one per wait; then the limit holds.\<close>

definition backoff_wait :: "int \<Rightarrow> nat \<Rightarrow> int" where
  "backoff_wait m k = (if second * 2 ^ k \<le> m then second * 2 ^ k else m)"

lemma backoff_next_spec:
  assumes "second \<le> m" "m < 2 ^ 62" "bo_base b = second" "bo_max b = m" "bo_attempt b = k" "\<forall>j < k. second * 2 ^ j \<le> m"
  shows "backoff_next b = (backoff_wait m k + int (if second * 2 ^ k \<le> m then Suc k else k) * 137 mod second,
     b\<lparr>bo_attempt := (if second * 2 ^ k \<le> m then Suc k else k)\<rparr>)"
proof -
  have lt: "second * 2 ^ k < 2 ^ 63"
  proof (cases k)
    case (Suc j)
    with assms(6) have "second * 2 ^ j \<le> m" by simp
    then have "second * 2 ^ k \<le> 2 * m" using Suc by simp
    with assms(2) show ?thesis by simp
  qed (simp add: second_def)
  have pos: "0 < second * 2 ^ k" by (simp add: second_def)
  with lt have "wrap_int64 (second * 2 ^ k) = second * 2 ^ k" by (intro wrap_int64_small) auto
  with pos assms(3-5) show ?thesis by (auto simp: backoff_next_def backoff_wait_def Let_def)
qed

definition waits :: "nat \<Rightarrow> backoff \<Rightarrow> int list" where
  "waits n b = run_delays (replicate n False) b"

lemma small_jitter: "k < 100 \<Longrightarrow> int k * 137 mod second = int k * 137"
  by (simp add: second_def)

lemma attempts_bounded: "second * 2 ^ k \<le> m \<Longrightarrow> m < 2 ^ 62 \<Longrightarrow> k < 62"
proof (rule ccontr)
  assume m: "second * 2 ^ k \<le> m" "m < 2 ^ 62" and k: "\<not> k < 62"
  then have "(2::int) ^ 62 \<le> 2 ^ k" by (intro power_increasing) auto
  then have "(2::int) ^ 62 \<le> second * 2 ^ k" by (simp add: second_def)
  with m show False by simp
qed

lemma run_delays_spec:
  assumes "second \<le> m" "m < 2 ^ 62"
  shows "bo_base b = second \<Longrightarrow> bo_max b = m \<Longrightarrow> bo_attempt b = k \<Longrightarrow> \<forall>j < k. second * 2 ^ j \<le> m \<Longrightarrow>
     \<exists>js. run_delays (replicate n False) b = map (\<lambda>(i, j). backoff_wait m i + j) (zip [k..<k + n] js) \<and> length js = n
       \<and> (\<forall>j \<in> set js. 0 \<le> j \<and> j < 10000)"
proof (induction n arbitrary: b k)
  case (Suc n)
  define k1 where "k1 = (if second * 2 ^ k \<le> m then Suc k else k)"
  define b1 where "b1 = b\<lparr>bo_attempt := k1\<rparr>"
  have nx: "backoff_next b = (backoff_wait m k + int k1 * 137 mod second, b1)"
    using backoff_next_spec [OF assms Suc.prems] by (simp only: k1_def b1_def)
  have k1: "\<forall>j < k1. second * 2 ^ j \<le> m" using Suc.prems(4) by (auto simp: less_Suc_eq k1_def)
  have b1: "bo_base b1 = second" "bo_max b1 = m" "bo_attempt b1 = k1" using Suc.prems(1,2) by (simp_all add: b1_def)
  have small: "k1 \<le> 62"
  proof (cases k1)
    case (Suc j)
    with k1 have "second * 2 ^ j \<le> m" by (metis lessI)
    from attempts_bounded [OF this assms(2)] Suc show ?thesis by simp
  qed simp
  then have jit: "int k1 * 137 mod second = int k1 * 137" by (intro small_jitter) simp
  have "\<exists>js. run_delays (replicate n False) b1 = map (\<lambda>(i, j). backoff_wait m i + j) (zip [k1..<k1 + n] js) \<and> length js = n
      \<and> (\<forall>j \<in> set js. 0 \<le> j \<and> j < 10000)"
    by (rule Suc.IH [OF b1 k1])
  then obtain js where js: "run_delays (replicate n False) b1
      = map (\<lambda>(i, j). backoff_wait m i + j) (zip [k1..<k1 + n] js)" "length js = n" "\<forall>j \<in> set js. 0 \<le> j \<and> j < 10000" by blast
  have same: "map (\<lambda>(i, j). backoff_wait m i + j) (zip [k1..<k1 + n] js) = map (\<lambda>(i, j). backoff_wait m i + j) (zip [Suc k..<Suc k + n] js)"
  proof (cases "second * 2 ^ k \<le> m")
    case False
    have const: "backoff_wait m i = m" if "k \<le> i" for i
    proof -
      have "second * 2 ^ k \<le> second * 2 ^ i" using that by (simp add: second_def)
      with False show ?thesis by (simp add: backoff_wait_def)
    qed
    from False have "k1 = k" by (simp add: k1_def)
    then show ?thesis using js(2) by (intro nth_equalityI) (simp_all add: const del: upt_Suc)
  qed (simp add: k1_def)
  have r: "run_delays (replicate (Suc n) False) b = (backoff_wait m k + int k1 * 137) # run_delays (replicate n False) b1"
    using nx jit by (simp only: replicate_Suc run_delays.simps if_False prod.case)
  have range: "[k..<k + Suc n] = k # [Suc k..<Suc k + n]" by (simp add: upt_conv_Cons del: upt_Suc)
  have "run_delays (replicate (Suc n) False) b = map (\<lambda>(i, j). backoff_wait m i + j) (zip [k..<k + Suc n] (int k1 * 137 # js))"
    unfolding r js(1) same range by simp
  with js(2,3) small show ?case by (intro exI [of _ "int k1 * 137 # js"]) simp
qed simp

text \<open>C30: the waits between sessions double up to the limit, and a handshake starts them over. Of the sessions after
  one that shook hands, the wait before the first is one second, each further one twice the one before as long as
  that is within the limit, then the limit itself; what is added to spread connectors is below ten
  microseconds. The hypothesis: the limit is at least a second, and no more than 2 to the 62 nanoseconds.\<close>

theorem backoff_doubles:
  assumes "second \<le> m" "m < 2 ^ 62" "bo_base b = second" "bo_max b = m"
  shows "\<exists>js. run_delays (True # replicate n False) b = map (\<lambda>(i, j). (if second * 2 ^ i \<le> m then second * 2 ^ i else m) + j) (zip [0..<Suc n] js)
    \<and> length js = Suc n \<and> (\<forall>j \<in> set js. 0 \<le> j \<and> j < 10000)"
proof -
  have "run_delays (True # replicate n False) b = run_delays (replicate (Suc n) False) (backoff_reset b)"
    by (simp add: backoff_reset_def)
  with run_delays_spec [OF assms(1,2), of "backoff_reset b" 0 "Suc n"] assms(3,4)
  show ?thesis by (simp add: backoff_reset_def backoff_wait_def del: run_delays.simps replicate_Suc)
qed

lemma backoff_doubles_witness:
  "\<exists>js. run_delays (True # replicate 9 False) (session_backoff 0)
      = map (\<lambda>(i, j). (if second * 2 ^ i \<le> 300 * second then second * 2 ^ i else 300 * second) + j) (zip [0..<Suc 9] js)
    \<and> length js = Suc 9 \<and> (\<forall>j \<in> set js. 0 \<le> j \<and> j < 10000)"
  by (rule backoff_doubles) (simp_all add: session_backoff_def new_backoff_def default_max_backoff_def second_def)

end
