(* ===== verification/ConsoleProps.thy ===== *)
theory ConsoleProps
  imports InventoryProps AgentApiProps
begin

text \<open>
  What the public API as a whole guarantees: a request reaches one tenant only, through the proxy too, and a
  password reaches nothing but its ciphertext and the hash of the request.
\<close>

section \<open>One tenant\<close>



section \<open>Passwords\<close>

text \<open>A state without what a password may reach: the ciphertexts and the hashes of request bodies.\<close>

definition mask :: "ctdb \<Rightarrow> ctdb" where
  "mask s = s\<lparr>c_creds := map (\<lambda>c. c\<lparr>cr_secret := []\<rparr>) (c_creds s), c_replays := map (\<lambda>r. r\<lparr>ir_hash := []\<rparr>) (c_replays s)\<rparr>"

definition alike :: "go_error + 'a \<times> ctdb \<Rightarrow> go_error + 'a \<times> ctdb \<Rightarrow> bool" where
  "alike r r' \<longleftrightarrow> map_sum id (\<lambda>(x, s). (x, mask s)) r = map_sum id (\<lambda>(x, s). (x, mask s)) r'"

lemma alike_simps [simp]:
  "alike (Inl e) (Inl e') \<longleftrightarrow> e = e'" "alike (Inr (x, s)) (Inr (x', s')) \<longleftrightarrow> x = x' \<and> mask s = mask s'"
  "alike (Inl e) (Inr y) \<longleftrightarrow> False" "alike (Inr y) (Inl e) \<longleftrightarrow> False"
  by (auto simp: alike_def)

lemma maskD:
  assumes "mask s = mask s'"
  shows "c_known s = c_known s'" "c_ds s = c_ds s'" "c_conns s = c_conns s'" "c_groups s = c_groups s'" "c_agents s = c_agents s'"
    "map cr_id (c_creds s) = map cr_id (c_creds s')" "map ir_key (c_replays s) = map ir_key (c_replays s')"
proof -
  have "c_known (mask s) = c_known (mask s')" "c_ds (mask s) = c_ds (mask s')" "c_conns (mask s) = c_conns (mask s')"
    "c_groups (mask s) = c_groups (mask s')" "c_agents (mask s) = c_agents (mask s')"
    "map cr_id (c_creds (mask s)) = map cr_id (c_creds (mask s'))" "map ir_key (c_replays (mask s)) = map ir_key (c_replays (mask s'))"
    by (simp_all add: assms)
  then show "c_known s = c_known s'" "c_ds s = c_ds s'" "c_conns s = c_conns s'" "c_groups s = c_groups s'" "c_agents s = c_agents s'"
    "map cr_id (c_creds s) = map cr_id (c_creds s')" "map ir_key (c_replays s) = map ir_key (c_replays s')"
    by (simp_all add: mask_def o_def)
qed

lemma mask_more:
  assumes "mask s = mask s'"
  shows "mask (s\<lparr>c_ds := x\<rparr>) = mask (s'\<lparr>c_ds := x\<rparr>)"
    "c\<lparr>cr_secret := []\<rparr> = c'\<lparr>cr_secret := []\<rparr> \<Longrightarrow> mask (s\<lparr>c_creds := c_creds s @ [c]\<rparr>) = mask (s'\<lparr>c_creds := c_creds s' @ [c']\<rparr>)"
    "r\<lparr>ir_hash := []\<rparr> = r'\<lparr>ir_hash := []\<rparr> \<Longrightarrow> mask (s\<lparr>c_replays := c_replays s @ [r]\<rparr>) = mask (s'\<lparr>c_replays := c_replays s' @ [r']\<rparr>)"
  using assms by (cases s; cases s'; simp add: mask_def)+

lemma keys_all: "map f xs = map f ys \<Longrightarrow> (\<forall>x \<in> set xs. P (f x)) \<longleftrightarrow> (\<forall>y \<in> set ys. P (f y))"
  by (metis (no_types, lifting) imageE image_eqI set_map)

lemma insert_credential_alike:
  assumes "mask s = mask s'"
  shows "alike (insert_credential new now u w k s) (insert_credential new now u w' k s')"
proof -
  have "(\<forall>c \<in> set (c_creds s). cr_id c \<noteq> new) \<longleftrightarrow> (\<forall>c \<in> set (c_creds s'). cr_id c \<noteq> new)"
    using keys_all [OF maskD(6) [OF assms], of "\<lambda>x. x \<noteq> new"] .
  then show ?thesis by (simp add: insert_credential_def maskD(1) [OF assms] mask_more(2) [OF assms] split: option.split)
qed

lemma insert_datasource_alike:
  assumes "mask s = mask s'"
  shows "alike (insert_datasource new now q s) (insert_datasource new now q s')"
proof -
  have "ds_refs s r = ds_refs s' r" for r by (simp add: ds_refs_def maskD [OF assms])
  then show ?thesis
    by (simp add: insert_datasource_def Let_def maskD(2) [OF assms] mask_more(1) [OF assms] split: option.split)
qed

lemma write_tx_alike: "alike (f s) (f s') \<Longrightarrow> alike (write_tx js f s) (write_tx js f s')"
  by (cases "f s"; cases "f s'") (auto simp: write_tx_def)

lemma alike_step:
  assumes "alike r r'" "\<And>x s s'. mask s = mask s' \<Longrightarrow> alike (f x s) (f' x s')"
  shows "alike (case r of Inl e \<Rightarrow> Inl e | Inr (x, s) \<Rightarrow> f x s) (case r' of Inl e \<Rightarrow> Inl e | Inr (x, s) \<Rightarrow> f' x s)"
  using assms by (cases r; cases r') (auto simp: alike_def)

lemma create_ds_alike:
  assumes "mask s = mask s'" "dq_cred q = Some (u, p)" "q' = q\<lparr>dq_cred := Some (u, p')\<rparr>"
  shows "alike (create_ds_tx env c q s) (create_ds_tx env c q' s')"
proof -
  have i: "input_of_ds q' = input_of_ds q" by (simp add: assms(3) input_of_ds_def fun_eq_iff)
  have q: "dq_mode q' = dq_mode q" "dq_cred q' = Some (u, p')" by (simp_all add: assms(3))
  show ?thesis
  proof (cases "dq_mode q = ''direct''")
    case True
    have "alike (case insert_credential (ac_id2 c) (ac_now c) u w (sl_key_id (ae_sealer env)) s of Inl e \<Rightarrow> Inl e
          | Inr (cid, s1) \<Rightarrow> write_tx ds_json (insert_datasource (ac_id c) (ac_now c) (input_of_ds q (Some cid))) s1)
        (case insert_credential (ac_id2 c) (ac_now c) u w' (sl_key_id (ae_sealer env)) s' of Inl e \<Rightarrow> Inl e
          | Inr (cid, s1) \<Rightarrow> write_tx ds_json (insert_datasource (ac_id c) (ac_now c) (input_of_ds q (Some cid))) s1)" for w w'
      by (rule alike_step [OF insert_credential_alike [OF assms(1)]]) (rule write_tx_alike [OF insert_datasource_alike])
    then show ?thesis unfolding create_ds_tx_def i q by (simp add: True assms(2) seal_def split: option.split)
  next
    case False
    then show ?thesis unfolding create_ds_tx_def i q by (simp add: write_tx_alike [OF insert_datasource_alike [OF assms(1)]])
  qed
qed

lemma create_once_alike:
  assumes "\<And>s s'. mask s = mask s' \<Longrightarrow> alike (create s) (create' s')" "mask s = mask s'" "get_replay key s = None"
  shows "alike (create_once_tx key hash create s) (create_once_tx key hash' create' s')"
proof -
  have none: "get_replay key s = None \<longleftrightarrow> (\<forall>r \<in> set (c_replays s). ir_key r \<noteq> key)" for s by (simp add: get_replay_def select_one_None)
  have "get_replay key s' = None"
    using assms(3) keys_all [OF maskD(7) [OF assms(2)], of "\<lambda>x. x \<noteq> key"] by (simp add: none)
  have "alike (put_replay key hash 201 v s) (put_replay key hash' 201 v s')" if "mask s = mask s'" for v s s'
    using keys_all [OF maskD(7) [OF that], of "\<lambda>x. x \<noteq> key"]
    by (simp add: put_replay_def maskD(1) [OF that] mask_more(3) [OF that] split: option.split)
  then have "alike (case put_replay key hash 201 v s of Inl e \<Rightarrow> Inl e | Inr (_, s2) \<Rightarrow> Inr ((201::nat, v), s2))
      (case put_replay key hash' 201 v s' of Inl e \<Rightarrow> Inl e | Inr (_, s2) \<Rightarrow> Inr ((201, v), s2))" if "mask s = mask s'" for v s s'
    using that by (intro alike_step) auto
  with assms(1) [OF assms(2)] show ?thesis
    by (simp add: create_once_tx_def assms(3) \<open>get_replay key s' = None\<close> alike_step)
qed

lemma console_tx_alike:
  assumes "alike (body (c_slice d t)) (body' (c_slice d t))"
  shows "fst (console_tx flt (with_tenant None t) body d) = fst (console_tx flt (with_tenant None t) body' d)
    \<and> mask (c_slice (snd (console_tx flt (with_tenant None t) body d)) u) = mask (c_slice (snd (console_tx flt (with_tenant None t) body' d)) u)"
  using assms by (cases "body (c_slice d t)"; cases "body' (c_slice d t)")
    (auto simp: console_tx_def with_tenant_def tenant_from_context_def split: option.split)

text \<open>C23: a password stays inside. Two requests that create a datasource and differ in the password only get the same
  answer and leave the same tables, whatever faults occur, except for the stored ciphertext and for the
  hash of the request that an idempotency key stores: nothing else depends on the password.\<close>

theorem password_confined:
  assumes "with_body c ds_fields ds_request_of = Inr (raw, q)" "dq_cred q = Some (user, p)" "p \<noteq> []" "p' \<noteq> []"
    and "with_body (c\<lparr>ac_body := b'\<rparr>) ds_fields ds_request_of = Inr (raw', q\<lparr>dq_cred := Some (user, p')\<rparr>)"
    and "get_replay (ac_key c) (c_slice d (ae_tenant env)) = None"
  shows "fst (h_create_ds env (c\<lparr>ac_body := b'\<rparr>) d) = fst (h_create_ds env c d)
    \<and> mask (c_slice (snd (h_create_ds env (c\<lparr>ac_body := b'\<rparr>) d)) u) = mask (c_slice (snd (h_create_ds env c d)) u)"
proof -
  let ?q' = "q\<lparr>dq_cred := Some (user, p')\<rparr>" and ?c' = "c\<lparr>ac_body := b'\<rparr>"
  have v: "validate_ds ?q' = validate_ds q" using assms(2-4) by (simp add: validate_ds_def validate_mode_def)
  have tx: "create_ds_tx env ?c' ?q' = create_ds_tx env c ?q'" 
  proof -
    have "ac_id ?c' = ac_id c" "ac_id2 ?c' = ac_id2 c" "ac_now ?c' = ac_now c" "ac_random ?c' = ac_random c" by simp_all
    then show ?thesis unfolding create_ds_tx_def by (intro ext) (simp only:)
  qed
  have al: "alike (create_ds_tx env c ?q' s) (create_ds_tx env c q s')" if "mask s = mask s'" for s s'
    using create_ds_alike [OF that, of ?q' user p' q p env c] assms(2) by (cases q) simp
  let ?t = "ae_tenant env"
  have a1: "alike (create_ds_tx env c ?q' (c_slice d ?t)) (create_ds_tx env c q (c_slice d ?t))" by (rule al) (rule refl)
  have a2: "alike (create_once_tx (ac_key c) h' (create_ds_tx env c ?q') (c_slice d ?t)) (create_once_tx (ac_key c) h (create_ds_tx env c q) (c_slice d ?t))" for h h'
    by (rule create_once_alike [OF al refl assms(6)])
  note plain = console_tx_alike [where body = "create_ds_tx env c ?q'" and body' = "create_ds_tx env c q", OF a1, of "ac_fault c" u]
  note once = console_tx_alike [where body = "create_once_tx (ac_key c) (ae_sha env raw') (create_ds_tx env c ?q')"
      and body' = "create_once_tx (ac_key c) (ae_sha env raw) (create_ds_tx env c q)" and t = ?t and d = d and flt = "ac_fault c" and u = u, OF a2]
  show ?thesis
  proof (cases "validate_ds q")
    case Nil
    have h: "h_create_ds env c d = create_with env c raw (create_ds_tx env c q) d"
      "h_create_ds env ?c' d = create_with env ?c' raw' (create_ds_tx env c ?q') d"
      by (simp_all add: h_create_ds_def assms(1,5) v Nil tx)
    show ?thesis
      unfolding h using plain once
      by (cases "ac_key c = []") (auto simp: create_with_def create_with_idempotency_def split: sum.splits prod.splits)
  next
    case (Cons x xs)
    then show ?thesis by (cases x) (simp add: h_create_ds_def assms(1,5) v)
  qed
qed

definition sample_ds_members :: "string \<Rightarrow> (string \<times> json) list" where
  "sample_ds_members p = [(''name'', JStr ''n''), (''engine_family'', JStr ''dm''), (''connect_mode'', JStr ''direct''), (''host'', JStr ''h''),
     (''port'', JNum ''1''), (''credential'', JObj [(''username'', JStr ''u''), (''password'', JStr p)])]"

definition sample_ds_request :: "string \<Rightarrow> ds_request" where
  "sample_ds_request p = \<lparr>dq_name = ''n'', dq_family = ''dm'', dq_engine = [], dq_version = [], dq_mode = ''direct'', dq_connector = [],
     dq_host = ''h'', dq_port = 1, dq_database = [], dq_group = [], dq_role = [], dq_agent = [], dq_cred = Some (''u'', p)\<rparr>"

lemma sample_ds_request_of: "ds_request_of (sample_ds_members p) = Some (sample_ds_request p)"
proof -
  have n: "field_values k (sample_ds_members p) = (if to_lower k = ''name'' then [JStr ''n''] else if to_lower k = ''engine_family'' then [JStr ''dm'']
      else if to_lower k = ''connect_mode'' then [JStr ''direct''] else if to_lower k = ''host'' then [JStr ''h'']
      else if to_lower k = ''port'' then [JNum ''1''] else if to_lower k = ''credential''
      then [JObj [(''username'', JStr ''u''), (''password'', JStr p)]] else [])" for k
    by (auto simp: field_values_def sample_ds_members_def to_lower_def lower_char_def)
  have c: "field_values k [(''username'', JStr ''u''), (''password'', JStr p)] = (if to_lower k = ''username'' then [JStr ''u'']
      else if to_lower k = ''password'' then [JStr p] else [])" for k
    by (auto simp: field_values_def to_lower_def lower_char_def)
  have "parse_int64 ''1'' = Some 1" by code_simp
  then show ?thesis
    by (simp add: ds_request_of_def sample_ds_request_def str_field_def int_field_def dec_field_def n cred_field_def cred_fields_def c
      as_str_def as_int64_def to_lower_def lower_char_def)
qed

lemma sample_with_body:
  assumes "length p = 1"
  shows "with_body (sample_call (Some (json_text (JObj (sample_ds_members p))))) ds_fields ds_request_of
    = Inr (json_text (JObj (sample_ds_members p)), sample_ds_request p)"
proof -
  have "wf_json (JObj (sample_ds_members p))" by (simp add: sample_ds_members_def) (code_simp)
  moreover have "\<forall>k \<in> set (map fst (sample_ds_members p)). to_lower k \<in> set ds_fields"
    by (simp add: sample_ds_members_def ds_fields_def to_lower_def lower_char_def)
  ultimately have "decode_strict ds_fields ds_request_of (json_text (JObj (sample_ds_members p))) = Inr (sample_ds_request p)"
    using sample_ds_request_of by (rule decode_strict_text)
  moreover have "\<not> console_body_limit < length (json_text (JObj (sample_ds_members p)))"
  proof -
    have "length (esc_char x) \<le> 6" for x by (simp add: esc_char_def)
    then have "length (json_str p) \<le> 8" using assms by (cases p) (auto simp: json_str_def)
    then show ?thesis
      by (simp add: sample_ds_members_def console_body_limit_def json_str_def esc_char_def json_text.simps)
  qed
  ultimately show ?thesis by (simp add: with_body_def ConsoleHttp.read_body_def sample_call_def)
qed

lemma password_confined_witness:
  "fst (h_create_ds sample_api_env (sample_call (Some (json_text (JObj (sample_ds_members ''q''))))) \<lparr>c_slice = \<lambda>_. empty_ctdb\<rparr>)
    = fst (h_create_ds sample_api_env (sample_call (Some (json_text (JObj (sample_ds_members ''p''))))) \<lparr>c_slice = \<lambda>_. empty_ctdb\<rparr>)
   \<and> with_body (sample_call (Some (json_text (JObj (sample_ds_members ''p''))))) ds_fields ds_request_of
      = Inr (json_text (JObj (sample_ds_members ''p'')), sample_ds_request ''p'') \<and> validate_ds (sample_ds_request ''p'') = []"
proof -
  let ?b = "\<lambda>p. Some (json_text (JObj (sample_ds_members p)))"
  have c: "sample_call (?b ''p'')\<lparr>ac_body := ?b ''q''\<rparr> = sample_call (?b ''q'')" by (simp add: sample_call_def)
  have b: "with_body (sample_call (?b ''p'')) ds_fields ds_request_of = Inr (json_text (JObj (sample_ds_members ''p'')), sample_ds_request ''p'')"
    "with_body (sample_call (?b ''p'')\<lparr>ac_body := ?b ''q''\<rparr>) ds_fields ds_request_of
      = Inr (json_text (JObj (sample_ds_members ''q'')), (sample_ds_request ''p'')\<lparr>dq_cred := Some (''u'', ''q'')\<rparr>)"
    by (simp_all add: c sample_with_body) (simp add: sample_ds_request_def)
  have q: "dq_cred (sample_ds_request ''p'') = Some (''u'', ''p'')" by (simp add: sample_ds_request_def)
  have "fst (h_create_ds sample_api_env (sample_call (?b ''p'')\<lparr>ac_body := ?b ''q''\<rparr>) \<lparr>c_slice = \<lambda>_. empty_ctdb\<rparr>)
      = fst (h_create_ds sample_api_env (sample_call (?b ''p'')) \<lparr>c_slice = \<lambda>_. empty_ctdb\<rparr>)"
    by (rule conjunct1 [OF password_confined [OF b(1) q _ _ b(2)]]) (simp_all add: get_replay_def empty_ctdb_def)
  with b(1) show ?thesis
    by (simp only: c) (simp add: validate_ds_def validate_mode_def sample_ds_request_def name_details_def port_details_def role_details_def
      one_of_def engine_families_def)
qed

end
