(* ===== verification/DirectConn.thy ===== *)
theory DirectConn
  imports Collector InventoryProps
begin

text \<open>
  The direct channel of the control plane (\<^verbatim>\<open>console/internal/directconn\<close>): one pool of connections for a
  datasource, built lazily from its stored credential, its release, the connection test and the queriers of the
  probes. The driver is a parameter: what becomes of a connection string with a password, and what a pool answers.
\<close>

section \<open>directconn.go\<close>

record direct_config =
  dg_idle :: int
  dg_timeout :: int
  dg_max :: nat

definition default_direct_config :: direct_config where
  "default_direct_config = \<lparr>dg_idle = 600 * second, dg_timeout = 8 * second, dg_max = 4\<rparr>"

definition effective_timeout :: "direct_config \<Rightarrow> int" where
  "effective_timeout c = (if dg_timeout c \<le> 0 then dg_timeout default_direct_config else dg_timeout c)"

text \<open>A pool, with the datasource that it was built for.\<close>

record direct_pool =
  dpo_ds :: string
  dpo_base :: string
  dpo_password :: string

datatype build_fate = PoolBuilt | ParseFails | NewFails

record direct_env =
  dv_blk :: block_cipher
  dv_sealer :: sealer
  dv_config :: direct_config
  dv_build :: "string \<Rightarrow> string \<Rightarrow> build_fate"

text \<open>The manager: pools by their number in the order in which they were built, those registered for a datasource with
  the time of their last use, and those that have been closed.\<close>

record pool_manager =
  pm_pools :: "string \<rightharpoonup> nat \<times> int"
  pm_all :: "direct_pool list"
  pm_closed :: "nat set"

definition new_manager :: pool_manager where
  "new_manager = \<lparr>pm_pools = Map.empty, pm_all = [], pm_closed = {}\<rparr>"

definition connect_failed :: "go_error \<Rightarrow> go_error" where
  "connect_failed e = ApiErr CodeDatasourceConnectFailed [(''connection'', ''failed'')] (Some e)"

definition dsn_base :: "direct_conn_info \<Rightarrow> string" where
  "dsn_base i = ''host='' @ dc_host i @ '' port='' @ int_str (dc_port i) @ '' dbname='' @ dc_database i @ '' user='' @ dc_username i
     @ '' sslmode=prefer''"

definition build_pool :: "direct_env \<Rightarrow> string \<Rightarrow> direct_conn_info \<Rightarrow> go_error + direct_pool" where
  "build_pool v did i = (case open_sealed (dv_blk v) (dv_sealer v) (dc_secret i) of
     Inl e \<Rightarrow> Inl (api_wrap CodeInternalError (Plain ''credcrypto''))
   | Inr password \<Rightarrow> (case dv_build v (dsn_base i) password of
       PoolBuilt \<Rightarrow> Inr \<lparr>dpo_ds = did, dpo_base = dsn_base i, dpo_password = password\<rparr>
     | ParseFails \<Rightarrow> Inl (connect_failed (Plain ''parse config'')) | NewFails \<Rightarrow> Inl (connect_failed (Plain ''pool''))))"

text \<open>The three parts of \<open>poolFor\<close>: the lookup under the lock, reading and building without it, and the registration
  under the lock, which closes a pool built twice.\<close>

definition pool_cached :: "string \<Rightarrow> int \<Rightarrow> pool_manager \<Rightarrow> (nat \<times> pool_manager) option" where
  "pool_cached did now m = (case pm_pools m did of None \<Rightarrow> None
     | Some (n, t) \<Rightarrow> Some (n, m\<lparr>pm_pools := (pm_pools m)(did \<mapsto> (n, now))\<rparr>))"

definition read_conn_info :: "tx_fault \<Rightarrow> string option \<Rightarrow> string \<Rightarrow> cdb \<Rightarrow> go_error + direct_conn_info" where
  "read_conn_info flt ctx did d = fst (console_tx flt ctx (\<lambda>s. map_sum id (\<lambda>i. (i, s)) (get_direct_conn_info did s)) d)"

definition pool_built :: "direct_pool \<Rightarrow> pool_manager \<Rightarrow> nat \<times> pool_manager" where
  "pool_built p m = (length (pm_all m), m\<lparr>pm_all := pm_all m @ [p]\<rparr>)"

definition pool_register :: "string \<Rightarrow> nat \<Rightarrow> int \<Rightarrow> pool_manager \<Rightarrow> nat \<times> pool_manager" where
  "pool_register did n now m = (case pm_pools m did of
     Some (k, t) \<Rightarrow> (k, m\<lparr>pm_pools := (pm_pools m)(did \<mapsto> (k, now)), pm_closed := insert n (pm_closed m)\<rparr>)
   | None \<Rightarrow> (n, m\<lparr>pm_pools := (pm_pools m)(did \<mapsto> (n, now))\<rparr>))"

definition pool_for :: "direct_env \<Rightarrow> tx_fault \<Rightarrow> string option \<Rightarrow> string \<Rightarrow> int \<Rightarrow> cdb \<Rightarrow> pool_manager \<Rightarrow> (go_error + nat) \<times> pool_manager" where
  "pool_for v flt ctx did now d m = (case pool_cached did now m of Some (n, m1) \<Rightarrow> (Inr n, m1)
     | None \<Rightarrow> (case read_conn_info flt ctx did d of Inl e \<Rightarrow> (Inl e, m)
       | Inr i \<Rightarrow> (case build_pool v did i of Inl e \<Rightarrow> (Inl e, m)
         | Inr p \<Rightarrow> (case pool_built p m of (n, m1) \<Rightarrow> (case pool_register did n now m1 of (k, m2) \<Rightarrow> (Inr k, m2))))))"

definition pool_destroy :: "string \<Rightarrow> pool_manager \<Rightarrow> pool_manager" where
  "pool_destroy did m = (case pm_pools m did of None \<Rightarrow> m
     | Some (n, t) \<Rightarrow> m\<lparr>pm_pools := (pm_pools m)(did := None), pm_closed := insert n (pm_closed m)\<rparr>)"

definition reap_idle :: "direct_config \<Rightarrow> int \<Rightarrow> pool_manager \<Rightarrow> pool_manager" where
  "reap_idle c now m = (let stale = (\<lambda>v. case v of None \<Rightarrow> False | Some (n, t) \<Rightarrow> dg_idle c < now - t) in
     m\<lparr>pm_pools := (\<lambda>did. if stale (pm_pools m did) then None else pm_pools m did),
       pm_closed := pm_closed m \<union> {n. \<exists>did t. pm_pools m did = Some (n, t) \<and> dg_idle c < now - t}\<rparr>)"

definition close_pools :: "pool_manager \<Rightarrow> pool_manager" where
  "close_pools m = m\<lparr>pm_pools := Map.empty, pm_closed := pm_closed m \<union> {n. \<exists>did t. pm_pools m did = Some (n, t)}\<rparr>"

section \<open>testconn.go\<close>

datatype version_answer = VersionIs string | DeadlineExceeded | QueryFails

definition test_connection :: "direct_env \<Rightarrow> (direct_pool \<Rightarrow> version_answer) \<Rightarrow> tx_fault \<Rightarrow> string option \<Rightarrow> string \<Rightarrow> int \<Rightarrow> cdb
    \<Rightarrow> pool_manager \<Rightarrow> (go_error + string) \<times> pool_manager" where
  "test_connection v ask flt ctx did now d m = (case pool_for v flt ctx did now d m of (Inl e, m1) \<Rightarrow> (Inl e, m1)
     | (Inr n, m1) \<Rightarrow> (case ask (pm_all m1 ! n) of VersionIs s \<Rightarrow> (Inr s, m1)
         | DeadlineExceeded \<Rightarrow> (Inl (api_err CodeDatasourceTestTimeout), m1)
         | QueryFails \<Rightarrow> (Inl (connect_failed (Plain ''query'')), pool_destroy did m1)))"

section \<open>accessor.go and querier.go\<close>

definition direct_dispatch :: "command \<Rightarrow> command_result" where
  "direct_dispatch cmd = builtin_dispatch cmd"

definition direct_query_metric :: "direct_env \<Rightarrow> (direct_pool \<Rightarrow> metric_sql \<Rightarrow> string option option) \<Rightarrow> tx_fault \<Rightarrow> string option
    \<Rightarrow> string \<Rightarrow> int \<Rightarrow> cdb \<Rightarrow> metric_sql \<Rightarrow> pool_manager \<Rightarrow> (go_error + string option) \<times> pool_manager" where
  "direct_query_metric v db flt ctx did now d sql m = (case pool_for v flt ctx did now d m of (Inl e, m1) \<Rightarrow> (Inl e, m1)
     | (Inr n, m1) \<Rightarrow> (case db (pm_all m1 ! n) sql of None \<Rightarrow> (Inl (Wrapf ''directconn: query metric'' (Plain ''db'')), m1)
         | Some x \<Rightarrow> (Inr x, m1)))"

definition direct_stringify :: "db_value \<Rightarrow> string" where
  "direct_stringify v = (case v of DbNull \<Rightarrow> [] | DbText s \<Rightarrow> s | DbBool b \<Rightarrow> (if b then ''true'' else ''false'')
     | DbTime t \<Rightarrow> time_text t | DbFloat s \<Rightarrow> s | DbInt n \<Rightarrow> int_str n | DbOther s \<Rightarrow> s)"

definition direct_row :: "string list \<Rightarrow> db_value list \<Rightarrow> sql_row" where
  "direct_row names vs = rev (zip names (map direct_stringify vs))"

definition direct_query_rows :: "direct_env \<Rightarrow> (direct_pool \<Rightarrow> source_sql \<Rightarrow> db_answer option) \<Rightarrow> tx_fault \<Rightarrow> string option
    \<Rightarrow> string \<Rightarrow> int \<Rightarrow> cdb \<Rightarrow> source_sql \<Rightarrow> nat \<Rightarrow> pool_manager \<Rightarrow> (go_error + sql_row list) \<times> pool_manager" where
  "direct_query_rows v db flt ctx did now d sql maxr m = (case pool_for v flt ctx did now d m of (Inl e, m1) \<Rightarrow> (Inl e, m1)
     | (Inr n, m1) \<Rightarrow> ((case db (pm_all m1 ! n) sql of None \<Rightarrow> Inl (Wrapf ''directconn: query rows'' (Plain ''db''))
         | Some a \<Rightarrow> if 0 < maxr \<and> maxr < length (da_rows a) then Inr (map (direct_row (da_names a)) (take maxr (da_rows a)))
             else if da_failed a then Inl (Wrapf ''directconn: read rows'' (Plain ''db''))
             else Inr (map (direct_row (da_names a)) (da_rows a))), m1))"

section \<open>Pools under concurrent requests\<close>

text \<open>Requests that are building, by a number: the datasource and the pool that is not registered yet.\<close>

type_synonym builders = "nat \<rightharpoonup> string \<times> nat"

inductive pool_reach :: "direct_env \<Rightarrow> pool_manager \<Rightarrow> builders \<Rightarrow> bool" for v where
  pool_start: "pool_reach v new_manager Map.empty"
| pool_hit: "pool_reach v m bs \<Longrightarrow> pool_cached did now m = Some (n, m') \<Longrightarrow> pool_reach v m' bs"
| pool_build: "pool_reach v m bs \<Longrightarrow> bs k = None \<Longrightarrow> build_pool v did i = Inr p \<Longrightarrow> pool_built p m = (n, m') \<Longrightarrow>
    pool_reach v m' (bs(k \<mapsto> (did, n)))"
| pool_reg: "pool_reach v m bs \<Longrightarrow> bs k = Some (did, n) \<Longrightarrow> pool_register did n now m = (j, m') \<Longrightarrow> pool_reach v m' (bs(k := None))"
| pool_drop: "pool_reach v m bs \<Longrightarrow> pool_reach v (pool_destroy did m) bs"
| pool_reap: "pool_reach v m bs \<Longrightarrow> pool_reach v (reap_idle (dv_config v) now m) bs"
| pool_close: "pool_reach v m bs \<Longrightarrow> pool_reach v (close_pools m) bs"

text \<open>An open pool has exactly one owner: a datasource's registration or a builder.\<close>

definition pools_ok :: "pool_manager \<Rightarrow> builders \<Rightarrow> bool" where
  "pools_ok m bs \<longleftrightarrow> (\<forall>did n t. pm_pools m did = Some (n, t) \<longrightarrow> n < length (pm_all m) \<and> n \<notin> pm_closed m \<and> dpo_ds (pm_all m ! n) = did)
     \<and> (\<forall>k did n. bs k = Some (did, n) \<longrightarrow> n < length (pm_all m) \<and> n \<notin> pm_closed m \<and> dpo_ds (pm_all m ! n) = did
          \<and> (\<forall>t. pm_pools m did \<noteq> Some (n, t)) \<and> (\<forall>j did'. bs j = Some (did', n) \<longrightarrow> j = k))
     \<and> (\<forall>n < length (pm_all m). n \<notin> pm_closed m \<longrightarrow> (\<exists>did t. pm_pools m did = Some (n, t)) \<or> (\<exists>k did. bs k = Some (did, n)))"

lemma pools_okI:
  assumes "\<And>did n t. pm_pools m did = Some (n, t) \<Longrightarrow> n < length (pm_all m) \<and> n \<notin> pm_closed m \<and> dpo_ds (pm_all m ! n) = did"
    and "\<And>k did n. bs k = Some (did, n) \<Longrightarrow> n < length (pm_all m) \<and> n \<notin> pm_closed m \<and> dpo_ds (pm_all m ! n) = did
       \<and> (\<forall>t. pm_pools m did \<noteq> Some (n, t)) \<and> (\<forall>j did'. bs j = Some (did', n) \<longrightarrow> j = k)"
    and "\<And>n. n < length (pm_all m) \<Longrightarrow> n \<notin> pm_closed m \<Longrightarrow> (\<exists>did t. pm_pools m did = Some (n, t)) \<or> (\<exists>k did. bs k = Some (did, n))"
  shows "pools_ok m bs"
  unfolding pools_ok_def using assms by blast

lemma pools_okD:
  assumes "pools_ok m bs"
  shows "pm_pools m did = Some (n, t) \<Longrightarrow> n < length (pm_all m) \<and> n \<notin> pm_closed m \<and> dpo_ds (pm_all m ! n) = did"
    and "bs k = Some (did, n) \<Longrightarrow> n < length (pm_all m) \<and> n \<notin> pm_closed m \<and> dpo_ds (pm_all m ! n) = did
       \<and> (\<forall>t. pm_pools m did \<noteq> Some (n, t)) \<and> (\<forall>j did'. bs j = Some (did', n) \<longrightarrow> j = k)"
    and "n < length (pm_all m) \<Longrightarrow> n \<notin> pm_closed m \<Longrightarrow> (\<exists>did t. pm_pools m did = Some (n, t)) \<or> (\<exists>k did. bs k = Some (did, n))"
  using assms unfolding pools_ok_def by blast+

end
