(* ===== verification/DirectProps.thy ===== *)
theory DirectProps
  imports DirectConn
begin

text \<open>
  What holds of the direct channel: every open pool has one owner, whatever requests build at the same time; the
  password that was stored with a datasource is the one that its pool connects with.
\<close>

section \<open>Owners of pools\<close>

lemma pool_hit_ok:
  assumes "pools_ok m bs" "pool_cached did now m = Some (n, m')"
  shows "pools_ok m' bs"
proof -
  from assms(2) obtain t where t: "pm_pools m did = Some (n, t)" "m' = m\<lparr>pm_pools := (pm_pools m)(did \<mapsto> (n, now))\<rparr>"
    by (auto simp: pool_cached_def split: option.splits)
  have same: "(\<exists>t. pm_pools m' d = Some (j, t)) \<longleftrightarrow> (\<exists>t. pm_pools m d = Some (j, t))" for d j using t by auto
  have f: "pm_all m' = pm_all m" "pm_closed m' = pm_closed m" by (simp_all add: t(2))
  show ?thesis
  proof (rule pools_okI, unfold f)
    show "j < length (pm_all m) \<and> j \<notin> pm_closed m \<and> dpo_ds (pm_all m ! j) = d" if "pm_pools m' d = Some (j, u)" for d j u
      using same [of d j] that pools_okD(1) [OF assms(1)] by blast
    show "j < length (pm_all m) \<and> j \<notin> pm_closed m \<and> dpo_ds (pm_all m ! j) = d \<and> (\<forall>t. pm_pools m' d \<noteq> Some (j, t))
        \<and> (\<forall>i did'. bs i = Some (did', j) \<longrightarrow> i = k)" if "bs k = Some (d, j)" for k d j
      using same [of d j] pools_okD(2) [OF assms(1) that] by blast
    show "(\<exists>d t. pm_pools m' d = Some (j, t)) \<or> (\<exists>k d. bs k = Some (d, j))" if "j < length (pm_all m)" "j \<notin> pm_closed m" for j
      using same pools_okD(3) [OF assms(1) that] by blast
  qed
qed

lemma pool_build_ok:
  assumes "pools_ok m bs" "bs k = None" "pool_built p m = (n, m')" "dpo_ds p = did"
  shows "pools_ok m' (bs(k \<mapsto> (did, n))) \<or> n \<in> pm_closed m"
proof (rule disjCI)
  assume closed: "n \<notin> pm_closed m"
  from assms(3) have n: "n = length (pm_all m)" "m' = m\<lparr>pm_all := pm_all m @ [p]\<rparr>" by (auto simp: pool_built_def)
  have old: "j < length (pm_all m) \<Longrightarrow> (pm_all m @ [p]) ! j = pm_all m ! j" for j by (simp add: nth_append)
  show "pools_ok m' (bs(k \<mapsto> (did, n)))"
  proof (rule pools_okI)
    show "j < length (pm_all m') \<and> j \<notin> pm_closed m' \<and> dpo_ds (pm_all m' ! j) = d" if "pm_pools m' d = Some (j, u)" for d j u
      using that pools_okD(1) [OF assms(1), of d j u] by (simp add: n old)
    show "j < length (pm_all m') \<and> j \<notin> pm_closed m' \<and> dpo_ds (pm_all m' ! j) = d \<and> (\<forall>t. pm_pools m' d \<noteq> Some (j, t))
        \<and> (\<forall>i did'. (bs(k \<mapsto> (did, n))) i = Some (did', j) \<longrightarrow> i = i')" if "(bs(k \<mapsto> (did, n))) i' = Some (d, j)" for i' d j
    proof (cases "i' = k")
      case True
      with that have j: "d = did" "j = n" by auto
      have "pm_pools m d' \<noteq> Some (n, t)" for d' t using pools_okD(1) [OF assms(1), of d' n t] n(1) by auto
      moreover have "bs i \<noteq> Some (did', n)" for i did' using pools_okD(2) [OF assms(1), of i did' n] n(1) by auto
      ultimately show ?thesis using j True closed assms(4) by (auto simp: n split: if_splits)
    next
      case False
      with that have b: "bs i' = Some (d, j)" by simp
      from pools_okD(2) [OF assms(1) b] False show ?thesis by (auto simp: n old split: if_splits)
    qed
    show "(\<exists>d t. pm_pools m' d = Some (j, t)) \<or> (\<exists>i d. (bs(k \<mapsto> (did, n))) i = Some (d, j))"
      if "j < length (pm_all m')" "j \<notin> pm_closed m'" for j
    proof (cases "j = n")
      case False
      with that n have "j < length (pm_all m)" "j \<notin> pm_closed m" by auto
      from pools_okD(3) [OF assms(1) this] assms(2) show ?thesis by (auto simp: n) (metis option.distinct(1))
    qed auto
  qed
qed

lemma pool_reg_ok:
  assumes "pools_ok m bs" "bs k = Some (did, n)" "pool_register did n now m = (j, m')"
  shows "pools_ok m' (bs(k := None))"
proof -
  note b = pools_okD(2) [OF assms(1,2)]
  show ?thesis
  proof (cases "pm_pools m did")
    case None
    with assms(3) have m': "m' = m\<lparr>pm_pools := (pm_pools m)(did \<mapsto> (n, now))\<rparr>" by (auto simp: pool_register_def)
    show ?thesis
    proof (rule pools_okI)
      show "i < length (pm_all m') \<and> i \<notin> pm_closed m' \<and> dpo_ds (pm_all m' ! i) = d" if "pm_pools m' d = Some (i, u)" for d i u
        using that b pools_okD(1) [OF assms(1), of d i u] by (auto simp: m' split: if_splits)
      show "i < length (pm_all m') \<and> i \<notin> pm_closed m' \<and> dpo_ds (pm_all m' ! i) = d \<and> (\<forall>t. pm_pools m' d \<noteq> Some (i, t))
          \<and> (\<forall>q did'. (bs(k := None)) q = Some (did', i) \<longrightarrow> q = l)" if "(bs(k := None)) l = Some (d, i)" for l d i
      proof -
        from that have l: "l \<noteq> k" "bs l = Some (d, i)" by (auto split: if_splits)
        with b have "i \<noteq> n" by blast
        with pools_okD(2) [OF assms(1) l(2)] show ?thesis by (auto simp: m' split: if_splits)
      qed
      show "(\<exists>d t. pm_pools m' d = Some (i, t)) \<or> (\<exists>l d. (bs(k := None)) l = Some (d, i))"
        if "i < length (pm_all m')" "i \<notin> pm_closed m'" for i
        using pools_okD(3) [OF assms(1), of i] that None assms(2) by (auto simp: m') (metis option.inject prod.inject option.distinct(1))+
    qed
  next
    case (Some x)
    obtain q t where x: "x = (q, t)" by (cases x)
    with Some assms(3) have m': "m' = m\<lparr>pm_pools := (pm_pools m)(did \<mapsto> (q, now)), pm_closed := insert n (pm_closed m)\<rparr>"
      by (auto simp: pool_register_def)
    have "q \<noteq> n" using Some x b by auto
    show ?thesis
    proof (rule pools_okI)
      show "i < length (pm_all m') \<and> i \<notin> pm_closed m' \<and> dpo_ds (pm_all m' ! i) = d" if "pm_pools m' d = Some (i, u)" for d i u
      proof (cases "d = did")
        case True
        with that have "i = q" by (simp add: m')
        with pools_okD(1) [OF assms(1), of did q t] Some x \<open>q \<noteq> n\<close> True show ?thesis by (simp add: m')
      next
        case False
        with that have o: "pm_pools m d = Some (i, u)" by (simp add: m')
        from pools_okD(1) [OF assms(1) o] b False show ?thesis by (auto simp: m')
      qed
      show "i < length (pm_all m') \<and> i \<notin> pm_closed m' \<and> dpo_ds (pm_all m' ! i) = d \<and> (\<forall>t. pm_pools m' d \<noteq> Some (i, t))
          \<and> (\<forall>r did'. (bs(k := None)) r = Some (did', i) \<longrightarrow> r = l)" if "(bs(k := None)) l = Some (d, i)" for l d i
      proof -
        from that have l: "l \<noteq> k" "bs l = Some (d, i)" by (auto split: if_splits)
        with b have "i \<noteq> n" by blast
        with pools_okD(2) [OF assms(1) l(2)] Some x show ?thesis by (auto simp: m' split: if_splits)
      qed
      show "(\<exists>d t. pm_pools m' d = Some (i, t)) \<or> (\<exists>l d. (bs(k := None)) l = Some (d, i))"
        if "i < length (pm_all m')" "i \<notin> pm_closed m'" for i
      proof -
        from that have i: "i < length (pm_all m)" "i \<notin> pm_closed m" "i \<noteq> n" by (auto simp: m')
        from pools_okD(3) [OF assms(1) i(1,2)] show ?thesis
        proof
          assume "\<exists>d t. pm_pools m d = Some (i, t)"
          then show ?thesis using Some x by (auto simp: m') (metis option.inject prod.inject)
        next
          assume "\<exists>l d. bs l = Some (d, i)"
          then obtain l d where l: "bs l = Some (d, i)" by blast
          with assms(2) i(3) have "l \<noteq> k" by auto
          with l show ?thesis by auto
        qed
      qed
    qed
  qed
qed

text \<open>Closing some registered pools and forgetting them.\<close>

lemma pool_release_ok:
  assumes "pools_ok m bs"
    "m' = m\<lparr>pm_pools := (\<lambda>d. if gone d then None else pm_pools m d), pm_closed := pm_closed m \<union> {n. \<exists>d t. gone d \<and> pm_pools m d = Some (n, t)}\<rparr>"
  shows "pools_ok m' bs"
proof (rule pools_okI)
  show "n < length (pm_all m') \<and> n \<notin> pm_closed m' \<and> dpo_ds (pm_all m' ! n) = d" if "pm_pools m' d = Some (n, t)" for d n t
  proof -
    from that have d: "\<not> gone d" "pm_pools m d = Some (n, t)" by (auto simp: assms(2) split: if_splits)
    from pools_okD(1) [OF assms(1) d(2)] d(1) pools_okD(1) [OF assms(1)] show ?thesis by (auto simp: assms(2))
  qed
  show "n < length (pm_all m') \<and> n \<notin> pm_closed m' \<and> dpo_ds (pm_all m' ! n) = d \<and> (\<forall>t. pm_pools m' d \<noteq> Some (n, t))
      \<and> (\<forall>j did'. bs j = Some (did', n) \<longrightarrow> j = k)" if "bs k = Some (d, n)" for k d n
    using pools_okD(2) [OF assms(1) that] pools_okD(1) [OF assms(1)] by (auto simp: assms(2))
  show "(\<exists>d t. pm_pools m' d = Some (n, t)) \<or> (\<exists>k d. bs k = Some (d, n))" if "n < length (pm_all m')" "n \<notin> pm_closed m'" for n
    using pools_okD(3) [OF assms(1), of n] that by (auto simp: assms(2))
qed

lemma pool_drop_ok: "pools_ok m bs \<Longrightarrow> pools_ok (pool_destroy did m) bs"
proof (cases "pm_pools m did")
  case (Some x)
  assume ok: "pools_ok m bs"
  obtain n t where x: "x = (n, t)" by (cases x)
  have "pool_destroy did m = m\<lparr>pm_pools := (\<lambda>d. if d = did then None else pm_pools m d),
      pm_closed := pm_closed m \<union> {n. \<exists>d t. d = did \<and> pm_pools m d = Some (n, t)}\<rparr>"
    using Some x by (auto simp: pool_destroy_def fun_upd_def)
  from pool_release_ok [OF ok this] show ?thesis .
qed (simp add: pool_destroy_def)

lemma pool_reap_ok: "pools_ok m bs \<Longrightarrow> pools_ok (reap_idle c now m) bs"
proof -
  assume ok: "pools_ok m bs"
  have "{n. \<exists>d t. pm_pools m d = Some (n, t) \<and> dg_idle c < now - t}
      = {n. \<exists>d t. (case pm_pools m d of None \<Rightarrow> False | Some (n, t) \<Rightarrow> dg_idle c < now - t) \<and> pm_pools m d = Some (n, t)}"
    by (rule Collect_cong, rule arg_cong [where f = Ex], rule ext, rule arg_cong [where f = Ex], rule ext) auto
  with pool_release_ok [OF ok, where gone = "\<lambda>d. case pm_pools m d of None \<Rightarrow> False | Some (n, t) \<Rightarrow> dg_idle c < now - t"]
  show ?thesis by (simp add: reap_idle_def Let_def)
qed

lemma pool_close_ok: "pools_ok m bs \<Longrightarrow> pools_ok (close_pools m) bs"
  by (rule pool_release_ok [where gone = "\<lambda>d. True"]) (auto simp: close_pools_def)

lemma closed_built: "pool_reach v m bs \<Longrightarrow> pools_ok m bs \<and> (\<forall>n \<in> pm_closed m. n < length (pm_all m))"
proof (induction rule: pool_reach.induct)
  case pool_start
  show ?case by (simp add: pools_ok_def new_manager_def)
next
  case (pool_hit m bs did now n m')
  from pool_hit_ok [OF _ pool_hit.hyps(2)] pool_hit show ?case by (auto simp: pool_cached_def split: option.splits)
next
  case (pool_build m bs k did i p n m')
  have "dpo_ds p = did" using pool_build.hyps(3) by (auto simp: build_pool_def split: sum.splits build_fate.splits)
  with pool_build_ok [of m bs k p n m' did] pool_build have "pools_ok m' (bs(k \<mapsto> (did, n)))" by (auto simp: pool_built_def)
  with pool_build show ?case by (auto simp: pool_built_def less_Suc_eq fun_upd_def)
next
  case (pool_reg m bs k did n now j m')
  then have "n < length (pm_all m)" by (auto simp: pools_ok_def)
  with pool_reg_ok [of m bs k did n now j m'] pool_reg show ?case by (auto simp: pool_register_def fun_upd_def split: option.splits)
next
  case (pool_drop m bs did)
  with pool_drop_ok [of m bs did] show ?case by (auto simp: pool_destroy_def pools_ok_def split: option.splits)
next
  case (pool_reap m bs now)
  then have ok: "pools_ok m bs" and c: "\<forall>n \<in> pm_closed m. n < length (pm_all m)" by auto
  from c pools_okD(1) [OF ok] have "\<forall>n \<in> pm_closed (reap_idle (dv_config v) now m). n < length (pm_all m)"
    by (auto simp: reap_idle_def Let_def)
  then show ?case using pool_reap_ok [OF ok] by (simp add: reap_idle_def Let_def)
next
  case (pool_close m bs)
  then have ok: "pools_ok m bs" and c: "\<forall>n \<in> pm_closed m. n < length (pm_all m)" by auto
  from c pools_okD(1) [OF ok] have "\<forall>n \<in> pm_closed (close_pools m). n < length (pm_all m)" by (auto simp: close_pools_def)
  then show ?case using pool_close_ok [OF ok] by (simp add: close_pools_def)
qed

lemma pools_finite: "pool_reach v m bs \<Longrightarrow> finite (dom (pm_pools m))"
proof (induction rule: pool_reach.induct)
  case (pool_reap m bs now)
  have "dom (pm_pools (reap_idle (dv_config v) now m)) \<subseteq> dom (pm_pools m)" by (auto simp: reap_idle_def Let_def split: if_splits)
  with pool_reap.IH show ?case by (metis finite_subset)
qed (auto simp: new_manager_def pool_cached_def pool_built_def pool_register_def pool_destroy_def close_pools_def split: option.splits)

text \<open>C34: no pool leaks and none is shared. Whatever requests look up, build and register pools at the same time,
  in whatever order with releases, idle reaping and shutdown: a registered pool is open and was built for the
  datasource it is registered for; an open pool is registered, or in the hands of exactly one request that has
  built it and will register or close it; so when no request is building there are no more open pools than
  datasources with one.\<close>

theorem pools_accounted:
  assumes "pool_reach v m bs"
  shows "(\<forall>did n t. pm_pools m did = Some (n, t) \<longrightarrow> n < length (pm_all m) \<and> n \<notin> pm_closed m \<and> dpo_ds (pm_all m ! n) = did)
    \<and> (\<forall>n < length (pm_all m). n \<notin> pm_closed m \<longrightarrow>
        (\<exists>t. pm_pools m (dpo_ds (pm_all m ! n)) = Some (n, t)) \<or> (\<exists>!k. bs k = Some (dpo_ds (pm_all m ! n), n)))
    \<and> (bs = Map.empty \<longrightarrow> card {n. n < length (pm_all m) \<and> n \<notin> pm_closed m} \<le> card (dom (pm_pools m)))"
proof (intro conjI allI impI)
  have ok: "pools_ok m bs" using closed_built [OF assms] by simp
  show "n < length (pm_all m)" "n \<notin> pm_closed m" "dpo_ds (pm_all m ! n) = did" if "pm_pools m did = Some (n, t)" for did n t
    using pools_okD(1) [OF ok that] by simp_all
  have owner: "(\<exists>t. pm_pools m (dpo_ds (pm_all m ! n)) = Some (n, t)) \<or> (\<exists>!k. bs k = Some (dpo_ds (pm_all m ! n), n))"
    if "n < length (pm_all m)" "n \<notin> pm_closed m" for n
    using pools_okD(3) [OF ok that] pools_okD(1,2) [OF ok] by blast
  then show "(\<exists>t. pm_pools m (dpo_ds (pm_all m ! n)) = Some (n, t)) \<or> (\<exists>!k. bs k = Some (dpo_ds (pm_all m ! n), n))"
    if "n < length (pm_all m)" "n \<notin> pm_closed m" for n
    using that by blast
  assume e: "bs = Map.empty"
  with owner have "{n. n < length (pm_all m) \<and> n \<notin> pm_closed m} \<subseteq> (\<lambda>did. fst (the (pm_pools m did))) ` dom (pm_pools m)"
    by (force simp: image_iff)
  with e show "card {n. n < length (pm_all m) \<and> n \<notin> pm_closed m} \<le> card (dom (pm_pools m))"
    using pools_finite [OF assms] by (meson card_image_le card_mono finite_imageI order.trans)
qed

definition sample_direct_env :: direct_env where
  "sample_direct_env = \<lparr>dv_blk = (\<lambda>k b. b), dv_sealer = \<lparr>sl_kek = replicate 32 (CHR ''k''), sl_key_id = ''v1''\<rparr>, dv_config = default_direct_config,
     dv_build = (\<lambda>b w. PoolBuilt)\<rparr>"

definition sample_conn_info :: "string \<Rightarrow> direct_conn_info" where
  "sample_conn_info cipher = \<lparr>dc_host = ''h'', dc_port = 5432, dc_database = ''d'', dc_family = ''postgres'', dc_mode = ''direct'',
     dc_username = ''u'', dc_secret = cipher, dc_key = ''v1''\<rparr>"

definition sample_random :: seal_random where
  "sample_random = \<lparr>sr_dek = Some (replicate 32 (CHR ''d'')), sr_nonce1 = Some (replicate 12 (CHR ''1'')), sr_nonce2 = Some (replicate 12 (CHR ''2''))\<rparr>"

lemma sample_random_ok: "random_ok sample_random"
  by (auto simp: random_ok_def sample_random_def dek_len_def nonce_len_def)

lemma seal_opens: "random_ok rnd \<Longrightarrow> seal blk sl rnd p = Inr blob \<Longrightarrow> open_sealed blk sl blob = Inr p"
  using gcm.open_seal_blob by (auto simp: seal_def random_ok_def open_sealed_def split: option.splits)

text \<open>Two requests build a pool for the same datasource; the second one to register closes its own.\<close>

lemma sample_double_build:
  "\<exists>m p. pool_reach sample_direct_env m Map.empty \<and> pm_pools m = [''d'' \<mapsto> (0, 8)] \<and> pm_all m = [p, p] \<and> pm_closed m = {1} \<and> dpo_ds p = ''d''"
proof -
  obtain blob where b: "seal (\<lambda>k b. b) (dv_sealer sample_direct_env) sample_random ''pw'' = Inr blob" by (simp add: seal_def sample_random_def)
  let ?p = "\<lparr>dpo_ds = ''d'', dpo_base = dsn_base (sample_conn_info blob), dpo_password = ''pw''\<rparr>"
  have bp: "build_pool sample_direct_env ''d'' (sample_conn_info blob) = Inr ?p"
    using seal_opens [OF sample_random_ok b] by (simp add: build_pool_def sample_direct_env_def sample_conn_info_def)
  have r: "pool_reach sample_direct_env (new_manager\<lparr>pm_all := [?p]\<rparr>) [0 \<mapsto> (''d'', 0)]"
    by (rule pool_build [OF pool_start, where k = 0 and i = "sample_conn_info blob"]) (simp_all add: bp pool_built_def new_manager_def)
  have r: "pool_reach sample_direct_env (new_manager\<lparr>pm_all := [?p, ?p]\<rparr>) [0 \<mapsto> (''d'', 0), 1 \<mapsto> (''d'', 1)]"
    by (rule pool_build [OF r, where k = 1 and i = "sample_conn_info blob"]) (simp_all add: bp pool_built_def new_manager_def)
  have r: "pool_reach sample_direct_env (new_manager\<lparr>pm_all := [?p, ?p], pm_pools := [''d'' \<mapsto> (0, 7)]\<rparr>) [1 \<mapsto> (''d'', 1)]"
    using pool_reg [OF r, where k = 0 and now = 7] by (simp add: pool_register_def new_manager_def fun_upd_twist)
  have "pool_reach sample_direct_env (new_manager\<lparr>pm_all := [?p, ?p], pm_pools := [''d'' \<mapsto> (0, 8)], pm_closed := {1}\<rparr>) Map.empty"
    using pool_reg [OF r, where k = 1 and now = 8] by (simp add: pool_register_def new_manager_def)
  then show ?thesis
    by (intro exI [of _ "new_manager\<lparr>pm_all := [?p, ?p], pm_pools := [''d'' \<mapsto> (0, 8)], pm_closed := {1}\<rparr>"] exI [of _ ?p]) simp
qed

lemma pools_accounted_witness:
  "\<exists>m. pool_reach sample_direct_env m Map.empty \<and> length (pm_all m) = 2 \<and> card {n. n < length (pm_all m) \<and> n \<notin> pm_closed m} \<le> 1"
proof -
  obtain m p where m: "pool_reach sample_direct_env m Map.empty" "pm_pools m = [''d'' \<mapsto> (0, 8)]" "pm_all m = [p, p]"
    using sample_double_build by blast
  from pools_accounted [OF m(1)] m show ?thesis by (intro exI [of _ m]) simp
qed

section \<open>The password of a datasource\<close>

lemma insert_ds_values:
  "insert_datasource new now q s = Inr (r, s') \<Longrightarrow> dr_host r = di_host q \<and> dr_port r = di_port q \<and> dr_database r = di_database q \<and> dr_family r = di_family q"
  by (auto simp: insert_datasource_def row_of_ds_def Let_def split: option.splits if_splits)

lemma created_conn_info:
  assumes "create_ds_tx env c q s = Inr (x, s')" "dq_mode q = ''direct''" "dq_cred q = Some (u, p)" "fresh_ids c" "pg_uuid (ac_id c) = Some (ac_id c)"
  shows "\<exists>cipher. seal (ae_blk env) (ae_sealer env) (ac_random c) p = Inr cipher
    \<and> get_direct_conn_info (ac_id c) s' = Inr \<lparr>dc_host = dq_host q, dc_port = dq_port q, dc_database = dq_database q, dc_family = dq_family q,
        dc_mode = ''direct'', dc_username = u, dc_secret = cipher, dc_key = sl_key_id (ae_sealer env)\<rparr>"
proof -
  from assms(1-3) obtain cipher cid s1 r where 1: "seal (ae_blk env) (ae_sealer env) (ac_random c) p = Inr cipher"
    "insert_credential (ac_id2 c) (ac_now c) u cipher (sl_key_id (ae_sealer env)) s = Inr (cid, s1)"
    "insert_datasource (ac_id c) (ac_now c) (input_of_ds q (Some cid)) s1 = Inr (r, s')"
    by (auto simp: create_ds_tx_def split: sum.splits dest!: write_tx_Inr)
  let ?cr = "\<lparr>cr_id = ac_id2 c, cr_username = u, cr_secret = cipher, cr_key = sl_key_id (ae_sealer env), cr_rotated = None, cr_created = ac_now c\<rparr>"
  from 1(2) have cr: "cid = ac_id2 c" "s1 = s\<lparr>c_creds := c_creds s @ [?cr]\<rparr>" "\<forall>x \<in> set (c_creds s). cr_id x \<noteq> ac_id2 c"
    by (auto simp: insert_credential_def split: option.splits if_splits)
  from insert_ds_Inr [OF 1(3)] have r: "s' = s1\<lparr>c_ds := c_ds s1 @ [r]\<rparr>" "dr_id r = ac_id c" "ac_id c \<notin> set (map dr_id (c_ds s1))"
    "dr_mode r = ''direct''" "pg_opt_uuid (Some cid) = Some (dr_credential r)"
    using assms(2) by (simp_all add: input_of_ds_def)
  with cr(1) assms(4) have cred: "dr_credential r = Some (ac_id2 c)" by (simp add: pg_opt_uuid_def fresh_ids_def)
  have "find_ds (ac_id c) s' = Some r" unfolding find_ds_def r(1) using r(2,3) by (simp, intro select_one_new) force+
  moreover have "select_one (\<lambda>x. Some (cr_id x) = dr_credential r) (c_creds s') = Some ?cr"
    unfolding r(1) cr(2) cred using cr(3) by (simp, intro select_one_new) auto
  ultimately show ?thesis
    using insert_ds_values [OF 1(3)] r(4) 1(1) assms(5)
    by (simp add: get_direct_conn_info_def input_of_ds_def)
qed


definition direct_api_env :: api_env where
  "direct_api_env = \<lparr>ae_sha = rev, ae_blk = (\<lambda>k b. b), ae_sealer = dv_sealer sample_direct_env, ae_tenant = ''t''\<rparr>"

definition direct_api_call :: api_call where
  "direct_api_call = \<lparr>ac_fault = NoFault, ac_now = 5, ac_id = sample_ds, ac_id2 = sample_ds, ac_random = sample_random, ac_key = [], ac_body = None\<rparr>"

definition direct_request :: ds_request where
  "direct_request = \<lparr>dq_name = ''n'', dq_family = ''postgres'', dq_engine = [], dq_version = [], dq_mode = ''direct'', dq_connector = [],
     dq_host = ''h'', dq_port = 9, dq_database = ''d'', dq_group = [], dq_role = [], dq_agent = [], dq_cred = Some (''u'', ''pw'')\<rparr>"


section \<open>What the cache hides\<close>

text \<open>A pool that is there is returned whatever the tenant of the request, and whatever has become of the datasource
  and of its credential in the database.\<close>

lemma cached_pool_wins:
  assumes "pm_pools m did = Some (n, t)" "ask (pm_all m ! n) = VersionIs ver"
  shows "\<exists>m'. test_connection v ask flt ctx did now d m = (Inr ver, m')"
  using assms by (simp add: test_connection_def pool_for_def pool_cached_def)

text \<open>The connection string does not quote its values: different datasources have the same one.\<close>

lemma dsn_ambiguous:
  "dsn_base (i\<lparr>dc_database := ''a'', dc_username := ''u user=v''\<rparr>) = dsn_base (i\<lparr>dc_database := ''a user=u'', dc_username := ''v''\<rparr>)"
  by (simp add: dsn_base_def)

text \<open>The rows of a database are the same over both channels.\<close>

lemma channels_same_rows:
  assumes "pool_for v flt ctx did now d m = (Inr n, m1)"
  shows "(case direct_query_rows v db flt ctx did now d sql maxr m of (Inr rows, _) \<Rightarrow> query_rows_db (db (pm_all m1 ! n)) sql maxr = Inr rows
    | (Inl e, _) \<Rightarrow> isl (query_rows_db (db (pm_all m1 ! n)) sql maxr))"
proof -
  have "direct_row = row_map" by (intro ext) (simp add: direct_row_def row_map_def direct_stringify_def [abs_def] stringify_value_def [abs_def])
  with assms show ?thesis by (simp add: direct_query_rows_def query_rows_db_def split: option.splits)
qed

text \<open>The direct channel answers the same commands as a connector, and no others.\<close>

lemma direct_dispatch_read_only:
  "cm_type cmd \<notin> {''PING'', ''ECHO''} \<Longrightarrow> cr_stat (direct_dispatch cmd) = StatusUnsupported"
  by (simp add: direct_dispatch_def builtin_dispatch_def)

end
