(* ===== verification/EnrollRun.thy ===== *)
theory EnrollRun
  imports ConnectorProps GatewayRuns
begin

text \<open>
  An enrollment from end to end: the files that it leaves with the connector, the row that it leaves with the control
  plane, and the session that the connector can open with them.
\<close>

section \<open>Enrollment\<close>

lemma conf_writes_fail:
  "conf_writes fs rs st = (Inl e, st') \<Longrightarrow> fs = gs @ [(MetaFile, c)] \<Longrightarrow> MetaFile \<notin> fst ` set gs \<Longrightarrow> st MetaFile = None \<Longrightarrow>
     st' MetaFile = None \<or> (\<exists>n. length gs < length rs \<and> rs ! length gs = CutAt n \<and> st' MetaFile = Some (take n c))"
proof (induction fs rs st arbitrary: gs rule: conf_writes.induct)
  case (2 f x rest rs st)
  show ?case
  proof (cases gs)
    case Nil
    with 2(2-) show ?thesis by (cases rs) (auto simp: conf_write_def split: write_result.splits)
  next
    case (Cons g gs')
    with 2(3,4) have f: "f \<noteq> MetaFile" "rest = gs' @ [(MetaFile, c)]" "MetaFile \<notin> fst ` set gs'" by auto
    show ?thesis
    proof (cases "conf_write f x (if rs = [] then Written else hd rs) st")
      case (Pair y st1)
      with f 2(5) have none: "st1 MetaFile = None" by (auto simp: conf_write_def split: write_result.splits)
      show ?thesis
      proof (cases y)
        case (Inr u)
        with Pair 2(2) have "conf_writes rest (tl rs) st1 = (Inl e, st')" by simp
        from 2(1) [OF Pair [symmetric] Inr this f(2,3) none] Cons show ?thesis by (cases rs) auto
      qed (use Pair 2(2) none in auto)
    qed
  qed
qed simp

lemma conf_writes_all:
  "conf_writes fs rs st = (Inr u, st') \<Longrightarrow> st' = fold (\<lambda>(f, c) st. st(f := Some c)) fs st"
  by (induction fs rs st rule: conf_writes.induct) (auto simp: conf_write_def split: write_result.splits prod.splits sum.splits)

text \<open>C32: a directory says that it is enrolled when an enrollment is complete. Starting from a directory without a
  connector id, an enrollment that succeeds leaves exactly the fresh key, the certificate, the trust chain and the
  id of the connector that the control plane answered; one that fails, in the remote call or in any of its
  writes, leaves the directory not enrolled, with one exception: the write of the id, the last one, failed after
  it had created the file, which then holds a prefix of the id.\<close>

theorem enrolled_when_complete:
  assumes "st MetaFile = None"
  shows "case enroll_run cfg kc tok version oks st w of
      (Inl e, st', w') \<Rightarrow> enrolled_conf st' \<longrightarrow> (\<exists>r w1 n. gw_enroll cfg tok (snd kc) version w = (Inr r, w1)
          \<and> 3 < length oks \<and> oks ! 3 = CutAt n \<and> st' MetaFile = Some (take n (er_connector r)))
    | (Inr u, st', w') \<Rightarrow> (\<exists>r w1. gw_enroll cfg tok (snd kc) version w = (Inr r, w1) \<and> st' = (\<lambda>f. case f of KeyFile \<Rightarrow> Some (fst kc)
          | CertFile \<Rightarrow> Some (er_cert r) | CaFile \<Rightarrow> Some (er_bundle r) | MetaFile \<Rightarrow> Some (er_connector r))) \<and> enrolled_conf st'"
proof -
  obtain x w1 where e: "gw_enroll cfg tok (snd kc) version w = (x, w1)" by (cases "gw_enroll cfg tok (snd kc) version w")
  show ?thesis
  proof (cases x)
    case (Inl err)
    with e assms show ?thesis by (simp add: enroll_run_def enrolled_conf_def)
  next
    case (Inr r)
    let ?gs = "[(KeyFile, fst kc), (CertFile, er_cert r), (CaFile, er_bundle r)]"
    obtain y st1 where y: "conf_writes (?gs @ [(MetaFile, er_connector r)]) oks st = (y, st1)"
      by (cases "conf_writes (?gs @ [(MetaFile, er_connector r)]) oks st")
    show ?thesis
    proof (cases y)
      case (Inl err)
      from conf_writes_fail [OF y [unfolded Inl] refl _ assms]
      have "st1 MetaFile = None \<or> (\<exists>n. 3 < length oks \<and> oks ! 3 = CutAt n \<and> st1 MetaFile = Some (take n (er_connector r)))"
        by (simp add: eval_nat_numeral)
      with e Inr y Inl show ?thesis by (auto simp: enroll_run_def enrolled_conf_def simp del: conf_writes.simps)
    next
      case u: (Inr u)
      with y have st1: "st1 = st(KeyFile := Some (fst kc), CertFile := Some (er_cert r), CaFile := Some (er_bundle r), MetaFile := Some (er_connector r))"
        by (auto dest: conf_writes_all simp del: conf_writes.simps)
      have "st1 = (\<lambda>f. case f of KeyFile \<Rightarrow> Some (fst kc) | CertFile \<Rightarrow> Some (er_cert r) | CaFile \<Rightarrow> Some (er_bundle r)
          | MetaFile \<Rightarrow> Some (er_connector r))"
        by (rule ext) (simp add: st1 split: conf_file.splits)
      with e Inr y u show ?thesis by (simp add: enroll_run_def enrolled_conf_def st1)
    qed
  qed
qed

section \<open>What the control plane has stored\<close>

lemma client_post_body:
  assumes "client_post sv token path body w = (Inr v, w1)"
  obtains h y where "svc_route sv (next_call w) path (json_text body) = Some h" "h (called w) = (Inr y, w1)" "wf_json body"
    "v = ha_body (http_answer_of (Inr y))" "token = sx_token (sf_svc sv)"
proof -
  obtain h y where h: "svc_route sv (next_call w) path (json_text body) = Some h" "h (called w) = (Inr y, w1)" "wf_json body"
    by (rule client_post_Inr [OF assms])
  have "token = sx_token (sf_svc sv)"
    using assms h error_status [of "api_err CodeSvcUnauthenticated"]
    by (auto simp: client_post_def marshal_def Let_def svc_serve_def split: if_splits prod.splits)
  moreover from this have "v = ha_body (http_answer_of (Inr y))"
    using assms h by (auto simp: client_post_def marshal_def Let_def svc_serve_def split: if_splits prod.splits)
  ultimately show thesis using that h by blast
qed

lemma enroll_members:
  "enroll_request_of [(''connector_version'', JStr v), (''csr_pem'', JStr c), (''token'', JStr t)]
    = Some \<lparr>eq_token = t, eq_csr = c, eq_version = v\<rparr>"
  "enroll_result_of [(''connector_id'', JStr c), (''certificate_pem'', JStr p), (''ca_bundle_pem'', JStr b)]
    = Some \<lparr>er_connector = c, er_cert = p, er_bundle = b\<rparr>"
proof -
  have "to_lower ''connector_version'' = ''connector_version''" "to_lower ''csr_pem'' = ''csr_pem''" "to_lower ''token'' = ''token''"
    "to_lower ''connector_id'' = ''connector_id''" "to_lower ''certificate_pem'' = ''certificate_pem''" "to_lower ''ca_bundle_pem'' = ''ca_bundle_pem''"
    by code_simp+
  then show "enroll_request_of [(''connector_version'', JStr v), (''csr_pem'', JStr c), (''token'', JStr t)]
      = Some \<lparr>eq_token = t, eq_csr = c, eq_version = v\<rparr>"
    "enroll_result_of [(''connector_id'', JStr c), (''certificate_pem'', JStr p), (''ca_bundle_pem'', JStr b)]
      = Some \<lparr>er_connector = c, er_cert = p, er_bundle = b\<rparr>"
    by (simp_all add: enroll_request_of_def enroll_result_of_def str_field_def dec_field_def as_str_def)
qed

text \<open>The row of an enrolled connector holds the fingerprint of the certificate that was signed.\<close>

lemma enroll_tx_Inr:
  assumes "enroll_tx env now t q s = Inr ((pem, fp), s')"
  shows "ce_sign env (eq_csr q) (et_connector t) (et_tenant t) = Inr (pem, fp)"
    "\<exists>row. get_connector (et_connector t) s' = Inr row \<and> cn_status row = ''enrolled'' \<and> cn_fingerprint row = fp"
proof -
  from assms obtain row0 where row: "select_one (\<lambda>r. cn_id r = et_connector t) (c_conns s) = Some row0" "cn_status row0 = ''pending''"
    and sg: "ce_sign env (eq_csr q) (et_connector t) (et_tenant t) = Inr (pem, fp)"
    and c: "complete_enrollment (et_connector t) fp (eq_version q) now s = Inr ((), s')"
    by (auto simp: enroll_tx_def split: option.splits if_splits sum.splits prod.splits)
  let ?p = "\<lambda>r. cn_id r = et_connector t \<and> cn_status r = ''pending''"
  let ?f = "\<lambda>r. r\<lparr>cn_status := ''enrolled'', cn_fingerprint := fp, cn_version := eq_version q, cn_token := None, cn_expires := None, cn_updated := now\<rparr>"
  from c have "c_conns s' = update_where ?p ?f (c_conns s)"
    by (auto simp: complete_enrollment_def Let_def update_conns_def split: if_splits)
  with row select_one_Some_in [OF row(1)]
  have "select_one (\<lambda>r. cn_id r = et_connector t) (c_conns s') = Some (?f row0)" by (simp add: select_one_update_where)
  then show "\<exists>row. get_connector (et_connector t) s' = Inr row \<and> cn_status row = ''enrolled'' \<and> cn_fingerprint row = fp"
    by (simp add: get_connector_def)
  show "ce_sign env (eq_csr q) (et_connector t) (et_tenant t) = Inr (pem, fp)" by (rule sg)
qed

lemma client_enroll_Inr:
  assumes "client_enroll sv token tok csr version w = (Inr r, w1)" "parse_enroll_token tok = Some t"
  shows "uuid_shape (et_tenant t)" "uuid_shape (et_connector t)" "er_connector r = et_connector t" "token = sx_token (sf_svc sv)"
    "\<exists>fp row. ce_sign (sf_conn sv) csr (et_connector t) (et_tenant t) = Inr (er_cert r, fp)
       \<and> get_connector (et_connector t) (c_slice (cw_db w1) (et_tenant t)) = Inr row \<and> cn_status row = ''enrolled'' \<and> cn_fingerprint row = fp"
proof -
  let ?kvs = "[(''connector_version'', JStr version), (''csr_pem'', JStr csr), (''token'', JStr tok)]"
  let ?path = "''/internal/v1/connector-enrollments''"
  from assms(1) obtain v where v: "client_post sv token ?path (JObj ?kvs) w = (Inr v, w1)" "as_elem enroll_result_of v = Some r"
    by (auto simp: client_enroll_def split: prod.splits sum.splits option.splits)
  obtain h y where h: "svc_route sv (next_call w) ?path (json_text (JObj ?kvs)) = Some h" "h (called w) = (Inr y, w1)"
    "wf_json (JObj ?kvs)" "v = ha_body (http_answer_of (Inr y))" "token = sx_token (sf_svc sv)"
    by (rule client_post_body [OF v(1)])
  from h(1) have "h = on_db (svc_enroll (sf_conn sv) (cf_fault (next_call w)) (cf_now (next_call w)) (json_text (JObj ?kvs)))"
    by (simp add: svc_route_def)
  with h(2) have s: "svc_enroll (sf_conn sv) (cf_fault (next_call w)) (cf_now (next_call w)) (json_text (JObj ?kvs)) (cw_db w) = (Inr y, cw_db w1)"
    by (auto dest!: on_db_simps)
  then obtain q where q: "decode_json [''token'', ''csr_pem'', ''connector_version''] enroll_request_of (json_text (JObj ?kvs)) = Inr q"
    by (auto simp: svc_enroll_def split: sum.splits)
  with decode_json_text(1) [OF h(3) q] have qq: "q = \<lparr>eq_token = tok, eq_csr = csr, eq_version = version\<rparr>"
    by (simp only: enroll_members) simp
  from s q qq assms(2) obtain pem fp where u: "uuid_shape (et_tenant t)" "uuid_shape (et_connector t)" "y = ConsoleJson 200 (enroll_json (sf_conn sv) t pem)"
    and tx: "console_tx (cf_fault (next_call w)) (with_tenant None (et_tenant t)) (enroll_tx (sf_conn sv) (cf_now (next_call w)) t q) (cw_db w)
      = (Inr (pem, fp), cw_db w1)"
    by (auto simp: svc_enroll_def split: if_splits prod.splits sum.splits)
  from tx have e: "enroll_tx (sf_conn sv) (cf_now (next_call w)) t q (c_slice (cw_db w) (et_tenant t)) = Inr ((pem, fp), c_slice (cw_db w1) (et_tenant t))"
    by (rule console_tx_Inr) (auto simp: with_tenant_def)
  have r: "r = \<lparr>er_connector = et_connector t, er_cert = pem, er_bundle = ce_bundle (sf_conn sv)\<rparr>"
    using v(2) h(4) u(3) by (simp add: http_answer_of_def enroll_json_def enroll_members)
  show "uuid_shape (et_tenant t)" "uuid_shape (et_connector t)" "er_connector r = et_connector t" "token = sx_token (sf_svc sv)"
    using u r h(5) by simp_all
  show "\<exists>fp row. ce_sign (sf_conn sv) csr (et_connector t) (et_tenant t) = Inr (er_cert r, fp)
       \<and> get_connector (et_connector t) (c_slice (cw_db w1) (et_tenant t)) = Inr row \<and> cn_status row = ''enrolled'' \<and> cn_fingerprint row = fp"
    using enroll_tx_Inr [OF e] qq r by auto
qed

section \<open>From enrollment to session\<close>

lemma json_str_length: "length (json_str s) \<le> 6 * length s + 2"
proof -
  have "length (concat (map esc_char s)) \<le> 6 * length s"
  proof (induction s)
    case (Cons c s)
    have "length (esc_char c) \<le> 6" by (simp add: esc_char_def)
    with Cons show ?case by simp
  qed simp
  then show ?thesis by (simp add: json_str_def)
qed

lemma body_length: "length (json_text (JObj [(a, JStr x), (b, JStr y), (c, JStr z)]))
    \<le> 6 * (length a + length x + length b + length y + length c + length z) + 20"
  using json_str_length [of a] json_str_length [of b] json_str_length [of c] json_str_length [of x] json_str_length [of y] json_str_length [of z]
  by (simp add: json_text.simps)

lemma split_on_length: "length s + 1 = sum_list (map length (split_on c s)) + length (split_on c s)"
  by (induction c s rule: split_on.induct) (auto split: list.splits)

lemma uuid_length: "uuid_shape s \<Longrightarrow> length s = 36"
  using split_on_length [of s "CHR ''-''"] by (auto simp: uuid_shape_def split: list.splits)

lemma b64_length: "length (b64_encode s) \<le> 2 * length s"
  by (induction s rule: b64_encode.induct) simp_all

lemma enroll_run_Inr:
  assumes "enroll_run cfg kc tok version rs st w = (Inr (), st', w')"
  obtains r where "client_enroll (gc_console cfg) (gc_token cfg) tok (snd kc) version w = (Inr r, w')"
    "st' CertFile = Some (er_cert r)" "st' MetaFile = Some (er_connector r)"
  using assms by (auto simp: enroll_run_def gw_enroll_def dest!: conf_writes_all split: prod.splits sum.splits if_splits simp del: conf_writes.simps)

lemma handshake_admits:
  assumes "get_connector conn (c_slice (cw_db w) tenant) = Inr row" "cn_status row = ''enrolled''" "cn_fingerprint row = fp" "fp \<noteq> []"
    "uuid_shape tenant" "uuid_shape conn" "token = sx_token (sf_svc sv)" "cf_delivery (next_call w) = Arrives" "cf_fault (next_call w) = NoFault"
    "length fp \<le> 1000"
  shows "client_handshake sv token tenant conn fp w = (Inr JNull, called w)"
proof -
  let ?kvs = "[(''connector_id'', JStr conn), (''fingerprint'', JStr fp), (''tenant_id'', JStr tenant)]"
  have "\<forall>k \<in> set (map fst ?kvs). to_lower k \<in> set [''tenant_id'', ''connector_id'', ''fingerprint'']" by code_simp
  then have d: "decode_json [''tenant_id'', ''connector_id'', ''fingerprint''] handshake_request_of (json_text (JObj ?kvs)) = Inr (tenant, conn, fp)"
    using body_length [of "''connector_id''" conn "''fingerprint''" fp "''tenant_id''" tenant] assms(5,6,10)
    by (intro decode_json_ok) (simp_all add: handshake_members uuid_length console_body_limit_def)
  have "tenant \<noteq> []" using assms(5) by (auto simp: uuid_shape_def)
  then have "svc_handshake NoFault (json_text (JObj ?kvs)) (cw_db w) = (Inr (ConsoleStatus 204), cw_db w)"
    using assms(1-6) by (simp add: svc_handshake_def d validate_ids_def console_tx_def with_tenant_def tenant_from_context_def handshake_tx_def
        del: json_text.simps)
  with assms(7-9) show ?thesis unfolding client_handshake_def
    by (intro client_post_ok [where h = "on_db (svc_handshake NoFault (json_text (JObj ?kvs)))" and st = 204]) (simp_all add: svc_routes on_db_def)
qed

text \<open>C31: an enrolled connector can connect. When an enrollment has succeeded, with a token and a request for which the
  control plane signed the certificate in the connector's directory, then a session that is opened next with that
  certificate and the stored id is admitted, whatever sessions the gateway has, and is the one registered for the
  connector. Hypotheses: the certificate names its connector and its tenant and has the fingerprint that the signer
  reported, and the handshake reaches the control plane without a database fault.\<close>

theorem enrolled_connects:
  assumes "enroll_run cfg kc tok version rs st w = (Inr (), st', w')" "parse_enroll_token tok = Some t"
    "ce_sign (sf_conn (gc_console cfg)) (snd kc) (et_connector t) (et_tenant t) = Inr (pem, gc_sha cfg (cc_raw c))"
    "cc_cn c = et_connector t" "tenant_from_cert c = Some (et_tenant t)" "gc_sha cfg (cc_raw c) \<noteq> []"
    "cf_delivery (next_call w') = Arrives" "cf_fault (next_call w') = NoFault"
    "length (gc_sha cfg (cc_raw c)) \<le> 1000"
  shows "st' CertFile = Some pem \<and> (\<exists>conn g' w''. st' MetaFile = Some conn
    \<and> open_session cfg (Some c) (Some (FrameHello conn)) now True g w' = (Inr (length (gw_sessions g)), g', w'')
    \<and> gw_registry g' conn = Some (length (gw_sessions g)))"
proof -
  obtain r where r: "client_enroll (gc_console cfg) (gc_token cfg) tok (snd kc) version w = (Inr r, w')"
    "st' CertFile = Some (er_cert r)" "st' MetaFile = Some (er_connector r)"
    by (rule enroll_run_Inr [OF assms(1)])
  note e = client_enroll_Inr [OF r(1) assms(2)]
  from e(5) assms(3) obtain row where row: "er_cert r = pem" "get_connector (et_connector t) (c_slice (cw_db w') (et_tenant t)) = Inr row"
    "cn_status row = ''enrolled''" "cn_fingerprint row = gc_sha cfg (cc_raw c)" by auto
  from handshake_admits [OF row(2-4) assms(6) e(1,2,4) assms(7-9)]
  have h: "client_handshake (gc_console cfg) (gc_token cfg) (et_tenant t) (et_connector t) (cert_fingerprint (gc_sha cfg) c) w' = (Inr JNull, called w')"
    by (simp add: cert_fingerprint_def)
  have "recv_hello (Some (FrameHello (et_connector t))) = Inr (et_connector t)"
    using e(2) by (auto simp: recv_hello_def uuid_shape_def)
  with h assms(4,5) r e(3) row(1) show ?thesis
    by (simp add: open_session_def Let_def registry_add_def on_session_def split: option.splits)
qed

text \<open>A console with a pending connector and a token for it.\<close>

definition enrolling_token :: string where
  "enrolling_token = fst (new_enroll_token rev ''s'' sample_tenant sample_connector)"

definition enrolling_gateway :: gw_config where
  "enrolling_gateway = sample_gateway\<lparr>gc_console := (gc_console sample_gateway)\<lparr>sf_conn := \<lparr>ce_sha = rev, ce_sign = (\<lambda>csr c t. Inr (''pem'', ''red'')),
     ce_bundle = ''ca''\<rparr>\<rparr>\<rparr>"

definition enrolling_console :: console_world where
  "enrolling_console = sample_console\<lparr>cw_db := \<lparr>c_slice = (\<lambda>_. empty_ctdb)(sample_tenant := sample_slice\<lparr>c_conns :=
     [sample_conn_row\<lparr>cn_status := ''pending'', cn_token := Some ''s'', cn_expires := Some 100\<rparr>]\<rparr>)\<rparr>\<rparr>"

lemma enrolling_parse: "parse_enroll_token enrolling_token = Some \<lparr>et_tenant = sample_tenant, et_connector = sample_connector, et_secret = ''s''\<rparr>"
  unfolding enrolling_token_def by (rule enroll_token_roundtrip) (simp_all add: sample_tenant_def sample_connector_def)

lemma sample_enrolls:
  obtains st' w' where "enroll_run enrolling_gateway (''key'', ''csr'') enrolling_token ''v1'' [] (\<lambda>f. None) enrolling_console = (Inr (), st', w')"
    "st' MetaFile = Some sample_connector" "cw_fate w' = cw_fate sample_console"
proof -
  let ?t = "\<lparr>et_tenant = sample_tenant, et_connector = sample_connector, et_secret = ''s''\<rparr>"
  let ?kvs = "[(''connector_version'', JStr ''v1''), (''csr_pem'', JStr ''csr''), (''token'', JStr enrolling_token)]"
  let ?q = "\<lparr>eq_token = enrolling_token, eq_csr = ''csr'', eq_version = ''v1''\<rparr>"
  let ?env = "sf_conn (gc_console enrolling_gateway)"
  have "length enrolling_token \<le> 150"
    using b64_length [of "sample_tenant @ CHR '':'' # sample_connector"]
    by (simp add: enrolling_token_def new_enroll_token_def sample_tenant_def sample_connector_def del: b64_encode.simps)
  then have "length (json_text (JObj ?kvs)) \<le> console_body_limit"
    by (intro order.trans [OF body_length]) (simp add: console_body_limit_def)
  moreover have "\<forall>k \<in> {''connector_version'', ''csr_pem'', ''token''}. to_lower k \<in> set [''token'', ''csr_pem'', ''connector_version'']" by code_simp
  ultimately have d: "decode_json [''token'', ''csr_pem'', ''connector_version''] enroll_request_of (json_text (JObj ?kvs)) = Inr ?q"
    by (intro decode_json_ok) (simp_all add: enroll_members)
  obtain s1 where s1: "enroll_tx ?env 9 ?t ?q (c_slice (cw_db enrolling_console) sample_tenant) = Inr ((''pem'', ''red''), s1)"
    by (simp add: enroll_tx_def enrolling_console_def sample_conn_row_def row_simps enrolling_gateway_def token_matches_def
        complete_enrollment_def count_where_def Let_def)
  let ?d1 = "(cw_db enrolling_console)\<lparr>c_slice := (c_slice (cw_db enrolling_console))(sample_tenant := s1)\<rparr>"
  have "svc_enroll ?env NoFault 9 (json_text (JObj ?kvs)) (cw_db enrolling_console) = (Inr (ConsoleJson 200 (enroll_json ?env ?t ''pem'')), ?d1)"
    using sample_strings(1-3) s1
    by (simp add: svc_enroll_def d enrolling_parse with_tenant_def console_tx_ok del: json_text.simps)
  then have "client_enroll (gc_console enrolling_gateway) (gc_token enrolling_gateway) enrolling_token ''csr'' ''v1'' enrolling_console
      = (Inr \<lparr>er_connector = sample_connector, er_cert = ''pem'', er_bundle = ''ca''\<rparr>, (called enrolling_console)\<lparr>cw_db := ?d1\<rparr>)"
    by (simp add: client_enroll_def client_post_def marshal_def Let_def svc_serve_def svc_route_def on_db_def enrolling_console_def sample_console_def
        enrolling_gateway_def sample_gateway_def http_answer_of_def enroll_json_def enroll_members del: json_text.simps)
  moreover have "enrolling_token \<noteq> []" by (simp add: enrolling_token_def new_enroll_token_def)
  ultimately have g: "gw_enroll enrolling_gateway enrolling_token ''csr'' ''v1'' enrolling_console
      = (Inr \<lparr>er_connector = sample_connector, er_cert = ''pem'', er_bundle = ''ca''\<rparr>, (called enrolling_console)\<lparr>cw_db := ?d1\<rparr>)"
    by (simp add: gw_enroll_def)
  have f: "cw_fate ((called enrolling_console)\<lparr>cw_db := ?d1\<rparr>) = cw_fate sample_console" by (simp add: enrolling_console_def)
  obtain st' where "conf_writes [(KeyFile, ''key''), (CertFile, ''pem''), (CaFile, ''ca''), (MetaFile, sample_connector)] [] (\<lambda>f. None) = (Inr (), st')"
    "st' MetaFile = Some sample_connector"
    by (simp add: conf_write_def)
  note st = this
  have "enroll_run enrolling_gateway (''key'', ''csr'') enrolling_token ''v1'' [] (\<lambda>f. None) enrolling_console
      = (Inr (), st', (called enrolling_console)\<lparr>cw_db := ?d1\<rparr>)"
    unfolding enroll_run_def by (simp add: g st(1) del: conf_writes.simps)
  from this st(2) f show thesis by (rule that)
qed

lemma enrolled_when_complete_witness:
  "\<exists>st' w'. enroll_run enrolling_gateway (''key'', ''csr'') enrolling_token ''v1'' [] (\<lambda>f. None) enrolling_console = (Inr (), st', w')
    \<and> st' KeyFile = Some ''key'' \<and> enrolled_conf st'"
proof -
  obtain st' w' where e: "enroll_run enrolling_gateway (''key'', ''csr'') enrolling_token ''v1'' [] (\<lambda>f. None) enrolling_console = (Inr (), st', w')"
    by (rule sample_enrolls)
  with enrolled_when_complete [where st = "\<lambda>f. None" and tok = enrolling_token and cfg = enrolling_gateway and kc = "(''key'', ''csr'')" and version = "''v1''"
      and oks = "[]" and w = enrolling_console]
  show ?thesis by auto
qed

lemma enrolled_connects_witness:
  "\<exists>st' w' g' w''. enroll_run enrolling_gateway (''key'', ''csr'') enrolling_token ''v1'' [] (\<lambda>f. None) enrolling_console = (Inr (), st', w')
    \<and> open_session enrolling_gateway (Some sample_cert) (Some (FrameHello sample_connector)) 7 True empty_gateway w' = (Inr 0, g', w'')
    \<and> gw_registry g' sample_connector = Some 0"
proof -
  obtain st' w' where e: "enroll_run enrolling_gateway (''key'', ''csr'') enrolling_token ''v1'' [] (\<lambda>f. None) enrolling_console = (Inr (), st', w')"
    "st' MetaFile = Some sample_connector" "cw_fate w' = cw_fate sample_console"
    by (rule sample_enrolls)
  have c: "cc_cn sample_cert = sample_connector" "gc_sha enrolling_gateway (cc_raw sample_cert) = ''red''"
    by (simp_all add: sample_cert_def enrolling_gateway_def sample_gateway_def)
  have s: "ce_sign (sf_conn (gc_console enrolling_gateway)) x y z = Inr (''pem'', ''red'')" for x y z by (simp add: enrolling_gateway_def)
  from e(2,3) c s sample_strings(5) show ?thesis
    using enrolled_connects [OF e(1) enrolling_parse, of "''pem''" sample_cert 7 empty_gateway]
    by (auto simp: e(1) sample_console_def empty_gateway_def simp del: json_text.simps)
qed

end
