(* ===== verification/Logging.thy ===== *)
theory Logging
  imports ApiError GoText
begin

text \<open>
  The structured logs of all processes, \<^verbatim>\<open>libs/obs\<close>: masking of secrets (\<^verbatim>\<open>redact.go\<close>), required fields
  (\<^verbatim>\<open>fields.go\<close>), two exits (\<^verbatim>\<open>logexport.go\<close>), their composition (\<^verbatim>\<open>obs.go\<close>) and the labels that metrics may carry
  (\<^verbatim>\<open>metrics.go\<close>). A regular expression is the function that gives the length of its match at the start of a text;
  folding of case is that of ASCII. The two exits are kept as what is handed to them.
\<close>

section \<open>Patterns\<close>

definition log_space :: "char \<Rightarrow> bool" where
  "log_space c \<longleftrightarrow> (of_char c :: nat) \<in> {9, 10, 12, 13, 32}"

definition is_alnum :: "char \<Rightarrow> bool" where
  "is_alnum c \<longleftrightarrow> (let n = (of_char c :: nat) in 48 \<le> n \<and> n \<le> 57 \<or> 65 \<le> n \<and> n \<le> 90 \<or> 97 \<le> n \<and> n \<le> 122)"

definition starts_ci :: "string \<Rightarrow> string \<Rightarrow> bool" where
  "starts_ci w s \<longleftrightarrow> to_lower (take (length w) s) = w"

definition run_length :: "(char \<Rightarrow> bool) \<Rightarrow> string \<Rightarrow> nat" where
  "run_length p s = length (takeWhile p s)"

definition value_char :: "char \<Rightarrow> bool" where
  "value_char c \<longleftrightarrow> \<not> log_space c \<and> c \<notin> {CHR ''&'', CHR 0x22, CHR 0x27}"

text \<open>The first alternative with which the whole pattern matches.\<close>

definition match_password :: "string \<Rightarrow> nat option" where
  "match_password s = map_option (\<lambda>w. length w + run_length value_char (drop (length w) s))
     (find (\<lambda>w. starts_ci w s \<and> 0 < run_length value_char (drop (length w) s)) [''password='', ''passwd='', ''pwd=''])"

definition bearer_char :: "char \<Rightarrow> bool" where
  "bearer_char c \<longleftrightarrow> is_alnum c \<or> c \<in> {CHR ''.'', CHR ''_'', CHR ''-''}"

definition match_bearer :: "string \<Rightarrow> nat option" where
  "match_bearer s = (if \<not> starts_ci ''bearer'' s then None
     else (let a = run_length log_space (drop 6 s); b = run_length bearer_char (drop (6 + a) s)
       in if a = 0 \<or> b = 0 then None else Some (6 + a + b)))"

definition akia_char :: "char \<Rightarrow> bool" where
  "akia_char c \<longleftrightarrow> (let n = (of_char c :: nat) in 48 \<le> n \<and> n \<le> 57 \<or> 65 \<le> n \<and> n \<le> 90)"

definition match_akia :: "string \<Rightarrow> nat option" where
  "match_akia s = (if has_prefix s ''AKIA'' \<and> 16 \<le> run_length akia_char (drop 4 s) then Some 20 else None)"

definition token_char :: "char \<Rightarrow> bool" where
  "token_char c \<longleftrightarrow> is_alnum c \<or> c \<in> {CHR ''_'', CHR ''-''}"

definition match_token :: "string \<Rightarrow> nat option" where
  "match_token s = map_option (\<lambda>w. length w + run_length token_char (drop (length w) s))
     (find (\<lambda>w. starts_ci w s \<and> 16 \<le> run_length token_char (drop (length w) s)) [''sk-'', ''ghp-'', ''gho-'', ''xoxb-'', ''xoxp-''])"

definition user_char :: "char \<Rightarrow> bool" where
  "user_char c \<longleftrightarrow> c \<noteq> CHR '':'' \<and> \<not> log_space c"

definition pass_char :: "char \<Rightarrow> bool" where
  "pass_char c \<longleftrightarrow> c \<noteq> CHR ''@'' \<and> \<not> log_space c"

text \<open>User and password with their separators.\<close>

definition match_userinfo :: "string \<Rightarrow> nat option" where
  "match_userinfo u = (let a = run_length user_char u; p = drop (Suc a) u; b = run_length pass_char p in
     if a = 0 \<or> take 1 (drop a u) \<noteq> '':'' \<or> b = 0 \<or> take 1 (drop b p) \<noteq> ''@'' then None else Some (a + b + 2))"

definition match_conn :: "string \<Rightarrow> nat option" where
  "match_conn s = map_option (\<lambda>w. length w + the (match_userinfo (drop (length w) s)))
     (find (\<lambda>w. has_prefix s w \<and> match_userinfo (drop (length w) s) \<noteq> None) [''postgresql://'', ''postgres://''])"

definition redact_patterns :: "(string \<Rightarrow> nat option) list" where
  "redact_patterns = [match_password, match_bearer, match_akia, match_token, match_conn]"

section \<open>Masking\<close>

definition redacted_mark :: string where "redacted_mark = ''***REDACTED***''"

text \<open>\<open>ReplaceAllString\<close>: the leftmost match is replaced, then the search goes on after it.\<close>

fun replace_all :: "(string \<Rightarrow> nat option) \<Rightarrow> string \<Rightarrow> string" where
  "replace_all m [] = []"
| "replace_all m (c # s) = (case m (c # s) of None \<Rightarrow> c # replace_all m s
     | Some n \<Rightarrow> redacted_mark @ replace_all m (drop (n - 1) s))"

definition mask_string :: "string \<Rightarrow> string" where
  "mask_string s = fold replace_all redact_patterns s"

text \<open>An attribute's value: a string, a group, or another kind, with the text it is printed as.\<close>

datatype attr_value = AString string | AOther string | AGroup "(string \<times> attr_value) list"

type_synonym log_attr = "string \<times> attr_value"

definition mask_attr_value :: "log_attr \<Rightarrow> log_attr" where
  "mask_attr_value a = (case snd a of AString s \<Rightarrow> (fst a, AString (mask_string s)) | _ \<Rightarrow> a)"

section \<open>Handlers\<close>

record log_record =
  rec_level :: int
  rec_message :: string
  rec_attrs :: "log_attr list"

text \<open>An exit keeps the attributes and groups that it was derived with; the others wrap handlers.\<close>

datatype log_prefix = PreAttrs "log_attr list" | PreGroup string

datatype log_handler = LogExit string int "log_prefix list" | RedactHandler log_handler | EnsureFields log_handler bool bool | Fanout "log_handler list"

fun log_enabled :: "log_handler \<Rightarrow> int \<Rightarrow> bool" where
  "log_enabled (LogExit n floor pre) l = (floor \<le> l)"
| "log_enabled (RedactHandler h) l = log_enabled h l"
| "log_enabled (EnsureFields h t c) l = log_enabled h l"
| "log_enabled (Fanout hs) l = list_ex (\<lambda>h. log_enabled h l) hs"

definition redact_record :: "log_record \<Rightarrow> log_record" where
  "redact_record r = r\<lparr>rec_message := mask_string (rec_message r), rec_attrs := map mask_attr_value (rec_attrs r)\<rparr>"

definition has_key :: "string \<Rightarrow> log_attr list \<Rightarrow> bool" where
  "has_key k as \<longleftrightarrow> k \<in> fst ` set as"

definition ensure_record :: "bool \<Rightarrow> bool \<Rightarrow> log_record \<Rightarrow> log_record" where
  "ensure_record t c r = r\<lparr>rec_attrs := rec_attrs r
     @ (if t \<or> has_key ''tenant_id'' (rec_attrs r) then [] else [(''tenant_id'', AString ''-'')])
     @ (if c \<or> has_key ''trace_id'' (rec_attrs r) then [] else [(''trace_id'', AString ''-'')])\<rparr>"

text \<open>What the exits are handed for a record, and the first error of those whose writes fail.\<close>

type_synonym log_event = "string \<times> log_prefix list \<times> log_record"

definition fanout_result :: "(log_event list \<times> go_error option) list \<Rightarrow> log_event list \<times> go_error option" where
  "fanout_result rs = (concat (map fst rs), map_option (Wrapf ''fanout handle'') (Option.bind (find (\<lambda>e. e \<noteq> None) (map snd rs)) id))"

fun log_handle :: "(string \<Rightarrow> go_error option) \<Rightarrow> log_handler \<Rightarrow> log_record \<Rightarrow> log_event list \<times> go_error option" where
  "log_handle fails (LogExit n floor pre) r = ([(n, pre, r)], fails n)"
| "log_handle fails (RedactHandler h) r = log_handle fails h (redact_record r)"
| "log_handle fails (EnsureFields h t c) r = log_handle fails h (ensure_record t c r)"
| "log_handle fails (Fanout hs) r = fanout_result (map (\<lambda>h. if log_enabled h (rec_level r) then log_handle fails h r else ([], None)) hs)"

fun with_attrs :: "log_handler \<Rightarrow> log_attr list \<Rightarrow> log_handler" where
  "with_attrs (LogExit n floor pre) as = LogExit n floor (pre @ [PreAttrs as])"
| "with_attrs (RedactHandler h) as = RedactHandler (with_attrs h (map mask_attr_value as))"
| "with_attrs (EnsureFields h t c) as = EnsureFields (with_attrs h as) (t \<or> has_key ''tenant_id'' as) (c \<or> has_key ''trace_id'' as)"
| "with_attrs (Fanout hs) as = Fanout (map (\<lambda>h. with_attrs h as) hs)"

fun with_group :: "log_handler \<Rightarrow> string \<Rightarrow> log_handler" where
  "with_group (LogExit n floor pre) g = LogExit n floor (pre @ [PreGroup g])"
| "with_group (RedactHandler h) g = RedactHandler (with_group h g)"
| "with_group (EnsureFields h t c) g = EnsureFields (with_group h g) t c"
| "with_group (Fanout hs) g = Fanout (map (\<lambda>h. with_group h g) hs)"

section \<open>Composition\<close>

definition level_from :: "string \<Rightarrow> int" where
  "level_from s = (if s = ''debug'' then - 4 else if s = ''warn'' then 4 else if s = ''error'' then 8 else 0)"

record obs_config =
  ob_component :: string
  ob_endpoint :: string
  ob_level :: string

definition stdout_handler :: "obs_config \<Rightarrow> log_handler" where
  "stdout_handler c = LogExit ''stdout'' (level_from (ob_level c)) []"

text \<open>The exporter, when it can be made, takes records from a level of its own.\<close>

definition init_log_export :: "int option \<Rightarrow> log_handler \<Rightarrow> log_handler" where
  "init_log_export exporter out = (case exporter of None \<Rightarrow> out | Some floor \<Rightarrow> Fanout [out, LogExit ''otlp'' floor []])"

definition with_base_fields :: "log_handler \<Rightarrow> obs_config \<Rightarrow> log_handler" where
  "with_base_fields h c = with_attrs (EnsureFields h False False) [(''component'', AString (ob_component c))]"

definition init_logger :: "int option \<Rightarrow> obs_config \<Rightarrow> log_handler" where
  "init_logger exporter c = with_base_fields (RedactHandler
     (if ob_endpoint c = [] then stdout_handler c else init_log_export exporter (stdout_handler c))) c"

text \<open>The logger of a request, and a call of a logger.\<close>

definition request_logger :: "log_handler \<Rightarrow> string \<Rightarrow> log_handler" where
  "request_logger h trace = with_attrs h [(''trace_id'', AString trace)]"

definition logger_log :: "(string \<Rightarrow> go_error option) \<Rightarrow> log_handler \<Rightarrow> log_record \<Rightarrow> log_event list" where
  "logger_log fails h r = (if log_enabled h (rec_level r) then fst (log_handle fails h r) else [])"

section \<open>Labels\<close>

definition allowed_labels :: "string list" where
  "allowed_labels = [''component'', ''method'', ''route'', ''code'', ''level'', ''skill'', ''model'', ''status'']"

text \<open>Pairs of keys and values; anything else panics.\<close>

fun label_pairs :: "string list \<Rightarrow> (string \<times> string) list option" where
  "label_pairs [] = Some []"
| "label_pairs [k] = None"
| "label_pairs (k # v # kvs) = (if k \<notin> set allowed_labels then None else map_option (\<lambda>ps. (k, v) # ps) (label_pairs kvs))"

definition must_allowed_labels :: "string list \<Rightarrow> bool" where
  "must_allowed_labels ls \<longleftrightarrow> (\<forall>l \<in> set ls. l \<in> set allowed_labels)"

definition status_class :: "nat \<Rightarrow> string" where
  "status_class status = nat_str (status div 100) @ ''xx''"

end
