(* ===== verification/LoggingProps.thy ===== *)
theory LoggingProps
  imports Logging
begin

text \<open>
  What the logs guarantee: no exit is handed a message or a string attribute with a text that one of the patterns
  matches, and every record carries its required fields.
\<close>

section \<open>Occurrences\<close>

definition occurs :: "(string \<Rightarrow> nat option) \<Rightarrow> string \<Rightarrow> bool" where
  "occurs q s \<longleftrightarrow> (\<exists>k. q (drop k s) \<noteq> None)"

lemma occurs_Cons: "occurs q (c # s) \<longleftrightarrow> q (c # s) \<noteq> None \<or> occurs q s"
proof
  assume "occurs q (c # s)"
  then obtain k where "q (drop k (c # s)) \<noteq> None" by (auto simp: occurs_def)
  then show "q (c # s) \<noteq> None \<or> occurs q s" by (cases k) (auto simp: occurs_def)
next
  assume "q (c # s) \<noteq> None \<or> occurs q s"
  then show "occurs q (c # s)"
    unfolding occurs_def by (metis drop0 drop_Suc_Cons)
qed

lemma occurs_drop: "occurs q (drop n s) \<Longrightarrow> occurs q s"
  by (auto simp: occurs_def)

lemma occurs_append:
  assumes "\<And>n. n < length w \<Longrightarrow> q (drop n w @ r) = None" "occurs q (w @ r)"
  shows "occurs q r"
proof -
  from assms(2) obtain k where k: "q (drop k (w @ r)) \<noteq> None" by (auto simp: occurs_def)
  with assms(1) [of k] have "length w \<le> k" by (auto simp: not_less [symmetric])
  with k show ?thesis by (auto simp: occurs_def)
qed

text \<open>A replaced text is the original up to the first match, then the mark.\<close>

lemma replace_all_view:
  obtains (same) "replace_all m s = s"
  | (hit) a t r where "s = a @ t" "replace_all m s = a @ redacted_mark @ r" "m t \<noteq> None"
proof (induction s arbitrary: thesis)
  case (Cons c s)
  show ?case
  proof (cases "m (c # s)")
    case None
    then have e: "replace_all m (c # s) = c # replace_all m s" by simp
    show ?thesis
    proof (rule Cons.IH)
      assume "replace_all m s = s"
      with e Cons.prems(1) show ?thesis by simp
    next
      fix a t r assume "s = a @ t" "replace_all m s = a @ redacted_mark @ r" "m t \<noteq> None"
      with e Cons.prems(2) [of "c # a" t r] show ?thesis by simp
    qed
  next
    case (Some n)
    with Cons.prems(2) [of "[]" "c # s"] show ?thesis by auto
  qed
qed simp

text \<open>The contract of a pattern with those that are replaced after it: it matches nothing in the mark, and a match that runs into
  the mark was there before.\<close>

locale masked =
  fixes q :: "string \<Rightarrow> nat option" and ms :: "(string \<Rightarrow> nat option) list"
  assumes no_empty: "q [] = None"
    and no_mark: "n < length redacted_mark \<Longrightarrow> q (drop n redacted_mark @ r) = None"
    and stable: "m \<in> set ms \<Longrightarrow> a \<noteq> [] \<Longrightarrow> m t \<noteq> None \<Longrightarrow> q (a @ redacted_mark @ r) \<noteq> None \<Longrightarrow> q (a @ t) \<noteq> None"
begin

lemma replaced:
  assumes "m \<in> set ms" "m = q \<or> \<not> occurs q s"
  shows "\<not> occurs q (replace_all m s)"
  using assms
proof (induction m s rule: replace_all.induct)
  case (1 m)
  then show ?case by (simp add: occurs_def no_empty)
next
  case (2 m c s)
  show ?case
  proof (cases "m (c # s)")
    case (Some n)
    have "\<not> occurs q (replace_all m (drop (n - 1) s))"
      using 2(2) [OF Some 2(3)] 2(4) occurs_drop [of q "n - 1" s] by (auto simp: occurs_Cons)
    then have "\<not> occurs q (redacted_mark @ replace_all m (drop (n - 1) s))" using no_mark by (blast dest: occurs_append [rotated])
    with Some show ?thesis by simp
  next
    case None
    have rest: "\<not> occurs q (replace_all m s)" using 2(1) [OF None 2(3)] 2(4) by (auto simp: occurs_Cons)
    have first: "q (c # s) = None" using 2(4) None by (auto simp: occurs_Cons)
    have "q (c # replace_all m s) = None"
    proof (rule replace_all_view [of m s])
      assume "replace_all m s = s"
      with first show ?thesis by simp
    next
      fix a t r assume h: "s = a @ t" "replace_all m s = a @ redacted_mark @ r" "m t \<noteq> None"
      with stable [of m "c # a" t r] 2(3) first show ?thesis by (cases "q (c # replace_all m s)") auto
    qed
    with None rest show ?thesis by (simp add: occurs_Cons)
  qed
qed

lemma kept: "set ms' \<subseteq> set ms \<Longrightarrow> \<not> occurs q s \<Longrightarrow> \<not> occurs q (fold replace_all ms' s)"
  by (induction ms' arbitrary: s) (auto simp: replaced)

lemma masked_after: "ms = q # ms' \<Longrightarrow> \<not> occurs q (fold replace_all ms s)"
  using kept [of ms' "replace_all q s"] replaced [of q s] by auto

end

section \<open>The patterns\<close>

lemma to_lower_take: "starts_ci w s \<longleftrightarrow> length w \<le> length s \<and> (\<forall>i < length w. lower_char (s ! i) = w ! i)"
proof
  assume a: "starts_ci w s"
  then have len: "length (to_lower (take (length w) s)) = length w" by (simp add: starts_ci_def)
  then have "length w \<le> length s" by (simp add: to_lower_def)
  moreover have "lower_char (s ! i) = w ! i" if "i < length w" for i
  proof -
    have "to_lower (take (length w) s) ! i = w ! i" using a by (simp add: starts_ci_def)
    then show ?thesis using that calculation by (simp add: to_lower_def)
  qed
  ultimately show "length w \<le> length s \<and> (\<forall>i < length w. lower_char (s ! i) = w ! i)" by blast
next
  assume "length w \<le> length s \<and> (\<forall>i < length w. lower_char (s ! i) = w ! i)"
  then show "starts_ci w s" by (auto simp: starts_ci_def to_lower_def intro!: nth_equalityI)
qed

lemma mark_hd: "redacted_mark = CHR ''*'' # tl redacted_mark"
  by (simp add: redacted_mark_def)

lemma lower_star: "lower_char CHR ''*'' = CHR ''*''"
  by code_simp

text \<open>A literal without a star does not run into the mark.\<close>

lemma starts_within:
  assumes "starts_ci w (a @ redacted_mark @ r)" "CHR ''*'' \<notin> set w"
  shows "length w \<le> length a \<and> starts_ci w (a @ t)"
proof -
  have "length w \<le> length a"
  proof (rule ccontr)
    assume "\<not> length w \<le> length a"
    then have "lower_char ((a @ redacted_mark @ r) ! length a) = w ! length a" "length a < length w" using assms(1) by (auto simp: to_lower_take)
    moreover have "(a @ redacted_mark @ r) ! length a = CHR ''*''" by (simp add: nth_append redacted_mark_def)
    ultimately have "w ! length a = CHR ''*''" by (simp add: lower_star)
    with \<open>length a < length w\<close> assms(2) show False by (metis nth_mem)
  qed
  with assms(1) show ?thesis by (auto simp: to_lower_take nth_append)
qed

lemma prefix_within:
  assumes "has_prefix (a @ redacted_mark @ r) w" "CHR ''*'' \<notin> set w"
  shows "length w \<le> length a \<and> has_prefix (a @ t) w"
proof -
  have "length w \<le> length a"
  proof (rule ccontr)
    assume n: "\<not> length w \<le> length a"
    then have "take (length w) (a @ redacted_mark @ r) ! length a = CHR ''*''"
      by (subst nth_take) (simp_all add: nth_append redacted_mark_def)
    with assms n show False by (metis has_prefix_def not_le nth_mem)
  qed
  with assms(1) show ?thesis by (simp add: has_prefix_def)
qed

text \<open>Runs of characters other than a star.\<close>

lemma run_within:
  assumes "\<not> p CHR ''*''"
  shows "run_length p (b @ redacted_mark @ r) = run_length p b \<and> run_length p b \<le> run_length p (b @ t)"
proof (cases "\<forall>c \<in> set b. p c")
  case True
  then have "takeWhile p (b @ x) = b @ takeWhile p x" for x by (simp add: takeWhile_append2)
  moreover have "takeWhile p (redacted_mark @ r) = []" using assms by (simp add: redacted_mark_def)
  moreover have "takeWhile p b = b" using True by (simp add: takeWhile_eq_all_conv)
  ultimately show ?thesis unfolding run_length_def by (simp only: append_Nil2 length_append) simp
next
  case False
  then have "takeWhile p (b @ x) = takeWhile p b" for x by (auto simp: takeWhile_append1)
  then show ?thesis by (simp add: run_length_def)
qed

lemma drop_within: "length w \<le> length a \<Longrightarrow> drop (length w) (a @ x) = drop (length w) a @ x"
  by simp

lemma star_chars:
  "\<not> bearer_char CHR ''*''" "\<not> akia_char CHR ''*''" "\<not> token_char CHR ''*''" "\<not> log_space CHR ''*''" "value_char CHR ''*''"
  by code_simp+

lemma find_Some_iff: "(\<exists>w. find p ws = Some w) \<longleftrightarrow> (\<exists>w \<in> set ws. p w)"
  by (induction ws) auto

lemma password_iff: "match_password s \<noteq> None \<longleftrightarrow>
    (\<exists>w \<in> {''password='', ''passwd='', ''pwd=''}. starts_ci w s \<and> 0 < run_length value_char (drop (length w) s))"
  unfolding match_password_def by (simp add: find_None_iff)

lemma token_iff: "match_token s \<noteq> None \<longleftrightarrow>
    (\<exists>w \<in> {''sk-'', ''ghp-'', ''gho-'', ''xoxb-'', ''xoxp-''}. starts_ci w s \<and> 16 \<le> run_length token_char (drop (length w) s))"
  unfolding match_token_def by (simp add: find_None_iff)

lemma conn_iff: "match_conn s \<noteq> None \<longleftrightarrow>
    (\<exists>w \<in> {''postgresql://'', ''postgres://''}. has_prefix s w \<and> match_userinfo (drop (length w) s) \<noteq> None)"
  unfolding match_conn_def by (simp add: find_None_iff)

lemma userinfo_iff: "match_userinfo u \<noteq> None \<longleftrightarrow> (\<exists>us pw z. u = us @ CHR '':'' # pw @ CHR ''@'' # z \<and> us \<noteq> [] \<and> pw \<noteq> []
    \<and> (\<forall>c \<in> set us. user_char c) \<and> (\<forall>c \<in> set pw. pass_char c))"
proof
  assume "match_userinfo u \<noteq> None"
  then have a: "run_length user_char u \<noteq> 0" "take 1 (drop (run_length user_char u) u) = '':''"
    and b: "run_length pass_char (drop (Suc (run_length user_char u)) u) \<noteq> 0"
      "take 1 (drop (run_length pass_char (drop (Suc (run_length user_char u)) u)) (drop (Suc (run_length user_char u)) u)) = ''@''"
    by (auto simp: match_userinfo_def Let_def split: if_splits)
  have split: "s = takeWhile p s @ c # drop (Suc (run_length p s)) s" if "take 1 (drop (run_length p s) s) = [c]" for p c and s :: string
  proof -
    have "drop (run_length p s) s = dropWhile p s" by (simp add: run_length_def dropWhile_eq_drop)
    with that obtain z where z: "dropWhile p s = c # z" by (cases "dropWhile p s") auto
    then have "drop (Suc (run_length p s)) s = z"
      by (metis \<open>drop (run_length p s) s = dropWhile p s\<close> drop_Suc list.sel(3) tl_drop)
    with z show ?thesis by (metis takeWhile_dropWhile_id)
  qed
  let ?p = "drop (Suc (run_length user_char u)) u"
  have "u = takeWhile user_char u @ CHR '':'' # ?p" by (rule split [OF a(2)])
  moreover have "?p = takeWhile pass_char ?p @ CHR ''@'' # drop (Suc (run_length pass_char ?p)) ?p" by (rule split [OF b(2)])
  ultimately have "u = takeWhile user_char u @ CHR '':'' # takeWhile pass_char ?p @ CHR ''@'' # drop (Suc (run_length pass_char ?p)) ?p" by metis
  moreover have "takeWhile user_char u \<noteq> []" "takeWhile pass_char ?p \<noteq> []" using a(1) b(1) by (auto simp: run_length_def)
  moreover have "\<forall>c \<in> set (takeWhile user_char u). user_char c" "\<forall>c \<in> set (takeWhile pass_char ?p). pass_char c"
    by (auto dest: set_takeWhileD)
  ultimately show "\<exists>us pw z. u = us @ CHR '':'' # pw @ CHR ''@'' # z \<and> us \<noteq> [] \<and> pw \<noteq> []
    \<and> (\<forall>c \<in> set us. user_char c) \<and> (\<forall>c \<in> set pw. pass_char c)" by blast
next
  assume "\<exists>us pw z. u = us @ CHR '':'' # pw @ CHR ''@'' # z \<and> us \<noteq> [] \<and> pw \<noteq> []
    \<and> (\<forall>c \<in> set us. user_char c) \<and> (\<forall>c \<in> set pw. pass_char c)"
  then obtain us pw z where u: "u = us @ CHR '':'' # pw @ CHR ''@'' # z" "us \<noteq> []" "pw \<noteq> []"
      "\<forall>c \<in> set us. user_char c" "\<forall>c \<in> set pw. pass_char c" by blast
  have "\<not> user_char CHR '':''" "\<not> pass_char CHR ''@''" by code_simp+
  with u(4,5) have "takeWhile user_char u = us" "takeWhile pass_char (pw @ CHR ''@'' # z) = pw" by (simp_all add: u(1) takeWhile_append2)
  then have "run_length user_char u = length us" "run_length pass_char (pw @ CHR ''@'' # z) = length pw" by (simp_all add: run_length_def)
  with u(2,3) show "match_userinfo u \<noteq> None" by (simp add: match_userinfo_def Let_def u(1))
qed

section \<open>The patterns keep the contract\<close>

lemma run_pos: "0 < run_length p s \<longleftrightarrow> s \<noteq> [] \<and> p (hd s)"
  by (cases s) (simp_all add: run_length_def)

lemma run_inside: "run_length p b < length b \<Longrightarrow> run_length p (b @ t) = run_length p b"
proof -
  assume "run_length p b < length b"
  then have "\<exists>c \<in> set b. \<not> p c" unfolding run_length_def by (metis less_irrefl takeWhile_eq_all_conv)
  then show ?thesis by (auto simp: run_length_def takeWhile_append1)
qed

lemma starts_hd: "starts_ci (c # w) s \<Longrightarrow> s \<noteq> [] \<and> lower_char (hd s) = c"
  by (cases s) (auto simp: starts_ci_def to_lower_def)

lemma lower_value: "lower_char c \<in> set ''pbsgxa'' \<Longrightarrow> value_char c"
proof (rule ccontr)
  assume a: "lower_char c \<in> set ''pbsgxa''" "\<not> value_char c"
  then have "(of_char c :: nat) \<in> {9, 10, 12, 13, 32, 34, 38, 39}" by (auto simp: value_char_def log_space_def)
  then have "lower_char c = c" "(of_char c :: nat) < 40" by (auto simp: lower_char_def Let_def)
  with a(1) show False by auto
qed

lemma pattern_hd:
  assumes "m \<in> set redact_patterns" "m t \<noteq> None"
  shows "t \<noteq> [] \<and> lower_char (hd t) \<in> set ''pbsgxa''"
proof -
  have l: "lower_char CHR ''A'' = CHR ''a''" "lower_char CHR ''p'' = CHR ''p''" by code_simp+
  from assms consider "match_password t \<noteq> None" | "match_bearer t \<noteq> None" | "match_akia t \<noteq> None" | "match_token t \<noteq> None" | "match_conn t \<noteq> None"
    by (auto simp: redact_patterns_def)
  then show ?thesis
  proof cases
    case 1
    then obtain w where "w \<in> {''password='', ''passwd='', ''pwd=''}" "starts_ci w t" unfolding password_iff by blast
    then show ?thesis by (auto dest: starts_hd)
  next
    case 2
    then have "starts_ci ''bearer'' t" by (auto simp: match_bearer_def split: if_splits)
    then show ?thesis by (auto dest: starts_hd)
  next
    case 3
    then have "has_prefix t ''AKIA''" by (auto simp: match_akia_def split: if_splits)
    then show ?thesis by (cases t) (auto simp: has_prefix_def l)
  next
    case 4
    then obtain w where "w \<in> {''sk-'', ''ghp-'', ''gho-'', ''xoxb-'', ''xoxp-''}" "starts_ci w t" unfolding token_iff by blast
    then show ?thesis by (auto dest: starts_hd)
  next
    case 5
    then obtain w where "w \<in> {''postgresql://'', ''postgres://''}" "has_prefix t w" unfolding conn_iff by blast
    then show ?thesis by (cases t) (auto simp: has_prefix_def l)
  qed
qed

lemma mark_chars: "c \<in> set redacted_mark \<Longrightarrow> lower_char c \<notin> set ''pbsgx''"
proof -
  have "\<forall>c \<in> set redacted_mark. lower_char c \<notin> set ''pbsgx''" by code_simp
  then show "c \<in> set redacted_mark \<Longrightarrow> lower_char c \<notin> set ''pbsgx''" by blast
qed

lemma hd_mark: "n < length redacted_mark \<Longrightarrow> hd (drop n redacted_mark @ r) \<in> set redacted_mark"
  by (metis drop_eq_Nil2 hd_append2 hd_in_set in_set_dropD not_le)

lemma akia_mark: "n < length redacted_mark \<Longrightarrow> match_akia (drop n redacted_mark @ r) = None"
proof -
  have "\<forall>n < 14. \<not> has_prefix (drop n redacted_mark @ r) ''AKIA''"
    by (simp add: eval_nat_numeral All_less_Suc redacted_mark_def has_prefix_def)
  moreover have "length redacted_mark = 14" by (simp add: redacted_mark_def)
  ultimately show "n < length redacted_mark \<Longrightarrow> match_akia (drop n redacted_mark @ r) = None" by (simp add: match_akia_def)
qed

interpretation password: masked match_password redact_patterns
proof
  show "match_password [] = None" by code_simp
  fix n and r :: string assume "n < length redacted_mark"
  then have "lower_char (hd (drop n redacted_mark @ r)) \<notin> set ''pbsgx''" by (rule mark_chars [OF hd_mark])
  then show "match_password (drop n redacted_mark @ r) = None"
    using password_iff [of "drop n redacted_mark @ r"] by (auto dest!: starts_hd)
next
  fix m :: "string \<Rightarrow> nat option" and a t r :: string assume m: "m \<in> set redact_patterns" "a \<noteq> []" "m t \<noteq> None" "match_password (a @ redacted_mark @ r) \<noteq> None"
  then obtain w where w: "w \<in> {''password='', ''passwd='', ''pwd=''}" "starts_ci w (a @ redacted_mark @ r)"
    "0 < run_length value_char (drop (length w) (a @ redacted_mark @ r))" unfolding password_iff by blast
  then have s: "length w \<le> length a" "starts_ci w (a @ t)" using starts_within [OF w(2)] by auto
  have t: "t \<noteq> []" "value_char (hd t)" using pattern_hd [OF m(1,3)] lower_value by auto
  have "0 < run_length value_char (drop (length w) (a @ t))"
    using w(3) s(1) t by (cases "drop (length w) a") (auto simp: run_pos)
  with w(1) s(2) show "match_password (a @ t) \<noteq> None" unfolding password_iff by blast
qed

interpretation bearer: masked match_bearer "tl redact_patterns"
proof
  show "match_bearer [] = None" by code_simp
  fix n and r :: string assume "n < length redacted_mark"
  then have "lower_char (hd (drop n redacted_mark @ r)) \<notin> set ''pbsgx''" by (rule mark_chars [OF hd_mark])
  then have "\<not> starts_ci ''bearer'' (drop n redacted_mark @ r)" by (auto dest!: starts_hd)
  then show "match_bearer (drop n redacted_mark @ r) = None" by (simp add: match_bearer_def)
next
  fix m :: "string \<Rightarrow> nat option" and a t r :: string assume "match_bearer (a @ redacted_mark @ r) \<noteq> None"
  then have h: "starts_ci ''bearer'' (a @ redacted_mark @ r)" "0 < run_length log_space (drop 6 (a @ redacted_mark @ r))"
    "0 < run_length bearer_char (drop (6 + run_length log_space (drop 6 (a @ redacted_mark @ r))) (a @ redacted_mark @ r))"
    by (auto simp: match_bearer_def Let_def split: if_splits)
  from starts_within [OF h(1)] have s: "6 \<le> length a" "starts_ci ''bearer'' (a @ t)" by (auto simp: eval_nat_numeral)
  define b where "b = drop 6 a"
  have k: "run_length log_space (drop 6 (a @ redacted_mark @ r)) = run_length log_space b"
    using s(1) run_within [of log_space b r, OF star_chars(4)] by (simp add: b_def)
  have le: "run_length log_space b \<le> length b" by (simp add: run_length_def length_takeWhile_le)
  have "0 < run_length bearer_char (drop (run_length log_space b) b @ redacted_mark @ r)"
    using h(3) k s(1) le by (simp add: b_def add.commute)
  then have c: "run_length log_space b < length b" "bearer_char (hd (drop (run_length log_space b) b))"
    using star_chars(1) le by (auto simp: run_pos redacted_mark_def hd_append split: if_splits)
  then have d: "run_length log_space (drop 6 (a @ t)) = run_length log_space b" using s(1) run_inside [OF c(1), of t] by (simp add: b_def)
  moreover have "0 < run_length bearer_char (drop (6 + run_length log_space b) (a @ t))"
    using c s(1) by (auto simp: run_pos b_def hd_append add.commute)
  ultimately show "match_bearer (a @ t) \<noteq> None" using s(2) h(2) k by (simp add: match_bearer_def Let_def)
qed

interpretation akia: masked match_akia "drop 2 redact_patterns"
proof
  show "match_akia [] = None" by code_simp
  show "match_akia (drop n redacted_mark @ r) = None" if "n < length redacted_mark" for n r using that by (rule akia_mark)
next
  fix m :: "string \<Rightarrow> nat option" and a t r :: string assume "match_akia (a @ redacted_mark @ r) \<noteq> None"
  then have h: "has_prefix (a @ redacted_mark @ r) ''AKIA''" "16 \<le> run_length akia_char (drop 4 (a @ redacted_mark @ r))"
    by (auto simp: match_akia_def split: if_splits)
  from prefix_within [OF h(1)] have s: "4 \<le> length a" "has_prefix (a @ t) ''AKIA''" by (auto simp: eval_nat_numeral)
  with h(2) have "16 \<le> run_length akia_char (drop 4 (a @ t))" using run_within [of akia_char "drop 4 a" r t, OF star_chars(2)] by simp
  with s(2) show "match_akia (a @ t) \<noteq> None" by (simp add: match_akia_def)
qed

interpretation token: masked match_token "drop 3 redact_patterns"
proof
  show "match_token [] = None" by code_simp
  fix n and r :: string assume "n < length redacted_mark"
  then have "lower_char (hd (drop n redacted_mark @ r)) \<notin> set ''pbsgx''" by (rule mark_chars [OF hd_mark])
  then show "match_token (drop n redacted_mark @ r) = None"
    using token_iff [of "drop n redacted_mark @ r"] by (auto dest!: starts_hd)
next
  fix m :: "string \<Rightarrow> nat option" and a t r :: string assume "match_token (a @ redacted_mark @ r) \<noteq> None"
  then obtain w where w: "w \<in> {''sk-'', ''ghp-'', ''gho-'', ''xoxb-'', ''xoxp-''}" "starts_ci w (a @ redacted_mark @ r)"
    "16 \<le> run_length token_char (drop (length w) (a @ redacted_mark @ r))" unfolding token_iff by blast
  then have s: "length w \<le> length a" "starts_ci w (a @ t)" using starts_within [OF w(2)] by auto
  with w(3) have "16 \<le> run_length token_char (drop (length w) (a @ t))"
    using run_within [of token_char "drop (length w) a" r t, OF star_chars(3)] by simp
  with w(1) s(2) show "match_token (a @ t) \<noteq> None" unfolding token_iff by blast
qed

lemma append_split: "xs @ ys = us @ c # zs \<Longrightarrow> (\<exists>v. us = xs @ v) \<or> (\<exists>b. xs = us @ c # b \<and> b @ ys = zs)"
proof (induction xs arbitrary: us)
  case (Cons x xs)
  then show ?case by (cases us) auto
qed simp

lemma first_at:
  assumes "\<forall>c \<in> set x. \<not> log_space c"
  obtains p y where "x @ CHR ''@'' # z = p @ CHR ''@'' # y" "\<forall>c \<in> set p. pass_char c"
proof -
  let ?s = "x @ CHR ''@'' # z" and ?q = "\<lambda>c. c \<noteq> CHR ''@''"
  have p: "takeWhile ?q ?s = takeWhile ?q x" by (induction x) auto
  obtain y where "dropWhile ?q ?s = CHR ''@'' # y"
  proof -
    have "dropWhile ?q ?s \<noteq> []" by (induction x) auto
    then obtain c y where cy: "dropWhile ?q ?s = c # y" by (cases "dropWhile ?q ?s") auto
    then have "\<not> ?q c" by (simp add: dropWhile_eq_Cons_conv)
    with cy that show thesis by simp
  qed
  then have "?s = takeWhile ?q x @ CHR ''@'' # y" by (metis p takeWhile_dropWhile_id)
  moreover have "\<forall>c \<in> set (takeWhile ?q x). pass_char c" using assms by (auto simp: pass_char_def dest: set_takeWhileD)
  ultimately show thesis by (rule that)
qed

text \<open>A connection string, seen from its start and from within.\<close>

lemma conn_shape:
  assumes "match_conn t \<noteq> None"
  obtains u p y where "t = u @ CHR '':'' # p @ CHR ''@'' # y" "u \<noteq> []" "p \<noteq> []" "\<forall>c \<in> set u. user_char c" "\<forall>c \<in> set p. pass_char c"
proof -
  from assms obtain w where w: "w \<in> {''postgresql://'', ''postgres://''}" "has_prefix t w" "match_userinfo (drop (length w) t) \<noteq> None"
    unfolding conn_iff by blast
  then obtain us pw z where d: "drop (length w) t = us @ CHR '':'' # pw @ CHR ''@'' # z" "\<forall>c \<in> set us. user_char c" "\<forall>c \<in> set pw. pass_char c"
    unfolding userinfo_iff by blast
  from w(1) obtain u where u: "w = u @ ''://''" "u \<in> {''postgresql'', ''postgres''}" by auto
  have uc: "\<forall>c \<in> set ''postgresql''. user_char c" "\<not> log_space CHR ''/''" "\<not> log_space CHR '':''" "pass_char CHR ''/''" by code_simp+
  have "\<forall>c \<in> set (''//'' @ us @ CHR '':'' # pw). \<not> log_space c" using d(2,3) uc by (auto simp: user_char_def pass_char_def)
  then obtain p y where p: "(''//'' @ us @ CHR '':'' # pw) @ CHR ''@'' # z = p @ CHR ''@'' # y" "\<forall>c \<in> set p. pass_char c" by (rule first_at)
  have "t = w @ drop (length w) t" using w(2) by (metis append_take_drop_id has_prefix_def)
  also have "\<dots> = u @ CHR '':'' # ((''//'' @ us @ CHR '':'' # pw) @ CHR ''@'' # z)" using d(1) u(1) by simp
  finally have "t = u @ CHR '':'' # p @ CHR ''@'' # y" by (simp only: p(1))
  moreover have "p \<noteq> []" using p(1) by auto
  moreover have "u \<noteq> []" "\<forall>c \<in> set u. user_char c" using u(2) uc(1) by auto
  ultimately show thesis using that p(2) by blast
qed

lemma conn_password:
  assumes "match_conn t \<noteq> None"
  obtains p y where "t = p @ CHR ''@'' # y" "p \<noteq> []" "\<forall>c \<in> set p. pass_char c"
proof -
  from assms obtain u pw z where t: "t = u @ CHR '':'' # pw @ CHR ''@'' # z" "u \<noteq> []" "\<forall>c \<in> set u. user_char c" "\<forall>c \<in> set pw. pass_char c"
    by (rule conn_shape)
  have "\<not> log_space CHR '':''" by code_simp
  then have "\<forall>c \<in> set (u @ CHR '':'' # pw). \<not> log_space c" using t(3,4) by (auto simp: user_char_def pass_char_def)
  then obtain p y where p: "(u @ CHR '':'' # pw) @ CHR ''@'' # z = p @ CHR ''@'' # y" "\<forall>c \<in> set p. pass_char c" by (rule first_at)
  moreover have "hd t \<noteq> CHR ''@''"
  proof -
    from assms obtain w where "w \<in> {''postgresql://'', ''postgres://''}" "has_prefix t w" unfolding conn_iff by blast
    then show ?thesis by (cases t) (auto simp: has_prefix_def)
  qed
  ultimately show thesis using that [of p y] t(1) by (cases p) auto
qed

interpretation conn: masked match_conn "drop 4 redact_patterns"
proof
  show "match_conn [] = None" by code_simp
  fix n and r :: string assume "n < length redacted_mark"
  then have "lower_char (hd (drop n redacted_mark @ r)) \<notin> set ''pbsgx''" by (rule mark_chars [OF hd_mark])
  moreover have "lower_char CHR ''p'' = CHR ''p''" by code_simp
  ultimately have "\<not> has_prefix (drop n redacted_mark @ r) (CHR ''p'' # w)" for w
    by (cases "drop n redacted_mark @ r") (auto simp: has_prefix_def)
  then show "match_conn (drop n redacted_mark @ r) = None" using conn_iff [of "drop n redacted_mark @ r"] by auto
next
  fix m :: "string \<Rightarrow> nat option" and a t r :: string assume "m \<in> set (drop 4 redact_patterns)" "m t \<noteq> None" "match_conn (a @ redacted_mark @ r) \<noteq> None"
  then have t: "match_conn t \<noteq> None" by (simp add: redact_patterns_def eval_nat_numeral)
  from \<open>match_conn (a @ redacted_mark @ r) \<noteq> None\<close> obtain w where w: "w \<in> {''postgresql://'', ''postgres://''}" "has_prefix (a @ redacted_mark @ r) w"
    "match_userinfo (drop (length w) (a @ redacted_mark @ r)) \<noteq> None" unfolding conn_iff by blast
  then have s: "length w \<le> length a" "has_prefix (a @ t) w" using prefix_within [OF w(2)] by auto
  define b where "b = drop (length w) a"
  from w(3) s(1) obtain us pw z where e: "b @ redacted_mark @ r = us @ CHR '':'' # pw @ CHR ''@'' # z" "us \<noteq> []" "pw \<noteq> []"
      "\<forall>c \<in> set us. user_char c" "\<forall>c \<in> set pw. pass_char c" unfolding userinfo_iff by (auto simp: b_def)
  have "\<exists>us pw z. b @ t = us @ CHR '':'' # pw @ CHR ''@'' # z \<and> us \<noteq> [] \<and> pw \<noteq> [] \<and> (\<forall>c \<in> set us. user_char c) \<and> (\<forall>c \<in> set pw. pass_char c)"
    using append_split [OF e(1)]
  proof (elim disjE exE conjE)
    fix v assume v: "us = b @ v"
    from t obtain u p y where "t = u @ CHR '':'' # p @ CHR ''@'' # y" "u \<noteq> []" "p \<noteq> []" "\<forall>c \<in> set u. user_char c" "\<forall>c \<in> set p. pass_char c"
      by (rule conn_shape)
    with v e(4) show ?thesis by (intro exI [of _ "b @ u"] exI [of _ p] exI [of _ y]) auto
  next
    fix b1 assume b1: "b = us @ CHR '':'' # b1" "b1 @ redacted_mark @ r = pw @ CHR ''@'' # z"
    from append_split [OF b1(2)] show ?thesis
    proof (elim disjE exE conjE)
      fix v assume v: "pw = b1 @ v"
      from t obtain p y where "t = p @ CHR ''@'' # y" "p \<noteq> []" "\<forall>c \<in> set p. pass_char c" by (rule conn_password)
      with v b1(1) e(2,4,5) show ?thesis by (intro exI [of _ us] exI [of _ "b1 @ p"] exI [of _ y]) auto
    next
      fix b2 assume "b1 = pw @ CHR ''@'' # b2"
      with b1(1) e(2-5) show ?thesis by (intro exI [of _ us] exI [of _ pw] exI [of _ "b2 @ t"]) auto
    qed
  qed
  then have "match_userinfo (drop (length w) (a @ t)) \<noteq> None" unfolding userinfo_iff using s(1) by (simp add: b_def)
  with w(1) s(2) show "match_conn (a @ t) \<noteq> None" unfolding conn_iff by blast
qed

section \<open>Masked texts\<close>

definition clean :: "string \<Rightarrow> bool" where
  "clean s \<longleftrightarrow> (\<forall>q \<in> set redact_patterns. \<not> occurs q s)"

lemma mask_clean: "clean (mask_string s)"
proof -
  have "\<not> occurs match_password (mask_string s)"
    unfolding mask_string_def by (rule password.masked_after) (simp add: redact_patterns_def)
  moreover have "\<not> occurs match_bearer (fold replace_all (tl redact_patterns) s)" for s
    by (rule bearer.masked_after) (simp add: redact_patterns_def)
  moreover have "\<not> occurs match_akia (fold replace_all (drop 2 redact_patterns) s)" for s
    by (rule akia.masked_after) (simp add: redact_patterns_def eval_nat_numeral)
  moreover have "\<not> occurs match_token (fold replace_all (drop 3 redact_patterns) s)" for s
    by (rule token.masked_after) (simp add: redact_patterns_def eval_nat_numeral)
  moreover have "\<not> occurs match_conn (fold replace_all (drop 4 redact_patterns) s)" for s
    by (rule conn.masked_after) (simp add: redact_patterns_def eval_nat_numeral)
  ultimately show ?thesis by (simp add: clean_def mask_string_def redact_patterns_def eval_nat_numeral)
qed

lemma replace_all_none: "\<not> occurs m s \<Longrightarrow> replace_all m s = s"
  by (induction s) (auto simp: occurs_Cons)

lemma mask_clean_id: "clean s \<Longrightarrow> mask_string s = s"
proof -
  have "\<forall>q \<in> set ms. \<not> occurs q s \<Longrightarrow> fold replace_all ms s = s" for ms by (induction ms) (auto simp: replace_all_none)
  then show "clean s \<Longrightarrow> mask_string s = s" by (simp add: clean_def mask_string_def)
qed

definition clean_attr :: "log_attr \<Rightarrow> bool" where
  "clean_attr a = (case snd a of AString s \<Rightarrow> clean s | _ \<Rightarrow> True)"

lemma mask_attr_clean: "clean_attr (mask_attr_value a)" "fst (mask_attr_value a) = fst a"
  by (auto simp: clean_attr_def mask_attr_value_def mask_clean split: attr_value.splits)

section \<open>Loggers\<close>

text \<open>A logger is derived by attributes and groups.\<close>

definition log_derive :: "log_handler \<Rightarrow> (log_attr list + string) list \<Rightarrow> log_handler" where
  "log_derive h steps = foldl (\<lambda>h s. case s of Inl as \<Rightarrow> with_attrs h as | Inr g \<Rightarrow> with_group h g) h steps"

definition prefix_attrs :: "log_prefix list \<Rightarrow> log_attr set" where
  "prefix_attrs pre = (\<Union>p \<in> set pre. case p of PreAttrs as \<Rightarrow> set as | PreGroup _ \<Rightarrow> {})"

lemma prefix_attrs_snoc [simp]:
  "prefix_attrs (pre @ [PreAttrs as]) = prefix_attrs pre \<union> set as" "prefix_attrs (pre @ [PreGroup g]) = prefix_attrs pre" "prefix_attrs [] = {}"
  by (auto simp: prefix_attrs_def)

text \<open>A tree of exits, whose prefixes satisfy a predicate.\<close>

fun exits_with :: "(log_prefix list \<Rightarrow> bool) \<Rightarrow> log_handler \<Rightarrow> bool" where
  "exits_with P (LogExit n floor pre) = P pre"
| "exits_with P (Fanout hs) = list_all (exits_with P) hs"
| "exits_with P _ = False"

lemma exits_handle:
  assumes "exits_with P h" "(n, pre, r') \<in> set (fst (log_handle fails h r))"
  shows "r' = r \<and> P pre"
  using assms
proof (induction P h rule: exits_with.induct)
  case (2 P hs)
  then obtain h where h: "h \<in> set hs" "(n, pre, r') \<in> set (fst (if log_enabled h (rec_level r) then log_handle fails h r else ([], None)))"
    by (auto simp: fanout_result_def)
  with 2(2) have "exits_with P h" by (simp add: list_all_iff)
  with h 2(1) show ?case by (auto split: if_splits)
qed simp_all

lemma exits_attrs:
  assumes "exits_with P h" "\<And>pre. P pre \<Longrightarrow> Q (pre @ [PreAttrs as])"
  shows "exits_with Q (with_attrs h as)"
  using assms by (induction P h rule: exits_with.induct) (auto simp: list_all_iff)

lemma exits_group:
  assumes "exits_with P h" "\<And>pre. P pre \<Longrightarrow> Q (pre @ [PreGroup g])"
  shows "exits_with Q (with_group h g)"
  using assms by (induction P h rule: exits_with.induct) (auto simp: list_all_iff)

text \<open>What holds of the prefixes under a logger that knows which fields it has.\<close>

definition prefix_ok :: "bool \<Rightarrow> bool \<Rightarrow> log_prefix list \<Rightarrow> bool" where
  "prefix_ok t c pre \<longleftrightarrow> (\<forall>a \<in> prefix_attrs pre. clean_attr a) \<and> ''component'' \<in> fst ` prefix_attrs pre
     \<and> (t \<longrightarrow> ''tenant_id'' \<in> fst ` prefix_attrs pre) \<and> (c \<longrightarrow> ''trace_id'' \<in> fst ` prefix_attrs pre)"

definition logger_ok :: "log_handler \<Rightarrow> bool" where
  "logger_ok h \<longleftrightarrow> (\<exists>i t c. h = EnsureFields (RedactHandler i) t c \<and> exits_with (prefix_ok t c) i)"

lemma masked_keys: "fst ` set (map mask_attr_value as) = fst ` set as"
  by (simp add: image_image mask_attr_clean(2))

lemma init_logger_ok: "logger_ok (init_logger exporter c)"
proof -
  define i where "i = (if ob_endpoint c = [] then stdout_handler c else init_log_export exporter (stdout_handler c))"
  have i: "exits_with (\<lambda>pre. pre = []) i" by (auto simp: i_def stdout_handler_def init_log_export_def split: option.split)
  let ?as = "map mask_attr_value [(''component'', AString (ob_component c))]"
  have "exits_with (prefix_ok False False) (with_attrs i ?as)"
    by (rule exits_attrs [OF i]) (simp add: prefix_ok_def mask_attr_clean prefix_attrs_def)
  moreover have "init_logger exporter c = EnsureFields (RedactHandler (with_attrs i ?as)) False False"
    by (simp add: init_logger_def with_base_fields_def i_def [symmetric] has_key_def)
  ultimately show ?thesis unfolding logger_ok_def by blast
qed

lemma derive_ok: "logger_ok h \<Longrightarrow> logger_ok (log_derive h steps)"
proof (induction steps arbitrary: h)
  case (Cons s steps)
  have "logger_ok (case s of Inl as \<Rightarrow> with_attrs h as | Inr g \<Rightarrow> with_group h g)"
  proof (cases s)
    case (Inl as)
    from Cons(2) obtain i t c where h: "h = EnsureFields (RedactHandler i) t c" "exits_with (prefix_ok t c) i" by (auto simp: logger_ok_def)
    have "exits_with (prefix_ok (t \<or> has_key ''tenant_id'' as) (c \<or> has_key ''trace_id'' as)) (with_attrs i (map mask_attr_value as))"
      by (rule exits_attrs [OF h(2)]) (auto simp: prefix_ok_def mask_attr_clean image_Un has_key_def image_image)
    with h Inl show ?thesis by (simp add: logger_ok_def)
  next
    case (Inr g)
    from Cons(2) obtain i t c where h: "h = EnsureFields (RedactHandler i) t c" "exits_with (prefix_ok t c) i" by (auto simp: logger_ok_def)
    have "exits_with (prefix_ok t c) (with_group i g)" by (rule exits_group [OF h(2)]) (simp add: prefix_ok_def)
    with h Inr show ?thesis by (simp add: logger_ok_def)
  qed
  with Cons(1) show ?case by (simp add: log_derive_def)
qed (simp add: log_derive_def)

text \<open>C40: Nothing that a pattern knows as a secret is logged as text. However a process's logger was derived, and whatever it
  is called with, each exit is handed a message and string attributes, of the record and of the logger, in which none of
  the five patterns matches anywhere, and the record carries its component, a tenant and a trace.\<close>

theorem log_masked:
  assumes "(n, pre, r') \<in> set (logger_log fails (log_derive (init_logger exporter c) steps) r)"
  shows "clean (rec_message r') \<and> (\<forall>a \<in> set (rec_attrs r') \<union> prefix_attrs pre. clean_attr a)
    \<and> {''component'', ''tenant_id'', ''trace_id''} \<subseteq> fst ` (set (rec_attrs r') \<union> prefix_attrs pre)"
proof -
  obtain i t k where h: "log_derive (init_logger exporter c) steps = EnsureFields (RedactHandler i) t k" "exits_with (prefix_ok t k) i"
    using derive_ok [OF init_logger_ok, of exporter c steps] by (auto simp: logger_ok_def)
  from assms h(1) have e: "(n, pre, r') \<in> set (fst (log_handle fails i (redact_record (ensure_record t k r))))"
    by (auto simp: logger_log_def split: if_splits)
  from exits_handle [OF h(2) this] have r': "r' = redact_record (ensure_record t k r)" and p: "prefix_ok t k pre" by auto
  have m: "fst ` set (rec_attrs r') = fst ` set (rec_attrs (ensure_record t k r))"
    unfolding r' by (simp add: redact_record_def image_image mask_attr_clean(2))
  have "''tenant_id'' \<in> fst ` set (rec_attrs (ensure_record t k r)) \<or> t" "''trace_id'' \<in> fst ` set (rec_attrs (ensure_record t k r)) \<or> k"
    by (auto simp: ensure_record_def has_key_def image_Un)
  with m p have "{''component'', ''tenant_id'', ''trace_id''} \<subseteq> fst ` (set (rec_attrs r') \<union> prefix_attrs pre)"
    by (auto simp: prefix_ok_def image_Un)
  moreover have "clean (rec_message r')" "\<forall>a \<in> set (rec_attrs r'). clean_attr a"
    by (auto simp: r' redact_record_def mask_clean mask_attr_clean)
  ultimately show ?thesis using p by (auto simp: prefix_ok_def)
qed

definition sample_obs :: obs_config where
  "sample_obs = \<lparr>ob_component = ''gateway'', ob_endpoint = ''otel'', ob_level = ''info''\<rparr>"

text \<open>The message is masked at both exits; an error, whose value is not a string, is handed on as it is.\<close>

definition sample_log :: "log_event list" where
  "sample_log = logger_log (\<lambda>_. None) (request_logger (init_logger (Some 0) sample_obs) ''t1'')
     \<lparr>rec_level = 4, rec_message = ''dsn postgres://app:s3cret@db'', rec_attrs = [(''err'', AOther ''password=hunter2'')]\<rparr>"

lemma sample_logged: "map (\<lambda>(n, pre, r). (n, rec_message r, rec_attrs r)) sample_log
    = map (\<lambda>n. (n, ''dsn ***REDACTED***db'', [(''err'', AOther ''password=hunter2''), (''tenant_id'', AString ''-'')])) [''stdout'', ''otlp'']"
  by code_simp

lemma log_masked_witness: "\<exists>e \<in> set sample_log. clean (rec_message (snd (snd e))) \<and> fst e = ''otlp''"
proof -
  have "\<exists>e \<in> set sample_log. fst e = ''otlp''"
  proof -
    have "(''otlp'', ''dsn ***REDACTED***db'', [(''err'', AOther ''password=hunter2''), (''tenant_id'', AString ''-'')])
        \<in> set (map (\<lambda>(n, pre, r). (n, rec_message r, rec_attrs r)) sample_log)" unfolding sample_logged by simp
    then show ?thesis by force
  qed
  then obtain pre r where e: "(''otlp'', pre, r) \<in> set sample_log" by auto
  have s: "sample_log = logger_log (\<lambda>_. None) (log_derive (init_logger (Some 0) sample_obs) [Inl [(''trace_id'', AString ''t1'')]])
     \<lparr>rec_level = 4, rec_message = ''dsn postgres://app:s3cret@db'', rec_attrs = [(''err'', AOther ''password=hunter2'')]\<rparr>"
    by (simp add: sample_log_def log_derive_def request_logger_def)
  from log_masked [OF e [unfolded s]] have "clean (rec_message r)" by blast
  with e show ?thesis by (intro bexI [of _ "(''otlp'', pre, r)"]) simp_all
qed

end
