(* ===== verification/StartUp.thy ===== *)
theory StartUp
  imports ConfigLoad ApiError ConsoleApi ConsoleLlm Collector DirectConn CredCrypto Scheduler Connector
begin

text \<open>
  The decisions of the four processes before they serve: \<^verbatim>\<open>cmd/*/main.go\<close> with the configurations that they
  declare, and what \<^verbatim>\<open>cmd/console/server.go\<close> and \<^verbatim>\<open>cmd/agent-runtime/server.go\<close> make of a configuration. Listening,
  signals and telemetry are left out.
\<close>

section \<open>Declared configurations\<close>

definition field :: "string \<Rightarrow> cfg_kind \<Rightarrow> (string \<times> string) list \<Rightarrow> struct_field" where
  "field n k ts = \<lparr>fld_name = n, fld_kind = k, fld_tags = ts\<rparr>"

definition gateway_fields :: "struct_field list" where
  "gateway_fields = [
    field ''LogLevel'' KString [(''env'', ''LOG_LEVEL''), (''default'', ''info''), (''oneof'', ''debug,info,warn,error''), (''common'', ''true'')],
    field ''Listen'' KString [(''env'', ''LISTEN_ADDR''), (''default'', '':8081'')],
    field ''OTLPEndpoint'' KString [(''env'', ''OTLP_ENDPOINT''), (''default'', []), (''common'', ''true'')],
    field ''SampleRatio'' KFloat [(''env'', ''TRACE_SAMPLE_RATIO''), (''default'', ''1.0''), (''common'', ''true'')],
    field ''EnrollListen'' KString [(''env'', ''ENROLL_LISTEN''), (''default'', '':8082'')],
    field ''SessionListen'' KString [(''env'', ''SESSION_LISTEN''), (''default'', '':8083'')],
    field ''ConsoleURL'' KString [(''env'', ''CONSOLE_URL''), (''default'', [])],
    field ''SvcToken'' KString [(''env'', ''SVC_TOKEN''), (''secret'', ''true'')],
    field ''TLSCertPEM'' KString [(''env'', ''TLS_CERT_PEM''), (''secret'', ''true'')],
    field ''TLSKeyPEM'' KString [(''env'', ''TLS_KEY_PEM''), (''secret'', ''true'')],
    field ''ClientCAPEM'' KString [(''env'', ''CLIENT_CA_PEM''), (''secret'', ''true'')]]"

definition connector_fields :: "struct_field list" where
  "connector_fields = [
    field ''LogLevel'' KString [(''env'', ''LOG_LEVEL''), (''default'', ''info''), (''oneof'', ''debug,info,warn,error''), (''common'', ''true'')],
    field ''ConfigDir'' KString [(''env'', ''CONFIG_DIR''), (''default'', [])],
    field ''EnrollAddr'' KString [(''env'', ''ENROLL_ADDR''), (''default'', [])],
    field ''SessionAddr'' KString [(''env'', ''SESSION_ADDR''), (''default'', [])],
    field ''EnrollToken'' KString [(''env'', ''ENROLL_TOKEN''), (''secret'', ''true'')],
    field ''EnrollCAPEM'' KString [(''env'', ''ENROLL_CA_PEM'')],
    field ''DBURL'' KString [(''env'', ''DB_URL''), (''secret'', ''true'')]]"

definition console_fields :: "struct_field list" where
  "console_fields = [
    field ''LogLevel'' KString [(''env'', ''LOG_LEVEL''), (''default'', ''info''), (''oneof'', ''debug,info,warn,error''), (''common'', ''true'')],
    field ''Listen'' KString [(''env'', ''LISTEN_ADDR''), (''default'', '':8080'')],
    field ''OTLPEndpoint'' KString [(''env'', ''OTLP_ENDPOINT''), (''default'', []), (''common'', ''true'')],
    field ''SampleRatio'' KFloat [(''env'', ''TRACE_SAMPLE_RATIO''), (''default'', ''1.0''), (''common'', ''true'')],
    field ''DBURL'' KString [(''env'', ''DB_URL''), (''secret'', ''true'')],
    field ''CredentialKEK'' KString [(''env'', ''CREDENTIAL_KEK''), (''secret'', ''true'')],
    field ''CredentialKEKID'' KString [(''env'', ''CREDENTIAL_KEK_ID''), (''default'', ''v1'')],
    field ''DefaultTenantID'' KString [(''env'', ''DEFAULT_TENANT_ID''), (''default'', ''00000000-0000-0000-0000-000000000001'')],
    field ''SvcToken'' KString [(''env'', ''SVC_TOKEN''), (''secret'', ''true'')],
    field ''CACert'' KString [(''env'', ''CA_CERT''), (''secret'', ''true'')],
    field ''CAKey'' KString [(''env'', ''CA_KEY''), (''secret'', ''true'')],
    field ''DirectIdleTTL'' KDuration [(''env'', ''DIRECT_IDLE_TTL''), (''default'', ''10m'')],
    field ''DirectConnectTimeout'' KDuration [(''env'', ''DIRECT_CONNECT_TIMEOUT''), (''default'', ''8s'')],
    field ''GatewayURL'' KString [(''env'', ''GATEWAY_URL''), (''default'', [])],
    field ''AgentRuntimeURL'' KString [(''env'', ''AGENT_RUNTIME_URL''), (''default'', [])],
    field ''MetricsInterval'' KDuration [(''env'', ''METRICS_INTERVAL''), (''default'', ''60s'')],
    field ''SlowlogInterval'' KDuration [(''env'', ''SLOWLOG_INTERVAL''), (''default'', ''300s'')],
    field ''MetaInterval'' KDuration [(''env'', ''META_INTERVAL''), (''default'', ''3600s'')],
    field ''TSBatchMaxRows'' KInt [(''env'', ''TS_BATCH_MAX_ROWS''), (''default'', ''5000'')],
    field ''LLMDefaultTokenBudget'' KInt [(''env'', ''LLM_DEFAULT_TOKEN_BUDGET''), (''default'', ''50000000'')]]"

definition agent_fields :: "struct_field list" where
  "agent_fields = [
    field ''LogLevel'' KString [(''env'', ''LOG_LEVEL''), (''default'', ''info''), (''oneof'', ''debug,info,warn,error''), (''common'', ''true'')],
    field ''Listen'' KString [(''env'', ''LISTEN_ADDR''), (''default'', '':8082'')],
    field ''OTLPEndpoint'' KString [(''env'', ''OTLP_ENDPOINT''), (''default'', []), (''common'', ''true'')],
    field ''SampleRatio'' KFloat [(''env'', ''TRACE_SAMPLE_RATIO''), (''default'', ''1.0''), (''common'', ''true'')],
    field ''DBURL'' KString [(''env'', ''DB_URL''), (''secret'', ''true'')],
    field ''LLMURL'' KString [(''env'', ''LLM_URL''), (''default'', [])],
    field ''LLMKey'' KString [(''env'', ''LLM_KEY''), (''secret'', ''true'')],
    field ''ConsoleURL'' KString [(''env'', ''CONSOLE_URL''), (''default'', [])],
    field ''SvcToken'' KString [(''env'', ''SVC_TOKEN''), (''secret'', ''true'')],
    field ''DefaultModel'' KString [(''env'', ''DEFAULT_MODEL''), (''default'', ''chat-default'')],
    field ''MaxConcurrentTurns'' KInt [(''env'', ''MAX_CONCURRENT_TURNS''), (''default'', ''8'')],
    field ''DrainTimeout'' KDuration [(''env'', ''DRAIN_TIMEOUT''), (''default'', ''300s'')],
    field ''MCPEndpoints'' KString [(''env'', ''MCP_ENDPOINTS''), (''default'', [])],
    field ''DefaultTenantID'' KString [(''env'', ''DEFAULT_TENANT_ID''), (''default'', ''00000000-0000-0000-0000-000000000001'')]]"

text \<open>A loaded configuration, by the names of its fields.\<close>

definition cfg_value_of :: "struct_field list \<Rightarrow> cfg_value list \<Rightarrow> string \<Rightarrow> cfg_value option" where
  "cfg_value_of fs vs n = map_of (zip (map fld_name fs) vs) n"

definition cfg_text :: "struct_field list \<Rightarrow> cfg_value list \<Rightarrow> string \<Rightarrow> string" where
  "cfg_text fs vs n = (case cfg_value_of fs vs n of Some (VString s) \<Rightarrow> s | _ \<Rightarrow> [])"

definition cfg_int :: "struct_field list \<Rightarrow> cfg_value list \<Rightarrow> string \<Rightarrow> int" where
  "cfg_int fs vs n = (case cfg_value_of fs vs n of Some (VInt i) \<Rightarrow> i | Some (VDuration d) \<Rightarrow> d | _ \<Rightarrow> 0)"

text \<open>The variables of a table that are empty.\<close>

definition missing_vars :: "struct_field list \<Rightarrow> cfg_value list \<Rightarrow> (string \<times> string) list \<Rightarrow> string list" where
  "missing_vars fs vs tab = map fst (filter (\<lambda>(_, n). cfg_text fs vs n = []) tab)"

section \<open>Skill endpoints\<close>

definition mcp_scheme :: "string \<Rightarrow> bool" where
  "mcp_scheme url \<longleftrightarrow> has_prefix url ''http://'' \<or> has_prefix url ''https://''"

fun mcp_parts :: "string list \<Rightarrow> (string \<times> string) list \<Rightarrow> go_error + (string \<times> string) list" where
  "mcp_parts [] out = Inr out"
| "mcp_parts (p # ps) out = (let part = trim_space p in if part = [] then mcp_parts ps out
     else (case cut CHR ''='' part of None \<Rightarrow> Inl (Plain ''AIRUSH_AGENT_MCP_ENDPOINTS'')
       | Some (n, u) \<Rightarrow> let name = trim_space n; url = trim_space u in
           if name = [] \<or> \<not> mcp_scheme url then Inl (Plain ''AIRUSH_AGENT_MCP_ENDPOINTS'')
           else if name \<in> fst ` set out then Inl (Plain ''AIRUSH_AGENT_MCP_ENDPOINTS duplicate'')
           else mcp_parts ps (out @ [(name, url)])))"

definition parse_mcp_endpoints :: "string \<Rightarrow> go_error + (string \<times> string) list" where
  "parse_mcp_endpoints raw = (if trim_space raw = [] then Inr [] else mcp_parts (split_on CHR '','' raw) [])"

text \<open>The error is ignored here; the servers that are asked for.\<close>

definition start_mcp :: "string \<Rightarrow> (string \<times> string) list option" where
  "start_mcp raw = (case parse_mcp_endpoints raw of Inr (s # ss) \<Rightarrow> Some (s # ss) | _ \<Rightarrow> None)"

section \<open>Checks before serving\<close>

datatype refusal = MissingVars "string list" | NotPositive string | BadEndpoints go_error | NotEnrolled | StoreFailed go_error

definition agent_required :: "(string \<times> string) list" where
  "agent_required = [(''AIRUSH_AGENT_DB_URL'', ''DBURL''), (''AIRUSH_AGENT_LLM_URL'', ''LLMURL''), (''AIRUSH_AGENT_LLM_KEY'', ''LLMKey''),
     (''AIRUSH_AGENT_CONSOLE_URL'', ''ConsoleURL''), (''AIRUSH_AGENT_SVC_TOKEN'', ''SvcToken'')]"

definition validate_serve_config :: "cfg_value list \<Rightarrow> refusal option" where
  "validate_serve_config vs = (let missing = missing_vars agent_fields vs agent_required in
     if missing \<noteq> [] then Some (MissingVars missing)
     else if cfg_int agent_fields vs ''MaxConcurrentTurns'' \<le> 0 then Some (NotPositive ''AIRUSH_AGENT_MAX_CONCURRENT_TURNS'')
     else if cfg_int agent_fields vs ''DrainTimeout'' \<le> 0 then Some (NotPositive ''AIRUSH_AGENT_DRAIN_TIMEOUT'')
     else (case parse_mcp_endpoints (cfg_text agent_fields vs ''MCPEndpoints'') of Inl e \<Rightarrow> Some (BadEndpoints e) | Inr _ \<Rightarrow> None))"

text \<open>The console names one of the missing variables, whichever its table gives first.\<close>

definition console_required :: "(string \<times> string) list" where
  "console_required = [(''AIRUSH_CONSOLE_DB_URL'', ''DBURL''), (''AIRUSH_CONSOLE_CREDENTIAL_KEK'', ''CredentialKEK''),
     (''AIRUSH_CONSOLE_SVC_TOKEN'', ''SvcToken''), (''AIRUSH_CONSOLE_CA_CERT'', ''CACert''), (''AIRUSH_CONSOLE_CA_KEY'', ''CAKey'')]"

section \<open>Main functions\<close>

record main_flags =
  mf_print :: bool
  mf_keys :: bool
  mf_serve :: bool
  mf_enroll :: bool
  mf_run :: bool
  mf_args :: "string list"

datatype main_step = PrintKeys "string list" | PrintConfig string | ConfigErrors "field_error list" | Refused nat refusal
  | Serving "cfg_value list" | Enrolling "cfg_value list" | Running "cfg_value list" string bool | Migrating string "string list" | InitCa | PrintVersion

text \<open>What the four begin with.\<close>

definition main_start :: "cfg_std \<Rightarrow> (environment \<Rightarrow> environment) \<Rightarrow> environment \<Rightarrow> string \<Rightarrow> struct_field list \<Rightarrow> main_flags
    \<Rightarrow> main_step + cfg_value list" where
  "main_start std dotenv env c fs fl = (if mf_keys fl then Inl (PrintKeys (config_keys c fs))
     else (case config_load std dotenv env c fs of (vs, es) \<Rightarrow> if es \<noteq> [] then Inl (ConfigErrors es)
       else if mf_print fl then Inl (PrintConfig (redacted c fs vs)) else Inr vs))"

definition agent_main :: "cfg_std \<Rightarrow> (environment \<Rightarrow> environment) \<Rightarrow> environment \<Rightarrow> main_flags \<Rightarrow> main_step" where
  "agent_main std dotenv env fl = (case main_start std dotenv env ''agent'' agent_fields fl of Inl s \<Rightarrow> s
     | Inr vs \<Rightarrow> if \<not> mf_serve fl then PrintVersion
         else (case validate_serve_config vs of Some r \<Rightarrow> Refused 2 r | None \<Rightarrow> Serving vs))"

definition gateway_main :: "cfg_std \<Rightarrow> (environment \<Rightarrow> environment) \<Rightarrow> environment \<Rightarrow> main_flags \<Rightarrow> main_step" where
  "gateway_main std dotenv env fl = (case main_start std dotenv env ''gateway'' gateway_fields fl of Inl s \<Rightarrow> s
     | Inr vs \<Rightarrow> if mf_serve fl then Serving vs else PrintVersion)"

definition serve_main :: "cfg_value list \<Rightarrow> main_step" where
  "serve_main vs = (let missing = missing_vars console_fields vs console_required in
     if missing \<noteq> [] then Refused 2 (MissingVars missing) else Serving vs)"

definition console_main :: "cfg_std \<Rightarrow> (environment \<Rightarrow> environment) \<Rightarrow> environment \<Rightarrow> main_flags \<Rightarrow> main_step" where
  "console_main std dotenv env fl = (case main_start std dotenv env ''console'' console_fields fl of Inl s \<Rightarrow> s
     | Inr vs \<Rightarrow> if mf_serve fl then serve_main vs
         else (case mf_args fl of [] \<Rightarrow> PrintVersion
           | a # as \<Rightarrow> if a = ''pki-init'' then InitCa
               else if a = ''migrate'' then (let url = cfg_text console_fields vs ''DBURL'' in
                 if url = [] then Refused 2 (MissingVars [''AIRUSH_CONSOLE_DB_URL'']) else Migrating url as)
               else PrintVersion))"

text \<open>What a connector finds: its directory, which PEM texts are a trust root, which make session credentials, and whether
  a probe can be opened on a database. A session runs with the id of its file, the empty one when it cannot be read, and
  with a probe when a database is configured.\<close>

record connector_env =
  ne_dir :: "go_error + conf_store"
  ne_root :: "string \<Rightarrow> bool"
  ne_mtls :: "string \<Rightarrow> string \<Rightarrow> string \<Rightarrow> bool"
  ne_probe :: "string \<Rightarrow> bool"

definition enroll_creds :: "connector_env \<Rightarrow> string \<Rightarrow> go_error + unit" where
  "enroll_creds ne ca = (if ca = [] \<or> ne_root ne ca then Inr () else Inl (Plain ''connector: append enroll CA failed''))"

definition must_enroll :: "connector_env \<Rightarrow> cfg_value list \<Rightarrow> main_step" where
  "must_enroll ne vs = (if cfg_text connector_fields vs ''EnrollAddr'' = [] then Refused 1 (MissingVars [''AIRUSH_CONNECTOR_ENROLL_ADDR''])
     else if cfg_text connector_fields vs ''EnrollToken'' = [] then Refused 1 (MissingVars [''AIRUSH_CONNECTOR_ENROLL_TOKEN''])
     else (case ne_dir ne of Inl e \<Rightarrow> Refused 1 (StoreFailed e)
       | Inr _ \<Rightarrow> (case enroll_creds ne (cfg_text connector_fields vs ''EnrollCAPEM'') of Inl e \<Rightarrow> Refused 1 (StoreFailed e) | Inr _ \<Rightarrow> Enrolling vs)))"

definition conf_text :: "conf_file \<Rightarrow> conf_store \<Rightarrow> string" where
  "conf_text f st = (case conf_read f st of Inl _ \<Rightarrow> [] | Inr s \<Rightarrow> s)"

definition must_run :: "connector_env \<Rightarrow> cfg_value list \<Rightarrow> main_step" where
  "must_run ne vs = (let url = cfg_text connector_fields vs ''DBURL'' in
     if cfg_text connector_fields vs ''SessionAddr'' = [] then Refused 1 (MissingVars [''AIRUSH_CONNECTOR_SESSION_ADDR''])
     else (case ne_dir ne of Inl e \<Rightarrow> Refused 1 (StoreFailed e)
       | Inr st \<Rightarrow> if \<not> enrolled_conf st then Refused 1 NotEnrolled
           else if \<not> ne_mtls ne (conf_text CertFile st) (conf_text KeyFile st) (conf_text CaFile st) then Refused 1 (StoreFailed (Plain ''session: credentials''))
           else if url \<noteq> [] \<and> \<not> ne_probe ne url then Refused 1 (StoreFailed (Plain ''dbprobe''))
           else Running vs (conf_text MetaFile st) (url \<noteq> [])))"

definition connector_main :: "cfg_std \<Rightarrow> (environment \<Rightarrow> environment) \<Rightarrow> environment \<Rightarrow> connector_env \<Rightarrow> main_flags \<Rightarrow> main_step" where
  "connector_main std dotenv env ne fl = (case main_start std dotenv env ''connector'' connector_fields fl of Inl s \<Rightarrow> s
     | Inr vs \<Rightarrow> if mf_enroll fl then must_enroll ne vs else if mf_run fl then must_run ne vs else PrintVersion)"

definition pod_name :: "environment \<Rightarrow> string option \<Rightarrow> string" where
  "pod_name env host = (if env ''POD_NAME'' \<notin> {None, Some []} then the (env ''POD_NAME'')
     else if host \<in> {None, Some []} then ''agent-runtime'' else the host)"

section \<open>Serving\<close>

text \<open>What the console's parts are configured with: positive values replace the defaults.\<close>

definition or_default :: "int \<Rightarrow> int \<Rightarrow> int" where
  "or_default v d = (if 0 < v then v else d)"

definition direct_settings :: "cfg_value list \<Rightarrow> direct_config" where
  "direct_settings vs = default_direct_config\<lparr>dg_idle := or_default (cfg_int console_fields vs ''DirectIdleTTL'') (dg_idle default_direct_config),
     dg_timeout := or_default (cfg_int console_fields vs ''DirectConnectTimeout'') (dg_timeout default_direct_config)\<rparr>"

definition collect_settings :: "cfg_value list \<Rightarrow> coll_config" where
  "collect_settings vs = default_coll_config\<lparr>oc_interval := or_default (cfg_int console_fields vs ''MetricsInterval'') (oc_interval default_coll_config),
     oc_slow := or_default (cfg_int console_fields vs ''SlowlogInterval'') (oc_slow default_coll_config),
     oc_meta := or_default (cfg_int console_fields vs ''MetaInterval'') (oc_meta default_coll_config)\<rparr>"

definition ensure_default_quota :: "tx_fault \<Rightarrow> int \<Rightarrow> cfg_value list \<Rightarrow> cdb \<Rightarrow> (go_error + bool) \<times> cdb" where
  "ensure_default_quota flt now vs d = console_tx flt (with_tenant None (cfg_text console_fields vs ''DefaultTenantID''))
     (ensure_quota now (cfg_int console_fields vs ''LLMDefaultTokenBudget'')) d"

text \<open>What the console finds when it starts: its two stores, the URL of the agent runtime, the certificate authority.\<close>

record start_env =
  se_store :: bool
  se_series :: bool
  se_url :: bool
  se_ca :: bool
  se_fault :: tx_fault
  se_now :: int

record console_parts =
  cp_sealer :: sealer
  cp_direct :: direct_config
  cp_collect :: coll_config
  cp_gateway :: bool
  cp_agent :: bool
  cp_tenant :: string

definition build_direct :: "cfg_value list \<Rightarrow> go_error + sealer \<times> direct_config" where
  "build_direct vs = (case new_sealer (cfg_text console_fields vs ''CredentialKEK'') (cfg_text console_fields vs ''CredentialKEKID'') of
       Inl e \<Rightarrow> Inl (Wrapf ''init credential sealer'' e) | Inr sl \<Rightarrow> Inr (sl, direct_settings vs))"

text \<open>Whether the agent runtime is mounted.\<close>

definition build_handler :: "start_env \<Rightarrow> cfg_value list \<Rightarrow> go_error + bool" where
  "build_handler se vs = (let url = cfg_text console_fields vs ''AgentRuntimeURL'' in
     if \<not> uuid_shape (cfg_text console_fields vs ''DefaultTenantID'') then Inl (Wrapf ''init httpapi'' (Plain ''httpapi: default tenant id is not a UUID''))
     else if url \<noteq> [] \<and> \<not> se_url se then Inl (Wrapf ''init agent proxy'' (Plain ''url''))
     else if \<not> se_ca se then Inl (Wrapf ''load connector CA'' (Plain ''pki''))
     else Inr (url \<noteq> []))"

text \<open>\<open>runServer\<close> up to the start of the listener, in its order.\<close>

definition run_console :: "start_env \<Rightarrow> cfg_value list \<Rightarrow> cdb \<Rightarrow> (go_error + console_parts) \<times> cdb" where
  "run_console se vs d = (if \<not> se_store se then (Inl (Wrapf ''init repo store'' (Plain ''pool'')), d)
     else (case build_direct vs of Inl e \<Rightarrow> (Inl e, d)
       | Inr (sl, dc) \<Rightarrow> (case ensure_default_quota (se_fault se) (se_now se) vs d of
           (Inl e, d1) \<Rightarrow> (Inl (Wrapf ''ensure default llm quota'' e), d1)
         | (Inr _, d1) \<Rightarrow> if \<not> se_series se then (Inl (Wrapf ''init timeseries store'' (Plain ''pool'')), d1)
             else (case build_handler se vs of Inl e \<Rightarrow> (Inl e, d1)
               | Inr agent \<Rightarrow> (Inr \<lparr>cp_sealer = sl, cp_direct = dc, cp_collect = collect_settings vs,
                   cp_gateway = (cfg_text console_fields vs ''GatewayURL'' \<noteq> []), cp_agent = agent,
                   cp_tenant = cfg_text console_fields vs ''DefaultTenantID''\<rparr>, d1)))))"

text \<open>The agent runtime: its limiter, the time it drains, the skills it asks for; whether it takes traffic.\<close>

record agent_parts =
  gp_limiter :: tenant_limiter
  gp_drain :: int
  gp_skills :: "(string \<times> string) list option"
  gp_pod :: string

definition agent_run :: "environment \<Rightarrow> string option \<Rightarrow> cfg_value list \<Rightarrow> agent_parts" where
  "agent_run env host vs = \<lparr>gp_limiter = new_tenant_limiter (cfg_int agent_fields vs ''MaxConcurrentTurns''),
     gp_drain = cfg_int agent_fields vs ''DrainTimeout'', gp_skills = start_mcp (cfg_text agent_fields vs ''MCPEndpoints''), gp_pod = pod_name env host\<rparr>"

definition readyz :: "bool \<Rightarrow> nat \<times> string" where
  "readyz draining = (if draining then (503, ''draining'') else (200, ''ready''))"

text \<open>The gateway: its connector side, which it leaves out without a console, and the handler that demonstrates the telemetry. The
  environment says whether the TLS material is usable and which addresses can be listened on.\<close>

definition start_accept :: "bool \<Rightarrow> (string \<Rightarrow> bool) \<Rightarrow> cfg_value list \<Rightarrow> go_error + bool" where
  "start_accept tls listens vs = (if cfg_text gateway_fields vs ''ConsoleURL'' = [] then Inr False
     else if \<not> tls then Inl (Wrapf ''build accept servers'' (Plain ''tls''))
     else if \<not> listens (cfg_text gateway_fields vs ''EnrollListen'') then Inl (Wrapf ''listen enroll'' (Plain ''listen''))
     else if \<not> listens (cfg_text gateway_fields vs ''SessionListen'') then Inl (Wrapf ''listen session'' (Plain ''listen''))
     else Inr True)"

definition demo_handler :: "string \<Rightarrow> string \<Rightarrow> json handler_outcome" where
  "demo_handler trace fail = (if fail = ''quota'' then Failed (api_err CodeQuotaExceeded)
     else if fail = ''panic'' then Panicked ''demo panic path''
     else Wrote (JObj [(''ok'', JStr ''true''), (''trace_id'', JStr trace)]))"

end
