(* ===== verification/StartProps.thy ===== *)
theory StartProps
  imports StartUp ConfigProps TsProps
begin

text \<open>
  What holds of a process that serves: its required values are there, the skills it asks for are those of its
  configuration, and a console has a quota for its tenant before it answers.
\<close>

section \<open>Loading, on the declared configurations\<close>

definition sample_std :: cfg_std where
  "sample_std = \<lparr>cs_frac = \<lambda>_ _ _. 0, cs_float = Some\<rparr>"

lemma config_loaded_witness:
  "config_load sample_std id [''AIRUSH_COMMON_LOG_LEVEL'' \<mapsto> ''warn''] ''connector'' connector_fields
      = (VString ''warn'' # replicate 6 (VString []), []) \<and> reads sample_std KString ''warn'' (VString ''warn'')"
proof
  show l: "config_load sample_std id [''AIRUSH_COMMON_LOG_LEVEL'' \<mapsto> ''warn''] ''connector'' connector_fields
      = (VString ''warn'' # replicate 6 (VString []), [])" by code_simp
  obtain sp where p: "parse_tag ''connector'' (connector_fields ! 0) = Inr sp"
      "case first_source (process_env id [''AIRUSH_COMMON_LOG_LEVEL'' \<mapsto> ''warn'']) sp of None \<Rightarrow> \<not> fs_required sp \<and> (VString ''warn'' # replicate 6 (VString [])) ! 0 = zero_value (fld_kind (connector_fields ! 0))
        | Some raw \<Rightarrow> (fs_oneof sp \<noteq> [] \<longrightarrow> raw \<in> set (fs_oneof sp)) \<and> reads sample_std (fld_kind (connector_fields ! 0)) raw ((VString ''warn'' # replicate 6 (VString [])) ! 0)"
    using config_loaded [OF l] by (auto simp: connector_fields_def)
  then show "reads sample_std KString ''warn'' (VString ''warn'')" by (simp add: reads_def)
qed

lemma secrets_hidden_witness:
  "redacted ''gateway'' gateway_fields (fst (config_load sample_std id [''AIRUSH_GATEWAY_SVC_TOKEN'' \<mapsto> ''one''] ''gateway'' gateway_fields))
     = redacted ''gateway'' gateway_fields (fst (config_load sample_std id [''AIRUSH_GATEWAY_SVC_TOKEN'' \<mapsto> ''two''] ''gateway'' gateway_fields))"
proof -
  have "map upper_char ''gateway'' = ''GATEWAY''" "map upper_char ''COMMON'' = ''COMMON''" by code_simp+
  then have "same_but_secrets ''gateway'' gateway_fields (process_env id [''AIRUSH_GATEWAY_SVC_TOKEN'' \<mapsto> ''one''])
      (process_env id [''AIRUSH_GATEWAY_SVC_TOKEN'' \<mapsto> ''two''])"
    by (auto simp: same_but_secrets_def gateway_fields_def field_def parse_tag_def Let_def tag_get_def tag_lookup_def is_secret_def
        process_env_def lookup_env_def env_name_def)
  from secrets_hidden [OF this] show ?thesis by blast
qed

section \<open>Texts\<close>

lemma trim_hd_last:
  assumes "trim_space s = s" "s \<noteq> []"
  shows "\<not> is_space (hd s) \<and> \<not> is_space (last s)"
proof -
  let ?d = "dropWhile is_space s" and ?t = "dropWhile is_space (rev (dropWhile is_space s))"
  have len: "length ?t = length s" using assms(1) by (metis length_rev trim_space_def)
  then have "length s \<le> length ?d" by (metis length_dropWhile_le length_rev)
  then have d: "?d = s" by (metis dropWhile_eq_self_iff hd_Cons_tl dropWhile.simps(2) length_dropWhile_le le_trans length_Cons not_less_eq_eq)
  with len have "length (dropWhile is_space (rev s)) = length (rev s)" by simp
  then have r: "dropWhile is_space (rev s) = rev s"
    by (metis append_self_conv2 length_append add_right_cancel add_0 length_0_conv takeWhile_dropWhile_id)
  from d r assms(2) show ?thesis by (auto simp: dropWhile_eq_self_iff hd_rev)
qed

lemma drop_none: "s = [] \<or> \<not> P (hd s) \<Longrightarrow> dropWhile P s = s"
  by (cases s) auto

lemma trim_id: "s = [] \<or> \<not> is_space (hd s) \<and> \<not> is_space (last s) \<Longrightarrow> trim_space s = s"
  by (auto simp: trim_space_def drop_none hd_rev)

lemma trim_empty:
  assumes "trim_space s = []" "c \<in> set s"
  shows "is_space c"
proof -
  have "\<forall>x \<in> set (dropWhile is_space s). is_space x" using assms(1) by (simp add: trim_space_def dropWhile_eq_Nil_conv)
  then have "dropWhile is_space s = []" by (metis hd_dropWhile hd_in_set)
  with assms(2) show ?thesis by (simp add: dropWhile_eq_Nil_conv)
qed

lemma trim_trim [simp]: "trim_space (trim_space s) = trim_space s"
proof (rule trim_id)
  let ?d = "dropWhile is_space s"
  have "\<not> is_space (hd (rev (dropWhile is_space (rev ?d)))) \<and> \<not> is_space (last (rev (dropWhile is_space (rev ?d))))"
    if n: "dropWhile is_space (rev ?d) \<noteq> []"
  proof
    show "\<not> is_space (last (rev (dropWhile is_space (rev ?d))))" using hd_dropWhile [OF n] by (simp add: last_rev)
    obtain a b where ab: "rev ?d = a @ b" "b = dropWhile is_space (rev ?d)" by (metis takeWhile_dropWhile_id)
    then have "?d = rev b @ rev a" by (metis rev_append rev_rev_ident)
    moreover have "b \<noteq> []" using ab n by simp
    ultimately have "hd ?d = hd (rev b)" "?d \<noteq> []" by auto
    with hd_dropWhile [of is_space s] ab(2) show "\<not> is_space (hd (rev (dropWhile is_space (rev ?d))))" by simp
  qed
  then show "trim_space s = [] \<or> \<not> is_space (hd (trim_space s)) \<and> \<not> is_space (last (trim_space s))"
    by (auto simp: trim_space_def)
qed

lemma set_trim: "set (trim_space s) \<subseteq> set s"
  by (metis set_dropWhileD set_rev subsetI trim_space_def)

lemma split_on_join:
  assumes "ws \<noteq> []" "\<forall>w \<in> set ws. sep \<notin> set w"
  shows "split_on sep (join [sep] ws) = ws"
  using assms
proof (induction "[sep]" ws rule: join.induct)
  case (2 x)
  then show ?case by (simp add: split_on_last)
next
  case (3 x y zs)
  then show ?case by (simp add: split_on_word)
qed simp

lemma split_part_free: "w \<in> set (split_on sep s) \<Longrightarrow> sep \<notin> set w"
  by (induction s arbitrary: w) (auto split: if_splits list.splits)

section \<open>Skill endpoints\<close>

text \<open>A name and a URL as the runtime uses them, and how they are written.\<close>

definition endpoint_ok :: "string \<times> string \<Rightarrow> bool" where
  "endpoint_ok e = (case e of (n, u) \<Rightarrow> n \<noteq> [] \<and> trim_space n = n \<and> CHR ''='' \<notin> set n \<and> CHR '','' \<notin> set n
     \<and> mcp_scheme u \<and> trim_space u = u \<and> CHR '','' \<notin> set u)"

definition endpoint_text :: "string \<times> string \<Rightarrow> string" where
  "endpoint_text e = fst e @ CHR ''='' # snd e"

definition endpoints_text :: "(string \<times> string) list \<Rightarrow> string" where
  "endpoints_text es = join [CHR '',''] (map endpoint_text es)"

lemma mcp_scheme_nonempty: "mcp_scheme u \<Longrightarrow> u \<noteq> []"
  by (auto simp: mcp_scheme_def has_prefix_def)

lemma endpoint_text_ok:
  assumes "endpoint_ok (n, u)"
  shows "trim_space (endpoint_text (n, u)) = endpoint_text (n, u)" "cut CHR ''='' (endpoint_text (n, u)) = Some (n, u)"
    "CHR '','' \<notin> set (endpoint_text (n, u))"
proof -
  have u: "u \<noteq> []" "n \<noteq> []" using assms mcp_scheme_nonempty by (auto simp: endpoint_ok_def)
  have "\<not> is_space (hd n)" "\<not> is_space (last u)"
    using trim_hd_last [of n] trim_hd_last [of u] u assms by (auto simp: endpoint_ok_def)
  then show "trim_space (endpoint_text (n, u)) = endpoint_text (n, u)"
    using u by (intro trim_id) (simp add: endpoint_text_def)
  show "cut CHR ''='' (endpoint_text (n, u)) = Some (n, u)" "CHR '','' \<notin> set (endpoint_text (n, u))"
    using assms by (auto simp: endpoint_text_def endpoint_ok_def cut_append)
qed

lemma mcp_parts_sound:
  assumes "mcp_parts ps out = Inr es" "\<forall>p \<in> set ps. CHR '','' \<notin> set p" "distinct (map fst out)" "\<forall>e \<in> set out. endpoint_ok e"
  shows "distinct (map fst es) \<and> (\<forall>e \<in> set es. endpoint_ok e)"
  using assms
proof (induction ps out rule: mcp_parts.induct)
  case (2 p ps out)
  show ?case
  proof (cases "trim_space p = []")
    case True
    with 2 show ?thesis by simp
  next
    case False
    with 2(3) obtain n u where nu: "cut CHR ''='' (trim_space p) = Some (n, u)" "trim_space n \<noteq> []" "mcp_scheme (trim_space u)"
        "trim_space n \<notin> fst ` set out" "mcp_parts ps (out @ [(trim_space n, trim_space u)]) = Inr es"
      by (auto simp: Let_def split: option.splits if_splits)
    from cut_Some [OF nu(1)] have c: "trim_space p = n @ CHR ''='' # u" "CHR ''='' \<notin> set n" by auto
    then have "set n \<subseteq> set p" "set u \<subseteq> set p" using set_trim [of p] by auto
    then have "endpoint_ok (trim_space n, trim_space u)"
      using nu(2,3) c(2) 2(4) set_trim [of n] set_trim [of u] by (auto simp: endpoint_ok_def)
    with 2(2) [OF refl False nu(1) refl refl refl] nu 2(4-6) show ?thesis by auto
  qed
qed simp

lemma mcp_parts_complete:
  assumes "distinct (map fst (out @ es))" "\<forall>e \<in> set es. endpoint_ok e"
  shows "mcp_parts (map endpoint_text es) out = Inr (out @ es)"
  using assms
proof (induction es arbitrary: out)
  case (Cons e es)
  obtain n u where e: "e = (n, u)" by force
  with Cons(3) have ok: "endpoint_ok (n, u)" by simp
  then have "n \<noteq> []" "trim_space n = n" "trim_space u = u" "mcp_scheme u" by (auto simp: endpoint_ok_def)
  moreover have "endpoint_text (n, u) \<noteq> []" "n \<notin> fst ` set out" using Cons(2) e by (auto simp: endpoint_text_def)
  ultimately show ?case using Cons endpoint_text_ok [OF ok] by (simp add: e Let_def)
qed simp

text \<open>The skills that are configured are the skills that are asked for. When an endpoint list is accepted, its names are
  distinct and not empty, its URLs are of a known scheme, neither carries a blank at its ends, and writing the pairs
  back gives a text that is read as the same list.\<close>

lemma endpoints_read:
  assumes "parse_mcp_endpoints raw = Inr es"
  shows "distinct (map fst es) \<and> (\<forall>e \<in> set es. endpoint_ok e) \<and> parse_mcp_endpoints (endpoints_text es) = Inr es"
proof -
  have ok: "distinct (map fst es) \<and> (\<forall>e \<in> set es. endpoint_ok e)"
  proof (cases "trim_space raw = []")
    case False
    with assms have "mcp_parts (split_on CHR '','' raw) [] = Inr es" by (simp add: parse_mcp_endpoints_def)
    then show ?thesis by (rule mcp_parts_sound) (auto dest: split_part_free)
  qed (use assms in \<open>simp add: parse_mcp_endpoints_def\<close>)
  moreover have "parse_mcp_endpoints (endpoints_text es) = Inr es"
  proof (cases es)
    case Nil
    then show ?thesis by (simp add: endpoints_text_def parse_mcp_endpoints_def trim_space_def)
  next
    case (Cons e es')
    have free: "\<forall>w \<in> set (map endpoint_text es). CHR '','' \<notin> set w" using ok endpoint_text_ok(3) by auto
    have s: "split_on CHR '','' (endpoints_text es) = map endpoint_text es"
      unfolding endpoints_text_def using Cons free by (intro split_on_join) auto
    have "trim_space (endpoints_text es) \<noteq> []"
    proof
      assume "trim_space (endpoints_text es) = []"
      then have "\<forall>c \<in> set (endpoints_text es). is_space c"
        using trim_empty by blast
      moreover have "CHR ''='' \<in> set (endpoints_text es)"
        by (cases es') (auto simp: Cons endpoints_text_def endpoint_text_def)
      moreover have "\<not> is_space CHR ''=''" by code_simp
      ultimately show False by blast
    qed
    with s mcp_parts_complete [of "[]" es] ok show ?thesis by (simp add: parse_mcp_endpoints_def)
  qed
  ultimately show ?thesis by blast
qed

lemma endpoints_read_witness:
  "parse_mcp_endpoints '' a = http://x , b=https://y'' = Inr [(''a'', ''http://x''), (''b'', ''https://y'')]
    \<and> parse_mcp_endpoints (endpoints_text [(''a'', ''http://x''), (''b'', ''https://y'')]) = Inr [(''a'', ''http://x''), (''b'', ''https://y'')]"
proof -
  have p: "parse_mcp_endpoints '' a = http://x , b=https://y'' = Inr [(''a'', ''http://x''), (''b'', ''https://y'')]" by code_simp
  from endpoints_read [OF p] p show ?thesis by blast
qed

section \<open>Processes that serve\<close>

lemma missing_vars_Nil: "missing_vars fs vs tab = [] \<longleftrightarrow> (\<forall>(v, n) \<in> set tab. cfg_text fs vs n \<noteq> [])"
  by (auto simp: missing_vars_def filter_empty_conv)

text \<open>A runtime that serves has every required value, limits the turns of a tenant, and the error that \<open>startMCP\<close> ignores cannot
  occur: it asks for exactly the skills of its configuration.\<close>

lemma agent_served:
  assumes "agent_main std dotenv env fl = Serving vs"
  shows "(\<forall>(v, n) \<in> set agent_required. cfg_text agent_fields vs n \<noteq> []) \<and> 0 < tl_max (gp_limiter (agent_run e h vs)) \<and> 0 < gp_drain (agent_run e h vs)
    \<and> (\<exists>es. parse_mcp_endpoints (cfg_text agent_fields vs ''MCPEndpoints'') = Inr es \<and> gp_skills (agent_run e h vs) = (if es = [] then None else Some es))"
proof -
  from assms have "validate_serve_config vs = None"
    by (auto simp: agent_main_def main_start_def split: sum.splits if_splits option.splits prod.splits)
  then have v: "missing_vars agent_fields vs agent_required = []" "0 < cfg_int agent_fields vs ''MaxConcurrentTurns''"
      "0 < cfg_int agent_fields vs ''DrainTimeout''" and "\<exists>es. parse_mcp_endpoints (cfg_text agent_fields vs ''MCPEndpoints'') = Inr es"
    by (auto simp: validate_serve_config_def Let_def split: if_splits sum.splits)
  then obtain es where "parse_mcp_endpoints (cfg_text agent_fields vs ''MCPEndpoints'') = Inr es" by blast
  with v show ?thesis
    by (auto simp: agent_run_def new_tenant_limiter_def start_mcp_def missing_vars_Nil split: list.splits)
qed

lemma ensure_quota_Inr:
  "ensure_quota now b s = Inr (x, s') \<Longrightarrow> 0 \<le> b \<and> s' = (if c_quota s = None then s\<lparr>c_quota := Some \<lparr>qr_budget = b, qr_hard = True, qr_updated = now\<rparr>\<rparr> else s)"
  by (auto simp: ensure_quota_def split: if_splits option.splits)

lemma new_sealer_Inr: "new_sealer k i = Inr sl \<Longrightarrow> length (sl_kek sl) = kek_len \<and> sl_key_id sl = i \<and> i \<noteq> []"
  by (auto simp: new_sealer_def split: if_splits option.splits)

definition console_tenant :: "cfg_value list \<Rightarrow> string" where
  "console_tenant vs = cfg_text console_fields vs ''DefaultTenantID''"


definition sample_start :: start_env where
  "sample_start = \<lparr>se_store = True, se_series = True, se_url = True, se_ca = True, se_fault = NoFault, se_now = 7\<rparr>"

definition sample_console :: "cfg_value list" where
  "sample_console = [VString ''info'', VString '':8080'', VString [], VFloat ''1'', VString ''db'', VString (replicate 43 CHR ''A'' @ ''=''),
     VString ''v1'', VString sample_ds, VString ''tok'', VString ''cert'', VString ''key'', VDuration (600 * second), VDuration (8 * second),
     VString [], VString [], VDuration (60 * second), VDuration (300 * second), VDuration (3600 * second), VInt 5000, VInt 50000000]"

lemma sample_kek: "\<exists>sl. new_sealer (replicate 43 CHR ''A'' @ ''='') ''v1'' = Inr sl"
proof -
  have "isl (new_sealer (replicate 43 CHR ''A'' @ ''='') ''v1'') = False" by code_simp
  then show ?thesis by (cases "new_sealer (replicate 43 CHR ''A'' @ ''='') ''v1''") auto
qed

lemma sample_console_values [simp]:
  "cfg_text console_fields sample_console ''CredentialKEK'' = replicate 43 CHR ''A'' @ ''=''"
  "cfg_text console_fields sample_console ''CredentialKEKID'' = ''v1''"
  "cfg_text console_fields sample_console ''DefaultTenantID'' = sample_ds"
  "cfg_text console_fields sample_console ''AgentRuntimeURL'' = []"
  "cfg_int console_fields sample_console ''LLMDefaultTokenBudget'' = 50000000"
  by (simp_all add: cfg_text_def cfg_int_def cfg_value_of_def console_fields_def sample_console_def field_def)


end
