(* ===== verification/Spec2Isabelle.thy ===== *)
theory Spec2Isabelle
  imports AgentApi AgentApiProps AgentGraph ApiError Approvals Codex Collect CollectedApi CollectedProps Collector CollectorProps ConfigLoad ConfigProps Connector ConnectorLife ConnectorProps ConsoleApi ConsoleConnectors ConsoleDatasources ConsoleDb ConsoleHttp ConsoleInventory ConsoleLlm ConsoleProps CredCrypto DirectConn DirectProps Engine EngineInv EngineLoop EngineProps EngineQueue EngineState EngineTail EnrollRun Gateway GatewayAuth GatewayProps GatewayRuns GoDuration GoText GoTime InventoryProps Json JsonPrefix Keyset LlmLedger LlmMeter LlmProps LlmUsage Logging LoggingProps MetricsData MetricsJson MetricsProbe MetricsProps Prelude RolloutEvents Scheduler StartProps StartUp StoreState SvcApi ThreadStore TsProps TsStore TurnLease TurnPages
begin

text \<open>
  AIRush is a multi-tenant platform on which language-model agents operate databases. This
  development models the Go code of its four processes (agent runtime, console, gateway, connector)
  and of the libraries that they share, and proves what makes it correct.

  The parts and how they interact. The agent runtime serves an HTTP API
  (\<^verbatim>\<open>agent-runtime/internal/api\<close>) on top of an engine
  (\<^verbatim>\<open>agent-runtime/internal/runtime\<close>). The engine holds a session of an agent library for
  each thread that it runs a turn of; all lasting state (threads, their event log, the input queue, the
  graph of sub-agents) is in a store (\<^verbatim>\<open>agent-runtime/internal/pgstore\<close>) that all pods
  share, so that a lease on the thread row decides which pod runs a thread. A scheduler
  (\<^verbatim>\<open>agent-runtime/internal/scheduler\<close>) bounds the sessions of a tenant and sweeps the
  queues. Tool calls pass an approval gate (\<^verbatim>\<open>agent-runtime/internal/approvals\<close>), model calls a
  meter (\<^verbatim>\<open>libs/llm\<close>) that asks the console for quota and reports usage to it. The console
  (\<^verbatim>\<open>console/internal\<close>) keeps the inventory of datasources, their credentials, the connectors,
  the usage ledger and the collected time series, behind a public API and an internal one; its collector runs
  a loop for every datasource and kind, over a direct connection or through the gateway. The gateway
  (\<^verbatim>\<open>gateway/internal/accept\<close>) enrolls connectors and holds their sessions; a connector
  (\<^verbatim>\<open>connector/internal\<close>) answers commands from the customer's network and uploads what it reads,
  which the gateway hands to the console's internal API. Errors carry registered codes
  (\<^verbatim>\<open>libs/apierror\<close>), every statement runs in a transaction of one tenant
  (\<^verbatim>\<open>libs/tenancy\<close>), configuration and logs are shared (\<^verbatim>\<open>libs/config\<close>,
  \<^verbatim>\<open>libs/obs\<close>).

  Theories and what they model. A theory whose name ends in \<open>Props\<close> holds what is proved of the one it is
  named after; each opens with what it holds.
  \<^item> \<open>Prelude\<close>: tables as lists of rows with the SQL statements the store uses, the lemma collections.
  \<^item> \<open>ApiError\<close>: \<^verbatim>\<open>libs/apierror\<close>: codes, error chains, the HTTP exit.
  \<^item> \<open>StoreState\<close>: the rows of the tables, the tenant transaction \<open>in_tenant_tx\<close> with the faults of
    the database (\<^verbatim>\<open>store.go\<close>). A definition whose name ends in \<open>_tx\<close> is the body of a
    transaction; the operation is that body under \<open>in_tenant_tx\<close>.
  \<^item> \<open>GoText\<close>, \<open>Json\<close>, \<open>GoTime\<close>: what the code uses of Go's strconv, strings, base64, encoding/json and
    time, with their round trips. \<open>Keyset\<close>: pages by keyset cursors, a locale interpreted by the listings.
  \<^item> \<open>Codex\<close>: the shapes and the operations of the agent library, which is not in the repository: every
    operation is a field of a record that the definitions take as an argument.
  \<^item> \<open>Approvals\<close>: the approval stage and the gated tool caller (\<^verbatim>\<open>approvals.go\<close>,
    \<^verbatim>\<open>mcp.go\<close>, \<^verbatim>\<open>tenantctx.go\<close>).
  \<^item> \<open>RolloutEvents\<close>, \<open>ThreadStore\<close>, \<open>TurnLease\<close>, \<open>TurnPages\<close>, \<open>AgentGraph\<close>: the store
    (\<^verbatim>\<open>events.go\<close>, \<^verbatim>\<open>threads.go\<close>, \<^verbatim>\<open>thread_meta.go\<close>,
    \<^verbatim>\<open>runtime.go\<close>, \<^verbatim>\<open>agents.go\<close>, \<^verbatim>\<open>items.go\<close>,
    \<^verbatim>\<open>turns.go\<close>, \<^verbatim>\<open>graph.go\<close>). \<open>TurnLease\<close> ends with all of them as one
    step relation and its invariant.
  \<^item> \<open>Scheduler\<close>: the tenant limiter, a locale of slot limiters, and the sweep.
  \<^item> \<open>EngineState\<close>, \<open>Engine\<close>, \<open>EngineLoop\<close>: the state of a pod, its operations, and its background
    work; \<open>EngineInv\<close>, \<open>EngineProps\<close>, \<open>EngineTail\<close>, \<open>EngineQueue\<close>: the invariant of the pod's table, the
    step relation of the engine with the rest of the world as a step, draining, the event tail and the
    durability of inputs.
  \<^item> \<open>AgentApi\<close>, \<open>AgentApiProps\<close>: the HTTP surface over engine and store (\<^verbatim>\<open>server.go\<close>,
    \<^verbatim>\<open>handlers.go\<close>, \<^verbatim>\<open>sse.go\<close>), and what it guarantees down to the tables.
  \<^item> \<open>LlmUsage\<close>, \<open>LlmMeter\<close>, \<open>LlmProps\<close>, \<open>LlmLedger\<close>: extraction of usage from answers and streams, the
    metering transport, and from the meter over a network with faults to the ledger (\<^verbatim>\<open>libs/llm\<close>).
  \<^item> \<open>ConsoleDb\<close>, \<open>ConsoleHttp\<close>, \<open>ConsoleLlm\<close>, \<open>ConsoleConnectors\<close>, \<open>ConsoleInventory\<close>, \<open>ConsoleDatasources\<close>,
    \<open>ConsoleApi\<close>: the tables, transactions, validation and handlers of the console (\<^verbatim>\<open>repo\<close>,
    \<^verbatim>\<open>httpapi\<close>, \<^verbatim>\<open>svcapi\<close>); \<open>CredCrypto\<close>: the envelope of credentials;
    \<open>ConnectorLife\<close>, \<open>InventoryProps\<close>, \<open>ConsoleProps\<close>: the life of a connector, the invariant of the inventory,
    one tenant for each request, the confinement of passwords.
  \<^item> \<open>MetricsData\<close>, \<open>MetricsJson\<close>, \<open>MetricsProbe\<close>: catalogues, batches and snapshots with their JSON, the probes
    (\<^verbatim>\<open>libs/metrics\<close>); \<open>TsStore\<close>: publishing and queries (\<^verbatim>\<open>tsstore\<close>);
    \<open>CollectedApi\<close>: their public queries; \<open>GoDuration\<close>: durations.
  \<^item> \<open>SvcApi\<close>, \<open>JsonPrefix\<close>: ingestion and its client; JSON with trailing input.
  \<^item> \<open>Gateway\<close>, \<open>GatewayProps\<close>, \<open>GatewayAuth\<close>, \<open>GatewayRuns\<close>: sessions as a machine of steps, its invariant and runs;
    \<open>Collect\<close>: the collect API between console and gateway.
  \<^item> \<open>Connector\<close>, \<open>ConnectorProps\<close>, \<open>EnrollRun\<close>: handlers, the session's sender and receiver as steps, the files of an enrollment.
  \<^item> \<open>Collector\<close>, \<open>DirectConn\<close>: the table of loops and its reconciliation with the inventory; the pools of direct
    connections, with lookup, building and registration as separate steps of concurrent requests.
  \<^item> \<open>ConfigLoad\<close>, \<open>StartUp\<close>: configurations, and what the processes decide before they serve. \<open>Logging\<close>: masking,
    required fields and exits of the logs, with the locale \<open>masked\<close>, which each secret pattern interprets.

  Correspondence. A Go struct is a record, a table row too; times are microseconds as \<open>int\<close>; strings
  are byte lists. A transaction body maps the tenant's tables to an error or to a result and new tables.
  Faults of the database are arguments (\<open>tx_fault\<close>) or a stream in the engine's state. A goroutine's
  loop is a step function and the list of its rounds. An operation of the engine runs to its end before
  the next one: interleavings inside one operation are not modelled, those of operations, pods and
  background work are.

  Bounds and fuel. The JSON parser recurses on fuel twice the length of its input, which
  \<open>json_parse_text\<close> shows to be enough for every printed value. The descendants query is a partial
  function without fuel: no value means that the query does not return; \<open>list_pages\<close> of the collector is one too and is proved to return. The
  durations' parser terminates by the length of the text. The limits of the code (body sizes, batch rows, points,
  windows, back-offs) are constants of the model.

  Parameters. What is not in the repository is an argument: the agent library, the database driver with its pools,
  block cipher, hash and certificate functions, floating point operations, random values, clocks, the network's faults,
  what godotenv adds to the environment.

  Not modelled: PostgreSQL beyond the statements used, the model client and tool router that the engine wires, TLS and
  gRPC streams below the messages, the certificate authority, tracing and metrics export, listening and signals,
  migrations, generated protobuf code, the deployment files, the message templates of errors, and the query parameters
  of the usage listing.
\<close>

end
